(* ===== verification/Prelude.thy ===== *)
theory Prelude
  imports Main "HOL-Library.AList" "HOL-Library.List_Lexorder" "HOL-Library.Char_ord"
    "HOL-Library.Word" "HOL-Library.Multiset"
begin

text \<open>
  Shared ground of the kubexm development: the Go types every component uses (machine
  integers, instants, error messages, dynamically typed values, built-in maps), the
  interface of a keyed store as a locale, and the list and map lemmas the component
  theories rest on.

  A Go built-in map is an association list with distinct keys (\<open>gm_ok\<close>). The order of
  the list is the order in which one \<^verbatim>\<open>range\<close> loop enumerates it; Go leaves that order
  open, and every theorem about a loop holds for every list, hence for every order.
  Go strings are byte strings, as \<^typ>\<open>string\<close> is, and the lexicographic order of
  \<open>HOL-Library.List_Lexorder\<close> over \<open>HOL-Library.Char_ord\<close> is Go's \<^verbatim>\<open><\<close> on strings.
\<close>

section \<open>Go's basic types\<close>

type_synonym goint = "64 word"
  \<comment> \<open>\<^verbatim>\<open>int\<close> and \<^verbatim>\<open>int64\<close> on the supported 64-bit platforms: arithmetic wraps\<close>

type_synonym gotime = int
  \<comment> \<open>an instant, in nanoseconds; \<^verbatim>\<open>0\<close> stands for the zero \<^verbatim>\<open>time.Time\<close>\<close>

type_synonym duration = goint
  \<comment> \<open>\<^verbatim>\<open>time.Duration\<close>: an \<^verbatim>\<open>int64\<close> number of nanoseconds\<close>

type_synonym goerr = string
  \<comment> \<open>an \<^verbatim>\<open>error\<close> value as its message; \<open>None\<close> of \<open>goerr option\<close> is \<^verbatim>\<open>nil\<close>\<close>

text \<open>
  The kubeadm, etcd and PKI records that steps hand to each other through the state bags
  (\<^verbatim>\<open>runtime/data_flow.go\<close>).
\<close>

record KubeadmInitData =
  kid_Token :: string
  kid_CACertHash :: string
  kid_JoinURL :: string
  kid_APIServer :: string

record KubeadmJoinData =
  kjd_JoinURL :: string
  kjd_Token :: string
  kjd_CACertHash :: string
  kjd_APIServer :: string

record EtcdClusterData =
  ecd_Endpoints :: "string list"
  ecd_ClientCert :: string
  ecd_ClientKey :: string
  ecd_CACert :: string

record PKIInfo =
  pki_CACert :: string
  pki_ClientCert :: string
  pki_ClientKey :: string
  pki_ServerCert :: string
  pki_ServerKey :: string

text \<open>
  \<^verbatim>\<open>interface{}\<close> values: one constructor per dynamic type that the code stores or asserts.
  A struct and a pointer to it are different dynamic types. \<open>VOther\<close> is any other type.
\<close>

datatype goval =
    VNil
  | VString string
  | VInt goint
  | VInt64 goint
  | VBool bool
  | VFloat64 nat
  | VTime gotime
  | VStrings "string list"
  | VKubeadmInitData KubeadmInitData
  | VPtrKubeadmInitData KubeadmInitData
  | VKubeadmJoinData KubeadmJoinData
  | VPtrKubeadmJoinData KubeadmJoinData
  | VEtcdClusterData EtcdClusterData
  | VPtrEtcdClusterData EtcdClusterData
  | VPKIInfo PKIInfo
  | VPtrPKIInfo PKIInfo
  | VOther nat

section \<open>Go's built-in maps\<close>

type_synonym ('k, 'v) gomap = "('k \<times> 'v) list"

type_synonym metadata = "(string, goval) gomap"
  \<comment> \<open>\<^verbatim>\<open>map[string]interface{}\<close>\<close>

abbreviation gm_get :: "('k, 'v) gomap \<Rightarrow> 'k \<Rightarrow> 'v option" where
  "gm_get m k \<equiv> map_of m k"

definition gm_has :: "('k, 'v) gomap \<Rightarrow> 'k \<Rightarrow> bool" where
  "gm_has m k \<longleftrightarrow> map_of m k \<noteq> None"

abbreviation gm_put :: "'k \<Rightarrow> 'v \<Rightarrow> ('k, 'v) gomap \<Rightarrow> ('k, 'v) gomap" where
  "gm_put k v m \<equiv> AList.update k v m"

abbreviation gm_del :: "'k \<Rightarrow> ('k, 'v) gomap \<Rightarrow> ('k, 'v) gomap" where
  "gm_del k m \<equiv> AList.delete k m"

abbreviation gm_keys :: "('k, 'v) gomap \<Rightarrow> 'k list" where
  "gm_keys m \<equiv> map fst m"

text \<open>Reading a missing key yields the zero value of the element type.\<close>

definition gm_getd :: "'v \<Rightarrow> ('k, 'v) gomap \<Rightarrow> 'k \<Rightarrow> 'v" where
  "gm_getd zero m k = (case gm_get m k of None \<Rightarrow> zero | Some v \<Rightarrow> v)"

definition gm_ok :: "('k, 'v) gomap \<Rightarrow> bool" where
  "gm_ok m \<longleftrightarrow> distinct (gm_keys m)"

named_theorems gomap_simps \<open>rewriting of reads and writes of Go maps\<close>
named_theorems gomap_intros \<open>key distinctness of Go maps\<close>

lemma gm_get_put [gomap_simps, simp]:
  "gm_get (gm_put k v m) k' = (if k' = k then Some v else gm_get m k')"
  by (simp add: update_conv')

lemma gm_get_del [gomap_simps, simp]:
  "gm_get (gm_del k m) k' = (if k' = k then None else gm_get m k')"
  by (simp add: delete_conv')

lemma gm_getd_put [gomap_simps, simp]:
  "gm_getd z (gm_put k v m) k' = (if k' = k then v else gm_getd z m k')"
  by (simp add: gm_getd_def)

lemma gm_getd_Nil [gomap_simps, simp]: "gm_getd z [] k = z"
  by (simp add: gm_getd_def)

lemma gm_has_Nil [simp]: "\<not> gm_has [] k"
  by (simp add: gm_has_def)

lemma gm_has_Cons [simp]: "gm_has ((k', v) # m) k \<longleftrightarrow> k = k' \<or> gm_has m k"
  by (auto simp: gm_has_def)

lemma gm_has_put [gomap_simps, simp]: "gm_has (gm_put k v m) k' \<longleftrightarrow> k' = k \<or> gm_has m k'"
  by (auto simp: gm_has_def)

lemma gm_has_del [gomap_simps, simp]: "gm_has (gm_del k m) k' \<longleftrightarrow> k' \<noteq> k \<and> gm_has m k'"
  by (auto simp: gm_has_def)

lemma gm_has_get: "gm_get m k = Some v \<Longrightarrow> gm_has m k"
  by (simp add: gm_has_def)

lemma gm_hasE: "gm_has m k \<Longrightarrow> (\<And>v. gm_get m k = Some v \<Longrightarrow> P) \<Longrightarrow> P"
  by (auto simp: gm_has_def)

lemma gm_keys_put: "gm_keys (gm_put k v m) = (if gm_has m k then gm_keys m else gm_keys m @ [k])"
  by (induction m) (auto split: prod.splits)

lemma gm_put_fresh: "k \<notin> set (gm_keys m) \<Longrightarrow> gm_put k v m = m @ [(k, v)]"
  by (induction m) auto

lemma gm_ok_Nil [gomap_intros, simp]: "gm_ok []"
  by (simp add: gm_ok_def)

lemma gm_has_iff [gomap_simps]: "gm_has m k \<longleftrightarrow> k \<in> set (gm_keys m)"
  by (metis gm_has_def map_of_eq_None_iff set_map)

lemma gm_ok_put [gomap_intros]: "gm_ok m \<Longrightarrow> gm_ok (gm_put k v m)"
  unfolding gm_ok_def by (simp add: distinct_update)

lemma gm_ok_del [gomap_intros]: "gm_ok m \<Longrightarrow> gm_ok (gm_del k m)"
  unfolding gm_ok_def by (simp add: distinct_delete)

lemma gm_get_in_set: "gm_get m k = Some v \<Longrightarrow> (k, v) \<in> set m"
  by (rule map_of_SomeD)

lemma gm_in_set_get: "gm_ok m \<Longrightarrow> (k, v) \<in> set m \<Longrightarrow> gm_get m k = Some v"
  by (simp add: gm_ok_def)

lemma gm_ok_map_values [simp]: "gm_ok (map (\<lambda>(k, v). (k, f k v)) m) = gm_ok m"
  by (simp add: gm_ok_def comp_def case_prod_beta)

lemma gm_get_map_values [gomap_simps]:
  "gm_get (map (\<lambda>(k, v). (k, f k v)) m) k = map_option (f k) (gm_get m k)"
  by (induction m) auto

lemma length_gm_put: "length (gm_put k v m) = (if gm_has m k then length m else Suc (length m))"
proof -
  have "length (gm_put k v m) = length (gm_keys (gm_put k v m))" by simp
  then show ?thesis by (simp add: gm_keys_put)
qed

text \<open>A map as a set of key/value pairs: two lists with the same reads are the same map.\<close>

definition gm_eq :: "('k, 'v) gomap \<Rightarrow> ('k, 'v) gomap \<Rightarrow> bool" where
  "gm_eq m m' \<longleftrightarrow> set m = set m'"

lemma gm_eq_get: "gm_ok m \<Longrightarrow> gm_ok m' \<Longrightarrow> gm_eq m m' \<Longrightarrow> gm_get m = gm_get m'"
  unfolding gm_eq_def gm_ok_def by (metis map_of_inject_set)

section \<open>Keyed stores\<close>

text \<open>
  The contract shared by the state bags, the typed state bags, the data bus and the cache
  as the code above them uses it: a value read back is the value stored last under that
  key, other keys are untouched, a deleted key is absent.
\<close>

locale keyed_store =
  fixes st_empty :: "'s"
    and st_set :: "string \<Rightarrow> 'v \<Rightarrow> 's \<Rightarrow> 's"
    and st_get :: "'s \<Rightarrow> string \<Rightarrow> 'v option"
    and st_delete :: "string \<Rightarrow> 's \<Rightarrow> 's"
  assumes get_empty: "st_get st_empty k = None"
    and get_set: "st_get (st_set k v s) k' = (if k' = k then Some v else st_get s k')"
    and get_delete: "st_get (st_delete k s) k' = (if k' = k then None else st_get s k')"
begin

lemma set_set_same: "st_get (st_set k v (st_set k w s)) = st_get (st_set k v s)"
  by (rule ext) (simp add: get_set)

lemma set_commute: "k \<noteq> k' \<Longrightarrow> st_get (st_set k v (st_set k' w s)) = st_get (st_set k' w (st_set k v s))"
  by (rule ext) (auto simp: get_set)

lemma set_delete: "st_get (st_delete k (st_set k v s)) = st_get (st_delete k s)"
  by (rule ext) (simp add: get_set get_delete)

lemma get_fold_set:
  "distinct (map fst kvs) \<Longrightarrow>
   st_get (fold (\<lambda>(k, v). st_set k v) kvs s) k =
     (case map_of kvs k of Some v \<Rightarrow> Some v | None \<Rightarrow> st_get s k)"
proof (induction kvs arbitrary: s)
  case Nil
  then show ?case by simp
next
  case (Cons kv kvs)
  then have "fst kv \<notin> fst ` set kvs" by simp
  then have "map_of kvs (fst kv) = None" by (simp add: map_of_eq_None_iff)
  with Cons show ?case by (auto simp: get_set split: prod.splits option.splits)
qed

end

interpretation gomap_store: keyed_store "[]" "\<lambda>k v m. gm_put k v m" "\<lambda>m k. gm_get m k" "\<lambda>k m. gm_del k m"
  by unfold_locales simp_all

section \<open>Lists\<close>

lemma filter_eq_Cons_remove1: "distinct xs \<Longrightarrow> x \<in> set xs \<Longrightarrow> length (filter ((\<noteq>) x) xs) = length xs - 1"
  by (metis distinct_remove1_removeAll length_remove1 removeAll_filter_not_eq)

lemma remdups_keep_distinct: "distinct xs \<Longrightarrow> remdups xs = xs"
  by simp

lemma sort_remdups_eq_iff:
  fixes xs ys :: "'a::linorder list"
  shows "sort (remdups xs) = sort (remdups ys) \<longleftrightarrow> set xs = set ys"
proof
  assume "sort (remdups xs) = sort (remdups ys)"
  then have "set (sort (remdups xs)) = set (sort (remdups ys))" by simp
  then show "set xs = set ys" by simp
next
  assume "set xs = set ys"
  then show "sort (remdups xs) = sort (remdups ys)"
    by (metis sorted_list_of_set_sort_remdups)
qed

end
