(* ===== verification/Steps.thy ===== *)
theory Steps
  imports Prelude
begin

text \<open>
  Steps, the atomic operations of kubexm: their metadata and base (\<^verbatim>\<open>spec/spec.go\<close>,
  \<^verbatim>\<open>step/base.go\<close>), the result record a step hands back and its state changes
  (\<^verbatim>\<open>types/result.go\<close>), and the retry wrapper \<^verbatim>\<open>StepWithRetry\<close> (\<^verbatim>\<open>step/extended.go\<close>).

  A step acts on a remote host. The model keeps what the step says about itself (metadata,
  timeout, \<^verbatim>\<open>IgnoreError\<close>) and treats each call of \<^verbatim>\<open>Precheck\<close>, \<^verbatim>\<open>Run\<close> or
  \<^verbatim>\<open>Rollback\<close> as an answer of the environment, an argument of the definitions.
\<close>

section \<open>Metadata and hosts\<close>

record StepMeta =
  sm_Name :: string
  sm_Description :: string
  sm_Hidden :: bool
  sm_AllowFailure :: bool

record StepBase =
  sb_Meta :: StepMeta
  sb_Timeout :: duration
  sb_Sudo :: bool
  sb_IgnoreError :: bool

text \<open>A \<^verbatim>\<open>step.Step\<close> value: \<^verbatim>\<open>Meta()\<close> may return \<^verbatim>\<open>nil\<close>.\<close>

record Step =
  stp_Meta :: "StepMeta option"
  stp_Base :: StepBase

record Host =
  h_Name :: string
  h_Address :: string
  h_Roles :: "string list"

section \<open>Step results\<close>

datatype StepStatus =
    StepStatusPending | StepStatusRunning | StepStatusCompleted
  | StepStatusFailed | StepStatusSkipped | StepStatusRolledBack

record StepResult =
  sr_StepName :: string
  sr_ExecutionID :: string
  sr_Status :: StepStatus
  sr_StartTime :: gotime
  sr_EndTime :: gotime
  sr_Duration :: duration
  sr_HostName :: string
  sr_Message :: string
  sr_Error :: string
  sr_Metadata :: metadata
  sr_Artifacts :: "string list option"
  sr_PreCheckDone :: bool
  sr_RollbackDone :: bool

text \<open>\<^verbatim>\<open>time.Time.Sub\<close> saturates at the ends of the \<^verbatim>\<open>int64\<close> range.\<close>

definition time_Sub :: "gotime \<Rightarrow> gotime \<Rightarrow> duration" where
  "time_Sub t u = word_of_int (max (- (2 ^ 63)) (min (2 ^ 63 - 1) (t - u)))"

definition NewStepResult :: "gotime \<Rightarrow> string \<Rightarrow> string \<Rightarrow> Host \<Rightarrow> StepResult" where
  "NewStepResult now stepName executionID host =
     \<lparr>sr_StepName = stepName, sr_ExecutionID = executionID, sr_Status = StepStatusPending,
      sr_StartTime = now, sr_EndTime = 0, sr_Duration = 0, sr_HostName = h_Name host,
      sr_Message = '''', sr_Error = '''', sr_Metadata = [], sr_Artifacts = Some [],
      sr_PreCheckDone = False, sr_RollbackDone = False\<rparr>"

definition MarkCompleted :: "gotime \<Rightarrow> string \<Rightarrow> StepResult \<Rightarrow> StepResult" where
  "MarkCompleted now message r =
     r\<lparr>sr_Status := StepStatusCompleted, sr_EndTime := now,
       sr_Duration := time_Sub now (sr_StartTime r), sr_Message := message\<rparr>"

definition MarkFailed :: "gotime \<Rightarrow> goerr \<Rightarrow> string \<Rightarrow> StepResult \<Rightarrow> StepResult" where
  "MarkFailed now err message r =
     r\<lparr>sr_Status := StepStatusFailed, sr_EndTime := now,
       sr_Duration := time_Sub now (sr_StartTime r), sr_Error := err, sr_Message := message\<rparr>"

definition MarkSkipped :: "gotime \<Rightarrow> string \<Rightarrow> StepResult \<Rightarrow> StepResult" where
  "MarkSkipped now reason r =
     r\<lparr>sr_Status := StepStatusSkipped, sr_EndTime := now,
       sr_Duration := time_Sub now (sr_StartTime r), sr_Message := reason, sr_PreCheckDone := True\<rparr>"

definition MarkRunning :: "StepResult \<Rightarrow> StepResult" where
  "MarkRunning r = r\<lparr>sr_Status := StepStatusRunning\<rparr>"

definition MarkRolledBack :: "gotime \<Rightarrow> string \<Rightarrow> StepResult \<Rightarrow> StepResult" where
  "MarkRolledBack now message r =
     r\<lparr>sr_Status := StepStatusRolledBack, sr_EndTime := now,
       sr_Duration := time_Sub now (sr_StartTime r), sr_Message := message, sr_RollbackDone := True\<rparr>"

definition AddArtifact :: "string \<Rightarrow> StepResult \<Rightarrow> StepResult" where
  "AddArtifact path r =
     r\<lparr>sr_Artifacts := Some ((case sr_Artifacts r of None \<Rightarrow> [] | Some as \<Rightarrow> as) @ [path])\<rparr>"

definition SetMetadata :: "string \<Rightarrow> goval \<Rightarrow> StepResult \<Rightarrow> StepResult" where
  "SetMetadata key v r = r\<lparr>sr_Metadata := gm_put key v (sr_Metadata r)\<rparr>"

definition GetMetadata :: "StepResult \<Rightarrow> string \<Rightarrow> goval option" where
  "GetMetadata r key = gm_get (sr_Metadata r) key"

named_theorems step_result_defs \<open>the operations on step results\<close>

declare NewStepResult_def [step_result_defs] MarkCompleted_def [step_result_defs]
  MarkFailed_def [step_result_defs] MarkSkipped_def [step_result_defs]
  MarkRunning_def [step_result_defs] MarkRolledBack_def [step_result_defs]
  AddArtifact_def [step_result_defs] SetMetadata_def [step_result_defs]
  GetMetadata_def [step_result_defs]

text \<open>The operations of a step result, as a sequence of commands on one record.\<close>

datatype result_op =
    OpCompleted gotime string | OpFailed gotime goerr string | OpSkipped gotime string
  | OpRunning | OpRolledBack gotime string | OpArtifact string | OpMetadata string goval

fun apply_result_op :: "result_op \<Rightarrow> StepResult \<Rightarrow> StepResult" where
  "apply_result_op (OpCompleted now m) r = MarkCompleted now m r"
| "apply_result_op (OpFailed now e m) r = MarkFailed now e m r"
| "apply_result_op (OpSkipped now m) r = MarkSkipped now m r"
| "apply_result_op OpRunning r = MarkRunning r"
| "apply_result_op (OpRolledBack now m) r = MarkRolledBack now m r"
| "apply_result_op (OpArtifact p) r = AddArtifact p r"
| "apply_result_op (OpMetadata k v) r = SetMetadata k v r"

definition step_finished :: "StepStatus \<Rightarrow> bool" where
  "step_finished s \<longleftrightarrow> s \<noteq> StepStatusPending \<and> s \<noteq> StepStatusRunning"

definition step_result_ok :: "StepResult \<Rightarrow> bool" where
  "step_result_ok r \<longleftrightarrow>
     gm_ok (sr_Metadata r) \<and>
     (step_finished (sr_Status r) \<longrightarrow> sr_Duration r = time_Sub (sr_EndTime r) (sr_StartTime r)) \<and>
     (sr_Status r = StepStatusSkipped \<longrightarrow> sr_PreCheckDone r) \<and>
     (sr_Status r = StepStatusRolledBack \<longrightarrow> sr_RollbackDone r)"

lemma apply_result_op_ok: "step_result_ok r \<Longrightarrow> step_result_ok (apply_result_op op r)"
  by (cases op) (auto simp: step_result_ok_def step_finished_def step_result_defs gm_ok_put)

lemma apply_result_op_frame:
  "sr_StartTime (apply_result_op op r) = sr_StartTime r \<and>
   sr_HostName (apply_result_op op r) = sr_HostName r \<and>
   sr_StepName (apply_result_op op r) = sr_StepName r"
  by (cases op) (simp_all add: step_result_defs)

lemma NewStepResult_ok: "step_result_ok (NewStepResult now n e h)"
  by (simp add: step_result_ok_def step_finished_def step_result_defs)

section \<open>Retrying a step\<close>

record RetryPolicy =
  rp_MaxRetries :: int
  rp_RetryDelay :: duration
  rp_RetryableErrors :: "string list"

text \<open>
  \<^verbatim>\<open>BackoffMultiplier\<close> is a \<^verbatim>\<open>float64\<close>; the loop only uses the function
  \<^verbatim>\<open>delay -> time.Duration(float64(delay) * multiplier)\<close>, a parameter \<open>backoff\<close> here.
  \<^verbatim>\<open>NewStepWithRetry\<close> fills in a policy of 3 retries, 5 seconds and no retryable errors.
\<close>

definition default_retry_policy :: RetryPolicy where
  "default_retry_policy =
     \<lparr>rp_MaxRetries = 3, rp_RetryDelay = 5000000000, rp_RetryableErrors = []\<rparr>"

definition NewStepWithRetry :: "RetryPolicy option \<Rightarrow> RetryPolicy" where
  "NewStepWithRetry policy = (case policy of None \<Rightarrow> default_retry_policy | Some p \<Rightarrow> p)"

text \<open>The substring test, with the loop of the source over the start index.\<close>

fun contains_from :: "nat \<Rightarrow> string \<Rightarrow> string \<Rightarrow> nat \<Rightarrow> bool" where
  "contains_from 0 str substr i = False"
| "contains_from (Suc n) str substr i =
     (if take (length substr) (drop i str) = substr then True
      else contains_from n str substr (Suc i))"

definition contains :: "string \<Rightarrow> string \<Rightarrow> bool" where
  "contains str substr =
     (if length substr \<le> length str
      then contains_from (length str - length substr + 1) str substr 0 else False)"

definition isRetryableError :: "RetryPolicy \<Rightarrow> goerr \<Rightarrow> bool" where
  "isRetryableError p err = list_ex (contains err) (rp_RetryableErrors p)"

type_synonym run_answer = "StepResult option \<times> goerr option"

definition run_succeeded :: "run_answer \<Rightarrow> bool" where
  "run_succeeded a \<longleftrightarrow> snd a = None \<and>
     (case fst a of None \<Rightarrow> True | Some r \<Rightarrow> sr_Status r \<noteq> StepStatusFailed)"

text \<open>
  The loop of \<^verbatim>\<open>StepWithRetry.Run\<close>. \<open>run k\<close> is what the wrapped step's \<^verbatim>\<open>Run\<close> answers
  to call \<open>k\<close>; the result carries the number of calls made and the pauses between them.
  \<open>left\<close> counts the iterations that \<^verbatim>\<open>attempt <= MaxRetries\<close> still admits.
\<close>

record retry_outcome =
  ro_result :: "StepResult option"
  ro_err :: "goerr option"
  ro_calls :: nat
  ro_sleeps :: "duration list"

fun retry_loop :: "RetryPolicy \<Rightarrow> (duration \<Rightarrow> duration) \<Rightarrow> (nat \<Rightarrow> run_answer) \<Rightarrow>
    nat \<Rightarrow> nat \<Rightarrow> goerr option \<Rightarrow> duration \<Rightarrow> retry_outcome" where
  "retry_loop p backoff run 0 attempt lastErr delay =
     \<lparr>ro_result = None, ro_err = lastErr, ro_calls = attempt, ro_sleeps = []\<rparr>"
| "retry_loop p backoff run (Suc left) attempt lastErr delay =
     (let (result, err) = run attempt;
          stop = (\<lambda>r e. \<lparr>ro_result = r, ro_err = e, ro_calls = Suc attempt, ro_sleeps = []\<rparr>)
      in if run_succeeded (result, err) then stop result None
         else
           let lastErr' = (case err of None \<Rightarrow> lastErr | Some e \<Rightarrow> Some e);
               retryable = (case err of None \<Rightarrow> False | Some e \<Rightarrow> isRetryableError p e)
           in if \<not> retryable \<and> (case result of None \<Rightarrow> False | Some r \<Rightarrow> sr_Status r \<noteq> StepStatusFailed)
              then stop result None
              else if \<not> retryable then stop result err
              else if left = 0
              then retry_loop p backoff run left (Suc attempt) lastErr' delay
              else let o' = retry_loop p backoff run left (Suc attempt) lastErr' (backoff delay)
                   in o'\<lparr>ro_sleeps := delay # ro_sleeps o'\<rparr>)"

definition StepWithRetry_Run :: "RetryPolicy \<Rightarrow> (duration \<Rightarrow> duration) \<Rightarrow> (nat \<Rightarrow> run_answer) \<Rightarrow> retry_outcome" where
  "StepWithRetry_Run p backoff run =
     retry_loop p backoff run (nat (rp_MaxRetries p + 1)) 0 None (rp_RetryDelay p)"

section \<open>Properties of the retry wrapper\<close>

lemma contains_from_iff:
  "contains_from n str substr i \<longleftrightarrow> (\<exists>j. i \<le> j \<and> j < i + n \<and> take (length substr) (drop j str) = substr)"
proof (induction n str substr i rule: contains_from.induct)
  case (2 n str substr i)
  have "(\<exists>j. i \<le> j \<and> j < i + Suc n \<and> P j) \<longleftrightarrow> P i \<or> (\<exists>j. Suc i \<le> j \<and> j < Suc i + n \<and> P j)" for P
    by (metis Suc_leI add_Suc_right add_Suc_shift le_add1 le_eq_less_or_eq less_Suc_eq_le Suc_leD)
  with 2 show ?case by simp
qed simp

lemma contains_iff: "contains str substr \<longleftrightarrow> (\<exists>p s. str = p @ substr @ s)"
proof
  assume "contains str substr"
  then obtain j where "take (length substr) (drop j str) = substr"
    by (auto simp: contains_def contains_from_iff split: if_splits)
  then have "str = take j str @ substr @ drop (length substr) (drop j str)"
    by (metis append_take_drop_id)
  then show "\<exists>p s. str = p @ substr @ s" by blast
next
  assume "\<exists>p s. str = p @ substr @ s"
  then obtain p s where str: "str = p @ substr @ s" by blast
  have "take (length substr) (drop (length p) str) = substr" by (simp add: str)
  moreover have "length p < length str - length substr + 1" by (simp add: str)
  ultimately have "contains_from (length str - length substr + 1) str substr 0"
    unfolding contains_from_iff by (intro exI[of _ "length p"]) linarith
  then show "contains str substr" by (simp add: contains_def str)
qed

definition retryable_failure :: "RetryPolicy \<Rightarrow> run_answer \<Rightarrow> bool" where
  "retryable_failure p a \<longleftrightarrow> (case snd a of None \<Rightarrow> False | Some e \<Rightarrow> isRetryableError p e)"

lemma retryable_failure_not_succeeded: "retryable_failure p a \<Longrightarrow> \<not> run_succeeded a"
  by (auto simp: retryable_failure_def run_succeeded_def split: option.splits)

lemma retry_loop_calls: "ro_calls (retry_loop p b run left k e d) \<le> k + left"
proof (induction left arbitrary: k e d)
  case (Suc left)
  obtain r err where a: "run k = (r, err)" by fastforce
  from Suc[of "Suc k"] show ?case
    by (auto simp: a Let_def split: if_splits option.splits intro: order_trans)
qed simp

lemma retry_loop_steps_retryable:
  assumes "retryable_failure p (run k)"
  shows "retry_loop p b run (Suc left) k e d =
    (let o' = retry_loop p b run left (Suc k) (snd (run k)) (if left = 0 then d else b d)
     in if left = 0 then o' else o'\<lparr>ro_sleeps := d # ro_sleeps o'\<rparr>)"
proof -
  obtain r err where a: "run k = (r, err)" by fastforce
  with assms obtain x where x: "err = Some x" "isRetryableError p x"
    by (auto simp: retryable_failure_def split: option.splits)
  then show ?thesis by (simp add: a Let_def run_succeeded_def)
qed

lemma retry_loop_success:
  assumes "run_succeeded (run (k + j))" and "j < left"
    and "\<And>i. i < j \<Longrightarrow> retryable_failure p (run (k + i))"
  shows "ro_result (retry_loop p b run left k e d) = fst (run (k + j)) \<and>
         ro_err (retry_loop p b run left k e d) = None \<and>
         ro_calls (retry_loop p b run left k e d) = k + j + 1 \<and>
         length (ro_sleeps (retry_loop p b run left k e d)) = j"
  using assms
proof (induction j arbitrary: k e d left)
  case 0
  then obtain l where "left = Suc l" by (cases left) auto
  moreover obtain r err where a: "run k = (r, err)" by fastforce
  moreover have "err = None" using 0 a by (simp add: run_succeeded_def)
  ultimately show ?case using 0 by (simp add: Let_def)
next
  case (Suc j)
  then obtain l where l: "left = Suc l" and "j < l" by (cases left) auto
  then have "l \<noteq> 0" by simp
  have ret: "retryable_failure p (run k)" using Suc.prems(3)[of 0] by simp
  have "run_succeeded (run (Suc k + j))" using Suc.prems(1) by simp
  moreover have "retryable_failure p (run (Suc k + i))" if "i < j" for i
    using Suc.prems(3)[of "Suc i"] that by simp
  ultimately show ?case
    using Suc.IH[of "Suc k" l "snd (run k)" "b d"] \<open>j < l\<close> \<open>l \<noteq> 0\<close>
    by (simp only: l retry_loop_steps_retryable[where run = run and k = k, OF ret]) (simp add: Let_def)
qed

lemma retry_loop_exhausted:
  assumes "left > 0" and "\<And>i. i < left \<Longrightarrow> retryable_failure p (run (k + i))"
  shows "ro_result (retry_loop p b run left k e d) = None \<and>
         ro_err (retry_loop p b run left k e d) = snd (run (k + left - 1)) \<and>
         ro_calls (retry_loop p b run left k e d) = k + left \<and>
         length (ro_sleeps (retry_loop p b run left k e d)) = left - 1"
  using assms
proof (induction left arbitrary: k e d)
  case (Suc l)
  have ret: "retryable_failure p (run k)" using Suc.prems(2)[of 0] by simp
  show ?case
  proof (cases "l = 0")
    case True
    then show ?thesis by (simp only: retry_loop_steps_retryable[where run = run and k = k, OF ret]) simp
  next
    case False
    have "retryable_failure p (run (Suc k + i))" if "i < l" for i
      using Suc.prems(2)[of "Suc i"] that by simp
    then show ?thesis
      using Suc.IH[of "Suc k" "snd (run k)" "b d"] False
      by (simp only: retry_loop_steps_retryable[where run = run and k = k, OF ret]) (simp add: Let_def)
  qed
qed simp

text \<open>\<^verbatim>\<open>StepWithRetry.Run\<close> calls the wrapped step at most \<^verbatim>\<open>MaxRetries + 1\<close> times. If
  call \<open>j\<close> (within that budget) is the first to succeed and every earlier call failed with
  an error the policy lists as retryable, the wrapper returns exactly that call's result with
  a nil error, after \<open>j\<close> pauses.\<close>

theorem StepWithRetry_first_success:
  assumes "run_succeeded (run j)" and "int j \<le> rp_MaxRetries p"
    and "\<And>i. i < j \<Longrightarrow> retryable_failure p (run i)"
  shows "ro_result (StepWithRetry_Run p b run) = fst (run j)
    \<and> ro_err (StepWithRetry_Run p b run) = None
    \<and> ro_calls (StepWithRetry_Run p b run) = j + 1
    \<and> length (ro_sleeps (StepWithRetry_Run p b run)) = j
    \<and> int (ro_calls (StepWithRetry_Run p b run)) \<le> rp_MaxRetries p + 1"
proof -
  have "j < nat (rp_MaxRetries p + 1)" using assms(2) by linarith
  then show ?thesis
    using retry_loop_success[of run 0 j "nat (rp_MaxRetries p + 1)" p b None "rp_RetryDelay p"] assms
    by (simp add: StepWithRetry_Run_def)
qed

theorem StepWithRetry_first_success_witness:
  "ro_calls (StepWithRetry_Run (default_retry_policy\<lparr>rp_RetryableErrors := [''timeout'']\<rparr>) (\<lambda>d. 2 * d)
     (\<lambda>k. if k < 2 then (None, Some ''dial timeout'') else (None, None))) = 3"
proof -
  let ?p = "default_retry_policy\<lparr>rp_RetryableErrors := [''timeout'']\<rparr>"
  let ?run = "\<lambda>k::nat. if k < 2 then (None, Some ''dial timeout'') else (None, None :: goerr option)"
  have "contains ''dial timeout'' ''timeout''" by code_simp
  then have "retryable_failure ?p (?run i)" if "i < 2" for i
    using that by (simp add: retryable_failure_def isRetryableError_def)
  then show ?thesis
    using StepWithRetry_first_success[of ?run 2 ?p "\<lambda>d. 2 * d"]
    by (simp add: run_succeeded_def default_retry_policy_def)
qed

text \<open>when every call within the budget fails with a retryable error, \<^verbatim>\<open>StepWithRetry.Run\<close>
  makes exactly \<^verbatim>\<open>MaxRetries + 1\<close> calls, pauses \<^verbatim>\<open>MaxRetries\<close> times and returns no result and
  the error of the last call.\<close>

theorem StepWithRetry_exhausted:
  assumes "0 \<le> rp_MaxRetries p"
    and "\<And>i. int i \<le> rp_MaxRetries p \<Longrightarrow> retryable_failure p (run i)"
  shows "ro_result (StepWithRetry_Run p b run) = None
    \<and> ro_err (StepWithRetry_Run p b run) = snd (run (nat (rp_MaxRetries p)))
    \<and> int (ro_calls (StepWithRetry_Run p b run)) = rp_MaxRetries p + 1
    \<and> int (length (ro_sleeps (StepWithRetry_Run p b run))) = rp_MaxRetries p"
proof -
  have "nat (rp_MaxRetries p + 1) = Suc (nat (rp_MaxRetries p))" using assms(1) by linarith
  moreover have "retryable_failure p (run (0 + i))" if "i < Suc (nat (rp_MaxRetries p))" for i
    using assms(1) assms(2)[of i] that by simp
  ultimately show ?thesis
    using retry_loop_exhausted[of "Suc (nat (rp_MaxRetries p))" p run 0 b None "rp_RetryDelay p"] assms(1)
    by (simp add: StepWithRetry_Run_def del: retry_loop.simps)
qed

theorem StepWithRetry_exhausted_witness:
  "ro_err (StepWithRetry_Run (default_retry_policy\<lparr>rp_RetryableErrors := [''EOF'']\<rparr>) (\<lambda>d. d)
     (\<lambda>k. (None, Some ''EOF''))) = Some ''EOF''"
proof -
  let ?p = "default_retry_policy\<lparr>rp_RetryableErrors := [''EOF'']\<rparr>"
  let ?run = "\<lambda>k::nat. (None :: StepResult option, Some ''EOF'')"
  have "contains ''EOF'' ''EOF''" by code_simp
  then have "retryable_failure ?p (?run i)" for i
    by (simp add: retryable_failure_def isRetryableError_def)
  then show ?thesis
    using StepWithRetry_exhausted[of ?p ?run "\<lambda>d. d"]
    by (simp add: default_retry_policy_def)
qed

text \<open>a call that returns a non-retryable error together with a result whose status is not
  \<^verbatim>\<open>failed\<close> is reported by \<^verbatim>\<open>StepWithRetry.Run\<close> as a success: the result is returned with a
  nil error and the step's error is lost.\<close>

theorem StepWithRetry_drops_error:
  assumes "run 0 = (Some r, Some e)" and "\<not> isRetryableError p e"
    and "sr_Status r \<noteq> StepStatusFailed" and "0 \<le> rp_MaxRetries p"
  shows "StepWithRetry_Run p b run =
    \<lparr>ro_result = Some r, ro_err = None, ro_calls = 1, ro_sleeps = []\<rparr>"
proof -
  have "nat (rp_MaxRetries p + 1) = Suc (nat (rp_MaxRetries p))" using assms(4) by linarith
  then show ?thesis
    using assms by (simp add: StepWithRetry_Run_def Let_def run_succeeded_def)
qed

theorem StepWithRetry_drops_error_witness:
  "ro_err (StepWithRetry_Run default_retry_policy (\<lambda>d. d)
     (\<lambda>k. (Some (NewStepResult 0 ''install'' ''id'' \<lparr>h_Name = ''n1'', h_Address = ''h'', h_Roles = []\<rparr>),
           Some ''disk full''))) = None"
proof -
  let ?r = "NewStepResult 0 ''install'' ''id'' \<lparr>h_Name = ''n1'', h_Address = ''h'', h_Roles = []\<rparr>"
  have "\<not> isRetryableError default_retry_policy ''disk full''"
    by (simp add: isRetryableError_def default_retry_policy_def)
  then show ?thesis
    using StepWithRetry_drops_error[of "\<lambda>k. (Some ?r, Some ''disk full'')" ?r "''disk full''" default_retry_policy "\<lambda>d. d"]
    by (simp add: default_retry_policy_def NewStepResult_def)
qed

end
