(* ===== verification/PlanGraph.thy ===== *)
theory PlanGraph
  imports Steps
begin

text \<open>
  The execution graph of package \<^verbatim>\<open>plan\<close> (\<^verbatim>\<open>plan/graph.go\<close>, \<^verbatim>\<open>plan/utils.go\<close>): nodes,
  dependencies, the calculation of entry and exit nodes, linking through the interface
  \<^verbatim>\<open>Graph\<close>, and \<^verbatim>\<open>Validate\<close>, which runs Kahn's algorithm.

  A node pointer in the map may be \<^verbatim>\<open>nil\<close>: \<open>None\<close> in \<open>eg_Nodes\<close>. Operations that change
  their receiver before they fail return the error together with the changed receiver.
  The map \<^verbatim>\<open>Nodes\<close> itself is never \<^verbatim>\<open>nil\<close> (both constructors allocate it), so the first
  test of \<^verbatim>\<open>Validate\<close> has no counterpart.
\<close>

section \<open>Data\<close>

type_synonym NodeID = string

text \<open>
  \<^verbatim>\<open>Hosts\<close> and \<^verbatim>\<open>Hostnames\<close> are slices that may be \<^verbatim>\<open>nil\<close>; an element of \<^verbatim>\<open>Hosts\<close> may be
  \<^verbatim>\<open>nil\<close> too. \<open>nd_HasCondition\<close> says whether \<^verbatim>\<open>Condition\<close> is set; what the function
  answers is given by the environment when the node runs.
\<close>

record ExecutionNode =
  nd_Name :: string
  nd_Step :: "Step option"
  nd_Hosts :: "Host option list option"
  nd_Dependencies :: "NodeID list"
  nd_StepName :: string
  nd_Hostnames :: "string list option"
  nd_RuntimeConfig :: metadata
  nd_PipelineName :: string
  nd_ModuleName :: string
  nd_TaskName :: string
  nd_HasCondition :: bool

type_synonym nodes = "(NodeID, ExecutionNode option) gomap"

record ExecutionGraph =
  eg_Name :: string
  eg_Nodes :: nodes
  eg_EntryNodes :: "NodeID list"
  eg_ExitNodes :: "NodeID list"

text \<open>One constructor per error the package returns; \<open>NilDereference\<close> is the run-time panic.\<close>

datatype plan_error =
    NodeExists NodeID
  | NilNode NodeID
  | SelfDependency NodeID
  | SourceMissing NodeID NodeID
  | TargetMissing NodeID NodeID
  | MergeDuplicate NodeID
  | LinkSourceMissing NodeID
  | LinkTargetMissing NodeID
  | LinkFailed NodeID NodeID plan_error
  | NilInGraph NodeID
  | MissingDependency NodeID NodeID
  | CyclicGraph nat nat
  | EntryMissing NodeID
  | EntryHasDeps NodeID "NodeID list"
  | ExitMissing NodeID
  | EmptyNodeName string
  | NilDereference

section \<open>Operations\<close>

definition NewExecutionGraph :: "string \<Rightarrow> ExecutionGraph" where
  "NewExecutionGraph nm = \<lparr>eg_Name = nm, eg_Nodes = [], eg_EntryNodes = [], eg_ExitNodes = []\<rparr>"

definition fill_step_name :: "ExecutionNode \<Rightarrow> ExecutionNode" where
  "fill_step_name n =
     (case nd_Step n of None \<Rightarrow> n
      | Some s \<Rightarrow> (case stp_Meta s of None \<Rightarrow> n | Some m \<Rightarrow> n\<lparr>nd_StepName := sm_Name m\<rparr>))"

definition fill_hostnames :: "ExecutionNode \<Rightarrow> ExecutionNode" where
  "fill_hostnames n =
     (case (nd_Hostnames n, nd_Hosts n) of
        (None, Some hs) \<Rightarrow> n\<lparr>nd_Hostnames := Some (map (\<lambda>h. case h of None \<Rightarrow> [] | Some h \<Rightarrow> h_Name h) hs)\<rparr>
      | _ \<Rightarrow> n)"

definition AddNode :: "NodeID \<Rightarrow> ExecutionNode option \<Rightarrow> ExecutionGraph \<Rightarrow> plan_error + ExecutionGraph" where
  "AddNode i node g =
     (if gm_has (eg_Nodes g) i then Inl (NodeExists i)
      else case node of
        None \<Rightarrow> Inl (NilNode i)
      | Some n \<Rightarrow> Inr (g\<lparr>eg_Nodes := gm_put i (Some (fill_hostnames (fill_step_name n))) (eg_Nodes g)\<rparr>))"

definition IsEmpty :: "ExecutionGraph \<Rightarrow> bool" where
  "IsEmpty g \<longleftrightarrow> length (eg_Nodes g) = 0"

definition GetNode :: "ExecutionGraph \<Rightarrow> NodeID \<Rightarrow> ExecutionNode option" where
  "GetNode g i = gm_getd None (eg_Nodes g) i"

definition HasNode :: "ExecutionGraph \<Rightarrow> NodeID \<Rightarrow> bool" where
  "HasNode g i = gm_has (eg_Nodes g) i"

text \<open>The loop of \<^verbatim>\<open>MergeFragment\<close>: nodes copied before a duplicate is met stay in the target.\<close>

fun merge_nodes :: "nodes \<Rightarrow> nodes \<Rightarrow> plan_error option \<times> nodes" where
  "merge_nodes [] target = (None, target)"
| "merge_nodes ((i, n) # ns) target =
     (if gm_has target i then (Some (MergeDuplicate i), target)
      else merge_nodes ns (gm_put i n target))"

text \<open>\<^verbatim>\<open>AddDependency\<close> on the node map that graphs and fragments share.\<close>

definition add_dependency :: "NodeID \<Rightarrow> NodeID \<Rightarrow> nodes \<Rightarrow> plan_error + nodes" where
  "add_dependency from to ns =
     (if from = to then Inl (SelfDependency from)
      else if \<not> gm_has ns from then Inl (SourceMissing from to)
      else case gm_get ns to of
        None \<Rightarrow> Inl (TargetMissing to from)
      | Some None \<Rightarrow> Inl NilDereference
      | Some (Some n) \<Rightarrow>
          if from \<in> set (nd_Dependencies n) then Inr ns
          else Inr (gm_put to (Some (n\<lparr>nd_Dependencies := nd_Dependencies n @ [from]\<rparr>)) ns))"

definition AddDependency :: "NodeID \<Rightarrow> NodeID \<Rightarrow> ExecutionGraph \<Rightarrow> plan_error + ExecutionGraph" where
  "AddDependency from to g =
     (case add_dependency from to (eg_Nodes g) of
        Inl e \<Rightarrow> Inl e | Inr ns \<Rightarrow> Inr (g\<lparr>eg_Nodes := ns\<rparr>))"

text \<open>
  \<^verbatim>\<open>LinkFragments\<close> takes any value of the interface \<^verbatim>\<open>Graph\<close>: the two operations it calls are
  arguments.
\<close>

fun link_pairs :: "(NodeID \<Rightarrow> NodeID \<Rightarrow> 'g \<Rightarrow> plan_error + 'g) \<Rightarrow> (NodeID \<times> NodeID) list \<Rightarrow> 'g \<Rightarrow>
    plan_error option \<times> 'g" where
  "link_pairs addDep [] g = (None, g)"
| "link_pairs addDep ((from, to) # ps) g =
     (case addDep from to g of
        Inl e \<Rightarrow> (Some (LinkFailed from to e), g)
      | Inr g' \<Rightarrow> link_pairs addDep ps g')"

definition LinkFragments :: "('g \<Rightarrow> NodeID \<Rightarrow> bool) \<Rightarrow> (NodeID \<Rightarrow> NodeID \<Rightarrow> 'g \<Rightarrow> plan_error + 'g) \<Rightarrow>
    'g \<Rightarrow> NodeID list \<Rightarrow> NodeID list \<Rightarrow> plan_error option \<times> 'g" where
  "LinkFragments hasNode addDep g fromNodeIDs toNodeIDs =
     (if fromNodeIDs = [] \<or> toNodeIDs = [] then (None, g)
      else case find (\<lambda>i. \<not> hasNode g i) fromNodeIDs of
        Some i \<Rightarrow> (Some (LinkSourceMissing i), g)
      | None \<Rightarrow>
          (case find (\<lambda>i. \<not> hasNode g i) toNodeIDs of
             Some i \<Rightarrow> (Some (LinkTargetMissing i), g)
           | None \<Rightarrow> link_pairs addDep [(from, to). to \<leftarrow> toNodeIDs, from \<leftarrow> fromNodeIDs] g))"

text \<open>\<^verbatim>\<open>UniqueNodeIDs\<close>: keep the first occurrences, then sort.\<close>

fun unique_loop :: "NodeID list \<Rightarrow> (NodeID, bool) gomap \<Rightarrow> NodeID list \<Rightarrow> NodeID list" where
  "unique_loop [] seen result = result"
| "unique_loop (i # ids) seen result =
     (if \<not> gm_getd False seen i then unique_loop ids (gm_put i True seen) (result @ [i])
      else unique_loop ids seen result)"

definition UniqueNodeIDs :: "NodeID list \<Rightarrow> NodeID list" where
  "UniqueNodeIDs ids = (if ids = [] then [] else sort (unique_loop ids [] []))"

definition NonEmptyNodeIDs :: "NodeID list \<Rightarrow> NodeID list" where
  "NonEmptyNodeIDs ids = filter (\<lambda>i. i \<noteq> []) ids"

text \<open>
  \<^verbatim>\<open>CalculateEntryAndExitNodes\<close>: the loops that fill \<^verbatim>\<open>hasIncoming\<close> and \<^verbatim>\<open>hasOutgoing\<close>, then
  the collection of the unmarked nodes. \<open>node_deps\<close> lists the nodes with their dependencies;
  it is \<open>None\<close> when a \<^verbatim>\<open>nil\<close> node would be dereferenced.
\<close>

fun node_deps :: "nodes \<Rightarrow> (NodeID \<times> NodeID list) list option" where
  "node_deps [] = Some []"
| "node_deps ((i, None) # ns) = None"
| "node_deps ((i, Some n) # ns) = map_option (\<lambda>ds. (i, nd_Dependencies n) # ds) (node_deps ns)"

fun mark_incoming :: "(NodeID \<times> NodeID list) list \<Rightarrow> (NodeID, bool) gomap \<Rightarrow> (NodeID, bool) gomap" where
  "mark_incoming [] m = m"
| "mark_incoming ((i, ds) # dl) m = mark_incoming dl (gm_put i (ds \<noteq> []) m)"

fun mark_outgoing :: "(NodeID \<times> NodeID list) list \<Rightarrow> (NodeID, bool) gomap \<Rightarrow> (NodeID, bool) gomap" where
  "mark_outgoing [] m = m"
| "mark_outgoing ((i, ds) # dl) m = mark_outgoing dl (gm_put i False m)"

fun mark_edge :: "nodes \<Rightarrow> NodeID \<Rightarrow> NodeID list \<Rightarrow> (NodeID, bool) gomap \<times> (NodeID, bool) gomap \<Rightarrow>
    (NodeID, bool) gomap \<times> (NodeID, bool) gomap" where
  "mark_edge ns i [] io = io"
| "mark_edge ns i (d # ds) (hin, hout) =
     (if gm_has ns d then mark_edge ns i ds (gm_put i True hin, gm_put d True hout)
      else mark_edge ns i ds (hin, hout))"

fun mark_edges :: "nodes \<Rightarrow> (NodeID \<times> NodeID list) list \<Rightarrow> (NodeID, bool) gomap \<times> (NodeID, bool) gomap \<Rightarrow>
    (NodeID, bool) gomap \<times> (NodeID, bool) gomap" where
  "mark_edges ns [] io = io"
| "mark_edges ns ((i, ds) # dl) io = mark_edges ns dl (mark_edge ns i ds io)"

definition CalculateEntryAndExitNodes :: "ExecutionGraph \<Rightarrow> plan_error + ExecutionGraph" where
  "CalculateEntryAndExitNodes g =
     (if eg_Nodes g = [] then Inr (g\<lparr>eg_EntryNodes := [], eg_ExitNodes := []\<rparr>)
      else case node_deps (eg_Nodes g) of
        None \<Rightarrow> Inl NilDereference
      | Some dl \<Rightarrow>
          let (hin, hout) = mark_edges (eg_Nodes g) dl (mark_incoming dl [], mark_outgoing dl []);
              ids = gm_keys (eg_Nodes g)
          in Inr (g\<lparr>eg_EntryNodes := sort (UniqueNodeIDs (filter (\<lambda>i. \<not> gm_getd False hin i) ids)),
                    eg_ExitNodes := sort (UniqueNodeIDs (filter (\<lambda>i. \<not> gm_getd False hout i) ids))\<rparr>))"

text \<open>\<^verbatim>\<open>Validate\<close>: nil nodes, dangling dependencies, Kahn's algorithm, entry and exit lists.\<close>

type_synonym adjacency = "(NodeID, NodeID list) gomap"
type_synonym degrees = "(NodeID, int) gomap"

fun validate_init :: "nodes \<Rightarrow> adjacency \<times> degrees \<Rightarrow> plan_error + adjacency \<times> degrees" where
  "validate_init [] ad = Inr ad"
| "validate_init ((i, None) # ns) ad = Inl (NilInGraph i)"
| "validate_init ((i, Some n) # ns) (adj, deg) = validate_init ns (gm_put i [] adj, gm_put i 0 deg)"

fun validate_deps :: "nodes \<Rightarrow> NodeID \<Rightarrow> NodeID list \<Rightarrow> adjacency \<times> degrees \<Rightarrow> plan_error + adjacency \<times> degrees" where
  "validate_deps ns i [] ad = Inr ad"
| "validate_deps ns i (d # ds) (adj, deg) =
     (if \<not> gm_has ns d then Inl (MissingDependency i d)
      else validate_deps ns i ds (gm_put d (gm_getd [] adj d @ [i]) adj, gm_put i (gm_getd 0 deg i + 1) deg))"

fun validate_edges :: "nodes \<Rightarrow> nodes \<Rightarrow> adjacency \<times> degrees \<Rightarrow> plan_error + adjacency \<times> degrees" where
  "validate_edges ns [] ad = Inr ad"
| "validate_edges ns ((i, None) # rest) ad = Inl NilDereference"
| "validate_edges ns ((i, Some n) # rest) ad =
     (case validate_deps ns i (nd_Dependencies n) ad of
        Inl e \<Rightarrow> Inl e | Inr ad' \<Rightarrow> validate_edges ns rest ad')"

fun relax :: "NodeID list \<Rightarrow> degrees \<Rightarrow> NodeID list \<Rightarrow> degrees \<times> NodeID list" where
  "relax [] deg queue = (deg, queue)"
| "relax (v # vs) deg queue =
     (let k = gm_getd 0 deg v - 1; deg' = gm_put v k deg
      in relax vs deg' (if k = 0 then queue @ [v] else queue))"

definition positive_degrees :: "degrees \<Rightarrow> nat" where
  "positive_degrees deg = length (filter (\<lambda>(v, k). k > 0) deg)"

lemma positive_degrees_put:
  "positive_degrees (gm_put v (gm_getd 0 deg v - 1) deg) + (if gm_getd 0 deg v = 1 then 1 else 0)
     \<le> positive_degrees deg"
proof (induction deg)
  case Nil
  then show ?case by (simp add: positive_degrees_def gm_getd_def)
next
  case (Cons p deg)
  then show ?case by (cases p) (auto simp: positive_degrees_def gm_getd_def)
qed

lemma relax_measure:
  "length (snd (relax vs deg q)) + positive_degrees (fst (relax vs deg q)) \<le> length q + positive_degrees deg"
proof (induction vs arbitrary: deg q)
  case (Cons v vs)
  let ?k = "gm_getd 0 deg v - 1"
  have "positive_degrees (gm_put v ?k deg) + (if ?k = 0 then 1 else 0) \<le> positive_degrees deg"
    using positive_degrees_put[of v deg] by auto
  with Cons[of "gm_put v ?k deg" "if ?k = 0 then q @ [v] else q"] show ?case
    by (auto simp: Let_def split: if_splits)
qed simp

function kahn :: "adjacency \<Rightarrow> degrees \<Rightarrow> NodeID list \<Rightarrow> nat \<Rightarrow> nat" where
  "kahn adj deg [] cnt = cnt"
| "kahn adj deg (u # queue) cnt =
     kahn adj (fst (relax (gm_getd [] adj u) deg queue)) (snd (relax (gm_getd [] adj u) deg queue)) (Suc cnt)"
  by pat_completeness auto
termination
proof (relation "measure (\<lambda>(adj, deg, queue, cnt). length queue + positive_degrees deg)", goal_cases)
  case (2 adj deg u queue cnt)
  then show ?case using relax_measure[of "gm_getd [] adj u" deg queue] by simp
qed simp

fun validate_entries :: "nodes \<Rightarrow> NodeID list \<Rightarrow> plan_error option" where
  "validate_entries ns [] = None"
| "validate_entries ns (e # es) =
     (case gm_get ns e of
        None \<Rightarrow> Some (EntryMissing e)
      | Some None \<Rightarrow> Some NilDereference
      | Some (Some n) \<Rightarrow>
          if nd_Dependencies n \<noteq> [] then Some (EntryHasDeps e (nd_Dependencies n))
          else validate_entries ns es)"

fun validate_exits :: "nodes \<Rightarrow> NodeID list \<Rightarrow> plan_error option" where
  "validate_exits ns [] = None"
| "validate_exits ns (e # es) = (if gm_has ns e then validate_exits ns es else Some (ExitMissing e))"

definition Validate :: "ExecutionGraph \<Rightarrow> plan_error option" where
  "Validate g =
     (case validate_init (eg_Nodes g) ([], []) of
        Inl e \<Rightarrow> Some e
      | Inr ad \<Rightarrow>
          (case validate_edges (eg_Nodes g) (eg_Nodes g) ad of
             Inl e \<Rightarrow> Some e
           | Inr (adj, deg) \<Rightarrow>
               (let queue = map fst (filter (\<lambda>(i, k). k = 0) deg);
                    cnt = kahn adj deg queue 0
                in if cnt \<noteq> length (eg_Nodes g) then Some (CyclicGraph cnt (length (eg_Nodes g)))
                   else case validate_entries (eg_Nodes g) (UniqueNodeIDs (eg_EntryNodes g)) of
                     Some e \<Rightarrow> Some e
                   | None \<Rightarrow> validate_exits (eg_Nodes g) (UniqueNodeIDs (eg_ExitNodes g)))))"

section \<open>Unique, sorted node lists\<close>

lemma unique_loop_set:
  "(\<And>i. i \<in> set result \<longleftrightarrow> gm_getd False seen i) \<Longrightarrow>
   set (unique_loop ids seen result) = set result \<union> set ids"
  by (induction ids seen result rule: unique_loop.induct) auto

lemma unique_loop_distinct:
  "distinct result \<Longrightarrow> (\<And>i. i \<in> set result \<longleftrightarrow> gm_getd False seen i) \<Longrightarrow> distinct (unique_loop ids seen result)"
  by (induction ids seen result rule: unique_loop.induct) auto

lemma UniqueNodeIDs_eq: "UniqueNodeIDs ids = sorted_list_of_set (set ids)"
proof (cases "ids = []")
  case False
  have "set (unique_loop ids [] []) = set ids" "distinct (unique_loop ids [] [])"
    using unique_loop_set[of "[]" "[]" ids] unique_loop_distinct[of "[]" "[]" ids] by simp_all
  then have "sort (unique_loop ids [] []) = sorted_list_of_set (set ids)"
    by (metis sorted_list_of_set_sort_remdups distinct_remdups_id)
  with False show ?thesis by (simp add: UniqueNodeIDs_def)
qed (simp add: UniqueNodeIDs_def)

lemma set_UniqueNodeIDs [simp]: "set (UniqueNodeIDs ids) = set ids"
  by (simp add: UniqueNodeIDs_eq)

lemma UniqueNodeIDs_Nil [simp]: "UniqueNodeIDs [] = []"
  by (simp add: UniqueNodeIDs_def)

lemma sort_UniqueNodeIDs [simp]: "sort (UniqueNodeIDs ids) = UniqueNodeIDs ids"
  by (simp add: UniqueNodeIDs_eq sorted_sort_id)

section \<open>The dependency relation\<close>

text \<open>
  The graph as mathematics: the nodes, the dependencies of a node, the edges from a
  dependency to its dependent.
\<close>

definition node_ids :: "nodes \<Rightarrow> NodeID set" where
  "node_ids ns = set (gm_keys ns)"

definition deps_of :: "nodes \<Rightarrow> NodeID \<Rightarrow> NodeID list" where
  "deps_of ns i = (case gm_get ns i of Some (Some n) \<Rightarrow> nd_Dependencies n | _ \<Rightarrow> [])"

definition dep_rel :: "nodes \<Rightarrow> (NodeID \<times> NodeID) set" where
  "dep_rel ns = {(d, i). i \<in> node_ids ns \<and> d \<in> set (deps_of ns i)}"

definition no_nil_nodes :: "nodes \<Rightarrow> bool" where
  "no_nil_nodes ns \<longleftrightarrow> (\<forall>(i, n) \<in> set ns. n \<noteq> None)"

definition deps_closed :: "nodes \<Rightarrow> bool" where
  "deps_closed ns \<longleftrightarrow> (\<forall>i \<in> node_ids ns. set (deps_of ns i) \<subseteq> node_ids ns)"

lemma no_nil_nodes_Nil [simp]: "no_nil_nodes []"
  by (simp add: no_nil_nodes_def)

lemma no_nil_nodes_put [simp]: "no_nil_nodes ns \<Longrightarrow> no_nil_nodes (gm_put i (Some n) ns)"
  by (induction ns) (auto simp: no_nil_nodes_def)

lemma node_ids_Nil [simp]: "node_ids [] = {}"
  by (simp add: node_ids_def)

lemma node_ids_Cons: "node_ids ((i, n) # ns) = insert i (node_ids ns)"
  by (simp add: node_ids_def)

lemma gm_ok_Cons: "gm_ok ((i, n) # ns) \<longleftrightarrow> i \<notin> node_ids ns \<and> gm_ok ns"
  by (simp add: gm_ok_def node_ids_def)

lemma node_ids_put [simp]: "node_ids (gm_put i n ns) = insert i (node_ids ns)"
  unfolding node_ids_def using gm_keys_put[of i n ns] gm_has_iff[of ns i] by (auto split: if_splits)

lemma deps_of_put [simp]: "deps_of (gm_put i (Some n) ns) j = (if j = i then nd_Dependencies n else deps_of ns j)"
  by (simp add: deps_of_def)

lemma finite_node_ids [simp]: "finite (node_ids ns)"
  by (simp add: node_ids_def)

lemma gm_has_node_ids: "gm_has ns i \<longleftrightarrow> i \<in> node_ids ns"
  by (simp add: node_ids_def gm_has_iff)

lemma card_node_ids: "gm_ok ns \<Longrightarrow> card (node_ids ns) = length ns"
  unfolding node_ids_def gm_ok_def by (metis distinct_card length_map)

lemma finite_dep_rel [simp]: "finite (dep_rel ns)"
proof -
  have "dep_rel ns = (\<Union>i \<in> node_ids ns. (\<lambda>d. (d, i)) ` set (deps_of ns i))"
    by (auto simp: dep_rel_def)
  then show ?thesis by simp
qed

lemma deps_of_in_set: "gm_ok ns \<Longrightarrow> (i, Some n) \<in> set ns \<Longrightarrow> deps_of ns i = nd_Dependencies n"
  using gm_in_set_get[of ns i "Some n"] by (simp add: deps_of_def)

lemma node_deps_Some:
  "no_nil_nodes ns \<Longrightarrow> node_deps ns = Some (map (\<lambda>(i, n). (i, nd_Dependencies (the n))) ns)"
  by (induction ns rule: node_deps.induct) (auto simp: no_nil_nodes_def)

lemma node_deps_None: "\<not> no_nil_nodes ns \<Longrightarrow> node_deps ns = None"
  by (induction ns rule: node_deps.induct) (auto simp: no_nil_nodes_def)

lemma node_deps_eq:
  assumes "gm_ok ns" "no_nil_nodes ns"
  shows "node_deps ns = Some (map (\<lambda>i. (i, deps_of ns i)) (gm_keys ns))"
proof -
  have "map (\<lambda>(i, n). (i, nd_Dependencies (the n))) ns = map (\<lambda>i. (i, deps_of ns i)) (gm_keys ns)"
    using assms deps_of_in_set[OF assms(1)] by (fastforce simp: no_nil_nodes_def)
  then show ?thesis using assms(2) by (simp add: node_deps_Some)
qed

section \<open>Kahn's algorithm\<close>

lemma validate_init_Some:
  "no_nil_nodes ns \<Longrightarrow> \<exists>adj' deg'. validate_init ns (adj, deg) = Inr (adj', deg')
     \<and> (\<forall>i. gm_getd [] adj' i = (if i \<in> node_ids ns then [] else gm_getd [] adj i))
     \<and> (\<forall>i. gm_get deg' i = (if i \<in> node_ids ns then Some 0 else gm_get deg i))
     \<and> (gm_ok deg \<longrightarrow> gm_ok deg')"
proof (induction ns arbitrary: adj deg)
  case (Cons p ns)
  then obtain i n where p: "p = (i, Some n)" by (cases p) (auto simp: no_nil_nodes_def)
  have "no_nil_nodes ns" using Cons.prems by (auto simp: no_nil_nodes_def)
  from Cons.IH[OF this, of "gm_put i [] adj" "gm_put i 0 deg"] show ?case
    by (force simp: p node_ids_def gm_ok_put)
qed (simp add: node_ids_def)

lemma validate_init_nil: "\<not> no_nil_nodes ns \<Longrightarrow> \<exists>i. validate_init ns ad = Inl (NilInGraph i)"
  by (induction ns ad rule: validate_init.induct) (auto simp: no_nil_nodes_def)

lemma validate_deps_Inr:
  "set ds \<subseteq> node_ids ns \<Longrightarrow> \<exists>adj' deg'. validate_deps ns i ds (adj, deg) = Inr (adj', deg')
     \<and> (\<forall>u. gm_getd [] adj' u = gm_getd [] adj u @ replicate (count_list ds u) i)
     \<and> (\<forall>v. gm_getd 0 deg' v = gm_getd 0 deg v + (if v = i then int (length ds) else 0))
     \<and> (gm_has deg i \<longrightarrow> gm_keys deg' = gm_keys deg)"
proof (induction ds arbitrary: adj deg)
  case (Cons d ds)
  let ?adj = "gm_put d (gm_getd [] adj d @ [i]) adj" and ?deg = "gm_put i (gm_getd 0 deg i + 1) deg"
  have "gm_has ns d" using Cons.prems by (simp add: gm_has_node_ids)
  then have step: "validate_deps ns i (d # ds) (adj, deg) = validate_deps ns i ds (?adj, ?deg)" by simp
  obtain adj' deg' where ih: "validate_deps ns i ds (?adj, ?deg) = Inr (adj', deg')"
    "\<forall>u. gm_getd [] adj' u = gm_getd [] ?adj u @ replicate (count_list ds u) i"
    "\<forall>v. gm_getd 0 deg' v = gm_getd 0 ?deg v + (if v = i then int (length ds) else 0)"
    "gm_has ?deg i \<longrightarrow> gm_keys deg' = gm_keys ?deg"
    using Cons.IH[of ?adj ?deg] Cons.prems by auto
  have "\<forall>u. gm_getd [] adj' u = gm_getd [] adj u @ replicate (count_list (d # ds) u) i"
    using ih(2) by (auto simp: replicate_app_Cons_same)
  moreover have "gm_has deg i \<longrightarrow> gm_keys deg' = gm_keys deg"
    using ih(4) by (simp add: gm_keys_put)
  ultimately show ?case using step ih(1,3) by force
qed simp

lemma validate_deps_Inl:
  "\<not> set ds \<subseteq> node_ids ns \<Longrightarrow> \<exists>d. d \<in> set ds \<and> d \<notin> node_ids ns \<and> validate_deps ns i ds ad = Inl (MissingDependency i d)"
proof (induction ds arbitrary: ad)
  case (Cons d ds)
  obtain adj deg where ad: "ad = (adj, deg)" by fastforce
  show ?case
  proof (cases "d \<in> node_ids ns")
    case True
    with Cons.prems have "\<not> set ds \<subseteq> node_ids ns" by simp
    from Cons.IH[OF this, of "(gm_put d (gm_getd [] adj d @ [i]) adj, gm_put i (gm_getd 0 deg i + 1) deg)"]
    obtain d' where "d' \<in> set ds" "d' \<notin> node_ids ns"
      "validate_deps ns i ds (gm_put d (gm_getd [] adj d @ [i]) adj, gm_put i (gm_getd 0 deg i + 1) deg)
         = Inl (MissingDependency i d')" by blast
    with True show ?thesis by (intro exI[of _ d']) (simp add: ad gm_has_node_ids)
  qed (simp add: ad gm_has_node_ids)
qed simp

definition edges_into :: "(NodeID \<times> NodeID list) list \<Rightarrow> NodeID \<Rightarrow> NodeID list" where
  "edges_into dl u = concat (map (\<lambda>(i, ds). replicate (count_list ds u) i) dl)"

lemma validate_edges_Inr:
  assumes "no_nil_nodes rest" "\<forall>(i, n) \<in> set rest. set (nd_Dependencies (the n)) \<subseteq> node_ids ns"
    and "gm_ok rest" "\<forall>i \<in> node_ids rest. gm_has deg i"
  shows "\<exists>adj' deg'. validate_edges ns rest (adj, deg) = Inr (adj', deg')
     \<and> (\<forall>u. gm_getd [] adj' u = gm_getd [] adj u @ edges_into (map (\<lambda>(i, n). (i, nd_Dependencies (the n))) rest) u)
     \<and> (\<forall>v. gm_getd 0 deg' v = gm_getd 0 deg v + int (length (deps_of rest v)))
     \<and> gm_keys deg' = gm_keys deg"
  using assms
proof (induction rest arbitrary: adj deg)
  case (Cons p rest)
  then obtain i n where p: "p = (i, Some n)" by (cases p) (auto simp: no_nil_nodes_def)
  have sub: "set (nd_Dependencies n) \<subseteq> node_ids ns" using Cons.prems(2) p by simp
  have hi: "gm_has deg i" using Cons.prems(4) by (simp add: p node_ids_def)
  obtain adj1 deg1 where d: "validate_deps ns i (nd_Dependencies n) (adj, deg) = Inr (adj1, deg1)"
    "\<forall>u. gm_getd [] adj1 u = gm_getd [] adj u @ replicate (count_list (nd_Dependencies n) u) i"
    "\<forall>v. gm_getd 0 deg1 v = gm_getd 0 deg v + (if v = i then int (length (nd_Dependencies n)) else 0)"
    "gm_keys deg1 = gm_keys deg"
    using validate_deps_Inr[OF sub, of i adj deg] hi by blast
  have has: "\<forall>j \<in> node_ids rest. gm_has deg1 j"
    using Cons.prems(4) d(4) by (auto simp: p node_ids_def gm_has_iff)
  have i_notin: "gm_get rest i = None"
    using Cons.prems(3) by (simp add: p gm_ok_def map_of_eq_None_iff)
  obtain adj2 deg2 where e: "validate_edges ns rest (adj1, deg1) = Inr (adj2, deg2)"
    "\<forall>u. gm_getd [] adj2 u = gm_getd [] adj1 u @ edges_into (map (\<lambda>(i, n). (i, nd_Dependencies (the n))) rest) u"
    "\<forall>v. gm_getd 0 deg2 v = gm_getd 0 deg1 v + int (length (deps_of rest v))"
    "gm_keys deg2 = gm_keys deg1"
    using Cons.IH[of deg1 adj1] Cons.prems has by (auto simp: no_nil_nodes_def gm_ok_def p)
  have "\<forall>v. gm_getd 0 deg2 v = gm_getd 0 deg v + int (length (deps_of (p # rest) v))"
    using e(3) d(3) i_notin by (auto simp: p deps_of_def)
  then show ?case using d e by (simp add: p edges_into_def)
qed (simp add: edges_into_def deps_of_def)

lemma validate_edges_Inl:
  assumes "no_nil_nodes rest" "\<exists>(i, n) \<in> set rest. \<not> set (nd_Dependencies (the n)) \<subseteq> node_ids ns"
  shows "\<exists>i d. validate_edges ns rest ad = Inl (MissingDependency i d)"
  using assms
proof (induction rest arbitrary: ad)
  case (Cons p rest)
  then obtain i n where p: "p = (i, Some n)" by (cases p) (auto simp: no_nil_nodes_def)
  show ?case
  proof (cases "set (nd_Dependencies n) \<subseteq> node_ids ns")
    case True
    obtain adj deg where "ad = (adj, deg)" by fastforce
    then obtain ad' where "validate_deps ns i (nd_Dependencies n) ad = Inr ad'"
      using validate_deps_Inr[OF True, of i adj deg] by blast
    then show ?thesis using Cons.IH[of ad'] Cons.prems True by (auto simp: p no_nil_nodes_def)
  next
    case False
    then show ?thesis using validate_deps_Inl[OF False, of i ad] by (auto simp: p)
  qed
qed simp

text \<open>One pass over the successors of a removed node pushes exactly the nodes whose last open
  dependency it was.\<close>

lemma relax_spec:
  assumes "\<forall>v. int (count_list vs v) \<le> gm_getd 0 deg v"
  shows "\<exists>deg' ps. relax vs deg q = (deg', q @ ps) \<and> distinct ps
     \<and> set ps = {v \<in> set vs. gm_getd 0 deg v = int (count_list vs v)}
     \<and> (\<forall>v. gm_getd 0 deg' v = gm_getd 0 deg v - int (count_list vs v))"
  using assms
proof (induction vs arbitrary: deg q)
  case (Cons v vs)
  let ?k = "gm_getd 0 deg v - 1" let ?deg = "gm_put v ?k deg"
  let ?q = "if ?k = 0 then q @ [v] else q"
  have "\<forall>w. int (count_list vs w) \<le> gm_getd 0 ?deg w"
    using Cons.prems by (auto dest: spec[of _ v] spec split: if_splits)
  from Cons.IH[OF this, of ?q] obtain deg' ps where ih: "relax vs ?deg ?q = (deg', ?q @ ps)" "distinct ps"
    "set ps = {w \<in> set vs. gm_getd 0 ?deg w = int (count_list vs w)}"
    "\<forall>w. gm_getd 0 deg' w = gm_getd 0 ?deg w - int (count_list vs w)" by blast
  have final: "\<forall>w. gm_getd 0 deg' w = gm_getd 0 deg w - int (count_list (v # vs) w)"
    using ih(4) by simp
  have le: "int (count_list vs v) \<le> ?k" using Cons.prems by (auto dest: spec[of _ v])
  show ?case
  proof (cases "?k = 0")
    case True
    then have v: "v \<notin> set vs" using le by (simp add: count_list_0_iff)
    then have "distinct (v # ps)" using ih(2,3) by simp
    moreover have "set (v # ps) = {w \<in> set (v # vs). gm_getd 0 deg w = int (count_list (v # vs) w)}"
    proof (rule set_eqI)
      fix w
      have "count_list vs v = 0" using v by (simp add: count_list_0_iff)
      then show "w \<in> set (v # ps) \<longleftrightarrow> w \<in> {w \<in> set (v # vs). gm_getd 0 deg w = int (count_list (v # vs) w)}"
        using ih(3) True v by (cases "w = v") simp_all
    qed
    moreover have "relax (v # vs) deg q = (deg', q @ (v # ps))"
      using ih(1) True by (simp add: Let_def)
    ultimately show ?thesis using final by blast
  next
    case False
    have "set ps = {w \<in> set (v # vs). gm_getd 0 deg w = int (count_list (v # vs) w)}"
    proof (rule set_eqI)
      fix w
      have "v \<notin> set vs \<Longrightarrow> gm_getd 0 deg v \<noteq> 1 + int (count_list vs v)"
        using False by (simp add: count_list_0_iff)
      moreover have "w \<in> set ps \<longleftrightarrow> w \<in> set vs \<and> gm_getd 0 ?deg w = int (count_list vs w)" by (simp add: ih(3))
      ultimately show "w \<in> set ps \<longleftrightarrow> w \<in> {w \<in> set (v # vs). gm_getd 0 deg w = int (count_list (v # vs) w)}"
        by (cases "w = v"; cases "v \<in> set vs") auto
    qed
    moreover have "relax (v # vs) deg q = (deg', q @ ps)"
      using ih(1) False by (simp add: Let_def)
    ultimately show ?thesis using ih(2) final by blast
  qed
qed simp

definition kahn_inv :: "nodes \<Rightarrow> NodeID list \<Rightarrow> NodeID list \<Rightarrow> degrees \<Rightarrow> bool" where
  "kahn_inv ns dn queue deg \<longleftrightarrow>
     distinct (dn @ queue) \<and> set (dn @ queue) \<subseteq> node_ids ns \<and> set dn \<subseteq> Wellfounded.acc (dep_rel ns) \<and>
     (\<forall>v. gm_getd 0 deg v = (if v \<in> node_ids ns then int (length (filter (\<lambda>d. d \<notin> set dn) (deps_of ns v))) else 0)) \<and>
     (\<forall>v \<in> node_ids ns. v \<in> set (dn @ queue) \<longleftrightarrow> gm_getd 0 deg v = 0)"

definition adj_ok :: "nodes \<Rightarrow> adjacency \<Rightarrow> bool" where
  "adj_ok ns adj \<longleftrightarrow> (\<forall>u v. count_list (gm_getd [] adj u) v = (if v \<in> node_ids ns then count_list (deps_of ns v) u else 0))"

lemma length_filter_remove:
  "u \<notin> A \<Longrightarrow> length (filter (\<lambda>d. d \<notin> insert u A) ds) + count_list ds u = length (filter (\<lambda>d. d \<notin> A) ds)"
  by (induction ds) auto

lemma kahn_inv_step:
  assumes inv: "kahn_inv ns dn (u # queue) deg" and adj: "adj_ok ns adj"
  shows "kahn_inv ns (dn @ [u]) (snd (relax (gm_getd [] adj u) deg queue)) (fst (relax (gm_getd [] adj u) deg queue))"
proof -
  let ?vs = "gm_getd [] adj u" and ?open = "\<lambda>A v. int (length (filter (\<lambda>d. d \<notin> A) (deps_of ns v)))"
  have u: "u \<notin> set dn" "u \<in> node_ids ns" "distinct (dn @ u # queue)"
    using inv by (auto simp: kahn_inv_def)
  have deg: "gm_getd 0 deg v = (if v \<in> node_ids ns then ?open (set dn) v else 0)" for v
    using inv by (simp add: kahn_inv_def)
  have cnt: "count_list ?vs v = (if v \<in> node_ids ns then count_list (deps_of ns v) u else 0)" for v
    using adj by (simp add: adj_ok_def)
  have split: "?open (insert u (set dn)) v + int (count_list (deps_of ns v) u) = ?open (set dn) v" for v
    using length_filter_remove[OF u(1), of "deps_of ns v"] by linarith
  have le: "\<forall>v. int (count_list ?vs v) \<le> gm_getd 0 deg v"
  proof
    fix v
    show "int (count_list ?vs v) \<le> gm_getd 0 deg v"
      using deg[of v] cnt[of v] split[of v] by (cases "v \<in> node_ids ns") simp_all
  qed
  from relax_spec[OF this, of queue] obtain deg' ps where r: "relax ?vs deg queue = (deg', queue @ ps)" "distinct ps"
    "set ps = {v \<in> set ?vs. gm_getd 0 deg v = int (count_list ?vs v)}"
    "\<forall>v. gm_getd 0 deg' v = gm_getd 0 deg v - int (count_list ?vs v)" by blast
  have deg': "gm_getd 0 deg' v = (if v \<in> node_ids ns then ?open (insert u (set dn)) v else 0)" for v
    using r(4) deg[of v] cnt[of v] split[of v] by auto
  have old: "v \<in> set (dn @ u # queue) \<longleftrightarrow> gm_getd 0 deg v = 0" if "v \<in> node_ids ns" for v
    using inv that by (simp add: kahn_inv_def)
  have mem: "v \<in> set ?vs \<longleftrightarrow> count_list ?vs v \<noteq> 0" for v by (simp add: count_list_0_iff)
  have ps_nodes: "set ps \<subseteq> node_ids ns" using r(3) mem cnt by (auto split: if_splits)
  have ps_new: "set ps \<inter> set (dn @ u # queue) = {}"
    using r(3) mem old ps_nodes by fastforce
  have "?open (set dn) u = 0" using old[OF u(2)] deg[of u] u(2) by simp
  then have "set (deps_of ns u) \<subseteq> set dn" by (auto simp: filter_empty_conv)
  moreover have acc_dn: "set dn \<subseteq> Wellfounded.acc (dep_rel ns)" using inv by (simp add: kahn_inv_def)
  ultimately have "y \<in> Wellfounded.acc (dep_rel ns)" if "(y, u) \<in> dep_rel ns" for y
    using that by (auto simp: dep_rel_def)
  then have acc_u: "u \<in> Wellfounded.acc (dep_rel ns)" by (rule acc.accI)
  have zero: "v \<in> set (dn @ u # queue @ ps) \<longleftrightarrow> gm_getd 0 deg' v = 0" if v: "v \<in> node_ids ns" for v
  proof -
    have "gm_getd 0 deg' v = 0 \<longleftrightarrow> gm_getd 0 deg v = int (count_list ?vs v)" using r(4) by auto
    also have "\<dots> \<longleftrightarrow> gm_getd 0 deg v = 0 \<or> v \<in> set ps"
      using r(3) mem[of v] le by (auto dest: spec[of _ v])
    finally show ?thesis using old[OF v] by auto
  qed
  have "distinct ((dn @ [u]) @ queue @ ps)" using u(3) r(2) ps_new by auto
  moreover have "set ((dn @ [u]) @ queue @ ps) \<subseteq> node_ids ns" using inv ps_nodes by (auto simp: kahn_inv_def)
  moreover have "set (dn @ [u]) \<subseteq> Wellfounded.acc (dep_rel ns)" using acc_dn acc_u by simp
  ultimately show ?thesis unfolding kahn_inv_def using r(1) deg' zero by simp
qed

lemma kahn_inv_final:
  assumes "kahn_inv ns dn queue deg" "adj_ok ns adj"
  shows "\<exists>dn' deg'. kahn adj deg queue (length dn) = length dn' \<and> kahn_inv ns dn' [] deg'"
  using assms
proof (induction adj deg queue "length dn" arbitrary: dn rule: kahn.induct)
  case (2 adj deg u queue)
  from 2(1)[of "dn @ [u]"] kahn_inv_step[OF 2(2,3)] 2(3) show ?case by simp
qed auto

lemma kahn_inv_acyclic:
  assumes inv: "kahn_inv ns dn [] deg" and closed: "deps_closed ns"
  shows "length dn = card (node_ids ns) \<longleftrightarrow> acyclic (dep_rel ns)"
proof
  assume "length dn = card (node_ids ns)"
  then have "card (set dn) = card (node_ids ns)" using inv by (simp add: kahn_inv_def distinct_card)
  then have "set dn = node_ids ns" using inv by (intro card_subset_eq) (auto simp: kahn_inv_def)
  then have "node_ids ns \<subseteq> Wellfounded.acc (dep_rel ns)" using inv by (simp add: kahn_inv_def)
  then have "\<forall>x. x \<in> Wellfounded.acc (dep_rel ns)"
    by (metis (mono_tags, lifting) acc.accI case_prodD dep_rel_def mem_Collect_eq subsetD)
  then show "acyclic (dep_rel ns)" by (intro wf_acyclic acc_wfI) simp
next
  assume "acyclic (dep_rel ns)"
  then have wf: "wf (dep_rel ns)" by (simp add: finite_acyclic_wf)
  have "v \<in> node_ids ns \<longrightarrow> v \<in> set dn" for v
  proof (induction v rule: wf_induct_rule[OF wf])
    case (1 v)
    show ?case
    proof
      assume v: "v \<in> node_ids ns"
      then have "set (deps_of ns v) \<subseteq> set dn" using 1 closed by (auto simp: dep_rel_def deps_closed_def)
      then have "filter (\<lambda>d. d \<notin> set dn) (deps_of ns v) = []" by (auto simp: filter_empty_conv)
      then show "v \<in> set dn" using inv v by (simp add: kahn_inv_def)
    qed
  qed
  then have "set dn = node_ids ns" using inv by (auto simp: kahn_inv_def)
  then show "length dn = card (node_ids ns)" using inv by (metis append_Nil2 distinct_card kahn_inv_def)
qed

lemma count_edges_into:
  "gm_ok ns \<Longrightarrow> no_nil_nodes ns \<Longrightarrow>
   count_list (edges_into (map (\<lambda>(i, n). (i, nd_Dependencies (the n))) ns) u) v =
     (if v \<in> node_ids ns then count_list (deps_of ns v) u else 0)"
proof (induction ns)
  case (Cons p ns)
  then obtain i n where p: "p = (i, Some n)" by (cases p) (auto simp: no_nil_nodes_def)
  have i: "i \<notin> node_ids ns" using Cons.prems(1) by (simp add: p gm_ok_def node_ids_def)
  have rep: "count_list (replicate k i) v = (if v = i then k else 0)" for k :: nat
    by (induction k) auto
  have "count_list (edges_into (map (\<lambda>(i, n). (i, nd_Dependencies (the n))) ns) u) v =
     (if v \<in> node_ids ns then count_list (deps_of ns v) u else 0)"
    using Cons by (simp add: gm_ok_def no_nil_nodes_def)
  then show ?case using i rep by (auto simp: p edges_into_def node_ids_def deps_of_def)
qed (simp add: edges_into_def node_ids_def)

lemma closed_list: "gm_ok ns \<Longrightarrow> no_nil_nodes ns \<Longrightarrow>
  deps_closed ns \<longleftrightarrow> (\<forall>(i, n) \<in> set ns. set (nd_Dependencies (the n)) \<subseteq> node_ids ns)"
proof -
  assume ok: "gm_ok ns" "no_nil_nodes ns"
  have d: "deps_of ns i = nd_Dependencies (the n)" if "(i, n) \<in> set ns" for i n
    using deps_of_in_set[OF ok(1)] ok(2) that by (force simp: no_nil_nodes_def)
  have "deps_closed ns \<longleftrightarrow> (\<forall>(i, n) \<in> set ns. set (deps_of ns i) \<subseteq> node_ids ns)"
    by (simp add: deps_closed_def node_ids_def case_prod_beta)
  also have "\<dots> \<longleftrightarrow> (\<forall>(i, n) \<in> set ns. set (nd_Dependencies (the n)) \<subseteq> node_ids ns)"
    by (intro ball_cong) (auto simp: d)
  finally show ?thesis .
qed

text \<open>The state in which \<^verbatim>\<open>Validate\<close> starts Kahn's algorithm satisfies the invariant.\<close>

lemma validate_start:
  assumes ok: "gm_ok ns" "no_nil_nodes ns" "deps_closed ns"
  shows "\<exists>ad adj deg. validate_init ns ([], []) = Inr ad \<and> validate_edges ns ns ad = Inr (adj, deg)
     \<and> adj_ok ns adj \<and> kahn_inv ns [] (map fst (filter (\<lambda>(i, k). k = 0) deg)) deg"
proof -
  obtain adj0 deg0 where i: "validate_init ns ([], []) = Inr (adj0, deg0)" "\<forall>u. gm_getd [] adj0 u = []"
    "\<forall>u. gm_get deg0 u = (if u \<in> node_ids ns then Some 0 else None)" "gm_ok deg0"
    using validate_init_Some[OF ok(2), of "[]" "[]"] by auto
  have has: "\<forall>u. gm_has deg0 u \<longleftrightarrow> u \<in> node_ids ns" using i(3) by (simp add: gm_has_def)
  obtain adj deg where e: "validate_edges ns ns (adj0, deg0) = Inr (adj, deg)"
    "\<forall>u. gm_getd [] adj u = edges_into (map (\<lambda>(i, n). (i, nd_Dependencies (the n))) ns) u"
    "\<forall>v. gm_getd 0 deg v = gm_getd 0 deg0 v + int (length (deps_of ns v))" "gm_keys deg = gm_keys deg0"
    using validate_edges_Inr[of ns ns deg0 adj0] ok closed_list[OF ok(1,2)] has i(2) by auto
  have adj: "adj_ok ns adj" using e(2) count_edges_into[OF ok(1,2)] by (simp add: adj_ok_def)
  have dok: "gm_ok deg" using i(4) e(4) by (simp add: gm_ok_def)
  have keys: "set (gm_keys deg) = node_ids ns" using e(4) has by (auto simp: gm_has_iff)
  have getd: "gm_getd 0 deg v = (if v \<in> node_ids ns then int (length (deps_of ns v)) else 0)" for v
  proof (cases "v \<in> node_ids ns")
    case True
    then show ?thesis using e(3) i(3) by (simp add: gm_getd_def)
  next
    case False
    then have "gm_get deg v = None" using keys by (simp add: map_of_eq_None_iff)
    with False show ?thesis by (simp add: gm_getd_def)
  qed
  let ?q = "map fst (filter (\<lambda>(i, k). k = 0) deg)"
  have "distinct ?q" using dok by (simp add: gm_ok_def distinct_map_filter)
  moreover have "v \<in> set ?q \<longleftrightarrow> v \<in> node_ids ns \<and> gm_getd 0 deg v = 0" for v
  proof -
    have "v \<in> set ?q \<longleftrightarrow> gm_get deg v = Some 0"
      using gm_in_set_get[OF dok, of v 0] gm_get_in_set[of deg v 0] by force
    also have "\<dots> \<longleftrightarrow> v \<in> set (gm_keys deg) \<and> gm_getd 0 deg v = 0"
      unfolding gm_has_iff[symmetric] by (simp add: gm_getd_def gm_has_def split: option.splits)
    finally show ?thesis by (simp only: keys)
  qed
  ultimately have "kahn_inv ns [] ?q deg" using getd by (simp add: kahn_inv_def subset_iff)
  then show ?thesis using i(1) e(1) adj by blast
qed

lemma validate_kahn:
  assumes "gm_ok ns" "no_nil_nodes ns" "deps_closed ns"
  shows "\<exists>ad adj deg c. validate_init ns ([], []) = Inr ad \<and> validate_edges ns ns ad = Inr (adj, deg)
     \<and> kahn adj deg (map fst (filter (\<lambda>(i, k). k = 0) deg)) 0 = c \<and> (c = length ns \<longleftrightarrow> acyclic (dep_rel ns))"
proof -
  obtain ad adj deg where s: "validate_init ns ([], []) = Inr ad" "validate_edges ns ns ad = Inr (adj, deg)"
    "adj_ok ns adj" "kahn_inv ns [] (map fst (filter (\<lambda>(i, k). k = 0) deg)) deg"
    using validate_start[OF assms] by blast
  obtain dn deg' where "kahn adj deg (map fst (filter (\<lambda>(i, k). k = 0) deg)) 0 = length dn" "kahn_inv ns dn [] deg'"
    using kahn_inv_final[OF s(4,3)] by auto
  then show ?thesis using s(1,2) kahn_inv_acyclic[OF _ assms(3)] card_node_ids[OF assms(1)] by metis
qed

lemma validate_entries_None:
  "no_nil_nodes ns \<Longrightarrow> validate_entries ns es = None \<longleftrightarrow> (\<forall>e \<in> set es. e \<in> node_ids ns \<and> deps_of ns e = [])"
proof (induction es)
  case (Cons e es)
  show ?case
  proof (cases "gm_get ns e")
    case None
    then have "e \<notin> node_ids ns" by (simp add: node_ids_def map_of_eq_None_iff)
    with None show ?thesis by simp
  next
    case (Some x)
    then have "e \<in> node_ids ns" by (metis gm_has_get gm_has_node_ids)
    moreover obtain n where "x = Some n"
      using Cons.prems gm_get_in_set[OF Some] by (auto simp: no_nil_nodes_def)
    ultimately show ?thesis using Some Cons by (simp add: deps_of_def)
  qed
qed simp

lemma validate_exits_None: "validate_exits ns es = None \<longleftrightarrow> set es \<subseteq> node_ids ns"
  by (induction es) (auto simp: gm_has_node_ids)

text \<open>What a valid plan is: no nil node, no dangling dependency, no cycle, entry nodes that
  exist and wait for nobody, exit nodes that exist.\<close>

definition valid_plan :: "ExecutionGraph \<Rightarrow> bool" where
  "valid_plan g \<longleftrightarrow> no_nil_nodes (eg_Nodes g) \<and> deps_closed (eg_Nodes g) \<and> acyclic (dep_rel (eg_Nodes g)) \<and>
     (\<forall>e \<in> set (eg_EntryNodes g). e \<in> node_ids (eg_Nodes g) \<and> deps_of (eg_Nodes g) e = []) \<and>
     set (eg_ExitNodes g) \<subseteq> node_ids (eg_Nodes g)"

text \<open>Where \<^verbatim>\<open>Validate\<close> stops, by the first of its tests that fails.\<close>

lemma Validate_nil: "\<not> no_nil_nodes (eg_Nodes g) \<Longrightarrow> \<exists>i. Validate g = Some (NilInGraph i)"
  using validate_init_nil[of "eg_Nodes g" "([], [])"] by (auto simp: Validate_def)

lemma Validate_dangling:
  assumes "gm_ok (eg_Nodes g)" "no_nil_nodes (eg_Nodes g)" "\<not> deps_closed (eg_Nodes g)"
  shows "\<exists>i d. Validate g = Some (MissingDependency i d)"
proof -
  obtain ad where "validate_init (eg_Nodes g) ([], []) = Inr ad"
    using validate_init_Some[OF assms(2), of "[]" "[]"] by auto
  moreover obtain i d where "validate_edges (eg_Nodes g) (eg_Nodes g) ad = Inl (MissingDependency i d)"
    using validate_edges_Inl[OF assms(2), of "eg_Nodes g" ad] assms closed_list[OF assms(1,2)] by auto
  ultimately show ?thesis by (simp add: Validate_def)
qed

lemma Validate_kahn:
  assumes "gm_ok (eg_Nodes g)" "no_nil_nodes (eg_Nodes g)" "deps_closed (eg_Nodes g)"
  shows "\<exists>c. (c = length (eg_Nodes g) \<longleftrightarrow> acyclic (dep_rel (eg_Nodes g))) \<and>
    Validate g =
      (if \<not> acyclic (dep_rel (eg_Nodes g)) then Some (CyclicGraph c (length (eg_Nodes g)))
       else case validate_entries (eg_Nodes g) (UniqueNodeIDs (eg_EntryNodes g)) of
              Some e \<Rightarrow> Some e
            | None \<Rightarrow> validate_exits (eg_Nodes g) (UniqueNodeIDs (eg_ExitNodes g)))"
proof -
  obtain ad adj deg c where "validate_init (eg_Nodes g) ([], []) = Inr ad"
    "validate_edges (eg_Nodes g) (eg_Nodes g) ad = Inr (adj, deg)"
    "kahn adj deg (map fst (filter (\<lambda>(i, k). k = 0) deg)) 0 = c"
    "c = length (eg_Nodes g) \<longleftrightarrow> acyclic (dep_rel (eg_Nodes g))"
    using validate_kahn[OF assms] by blast
  then show ?thesis by (intro exI[of _ c]) (simp add: Validate_def Let_def)
qed

lemma Validate_None_iff:
  assumes ok: "gm_ok (eg_Nodes g)"
  shows "Validate g = None \<longleftrightarrow> valid_plan g"
proof (cases "no_nil_nodes (eg_Nodes g) \<and> deps_closed (eg_Nodes g)")
  case True
  then have entries: "validate_entries (eg_Nodes g) es = None \<longleftrightarrow>
    (\<forall>e \<in> set es. e \<in> node_ids (eg_Nodes g) \<and> deps_of (eg_Nodes g) e = [])" for es
    by (simp add: validate_entries_None)
  show ?thesis
    using Validate_kahn[OF ok] True entries[of "UniqueNodeIDs (eg_EntryNodes g)"]
      validate_exits_None[of "eg_Nodes g" "UniqueNodeIDs (eg_ExitNodes g)"]
    by (cases "validate_entries (eg_Nodes g) (UniqueNodeIDs (eg_EntryNodes g))") (auto simp: valid_plan_def)
next
  case False
  then have "Validate g \<noteq> None" using Validate_nil Validate_dangling[OF ok] by fastforce
  with False show ?thesis by (auto simp: valid_plan_def)
qed

section \<open>Entry and exit nodes\<close>

lemma mark_incoming_get: "distinct (map fst dl) \<Longrightarrow> gm_getd False (mark_incoming dl m) i =
    (case map_of dl i of Some ds \<Rightarrow> ds \<noteq> [] | None \<Rightarrow> gm_getd False m i)"
proof (induction dl m rule: mark_incoming.induct)
  case (2 j ds dl m)
  then have "map_of dl j = None" by (simp add: map_of_eq_None_iff)
  with 2 show ?case by (auto split: option.splits)
qed simp

lemma mark_outgoing_get: "gm_getd False (mark_outgoing dl m) i \<longleftrightarrow> i \<notin> fst ` set dl \<and> gm_getd False m i"
  by (induction dl m rule: mark_outgoing.induct) auto

lemma mark_edge_get:
  "gm_getd False (fst (mark_edge ns i ds io)) j \<longleftrightarrow>
     gm_getd False (fst io) j \<or> j = i \<and> (\<exists>d \<in> set ds. gm_has ns d)"
  "gm_getd False (snd (mark_edge ns i ds io)) j \<longleftrightarrow> gm_getd False (snd io) j \<or> j \<in> set ds \<and> gm_has ns j"
  by (induction ns i ds io rule: mark_edge.induct) auto

lemma mark_edges_get:
  "gm_getd False (fst (mark_edges ns dl io)) j \<longleftrightarrow>
     gm_getd False (fst io) j \<or> (\<exists>ds. (j, ds) \<in> set dl \<and> (\<exists>d \<in> set ds. gm_has ns d))"
  "gm_getd False (snd (mark_edges ns dl io)) j \<longleftrightarrow>
     gm_getd False (snd io) j \<or> gm_has ns j \<and> (\<exists>i ds. (i, ds) \<in> set dl \<and> j \<in> set ds)"
  by (induction ns dl io rule: mark_edges.induct) (auto simp: mark_edge_get)

definition entry_ids :: "nodes \<Rightarrow> NodeID set" where
  "entry_ids ns = {i \<in> node_ids ns. deps_of ns i = []}"

definition exit_ids :: "nodes \<Rightarrow> NodeID set" where
  "exit_ids ns = {i \<in> node_ids ns. \<forall>j \<in> node_ids ns. i \<notin> set (deps_of ns j)}"

lemma Calculate_eq:
  assumes ok: "gm_ok (eg_Nodes g)" "no_nil_nodes (eg_Nodes g)"
  shows "CalculateEntryAndExitNodes g =
    Inr (g\<lparr>eg_EntryNodes := sorted_list_of_set (entry_ids (eg_Nodes g)),
           eg_ExitNodes := sorted_list_of_set (exit_ids (eg_Nodes g))\<rparr>)"
proof (cases "eg_Nodes g = []")
  case True
  then show ?thesis by (simp add: CalculateEntryAndExitNodes_def entry_ids_def exit_ids_def node_ids_def)
next
  case False
  let ?ns = "eg_Nodes g"
  define dl where "dl = map (\<lambda>i. (i, deps_of ?ns i)) (gm_keys ?ns)"
  let ?io = "(mark_incoming dl [], mark_outgoing dl [])"
  obtain hin hout where io: "mark_edges ?ns dl ?io = (hin, hout)" by fastforce
  have dist: "distinct (map fst dl)" using ok(1) by (simp add: gm_ok_def comp_def dl_def)
  have mem: "(i, ds) \<in> set dl \<longleftrightarrow> i \<in> node_ids ?ns \<and> ds = deps_of ?ns i" for i ds
    by (auto simp: dl_def node_ids_def)
  have fst: "fst ` set dl = node_ids ?ns" by (force simp: dl_def node_ids_def)
  have hin: "gm_getd False hin i \<longleftrightarrow> deps_of ?ns i \<noteq> []" if "i \<in> node_ids ?ns" for i
    using mark_edges_get(1)[of ?ns dl ?io i] map_of_is_SomeI[OF dist, of i "deps_of ?ns i"] that
    by (auto simp: io mark_incoming_get[OF dist] mem)
  have hout: "gm_getd False hout i \<longleftrightarrow> (\<exists>j \<in> node_ids ?ns. i \<in> set (deps_of ?ns j))" if "i \<in> node_ids ?ns" for i
    using mark_edges_get(2)[of ?ns dl ?io i] that
    by (auto simp: io mark_outgoing_get gm_has_node_ids mem fst)
  have "set (filter (\<lambda>i. \<not> gm_getd False hin i) (gm_keys ?ns)) = entry_ids ?ns"
    using hin by (auto simp: entry_ids_def node_ids_def)
  moreover have "set (filter (\<lambda>i. \<not> gm_getd False hout i) (gm_keys ?ns)) = exit_ids ?ns"
    using hout by (auto simp: exit_ids_def node_ids_def)
  ultimately show ?thesis
    using False node_deps_eq[OF ok, folded dl_def] io
    by (simp only: CalculateEntryAndExitNodes_def Let_def option.case prod.case if_False UniqueNodeIDs_eq
        sorted_sort_id sorted_sorted_list_of_set)
qed

lemma finite_entry_exit [simp]: "finite (entry_ids ns)" "finite (exit_ids ns)"
  by (simp_all add: entry_ids_def exit_ids_def)

lemma entry_reaches:
  assumes "deps_closed ns" "acyclic (dep_rel ns)" "i \<in> node_ids ns"
  shows "\<exists>e \<in> entry_ids ns. (e, i) \<in> (dep_rel ns)\<^sup>*"
proof -
  have "wf (dep_rel ns)" using assms(2) by (simp add: finite_acyclic_wf)
  then show ?thesis using assms(3)
  proof (induction i rule: wf_induct_rule)
    case (less i)
    show ?case
    proof (cases "deps_of ns i")
      case Nil
      with less.prems show ?thesis by (auto simp: entry_ids_def)
    next
      case (Cons d ds)
      then have "(d, i) \<in> dep_rel ns" "d \<in> node_ids ns"
        using less.prems assms(1) by (auto simp: dep_rel_def deps_closed_def)
      then show ?thesis using less.IH by (meson rtrancl.rtrancl_into_rtrancl)
    qed
  qed
qed

lemma reaches_exit:
  assumes "acyclic (dep_rel ns)" "i \<in> node_ids ns"
  shows "\<exists>x \<in> exit_ids ns. (i, x) \<in> (dep_rel ns)\<^sup>*"
proof -
  have "wf ((dep_rel ns)\<inverse>)" using assms(1) by (simp add: finite_acyclic_wf_converse)
  then show ?thesis using assms(2)
  proof (induction i rule: wf_induct_rule)
    case (less i)
    show ?case
    proof (cases "i \<in> exit_ids ns")
      case False
      then obtain j where "(i, j) \<in> dep_rel ns" "j \<in> node_ids ns"
        using less.prems by (auto simp: exit_ids_def dep_rel_def)
      then show ?thesis using less.IH by (meson converseI converse_rtrancl_into_rtrancl)
    qed auto
  qed
qed

section \<open>The interface Graph\<close>

text \<open>
  The contract \<^verbatim>\<open>LinkFragments\<close> relies on: on well-formed graphs \<^verbatim>\<open>AddDependency\<close> adds exactly one
  dependency between two different existing nodes and refuses every other pair.
\<close>

locale graph_interface =
  fixes hasNode :: "'g \<Rightarrow> NodeID \<Rightarrow> bool"
    and addDep :: "NodeID \<Rightarrow> NodeID \<Rightarrow> 'g \<Rightarrow> plan_error + 'g"
    and deps :: "'g \<Rightarrow> NodeID \<Rightarrow> NodeID set"
    and wfg :: "'g \<Rightarrow> bool"
  assumes addDep_ok: "wfg g \<Longrightarrow> from \<noteq> to \<Longrightarrow> hasNode g from \<Longrightarrow> hasNode g to \<Longrightarrow>
      \<exists>g'. addDep from to g = Inr g' \<and> wfg g' \<and> hasNode g' = hasNode g \<and> deps g' = (deps g)(to := insert from (deps g to))"
    and addDep_self: "addDep from from g = Inl (SelfDependency from)"
begin

lemma link_pairs_ok:
  assumes "wfg g" "\<And>f t. (f, t) \<in> set ps \<Longrightarrow> f \<noteq> t \<and> hasNode g f \<and> hasNode g t"
  shows "\<exists>g'. link_pairs addDep ps g = (None, g') \<and> wfg g' \<and> hasNode g' = hasNode g
    \<and> deps g' = (\<lambda>i. deps g i \<union> {f. (f, i) \<in> set ps})"
  using assms
proof (induction ps arbitrary: g)
  case (Cons p ps)
  obtain f t where p: "p = (f, t)" by fastforce
  obtain g1 where g1: "addDep f t g = Inr g1" "wfg g1" "hasNode g1 = hasNode g"
    "deps g1 = (deps g)(t := insert f (deps g t))"
    using addDep_ok[of g f t] Cons.prems by (auto simp: p)
  obtain g' where "link_pairs addDep ps g1 = (None, g')" "wfg g'" "hasNode g' = hasNode g1"
    "deps g' = (\<lambda>i. deps g1 i \<union> {f. (f, i) \<in> set ps})"
    using Cons.IH[of g1] Cons.prems g1(2,3) by (auto simp: p)
  moreover from this(4) have "deps g' = (\<lambda>i. deps g i \<union> {f. (f, i) \<in> set (p # ps)})"
    using g1(4) by (auto simp: p fun_eq_iff)
  ultimately show ?case using g1(1,3) by (auto simp: p)
qed simp

text \<open>Linking existing, disjoint node lists adds the complete set of edges between them.\<close>

lemma LinkFragments_links:
  assumes "wfg g" "\<forall>i \<in> set fs \<union> set ts. hasNode g i" "set fs \<inter> set ts = {}"
  shows "\<exists>g'. LinkFragments hasNode addDep g fs ts = (None, g') \<and> wfg g' \<and> hasNode g' = hasNode g
    \<and> deps g' = (\<lambda>i. if i \<in> set ts then deps g i \<union> set fs else deps g i)"
proof (cases "fs = [] \<or> ts = []")
  case True
  then show ?thesis using assms(1) by (auto simp: LinkFragments_def fun_eq_iff)
next
  case False
  let ?ps = "[(f, t). t \<leftarrow> ts, f \<leftarrow> fs]"
  have ps: "set ?ps = set fs \<times> set ts" by auto
  have found: "find (\<lambda>i. \<not> hasNode g i) fs = None" "find (\<lambda>i. \<not> hasNode g i) ts = None"
    using assms(2) by (auto simp: find_None_iff)
  obtain g' where g': "link_pairs addDep ?ps g = (None, g')" "wfg g'" "hasNode g' = hasNode g"
    "deps g' = (\<lambda>i. deps g i \<union> {f. (f, i) \<in> set ?ps})"
    using link_pairs_ok[OF assms(1), of ?ps] assms(2,3) ps by auto
  from g'(4) have "deps g' = (\<lambda>i. if i \<in> set ts then deps g i \<union> set fs else deps g i)"
    unfolding ps by (auto simp: fun_eq_iff)
  then show ?thesis using g'(1,2,3) False found by (simp add: LinkFragments_def)
qed

text \<open>A missing node is reported before any edge is added.\<close>

lemma LinkFragments_missing:
  assumes "fs \<noteq> []" "ts \<noteq> []" "\<exists>i \<in> set fs \<union> set ts. \<not> hasNode g i"
  shows "\<exists>i. \<not> hasNode g i \<and> (LinkFragments hasNode addDep g fs ts = (Some (LinkSourceMissing i), g)
    \<or> LinkFragments hasNode addDep g fs ts = (Some (LinkTargetMissing i), g))"
proof (cases "find (\<lambda>i. \<not> hasNode g i) fs")
  case (Some i)
  then have "\<not> hasNode g i" by (metis (lifting) find_Some_iff)
  with Some assms show ?thesis by (auto simp: LinkFragments_def)
next
  case None
  then have "\<forall>i \<in> set fs. hasNode g i" by (simp add: find_None_iff)
  then obtain i where i: "find (\<lambda>i. \<not> hasNode g i) ts = Some i"
    using assms(3) by (cases "find (\<lambda>i. \<not> hasNode g i) ts") (auto simp: find_None_iff)
  then have "\<not> hasNode g i" by (metis (lifting) find_Some_iff)
  with None i assms show ?thesis by (auto simp: LinkFragments_def)
qed

lemma link_pairs_self: "(i, i) \<in> set ps \<Longrightarrow> fst (link_pairs addDep ps g) \<noteq> None"
  by (induction ps arbitrary: g) (auto simp: addDep_self split: sum.splits)

text \<open>A node on both sides is refused.\<close>

lemma LinkFragments_overlap:
  assumes "i \<in> set fs" "i \<in> set ts"
  shows "fst (LinkFragments hasNode addDep g fs ts) \<noteq> None"
proof -
  have "(i, i) \<in> set [(f, t). t \<leftarrow> ts, f \<leftarrow> fs]" using assms by auto
  from link_pairs_self[OF this] assms show ?thesis
    by (auto simp: LinkFragments_def split: option.splits)
qed

end

lemma add_dependency_ok:
  assumes "gm_ok ns" "no_nil_nodes ns" "from \<noteq> to" "gm_has ns from" "gm_has ns to"
  shows "\<exists>ns'. add_dependency from to ns = Inr ns' \<and> gm_ok ns' \<and> no_nil_nodes ns' \<and> gm_keys ns' = gm_keys ns
    \<and> (\<forall>i. set (deps_of ns' i) = (if i = to then insert from (set (deps_of ns i)) else set (deps_of ns i)))"
proof -
  obtain n where n: "gm_get ns to = Some (Some n)"
    using assms(2,5) by (force simp: no_nil_nodes_def gm_has_def dest: gm_get_in_set)
  show ?thesis
  proof (cases "from \<in> set (nd_Dependencies n)")
    case True
    then show ?thesis using assms n by (auto simp: add_dependency_def deps_of_def)
  next
    case False
    let ?ns = "gm_put to (Some (n\<lparr>nd_Dependencies := nd_Dependencies n @ [from]\<rparr>)) ns"
    have "gm_ok ?ns" using assms(1) by (rule gm_ok_put)
    moreover have "no_nil_nodes ?ns" using assms(2) by simp
    ultimately show ?thesis
      using assms n False by (intro exI[of _ ?ns]) (auto simp: add_dependency_def deps_of_def gm_keys_put)
  qed
qed

definition graph_wf :: "ExecutionGraph \<Rightarrow> bool" where
  "graph_wf g \<longleftrightarrow> gm_ok (eg_Nodes g) \<and> no_nil_nodes (eg_Nodes g)"

definition graph_deps :: "ExecutionGraph \<Rightarrow> NodeID \<Rightarrow> NodeID set" where
  "graph_deps g i = set (deps_of (eg_Nodes g) i)"

interpretation eg: graph_interface HasNode AddDependency graph_deps graph_wf
proof unfold_locales
  fix g :: ExecutionGraph and f t
  assume "graph_wf g" "f \<noteq> t" "HasNode g f" "HasNode g t"
  then obtain ns where ns: "add_dependency f t (eg_Nodes g) = Inr ns" "gm_ok ns" "no_nil_nodes ns"
    "gm_keys ns = gm_keys (eg_Nodes g)"
    "\<forall>i. set (deps_of ns i) = (if i = t then insert f (set (deps_of (eg_Nodes g) i)) else set (deps_of (eg_Nodes g) i))"
    using add_dependency_ok[of "eg_Nodes g" f t] by (auto simp: graph_wf_def HasNode_def)
  then show "\<exists>g'. AddDependency f t g = Inr g' \<and> graph_wf g' \<and> HasNode g' = HasNode g \<and>
      graph_deps g' = (graph_deps g)(t := insert f (graph_deps g t))"
    by (auto simp: AddDependency_def graph_wf_def graph_deps_def HasNode_def gm_has_iff fun_eq_iff
        simp del: set_map list.set_map)
qed (simp add: AddDependency_def add_dependency_def)

text \<open>Edges from one node set to another keep a relation acyclic when no path leads back.\<close>

lemma acyclic_add_edges:
  assumes "finite R" "acyclic R" "\<And>f t. f \<in> F \<Longrightarrow> t \<in> T \<Longrightarrow> (t, f) \<notin> R\<^sup>*" "finite F" "finite T"
  shows "acyclic (R \<union> F \<times> T)"
proof -
  let ?B = "R\<^sup>* `` T"
  let ?m = "\<lambda>x. (if x \<in> ?B then 1 else 0 :: nat, x)"
  have "wf (less_than <*lex*> R)" using assms(1,2) by (simp add: finite_acyclic_wf wf_lex_prod)
  then have "wf (inv_image (less_than <*lex*> R) ?m)" by (rule wf_inv_image)
  moreover have "R \<union> F \<times> T \<subseteq> inv_image (less_than <*lex*> R) ?m"
    using assms(3) by (auto simp: in_inv_image Image_iff) (meson rtrancl.rtrancl_into_rtrancl)+
  ultimately show ?thesis by (meson wf_acyclic wf_subset)
qed

lemma dep_rel_link:
  assumes "\<forall>i. set (deps_of ns' i) = (if i \<in> T then set (deps_of ns i) \<union> F else set (deps_of ns i))"
    and "node_ids ns' = node_ids ns" "T \<subseteq> node_ids ns"
  shows "dep_rel ns' = dep_rel ns \<union> F \<times> T"
  using assms unfolding dep_rel_def by (auto split: if_splits)

text \<open>Concrete plans for the examples below.\<close>

definition plain_node :: "string \<Rightarrow> NodeID list \<Rightarrow> ExecutionNode" where
  "plain_node nm ds =
     \<lparr>nd_Name = nm, nd_Step = None, nd_Hosts = Some [], nd_Dependencies = ds, nd_StepName = nm,
      nd_Hostnames = Some [], nd_RuntimeConfig = [], nd_PipelineName = [], nd_ModuleName = [],
      nd_TaskName = [], nd_HasCondition = False\<rparr>"

definition plain_graph :: "(NodeID \<times> NodeID list) list \<Rightarrow> ExecutionGraph" where
  "plain_graph dl =
     (NewExecutionGraph ''plan'')\<lparr>eg_Nodes := map (\<lambda>(i, ds). (i, Some (plain_node i ds))) dl\<rparr>"

lemma plain_graph_ok: "distinct (map fst dl) \<Longrightarrow> graph_wf (plain_graph dl)"
  by (auto simp: graph_wf_def plain_graph_def gm_ok_def comp_def case_prod_beta no_nil_nodes_def)

section \<open>Properties\<close>

text \<open>C4: \<^verbatim>\<open>ExecutionGraph.Validate\<close> accepts a graph exactly when it is a valid plan: no node is
  nil, every dependency exists, the dependency relation is acyclic (Kahn's loop, whose
  termination is proved, counts every node), every listed entry node exists and has no
  dependency, and every listed exit node exists. The list order in which the maps are
  enumerated does not matter.\<close>

theorem Validate_correct:
  assumes "gm_ok (eg_Nodes g)"
  shows "Validate g = None \<longleftrightarrow> valid_plan g"
  using assms by (rule Validate_None_iff)

theorem Validate_correct_witness: "acyclic (dep_rel (eg_Nodes (plain_graph [(''b'', [''a'']), (''a'', [])])))"
proof -
  let ?g = "plain_graph [(''b'', [''a'']), (''a'', [])]"
  have "gm_ok (eg_Nodes ?g)" by code_simp
  moreover have "Validate ?g = None" by code_simp
  ultimately have "valid_plan ?g" using Validate_correct[of ?g] by simp
  then show ?thesis by (simp add: valid_plan_def)
qed

text \<open>on a graph without nil nodes and dangling dependencies \<^verbatim>\<open>Validate\<close> reports a cycle
  exactly when the dependency relation has one.\<close>

theorem Validate_reports_cycles:
  assumes "gm_ok (eg_Nodes g)" "no_nil_nodes (eg_Nodes g)" "deps_closed (eg_Nodes g)"
  shows "(\<exists>c. Validate g = Some (CyclicGraph c (length (eg_Nodes g)))) \<longleftrightarrow> \<not> acyclic (dep_rel (eg_Nodes g))"
proof -
  have "validate_entries ns es \<noteq> Some (CyclicGraph c n)" for ns es c n
    by (induction es) (auto split: option.splits)
  moreover have "validate_exits ns es \<noteq> Some (CyclicGraph c n)" for ns es c n
    by (induction es) auto
  moreover obtain c where "Validate g =
      (if \<not> acyclic (dep_rel (eg_Nodes g)) then Some (CyclicGraph c (length (eg_Nodes g)))
       else case validate_entries (eg_Nodes g) (UniqueNodeIDs (eg_EntryNodes g)) of
              Some e \<Rightarrow> Some e
            | None \<Rightarrow> validate_exits (eg_Nodes g) (UniqueNodeIDs (eg_ExitNodes g)))"
    using Validate_kahn[OF assms] by blast
  ultimately show ?thesis by (auto split: option.splits)
qed

theorem Validate_reports_cycles_witness:
  "\<not> acyclic (dep_rel (eg_Nodes (plain_graph [(''b'', [''a'']), (''a'', [''b'']), (''c'', [])])))"
proof -
  let ?g = "plain_graph [(''b'', [''a'']), (''a'', [''b'']), (''c'', [])]"
  have "gm_ok (eg_Nodes ?g)" by code_simp
  moreover have "no_nil_nodes (eg_Nodes ?g)" by code_simp
  moreover have "deps_closed (eg_Nodes ?g)" by code_simp
  moreover have "Validate ?g = Some (CyclicGraph 1 (length (eg_Nodes ?g)))" by code_simp
  ultimately show ?thesis using Validate_reports_cycles[of ?g] by blast
qed



text \<open>\<^verbatim>\<open>LinkFragments\<close> on an \<^verbatim>\<open>ExecutionGraph\<close> with existing, disjoint source and target nodes
  succeeds, adds exactly the edges from every source to every target, and keeps an acyclic
  plan acyclic as long as no target already leads to a source.\<close>

theorem LinkFragments_graph:
  assumes wf: "graph_wf g" and ex: "\<forall>i \<in> set fs \<union> set ts. HasNode g i" and disj: "set fs \<inter> set ts = {}"
    and acyc: "acyclic (dep_rel (eg_Nodes g))"
    and noback: "\<forall>f \<in> set fs. \<forall>t \<in> set ts. (t, f) \<notin> (dep_rel (eg_Nodes g))\<^sup>*"
  shows "\<exists>g'. LinkFragments HasNode AddDependency g fs ts = (None, g') \<and> graph_wf g'
    \<and> HasNode g' = HasNode g
    \<and> dep_rel (eg_Nodes g') = dep_rel (eg_Nodes g) \<union> set fs \<times> set ts
    \<and> acyclic (dep_rel (eg_Nodes g'))"
proof -
  obtain g' where g': "LinkFragments HasNode AddDependency g fs ts = (None, g')" "graph_wf g'"
    "HasNode g' = HasNode g" "graph_deps g' = (\<lambda>i. if i \<in> set ts then graph_deps g i \<union> set fs else graph_deps g i)"
    using eg.LinkFragments_links[OF wf ex disj] by blast
  have ids: "node_ids (eg_Nodes g') = node_ids (eg_Nodes g)"
    using g'(3) by (auto simp: fun_eq_iff HasNode_def gm_has_node_ids)
  have "\<forall>i. set (deps_of (eg_Nodes g') i) =
      (if i \<in> set ts then set (deps_of (eg_Nodes g) i) \<union> set fs else set (deps_of (eg_Nodes g) i))"
    using g'(4) by (auto simp: graph_deps_def fun_eq_iff)
  then have rel: "dep_rel (eg_Nodes g') = dep_rel (eg_Nodes g) \<union> set fs \<times> set ts"
    using ids ex by (intro dep_rel_link) (auto simp: HasNode_def gm_has_node_ids)
  have "acyclic (dep_rel (eg_Nodes g'))"
    unfolding rel using acyc noback by (intro acyclic_add_edges) auto
  then show ?thesis using g'(1-3) rel by blast
qed

theorem LinkFragments_graph_witness:
  "\<exists>g'. LinkFragments HasNode AddDependency (plain_graph [(''b'', []), (''a'', [])]) [''a''] [''b''] = (None, g')
     \<and> (''a'', ''b'') \<in> dep_rel (eg_Nodes g') \<and> acyclic (dep_rel (eg_Nodes g'))"
proof -
  let ?g = "plain_graph [(''b'', []), (''a'', [])]"
  have wf: "graph_wf ?g" by (rule plain_graph_ok) simp
  have ex: "\<forall>i \<in> set [''a''] \<union> set [''b'']. HasNode ?g i" by code_simp
  have disj: "set [''a''] \<inter> set [''b''] = {}" by simp
  have rel: "dep_rel (eg_Nodes ?g) = {}"
    by (auto simp: dep_rel_def deps_of_def node_ids_def plain_graph_def plain_node_def)
  have "acyclic (dep_rel (eg_Nodes ?g))" by (simp add: rel wf_acyclic)
  from LinkFragments_graph[OF wf ex disj this] show ?thesis by (force simp: rel)
qed

end
