(* ===== verification/PlanFragment.thy ===== *)
theory PlanFragment
  imports PlanGraph
begin

text \<open>
  Execution fragments (\<^verbatim>\<open>plan/fragment.go\<close>): the pieces tasks and modules return and that
  modules and pipelines merge into the plan, and \<^verbatim>\<open>ExecutionGraph.MergeFragment\<close>
  (\<^verbatim>\<open>plan/graph.go\<close>). In the code a merged node is shared by pointer with its fragment; the
  callers only read a merged fragment's entry and exit lists afterwards, so the model
  copies the node.
\<close>

section \<open>Data and operations\<close>

record ExecutionFragment =
  ef_Nodes :: nodes
  ef_EntryNodes :: "NodeID list"
  ef_ExitNodes :: "NodeID list"
  ef_Name :: string

definition NewExecutionFragment :: "string \<Rightarrow> ExecutionFragment" where
  "NewExecutionFragment nm = \<lparr>ef_Nodes = [], ef_EntryNodes = [], ef_ExitNodes = [], ef_Name = nm\<rparr>"

definition NewEmptyFragment :: "string \<Rightarrow> ExecutionFragment" where
  "NewEmptyFragment nm = \<lparr>ef_Nodes = [], ef_EntryNodes = [], ef_ExitNodes = [], ef_Name = nm\<rparr>"

text \<open>Without an explicit ID the node's name is read first, so a nil node panics there.\<close>

definition Fragment_AddNode :: "ExecutionNode option \<Rightarrow> NodeID list \<Rightarrow> ExecutionFragment \<Rightarrow>
    plan_error + NodeID \<times> ExecutionFragment" where
  "Fragment_AddNode node ids f =
     (let add = (\<lambda>i. if gm_has (ef_Nodes f) i then Inl (NodeExists i)
                     else case node of
                       None \<Rightarrow> Inl (NilNode i)
                     | Some n \<Rightarrow> Inr (i, f\<lparr>ef_Nodes := gm_put i (Some n) (ef_Nodes f)\<rparr>))
      in case ids of
           i # _ \<Rightarrow> add i
         | [] \<Rightarrow> (case node of
                    None \<Rightarrow> Inl NilDereference
                  | Some n \<Rightarrow> if nd_Name n = [] then Inl (EmptyNodeName (ef_Name f)) else add (nd_Name n)))"

definition Fragment_IsEmpty :: "ExecutionFragment option \<Rightarrow> bool" where
  "Fragment_IsEmpty f = (case f of None \<Rightarrow> True | Some f \<Rightarrow> length (ef_Nodes f) = 0)"

definition Fragment_AddDependency :: "NodeID \<Rightarrow> NodeID \<Rightarrow> ExecutionFragment \<Rightarrow> plan_error + ExecutionFragment" where
  "Fragment_AddDependency from to f =
     (case add_dependency from to (ef_Nodes f) of
        Inl e \<Rightarrow> Inl e | Inr ns \<Rightarrow> Inr (f\<lparr>ef_Nodes := ns\<rparr>))"

definition Fragment_GetNode :: "ExecutionFragment \<Rightarrow> NodeID \<Rightarrow> ExecutionNode option" where
  "Fragment_GetNode f i = gm_getd None (ef_Nodes f) i"

definition Fragment_HasNode :: "ExecutionFragment \<Rightarrow> NodeID \<Rightarrow> bool" where
  "Fragment_HasNode f i = gm_has (ef_Nodes f) i"

text \<open>
  \<^verbatim>\<open>CalculateEntryAndExitNodes\<close>: the outgoing marks are set, cleared and set again as in the
  code; the incoming marks are written and never read.
\<close>

fun out_marks :: "nodes \<Rightarrow> NodeID list \<Rightarrow> (NodeID, bool) gomap \<Rightarrow> (NodeID, bool) gomap" where
  "out_marks ns [] m = m"
| "out_marks ns (d # ds) m = out_marks ns ds (if gm_has ns d then gm_put d True m else m)"

fun all_out_marks :: "nodes \<Rightarrow> (NodeID \<times> NodeID list) list \<Rightarrow> (NodeID, bool) gomap \<Rightarrow> (NodeID, bool) gomap" where
  "all_out_marks ns [] m = m"
| "all_out_marks ns ((i, ds) # dl) m = all_out_marks ns dl (out_marks ns ds m)"

definition Fragment_CalculateEntryAndExitNodes :: "ExecutionFragment \<Rightarrow> plan_error + ExecutionFragment" where
  "Fragment_CalculateEntryAndExitNodes f =
     (let ns = ef_Nodes f in
      if ns = [] then Inr (f\<lparr>ef_EntryNodes := [], ef_ExitNodes := []\<rparr>)
      else case node_deps ns of
        None \<Rightarrow> Inl NilDereference
      | Some dl \<Rightarrow>
          let hout1 = all_out_marks ns dl (mark_outgoing dl []);
              hout2 = map (\<lambda>(i, b). (i, False)) hout1;
              hout = all_out_marks ns dl hout2
          in Inr (f\<lparr>ef_EntryNodes := UniqueNodeIDs (map fst (filter (\<lambda>(i, ds). \<not> list_ex (gm_has ns) ds) dl)),
                    ef_ExitNodes := UniqueNodeIDs (map fst (filter (\<lambda>(i, ds). \<not> gm_getd False hout i) dl))\<rparr>))"

definition Fragment_MergeFragment :: "ExecutionFragment option \<Rightarrow> ExecutionFragment \<Rightarrow>
    plan_error option \<times> ExecutionFragment" where
  "Fragment_MergeFragment other f =
     (case other of
        None \<Rightarrow> (None, f)
      | Some o' \<Rightarrow> (let (e, ns) = merge_nodes (ef_Nodes o') (ef_Nodes f) in (e, f\<lparr>ef_Nodes := ns\<rparr>)))"

definition MergeFragment :: "ExecutionFragment option \<Rightarrow> ExecutionGraph \<Rightarrow> plan_error option \<times> ExecutionGraph" where
  "MergeFragment fragment g =
     (case fragment of
        None \<Rightarrow> (None, g)
      | Some f \<Rightarrow> (let (e, ns) = merge_nodes (ef_Nodes f) (eg_Nodes g) in (e, g\<lparr>eg_Nodes := ns\<rparr>)))"

section \<open>Merging\<close>

lemma merge_nodes_ok:
  assumes "gm_ok ns" "gm_ok target" "node_ids ns \<inter> node_ids target = {}"
  shows "\<exists>t. merge_nodes ns target = (None, t) \<and> gm_ok t \<and> node_ids t = node_ids target \<union> node_ids ns
    \<and> (\<forall>i. gm_get t i = (if i \<in> node_ids ns then gm_get ns i else gm_get target i))"
  using assms
proof (induction ns arbitrary: target)
  case (Cons p ns)
  obtain i n where p: "p = (i, n)" by fastforce
  have i: "\<not> gm_has target i" "i \<notin> node_ids ns"
    using Cons.prems by (auto simp: p node_ids_Cons gm_has_node_ids gm_ok_Cons)
  have "node_ids ns \<inter> node_ids (gm_put i n target) = {}"
    using Cons.prems(3) i(2) by (simp add: p node_ids_Cons)
  then obtain t where t: "merge_nodes ns (gm_put i n target) = (None, t)" "gm_ok t"
    "node_ids t = node_ids (gm_put i n target) \<union> node_ids ns"
    "\<forall>j. gm_get t j = (if j \<in> node_ids ns then gm_get ns j else gm_get (gm_put i n target) j)"
    using Cons.IH[of "gm_put i n target"] Cons.prems(1,2) gm_ok_put[of target i n] by (auto simp: p gm_ok_Cons)
  have "node_ids t = node_ids target \<union> node_ids (p # ns)" using t(3) by (simp add: p node_ids_Cons)
  moreover have "\<forall>j. gm_get t j = (if j \<in> node_ids (p # ns) then gm_get (p # ns) j else gm_get target j)"
    using t(4) i(2) by (auto simp: p node_ids_Cons)
  ultimately show ?case using t(1,2) i(1) by (simp add: p)
qed (simp add: node_ids_def)

lemma merge_nodes_clash:
  "node_ids ns \<inter> node_ids target \<noteq> {} \<Longrightarrow> \<exists>i t. merge_nodes ns target = (Some (MergeDuplicate i), t)"
proof (induction ns arbitrary: target)
  case (Cons p ns)
  obtain i n where p: "p = (i, n)" by fastforce
  show ?case
  proof (cases "gm_has target i")
    case False
    then have "node_ids ns \<inter> node_ids (gm_put i n target) \<noteq> {}"
      using Cons.prems by (auto simp: p gm_has_node_ids node_ids_Cons)
    from Cons.IH[OF this] show ?thesis using False by (simp add: p)
  qed (simp add: p)
qed (simp add: node_ids_def)

lemma deps_of_get: "gm_get ns i = gm_get ns' i \<Longrightarrow> deps_of ns i = deps_of ns' i"
  by (simp add: deps_of_def)

lemma no_nil_get: "gm_ok ns \<Longrightarrow> no_nil_nodes ns \<longleftrightarrow> (\<forall>i. gm_get ns i \<noteq> Some None)"
proof -
  assume ok: "gm_ok ns"
  have "no_nil_nodes ns \<longleftrightarrow> (\<forall>i. (i, None) \<notin> set ns)" by (auto simp: no_nil_nodes_def) (metis not_None_eq)
  also have "\<dots> \<longleftrightarrow> (\<forall>i. gm_get ns i \<noteq> Some None)"
    using gm_in_set_get[OF ok] gm_get_in_set[of ns] by blast
  finally show ?thesis .
qed

lemma dep_rel_merge:
  assumes "node_ids t = node_ids target \<union> node_ids ns" "node_ids ns \<inter> node_ids target = {}"
    and "\<forall>i. gm_get t i = (if i \<in> node_ids ns then gm_get ns i else gm_get target i)"
  shows "dep_rel t = dep_rel target \<union> dep_rel ns"
proof -
  have "deps_of t i = (if i \<in> node_ids ns then deps_of ns i else deps_of target i)" for i
    using assms(3) by (simp add: deps_of_def)
  then show ?thesis using assms(1,2) unfolding dep_rel_def by (auto split: if_splits)
qed

lemma dep_rel_closed: "deps_closed ns \<Longrightarrow> dep_rel ns \<subseteq> node_ids ns \<times> node_ids ns"
  by (auto simp: deps_closed_def dep_rel_def)

lemma acyclic_disjoint_union:
  assumes "acyclic R" "acyclic S" "R \<subseteq> A \<times> A" "S \<subseteq> B \<times> B" "A \<inter> B = {}" "finite R" "finite S"
  shows "acyclic (R \<union> S)"
proof -
  have "wf R" "wf S" using assms by (simp_all add: finite_acyclic_wf)
  moreover have "Domain R \<inter> Range S = {}" using assms(3-5) by auto
  ultimately show ?thesis by (intro wf_acyclic wf_Un) auto
qed

text \<open>Two node maps that are plans on their own merge into one plan.\<close>

lemma merge_plans:
  assumes "gm_ok ns" "gm_ok target" "node_ids ns \<inter> node_ids target = {}"
    and "no_nil_nodes ns" "no_nil_nodes target" "deps_closed ns" "deps_closed target"
    and "acyclic (dep_rel ns)" "acyclic (dep_rel target)"
  shows "\<exists>t. merge_nodes ns target = (None, t) \<and> gm_ok t \<and> no_nil_nodes t \<and> deps_closed t \<and> acyclic (dep_rel t)
    \<and> node_ids t = node_ids target \<union> node_ids ns \<and> dep_rel t = dep_rel target \<union> dep_rel ns
    \<and> (\<forall>i. gm_get t i = (if i \<in> node_ids ns then gm_get ns i else gm_get target i))"
proof -
  obtain t where t: "merge_nodes ns target = (None, t)" "gm_ok t" "node_ids t = node_ids target \<union> node_ids ns"
    "\<forall>i. gm_get t i = (if i \<in> node_ids ns then gm_get ns i else gm_get target i)"
    using merge_nodes_ok[OF assms(1-3)] by blast
  have rel: "dep_rel t = dep_rel target \<union> dep_rel ns" by (rule dep_rel_merge[OF t(3) assms(3) t(4)])
  have "no_nil_nodes t" using assms(1,2,4,5) t(2,4) by (simp add: no_nil_get)
  moreover have "deps_of t i = (if i \<in> node_ids ns then deps_of ns i else deps_of target i)" for i
    using t(4) by (simp add: deps_of_def)
  then have "deps_closed t" using assms(6,7) t(3) by (auto simp: deps_closed_def)
  moreover have "acyclic (dep_rel t)"
    unfolding rel using assms dep_rel_closed
    by (intro acyclic_disjoint_union[of _ _ "node_ids target" "node_ids ns"]) auto
  ultimately show ?thesis using t rel by blast
qed

section \<open>Entry and exit nodes of a fragment\<close>

lemma out_marks_get: "gm_getd False (out_marks ns ds m) i \<longleftrightarrow> gm_getd False m i \<or> i \<in> set ds \<and> gm_has ns i"
  by (induction ns ds m rule: out_marks.induct) auto

lemma all_out_marks_get: "gm_getd False (all_out_marks ns dl m) i \<longleftrightarrow>
    gm_getd False m i \<or> gm_has ns i \<and> (\<exists>j ds. (j, ds) \<in> set dl \<and> i \<in> set ds)"
  by (induction ns dl m rule: all_out_marks.induct) (auto simp: out_marks_get)

lemma cleared_marks_get: "gm_getd False (map (\<lambda>(i, b). (i, False)) m) i = False"
  by (induction m) (auto simp: gm_getd_def)

definition fragment_entry_ids :: "nodes \<Rightarrow> NodeID set" where
  "fragment_entry_ids ns = {i \<in> node_ids ns. set (deps_of ns i) \<inter> node_ids ns = {}}"

lemma finite_fragment_entry [simp]: "finite (fragment_entry_ids ns)"
  by (simp add: fragment_entry_ids_def)

lemma fragment_entry_closed: "deps_closed ns \<Longrightarrow> fragment_entry_ids ns = entry_ids ns"
  by (auto simp: fragment_entry_ids_def entry_ids_def deps_closed_def) (metis inf.absorb1 set_empty)

lemma Fragment_Calculate_eq:
  assumes ok: "gm_ok (ef_Nodes f)" "no_nil_nodes (ef_Nodes f)"
  shows "Fragment_CalculateEntryAndExitNodes f =
    Inr (f\<lparr>ef_EntryNodes := sorted_list_of_set (fragment_entry_ids (ef_Nodes f)),
           ef_ExitNodes := sorted_list_of_set (exit_ids (ef_Nodes f))\<rparr>)"
proof (cases "ef_Nodes f = []")
  case True
  then show ?thesis
    by (simp add: Fragment_CalculateEntryAndExitNodes_def fragment_entry_ids_def exit_ids_def)
next
  case False
  let ?ns = "ef_Nodes f"
  define dl where "dl = map (\<lambda>i. (i, deps_of ?ns i)) (gm_keys ?ns)"
  have mem: "(i, ds) \<in> set dl \<longleftrightarrow> i \<in> node_ids ?ns \<and> ds = deps_of ?ns i" for i ds
    by (auto simp: dl_def node_ids_def)
  let ?hout2 = "map (\<lambda>(i, b). (i, False)) (all_out_marks ?ns dl (mark_outgoing dl []))"
  let ?hout = "all_out_marks ?ns dl ?hout2"
  have hout: "gm_getd False ?hout i \<longleftrightarrow> (\<exists>j \<in> node_ids ?ns. i \<in> set (deps_of ?ns j))" if "i \<in> node_ids ?ns" for i
    using that by (auto simp: all_out_marks_get cleared_marks_get mem gm_has_node_ids)
  have sel: "set (map fst (filter (\<lambda>(i, ds). P i ds) dl)) = {i \<in> node_ids ?ns. P i (deps_of ?ns i)}" for P
    by (force simp: mem)
  have "set (map fst (filter (\<lambda>(i, ds). \<not> gm_getd False ?hout i) dl)) = exit_ids ?ns"
    unfolding sel exit_ids_def using hout by blast
  moreover have "set (map fst (filter (\<lambda>(i, ds). \<not> list_ex (gm_has ?ns) ds) dl)) = fragment_entry_ids ?ns"
    unfolding sel by (auto simp: fragment_entry_ids_def list_ex_iff gm_has_node_ids)
  ultimately show ?thesis
    using False node_deps_eq[OF ok, folded dl_def]
    by (simp only: Fragment_CalculateEntryAndExitNodes_def Let_def option.case if_False UniqueNodeIDs_eq)
qed

section \<open>Fragments as graphs\<close>

definition fragment_wf :: "ExecutionFragment \<Rightarrow> bool" where
  "fragment_wf f \<longleftrightarrow> gm_ok (ef_Nodes f) \<and> no_nil_nodes (ef_Nodes f)"

definition fragment_deps :: "ExecutionFragment \<Rightarrow> NodeID \<Rightarrow> NodeID set" where
  "fragment_deps f i = set (deps_of (ef_Nodes f) i)"

interpretation ef: graph_interface Fragment_HasNode Fragment_AddDependency fragment_deps fragment_wf
proof unfold_locales
  fix g :: ExecutionFragment and f t
  assume "fragment_wf g" "f \<noteq> t" "Fragment_HasNode g f" "Fragment_HasNode g t"
  then obtain ns where ns: "add_dependency f t (ef_Nodes g) = Inr ns" "gm_ok ns" "no_nil_nodes ns"
    "gm_keys ns = gm_keys (ef_Nodes g)"
    "\<forall>i. set (deps_of ns i) = (if i = t then insert f (set (deps_of (ef_Nodes g) i)) else set (deps_of (ef_Nodes g) i))"
    using add_dependency_ok[of "ef_Nodes g" f t] by (auto simp: fragment_wf_def Fragment_HasNode_def)
  then show "\<exists>g'. Fragment_AddDependency f t g = Inr g' \<and> fragment_wf g' \<and> Fragment_HasNode g' = Fragment_HasNode g \<and>
      fragment_deps g' = (fragment_deps g)(t := insert f (fragment_deps g t))"
    by (auto simp: Fragment_AddDependency_def fragment_wf_def fragment_deps_def Fragment_HasNode_def
        gm_has_iff fun_eq_iff simp del: set_map list.set_map)
qed (simp add: Fragment_AddDependency_def add_dependency_def)

text \<open>A fragment that is a plan on its own: what tasks and modules promise to their callers.\<close>

definition fragment_plan :: "ExecutionFragment \<Rightarrow> bool" where
  "fragment_plan f \<longleftrightarrow> fragment_wf f \<and> deps_closed (ef_Nodes f) \<and> acyclic (dep_rel (ef_Nodes f))"

lemma fragment_plan_empty: "fragment_plan (NewExecutionFragment nm)"
  by (simp add: fragment_plan_def fragment_wf_def NewExecutionFragment_def deps_closed_def dep_rel_def wf_acyclic)

lemma Fragment_Calculate_plan:
  assumes "fragment_plan f"
  shows "\<exists>f'. Fragment_CalculateEntryAndExitNodes f = Inr f' \<and> fragment_plan f' \<and> ef_Nodes f' = ef_Nodes f
    \<and> set (ef_EntryNodes f') = entry_ids (ef_Nodes f) \<and> set (ef_ExitNodes f') = exit_ids (ef_Nodes f)"
  using assms Fragment_Calculate_eq[of f]
  by (simp add: fragment_plan_def fragment_wf_def fragment_entry_closed)

section \<open>Merging a fragment and linking it behind earlier work\<close>

text \<open>
  Modules (on fragments) and pipelines (on graphs) assemble plans in the same way: merge the
  next fragment, then make its entry nodes depend on the exit nodes of what came before.
\<close>

text \<open>Edges from one closed part to another, disjoint one close no cycle.\<close>

lemma acyclic_link:
  assumes "R \<subseteq> A \<times> A" "S \<subseteq> B \<times> B" "A \<inter> B = {}" "acyclic (R \<union> S)" "finite R" "finite S"
    and "D \<subseteq> A" "E \<subseteq> B" "finite D" "finite E"
  shows "acyclic (R \<union> S \<union> D \<times> E)"
proof (rule acyclic_add_edges)
  fix d e assume de: "d \<in> D" "e \<in> E"
  have "y \<in> B" if "(e, y) \<in> (R \<union> S)\<^sup>*" for y
    using that by (induction rule: rtrancl_induct) (use de assms(1-3,8) in auto)
  then show "(e, d) \<notin> (R \<union> S)\<^sup>*" using de assms(3,7) by blast
qed (use assms in auto)

locale mergeable_graph = graph_interface hasNode addDep deps wfg
  for hasNode :: "'g \<Rightarrow> NodeID \<Rightarrow> bool" and addDep deps wfg +
  fixes nodes_of :: "'g \<Rightarrow> nodes"
    and merge :: "ExecutionFragment option \<Rightarrow> 'g \<Rightarrow> plan_error option \<times> 'g"
  assumes hasNode_iff: "hasNode g i \<longleftrightarrow> i \<in> node_ids (nodes_of g)"
    and deps_eq: "deps g i = set (deps_of (nodes_of g) i)"
    and wfg_iff: "wfg g \<longleftrightarrow> gm_ok (nodes_of g) \<and> no_nil_nodes (nodes_of g)"
    and merge_None: "merge None g = (None, g)"
    and merge_Some: "merge_nodes (ef_Nodes f) (nodes_of g) = (e, ns) \<Longrightarrow>
      \<exists>g'. merge (Some f) g = (e, g') \<and> nodes_of g' = ns"
begin

lemma merge_clash:
  assumes "node_ids (ef_Nodes f) \<inter> node_ids (nodes_of g) \<noteq> {}"
  shows "\<exists>i. fst (merge (Some f) g) = Some (MergeDuplicate i)"
proof -
  obtain i t where "merge_nodes (ef_Nodes f) (nodes_of g) = (Some (MergeDuplicate i), t)"
    using merge_nodes_clash[OF assms] by blast
  from merge_Some[OF this] show ?thesis by auto
qed

lemma link_rel:
  assumes "wfg g" "set fs \<union> set ts \<subseteq> node_ids (nodes_of g)" "set fs \<inter> set ts = {}"
  shows "\<exists>g'. LinkFragments hasNode addDep g fs ts = (None, g') \<and> wfg g'
    \<and> node_ids (nodes_of g') = node_ids (nodes_of g)
    \<and> dep_rel (nodes_of g') = dep_rel (nodes_of g) \<union> set fs \<times> set ts
    \<and> (\<forall>i. set (deps_of (nodes_of g') i) = set (deps_of (nodes_of g) i) \<union> (if i \<in> set ts then set fs else {}))"
proof -
  obtain g' where g': "LinkFragments hasNode addDep g fs ts = (None, g')" "wfg g'" "hasNode g' = hasNode g"
    "deps g' = (\<lambda>i. if i \<in> set ts then deps g i \<union> set fs else deps g i)"
    using LinkFragments_links[of g fs ts] assms by (auto simp: hasNode_iff)
  have ids: "node_ids (nodes_of g') = node_ids (nodes_of g)"
    using g'(3) by (auto simp: fun_eq_iff hasNode_iff)
  have deps: "\<forall>i. set (deps_of (nodes_of g') i) =
      (if i \<in> set ts then set (deps_of (nodes_of g) i) \<union> set fs else set (deps_of (nodes_of g) i))"
    using g'(4) by (auto simp: fun_eq_iff simp flip: deps_eq)
  have "dep_rel (nodes_of g') = dep_rel (nodes_of g) \<union> set fs \<times> set ts"
    using ids assms(2) deps by (intro dep_rel_link) auto
  then show ?thesis using g'(1,2) ids deps by (intro exI[of _ g']) simp
qed

lemma merge_link_plan:
  assumes g: "wfg g" "deps_closed (nodes_of g)" "acyclic (dep_rel (nodes_of g))"
    and f: "fragment_plan f" and disj: "node_ids (ef_Nodes f) \<inter> node_ids (nodes_of g) = {}"
    and ds: "set ds \<subseteq> node_ids (nodes_of g)" and es: "set es \<subseteq> node_ids (ef_Nodes f)"
  shows "\<exists>g1 g2. merge (Some f) g = (None, g1) \<and> LinkFragments hasNode addDep g1 ds es = (None, g2)
    \<and> wfg g2 \<and> deps_closed (nodes_of g2) \<and> acyclic (dep_rel (nodes_of g2))
    \<and> node_ids (nodes_of g2) = node_ids (nodes_of g) \<union> node_ids (ef_Nodes f)
    \<and> dep_rel (nodes_of g2) = dep_rel (nodes_of g) \<union> dep_rel (ef_Nodes f) \<union> set ds \<times> set es"
proof -
  let ?R = "dep_rel (nodes_of g) \<union> dep_rel (ef_Nodes f)"
  obtain t where t: "merge_nodes (ef_Nodes f) (nodes_of g) = (None, t)" "gm_ok t" "no_nil_nodes t" "deps_closed t"
    "acyclic (dep_rel t)" "node_ids t = node_ids (nodes_of g) \<union> node_ids (ef_Nodes f)" "dep_rel t = ?R"
    using merge_plans[OF _ _ disj] g f by (auto simp: wfg_iff fragment_plan_def fragment_wf_def)
  obtain g1 where g1: "merge (Some f) g = (None, g1)" "nodes_of g1 = t" using merge_Some[OF t(1)] by blast
  have "wfg g1" using t(2,3) g1(2) by (simp add: wfg_iff)
  moreover have "set ds \<inter> set es = {}" using ds es disj by auto
  moreover have "set ds \<union> set es \<subseteq> node_ids (nodes_of g1)" using ds es t(6) g1(2) by auto
  ultimately obtain g2 where g2: "LinkFragments hasNode addDep g1 ds es = (None, g2)" "wfg g2"
    "node_ids (nodes_of g2) = node_ids t" "dep_rel (nodes_of g2) = ?R \<union> set ds \<times> set es"
    "\<forall>i. set (deps_of (nodes_of g2) i) = set (deps_of t i) \<union> (if i \<in> set es then set ds else {})"
    using link_rel[of g1 ds es] t(7) g1(2) by auto
  have "deps_closed (nodes_of g2)"
    using t(4) g2(3,5) ds t(6) by (auto simp: deps_closed_def split: if_splits)
  moreover have "acyclic (dep_rel (nodes_of g2))"
    unfolding g2(4) using t(5,7) g(2) f disj ds es
    by (intro acyclic_link[OF dep_rel_closed dep_rel_closed]) (auto simp: fragment_plan_def)
  ultimately show ?thesis using g1(1) g2(1-4) t(6) by blast
qed

end

interpretation egm: mergeable_graph HasNode AddDependency graph_deps graph_wf eg_Nodes MergeFragment
  by unfold_locales
    (auto simp: HasNode_def gm_has_node_ids graph_deps_def graph_wf_def MergeFragment_def)

interpretation efm: mergeable_graph Fragment_HasNode Fragment_AddDependency fragment_deps fragment_wf
    ef_Nodes Fragment_MergeFragment
  by unfold_locales
    (auto simp: Fragment_HasNode_def gm_has_node_ids fragment_deps_def fragment_wf_def Fragment_MergeFragment_def)

section \<open>Properties\<close>

text \<open>when a fragment that is a plan on its own is merged into a plan with other node IDs and
  its nodes \<open>es\<close> are linked behind nodes \<open>ds\<close> of the plan, both calls succeed; the new plan
  has the nodes of both, the old edges and the edges from \<open>ds\<close> to \<open>es\<close> and no others, and it
  is again free of cycles, nil nodes and dangling dependencies.\<close>

theorem MergeFragment_LinkFragments_plan:
  assumes "graph_wf g" "deps_closed (eg_Nodes g)" "acyclic (dep_rel (eg_Nodes g))"
    and "fragment_plan f" "node_ids (ef_Nodes f) \<inter> node_ids (eg_Nodes g) = {}"
    and "set ds \<subseteq> node_ids (eg_Nodes g)" "set es \<subseteq> node_ids (ef_Nodes f)"
  shows "\<exists>g1 g2. MergeFragment (Some f) g = (None, g1) \<and> LinkFragments HasNode AddDependency g1 ds es = (None, g2)
    \<and> graph_wf g2 \<and> deps_closed (eg_Nodes g2) \<and> acyclic (dep_rel (eg_Nodes g2))
    \<and> node_ids (eg_Nodes g2) = node_ids (eg_Nodes g) \<union> node_ids (ef_Nodes f)
    \<and> dep_rel (eg_Nodes g2) = dep_rel (eg_Nodes g) \<union> dep_rel (ef_Nodes f) \<union> set ds \<times> set es"
  using assms by (rule egm.merge_link_plan)

text \<open>\<^verbatim>\<open>ExecutionFragment.CalculateEntryAndExitNodes\<close> lists, sorted and without duplicates,
  as entry nodes the nodes none of whose dependencies lies in the fragment (dependencies on
  other fragments do not count) and as exit nodes the nodes that no node of the fragment
  depends on.\<close>

theorem Fragment_CalculateEntryAndExitNodes_correct:
  assumes "fragment_wf f"
  shows "\<exists>f'. Fragment_CalculateEntryAndExitNodes f = Inr f' \<and> ef_Nodes f' = ef_Nodes f
    \<and> sorted (ef_EntryNodes f') \<and> distinct (ef_EntryNodes f') \<and> sorted (ef_ExitNodes f') \<and> distinct (ef_ExitNodes f')
    \<and> set (ef_EntryNodes f') = {i \<in> node_ids (ef_Nodes f). set (deps_of (ef_Nodes f) i) \<inter> node_ids (ef_Nodes f) = {}}
    \<and> set (ef_ExitNodes f') = {i \<in> node_ids (ef_Nodes f). \<forall>j \<in> node_ids (ef_Nodes f). i \<notin> set (deps_of (ef_Nodes f) j)}"
  using assms Fragment_Calculate_eq[of f]
  by (simp add: fragment_wf_def) (simp add: fragment_entry_ids_def exit_ids_def)

definition plain_fragment :: "(NodeID \<times> NodeID list) list \<Rightarrow> ExecutionFragment" where
  "plain_fragment dl =
     (NewExecutionFragment ''fragment'')\<lparr>ef_Nodes := map (\<lambda>(i, ds). (i, Some (plain_node i ds))) dl\<rparr>"

lemma plain_fragment_plan:
  "distinct (map fst dl) \<Longrightarrow> Validate (plain_graph dl) = None \<Longrightarrow> fragment_plan (plain_fragment dl)"
  using Validate_None_iff[of "plain_graph dl"] plain_graph_ok[of dl]
  by (simp add: fragment_plan_def fragment_wf_def graph_wf_def valid_plan_def plain_fragment_def plain_graph_def)

theorem MergeFragment_LinkFragments_plan_witness:
  "\<exists>g1 g2. MergeFragment (Some (plain_fragment [(''c'', [])])) (plain_graph [(''a'', []), (''b'', [''a''])]) = (None, g1)
     \<and> LinkFragments HasNode AddDependency g1 [''b''] [''c''] = (None, g2) \<and> (''b'', ''c'') \<in> dep_rel (eg_Nodes g2)"
proof -
  let ?g = "plain_graph [(''a'', []), (''b'', [''a''])]" and ?f = "plain_fragment [(''c'', [])]"
  have wf: "graph_wf ?g" by (rule plain_graph_ok) simp
  have "Validate ?g = None" by code_simp
  then have v: "deps_closed (eg_Nodes ?g)" "acyclic (dep_rel (eg_Nodes ?g))"
    using wf by (simp_all add: graph_wf_def Validate_None_iff valid_plan_def)
  have f: "fragment_plan ?f" by (rule plain_fragment_plan) code_simp+
  have ids: "node_ids (eg_Nodes ?g) = {''a'', ''b''}" "node_ids (ef_Nodes ?f) = {''c''}"
    by (auto simp: node_ids_def plain_graph_def plain_fragment_def)
  from MergeFragment_LinkFragments_plan[OF wf v f, of "[''b'']" "[''c'']"] show ?thesis
    by (force simp: ids)
qed

theorem Fragment_CalculateEntryAndExitNodes_correct_witness:
  "\<exists>f'. Fragment_CalculateEntryAndExitNodes (plain_fragment [(''b'', [''a'']), (''a'', [''external''])]) = Inr f'
     \<and> set (ef_EntryNodes f') = {''a''}"
proof -
  let ?f = "plain_fragment [(''b'', [''a'']), (''a'', [''external''])]"
  have "fragment_wf ?f" by code_simp
  moreover have "{i \<in> node_ids (ef_Nodes ?f). set (deps_of (ef_Nodes ?f) i) \<inter> node_ids (ef_Nodes ?f) = {}} = {''a''}"
    by code_simp
  ultimately show ?thesis using Fragment_CalculateEntryAndExitNodes_correct[of ?f] by (metis (no_types, lifting))
qed

end
