(* ===== verification/Planning.thy ===== *)
theory Planning
  imports PlanFragment
begin

text \<open>
  From tasks to a plan: \<^verbatim>\<open>BaseModule.PlanTasks\<close> (\<^verbatim>\<open>module/module.go\<close>), the recovery wrappers
  \<^verbatim>\<open>SafePlan\<close> and \<^verbatim>\<open>SafeModulePlan\<close> (\<^verbatim>\<open>pipeline/safe_plan.go\<close>) and the two loops by which
  pipelines assemble the fragments of their modules (\<^verbatim>\<open>pipeline/cluster\<close>,
  \<^verbatim>\<open>pipeline/assets\<close>): one merges and links inline, the other calls \<^verbatim>\<open>MergeFragment\<close> and
  \<^verbatim>\<open>LinkFragments\<close>.

  What a task or module answers when it plans is an argument; it may return a fragment (which
  may be nil), return an error, or panic.
\<close>

section \<open>Modules\<close>

datatype ('e, 'a) answer = Returns 'a "'e option" | Panics string

record Task =
  tk_Name :: string
  tk_IsRequired :: "(goerr, bool) answer"
  tk_Plan :: "(goerr, ExecutionFragment option) answer"

record BaseModule =
  bm_Name :: string
  bm_Description :: string
  bm_Timeout :: int
  bm_IgnoreError :: bool
  bm_ModuleTasks :: "Task list"

definition NewBaseModule :: "string \<Rightarrow> Task list \<Rightarrow> BaseModule" where
  "NewBaseModule nm tasks = \<lparr>bm_Name = nm, bm_Description = [], bm_Timeout = 0, bm_IgnoreError = False, bm_ModuleTasks = tasks\<rparr>"

datatype module_error =
    NotATaskContext string
  | IsRequiredFailed string goerr
  | TaskPlanFailed string goerr
  | TaskMergeFailed string plan_error
  | TaskLinkFailed string plan_error
  | DuplicateTaskNode NodeID string
  | EntryNodeMissing NodeID string
  | RuntimeSpecNil
  | UnsupportedRuntime string

datatype ('e, 'a) outcome = Done 'a | Fails 'e | Aborts

definition BaseModule_Plan :: "BaseModule \<Rightarrow> (module_error, ExecutionFragment) outcome" where
  "BaseModule_Plan b =
     (case Fragment_CalculateEntryAndExitNodes (NewExecutionFragment (bm_Name b)) of
        Inl e \<Rightarrow> Aborts | Inr f \<Rightarrow> Done f)"

fun plan_task_list :: "Task list \<Rightarrow> ExecutionFragment \<Rightarrow> (module_error, ExecutionFragment) outcome" where
  "plan_task_list [] f = Done f"
| "plan_task_list (t # ts) f =
     (case tk_IsRequired t of
        Panics v \<Rightarrow> Aborts
      | Returns _ (Some e) \<Rightarrow> Fails (IsRequiredFailed (tk_Name t) e)
      | Returns False None \<Rightarrow> plan_task_list ts f
      | Returns True None \<Rightarrow>
          (case tk_Plan t of
             Panics v \<Rightarrow> Aborts
           | Returns tf (Some e) \<Rightarrow> Fails (TaskPlanFailed (tk_Name t) e)
           | Returns tf None \<Rightarrow>
               (case Fragment_MergeFragment tf f of
                  (Some e, f') \<Rightarrow> Fails (TaskMergeFailed (tk_Name t) e)
                | (None, f') \<Rightarrow> plan_task_list ts f')))"

definition PlanTasks :: "bool \<Rightarrow> BaseModule \<Rightarrow> (module_error, ExecutionFragment) outcome" where
  "PlanTasks isTaskContext b =
     (if \<not> isTaskContext then Fails (NotATaskContext (bm_Name b))
      else case plan_task_list (bm_ModuleTasks b) (NewExecutionFragment (bm_Name b @ ''-Fragment'')) of
        Done f \<Rightarrow>
          (case Fragment_CalculateEntryAndExitNodes f of Inl e \<Rightarrow> Aborts | Inr f' \<Rightarrow> Done f')
      | Fails e \<Rightarrow> Fails e
      | Aborts \<Rightarrow> Aborts)"

definition PlanSingleTask :: "Task \<Rightarrow> (module_error, ExecutionFragment) outcome" where
  "PlanSingleTask t =
     (case tk_Plan t of
        Panics v \<Rightarrow> Aborts
      | Returns tf (Some e) \<Rightarrow> Fails (TaskPlanFailed (tk_Name t) e)
      | Returns None None \<Rightarrow> Aborts
      | Returns (Some f) None \<Rightarrow>
          (case Fragment_CalculateEntryAndExitNodes f of Inl e \<Rightarrow> Aborts | Inr f' \<Rightarrow> Done f'))"

section \<open>Recovery wrappers\<close>

datatype pipe_error =
    NotAModuleContext string
  | ModulePlanFailed string module_error
  | DuplicateNode NodeID string
  | ModuleMergeFailed string plan_error
  | ModuleLinkFailed string plan_error
  | InvalidGraph string plan_error
  | TargetVersionRequired
  | SnapshotPathRequired
  | NotImplemented
  | NotARuntimeContext string
  | PlanningFailed string pipe_error
  | ExecutionFailed string plan_error
  | ConnectivityCheckFailed module_error
  | WorkDirNotAvailable
  | DownloadPlanFailed module_error
  | AssetPreparationFailed pipe_error

text \<open>
  The deferred functions assign to the local variable \<^verbatim>\<open>err\<close>, which is not a named result: after
  a panic both wrappers return nil and a nil error.
\<close>

definition SafePlan :: "(pipe_error, ExecutionGraph) outcome \<Rightarrow> ExecutionGraph option \<times> pipe_error option" where
  "SafePlan r = (case r of Done g \<Rightarrow> (Some g, None) | Fails e \<Rightarrow> (None, Some e) | Aborts \<Rightarrow> (None, None))"

definition SafeModulePlan :: "(module_error, ExecutionFragment option) answer \<Rightarrow> ExecutionFragment option \<times> module_error option" where
  "SafeModulePlan a = (case a of Returns f e \<Rightarrow> (f, e) | Panics v \<Rightarrow> (None, None))"

section \<open>Assembling the fragments of modules\<close>

text \<open>Linking inline: the dependencies of every entry node become the sorted union.\<close>

fun link_entries :: "NodeID list \<Rightarrow> NodeID list \<Rightarrow> nodes \<Rightarrow> nodes option" where
  "link_entries prev [] ns = Some ns"
| "link_entries prev (e # es) ns =
     (case gm_get ns e of
        None \<Rightarrow> link_entries prev es ns
      | Some None \<Rightarrow> None
      | Some (Some n) \<Rightarrow>
          link_entries prev es
            (gm_put e (Some (n\<lparr>nd_Dependencies := UniqueNodeIDs (nd_Dependencies n @ prev)\<rparr>)) ns))"

definition add_inline :: "string \<Rightarrow> ExecutionFragment \<Rightarrow> NodeID list \<Rightarrow> ExecutionGraph \<Rightarrow>
    (pipe_error, ExecutionGraph) outcome" where
  "add_inline modName f prev g =
     (case merge_nodes (ef_Nodes f) (eg_Nodes g) of
        (Some (MergeDuplicate i), ns) \<Rightarrow> Fails (DuplicateNode i modName)
      | (Some e, ns) \<Rightarrow> Aborts
      | (None, ns) \<Rightarrow>
          if length prev > 0
          then (case link_entries prev (ef_EntryNodes f) ns of
                  None \<Rightarrow> Aborts | Some ns' \<Rightarrow> Done (g\<lparr>eg_Nodes := ns'\<rparr>))
          else Done (g\<lparr>eg_Nodes := ns\<rparr>))"

definition add_linked :: "string \<Rightarrow> ExecutionFragment \<Rightarrow> NodeID list \<Rightarrow> ExecutionGraph \<Rightarrow>
    (pipe_error, ExecutionGraph) outcome" where
  "add_linked modName f prev g =
     (case MergeFragment (Some f) g of
        (Some e, g1) \<Rightarrow> Fails (ModuleMergeFailed modName e)
      | (None, g1) \<Rightarrow>
          if length prev > 0
          then (case LinkFragments HasNode AddDependency g1 prev (ef_EntryNodes f) of
                  (Some (LinkFailed a b NilDereference), g2) \<Rightarrow> Aborts
                | (Some e, g2) \<Rightarrow> Fails (ModuleLinkFailed (eg_Name g) e)
                | (None, g2) \<Rightarrow> Done g2)
          else Done g1)"

text \<open>
  The loop over the modules, each given by its name and its answer. An empty fragment is
  passed over and leaves the previous exit nodes in place.
\<close>

type_synonym adder = "string \<Rightarrow> ExecutionFragment \<Rightarrow> NodeID list \<Rightarrow> ExecutionGraph \<Rightarrow> (pipe_error, ExecutionGraph) outcome"

fun assemble :: "adder \<Rightarrow> (string \<times> (module_error, ExecutionFragment option) answer) list \<Rightarrow> NodeID list \<Rightarrow> ExecutionGraph \<Rightarrow>
    (pipe_error, ExecutionGraph) outcome" where
  "assemble add [] prev g = Done g"
| "assemble add ((nm, a) # ms) prev g =
     (case SafeModulePlan a of
        (_, Some e) \<Rightarrow> Fails (ModulePlanFailed nm e)
      | (None, None) \<Rightarrow> assemble add ms prev g
      | (Some f, None) \<Rightarrow>
          if length (ef_Nodes f) = 0 then assemble add ms prev g
          else (case add nm f prev g of
                  Done g' \<Rightarrow> assemble add ms (ef_ExitNodes f) g'
                | Fails e \<Rightarrow> Fails e
                | Aborts \<Rightarrow> Aborts))"

definition plan_modules :: "adder \<Rightarrow> string \<Rightarrow> bool \<Rightarrow> (string \<times> (module_error, ExecutionFragment option) answer) list \<Rightarrow>
    (pipe_error, ExecutionGraph) outcome" where
  "plan_modules add pname isModuleContext ms =
     (if \<not> isModuleContext then Fails (NotAModuleContext pname)
      else case assemble add ms [] (NewExecutionGraph pname) of
        Fails e \<Rightarrow> Fails e
      | Aborts \<Rightarrow> Aborts
      | Done g \<Rightarrow>
          (case CalculateEntryAndExitNodes g of
             Inl e \<Rightarrow> Aborts
           | Inr g' \<Rightarrow> (case Validate g' of Some e \<Rightarrow> Fails (InvalidGraph pname e) | None \<Rightarrow> Done g')))"

section \<open>What an assembled plan contains\<close>

definition graph_plan :: "ExecutionGraph \<Rightarrow> bool" where
  "graph_plan g \<longleftrightarrow> graph_wf g \<and> deps_closed (eg_Nodes g) \<and> acyclic (dep_rel (eg_Nodes g))"

lemma graph_plan_empty: "graph_plan (NewExecutionGraph nm)"
  by (simp add: graph_plan_def graph_wf_def NewExecutionGraph_def deps_closed_def dep_rel_def wf_acyclic)

text \<open>
  What the assembly needs of a fragment: a plan on its own whose entry and exit lists name its
  nodes. A sound fragment lists all nodes that wait for nobody and all that nobody waits for.
\<close>

definition module_result :: "ExecutionFragment \<Rightarrow> bool" where
  "module_result f \<longleftrightarrow> fragment_plan f \<and> set (ef_EntryNodes f) \<subseteq> node_ids (ef_Nodes f)
     \<and> set (ef_ExitNodes f) \<subseteq> node_ids (ef_Nodes f)"

definition module_fragment :: "ExecutionFragment \<Rightarrow> bool" where
  "module_fragment f \<longleftrightarrow> fragment_plan f \<and> set (ef_EntryNodes f) = entry_ids (ef_Nodes f)
     \<and> set (ef_ExitNodes f) = exit_ids (ef_Nodes f)"

abbreviation frag_ids :: "ExecutionFragment \<Rightarrow> NodeID set" where
  "frag_ids f \<equiv> node_ids (ef_Nodes f)"

abbreviation frag_disjoint :: "ExecutionFragment \<Rightarrow> ExecutionFragment \<Rightarrow> bool" where
  "frag_disjoint f f' \<equiv> frag_ids f \<inter> frag_ids f' = {}"

text \<open>The fragments that reach the merge, in module order.\<close>

fun contributed :: "(string \<times> (module_error, ExecutionFragment option) answer) list \<Rightarrow> ExecutionFragment list" where
  "contributed [] = []"
| "contributed ((nm, a) # ms) =
     (case a of Returns (Some f) None \<Rightarrow> (if ef_Nodes f = [] then contributed ms else f # contributed ms)
      | _ \<Rightarrow> contributed ms)"

definition no_module_error :: "(string \<times> (module_error, ExecutionFragment option) answer) list \<Rightarrow> bool" where
  "no_module_error ms \<longleftrightarrow> (\<forall>(nm, a) \<in> set ms. snd (SafeModulePlan a) = None)"

text \<open>The edges between modules: from the listed exits of each fragment to the listed entries of
  the next.\<close>

fun barrier_edges :: "NodeID set \<Rightarrow> ExecutionFragment list \<Rightarrow> (NodeID \<times> NodeID) set" where
  "barrier_edges A [] = {}"
| "barrier_edges A (f # fs) = A \<times> set (ef_EntryNodes f) \<union> barrier_edges (set (ef_ExitNodes f)) fs"

definition ordered_by :: "(NodeID \<times> NodeID) set \<Rightarrow> ExecutionFragment \<Rightarrow> ExecutionFragment \<Rightarrow> bool" where
  "ordered_by R f f' \<longleftrightarrow> frag_ids f \<times> frag_ids f' \<subseteq> R\<^sup>+"

lemma node_ids_nonempty: "ns \<noteq> [] \<Longrightarrow> node_ids ns \<noteq> {}"
  by (cases ns) (auto simp: node_ids_def)

lemma contributed_nonempty: "f \<in> set (contributed ms) \<Longrightarrow> ef_Nodes f \<noteq> []"
  by (induction ms rule: contributed.induct) (auto split: answer.splits option.splits if_splits)

lemma entry_exit_subset: "entry_ids ns \<subseteq> node_ids ns" "exit_ids ns \<subseteq> node_ids ns"
  by (auto simp: entry_ids_def exit_ids_def)

lemma module_fragment_result: "module_fragment f \<Longrightarrow> module_result f"
  using entry_exit_subset by (auto simp: module_fragment_def module_result_def)

lemma barrier_reaches:
  assumes "barrier_edges A fs \<union> (\<Union>f \<in> set fs. dep_rel (ef_Nodes f)) \<subseteq> R"
    and "\<And>f. f \<in> set fs \<Longrightarrow> module_fragment f \<and> ef_Nodes f \<noteq> []"
    and "a \<in> A" "f \<in> set fs" "y \<in> frag_ids f"
  shows "(a, y) \<in> R\<^sup>+"
  using assms
proof (induction fs arbitrary: A a)
  case (Cons f0 fs)
  let ?ns = "ef_Nodes f0"
  have f0: "deps_closed ?ns" "acyclic (dep_rel ?ns)" "?ns \<noteq> []"
    and ends: "set (ef_EntryNodes f0) = entry_ids ?ns" "set (ef_ExitNodes f0) = exit_ids ?ns"
    using Cons.prems(2)[of f0] by (simp_all add: module_fragment_def fragment_plan_def)
  have sub: "dep_rel ?ns \<subseteq> R" "A \<times> entry_ids ?ns \<subseteq> R" using Cons.prems(1) ends by auto
  have here: "(a, y) \<in> R\<^sup>+" if y: "y \<in> node_ids ?ns" for y
  proof -
    obtain e where "e \<in> entry_ids ?ns" "(e, y) \<in> (dep_rel ?ns)\<^sup>*" using entry_reaches[OF f0(1,2) y] by blast
    then show ?thesis using sub Cons.prems(3) rtrancl_mono[OF sub(1)] by (meson SigmaI rtrancl_into_trancl2 subsetD)
  qed
  show ?case
  proof (cases "y \<in> node_ids ?ns")
    case False
    then have f: "f \<in> set fs" using Cons.prems(4,5) by auto
    obtain x where x: "x \<in> exit_ids ?ns"
      using reaches_exit[OF f0(2)] node_ids_nonempty[OF f0(3)] by blast
    have "(x, y) \<in> R\<^sup>+"
      by (rule Cons.IH[OF _ _ x f Cons.prems(5)]) (use Cons.prems(1,2) ends in auto)
    moreover have "(a, x) \<in> R\<^sup>+" using here x entry_exit_subset by blast
    ultimately show ?thesis by auto
  qed (rule here)
qed simp

lemma barrier_ordered:
  assumes "barrier_edges A fs \<union> (\<Union>f \<in> set fs. dep_rel (ef_Nodes f)) \<subseteq> R"
    and "\<And>f. f \<in> set fs \<Longrightarrow> module_fragment f \<and> ef_Nodes f \<noteq> []"
  shows "sorted_wrt (ordered_by R) fs"
  using assms
proof (induction fs arbitrary: A)
  case (Cons f fs)
  let ?E = "set (ef_ExitNodes f)"
  have sub: "barrier_edges ?E fs \<union> (\<Union>f \<in> set fs. dep_rel (ef_Nodes f)) \<subseteq> R" "dep_rel (ef_Nodes f) \<subseteq> R"
    using Cons.prems(1) by auto
  have "(x, y) \<in> R\<^sup>+" if x: "x \<in> frag_ids f" and y: "f' \<in> set fs" "y \<in> frag_ids f'" for x y f'
  proof -
    obtain z where z: "z \<in> ?E" "(x, z) \<in> (dep_rel (ef_Nodes f))\<^sup>*"
      using reaches_exit[OF _ x] Cons.prems(2)[of f] by (auto simp: module_fragment_def fragment_plan_def)
    have "(z, y) \<in> R\<^sup>+" by (rule barrier_reaches[OF sub(1) _ z(1) y]) (use Cons.prems(2) in auto)
    then show ?thesis using z(2) rtrancl_mono[OF sub(2)] by (meson rtrancl_trancl_trancl subsetD)
  qed
  then show ?case using Cons.IH[OF sub(1)] Cons.prems(2) by (auto simp: ordered_by_def)
qed simp

text \<open>Modules that panic, return nil or return an empty fragment leave no trace.\<close>

lemma assemble_skip:
  assumes "\<not> (\<exists>f. a = Returns (Some f) None \<and> ef_Nodes f \<noteq> [])" "snd (SafeModulePlan a) = None"
  shows "assemble add ((nm, a) # ms) prev g = assemble add ms prev g" "contributed ((nm, a) # ms) = contributed ms"
  using assms by (auto simp: SafeModulePlan_def split: answer.splits option.splits)

section \<open>The interface of the two ways to add a fragment\<close>

text \<open>
  What the planning loop relies on: a fragment with new node IDs is added with exactly the edges
  from the previous exits to its entries, and one that repeats a node ID is refused.
\<close>

locale fragment_adder =
  fixes add :: adder
  assumes add_plan: "graph_plan g \<Longrightarrow> fragment_plan f \<Longrightarrow> frag_ids f \<inter> node_ids (eg_Nodes g) = {} \<Longrightarrow>
      set prev \<subseteq> node_ids (eg_Nodes g) \<Longrightarrow> set (ef_EntryNodes f) \<subseteq> frag_ids f \<Longrightarrow>
      \<exists>g'. add nm f prev g = Done g' \<and> graph_plan g' \<and> node_ids (eg_Nodes g') = node_ids (eg_Nodes g) \<union> frag_ids f
        \<and> dep_rel (eg_Nodes g') = dep_rel (eg_Nodes g) \<union> dep_rel (ef_Nodes f) \<union> set prev \<times> set (ef_EntryNodes f)"
    and add_clash: "frag_ids f \<inter> node_ids (eg_Nodes g) \<noteq> {} \<Longrightarrow> \<exists>e. add nm f prev g = Fails e"
begin

lemma assemble_plan:
  assumes "no_module_error ms" "graph_plan g" "set prev \<subseteq> node_ids (eg_Nodes g)"
    and "\<And>f. f \<in> set (contributed ms) \<Longrightarrow> module_result f \<and> frag_ids f \<inter> node_ids (eg_Nodes g) = {}"
    and "sorted_wrt frag_disjoint (contributed ms)"
  shows "\<exists>g'. assemble add ms prev g = Done g' \<and> graph_plan g'
    \<and> node_ids (eg_Nodes g') = node_ids (eg_Nodes g) \<union> (\<Union>f \<in> set (contributed ms). frag_ids f)
    \<and> dep_rel (eg_Nodes g') = dep_rel (eg_Nodes g) \<union> (\<Union>f \<in> set (contributed ms). dep_rel (ef_Nodes f))
        \<union> barrier_edges (set prev) (contributed ms)"
  using assms
proof (induction ms arbitrary: prev g)
  case (Cons m ms)
  obtain nm a where m: "m = (nm, a)" by fastforce
  have ms: "no_module_error ms" and a: "snd (SafeModulePlan a) = None"
    using Cons.prems(1) by (auto simp: no_module_error_def m)
  show ?case
  proof (cases "\<exists>f. a = Returns (Some f) None \<and> ef_Nodes f \<noteq> []")
    case False
    then show ?thesis using assemble_skip[OF False a] Cons.IH[OF ms Cons.prems(2,3)] Cons.prems(4,5) by (simp add: m)
  next
    case True
    then obtain f where f: "a = Returns (Some f) None" "ef_Nodes f \<noteq> []" by blast
    then have c: "contributed (m # ms) = f # contributed ms" by (simp add: m)
    have mf: "fragment_plan f" "set (ef_EntryNodes f) \<subseteq> frag_ids f" "set (ef_ExitNodes f) \<subseteq> frag_ids f"
      "frag_ids f \<inter> node_ids (eg_Nodes g) = {}" using Cons.prems(4)[of f] c by (auto simp: module_result_def)
    obtain g1 where g1: "add nm f prev g = Done g1" "graph_plan g1"
      "node_ids (eg_Nodes g1) = node_ids (eg_Nodes g) \<union> frag_ids f"
      "dep_rel (eg_Nodes g1) = dep_rel (eg_Nodes g) \<union> dep_rel (ef_Nodes f) \<union> set prev \<times> set (ef_EntryNodes f)"
      using add_plan[OF Cons.prems(2) mf(1,4) Cons.prems(3) mf(2)] by blast
    have exits: "set (ef_ExitNodes f) \<subseteq> node_ids (eg_Nodes g1)" using g1(3) mf(3) by blast
    have new: "module_result f' \<and> frag_ids f' \<inter> node_ids (eg_Nodes g1) = {}" if "f' \<in> set (contributed ms)" for f'
      using that Cons.prems(4)[of f'] Cons.prems(5) g1(3) by (auto simp: c)
    have "assemble add (m # ms) prev g = assemble add ms (ef_ExitNodes f) g1"
      using f g1(1) by (simp add: m SafeModulePlan_def)
    then show ?thesis
      using Cons.IH[OF ms g1(2) exits new] Cons.prems(5) g1(3,4) by (auto simp: c Un_assoc)
  qed
qed simp

lemma assemble_clash:
  assumes "no_module_error ms" "graph_plan g" "set prev \<subseteq> node_ids (eg_Nodes g)"
    and "\<And>f. f \<in> set (contributed ms) \<Longrightarrow> module_result f"
    and "\<not> (sorted_wrt frag_disjoint (contributed ms) \<and> (\<forall>f \<in> set (contributed ms). frag_ids f \<inter> node_ids (eg_Nodes g) = {}))"
  shows "\<exists>e. assemble add ms prev g = Fails e"
  using assms
proof (induction ms arbitrary: prev g)
  case (Cons m ms)
  obtain nm a where m: "m = (nm, a)" by fastforce
  have ms: "no_module_error ms" and a: "snd (SafeModulePlan a) = None"
    using Cons.prems(1) by (auto simp: no_module_error_def m)
  show ?case
  proof (cases "\<exists>f. a = Returns (Some f) None \<and> ef_Nodes f \<noteq> []")
    case False
    then show ?thesis using assemble_skip[OF False a] Cons.IH[OF ms Cons.prems(2,3)] Cons.prems(4,5) by (simp add: m)
  next
    case True
    then obtain f where f: "a = Returns (Some f) None" "ef_Nodes f \<noteq> []" by blast
    then have c: "contributed (m # ms) = f # contributed ms" by (simp add: m)
    have step: "assemble add (m # ms) prev g =
        (case add nm f prev g of Done g' \<Rightarrow> assemble add ms (ef_ExitNodes f) g' | Fails e \<Rightarrow> Fails e | Aborts \<Rightarrow> Aborts)"
      using f by (simp add: m SafeModulePlan_def)
    have mf: "fragment_plan f" "set (ef_EntryNodes f) \<subseteq> frag_ids f" "set (ef_ExitNodes f) \<subseteq> frag_ids f"
      using Cons.prems(4)[of f] c by (auto simp: module_result_def)
    show ?thesis
    proof (cases "frag_ids f \<inter> node_ids (eg_Nodes g) = {}")
      case False
      then show ?thesis using step add_clash[of f g nm prev] by auto
    next
      case True
      obtain g1 where g1: "add nm f prev g = Done g1" "graph_plan g1"
        "node_ids (eg_Nodes g1) = node_ids (eg_Nodes g) \<union> frag_ids f"
        using add_plan[OF Cons.prems(2) mf(1) True Cons.prems(3) mf(2)] by blast
      have exits: "set (ef_ExitNodes f) \<subseteq> node_ids (eg_Nodes g1)"
        using g1(3) mf(3) by blast
      have "\<not> (sorted_wrt frag_disjoint (contributed ms) \<and> (\<forall>f' \<in> set (contributed ms). frag_ids f' \<inter> node_ids (eg_Nodes g1) = {}))"
        using Cons.prems(5) True by (auto simp: c g1(3))
      from Cons.IH[OF ms g1(2) exits _ this] show ?thesis using step g1(1) Cons.prems(4) by (simp add: c)
    qed
  qed
qed simp

end

text \<open>Linking inline, entry by entry.\<close>

lemma link_entries_ok:
  assumes "gm_ok ns" "no_nil_nodes ns" "set es \<subseteq> node_ids ns"
  shows "\<exists>ns'. link_entries prev es ns = Some ns' \<and> gm_ok ns' \<and> no_nil_nodes ns' \<and> node_ids ns' = node_ids ns
    \<and> (\<forall>i. set (deps_of ns' i) = (if i \<in> set es then set (deps_of ns i) \<union> set prev else set (deps_of ns i)))"
  using assms
proof (induction es arbitrary: ns)
  case (Cons e es)
  obtain n where n: "gm_get ns e = Some (Some n)"
    using Cons.prems by (force simp: no_nil_get gm_has_def simp flip: gm_has_node_ids)
  let ?ns = "gm_put e (Some (n\<lparr>nd_Dependencies := UniqueNodeIDs (nd_Dependencies n @ prev)\<rparr>)) ns"
  have ids: "node_ids ?ns = node_ids ns" using Cons.prems(3) by auto
  have deps: "set (deps_of ?ns i) = (if i = e then set (deps_of ns i) \<union> set prev else set (deps_of ns i))" for i
    using n by (auto simp: deps_of_def)
  obtain ns' where "link_entries prev es ?ns = Some ns'" "gm_ok ns'" "no_nil_nodes ns'" "node_ids ns' = node_ids ns"
    "\<forall>i. set (deps_of ns' i) = (if i \<in> set es then set (deps_of ?ns i) \<union> set prev else set (deps_of ?ns i))"
    using Cons.IH[of ?ns] Cons.prems gm_ok_put[of ns e] ids by auto
  then show ?case using n by (intro exI[of _ ns']) (auto simp: deps simp del: deps_of_put)
qed simp

lemma merge_into_plan: "graph_plan g \<Longrightarrow> fragment_plan f \<Longrightarrow> frag_ids f \<inter> node_ids (eg_Nodes g) = {} \<Longrightarrow>
  \<exists>t. merge_nodes (ef_Nodes f) (eg_Nodes g) = (None, t) \<and> gm_ok t \<and> no_nil_nodes t \<and> deps_closed t \<and> acyclic (dep_rel t)
    \<and> node_ids t = node_ids (eg_Nodes g) \<union> frag_ids f \<and> dep_rel t = dep_rel (eg_Nodes g) \<union> dep_rel (ef_Nodes f)"
  using merge_plans[of "ef_Nodes f" "eg_Nodes g"] by (auto simp: graph_plan_def graph_wf_def fragment_plan_def fragment_wf_def)

interpretation inline: fragment_adder add_inline
proof unfold_locales
  fix g :: ExecutionGraph and f prev nm
  assume g: "graph_plan g" and f: "fragment_plan f" and disj: "frag_ids f \<inter> node_ids (eg_Nodes g) = {}"
    and prev: "set prev \<subseteq> node_ids (eg_Nodes g)" and es: "set (ef_EntryNodes f) \<subseteq> frag_ids f"
  obtain t where t: "merge_nodes (ef_Nodes f) (eg_Nodes g) = (None, t)" "gm_ok t" "no_nil_nodes t" "deps_closed t"
    "acyclic (dep_rel t)" "node_ids t = node_ids (eg_Nodes g) \<union> frag_ids f"
    "dep_rel t = dep_rel (eg_Nodes g) \<union> dep_rel (ef_Nodes f)" using merge_into_plan[OF g f disj] by blast
  obtain ns where ns: "link_entries prev (ef_EntryNodes f) t = Some ns" "gm_ok ns" "no_nil_nodes ns" "node_ids ns = node_ids t"
    "\<forall>i. set (deps_of ns i) = (if i \<in> set (ef_EntryNodes f) then set (deps_of t i) \<union> set prev else set (deps_of t i))"
    using link_entries_ok[OF t(2,3), of "ef_EntryNodes f" prev] es t(6) by auto
  have rel: "dep_rel ns = dep_rel t \<union> set prev \<times> set (ef_EntryNodes f)"
    using es t(6) by (intro dep_rel_link[OF ns(5,4)]) auto
  have "acyclic (dep_rel ns)"
    unfolding rel t(7) using t(5,7) g f disj prev es
    by (intro acyclic_link[OF dep_rel_closed dep_rel_closed]) (auto simp: fragment_plan_def graph_plan_def)
  moreover have "deps_closed ns" using t(4,6) ns(4,5) prev by (auto simp: deps_closed_def split: if_splits)
  ultimately show "\<exists>g'. add_inline nm f prev g = Done g' \<and> graph_plan g' \<and> node_ids (eg_Nodes g') = node_ids (eg_Nodes g) \<union> frag_ids f
        \<and> dep_rel (eg_Nodes g') = dep_rel (eg_Nodes g) \<union> dep_rel (ef_Nodes f) \<union> set prev \<times> set (ef_EntryNodes f)"
    using t ns(1-4) rel by (cases prev) (auto simp: add_inline_def graph_plan_def graph_wf_def)
next
  fix f and g :: ExecutionGraph and nm prev
  assume "frag_ids f \<inter> node_ids (eg_Nodes g) \<noteq> {}"
  then show "\<exists>e. add_inline nm f prev g = Fails e" using merge_nodes_clash by (fastforce simp: add_inline_def)
qed

interpretation linked: fragment_adder add_linked
proof unfold_locales
  fix g :: ExecutionGraph and f prev nm
  assume g: "graph_plan g" and f: "fragment_plan f" and disj: "frag_ids f \<inter> node_ids (eg_Nodes g) = {}"
    and prev: "set prev \<subseteq> node_ids (eg_Nodes g)" and es: "set (ef_EntryNodes f) \<subseteq> frag_ids f"
  have g': "graph_wf g" "deps_closed (eg_Nodes g)" "acyclic (dep_rel (eg_Nodes g))"
    using g by (simp_all add: graph_plan_def)
  obtain g1 g2 where "MergeFragment (Some f) g = (None, g1)"
    "LinkFragments HasNode AddDependency g1 prev (ef_EntryNodes f) = (None, g2)" "graph_plan g2"
    "node_ids (eg_Nodes g2) = node_ids (eg_Nodes g) \<union> frag_ids f"
    "dep_rel (eg_Nodes g2) = dep_rel (eg_Nodes g) \<union> dep_rel (ef_Nodes f) \<union> set prev \<times> set (ef_EntryNodes f)"
    using egm.merge_link_plan[OF g' f disj prev es] unfolding graph_plan_def by blast
  then show "\<exists>g'. add_linked nm f prev g = Done g' \<and> graph_plan g' \<and> node_ids (eg_Nodes g') = node_ids (eg_Nodes g) \<union> frag_ids f
        \<and> dep_rel (eg_Nodes g') = dep_rel (eg_Nodes g) \<union> dep_rel (ef_Nodes f) \<union> set prev \<times> set (ef_EntryNodes f)"
    by (cases prev) (auto simp: add_linked_def LinkFragments_def)
next
  fix f and g :: ExecutionGraph and nm prev
  assume "frag_ids f \<inter> node_ids (eg_Nodes g) \<noteq> {}"
  then obtain e where "fst (MergeFragment (Some f) g) = Some e" using egm.merge_clash[of f g] by auto
  then show "\<exists>e. add_linked nm f prev g = Fails e" by (auto simp: add_linked_def split: prod.split)
qed

context fragment_adder begin

lemma plan_modules_plan:
  assumes "no_module_error ms" "\<And>f. f \<in> set (contributed ms) \<Longrightarrow> module_result f"
    and "sorted_wrt frag_disjoint (contributed ms)"
  shows "\<exists>g. plan_modules add pname True ms = Done g \<and> graph_plan g \<and> Validate g = None
    \<and> node_ids (eg_Nodes g) = (\<Union>f \<in> set (contributed ms). frag_ids f)
    \<and> dep_rel (eg_Nodes g) = (\<Union>f \<in> set (contributed ms). dep_rel (ef_Nodes f)) \<union> barrier_edges {} (contributed ms)
    \<and> eg_EntryNodes g = sorted_list_of_set (entry_ids (eg_Nodes g))
    \<and> eg_ExitNodes g = sorted_list_of_set (exit_ids (eg_Nodes g))"
proof -
  have empty: "eg_Nodes (NewExecutionGraph pname) = []" by (simp add: NewExecutionGraph_def)
  obtain g where g: "assemble add ms [] (NewExecutionGraph pname) = Done g" "graph_plan g"
    "node_ids (eg_Nodes g) = (\<Union>f \<in> set (contributed ms). frag_ids f)"
    "dep_rel (eg_Nodes g) = (\<Union>f \<in> set (contributed ms). dep_rel (ef_Nodes f)) \<union> barrier_edges {} (contributed ms)"
    using assemble_plan[OF assms(1) graph_plan_empty _ _ assms(3), of "[]" pname] assms(2)
    by (auto simp: empty dep_rel_def)
  let ?g = "g\<lparr>eg_EntryNodes := sorted_list_of_set (entry_ids (eg_Nodes g)),
              eg_ExitNodes := sorted_list_of_set (exit_ids (eg_Nodes g))\<rparr>"
  have wf: "gm_ok (eg_Nodes g)" "no_nil_nodes (eg_Nodes g)" using g(2) by (simp_all add: graph_plan_def graph_wf_def)
  have "Validate ?g = None"
    using g(2) wf entry_exit_subset[of "eg_Nodes g"] Validate_None_iff[of ?g]
    by (auto simp: valid_plan_def graph_plan_def entry_ids_def)
  then show ?thesis
    using g Calculate_eq[OF wf] by (intro exI[of _ ?g]) (simp add: plan_modules_def graph_plan_def graph_wf_def)
qed

lemma plan_modules_clash:
  assumes "no_module_error ms" "\<And>f. f \<in> set (contributed ms) \<Longrightarrow> module_result f"
    and "\<not> sorted_wrt frag_disjoint (contributed ms)"
  shows "\<exists>e. plan_modules add pname True ms = Fails e"
  using assemble_clash[OF assms(1) graph_plan_empty _ assms(2), of "[]" pname] assms(3)
  by (auto simp: plan_modules_def)

end

lemma dep_rel_Nil [simp]: "dep_rel [] = {}"
  by (simp add: dep_rel_def)

section \<open>Planning the tasks of a module\<close>

text \<open>The fragments of the required tasks, in order; \<open>None\<close> when a call fails or panics.\<close>

fun required_fragments :: "Task list \<Rightarrow> ExecutionFragment list option" where
  "required_fragments [] = Some []"
| "required_fragments (t # ts) =
     (case tk_IsRequired t of
        Returns False None \<Rightarrow> required_fragments ts
      | Returns True None \<Rightarrow>
          (case tk_Plan t of
             Returns (Some f) None \<Rightarrow> map_option (Cons f) (required_fragments ts)
           | Returns None None \<Rightarrow> required_fragments ts
           | _ \<Rightarrow> None)
      | _ \<Rightarrow> None)"

lemma plan_task_list_plan:
  assumes "required_fragments ts = Some fs" "fragment_plan f"
    and "\<And>f'. f' \<in> set fs \<Longrightarrow> fragment_plan f' \<and> frag_disjoint f' f" "sorted_wrt frag_disjoint fs"
  shows "\<exists>f'. plan_task_list ts f = Done f' \<and> fragment_plan f' \<and> ef_Name f' = ef_Name f
    \<and> frag_ids f' = frag_ids f \<union> (\<Union>f \<in> set fs. frag_ids f)
    \<and> dep_rel (ef_Nodes f') = dep_rel (ef_Nodes f) \<union> (\<Union>f \<in> set fs. dep_rel (ef_Nodes f))"
  using assms
proof (induction ts arbitrary: f fs)
  case (Cons t ts)
  show ?case
  proof (cases "tk_IsRequired t = Returns True None \<and> (\<exists>tf. tk_Plan t = Returns (Some tf) None)")
    case False
    then have "plan_task_list (t # ts) f = plan_task_list ts f" "required_fragments ts = Some fs"
      using Cons.prems(1)
      by (auto simp: Fragment_MergeFragment_def split: answer.splits option.splits bool.splits)
    then show ?thesis using Cons.IH[OF _ Cons.prems(2-4)] by simp
  next
    case True
    then obtain tf fs' where tf: "tk_IsRequired t = Returns True None" "tk_Plan t = Returns (Some tf) None"
      "required_fragments ts = Some fs'" "fs = tf # fs'"
      using Cons.prems(1) by auto
    have plan: "fragment_wf f" "deps_closed (ef_Nodes f)" "acyclic (dep_rel (ef_Nodes f))"
      using Cons.prems(2) by (simp_all add: fragment_plan_def)
    obtain f1 where f1: "Fragment_MergeFragment (Some tf) f = (None, f1)" "fragment_plan f1"
      "frag_ids f1 = frag_ids f \<union> frag_ids tf" "dep_rel (ef_Nodes f1) = dep_rel (ef_Nodes f) \<union> dep_rel (ef_Nodes tf)"
      using efm.merge_link_plan[OF plan, of tf "[]" "[]"] Cons.prems(3)[of tf] tf(4)
      by (auto simp: fragment_plan_def LinkFragments_def)
    have "ef_Name f1 = ef_Name f" using f1(1) by (auto simp: Fragment_MergeFragment_def split: prod.splits)
    moreover have "fragment_plan f' \<and> frag_disjoint f' f1" if "f' \<in> set fs'" for f'
      using that Cons.prems(3)[of f'] Cons.prems(4) tf(4) f1(3) by (auto simp: Int_commute)
    ultimately show ?thesis
      using Cons.IH[OF tf(3) f1(2)] Cons.prems(4) tf f1 by (auto simp: Un_assoc)
  qed
qed simp

lemma PlanTasks_plan:
  assumes "required_fragments (bm_ModuleTasks b) = Some fs"
    and "\<And>f. f \<in> set fs \<Longrightarrow> fragment_plan f" "sorted_wrt frag_disjoint fs"
  shows "\<exists>f. PlanTasks True b = Done f \<and> module_fragment f \<and> frag_ids f = (\<Union>f \<in> set fs. frag_ids f)
    \<and> dep_rel (ef_Nodes f) = (\<Union>f \<in> set fs. dep_rel (ef_Nodes f))"
proof -
  have empty: "ef_Nodes (NewExecutionFragment nm) = []" for nm by (simp add: NewExecutionFragment_def)
  obtain f where f: "plan_task_list (bm_ModuleTasks b) (NewExecutionFragment (bm_Name b @ ''-Fragment'')) = Done f"
    "fragment_plan f" "frag_ids f = (\<Union>f \<in> set fs. frag_ids f)"
    "dep_rel (ef_Nodes f) = (\<Union>f \<in> set fs. dep_rel (ef_Nodes f))"
    using plan_task_list_plan[OF assms(1) fragment_plan_empty _ assms(3)] assms(2) by (fastforce simp: empty)
  from Fragment_Calculate_plan[OF f(2)] show ?thesis
    using f by (auto simp: PlanTasks_def module_fragment_def)
qed

lemma deps_of_rel: "i \<in> node_ids ns \<Longrightarrow> set (deps_of ns i) = (dep_rel ns)\<inverse> `` {i}"
  by (auto simp: dep_rel_def)

text \<open>Entry and exit nodes depend on the nodes and the edges only.\<close>

lemma entry_exit_rel:
  assumes "node_ids ns = node_ids ns'" "dep_rel ns = dep_rel ns'"
  shows "entry_ids ns = entry_ids ns'" "exit_ids ns = exit_ids ns'"
proof -
  have d: "set (deps_of ns i) = set (deps_of ns' i)" if "i \<in> node_ids ns'" for i
    using that assms by (simp add: deps_of_rel)
  have "deps_of ns i = [] \<longleftrightarrow> deps_of ns' i = []" if "i \<in> node_ids ns'" for i using d[OF that] by auto
  then show "entry_ids ns = entry_ids ns'" using assms(1) by (auto simp: entry_ids_def)
  show "exit_ids ns = exit_ids ns'" using assms(1) d by (auto simp: exit_ids_def)
qed

section \<open>Properties\<close>

lemma adder_cases:
  assumes "add \<in> {add_inline, add_linked}"
  shows "fragment_adder add"
  using assms inline.fragment_adder_axioms linked.fragment_adder_axioms by blast

text \<open>C7: with either way of adding fragments, a pipeline whose modules return sound fragments with
  different node IDs is planned: the plan validates, has exactly the nodes of the fragments,
  their edges and the edges from the exits of each non-empty fragment to the entries of the
  next, and it is a barrier between modules: every node of a module transitively depends on
  every node of every earlier module.\<close>

theorem plan_modules_correct:
  assumes "add \<in> {add_inline, add_linked}"
    and "no_module_error ms" "\<And>f. f \<in> set (contributed ms) \<Longrightarrow> module_fragment f"
    and "sorted_wrt frag_disjoint (contributed ms)"
  shows "\<exists>g. plan_modules add pname True ms = Done g \<and> Validate g = None
    \<and> node_ids (eg_Nodes g) = (\<Union>f \<in> set (contributed ms). frag_ids f)
    \<and> dep_rel (eg_Nodes g) = (\<Union>f \<in> set (contributed ms). dep_rel (ef_Nodes f)) \<union> barrier_edges {} (contributed ms)
    \<and> sorted_wrt (ordered_by (dep_rel (eg_Nodes g))) (contributed ms)"
proof -
  obtain g where g: "plan_modules add pname True ms = Done g" "Validate g = None"
    "node_ids (eg_Nodes g) = (\<Union>f \<in> set (contributed ms). frag_ids f)"
    "dep_rel (eg_Nodes g) = (\<Union>f \<in> set (contributed ms). dep_rel (ef_Nodes f)) \<union> barrier_edges {} (contributed ms)"
    using fragment_adder.plan_modules_plan[OF adder_cases[OF assms(1)] assms(2) module_fragment_result[OF assms(3)] assms(4), of pname]
    by blast
  have "sorted_wrt (ordered_by (dep_rel (eg_Nodes g))) (contributed ms)"
    using g(4) assms(3) contributed_nonempty
    by (intro barrier_ordered[where A = "{}"]) auto
  then show ?thesis using g by blast
qed

text \<open>the two ways of assembling a plan agree: for the same fragments either both refuse the
  plan, because two modules use the same node ID, or both return plans with the same nodes,
  the same dependencies, and the same entry and exit lists.\<close>

theorem plan_modules_styles_agree:
  assumes "no_module_error ms" "\<And>f. f \<in> set (contributed ms) \<Longrightarrow> module_result f"
  shows "if sorted_wrt frag_disjoint (contributed ms)
    then \<exists>g g'. plan_modules add_inline pname True ms = Done g \<and> plan_modules add_linked pname True ms = Done g'
      \<and> node_ids (eg_Nodes g) = node_ids (eg_Nodes g') \<and> dep_rel (eg_Nodes g) = dep_rel (eg_Nodes g')
      \<and> eg_EntryNodes g = eg_EntryNodes g' \<and> eg_ExitNodes g = eg_ExitNodes g'
    else \<exists>e e'. plan_modules add_inline pname True ms = Fails e \<and> plan_modules add_linked pname True ms = Fails e'"
proof (cases "sorted_wrt frag_disjoint (contributed ms)")
  case True
  obtain g where g: "plan_modules add_inline pname True ms = Done g"
    "node_ids (eg_Nodes g) = (\<Union>f \<in> set (contributed ms). frag_ids f)"
    "dep_rel (eg_Nodes g) = (\<Union>f \<in> set (contributed ms). dep_rel (ef_Nodes f)) \<union> barrier_edges {} (contributed ms)"
    "eg_EntryNodes g = sorted_list_of_set (entry_ids (eg_Nodes g))"
    "eg_ExitNodes g = sorted_list_of_set (exit_ids (eg_Nodes g))"
    using inline.plan_modules_plan[OF assms True, of pname] by blast
  obtain g' where g': "plan_modules add_linked pname True ms = Done g'"
    "node_ids (eg_Nodes g') = (\<Union>f \<in> set (contributed ms). frag_ids f)"
    "dep_rel (eg_Nodes g') = (\<Union>f \<in> set (contributed ms). dep_rel (ef_Nodes f)) \<union> barrier_edges {} (contributed ms)"
    "eg_EntryNodes g' = sorted_list_of_set (entry_ids (eg_Nodes g'))"
    "eg_ExitNodes g' = sorted_list_of_set (exit_ids (eg_Nodes g'))"
    using linked.plan_modules_plan[OF assms True, of pname] by blast
  have "entry_ids (eg_Nodes g) = entry_ids (eg_Nodes g')" "exit_ids (eg_Nodes g) = exit_ids (eg_Nodes g')"
    by (rule entry_exit_rel; use g(2,3) g'(2,3) in simp)+
  then show ?thesis using True g g' by simp
next
  case False
  then show ?thesis using inline.plan_modules_clash[OF assms] linked.plan_modules_clash[OF assms] by simp
qed

text \<open>\<^verbatim>\<open>PlanTasks\<close> asks the tasks in order and merges the fragments of the required ones: when all
  calls succeed and the fragments are plans with different node IDs, it returns a sound
  fragment with exactly their nodes and their edges, and no edge between tasks.\<close>

theorem PlanTasks_correct:
  assumes "required_fragments (bm_ModuleTasks b) = Some fs"
    and "\<And>f. f \<in> set fs \<Longrightarrow> fragment_plan f" "sorted_wrt frag_disjoint fs"
  shows "\<exists>f. PlanTasks True b = Done f \<and> module_fragment f \<and> frag_ids f = (\<Union>f \<in> set fs. frag_ids f)
    \<and> dep_rel (ef_Nodes f) = (\<Union>f \<in> set fs. dep_rel (ef_Nodes f))"
  using assms by (rule PlanTasks_plan)

text \<open>a module that panics while it plans is dropped without an error: the pipeline plans exactly
  as if it did not have the module. (The recovery assigns to a local variable that is not the
  function's result.)\<close>

theorem plan_modules_drops_panicking_module:
  "plan_modules add pname ctx (xs @ (nm, Panics v) # ys) = plan_modules add pname ctx (xs @ ys)"
proof -
  have "assemble add (xs @ (nm, Panics v) # ys) prev g = assemble add (xs @ ys) prev g" for prev g
    by (induction add xs prev g rule: assemble.induct)
      (auto simp: SafeModulePlan_def split: answer.splits option.splits outcome.splits)
  then show ?thesis by (simp add: plan_modules_def)
qed

definition planned_fragment :: "(NodeID \<times> NodeID list) list \<Rightarrow> ExecutionFragment" where
  "planned_fragment dl =
     (case Fragment_CalculateEntryAndExitNodes (plain_fragment dl) of Inr f \<Rightarrow> f | Inl e \<Rightarrow> plain_fragment dl)"

lemma planned_module_fragment:
  assumes "distinct (map fst dl)" "Validate (plain_graph dl) = None"
  shows "module_fragment (planned_fragment dl)" "frag_ids (planned_fragment dl) = set (map fst dl)"
proof -
  obtain f where f: "Fragment_CalculateEntryAndExitNodes (plain_fragment dl) = Inr f" "fragment_plan f"
    "ef_Nodes f = ef_Nodes (plain_fragment dl)" "set (ef_EntryNodes f) = entry_ids (ef_Nodes f)"
    "set (ef_ExitNodes f) = exit_ids (ef_Nodes f)"
    using Fragment_Calculate_plan[OF plain_fragment_plan[OF assms]] by auto
  then show "module_fragment (planned_fragment dl)" by (simp add: planned_fragment_def module_fragment_def)
  show "frag_ids (planned_fragment dl) = set (map fst dl)"
    using f(1,3) by (force simp: planned_fragment_def node_ids_def plain_fragment_def)
qed

definition demo_modules :: "(string \<times> (module_error, ExecutionFragment option) answer) list" where
  "demo_modules =
     [(''Preflight'', Returns (Some (planned_fragment [(''check'', []), (''report'', [''check''])])) None),
      (''Nothing'', Returns None None),
      (''Install'', Returns (Some (planned_fragment [(''install'', [])])) None)]"

lemma demo_modules_ok:
  "no_module_error demo_modules"
  "contributed demo_modules = [planned_fragment [(''check'', []), (''report'', [''check''])], planned_fragment [(''install'', [])]]"
  by code_simp+

lemma demo_fragments:
  "module_fragment (planned_fragment [(''check'', []), (''report'', [''check''])])"
  "frag_ids (planned_fragment [(''check'', []), (''report'', [''check''])]) = {''check'', ''report''}"
  "module_fragment (planned_fragment [(''install'', [])])"
  "frag_ids (planned_fragment [(''install'', [])]) = {''install''}"
proof -
  have "Validate (plain_graph [(''check'', []), (''report'', [''check''])]) = None"
    "Validate (plain_graph [(''install'', [])]) = None" by code_simp+
  then show "module_fragment (planned_fragment [(''check'', []), (''report'', [''check''])])"
    "frag_ids (planned_fragment [(''check'', []), (''report'', [''check''])]) = {''check'', ''report''}"
    "module_fragment (planned_fragment [(''install'', [])])"
    "frag_ids (planned_fragment [(''install'', [])]) = {''install''}"
    by (simp_all add: planned_module_fragment)
qed

theorem plan_modules_correct_witness:
  "\<exists>g. plan_modules add_inline ''Demo'' True demo_modules = Done g
     \<and> (''check'', ''install'') \<in> (dep_rel (eg_Nodes g))\<^sup>+"
proof -
  obtain g where "plan_modules add_inline ''Demo'' True demo_modules = Done g"
    "sorted_wrt (ordered_by (dep_rel (eg_Nodes g))) (contributed demo_modules)"
    using plan_modules_correct[of add_inline demo_modules "''Demo''"] demo_modules_ok demo_fragments by auto
  then show ?thesis by (auto simp: demo_modules_ok ordered_by_def demo_fragments)
qed

theorem plan_modules_styles_agree_witness:
  "(\<exists>g g'. plan_modules add_inline ''Demo'' True demo_modules = Done g \<and> plan_modules add_linked ''Demo'' True demo_modules = Done g'
      \<and> dep_rel (eg_Nodes g) = dep_rel (eg_Nodes g'))
   \<and> (\<exists>e e'. plan_modules add_inline ''Demo'' True (demo_modules @ demo_modules) = Fails e
      \<and> plan_modules add_linked ''Demo'' True (demo_modules @ demo_modules) = Fails e')"
proof -
  have two: "no_module_error (demo_modules @ demo_modules)"
    "contributed (demo_modules @ demo_modules) = contributed demo_modules @ contributed demo_modules" by code_simp+
  have "sorted_wrt frag_disjoint (contributed demo_modules)" by (simp add: demo_modules_ok demo_fragments)
  moreover have "\<not> sorted_wrt frag_disjoint (contributed (demo_modules @ demo_modules))"
    unfolding two demo_modules_ok by (simp add: demo_fragments)
  ultimately show ?thesis
    using plan_modules_styles_agree[OF demo_modules_ok(1), of "''Demo''"]
      plan_modules_styles_agree[OF two(1), of "''Demo''"]
    unfolding two demo_modules_ok
    using demo_fragments(2,4) module_fragment_result[OF demo_fragments(1)] module_fragment_result[OF demo_fragments(3)] by auto
qed

theorem PlanTasks_correct_witness:
  "\<exists>f. PlanTasks True (NewBaseModule ''Install''
       [\<lparr>tk_Name = ''etcd'', tk_IsRequired = Returns True None, tk_Plan = Returns (Some (planned_fragment [(''install'', [])])) None\<rparr>,
        \<lparr>tk_Name = ''registry'', tk_IsRequired = Returns False None, tk_Plan = Panics ''nil map''\<rparr>]) = Done f
     \<and> module_fragment f \<and> frag_ids f = {''install''}"
proof -
  let ?b = "NewBaseModule ''Install''
       [\<lparr>tk_Name = ''etcd'', tk_IsRequired = Returns True None, tk_Plan = Returns (Some (planned_fragment [(''install'', [])])) None\<rparr>,
        \<lparr>tk_Name = ''registry'', tk_IsRequired = Returns False None, tk_Plan = Panics ''nil map''\<rparr>]"
  have "required_fragments (bm_ModuleTasks ?b) = Some [planned_fragment [(''install'', [])]]"
    by (simp add: NewBaseModule_def)
  moreover have "fragment_plan (planned_fragment [(''install'', [])])"
    using demo_fragments(3) by (simp add: module_fragment_def)
  ultimately show ?thesis using PlanTasks_correct[of ?b "[planned_fragment [(''install'', [])]]"] demo_fragments(4) by auto
qed

end
