(* ===== verification/Scheduler.thy ===== *)
theory Scheduler
  imports Planning "HOL-Library.Multiset" "HOL-Library.Sublist"
begin

text \<open>
  The dependency scheduler of tasks (\<^verbatim>\<open>task/scheduler.go\<close>) and the wrapper \<^verbatim>\<open>TaskWithRetry\<close>
  (\<^verbatim>\<open>task/extended.go\<close>). A task value carries the methods of \<^verbatim>\<open>Task\<close> by their answers and, for
  every method that \<^verbatim>\<open>ExtendedTask\<close> adds, whether its dynamic type has the method and what it
  returns: the type assertion to \<^verbatim>\<open>ExtendedTask\<close> succeeds when it has all five.

  \<open>ScheduleTasks\<close> plans in rounds over the pending tasks. The specification is the existence of an
  order of the tasks in which every dependency is the name of an earlier task; the scheduler
  returns fragments exactly when there is one, and its order of planning is one.
\<close>

section \<open>Tasks with dependencies\<close>

text \<open>A \<^verbatim>\<open>float64\<close> is its bit pattern; \<open>2.0\<close> has sign 0, exponent 1024 and fraction 0.\<close>

record TaskRetryPolicy =
  rp_MaxRetries :: int
  rp_RetryDelay :: int
  rp_BackoffMultiplier :: nat

record SchedTask = Task +
  tk_BaseTimeout :: "int option"
    \<comment> \<open>\<^verbatim>\<open>GetBase().Timeout\<close>, or a nil base\<close>
  tk_Validate :: "goerr option option"
  tk_GetDependencies :: "string list option"
  tk_GetTimeout :: "int option"
  tk_GetRetryPolicy :: "TaskRetryPolicy option option"
  tk_GetOrder :: "int option"

definition is_ExtendedTask :: "SchedTask \<Rightarrow> bool" where
  "is_ExtendedTask t \<longleftrightarrow> tk_Validate t \<noteq> None \<and> tk_GetDependencies t \<noteq> None \<and> tk_GetTimeout t \<noteq> None \<and>
     tk_GetRetryPolicy t \<noteq> None \<and> tk_GetOrder t \<noteq> None"

definition one_second :: int where
  "one_second = 1000000000"

definition retry_policy_or_default :: "TaskRetryPolicy option \<Rightarrow> TaskRetryPolicy" where
  "retry_policy_or_default policy =
     (case policy of
        None \<Rightarrow> \<lparr>rp_MaxRetries = 3, rp_RetryDelay = one_second * 10, rp_BackoffMultiplier = 1024 * 2 ^ 52\<rparr>
      | Some p \<Rightarrow> p)"

record TaskWithRetry =
  tr_Task :: SchedTask
  tr_RetryPolicy :: TaskRetryPolicy

definition NewTaskWithRetry :: "SchedTask \<Rightarrow> TaskRetryPolicy option \<Rightarrow> TaskWithRetry" where
  "NewTaskWithRetry t policy = \<lparr>tr_Task = t, tr_RetryPolicy = retry_policy_or_default policy\<rparr>"

definition TaskWithRetry_Validate :: "TaskWithRetry \<Rightarrow> goerr option" where
  "TaskWithRetry_Validate t = (case tk_Validate (tr_Task t) of Some r \<Rightarrow> r | None \<Rightarrow> None)"

definition TaskWithRetry_GetDependencies :: "TaskWithRetry \<Rightarrow> string list" where
  "TaskWithRetry_GetDependencies t = (case tk_GetDependencies (tr_Task t) of Some ds \<Rightarrow> ds | None \<Rightarrow> [])"

text \<open>\<open>None\<close> is the panic of a nil base.\<close>

definition TaskWithRetry_GetTimeout :: "TaskWithRetry \<Rightarrow> int option" where
  "TaskWithRetry_GetTimeout t =
     (case tk_GetTimeout (tr_Task t) of Some d \<Rightarrow> Some d | None \<Rightarrow> tk_BaseTimeout (tr_Task t))"

definition TaskWithRetry_GetOrder :: "TaskWithRetry \<Rightarrow> int" where
  "TaskWithRetry_GetOrder t = (case tk_GetOrder (tr_Task t) of Some n \<Rightarrow> n | None \<Rightarrow> 0)"

text \<open>The wrapper as a task of its own: every method of \<^verbatim>\<open>ExtendedTask\<close> is there. The timeout of a
  wrapper whose task has neither a timeout nor a base panics when asked for; it is read as 0.\<close>

definition TaskWithRetry_task :: "TaskWithRetry \<Rightarrow> SchedTask" where
  "TaskWithRetry_task t =
     \<lparr>tk_Name = tk_Name (tr_Task t), tk_IsRequired = tk_IsRequired (tr_Task t), tk_Plan = tk_Plan (tr_Task t),
      tk_BaseTimeout = tk_BaseTimeout (tr_Task t), tk_Validate = Some (TaskWithRetry_Validate t),
      tk_GetDependencies = Some (TaskWithRetry_GetDependencies t),
      tk_GetTimeout = Some (case TaskWithRetry_GetTimeout t of Some d \<Rightarrow> d | None \<Rightarrow> 0),
      tk_GetRetryPolicy = Some (Some (tr_RetryPolicy t)), tk_GetOrder = Some (TaskWithRetry_GetOrder t)\<rparr>"

section \<open>Scheduling\<close>

datatype sched_error =
    SchedPlanFailed string goerr
  | Deadlock "string list"
  | UnresolvedDependency string string

text \<open>The execution state is a Go map to bool; it only ever holds true.\<close>

definition AreDependenciesMet :: "SchedTask \<Rightarrow> (string, bool) gomap \<Rightarrow> bool" where
  "AreDependenciesMet t st =
     (if is_ExtendedTask t
      then list_all (\<lambda>dep. gm_getd False st dep) (case tk_GetDependencies t of Some ds \<Rightarrow> ds | None \<Rightarrow> [])
      else True)"

text \<open>
  One round: the inner loop passes over the pending tasks once; a planned task is removed, an
  unmet one is kept in place (\<open>kept\<close> is the prefix before the index, reversed).
\<close>

type_synonym fragments = "ExecutionFragment option list"

fun schedule_round :: "SchedTask list \<Rightarrow> SchedTask list \<Rightarrow> (string, bool) gomap \<Rightarrow> fragments \<Rightarrow> bool \<Rightarrow>
    (sched_error, SchedTask list \<times> (string, bool) gomap \<times> fragments \<times> bool) outcome" where
  "schedule_round [] kept st frs executed = Done (rev kept, st, frs, executed)"
| "schedule_round (t # ts) kept st frs executed =
     (if AreDependenciesMet t st
      then (case tk_Plan t of
              Panics v \<Rightarrow> Aborts
            | Returns f (Some e) \<Rightarrow> Fails (SchedPlanFailed (tk_Name t) e)
            | Returns f None \<Rightarrow> schedule_round ts kept (gm_put (tk_Name t) True st) (frs @ [f]) True)
      else schedule_round ts (t # kept) st frs executed)"

text \<open>The pass shortens the pending list exactly when it planned a task.\<close>

lemma schedule_round_length:
  "schedule_round ts kept st frs executed = Done (kept', st', frs', executed') \<Longrightarrow>
   length kept' \<le> length kept + length ts \<and> (executed' \<longrightarrow> executed \<or> length kept' < length kept + length ts)"
proof (induction ts kept st frs executed rule: schedule_round.induct)
  case (2 t ts kept st frs executed)
  then show ?case
    by (fastforce split: if_splits answer.splits option.splits)
qed auto

function schedule_loop :: "SchedTask list \<Rightarrow> (string, bool) gomap \<Rightarrow> fragments \<Rightarrow> (sched_error, fragments) outcome" where
  "schedule_loop pending st frs =
     (if length pending > 0
      then (case schedule_round pending [] st frs False of
              Done (pending', st', frs', executed) \<Rightarrow>
                if \<not> executed then Fails (Deadlock (map tk_Name pending')) else schedule_loop pending' st' frs'
            | Fails e \<Rightarrow> Fails e
            | Aborts \<Rightarrow> Aborts)
      else Done frs)"
  by pat_completeness auto
termination
  by (relation "measure (\<lambda>(pending, _, _). length pending)") (auto dest: schedule_round_length)

declare schedule_loop.simps [simp del]

definition ScheduleTasks :: "SchedTask list \<Rightarrow> (sched_error, fragments) outcome" where
  "ScheduleTasks tasks = schedule_loop tasks [] []"

definition task_names :: "SchedTask list \<Rightarrow> (string, bool) gomap" where
  "task_names tasks = fold (\<lambda>t. gm_put (tk_Name t) True) tasks []"

fun validate_dependencies :: "(string, bool) gomap \<Rightarrow> SchedTask list \<Rightarrow> sched_error option" where
  "validate_dependencies names [] = None"
| "validate_dependencies names (t # ts) =
     (if is_ExtendedTask t
      then (case find (\<lambda>dep. \<not> gm_getd False names dep) (case tk_GetDependencies t of Some ds \<Rightarrow> ds | None \<Rightarrow> []) of
              Some dep \<Rightarrow> Some (UnresolvedDependency (tk_Name t) dep)
            | None \<Rightarrow> validate_dependencies names ts)
      else validate_dependencies names ts)"

definition ValidateTaskDependencies :: "SchedTask list \<Rightarrow> sched_error option" where
  "ValidateTaskDependencies tasks = validate_dependencies (task_names tasks) tasks"

text \<open>The loop of \<^verbatim>\<open>GetDataFlowAnalysis\<close> has an empty body: both maps stay empty.\<close>

definition GetDataFlowAnalysis :: "SchedTask list \<Rightarrow> (string, string list) gomap \<times> (string, string list) gomap" where
  "GetDataFlowAnalysis tasks = ([], [])"

section \<open>Specification: orders that respect the dependencies\<close>

text \<open>The dependencies the scheduler sees, and the fragment of a task whose plan returns.\<close>

definition seen_deps :: "SchedTask \<Rightarrow> string set" where
  "seen_deps t = (if is_ExtendedTask t then set (case tk_GetDependencies t of Some ds \<Rightarrow> ds | None \<Rightarrow> []) else {})"

fun returned_fragment :: "SchedTask \<Rightarrow> ExecutionFragment option" where
  "returned_fragment t = (case tk_Plan t of Returns f _ \<Rightarrow> f | Panics _ \<Rightarrow> None)"

definition plans_ok :: "SchedTask \<Rightarrow> bool" where
  "plans_ok t \<longleftrightarrow> (\<exists>f. tk_Plan t = Returns f None)"

fun dep_run :: "string set \<Rightarrow> SchedTask list \<Rightarrow> bool" where
  "dep_run S [] = True"
| "dep_run S (t # ts) = (seen_deps t \<subseteq> S \<and> dep_run (insert (tk_Name t) S) ts)"

definition dep_ordered :: "SchedTask list \<Rightarrow> bool" where
  "dep_ordered ts \<longleftrightarrow> (\<forall>i < length ts. seen_deps (ts ! i) \<subseteq> tk_Name ` set (take i ts))"

lemma dep_run_nth:
  "dep_run S ts \<longleftrightarrow> (\<forall>i < length ts. seen_deps (ts ! i) \<subseteq> S \<union> tk_Name ` set (take i ts))"
proof (induction ts arbitrary: S)
  case (Cons t ts)
  have "(\<forall>i < length (t # ts). seen_deps ((t # ts) ! i) \<subseteq> S \<union> tk_Name ` set (take i (t # ts))) \<longleftrightarrow>
      seen_deps t \<subseteq> S \<and> (\<forall>i < length ts. seen_deps (ts ! i) \<subseteq> insert (tk_Name t) S \<union> tk_Name ` set (take i ts))"
    by (simp add: All_less_Suc2)
  with Cons show ?case by simp
qed simp

lemma dep_ordered_run: "dep_ordered ts \<longleftrightarrow> dep_run {} ts"
  by (simp add: dep_run_nth dep_ordered_def)

lemma dep_run_append: "dep_run S (xs @ ys) \<longleftrightarrow> dep_run S xs \<and> dep_run (S \<union> tk_Name ` set xs) ys"
  by (induction xs arbitrary: S) auto

section \<open>One round and the loop\<close>

definition done_names :: "(string, bool) gomap \<Rightarrow> string set" where
  "done_names st = {k. gm_getd False st k}"

lemma done_names_put [simp]: "done_names (gm_put k True st) = insert k (done_names st)"
  by (auto simp: done_names_def)

lemma done_names_Nil [simp]: "done_names [] = {}"
  by (simp add: done_names_def)

lemma AreDependenciesMet_iff: "AreDependenciesMet t st \<longleftrightarrow> seen_deps t \<subseteq> done_names st"
  by (auto simp: AreDependenciesMet_def seen_deps_def done_names_def list_all_iff)

text \<open>What a round does: it splits the pending tasks into the planned ones, in a valid order, and the rest.\<close>

definition round_split where
  "round_split ts st picked left st' \<longleftrightarrow>
     mset ts = mset picked + mset left \<and> subseq left ts \<and> dep_run (done_names st) picked \<and>
     done_names st' = done_names st \<union> tk_Name ` set picked"

lemma schedule_round_done:
  "schedule_round ts kept st frs executed = Done (kept', st', frs', executed') \<Longrightarrow>
   \<exists>picked left. round_split ts st picked left st' \<and> kept' = rev kept @ left \<and>
     frs' = frs @ map returned_fragment picked \<and> (executed' \<longleftrightarrow> executed \<or> picked \<noteq> []) \<and>
     (\<forall>t \<in> set picked. plans_ok t) \<and> (picked = [] \<longrightarrow> (\<forall>t \<in> set ts. \<not> seen_deps t \<subseteq> done_names st))"
proof (induction ts kept st frs executed rule: schedule_round.induct)
  case (1 kept st frs executed)
  then show ?case by (auto simp: round_split_def)
next
  case (2 t ts kept st frs executed)
  show ?case
  proof (cases "AreDependenciesMet t st")
    case True
    with 2(3) obtain f where f: "tk_Plan t = Returns f None"
      and r: "schedule_round ts kept (gm_put (tk_Name t) True st) (frs @ [f]) True = Done (kept', st', frs', executed')"
      by (auto split: answer.splits option.splits)
    from 2(1)[OF True f _ r] obtain picked left where
      p: "round_split ts (gm_put (tk_Name t) True st) picked left st'" "kept' = rev kept @ left"
        "frs' = (frs @ [f]) @ map returned_fragment picked" "executed'" "\<forall>t \<in> set picked. plans_ok t" by auto
    have "round_split (t # ts) st (t # picked) left st'"
      using p(1) True by (auto simp: round_split_def AreDependenciesMet_iff)
    then show ?thesis using p(2-) f
      by (intro exI[of _ "t # picked"] exI[of _ left]) (auto simp: plans_ok_def)
  next
    case False
    with 2(3) have "schedule_round ts (t # kept) st frs executed = Done (kept', st', frs', executed')" by simp
    from 2(2)[OF False this] obtain picked left where
      p: "round_split ts st picked left st'" "kept' = rev (t # kept) @ left" "frs' = frs @ map returned_fragment picked"
        "executed' \<longleftrightarrow> executed \<or> picked \<noteq> []" "\<forall>t \<in> set picked. plans_ok t"
        "picked = [] \<longrightarrow> (\<forall>t \<in> set ts. \<not> seen_deps t \<subseteq> done_names st)" by blast
    have "round_split (t # ts) st picked (t # left) st'" using p(1) by (auto simp: round_split_def)
    then show ?thesis using p(2-) False
      by (intro exI[of _ picked] exI[of _ "t # left"]) (auto simp: AreDependenciesMet_iff)
  qed
qed

lemma schedule_round_fails:
  "schedule_round ts kept st frs executed = Fails e \<Longrightarrow>
   \<exists>t \<in> set ts. \<exists>f m. tk_Plan t = Returns f (Some m) \<and> e = SchedPlanFailed (tk_Name t) m"
  by (induction ts kept st frs executed rule: schedule_round.induct)
    (auto split: if_splits answer.splits option.splits)

lemma schedule_round_aborts:
  "schedule_round ts kept st frs executed = Aborts \<Longrightarrow> \<exists>t \<in> set ts. \<exists>v. tk_Plan t = Panics v"
  by (induction ts kept st frs executed rule: schedule_round.induct)
    (auto split: if_splits answer.splits option.splits)

text \<open>
  A stuck state: the tasks \<open>picked\<close> were planned in a valid order and no task of \<open>left\<close> can follow.
\<close>

definition stuck where
  "stuck ts S picked left \<longleftrightarrow> mset ts = mset picked + mset left \<and> subseq left ts \<and> dep_run S picked \<and>
     (\<forall>t \<in> set left. \<not> seen_deps t \<subseteq> S \<union> tk_Name ` set picked)"

lemma stuck_after_round:
  assumes "round_split ts st picked left st'" "stuck left (done_names st') picked' left'"
  shows "stuck ts (done_names st) (picked @ picked') left'"
  using assms unfolding stuck_def round_split_def
  by (auto simp: dep_run_append sup_assoc image_Un intro: subseq_order.trans)

lemma schedule_loop_result:
  "case schedule_loop pending st frs of
     Done frs' \<Rightarrow> \<exists>order. stuck pending (done_names st) order [] \<and> frs' = frs @ map returned_fragment order
   | Fails (Deadlock ns) \<Rightarrow> \<exists>order left. stuck pending (done_names st) order left \<and> left \<noteq> [] \<and> ns = map tk_Name left
   | Fails (SchedPlanFailed n m) \<Rightarrow> \<exists>t \<in> set pending. \<exists>f. tk_Plan t = Returns f (Some m) \<and> n = tk_Name t
   | Fails (UnresolvedDependency _ _) \<Rightarrow> False
   | Aborts \<Rightarrow> \<exists>t \<in> set pending. \<exists>v. tk_Plan t = Panics v" (is "?Q pending st frs (schedule_loop pending st frs)")
proof (induction pending st frs rule: schedule_loop.induct)
  case (1 pending st frs)
  show ?case
  proof (cases "pending = []")
    case True
    then show ?thesis by (simp add: schedule_loop.simps stuck_def)
  next
    case ne: False
    show ?thesis
    proof (cases "schedule_round pending [] st frs False")
      case (Fails e)
      with schedule_round_fails[OF Fails] ne show ?thesis by (auto 4 4 simp: schedule_loop.simps)
    next
      case Aborts
      with schedule_round_aborts[OF Aborts] ne show ?thesis by (simp add: schedule_loop.simps)
    next
      case (Done r)
      obtain pending' st' frs' ex where r: "r = (pending', st', frs', ex)" by (cases r) auto
      from schedule_round_done[OF Done[unfolded r]] obtain picked where
        p: "round_split pending st picked pending' st'" "frs' = frs @ map returned_fragment picked"
          "ex \<longleftrightarrow> picked \<noteq> []" "picked = [] \<longrightarrow> (\<forall>t \<in> set pending. \<not> seen_deps t \<subseteq> done_names st)" by auto
      show ?thesis
      proof (cases ex)
        case False
        then have "mset pending' = mset pending" "subseq pending' pending" using p by (auto simp: round_split_def)
        then have eq: "pending' = pending" by (metis mset_eq_length subseq_same_length)
        with False p have "stuck pending (done_names st) [] pending" by (simp add: stuck_def)
        with ne eq False Done r show ?thesis by (auto simp: schedule_loop.simps)
      next
        case True
        have sub: "set pending' \<subseteq> set pending" using p(1) by (metis round_split_def subseq_order.order_refl union_iff set_mset_mset subsetI)
        have step: "schedule_loop pending st frs = schedule_loop pending' st' frs'"
          using ne Done r True by (simp add: schedule_loop.simps)
        have IH: "?Q pending' st' frs' (schedule_loop pending' st' frs')"
          using 1[OF _ Done r[symmetric] refl refl] ne True by simp
        show ?thesis
        proof (cases "schedule_loop pending' st' frs'")
          case (Done fr)
          with IH obtain order where o: "stuck pending' (done_names st') order []" "fr = frs' @ map returned_fragment order" by auto
          from stuck_after_round[OF p(1) o(1)] o(2) p(2) Done step show ?thesis
            by (auto intro!: exI[of _ "picked @ order"])
        next
          case (Fails e)
          with IH step sub stuck_after_round[OF p(1)] show ?thesis
            by (cases e) (auto, blast)
        next
          case Aborts
          with IH step sub show ?thesis by auto
        qed
      qed
    qed
  qed
qed

section \<open>Correctness of the scheduler\<close>

definition resolvable :: "SchedTask list \<Rightarrow> SchedTask \<Rightarrow> bool" where
  "resolvable ts t \<longleftrightarrow> (\<exists>order. set order \<subseteq> set ts \<and> dep_ordered (order @ [t]))"

text \<open>No valid order over the tasks contains a task that is left in a stuck state.\<close>

lemma dep_run_avoids_stuck:
  assumes "stuck ts S picked left" "dep_run S order" "set order \<subseteq> set ts"
  shows "set order \<inter> set left = {}"
  using assms(2,3)
proof (induction order rule: rev_induct)
  case (snoc t order)
  then have IH: "set order \<inter> set left = {}" "seen_deps t \<subseteq> S \<union> tk_Name ` set order"
    by (simp_all add: dep_run_append)
  have "set ts = set picked \<union> set left"
    using assms(1) unfolding stuck_def by (metis set_mset_mset set_mset_union)
  with IH(1) snoc.prems(2) have "set order \<subseteq> set picked" by auto
  with IH(2) have "seen_deps t \<subseteq> S \<union> tk_Name ` set picked" by blast
  with assms(1) have "t \<notin> set left" unfolding stuck_def by blast
  with IH show ?case by simp
qed simp

lemma stuck_resolvable:
  assumes "stuck ts {} picked left" "t \<in> set ts"
  shows "resolvable ts t \<longleftrightarrow> t \<notin> set left"
proof
  assume "resolvable ts t"
  then obtain order where "set order \<subseteq> set ts" "dep_ordered (order @ [t])" by (auto simp: resolvable_def)
  with dep_run_avoids_stuck[OF assms(1), of "order @ [t]"] assms(2) show "t \<notin> set left"
    by (auto simp: dep_ordered_run)
next
  assume "t \<notin> set left"
  moreover have st: "set ts = set picked \<union> set left" using assms(1) unfolding stuck_def by (metis set_mset_mset set_mset_union)
  ultimately have "t \<in> set picked" using assms(2) by blast
  then obtain xs ys where "picked = xs @ t # ys" by (auto dest: split_list)
  with assms(1) st show "resolvable ts t"
    by (auto simp: resolvable_def dep_ordered_run stuck_def dep_run_append intro!: exI[of _ xs])
qed

lemma stuck_left:
  assumes "stuck ts {} picked left"
  shows "left = filter (\<lambda>t. \<not> resolvable ts t) ts"
proof -
  have ms: "mset ts = mset picked + mset left" and sub: "subseq left ts" using assms by (simp_all add: stuck_def)
  have left_ts: "set left \<subseteq> set ts" using ms by (metis set_mset_mset set_mset_union Un_upper2)
  have "set picked \<inter> set left = {}"
    using dep_run_avoids_stuck[OF assms, of picked] assms ms
    by (metis Un_upper1 set_mset_mset set_mset_union stuck_def)
  then have "filter (\<lambda>t. t \<in> set left) picked = []" by (auto simp: filter_empty_conv)
  then have "mset (filter (\<lambda>t. t \<in> set left) ts) = mset left"
    using ms by (metis (no_types, lifting) add_0 filter_True filter_union_mset mset.simps(1) mset_filter)
  moreover have "subseq left (filter (\<lambda>t. t \<in> set left) ts)"
    using subseq_filter[OF sub, of "\<lambda>t. t \<in> set left"] by simp
  ultimately have "left = filter (\<lambda>t. t \<in> set left) ts" by (metis mset_eq_length subseq_same_length)
  also have "\<dots> = filter (\<lambda>t. \<not> resolvable ts t) ts"
    using stuck_resolvable[OF assms] by (intro filter_cong) auto
  finally show ?thesis .
qed

lemma ScheduleTasks_Done:
  assumes "ScheduleTasks ts = Done frs"
  obtains order where "mset order = mset ts" "dep_ordered order" "frs = map returned_fragment order"
    "\<forall>t \<in> set ts. resolvable ts t"
proof -
  from assms schedule_loop_result[of ts "[]" "[]"] obtain order where
    o: "stuck ts {} order []" "frs = map returned_fragment order" by (auto simp: ScheduleTasks_def)
  then show ?thesis using that stuck_resolvable[OF o(1)] by (auto simp: stuck_def dep_ordered_run)
qed

lemma ScheduleTasks_Deadlock:
  assumes "ScheduleTasks ts = Fails (Deadlock ns)"
  shows "ns = map tk_Name (filter (\<lambda>t. \<not> resolvable ts t) ts) \<and> (\<exists>t \<in> set ts. \<not> resolvable ts t)"
proof -
  from assms schedule_loop_result[of ts "[]" "[]"] obtain order left where
    o: "stuck ts {} order left" "left \<noteq> []" "ns = map tk_Name left" by (auto simp: ScheduleTasks_def)
  with stuck_left[OF o(1)] show ?thesis by (metis (mono_tags, lifting) filter_False)
qed

lemma ScheduleTasks_cases:
  assumes "\<forall>t \<in> set ts. plans_ok t"
  shows "(\<exists>frs. ScheduleTasks ts = Done frs) \<or> (\<exists>ns. ScheduleTasks ts = Fails (Deadlock ns))"
  using assms schedule_loop_result[of ts "[]" "[]"]
  by (auto simp: ScheduleTasks_def plans_ok_def split: outcome.splits sched_error.splits)

text \<open>C28: Every list of fragments that \<^verbatim>\<open>ScheduleTasks\<close> returns comes from planning each task exactly
  once, in an order in which every dependency of a task is the name of a task planned before it.\<close>

theorem ScheduleTasks_respects_dependencies:
  assumes "ScheduleTasks ts = Done frs"
  shows "\<exists>order. mset order = mset ts \<and> dep_ordered order \<and> frs = map returned_fragment order"
  using ScheduleTasks_Done[OF assms] by metis

definition demo_sched :: "string \<Rightarrow> string list \<Rightarrow> SchedTask" where
  "demo_sched n deps =
     \<lparr>tk_Name = n, tk_IsRequired = Returns True None, tk_Plan = Returns None None, tk_BaseTimeout = None,
      tk_Validate = Some None, tk_GetDependencies = Some deps, tk_GetTimeout = Some 0, tk_GetRetryPolicy = Some None,
      tk_GetOrder = Some 0\<rparr>"

lemma demo_sched_simps [simp]:
  "tk_Name (demo_sched n deps) = n" "tk_Plan (demo_sched n deps) = Returns None None" "plans_ok (demo_sched n deps)"
  "AreDependenciesMet (demo_sched n deps) st \<longleftrightarrow> list_all (\<lambda>d. gm_getd False st d) deps"
  "seen_deps (demo_sched n deps) = set deps"
  by (simp_all add: demo_sched_def plans_ok_def AreDependenciesMet_def is_ExtendedTask_def seen_deps_def)

lemma demo_tasks_scheduled: "ScheduleTasks [demo_sched ''b'' [''a''], demo_sched ''a'' []] = Done [None, None]"
  by (simp add: ScheduleTasks_def schedule_loop.simps gm_getd_def)

theorem ScheduleTasks_respects_dependencies_witness:
  "\<exists>order. mset order = mset [demo_sched ''b'' [''a''], demo_sched ''a'' []] \<and> dep_ordered order \<and>
     [None, None] = map returned_fragment order"
  by (rule ScheduleTasks_respects_dependencies[OF demo_tasks_scheduled])

text \<open>C14: When the plans of the tasks return, \<^verbatim>\<open>ScheduleTasks\<close> returns and is complete: it plans all
  tasks in a valid order if there is one, and otherwise returns the deadlock error, whose list
  names, in their order, exactly the tasks that no valid order can reach.\<close>

theorem ScheduleTasks_complete:
  assumes "\<forall>t \<in> set ts. plans_ok t"
  shows "if \<exists>order. mset order = mset ts \<and> dep_ordered order
         then \<exists>frs. ScheduleTasks ts = Done frs
         else ScheduleTasks ts = Fails (Deadlock (map tk_Name (filter (\<lambda>t. \<not> resolvable ts t) ts)))"
proof -
  consider (ok) frs where "ScheduleTasks ts = Done frs" | (dead) ns where "ScheduleTasks ts = Fails (Deadlock ns)"
    using ScheduleTasks_cases[OF assms] by blast
  then show ?thesis
  proof cases
    case ok
    then show ?thesis by (auto elim: ScheduleTasks_Done)
  next
    case dead
    from schedule_loop_result[of ts "[]" "[]"] dead obtain picked left where
      s: "stuck ts {} picked left" "left \<noteq> []" by (auto simp: ScheduleTasks_def)
    have "\<not> (mset order = mset ts \<and> dep_ordered order)" for order
      using dep_run_avoids_stuck[OF s(1), of order] s
      by (metis Int_absorb1 dep_ordered_run order_refl set_empty set_mset_mset set_mset_union stuck_def sup_ge2)
    with dead ScheduleTasks_Deadlock[OF dead] show ?thesis by simp
  qed
qed

lemma demo_cycle_unordered:
  "\<not> (\<exists>order. mset order = mset [demo_sched ''a'' [''a'']] \<and> dep_ordered order)"
  by (auto simp: dep_ordered_def)

theorem ScheduleTasks_complete_witness:
  "ScheduleTasks [demo_sched ''a'' [''a'']] =
     Fails (Deadlock (map tk_Name (filter (\<lambda>t. \<not> resolvable [demo_sched ''a'' [''a'']] t) [demo_sched ''a'' [''a'']])))"
  using ScheduleTasks_complete[of "[demo_sched ''a'' [''a'']]"] demo_cycle_unordered by simp

section \<open>Validation\<close>

lemma task_names_get: "gm_getd False (task_names ts) d \<longleftrightarrow> d \<in> tk_Name ` set ts"
proof -
  have "gm_getd False (fold (\<lambda>t. gm_put (tk_Name t) True) ts m) d \<longleftrightarrow> d \<in> tk_Name ` set ts \<or> gm_getd False m d" for m
    by (induction ts arbitrary: m) auto
  then show ?thesis by (simp add: task_names_def)
qed

text \<open>Validation passes exactly when every dependency is the name of a task; this is necessary for a schedule.\<close>

lemma ValidateTaskDependencies_iff:
  "ValidateTaskDependencies ts = None \<longleftrightarrow> (\<forall>t \<in> set ts. seen_deps t \<subseteq> tk_Name ` set ts)"
proof -
  have "validate_dependencies (task_names ts) us = None \<longleftrightarrow> (\<forall>t \<in> set us. seen_deps t \<subseteq> tk_Name ` set ts)" for us
  proof (induction us)
    case (Cons t us)
    have "find (\<lambda>d. \<not> gm_getd False (task_names ts) d) ds = None \<longleftrightarrow> set ds \<subseteq> tk_Name ` set ts" for ds
      by (auto simp: find_None_iff task_names_get)
    note f = this
    let ?ds = "case tk_GetDependencies t of Some ds \<Rightarrow> ds | None \<Rightarrow> []"
    show ?case
    proof (cases "is_ExtendedTask t")
      case True
      then have "seen_deps t = set ?ds" by (simp add: seen_deps_def)
      with True Cons f[of ?ds] show ?thesis
        by (cases "find (\<lambda>d. \<not> gm_getd False (task_names ts) d) ?ds") simp_all
    next
      case False
      then have "seen_deps t = {}" by (simp add: seen_deps_def)
      with False Cons show ?thesis by simp
    qed
  qed simp
  then show ?thesis by (simp add: ValidateTaskDependencies_def)
qed

lemma scheduled_tasks_valid:
  assumes "ScheduleTasks ts = Done frs"
  shows "ValidateTaskDependencies ts = None"
proof -
  from ScheduleTasks_Done[OF assms] obtain order where o: "mset order = mset ts" "dep_ordered order" by metis
  have s: "set order = set ts" using o(1) by (metis set_mset_mset)
  have "seen_deps t \<subseteq> tk_Name ` set ts" if t: "t \<in> set ts" for t
  proof -
    from t s obtain i where i: "i < length order" "order ! i = t" by (metis in_set_conv_nth)
    with o(2) have "seen_deps t \<subseteq> tk_Name ` set (take i order)" by (auto simp: dep_ordered_def)
    with s show ?thesis using set_take_subset[of i order] by blast
  qed
  then show ?thesis by (simp add: ValidateTaskDependencies_iff)
qed

text \<open>Validation does not see cycles: a task that depends on itself passes it and deadlocks the scheduler.\<close>

lemma validated_tasks_may_deadlock:
  "ValidateTaskDependencies [demo_sched ''a'' [''a'']] = None \<and>
   ScheduleTasks [demo_sched ''a'' [''a'']] = Fails (Deadlock [''a''])"
  by (simp add: ValidateTaskDependencies_iff ScheduleTasks_def schedule_loop.simps)

section \<open>The retry wrapper\<close>

text \<open>
  The wrapper always satisfies \<^verbatim>\<open>ExtendedTask\<close>: it makes the dependencies of its task visible to
  the scheduler even when the task itself, lacking another of the five methods, hides them.
\<close>

lemma TaskWithRetry_extended: "is_ExtendedTask (TaskWithRetry_task w)"
  by (simp add: is_ExtendedTask_def TaskWithRetry_task_def)

lemma TaskWithRetry_seen_deps:
  "seen_deps (TaskWithRetry_task (NewTaskWithRetry t p)) = set (case tk_GetDependencies t of Some ds \<Rightarrow> ds | None \<Rightarrow> [])"
  by (simp add: seen_deps_def TaskWithRetry_extended)
    (simp add: TaskWithRetry_task_def TaskWithRetry_GetDependencies_def NewTaskWithRetry_def split: option.splits)

lemma seen_deps_hidden: "\<not> is_ExtendedTask t \<Longrightarrow> seen_deps t = {}"
  by (simp add: seen_deps_def)

text \<open>Its plan is the plan of its task: nothing is retried.\<close>

lemma TaskWithRetry_Plan: "tk_Plan (TaskWithRetry_task (NewTaskWithRetry t p)) = tk_Plan t"
  by (simp add: TaskWithRetry_task_def NewTaskWithRetry_def)

end
