(* ===== verification/Hosts.thy ===== *)
theory Hosts
  imports GoStrings
begin

text \<open>
  Hosts and the connector factory: \<^verbatim>\<open>connector/host_impl.go\<close>, \<^verbatim>\<open>connector/local_host.go\<close> with its copy in
  \<^verbatim>\<open>remotefw/interfaces.go\<close>, and \<^verbatim>\<open>connector/factory.go\<close>. The labels and the cache of a host
  specification are not read here and left out. A nil slice and an empty one behave alike in
  every operation below and are both the empty list.
\<close>

section \<open>Host specifications\<close>

record TaintSpec =
  tt_Key :: string
  tt_Value :: string
  tt_Effect :: string

record HostSpec =
  hs_Name :: string
  hs_Address :: string
  hs_InternalAddress :: string
  hs_Port :: goint
  hs_User :: string
  hs_Password :: string
  hs_PrivateKey :: string
  hs_PrivateKeyPath :: string
  hs_Taints :: "TaintSpec list"
  hs_Type :: string
  hs_Arch :: string
  hs_Timeout :: goint
  hs_Roles :: "string list"
  hs_RoleTable :: "(string, bool) gomap"

definition zero_HostSpec :: HostSpec where
  "zero_HostSpec = \<lparr>hs_Name = [], hs_Address = [], hs_InternalAddress = [], hs_Port = 0, hs_User = [],
     hs_Password = [], hs_PrivateKey = [], hs_PrivateKeyPath = [], hs_Taints = [], hs_Type = [], hs_Arch = [],
     hs_Timeout = 0, hs_Roles = [], hs_RoleTable = []\<rparr>"

text \<open>The two implementations of the interface \<^verbatim>\<open>Host\<close>.\<close>

datatype connector_Host = hostImpl HostSpec | localHost HostSpec

fun GetHostSpec :: "connector_Host \<Rightarrow> HostSpec" where
  "GetHostSpec (hostImpl s) = s"
| "GetHostSpec (localHost s) = s"

definition NewHostFromSpec :: "HostSpec \<Rightarrow> connector_Host" where
  "NewHostFromSpec s = hostImpl s"

definition NewLocalHost :: connector_Host where
  "NewLocalHost = localHost (zero_HostSpec\<lparr>hs_Name := ''localhost'', hs_Address := ''127.0.0.1'', hs_Port := 22,
     hs_User := ''root'', hs_Arch := ''amd64''\<rparr>)"

definition GetName :: "connector_Host \<Rightarrow> string" where
  "GetName h = hs_Name (GetHostSpec h)"

definition GetAddress :: "connector_Host \<Rightarrow> string" where
  "GetAddress h = hs_Address (GetHostSpec h)"

definition GetRoles :: "connector_Host \<Rightarrow> string list" where
  "GetRoles h = hs_Roles (GetHostSpec h)"

definition IsRole :: "connector_Host \<Rightarrow> string \<Rightarrow> bool" where
  "IsRole h role = (case gm_get (hs_RoleTable (GetHostSpec h)) role of Some res \<Rightarrow> res | None \<Rightarrow> False)"

definition SetRole :: "string \<Rightarrow> HostSpec \<Rightarrow> HostSpec" where
  "SetRole role s = s\<lparr>hs_RoleTable := gm_put role True (hs_RoleTable s), hs_Roles := hs_Roles s @ [role]\<rparr>"

definition GetArch :: "connector_Host \<Rightarrow> string" where
  "GetArch h =
     (case h of
        hostImpl s \<Rightarrow>
          if hs_Arch s = ''x86_64'' then ''amd64''
          else if hs_Arch s = ''aarch64'' then ''arm64''
          else hs_Arch s
      | localHost s \<Rightarrow> hs_Arch s)"

section \<open>Internal addresses\<close>

text \<open>
  The configured internal address holds an IPv4 and an IPv6 address separated by a comma. One
  implementation splits with the library, the other with loops of its own.
\<close>

fun splitOnce_loop :: "char \<Rightarrow> string \<Rightarrow> string \<Rightarrow> string list" where
  "splitOnce_loop sep before [] = [before]"
| "splitOnce_loop sep before (c # cs) = (if c = sep then [before, cs] else splitOnce_loop sep (before @ [c]) cs)"

definition splitOnce :: "string \<Rightarrow> char \<Rightarrow> string list" where
  "splitOnce s sep = splitOnce_loop sep [] s"

fun splitAddresses_loop :: "string \<Rightarrow> string list \<Rightarrow> string \<Rightarrow> string list" where
  "splitAddresses_loop cur result [] = result @ [cur]"
| "splitAddresses_loop cur result (c # cs) =
     (if c = CHR '','' then splitAddresses_loop [] (result @ [cur]) cs else splitAddresses_loop (cur @ [c]) result cs)"

definition splitAddresses :: "string \<Rightarrow> string list" where
  "splitAddresses s = (if s = [] then [] else splitAddresses_loop [] [] s)"

definition GetInternalIPv4Address :: "connector_Host \<Rightarrow> string" where
  "GetInternalIPv4Address h =
     (case h of
        hostImpl s \<Rightarrow> hd (split_char (CHR '','') (hs_InternalAddress s))
      | localHost s \<Rightarrow>
          if hs_InternalAddress s = [] then [] else hd (splitOnce (hs_InternalAddress s) (CHR '','')))"

definition GetInternalIPv6Address :: "connector_Host \<Rightarrow> string" where
  "GetInternalIPv6Address h =
     (case h of
        hostImpl s \<Rightarrow>
          (let nodeAddresses = split_char (CHR '','') (hs_InternalAddress s)
           in if length nodeAddresses \<ge> 2 then nodeAddresses ! 1 else [])
      | localHost s \<Rightarrow>
          (let addrs = splitAddresses (hs_InternalAddress s)
           in if length addrs \<ge> 2 then addrs ! 1 else []))"

lemma splitOnce_loop_split: "splitOnce_loop sep b s = (case split_char sep s of
    [w] \<Rightarrow> [b @ w] | w # ws \<Rightarrow> [b @ w, strings_Join ws [sep]] | [] \<Rightarrow> [])"
proof (induction s arbitrary: b)
  case (Cons c s)
  then show ?case
    using split_char_ne[of sep s] Join_split_char[of sep s] by (auto split: list.splits)
qed simp

lemma splitAddresses_loop_split:
  "splitAddresses_loop cur res s = res @ (case split_char (CHR '','') s of w # ws \<Rightarrow> (cur @ w) # ws | [] \<Rightarrow> [])"
proof (induction s arbitrary: cur res)
  case (Cons c s)
  then show ?case using split_char_ne[of "CHR '',''" s] by (auto split: list.splits)
qed simp

text \<open>Both implementations read the same addresses out of the same configuration.\<close>

lemma internal_addresses_agree:
  "GetInternalIPv4Address (localHost s) = GetInternalIPv4Address (hostImpl s)"
  "GetInternalIPv6Address (localHost s) = GetInternalIPv6Address (hostImpl s)"
proof -
  let ?sp = "split_char (CHR '','') (hs_InternalAddress s)"
  obtain w ws where sp: "?sp = w # ws" by (meson neq_Nil_conv split_char_ne)
  then show "GetInternalIPv4Address (localHost s) = GetInternalIPv4Address (hostImpl s)"
    by (cases ws) (auto simp: GetInternalIPv4Address_def splitOnce_def splitOnce_loop_split)
  show "GetInternalIPv6Address (localHost s) = GetInternalIPv6Address (hostImpl s)"
    using sp by (auto simp: GetInternalIPv6Address_def splitAddresses_def splitAddresses_loop_split Let_def)
qed

section \<open>Base64\<close>

text \<open>\<^verbatim>\<open>base64.StdEncoding\<close>: line breaks are ignored, padding is required, bits behind the data are not checked.\<close>

definition b64_val :: "char \<Rightarrow> nat option" where
  "b64_val c =
     (let n = of_char c :: nat in
      if 65 \<le> n \<and> n \<le> 90 then Some (n - 65)
      else if 97 \<le> n \<and> n \<le> 122 then Some (n - 71)
      else if 48 \<le> n \<and> n \<le> 57 then Some (n + 4)
      else if c = CHR ''+'' then Some 62
      else if c = CHR ''/'' then Some 63 else None)"

fun b64_decode :: "string \<Rightarrow> string option" where
  "b64_decode [] = Some []"
| "b64_decode (a # b # c # d # cs) =
     (case (b64_val a, b64_val b, b64_val c, b64_val d) of
        (Some x, Some y, Some z, Some w) \<Rightarrow>
          map_option ((@) [char_of (4 * x + y div 16), char_of (16 * (y mod 16) + z div 4), char_of (64 * (z mod 4) + w)]) (b64_decode cs)
      | (Some x, Some y, Some z, None) \<Rightarrow>
          if d = CHR ''='' \<and> cs = [] then Some [char_of (4 * x + y div 16), char_of (16 * (y mod 16) + z div 4)] else None
      | (Some x, Some y, None, None) \<Rightarrow>
          if c = CHR ''='' \<and> d = CHR ''='' \<and> cs = [] then Some [char_of (4 * x + y div 16)] else None
      | _ \<Rightarrow> None)"
| "b64_decode _ = None"

definition DecodeString :: "string \<Rightarrow> string option" where
  "DecodeString s = b64_decode (filter (\<lambda>c. c \<noteq> CHR 0x0A \<and> c \<noteq> CHR 0x0D) s)"

section \<open>Connection configurations\<close>

record BastionCfg =
  bc_Host :: string
  bc_Port :: goint
  bc_User :: string
  bc_Password :: string
  bc_PrivateKey :: string
  bc_PrivateKeyPath :: string
  bc_Timeout :: duration

record ConnectionCfg =
  cc_Host :: string
  cc_Port :: goint
  cc_User :: string
  cc_Password :: string
  cc_PrivateKey :: string
  cc_PrivateKeyPath :: string
  cc_Timeout :: duration
  cc_BastionCfg :: "BastionCfg option"

datatype connector_error =
    LocalhostNotAllowed
  | PrivateKeyNotBase64 string

definition NewConnectorForHost :: "connector_Host \<Rightarrow> connector_error option" where
  "NewConnectorForHost h =
     (if EqualFold (GetAddress h) ''localhost'' \<or> GetAddress h = ''127.0.0.1'' then Some LocalhostNotAllowed else None)"

definition NewConnectionCfg :: "connector_Host \<Rightarrow> duration \<Rightarrow> connector_error + ConnectionCfg" where
  "NewConnectionCfg h globalTimeout =
     (let s = GetHostSpec h;
          t = hs_Timeout s * 1000000000;
          cfg = \<lparr>cc_Host = hs_Address s, cc_Port = hs_Port s, cc_User = hs_User s, cc_Password = hs_Password s,
                 cc_PrivateKey = hs_PrivateKey s, cc_PrivateKeyPath = hs_PrivateKeyPath s,
                 cc_Timeout = (if sint globalTimeout > 0 then globalTimeout else if sint t \<le> 0 then 30 * 1000000000 else t),
                 cc_BastionCfg = None\<rparr>
      in if hs_PrivateKey s \<noteq> [] then
           (case DecodeString (hs_PrivateKey s) of
              None \<Rightarrow> Inl (PrivateKeyNotBase64 (hs_Name s))
            | Some decodedKey \<Rightarrow> Inr (cfg\<lparr>cc_PrivateKey := decodedKey\<rparr>))
         else Inr cfg)"

text \<open>A connection always has a positive timeout.\<close>

lemma NewConnectionCfg_timeout: "NewConnectionCfg h g = Inr cfg \<Longrightarrow> 0 < sint (cc_Timeout cfg)"
  by (auto simp: NewConnectionCfg_def Let_def split: if_splits option.splits)

lemma IsRole_SetRole: "IsRole (hostImpl (SetRole r s)) r' \<longleftrightarrow> r' = r \<or> IsRole (hostImpl s) r'"
  by (auto simp: IsRole_def SetRole_def split: option.splits)

end
