(* ===== verification/Shell.thy ===== *)
theory Shell
  imports GoStrings
begin

text \<open>
  Quoting for the shell (\<^verbatim>\<open>shellEscape\<close> of \<^verbatim>\<open>connector/local.go\<close>, \<^verbatim>\<open>ShellEscape\<close> of \<^verbatim>\<open>util/strings.go\<close>)
  and the string helpers the command builders use.

  What a quoted argument means is given by the shell: \<open>sh_words\<close> is the field splitting of POSIX on
  the fragment that needs no expansion - blanks, single quotes, backslash escapes and plain
  characters. Any other character outside quotes (an operator, an expansion, a comment, a glob)
  makes it answer \<open>None\<close>: nothing is claimed about such a command line.
\<close>

section \<open>Replacing a character\<close>

text \<open>\<^verbatim>\<open>strings.ReplaceAll\<close> for a pattern of one byte.\<close>

definition replace_char :: "char \<Rightarrow> string \<Rightarrow> string \<Rightarrow> string" where
  "replace_char c by s = concat (map (\<lambda>d. if d = c then by else [d]) s)"

lemma replace_char_simps [simp]:
  "replace_char c by [] = []"
  "replace_char c by (d # s) = (if d = c then by else [d]) @ replace_char c by s"
  by (simp_all add: replace_char_def)

lemma replace_char_id: "c \<notin> set s \<Longrightarrow> replace_char c by s = s"
  by (induction s) auto

abbreviation sq :: char where
  "sq \<equiv> CHR 0x27"

abbreviation bslash :: char where
  "bslash \<equiv> CHR 0x5C"

section \<open>Escaping\<close>

definition shellEscape :: "string \<Rightarrow> string" where
  "shellEscape s = [sq] @ replace_char sq [sq, bslash, sq, sq] s @ [sq]"

definition ShellEscape :: "string \<Rightarrow> string" where
  "ShellEscape s = (if s = [] then [sq, sq] else [sq] @ replace_char sq [sq, bslash, sq, sq] s @ [sq])"

lemma ShellEscape_shellEscape: "ShellEscape = shellEscape"
  by (rule ext) (simp add: ShellEscape_def shellEscape_def)

section \<open>Words of a command line\<close>

definition is_blank :: "char \<Rightarrow> bool" where
  "is_blank c \<longleftrightarrow> c = CHR '' '' \<or> c = CHR 0x09"

text \<open>Characters that stand for themselves in a word (an assignment in front of a command is a word here).\<close>

definition char_within :: "string \<Rightarrow> char \<Rightarrow> bool" where
  [simp]: "char_within r c = (hd r \<le> c \<and> c \<le> last r)"

definition plain_char :: "char \<Rightarrow> bool" where
  "plain_char c = (list_ex (\<lambda>r. char_within r c) [''az'', ''AZ'', ''09''] \<or> c \<in> set ''-_./:,+@%='')"

definition put_word :: "string option \<Rightarrow> string list option \<Rightarrow> string list option" where
  "put_word w r = (case w of None \<Rightarrow> r | Some v \<Rightarrow> map_option ((#) v) r)"

definition extend :: "string option \<Rightarrow> string \<Rightarrow> string option" where
  "extend w t = Some ((case w of None \<Rightarrow> [] | Some v \<Rightarrow> v) @ t)"

fun sh_lex :: "bool \<Rightarrow> string option \<Rightarrow> string \<Rightarrow> string list option" where
  "sh_lex True w [] = None"
| "sh_lex True w (c # s) = (if c = sq then sh_lex False w s else sh_lex True (extend w [c]) s)"
| "sh_lex False w [] = put_word w (Some [])"
| "sh_lex False w [c] =
     (if is_blank c then put_word w (Some []) else if plain_char c then put_word (extend w [c]) (Some []) else None)"
| "sh_lex False w (c # d # s) =
     (if c = sq then sh_lex True (extend w []) (d # s)
      else if c = bslash then (if d = CHR 0x0A then sh_lex False w s else sh_lex False (extend w [d]) s)
      else if is_blank c then put_word w (sh_lex False None (d # s))
      else if plain_char c then sh_lex False (extend w [c]) (d # s)
      else None)"

definition sh_words :: "string \<Rightarrow> string list option" where
  "sh_words s = sh_lex False None s"

text \<open>Whether the words of a line end outside quotes, and how lines compose.\<close>

definition plain :: "string \<Rightarrow> bool" where
  "plain s \<longleftrightarrow> list_all plain_char s"

lemma plain_char_not [simp]: "plain_char c \<Longrightarrow> c \<noteq> sq \<and> c \<noteq> bslash \<and> \<not> is_blank c"
  by (auto simp: plain_char_def is_blank_def less_eq_char_def)

lemma extend_simps [simp]: "extend (Some v) t = Some (v @ t)" "extend None t = Some t" "extend (extend w t) u = extend w (t @ u)"
  by (simp_all add: extend_def)

lemma put_word_simps [simp]: "put_word None r = r" "put_word (Some v) r = map_option ((#) v) r"
  by (simp_all add: put_word_def)

text \<open>The two shapes of a step outside quotes that do not depend on what follows.\<close>

lemma sh_lex_plain_char: "plain_char c \<Longrightarrow> sh_lex False w (c # s) = sh_lex False (extend w [c]) s"
  by (cases s) (simp_all add: plain_char_not)

lemma sh_lex_blank: "is_blank c \<Longrightarrow> sh_lex False w (c # s) = put_word w (sh_lex False None s)"
  by (cases s) (auto simp: is_blank_def)

lemma sh_lex_plain: "plain v \<Longrightarrow> sh_lex False w (v @ s) = (if v = [] then sh_lex False w s else sh_lex False (extend w v) s)"
proof (induction v arbitrary: w)
  case (Cons c v)
  then have "plain v" "plain_char c" by (simp_all add: plain_def)
  with Cons.IH show ?case by (cases "v = []") (simp_all add: sh_lex_plain_char)
qed simp

lemma sh_lex_quoted:
  "sh_lex True (Some v) (replace_char sq [sq, bslash, sq, sq] a @ sq # s) = sh_lex False (Some (v @ a)) s"
proof (induction a arbitrary: v)
  case (Cons c a)
  show ?case
  proof (cases "c = sq")
    case True
    have "sh_lex True (Some v) ([sq, bslash, sq, sq] @ replace_char sq [sq, bslash, sq, sq] a @ sq # s) =
        sh_lex True (Some (v @ [sq])) (replace_char sq [sq, bslash, sq, sq] a @ sq # s)"
      by (cases "replace_char sq [sq, bslash, sq, sq] a @ sq # s") simp_all
    with True Cons show ?thesis by simp
  qed (use Cons in simp)
qed simp

lemma sh_lex_escaped: "sh_lex False w (shellEscape a @ s) = sh_lex False (extend w a) s"
proof -
  obtain d t where dt: "replace_char sq [sq, bslash, sq, sq] a @ sq # s = d # t"
    by (cases "replace_char sq [sq, bslash, sq, sq] a @ sq # s") auto
  have "sh_lex False w (shellEscape a @ s) = sh_lex True (extend w []) (d # t)"
    by (simp add: shellEscape_def dt)
  also have "\<dots> = sh_lex False (extend w a) s"
    unfolding dt[symmetric] by (cases w) (simp_all add: sh_lex_quoted)
  finally show ?thesis .
qed

section \<open>Commands of plain words and quoted arguments\<close>

text \<open>
  A command line built from constant plain words and quoted arguments, separated by one blank, has
  exactly these words.
\<close>

datatype piece = Word string | Arg string

fun render_piece :: "piece \<Rightarrow> string" where
  "render_piece (Word w) = w"
| "render_piece (Arg a) = shellEscape a"

fun piece_text :: "piece \<Rightarrow> string" where
  "piece_text (Word w) = w"
| "piece_text (Arg a) = a"

fun piece_ok :: "piece \<Rightarrow> bool" where
  "piece_ok (Word w) \<longleftrightarrow> w \<noteq> [] \<and> plain w"
| "piece_ok (Arg a) \<longleftrightarrow> True"

definition command_line :: "piece list \<Rightarrow> string" where
  "command_line ps = strings_Join (map render_piece ps) '' ''"

lemma sh_lex_piece: "piece_ok p \<Longrightarrow> sh_lex False None (render_piece p @ s) = sh_lex False (Some (piece_text p)) s"
  by (cases p) (simp_all add: sh_lex_plain sh_lex_escaped)

lemma sh_words_command_line:
  "list_all piece_ok ps \<Longrightarrow> sh_words (command_line ps) = Some (map piece_text ps)"
  unfolding sh_words_def command_line_def
proof (induction ps rule: induct_list012)
  case (2 p)
  then show ?case using sh_lex_piece[of p "[]"] by simp
next
  case (3 p q ps)
  then have "sh_lex False None (strings_Join (map render_piece (q # ps)) '' '') = Some (map piece_text (q # ps))" by simp
  moreover have "sh_lex False None (strings_Join (map render_piece (p # q # ps)) '' '') =
      sh_lex False (Some (piece_text p)) (CHR '' '' # strings_Join (map render_piece (q # ps)) '' '')"
    using 3 sh_lex_piece[of p] by simp
  ultimately show ?case by (simp add: sh_lex_blank is_blank_def)
qed simp

lemma command_line_append:
  "ps \<noteq> [] \<Longrightarrow> qs \<noteq> [] \<Longrightarrow> command_line (ps @ qs) = command_line ps @ '' '' @ command_line qs"
proof (induction ps rule: induct_list012)
  case (2 p)
  then show ?case by (cases qs) (simp_all add: command_line_def)
qed (simp_all add: command_line_def)

text \<open>C18: Quoting is right: whatever the arguments contain, the shell splits the quoted arguments
  joined by blanks into exactly these arguments.\<close>

theorem sh_words_escaped_args:
  "sh_words (strings_Join (map ShellEscape args) '' '') = Some args"
proof -
  have "command_line (map Arg args) = strings_Join (map ShellEscape args) '' ''"
    by (simp add: command_line_def ShellEscape_shellEscape comp_def)
  moreover have "sh_words (command_line (map Arg args)) = Some (map piece_text (map Arg args))"
    by (rule sh_words_command_line) (simp add: list_all_iff)
  ultimately show ?thesis by (simp add: comp_def)
qed

end
