(* ===== verification/GoPaths.thy ===== *)
theory GoPaths
  imports Prelude
begin

text \<open>
  \<^verbatim>\<open>path/filepath\<close> on Unix as kubexm uses it: \<^verbatim>\<open>Clean\<close> and \<^verbatim>\<open>Join\<close>, the lexical
  normalisation by which work, download and checkpoint directories are built.
\<close>

definition slash :: char where
  "slash = CHR ''/''"

fun split_slash :: "string \<Rightarrow> string list" where
  "split_slash [] = [[]]"
| "split_slash (c # cs) =
     (if c = slash then [] # split_slash cs
      else case split_slash cs of [] \<Rightarrow> [[c]] | w # ws \<Rightarrow> (c # w) # ws)"

fun join_slash :: "string list \<Rightarrow> string" where
  "join_slash [] = []"
| "join_slash [w] = w"
| "join_slash (w # ws) = w @ slash # join_slash ws"

text \<open>Path elements are pushed on a stack; \<^verbatim>\<open>..\<close> pops a proper element.\<close>

fun clean_elems :: "bool \<Rightarrow> string list \<Rightarrow> string list \<Rightarrow> string list" where
  "clean_elems rooted [] stack = rev stack"
| "clean_elems rooted (w # ws) stack =
     (if w = [] \<or> w = ''.'' then clean_elems rooted ws stack
      else if w = ''..'' then
        (case stack of
           [] \<Rightarrow> clean_elems rooted ws (if rooted then [] else [w])
         | v # vs \<Rightarrow> if v = ''..'' then clean_elems rooted ws (w # stack) else clean_elems rooted ws vs)
      else clean_elems rooted ws (w # stack))"

definition filepath_Clean :: "string \<Rightarrow> string" where
  "filepath_Clean p =
     (let rooted = (case p of c # _ \<Rightarrow> c = slash | [] \<Rightarrow> False);
          es = clean_elems rooted (split_slash p) []
      in if rooted then slash # join_slash es
         else if es = [] then ''.'' else join_slash es)"

definition filepath_Join :: "string list \<Rightarrow> string" where
  "filepath_Join elems =
     (case dropWhile (\<lambda>e. e = []) elems of [] \<Rightarrow> [] | es \<Rightarrow> filepath_Clean (join_slash es))"

text \<open>An element that normalisation keeps as it is.\<close>

definition plain_elem :: "string \<Rightarrow> bool" where
  "plain_elem w \<longleftrightarrow> w \<noteq> [] \<and> slash \<notin> set w \<and> w \<noteq> ''.'' \<and> w \<noteq> ''..''"

section \<open>Lemmas\<close>

lemma split_slash_ne [simp]: "split_slash p \<noteq> []"
  by (induction p) (auto split: list.splits)

lemma split_slash_plain: "slash \<notin> set w \<Longrightarrow> split_slash w = [w]"
  by (induction w) auto

lemma split_slash_append: "split_slash (p @ slash # q) = split_slash p @ split_slash q"
  by (induction p) (auto split: list.splits)

lemma split_slash_elems: "w \<in> set (split_slash p) \<Longrightarrow> slash \<notin> set w"
proof (induction p arbitrary: w)
  case (Cons c p)
  then show ?case by (cases "split_slash p") (auto split: if_splits)
qed simp

lemma clean_elems_snoc_plain:
  "plain_elem w \<Longrightarrow> clean_elems r (ws @ [w]) st = clean_elems r ws st @ [w]"
  by (induction r ws st rule: clean_elems.induct) (auto simp: plain_elem_def split: list.splits)

lemma join_slash_snoc: "join_slash (ws @ [w]) = (if ws = [] then w else join_slash ws @ slash # w)"
  by (induction ws rule: join_slash.induct) auto

lemma Clean_nonempty: "p \<noteq> [] \<Longrightarrow> filepath_Clean p =
    (let es = clean_elems (hd p = slash) (split_slash p) []
     in if hd p = slash then slash # join_slash es else if es = [] then ''.'' else join_slash es)"
  by (cases p) (auto simp only: filepath_Clean_def list.case list.sel Let_def)

text \<open>Joining a directory with a plain file name appends the name to the cleaned directory.\<close>

lemma Join_dir_file:
  assumes "dir \<noteq> []" "plain_elem w"
  shows "filepath_Join [dir, w] =
    (let d = clean_elems (hd dir = slash) (split_slash dir) []
     in (if hd dir = slash then [slash] else []) @ (if d = [] then w else join_slash d @ slash # w))"
proof -
  have "split_slash (dir @ slash # w) = split_slash dir @ [w]"
    using assms(2) by (simp add: split_slash_append split_slash_plain plain_elem_def)
  moreover have "filepath_Join [dir, w] = filepath_Clean (dir @ slash # w)"
    using assms(1) by (simp add: filepath_Join_def)
  moreover have "hd (dir @ slash # w) = hd dir" using assms(1) by simp
  ultimately show ?thesis
    using assms(1) clean_elems_snoc_plain[OF assms(2)]
    by (simp add: Clean_nonempty Let_def join_slash_snoc del: hd_append2)
qed

lemma Join_dir_file_inject:
  assumes "plain_elem v" "plain_elem w" "filepath_Join [dir, v] = filepath_Join [dir, w]"
  shows "v = w"
proof (cases "dir = []")
  case True
  have "filepath_Join [[], u] = u" if "plain_elem u" for u
  proof -
    from that obtain c cs where u: "u = c # cs" "c \<noteq> slash" by (cases u) (auto simp: plain_elem_def)
    with that show ?thesis
      by (simp add: filepath_Join_def filepath_Clean_def Let_def split_slash_plain plain_elem_def del: split_slash.simps)
  qed
  with True assms show ?thesis by simp
next
  case False
  with assms show ?thesis by (auto simp: Join_dir_file Let_def split: if_splits)
qed

end
