(* ===== verification/Connector.thy ===== *)
theory Connector
  imports Hosts Shell GoPaths
begin

text \<open>
  What the connectors share (\<^verbatim>\<open>connector/errors.go\<close>, \<^verbatim>\<open>connector/options.go\<close>): error values with their
  chains, the options of a command and of a file transfer, contexts, and the contract of a bounded
  retry loop, which both connectors and the runner implement, as a locale.
\<close>

section \<open>Errors\<close>

text \<open>
  An error value and its chain: \<open>Errorf\<close> is an error without a wrapped one, \<open>Wrapf\<close> one made with
  \<^verbatim>\<open>%w\<close> (its own text is kept apart), \<open>ExitError\<close> the exit status a session or process reports.
\<close>

datatype error_value =
    Errorf string
  | Wrapf string error_value
  | CommandError string int string string "error_value option"
  | ConnectionError string error_value
  | ExitError int

text \<open>\<^verbatim>\<open>errors.As\<close> for \<^verbatim>\<open>*CommandError\<close>: the first one along \<^verbatim>\<open>Unwrap\<close>, here its exit code.\<close>

fun as_CommandError :: "error_value \<Rightarrow> int option" where
  "as_CommandError (CommandError cmd code out err u) = Some code"
| "as_CommandError (Wrapf m e) = as_CommandError e"
| "as_CommandError (ConnectionError h e) = as_CommandError e"
| "as_CommandError (Errorf m) = None"
| "as_CommandError (ExitError n) = None"

text \<open>A plain type assertion \<^verbatim>\<open>err.(*CommandError)\<close> does not follow the chain.\<close>

fun is_CommandError :: "error_value \<Rightarrow> bool" where
  "is_CommandError (CommandError cmd code out err u) \<longleftrightarrow> True"
| "is_CommandError _ \<longleftrightarrow> False"

lemma is_as_CommandError: "is_CommandError e \<Longrightarrow> as_CommandError e \<noteq> None"
  by (cases e) auto

section \<open>Contexts and options\<close>

datatype go_ctx = CallerCtx | BackgroundCtx | TimeoutCtx go_ctx duration

text \<open>
  The stream of a command: nil, the read-only wrapper by which content is fed to standard input, or
  any other writer.
\<close>

datatype stream = NoStream | ReadOnlyStream string | OtherWriter nat

record RunOptions =
  ro_Sudo :: bool
  ro_Timeout :: duration
  ro_Env :: "string list"
  ro_Retries :: int
  ro_RetryDelay :: duration
  ro_Fatal :: bool
  ro_Hidden :: bool
  ro_Stream :: stream
  ro_Stdin :: string
  ro_Dir :: string

definition zero_RunOptions :: RunOptions where
  "zero_RunOptions = \<lparr>ro_Sudo = False, ro_Timeout = 0, ro_Env = [], ro_Retries = 0, ro_RetryDelay = 0, ro_Fatal = False,
     ro_Hidden = False, ro_Stream = NoStream, ro_Stdin = [], ro_Dir = []\<rparr>"

definition sudo_options :: "bool \<Rightarrow> RunOptions" where
  "sudo_options sudo = zero_RunOptions\<lparr>ro_Sudo := sudo\<rparr>"

lemma zero_RunOptions_simps [simp]:
  "ro_Sudo zero_RunOptions = False" "ro_Timeout zero_RunOptions = 0" "ro_Env zero_RunOptions = []"
  "ro_Retries zero_RunOptions = 0" "ro_RetryDelay zero_RunOptions = 0" "ro_Stream zero_RunOptions = NoStream" "ro_Dir zero_RunOptions = []"
  by (simp_all add: zero_RunOptions_def)

lemma sudo_options_simps [simp]:
  "ro_Sudo (sudo_options b) = b" "ro_Timeout (sudo_options b) = 0" "ro_Env (sudo_options b) = []" "ro_Retries (sudo_options b) = 0"
  "ro_RetryDelay (sudo_options b) = 0" "ro_Stream (sudo_options b) = NoStream" "ro_Dir (sudo_options b) = []"
  by (simp_all add: sudo_options_def)

record CopyOptions =
  co_Permissions :: string
  co_Owner :: string
  co_Group :: string
  co_Timeout :: duration
  co_Sudo :: bool

definition zero_CopyOptions :: CopyOptions where
  "zero_CopyOptions = \<lparr>co_Permissions = [], co_Owner = [], co_Group = [], co_Timeout = 0, co_Sudo = False\<rparr>"

record FileStat =
  fs_Name :: string
  fs_Size :: int
  fs_Mode :: nat
  fs_ModTime :: gotime
  fs_IsDir :: bool
  fs_IsExist :: bool

record OS =
  os_ID :: string
  os_VersionID :: string
  os_PrettyName :: string
  os_Codename :: string
  os_Arch :: string
  os_Kernel :: string

definition zero_OS :: OS where
  "zero_OS = \<lparr>os_ID = [], os_VersionID = [], os_PrettyName = [], os_Codename = [], os_Arch = [], os_Kernel = []\<rparr>"

definition missing_stat :: "string \<Rightarrow> FileStat" where
  "missing_stat name = \<lparr>fs_Name = name, fs_Size = 0, fs_Mode = 0, fs_ModTime = 0, fs_IsDir = False, fs_IsExist = False\<rparr>"

text \<open>Options behind a pointer: nil is the zero value.\<close>

definition or_zero :: "'a \<Rightarrow> 'a option \<Rightarrow> 'a" where
  "or_zero z o' = (case o' of None \<Rightarrow> z | Some v \<Rightarrow> v)"

lemma or_zero_simps [simp]: "or_zero z None = z" "or_zero z (Some v) = v"
  by (simp_all add: or_zero_def)

section \<open>Standard library\<close>

text \<open>\<^verbatim>\<open>strings.Fields\<close>, \<^verbatim>\<open>strings.SplitN(s, sep, 2)\<close>, \<^verbatim>\<open>strings.ContainsAny\<close>, and \<^verbatim>\<open>strconv.ParseUint(s, 8, 32)\<close>.\<close>

fun fields_from :: "string \<Rightarrow> string \<Rightarrow> string list" where
  "fields_from w [] = (if w = [] then [] else [w])"
| "fields_from w (c # s) =
     (if is_space c then (if w = [] then [] else [w]) @ fields_from [] s else fields_from (w @ [c]) s)"

definition Fields :: "string \<Rightarrow> string list" where
  "Fields s = fields_from [] s"

definition split_at :: "char \<Rightarrow> string \<Rightarrow> (string \<times> string) option" where
  "split_at sep s =
     (if sep \<in> set s then Some (takeWhile (\<lambda>c. c \<noteq> sep) s, tl (dropWhile (\<lambda>c. c \<noteq> sep) s)) else None)"

definition ContainsAny :: "string \<Rightarrow> string \<Rightarrow> bool" where
  "ContainsAny s chars = list_ex (\<lambda>c. c \<in> set chars) s"

definition read_octal :: "string \<Rightarrow> nat" where
  "read_octal s = foldl (\<lambda>n c. 8 * n + digit_val c) 0 s"

definition ParseUint8_32 :: "string \<Rightarrow> nat option" where
  "ParseUint8_32 s =
     (if s \<noteq> [] \<and> list_all (\<lambda>c. CHR ''0'' \<le> c \<and> c \<le> CHR ''7'') s \<and> read_octal s < 2 ^ 32
      then Some (read_octal s) else None)"

text \<open>\<^verbatim>\<open>filepath.Dir\<close> and \<^verbatim>\<open>filepath.Base\<close>.\<close>

definition filepath_Dir :: "string \<Rightarrow> string" where
  "filepath_Dir p = filepath_Clean (rev (dropWhile (\<lambda>c. c \<noteq> slash) (rev p)))"

definition filepath_Base :: "string \<Rightarrow> string" where
  "filepath_Base p =
     (if p = [] then ''.''
      else let t = rev (dropWhile (\<lambda>c. c = slash) (rev p));
               b = rev (takeWhile (\<lambda>c. c \<noteq> slash) (rev t))
           in if b = [] then [slash] else b)"

text \<open>The guard in front of the creation of a parent directory.\<close>

definition proper_dir :: "string \<Rightarrow> bool" where
  "proper_dir d \<longleftrightarrow> d \<noteq> ''.'' \<and> d \<noteq> [slash] \<and> d \<noteq> []"

text \<open>\<^verbatim>\<open>parseKeyValues\<close> of \<^verbatim>\<open>connector/local.go\<close>, for a delimiter and a quote of one character; the last line of a key wins.\<close>

definition trim_char :: "char option \<Rightarrow> string \<Rightarrow> string" where
  "trim_char q s = (case q of None \<Rightarrow> s | Some c \<Rightarrow> rev (dropWhile (\<lambda>d. d = c) (rev (dropWhile (\<lambda>d. d = c) s))))"

definition parseKeyValues :: "string \<Rightarrow> char \<Rightarrow> char option \<Rightarrow> (string, string) gomap" where
  "parseKeyValues content delimiter quoteChar =
     fold (\<lambda>line vars. case split_at delimiter line of
             Some (k, v) \<Rightarrow> gm_put (TrimSpace k) (trim_char quoteChar (TrimSpace v)) vars
           | None \<Rightarrow> vars)
       (split_char (CHR 0x0A) content) []"

definition osReleasePaths :: "string list" where
  "osReleasePaths = [''/etc/os-release'', ''/usr/lib/os-release'']"

section \<open>Sequences of fallible steps\<close>

text \<open>Steps run in order; the first error ends the sequence.\<close>

type_synonym 's step_fun = "'s \<Rightarrow> error_value option \<times> 's"

fun steps_in_turn :: "'s step_fun list \<Rightarrow> 's step_fun" where
  "steps_in_turn [] s = (None, s)"
| "steps_in_turn (f # fs) s = (case f s of (None, s1) \<Rightarrow> steps_in_turn fs s1 | (Some e, s1) \<Rightarrow> (Some e, s1))"

definition no_step :: "'s step_fun" where
  "no_step s = (None, s)"

definition fail_step :: "error_value \<Rightarrow> 's step_fun" where
  "fail_step e s = (Some e, s)"

lemma no_step_apply [simp]: "no_step s = (None, s)" and fail_step_apply [simp]: "fail_step e s = (Some e, s)"
  by (simp_all add: no_step_def fail_step_def)

text \<open>
  Accounting for the effects of a sequence: when every step adds a fixed list to a log, the sequence adds the
  lists of a prefix of the steps, and of all of them when it succeeds.
\<close>

definition step_logs :: "('s \<Rightarrow> 'l list) \<Rightarrow> ('s \<Rightarrow> bool) \<Rightarrow> 's step_fun \<Rightarrow> 'l list \<Rightarrow> bool" where
  "step_logs lg I f ls \<longleftrightarrow> (\<forall>s. I s \<longrightarrow> I (snd (f s)) \<and> lg (snd (f s)) = lg s @ ls)"

lemma step_logs_no_step [simp, intro]: "step_logs lg I no_step []"
  by (simp add: step_logs_def)

lemma step_logs_fail_step [simp, intro]: "step_logs lg I (fail_step e) []"
  by (simp add: step_logs_def)

lemma steps_in_turn_logs:
  assumes "list_all2 (step_logs lg I) fs lss" "I s" "steps_in_turn fs s = (e, s')"
  shows "I s' \<and> (\<exists>k \<le> length lss. lg s' = lg s @ concat (take k lss) \<and> (e = None \<longrightarrow> k = length lss))"
  using assms
proof (induction fs arbitrary: lss s)
  case (Cons f fs)
  then obtain ls lss' where l: "lss = ls # lss'" "step_logs lg I f ls" "list_all2 (step_logs lg I) fs lss'"
    by (auto simp: list_all2_Cons1)
  obtain e1 s1 where f: "f s = (e1, s1)" by fastforce
  with l(2) Cons.prems(2) have s1: "I s1" "lg s1 = lg s @ ls" by (auto simp: step_logs_def)
  show ?case
  proof (cases e1)
    case None
    with Cons.IH[OF l(3) s1(1)] Cons.prems(3) f obtain k where
      "I s'" "k \<le> length lss'" "lg s' = lg s1 @ concat (take k lss')" "e = None \<longrightarrow> k = length lss'" by auto
    with s1 l(1) show ?thesis by (auto intro!: exI[of _ "Suc k"])
  next
    case (Some x)
    with f Cons.prems(3) s1 l(1) show ?thesis by (auto intro!: exI[of _ 1])
  qed
qed simp

section \<open>Bounded retries\<close>

text \<open>
  The state before the next attempt after \<open>k\<close> failed ones: an attempt may fail, and then the loop
  asks whether to go on (the context may be done, a delay may be cut short).
\<close>

fun after_failures :: "('s \<Rightarrow> 'r \<times> 's) \<Rightarrow> ('r \<Rightarrow> bool) \<Rightarrow> ('s \<Rightarrow> bool \<times> 's) \<Rightarrow> nat \<Rightarrow> 's \<Rightarrow> 's option" where
  "after_failures attempt ok again 0 s = Some s"
| "after_failures attempt ok again (Suc k) s =
     (case attempt s of (r, s1) \<Rightarrow>
        if ok r then None
        else case again s1 of (go, s2) \<Rightarrow> if go then after_failures attempt ok again k s2 else None)"

locale retry_loop =
  fixes attempt :: "'s \<Rightarrow> 'r \<times> 's"
    and ok :: "'r \<Rightarrow> bool"
    and again :: "'s \<Rightarrow> bool \<times> 's"
    and loop :: "nat \<Rightarrow> 's \<Rightarrow> 'r \<times> 's"
  assumes loop_ok: "attempt s = (r, s1) \<Longrightarrow> ok r \<Longrightarrow> loop n s = (r, s1)"
    and loop_next: "attempt s = (r, s1) \<Longrightarrow> \<not> ok r \<Longrightarrow> again s1 = (True, s2) \<Longrightarrow> loop (Suc n) s = loop n s2"
    and loop_stop: "attempt s = (r, s1) \<Longrightarrow> \<not> ok r \<Longrightarrow> again s1 = (False, s2) \<Longrightarrow> \<not> ok (fst (loop n s))"
    and loop_last: "attempt s = (r, s1) \<Longrightarrow> \<not> ok r \<Longrightarrow> \<not> ok (fst (loop 0 s))"
begin

text \<open>The loop returns the first success among at most \<open>n + 1\<close> attempts, and fails if there is none.\<close>

lemma first_success:
  assumes "after_failures attempt ok again k s = Some sk" "ok (fst (attempt sk))" "k \<le> n"
  shows "loop n s = attempt sk"
  using assms
proof (induction k arbitrary: s n)
  case 0
  then show ?case using loop_ok[of s "fst (attempt s)" "snd (attempt s)"] by simp
next
  case (Suc k)
  obtain r s1 where a: "attempt s = (r, s1)" by fastforce
  with Suc.prems obtain s2 where "\<not> ok r" "again s1 = (True, s2)" "after_failures attempt ok again k s2 = Some sk"
    by (auto split: if_splits prod.splits)
  moreover obtain m where "n = Suc m" "k \<le> m" using Suc.prems(3) by (cases n) auto
  ultimately show ?case using Suc.IH Suc.prems(2) loop_next[OF a] by simp
qed

lemma success_within:
  assumes "ok (fst (loop n s))"
  shows "\<exists>k sk. k \<le> n \<and> after_failures attempt ok again k s = Some sk \<and> ok (fst (attempt sk))"
  using assms
proof (induction n arbitrary: s)
  case 0
  obtain r s1 where a: "attempt s = (r, s1)" by fastforce
  with 0 loop_last[OF a] have "ok r" by blast
  with a show ?case by (intro exI[of _ 0] exI[of _ s]) simp
next
  case (Suc n)
  obtain r s1 where a: "attempt s = (r, s1)" by fastforce
  obtain go s2 where g: "again s1 = (go, s2)" by fastforce
  show ?case
  proof (cases "ok r")
    case True
    with a show ?thesis by (intro exI[of _ 0] exI[of _ s]) simp
  next
    case False
    with Suc.prems loop_stop[OF a False] g have go by (cases go) auto
    with Suc.prems loop_next[OF a False] g have "ok (fst (loop n s2))" by simp
    then obtain k sk where "k \<le> n" "after_failures attempt ok again k s2 = Some sk" "ok (fst (attempt sk))"
      using Suc.IH by blast
    with a g \<open>go\<close> False show ?thesis by (intro exI[of _ "Suc k"] exI[of _ sk]) simp
  qed
qed

lemma succeeds_iff:
  "ok (fst (loop n s)) \<longleftrightarrow> (\<exists>k \<le> n. \<exists>sk. after_failures attempt ok again k s = Some sk \<and> ok (fst (attempt sk)))"
  using first_success success_within by metis

end

end
