(* ===== verification/Pool.thy ===== *)
theory Pool
  imports Hosts
begin

text \<open>
  The pool of SSH connections (\<^verbatim>\<open>connector/pool.go\<close>): the pool key of a configuration, \<^verbatim>\<open>Get\<close> with
  reuse, limits and dialling, \<^verbatim>\<open>Put\<close>, \<^verbatim>\<open>CloseConnection\<close>, a round of the scrubber and \<^verbatim>\<open>Shutdown\<close>.

  The pools of the hosts are shared by pointer and live in a heap (\<open>cp_hcps\<close>); \<open>cp_pools\<close> maps a
  key to an index. A client of \<^verbatim>\<open>golang.org/x/crypto/ssh\<close> is a number, \<open>cp_closed\<close> lists those that
  have been closed. Every section under the lock of a host pool is one operation. What the
  network does is an argument: the health of a client, and the answer of the dialler.
\<close>

section \<open>Connections and configuration\<close>

record ManagedConnection =
  mc_client :: "nat option"
  mc_bastionClient :: "nat option"
  mc_poolKey :: string
  mc_lastUsed :: gotime
  mc_createdAt :: gotime

record PoolConfig =
  pc_MaxPerKey :: int
  pc_MaxIdlePerKey :: int
  pc_MaxConnectionAge :: duration
  pc_IdleTimeout :: duration
  pc_HealthCheckInterval :: duration
  pc_ConnectTimeout :: duration

abbreviation go_second :: duration where
  "go_second \<equiv> 1000000000"

definition DefaultPoolConfig :: PoolConfig where
  "DefaultPoolConfig = \<lparr>pc_MaxPerKey = 10, pc_MaxIdlePerKey = 5, pc_MaxConnectionAge = 3600 * go_second,
     pc_IdleTimeout = 600 * go_second, pc_HealthCheckInterval = 60 * go_second, pc_ConnectTimeout = 15 * go_second\<rparr>"

record hostConnectionPool =
  hp_idle :: "ManagedConnection list"
  hp_numActive :: int

record ConnectionPool =
  cp_pools :: "(string, nat) gomap"
  cp_hcps :: "hostConnectionPool list"
  cp_config :: PoolConfig
  cp_closed :: "nat list"
  cp_scrubbing :: bool

definition with_defaults :: "PoolConfig \<Rightarrow> PoolConfig" where
  "with_defaults c =
     (let d = DefaultPoolConfig in
      \<lparr>pc_MaxPerKey = (if pc_MaxPerKey c = 0 then pc_MaxPerKey d else pc_MaxPerKey c),
       pc_MaxIdlePerKey = (if pc_MaxIdlePerKey c = 0 then pc_MaxIdlePerKey d else pc_MaxIdlePerKey c),
       pc_MaxConnectionAge = pc_MaxConnectionAge c,
       pc_IdleTimeout = (if pc_IdleTimeout c = 0 then pc_IdleTimeout d else pc_IdleTimeout c),
       pc_HealthCheckInterval = (if pc_HealthCheckInterval c = 0 then pc_HealthCheckInterval d else pc_HealthCheckInterval c),
       pc_ConnectTimeout = (if pc_ConnectTimeout c = 0 then pc_ConnectTimeout d else pc_ConnectTimeout c)\<rparr>)"

definition NewConnectionPool :: "PoolConfig \<Rightarrow> ConnectionPool" where
  "NewConnectionPool c =
     (let config = with_defaults c in
      \<lparr>cp_pools = [], cp_hcps = [], cp_config = config, cp_closed = [],
       cp_scrubbing = (sint (pc_HealthCheckInterval config) > 0)\<rparr>)"

text \<open>The key: the sorted descriptions of the target and its credentials; \<open>sha\<close> is the hexadecimal SHA-256.\<close>

definition target_part :: "string \<Rightarrow> string \<Rightarrow> goint \<Rightarrow> string" where
  "target_part user host port = user @ ''@'' @ host @ '':'' @ show_int (sint port)"

definition generatePoolKey :: "(string \<Rightarrow> string) \<Rightarrow> ConnectionCfg \<Rightarrow> string" where
  "generatePoolKey sha cfg =
     (let key = (if length (cc_PrivateKey cfg) > 0 then [''pksha256:'' @ sha (cc_PrivateKey cfg)]
                 else if cc_PrivateKeyPath cfg \<noteq> [] then [''pkpath:'' @ cc_PrivateKeyPath cfg] else []);
          pwd = (if cc_Password cfg \<noteq> [] then [''pwd:true''] else []);
          bastion = (case cc_BastionCfg cfg of
              None \<Rightarrow> []
            | Some b \<Rightarrow>
                [''bastion:'' @ strings_Join (sort ([target_part (bc_User b) (bc_Host b) (bc_Port b)]
                    @ (if bc_PrivateKeyPath b \<noteq> [] then [''pkpath:'' @ bc_PrivateKeyPath b] else [])
                    @ (if bc_Password b \<noteq> [] then [''pwd:true''] else []))) ''|''])
      in strings_Join (sort ([target_part (cc_User cfg) (cc_Host cfg) (cc_Port cfg)] @ key @ pwd @ bastion)) ''|'')"

section \<open>Operations\<close>

definition getOrCreateHostPool :: "string \<Rightarrow> ConnectionPool \<Rightarrow> nat \<times> ConnectionPool" where
  "getOrCreateHostPool poolKey cp =
     (case gm_get (cp_pools cp) poolKey of
        Some h \<Rightarrow> (h, cp)
      | None \<Rightarrow>
          (length (cp_hcps cp),
           cp\<lparr>cp_hcps := cp_hcps cp @ [\<lparr>hp_idle = [], hp_numActive = 0\<rparr>],
              cp_pools := gm_put poolKey (length (cp_hcps cp)) (cp_pools cp)\<rparr>))"

definition mc_clients :: "ManagedConnection \<Rightarrow> nat list" where
  "mc_clients mc = (case mc_client mc of None \<Rightarrow> [] | Some c \<Rightarrow> [c]) @
     (case mc_bastionClient mc of None \<Rightarrow> [] | Some c \<Rightarrow> [c])"

definition mc_IsHealthy :: "(nat \<Rightarrow> bool) \<Rightarrow> ManagedConnection \<Rightarrow> bool" where
  "mc_IsHealthy healthy mc = (case mc_client mc of None \<Rightarrow> False | Some c \<Rightarrow> healthy c)"

definition stale :: "PoolConfig \<Rightarrow> gotime \<Rightarrow> ManagedConnection \<Rightarrow> bool" where
  "stale config now mc \<longleftrightarrow>
     sint (pc_IdleTimeout config) > 0 \<and> mc_lastUsed mc + sint (pc_IdleTimeout config) < now \<or>
     sint (pc_MaxConnectionAge config) > 0 \<and> mc_createdAt mc + sint (pc_MaxConnectionAge config) < now"

text \<open>The loop of \<^verbatim>\<open>Get\<close>: stale and unhealthy connections are closed until a usable one comes up.\<close>

fun pick_idle :: "PoolConfig \<Rightarrow> gotime \<Rightarrow> (nat \<Rightarrow> bool) \<Rightarrow> ManagedConnection list \<Rightarrow> int \<Rightarrow> nat list \<Rightarrow>
    ManagedConnection option \<times> ManagedConnection list \<times> int \<times> nat list" where
  "pick_idle config now healthy [] num closed = (None, [], num, closed)"
| "pick_idle config now healthy (mc # idle) num closed =
     (if stale config now mc then pick_idle config now healthy idle (num - 1) (closed @ mc_clients mc)
      else if mc_IsHealthy healthy mc then (Some (mc\<lparr>mc_lastUsed := now\<rparr>), idle, num, closed)
      else pick_idle config now healthy idle (num - 1) (closed @ mc_clients mc))"

definition set_hcp :: "nat \<Rightarrow> hostConnectionPool \<Rightarrow> ConnectionPool \<Rightarrow> ConnectionPool" where
  "set_hcp h p cp = cp\<lparr>cp_hcps := (cp_hcps cp)[h := p]\<rparr>"

datatype get_result = Reused nat ManagedConnection | PoolExhausted string | MustDial nat string

text \<open>\<^verbatim>\<open>Get\<close> up to the release of the lock, and after the dialler has answered.\<close>

definition Get_begin :: "gotime \<Rightarrow> (nat \<Rightarrow> bool) \<Rightarrow> string \<Rightarrow> ConnectionPool \<Rightarrow> get_result \<times> ConnectionPool" where
  "Get_begin now healthy poolKey cp =
     (case getOrCreateHostPool poolKey cp of
        (h, cp1) \<Rightarrow>
          (case pick_idle (cp_config cp1) now healthy (hp_idle (cp_hcps cp1 ! h)) (hp_numActive (cp_hcps cp1 ! h)) (cp_closed cp1) of
             (Some mc, idle, num, closed) \<Rightarrow>
               (Reused h mc, set_hcp h \<lparr>hp_idle = idle, hp_numActive = num\<rparr> (cp1\<lparr>cp_closed := closed\<rparr>))
           | (None, idle, num, closed) \<Rightarrow>
               if num \<ge> pc_MaxPerKey (cp_config cp1)
               then (PoolExhausted poolKey, set_hcp h \<lparr>hp_idle = idle, hp_numActive = num\<rparr> (cp1\<lparr>cp_closed := closed\<rparr>))
               else (MustDial h poolKey, set_hcp h \<lparr>hp_idle = idle, hp_numActive = num + 1\<rparr> (cp1\<lparr>cp_closed := closed\<rparr>))))"

definition Get_failed :: "nat \<Rightarrow> ConnectionPool \<Rightarrow> ConnectionPool" where
  "Get_failed h cp = set_hcp h ((cp_hcps cp ! h)\<lparr>hp_numActive := hp_numActive (cp_hcps cp ! h) - 1\<rparr>) cp"

definition Get_dialled :: "gotime \<Rightarrow> string \<Rightarrow> nat \<Rightarrow> nat option \<Rightarrow> ManagedConnection" where
  "Get_dialled now poolKey client bastion =
     \<lparr>mc_client = Some client, mc_bastionClient = bastion, mc_poolKey = poolKey, mc_lastUsed = now, mc_createdAt = now\<rparr>"

datatype pool_error = ErrPoolExhausted string | DialFailed goerr

definition Pool_Get :: "(string \<Rightarrow> string) \<Rightarrow> (ConnectionCfg \<Rightarrow> duration \<Rightarrow> goerr + nat \<times> nat option) \<Rightarrow> gotime \<Rightarrow> (nat \<Rightarrow> bool) \<Rightarrow>
    ConnectionCfg \<Rightarrow> ConnectionPool \<Rightarrow> (pool_error + ManagedConnection) \<times> ConnectionPool" where
  "Pool_Get sha dialer now healthy cfg cp =
     (case Get_begin now healthy (generatePoolKey sha cfg) cp of
        (Reused h mc, cp') \<Rightarrow> (Inr mc, cp')
      | (PoolExhausted k, cp') \<Rightarrow> (Inl (ErrPoolExhausted k), cp')
      | (MustDial h k, cp') \<Rightarrow>
          (case dialer cfg (pc_ConnectTimeout (cp_config cp')) of
             Inl e \<Rightarrow> (Inl (DialFailed e), Get_failed h cp')
           | Inr (client, bastion) \<Rightarrow> (Inr (Get_dialled now k client bastion), cp')))"

definition clamp :: "int \<Rightarrow> int" where
  "clamp n = (if n < 0 then 0 else n)"

definition Pool_Put :: "gotime \<Rightarrow> ManagedConnection option \<Rightarrow> bool \<Rightarrow> ConnectionPool \<Rightarrow> ConnectionPool" where
  "Pool_Put now mc_opt isHealthy cp =
     (case mc_opt of
        None \<Rightarrow> cp
      | Some mc \<Rightarrow>
          if mc_client mc = None then cp
          else if mc_poolKey mc = [] then cp\<lparr>cp_closed := cp_closed cp @ mc_clients mc\<rparr>
          else
            (case getOrCreateHostPool (mc_poolKey mc) cp of
               (h, cp1) \<Rightarrow>
                 (let p = cp_hcps cp1 ! h in
                  if \<not> isHealthy \<or> int (length (hp_idle p)) \<ge> pc_MaxIdlePerKey (cp_config cp1)
                  then set_hcp h (p\<lparr>hp_numActive := clamp (hp_numActive p - 1)\<rparr>)
                         (cp1\<lparr>cp_closed := cp_closed cp1 @ mc_clients mc\<rparr>)
                  else set_hcp h (p\<lparr>hp_idle := hp_idle p @ [mc\<lparr>mc_lastUsed := now\<rparr>]\<rparr>) cp1)))"

fun remove_client :: "nat \<Rightarrow> ManagedConnection list \<Rightarrow> ManagedConnection list" where
  "remove_client c [] = []"
| "remove_client c (mc # mcs) = (if mc_client mc = Some c then mcs else mc # remove_client c mcs)"

definition CloseConnection :: "(string \<Rightarrow> string) \<Rightarrow> ConnectionCfg \<Rightarrow> nat option \<Rightarrow> ConnectionPool \<Rightarrow> ConnectionPool" where
  "CloseConnection sha cfg client cp =
     (case client of
        None \<Rightarrow> cp
      | Some c \<Rightarrow>
          (case getOrCreateHostPool (generatePoolKey sha cfg) cp of
             (h, cp1) \<Rightarrow>
               (let p = cp_hcps cp1 ! h in
                set_hcp h \<lparr>hp_idle = remove_client c (hp_idle p), hp_numActive = clamp (hp_numActive p - 1)\<rparr> cp1)))"

text \<open>One host pool in a round of the scrubber, and a whole round.\<close>

fun scrub_idle :: "PoolConfig \<Rightarrow> gotime \<Rightarrow> ManagedConnection list \<Rightarrow> ManagedConnection list \<Rightarrow> nat \<Rightarrow> nat list \<Rightarrow>
    ManagedConnection list \<times> nat \<times> nat list" where
  "scrub_idle config now [] freshIdle cleaned closed = (freshIdle, cleaned, closed)"
| "scrub_idle config now (mc # mcs) freshIdle cleaned closed =
     (if stale config now mc then scrub_idle config now mcs freshIdle (Suc cleaned) (closed @ mc_clients mc)
      else scrub_idle config now mcs (freshIdle @ [mc]) cleaned closed)"

definition scrub_pool :: "gotime \<Rightarrow> nat \<Rightarrow> ConnectionPool \<Rightarrow> ConnectionPool" where
  "scrub_pool now h cp =
     (case scrub_idle (cp_config cp) now (hp_idle (cp_hcps cp ! h)) [] 0 (cp_closed cp) of
        (idle, cleaned, closed) \<Rightarrow>
          set_hcp h \<lparr>hp_idle = idle, hp_numActive = clamp (hp_numActive (cp_hcps cp ! h) - int cleaned)\<rparr>
            (cp\<lparr>cp_closed := closed\<rparr>))"

definition scrubber_round :: "gotime \<Rightarrow> ConnectionPool \<Rightarrow> ConnectionPool" where
  "scrubber_round now cp = fold (scrub_pool now) (map snd (cp_pools cp)) cp"

definition Shutdown :: "ConnectionPool \<Rightarrow> ConnectionPool" where
  "Shutdown cp =
     (fold (\<lambda>h cp. set_hcp h \<lparr>hp_idle = [], hp_numActive = 0\<rparr>
          (cp\<lparr>cp_closed := cp_closed cp @ concat (map mc_clients (hp_idle (cp_hcps cp ! h)))\<rparr>))
        (map snd (cp_pools cp)) cp)\<lparr>cp_pools := [], cp_scrubbing := False\<rparr>"

section \<open>Clients of the pool\<close>

text \<open>
  Goroutines that take connections and give them back, and the scrubber, interleaved at the
  granularity of the locks. \<open>ps_borrowed\<close> are the connections that have been handed out with the
  host pool they belong to, \<open>ps_dialing\<close> the calls of \<^verbatim>\<open>Get\<close> that wait for the dialler. A client the
  dialler returns is new. Time may stand at any instant in any step.
\<close>

record pool_system =
  ps_pool :: ConnectionPool
  ps_borrowed :: "(nat \<times> ManagedConnection) list"
  ps_dialing :: "(nat \<times> string) list"
  ps_used :: "nat set"

definition pool_start :: "PoolConfig \<Rightarrow> pool_system" where
  "pool_start c = \<lparr>ps_pool = NewConnectionPool c, ps_borrowed = [], ps_dialing = [], ps_used = {}\<rparr>"

inductive pool_step :: "(string \<Rightarrow> string) \<Rightarrow> pool_system \<Rightarrow> pool_system \<Rightarrow> bool" for sha where
  get_reuse: "Get_begin now healthy (generatePoolKey sha cfg) (ps_pool s) = (Reused h mc, cp) \<Longrightarrow>
    pool_step sha s (s\<lparr>ps_pool := cp, ps_borrowed := (h, mc) # ps_borrowed s\<rparr>)"
| get_exhausted: "Get_begin now healthy (generatePoolKey sha cfg) (ps_pool s) = (PoolExhausted k, cp) \<Longrightarrow>
    pool_step sha s (s\<lparr>ps_pool := cp\<rparr>)"
| get_dial: "Get_begin now healthy (generatePoolKey sha cfg) (ps_pool s) = (MustDial h k, cp) \<Longrightarrow>
    pool_step sha s (s\<lparr>ps_pool := cp, ps_dialing := (h, k) # ps_dialing s\<rparr>)"
| dial_ok: "ps_dialing s = ds @ (h, k) # ds' \<Longrightarrow> mc = Get_dialled now k c bastion \<Longrightarrow>
    distinct (mc_clients mc) \<Longrightarrow> set (mc_clients mc) \<inter> ps_used s = {} \<Longrightarrow>
    pool_step sha s (s\<lparr>ps_dialing := ds @ ds', ps_borrowed := (h, mc) # ps_borrowed s,
                       ps_used := set (mc_clients mc) \<union> ps_used s\<rparr>)"
| dial_fail: "ps_dialing s = ds @ (h, k) # ds' \<Longrightarrow>
    pool_step sha s (s\<lparr>ps_pool := Get_failed h (ps_pool s), ps_dialing := ds @ ds'\<rparr>)"
| put: "ps_borrowed s = bs @ (h, mc) # bs' \<Longrightarrow>
    pool_step sha s (s\<lparr>ps_pool := Pool_Put now (Some mc) isHealthy (ps_pool s), ps_borrowed := bs @ bs'\<rparr>)"
| close: "ps_borrowed s = bs @ (h, mc) # bs' \<Longrightarrow> generatePoolKey sha cfg = mc_poolKey mc \<Longrightarrow>
    pool_step sha s (s\<lparr>ps_pool := CloseConnection sha cfg (mc_client mc) (ps_pool s), ps_borrowed := bs @ bs'\<rparr>)"
| scrub: "h \<in> set (map snd (cp_pools (ps_pool s))) \<Longrightarrow>
    pool_step sha s (s\<lparr>ps_pool := scrub_pool now h (ps_pool s)\<rparr>)"

abbreviation idle_of :: "pool_system \<Rightarrow> nat \<Rightarrow> ManagedConnection list" where
  "idle_of s h \<equiv> hp_idle (cp_hcps (ps_pool s) ! h)"

definition borrowed_from :: "pool_system \<Rightarrow> nat \<Rightarrow> nat" where
  "borrowed_from s h = length (filter (\<lambda>b. fst b = h) (ps_borrowed s))"

definition dialing_for :: "pool_system \<Rightarrow> nat \<Rightarrow> nat" where
  "dialing_for s h = length (filter (\<lambda>d. fst d = h) (ps_dialing s))"

text \<open>The clients that are idle, those that are handed out, and those that have been closed, each as often as it occurs.\<close>

definition conn_ids :: "pool_system \<Rightarrow> nat list" where
  "conn_ids s = concat (map (\<lambda>p. concat (map mc_clients (hp_idle p))) (cp_hcps (ps_pool s))) @
     concat (map (\<lambda>b. mc_clients (snd b)) (ps_borrowed s)) @ cp_closed (ps_pool s)"

text \<open>A connection belongs to the host pool its key leads to.\<close>

definition belongs :: "ConnectionPool \<Rightarrow> nat \<Rightarrow> string \<Rightarrow> bool" where
  "belongs cp h k \<longleftrightarrow> k \<noteq> [] \<and> gm_get (cp_pools cp) k = Some h"

definition pools_ok :: "ConnectionPool \<Rightarrow> bool" where
  "pools_ok cp \<longleftrightarrow> gm_ok (cp_pools cp) \<and> (\<forall>k h. gm_get (cp_pools cp) k = Some h \<longrightarrow> h < length (cp_hcps cp)) \<and>
     (\<forall>p \<in> set (cp_hcps cp). int (length (hp_idle p)) \<le> max 0 (pc_MaxIdlePerKey (cp_config cp)) \<and>
        hp_numActive p \<le> max 0 (pc_MaxPerKey (cp_config cp))) \<and>
     (\<forall>h < length (cp_hcps cp). \<forall>mc \<in> set (hp_idle (cp_hcps cp ! h)). mc_client mc \<noteq> None \<and> belongs cp h (mc_poolKey mc))"

definition pool_inv :: "pool_system \<Rightarrow> bool" where
  "pool_inv s \<longleftrightarrow> pools_ok (ps_pool s) \<and>
     (\<forall>(h, mc) \<in> set (ps_borrowed s). mc_client mc \<noteq> None \<and> belongs (ps_pool s) h (mc_poolKey mc)) \<and>
     (\<forall>(h, k) \<in> set (ps_dialing s). belongs (ps_pool s) h k) \<and>
     (\<forall>h < length (cp_hcps (ps_pool s)). hp_numActive (cp_hcps (ps_pool s) ! h) =
        int (length (idle_of s h) + borrowed_from s h + dialing_for s h)) \<and>
     distinct (conn_ids s) \<and> set (conn_ids s) \<subseteq> ps_used s"

lemma generatePoolKey_ne: "generatePoolKey sha cfg \<noteq> []"
proof -
  have j: "strings_Join ws sep \<noteq> []" if "w \<in> set ws" "w \<noteq> []" "[] \<notin> set ws" for w ws sep
    using that by (cases ws rule: list.exhaust; cases "tl ws") auto
  show ?thesis
    unfolding generatePoolKey_def Let_def
    by (rule j[of "target_part (cc_User cfg) (cc_Host cfg) (cc_Port cfg)"]) (auto simp: target_part_def split: option.splits)
qed

lemma mset_concat_update:
  "i < length xs \<Longrightarrow> mset (concat (map f (xs[i := x]))) + mset (f (xs ! i)) = mset (concat (map f xs)) + mset (f x)"
  by (induction xs arbitrary: i) (auto split: nat.splits)

lemma distinct_mset_subset: "mset xs \<subseteq># mset ys \<Longrightarrow> distinct ys \<Longrightarrow> distinct xs \<and> set xs \<subseteq> set ys"
proof -
  assume "mset xs \<subseteq># mset ys" "distinct ys"
  then obtain zs where "mset ys = mset (xs @ zs)"
    by (metis ex_mset mset_append subset_mset.le_iff_add)
  then have "distinct (xs @ zs)" "set (xs @ zs) = set ys"
    using \<open>distinct ys\<close> mset_eq_imp_distinct_iff mset_eq_setD by metis+
  then show ?thesis by auto
qed

text \<open>What the loops do to the idle list: connections leave it, and those not returned are closed.\<close>

lemma pick_idle_props:
  assumes "pick_idle config now healthy idle num closed = (r, idle', num', closed')"
  shows "\<exists>dropped. closed' = closed @ concat (map mc_clients dropped) \<and>
     (case r of None \<Rightarrow> idle = dropped \<and> idle' = [] \<and> num' = num - int (length idle)
      | Some mc \<Rightarrow> \<exists>mc0. idle = dropped @ mc0 # idle' \<and> mc = mc0\<lparr>mc_lastUsed := now\<rparr> \<and>
          num' = num - int (length dropped) \<and> \<not> stale config now mc0 \<and> mc_IsHealthy healthy mc0)"
  using assms
proof (induction config now healthy idle num closed rule: pick_idle.induct)
  case (2 config now healthy mc idle num closed)
  show ?case
  proof (cases "stale config now mc \<or> \<not> mc_IsHealthy healthy mc")
    case True
    then obtain dropped where "closed' = (closed @ mc_clients mc) @ concat (map mc_clients dropped) \<and>
     (case r of None \<Rightarrow> idle = dropped \<and> idle' = [] \<and> num' = (num - 1) - int (length idle)
      | Some mc' \<Rightarrow> \<exists>mc0. idle = dropped @ mc0 # idle' \<and> mc' = mc0\<lparr>mc_lastUsed := now\<rparr> \<and>
          num' = (num - 1) - int (length dropped) \<and> \<not> stale config now mc0 \<and> mc_IsHealthy healthy mc0)"
      using 2 by (auto split: if_splits)
    then show ?thesis by (intro exI[of _ "mc # dropped"]) (auto split: option.splits)
  next
    case False
    then show ?thesis using 2 by (intro exI[of _ "[]"]) auto
  qed
qed auto

lemma scrub_idle_props:
  assumes "scrub_idle config now idle kept n closed = (idle', n', closed')"
  shows "idle' = kept @ filter (\<lambda>mc. \<not> stale config now mc) idle \<and>
    n' = n + length (filter (stale config now) idle) \<and>
    closed' = closed @ concat (map mc_clients (filter (stale config now) idle))"
  using assms by (induction config now idle kept n closed rule: scrub_idle.induct) (auto split: if_splits)

lemma mc_clients_lastUsed [simp]: "mc_clients (mc\<lparr>mc_lastUsed := t\<rparr>) = mc_clients mc"
  by (simp add: mc_clients_def)

text \<open>Creating an empty host pool changes nothing that the invariant speaks about.\<close>

lemma getOrCreate_props:
  assumes "getOrCreateHostPool k cp = (h, cp')" "k \<noteq> []" "pools_ok cp"
  shows "pools_ok cp' \<and> belongs cp' h k \<and> h < length (cp_hcps cp') \<and> cp_closed cp' = cp_closed cp \<and>
    cp_config cp' = cp_config cp \<and> (\<forall>h' k'. belongs cp h' k' \<longrightarrow> belongs cp' h' k') \<and>
    (cp_hcps cp' = cp_hcps cp \<or> h = length (cp_hcps cp) \<and> cp_hcps cp' = cp_hcps cp @ [\<lparr>hp_idle = [], hp_numActive = 0\<rparr>])"
proof (cases "gm_get (cp_pools cp) k")
  case (Some h')
  with assms show ?thesis by (auto simp: getOrCreateHostPool_def belongs_def pools_ok_def)
next
  case None
  then have cp': "h = length (cp_hcps cp)"
    "cp' = cp\<lparr>cp_hcps := cp_hcps cp @ [\<lparr>hp_idle = [], hp_numActive = 0\<rparr>], cp_pools := gm_put k h (cp_pools cp)\<rparr>"
    using assms(1) by (auto simp: getOrCreateHostPool_def)
  have keep: "belongs cp h' k' \<Longrightarrow> belongs cp' h' k'" for h' k'
    using None by (auto simp: cp' belongs_def)
  have "pools_ok cp'"
    using assms(3) keep unfolding pools_ok_def
    by (auto simp: cp' gm_ok_put nth_append less_Suc_eq split: if_splits)
  with keep assms(2) show ?thesis by (auto simp: cp' belongs_def)
qed

lemma pool_inv_getOrCreate:
  assumes "pool_inv s" "getOrCreateHostPool k (ps_pool s) = (h, cp)" "k \<noteq> []"
  shows "pool_inv (s\<lparr>ps_pool := cp\<rparr>)"
proof -
  have ok: "pools_ok (ps_pool s)" using assms(1) by (simp add: pool_inv_def)
  note gc = getOrCreate_props[OF assms(2,3) ok]
  have "h < length (cp_hcps (ps_pool s))" if "belongs (ps_pool s) h k" for h k
    using ok that by (auto simp: belongs_def pools_ok_def)
  then have lt: "\<forall>(h, mc) \<in> set (ps_borrowed s). h < length (cp_hcps (ps_pool s))"
    "\<forall>(h, k) \<in> set (ps_dialing s). h < length (cp_hcps (ps_pool s))"
    using assms(1) unfolding pool_inv_def by fast+
  then have none: "borrowed_from s (length (cp_hcps (ps_pool s))) = 0" "dialing_for s (length (cp_hcps (ps_pool s))) = 0"
    by (auto simp: borrowed_from_def dialing_for_def filter_empty_conv)
  have same: "borrowed_from (s\<lparr>ps_pool := cp\<rparr>) = borrowed_from s" "dialing_for (s\<lparr>ps_pool := cp\<rparr>) = dialing_for s"
    by (auto simp: borrowed_from_def dialing_for_def fun_eq_iff)
  have "conn_ids (s\<lparr>ps_pool := cp\<rparr>) = conn_ids s" using gc by (auto simp: conn_ids_def)
  moreover have "\<forall>h < length (cp_hcps cp). hp_numActive (cp_hcps cp ! h) =
        int (length (hp_idle (cp_hcps cp ! h)) + borrowed_from s h + dialing_for s h)"
    using assms(1) gc none unfolding pool_inv_def by (auto simp: nth_append less_Suc_eq)
  ultimately show ?thesis
    using assms(1) gc same unfolding pool_inv_def by (auto split: prod.splits)
qed

lemma pool_inv_set_hcp:
  fixes s :: pool_system
  assumes inv: "pool_inv s" and h: "h < length (cp_hcps (ps_pool s))"
    and idle: "\<forall>mc \<in> set (hp_idle p). mc_client mc \<noteq> None \<and> belongs (ps_pool s) h (mc_poolKey mc)"
    and bounds: "int (length (hp_idle p)) \<le> max 0 (pc_MaxIdlePerKey (cp_config (ps_pool s)))"
      "hp_numActive p \<le> max 0 (pc_MaxPerKey (cp_config (ps_pool s)))"
    and count: "hp_numActive p = int (length (hp_idle p) + length (filter (\<lambda>b. fst b = h) bs) + length (filter (\<lambda>d. fst d = h) ds))"
    and others: "\<And>h'. h' \<noteq> h \<Longrightarrow> length (filter (\<lambda>b. fst b = h') bs) = borrowed_from s h'"
      "\<And>h'. h' \<noteq> h \<Longrightarrow> length (filter (\<lambda>d. fst d = h') ds) = dialing_for s h'"
    and bs: "\<forall>(h, mc) \<in> set bs. mc_client mc \<noteq> None \<and> belongs (ps_pool s) h (mc_poolKey mc)"
    and ds: "\<forall>(h, k) \<in> set ds. belongs (ps_pool s) h k"
    and ids: "mset (concat (map mc_clients (hp_idle p))) + mset (concat (map (\<lambda>b. mc_clients (snd b)) bs)) + mset closed
      \<subseteq># mset (concat (map mc_clients (idle_of s h))) + mset (concat (map (\<lambda>b. mc_clients (snd b)) (ps_borrowed s)))
         + mset (cp_closed (ps_pool s))"
  shows "pool_inv (s\<lparr>ps_pool := set_hcp h p ((ps_pool s)\<lparr>cp_closed := closed\<rparr>), ps_borrowed := bs, ps_dialing := ds\<rparr>)"
    (is "pool_inv ?s")
proof -
  let ?cp = "ps_pool s" and ?cp' = "set_hcp h p ((ps_pool s)\<lparr>cp_closed := closed\<rparr>)"
  have cp': "cp_hcps ?cp' = (cp_hcps ?cp)[h := p]" "cp_pools ?cp' = cp_pools ?cp" "cp_config ?cp' = cp_config ?cp"
    "cp_closed ?cp' = closed" by (simp_all add: set_hcp_def)
  have bel: "belongs ?cp' = belongs ?cp" by (simp add: belongs_def fun_eq_iff set_hcp_def)
  have ok: "pools_ok ?cp'"
    using inv idle bounds h unfolding pool_inv_def pools_ok_def bel
    by (auto simp: cp' nth_list_update set_update_subset_insert[THEN subsetD] dest!: set_update_subset_insert[THEN subsetD])
  have num: "hp_numActive (cp_hcps ?cp' ! h') =
      int (length (hp_idle (cp_hcps ?cp' ! h')) + borrowed_from ?s h' + dialing_for ?s h')"
    if "h' < length (cp_hcps ?cp')" for h'
  proof (cases "h' = h")
    case True
    then show ?thesis using count h by (simp add: cp' borrowed_from_def dialing_for_def)
  next
    case False
    then show ?thesis
      using inv others[OF False] that by (simp add: cp' pool_inv_def borrowed_from_def dialing_for_def)
  qed
  let ?f = "\<lambda>q. concat (map mc_clients (hp_idle q))" and ?g = "\<lambda>b. mc_clients (snd b)"
  have up: "mset (concat (map ?f ((cp_hcps ?cp)[h := p]))) + mset (?f (cp_hcps ?cp ! h)) =
      mset (concat (map ?f (cp_hcps ?cp))) + mset (?f p)" by (rule mset_concat_update[OF h])
  have "mset (conn_ids ?s) + mset (?f (cp_hcps ?cp ! h)) \<subseteq># mset (conn_ids s) + mset (?f (cp_hcps ?cp ! h))"
  proof -
    have "mset (conn_ids ?s) + mset (?f (cp_hcps ?cp ! h)) =
        (mset (concat (map ?f ((cp_hcps ?cp)[h := p]))) + mset (?f (cp_hcps ?cp ! h))) + mset (concat (map ?g bs)) + mset closed"
      by (simp add: conn_ids_def cp')
    also have "\<dots> = mset (concat (map ?f (cp_hcps ?cp))) + (mset (?f p) + mset (concat (map ?g bs)) + mset closed)"
      by (simp only: up add.assoc)
    also have "\<dots> \<subseteq># mset (concat (map ?f (cp_hcps ?cp))) +
        (mset (?f (cp_hcps ?cp ! h)) + mset (concat (map ?g (ps_borrowed s))) + mset (cp_closed ?cp))"
      by (intro subset_mset.add_left_mono ids)
    also have "\<dots> = mset (conn_ids s) + mset (?f (cp_hcps ?cp ! h))" by (simp add: conn_ids_def)
    finally show ?thesis .
  qed
  then have "mset (conn_ids ?s) \<subseteq># mset (conn_ids s)" by (simp only: subset_mset.add_le_cancel_right)
  from distinct_mset_subset[OF this] ok num bs ds inv show ?thesis
    unfolding pool_inv_def by (auto simp: bel split: prod.splits)
qed

lemma pool_invD:
  assumes "pool_inv s"
  shows "pools_ok (ps_pool s)"
    "\<forall>(h, mc) \<in> set (ps_borrowed s). mc_client mc \<noteq> None \<and> belongs (ps_pool s) h (mc_poolKey mc)"
    "\<forall>(h, k) \<in> set (ps_dialing s). belongs (ps_pool s) h k"
    "h < length (cp_hcps (ps_pool s)) \<Longrightarrow> hp_numActive (cp_hcps (ps_pool s) ! h) =
       int (length (idle_of s h)) + int (borrowed_from s h) + int (dialing_for s h)"
    "h < length (cp_hcps (ps_pool s)) \<Longrightarrow> int (length (idle_of s h)) \<le> max 0 (pc_MaxIdlePerKey (cp_config (ps_pool s)))"
    "h < length (cp_hcps (ps_pool s)) \<Longrightarrow> hp_numActive (cp_hcps (ps_pool s) ! h) \<le> max 0 (pc_MaxPerKey (cp_config (ps_pool s)))"
    "h < length (cp_hcps (ps_pool s)) \<Longrightarrow>
       \<forall>mc \<in> set (idle_of s h). mc_client mc \<noteq> None \<and> belongs (ps_pool s) h (mc_poolKey mc)"
proof -
  show ok: "pools_ok (ps_pool s)" using assms by (simp add: pool_inv_def)
  assume h: "h < length (cp_hcps (ps_pool s))"
  then have m: "cp_hcps (ps_pool s) ! h \<in> set (cp_hcps (ps_pool s))" by simp
  show "int (length (idle_of s h)) \<le> max 0 (pc_MaxIdlePerKey (cp_config (ps_pool s)))"
    "hp_numActive (cp_hcps (ps_pool s) ! h) \<le> max 0 (pc_MaxPerKey (cp_config (ps_pool s)))"
    using ok m unfolding pools_ok_def by blast+
  show "\<forall>mc \<in> set (idle_of s h). mc_client mc \<noteq> None \<and> belongs (ps_pool s) h (mc_poolKey mc)"
    using ok h unfolding pools_ok_def by blast
qed (use assms in \<open>auto simp: pool_inv_def\<close>)

lemma pool_inv_get:
  assumes "pool_inv s" "Get_begin now healthy k (ps_pool s) = (r, cp)" "k \<noteq> []"
  shows "pool_inv (case r of Reused h mc \<Rightarrow> s\<lparr>ps_pool := cp, ps_borrowed := (h, mc) # ps_borrowed s\<rparr>
    | PoolExhausted k' \<Rightarrow> s\<lparr>ps_pool := cp\<rparr>
    | MustDial h k' \<Rightarrow> s\<lparr>ps_pool := cp, ps_dialing := (h, k') # ps_dialing s\<rparr>)"
proof -
  obtain h cp1 where gc: "getOrCreateHostPool k (ps_pool s) = (h, cp1)" by fastforce
  define s1 where "s1 = s\<lparr>ps_pool := cp1\<rparr>"
  have inv1: "pool_inv s1" unfolding s1_def by (rule pool_inv_getOrCreate[OF assms(1) gc assms(3)])
  have "pools_ok (ps_pool s)" using assms(1) by (simp add: pool_inv_def)
  from getOrCreate_props[OF gc assms(3) this] have h: "h < length (cp_hcps cp1)" and bel: "belongs cp1 h k" by simp_all
  let ?p = "cp_hcps cp1 ! h"
  obtain o' idle num closed where pick:
    "pick_idle (cp_config cp1) now healthy (hp_idle ?p) (hp_numActive ?p) (cp_closed cp1) = (o', idle, num, closed)"
    using prod_cases4 by blast
  from pick_idle_props[OF pick] obtain dropped where dr: "closed = cp_closed cp1 @ concat (map mc_clients dropped)"
    "case o' of None \<Rightarrow> hp_idle ?p = dropped \<and> idle = [] \<and> num = hp_numActive ?p - int (length (hp_idle ?p))
      | Some mc \<Rightarrow> \<exists>mc0. hp_idle ?p = dropped @ mc0 # idle \<and> mc = mc0\<lparr>mc_lastUsed := now\<rparr> \<and>
          num = hp_numActive ?p - int (length dropped) \<and> \<not> stale (cp_config cp1) now mc0 \<and> mc_IsHealthy healthy mc0" by blast
  have s1: "ps_pool s1 = cp1" "ps_borrowed s1 = ps_borrowed s" "ps_dialing s1 = ps_dialing s"
    "s\<lparr>ps_pool := x, ps_borrowed := y, ps_dialing := z\<rparr> = s1\<lparr>ps_pool := x, ps_borrowed := y, ps_dialing := z\<rparr>" for x y z
    by (simp_all add: s1_def)
  note act = pool_invD(2,3)[OF inv1, unfolded s1] pool_invD(4-7)[OF inv1, of h, unfolded s1, OF h]
  note upd = pool_inv_set_hcp[OF inv1, of h, unfolded s1, OF h]
  show ?thesis
  proof (cases o')
    case (Some mc)
    then obtain mc0 where mc0: "hp_idle ?p = dropped @ mc0 # idle" "mc = mc0\<lparr>mc_lastUsed := now\<rparr>"
      "num = hp_numActive ?p - int (length dropped)" using dr(2) by auto
    have r: "r = Reused h mc" "cp = set_hcp h \<lparr>hp_idle = idle, hp_numActive = num\<rparr> (cp1\<lparr>cp_closed := closed\<rparr>)"
      using assms(2) Some by (auto simp: Get_begin_def gc pick)
    have "pool_inv (s\<lparr>ps_pool := cp, ps_borrowed := (h, mc) # ps_borrowed s, ps_dialing := ps_dialing s\<rparr>)"
      unfolding r(2) s1(4)
      by (rule upd) (use act mc0 dr(1) h in \<open>auto simp: borrowed_from_def dialing_for_def s1(1-3)\<close>)
    then show ?thesis by (simp add: r(1))
  next
    case None
    then have e: "hp_idle ?p = dropped" "idle = []" "num = hp_numActive ?p - int (length (hp_idle ?p))" using dr(2) by auto
    show ?thesis
    proof (cases "num \<ge> pc_MaxPerKey (cp_config cp1)")
      case True
      then have r: "r = PoolExhausted k" "cp = set_hcp h \<lparr>hp_idle = idle, hp_numActive = num\<rparr> (cp1\<lparr>cp_closed := closed\<rparr>)"
        using assms(2) None by (auto simp: Get_begin_def gc pick)
      have "pool_inv (s\<lparr>ps_pool := cp, ps_borrowed := ps_borrowed s, ps_dialing := ps_dialing s\<rparr>)"
        unfolding r(2) s1(4)
        by (rule upd) (use act e dr(1) h in \<open>auto simp: borrowed_from_def dialing_for_def s1(1-3)\<close>)
      then show ?thesis by (simp add: r(1))
    next
      case False
      then have r: "r = MustDial h k" "cp = set_hcp h \<lparr>hp_idle = idle, hp_numActive = num + 1\<rparr> (cp1\<lparr>cp_closed := closed\<rparr>)"
        using assms(2) None by (auto simp: Get_begin_def gc pick)
      have "pool_inv (s\<lparr>ps_pool := cp, ps_borrowed := ps_borrowed s, ps_dialing := (h, k) # ps_dialing s\<rparr>)"
        unfolding r(2) s1(4)
        by (rule upd) (use act e dr(1) False bel h in \<open>auto simp: borrowed_from_def dialing_for_def s1(1-3)\<close>)
      then show ?thesis by (simp add: r(1))
    qed
  qed
qed

lemma pool_inv_dial_ok:
  assumes inv: "pool_inv s" and d: "ps_dialing s = ds @ (h, k) # ds'" and mc: "mc = Get_dialled now k c b"
    and fresh: "distinct (mc_clients mc)" "set (mc_clients mc) \<inter> ps_used s = {}"
  shows "pool_inv (s\<lparr>ps_dialing := ds @ ds', ps_borrowed := (h, mc) # ps_borrowed s, ps_used := set (mc_clients mc) \<union> ps_used s\<rparr>)"
    (is "pool_inv ?s")
proof -
  have "belongs (ps_pool s) h k" using pool_invD(3)[OF inv] d by auto
  moreover have "mset (conn_ids ?s) = mset (mc_clients mc @ conn_ids s)" by (simp add: conn_ids_def)
  from mset_eq_imp_distinct_iff[OF this] mset_eq_setD[OF this]
  have "distinct (conn_ids ?s)" "set (conn_ids ?s) \<subseteq> set (mc_clients mc) \<union> ps_used s"
    using inv fresh by (auto simp: pool_inv_def)
  moreover have "borrowed_from ?s h' + dialing_for ?s h' = borrowed_from s h' + dialing_for s h'" for h'
    by (auto simp: borrowed_from_def dialing_for_def d)
  then have "hp_numActive (cp_hcps (ps_pool s) ! h') = int (length (idle_of s h')) + int (borrowed_from ?s h') + int (dialing_for ?s h')"
    if "h' < length (cp_hcps (ps_pool s))" for h'
    using pool_invD(4)[OF inv that] by (metis (no_types, lifting) add.assoc of_nat_add)
  ultimately show ?thesis
    using inv d unfolding pool_inv_def by (auto simp: mc Get_dialled_def)
qed

lemma pool_inv_dial_fail:
  assumes inv: "pool_inv s" and d: "ps_dialing s = ds @ (h, k) # ds'"
  shows "pool_inv (s\<lparr>ps_pool := Get_failed h (ps_pool s), ps_dialing := ds @ ds'\<rparr>)"
proof -
  have "belongs (ps_pool s) h k" using pool_invD(3)[OF inv] d by auto
  then have h: "h < length (cp_hcps (ps_pool s))" using pool_invD(1)[OF inv] by (auto simp: belongs_def pools_ok_def)
  let ?p = "cp_hcps (ps_pool s) ! h"
  have "pool_inv (s\<lparr>ps_pool := set_hcp h (?p\<lparr>hp_numActive := hp_numActive ?p - 1\<rparr>) ((ps_pool s)\<lparr>cp_closed := cp_closed (ps_pool s)\<rparr>),
      ps_borrowed := ps_borrowed s, ps_dialing := ds @ ds'\<rparr>)"
    by (rule pool_inv_set_hcp[OF inv h])
      (use pool_invD(2,3)[OF inv] pool_invD(4-7)[OF inv h] d in \<open>auto simp: borrowed_from_def dialing_for_def\<close>)
  moreover have "(ps_pool s)\<lparr>cp_closed := cp_closed (ps_pool s)\<rparr> = ps_pool s" by simp
  ultimately show ?thesis by (simp add: Get_failed_def)
qed

text \<open>A borrowed connection's key leads back to its host pool, which therefore exists.\<close>

lemma borrowed_pool:
  assumes "pool_inv s" "ps_borrowed s = bs @ (h, mc) # bs'"
  shows "mc_client mc \<noteq> None" "mc_poolKey mc \<noteq> []" "h < length (cp_hcps (ps_pool s))"
    "getOrCreateHostPool (mc_poolKey mc) (ps_pool s) = (h, ps_pool s)"
proof -
  have b: "mc_client mc \<noteq> None \<and> belongs (ps_pool s) h (mc_poolKey mc)" using pool_invD(2)[OF assms(1)] assms(2) by auto
  then show "mc_client mc \<noteq> None" "mc_poolKey mc \<noteq> []" by (auto simp: belongs_def)
  show "h < length (cp_hcps (ps_pool s))" using b pool_invD(1)[OF assms(1)] by (auto simp: belongs_def pools_ok_def)
  show "getOrCreateHostPool (mc_poolKey mc) (ps_pool s) = (h, ps_pool s)"
    using b by (simp add: getOrCreateHostPool_def belongs_def)
qed

lemma pool_inv_put:
  assumes inv: "pool_inv s" and b: "ps_borrowed s = bs @ (h, mc) # bs'"
  shows "pool_inv (s\<lparr>ps_pool := Pool_Put now (Some mc) ok (ps_pool s), ps_borrowed := bs @ bs'\<rparr>)"
proof -
  note bp = borrowed_pool[OF inv b]
  let ?p = "cp_hcps (ps_pool s) ! h" and ?full = "\<not> ok \<or> int (length (idle_of s h)) \<ge> pc_MaxIdlePerKey (cp_config (ps_pool s))"
  note act = pool_invD(2,3)[OF inv] pool_invD(4-7)[OF inv bp(3)]
  have cnt: "0 < borrowed_from s h" by (simp add: borrowed_from_def b)
  show ?thesis
  proof (cases ?full)
    case True
    have "pool_inv (s\<lparr>ps_pool := set_hcp h (?p\<lparr>hp_numActive := clamp (hp_numActive ?p - 1)\<rparr>)
        ((ps_pool s)\<lparr>cp_closed := cp_closed (ps_pool s) @ mc_clients mc\<rparr>), ps_borrowed := bs @ bs', ps_dialing := ps_dialing s\<rparr>)"
      by (rule pool_inv_set_hcp[OF inv bp(3)])
        (use act cnt b in \<open>auto simp: borrowed_from_def dialing_for_def clamp_def\<close>)
    moreover have "Pool_Put now (Some mc) ok (ps_pool s) = set_hcp h (?p\<lparr>hp_numActive := clamp (hp_numActive ?p - 1)\<rparr>)
        ((ps_pool s)\<lparr>cp_closed := cp_closed (ps_pool s) @ mc_clients mc\<rparr>)"
      using True bp(1,2) unfolding Pool_Put_def option.case bp(4) prod.case Let_def by auto
    ultimately show ?thesis by simp
  next
    case False
    have "pool_inv (s\<lparr>ps_pool := set_hcp h (?p\<lparr>hp_idle := hp_idle ?p @ [mc\<lparr>mc_lastUsed := now\<rparr>]\<rparr>)
        ((ps_pool s)\<lparr>cp_closed := cp_closed (ps_pool s)\<rparr>), ps_borrowed := bs @ bs', ps_dialing := ps_dialing s\<rparr>)"
      by (rule pool_inv_set_hcp[OF inv bp(3)])
        (use act cnt b False in \<open>auto simp: borrowed_from_def dialing_for_def\<close>)
    moreover have "Pool_Put now (Some mc) ok (ps_pool s) = set_hcp h (?p\<lparr>hp_idle := hp_idle ?p @ [mc\<lparr>mc_lastUsed := now\<rparr>]\<rparr>)
        ((ps_pool s)\<lparr>cp_closed := cp_closed (ps_pool s)\<rparr>)"
      using False bp(1,2) unfolding Pool_Put_def option.case bp(4) prod.case Let_def by auto
    ultimately show ?thesis by simp
  qed
qed

lemma remove_client_absent: "\<forall>mc \<in> set mcs. mc_client mc \<noteq> Some c \<Longrightarrow> remove_client c mcs = mcs"
  by (induction mcs) auto

lemma mc_client_in_clients: "mc_client mc = Some c \<Longrightarrow> c \<in> set (mc_clients mc)"
  by (simp add: mc_clients_def)

lemma pool_inv_close:
  assumes inv: "pool_inv s" and b: "ps_borrowed s = bs @ (h, mc) # bs'" and k: "generatePoolKey sha cfg = mc_poolKey mc"
  shows "pool_inv (s\<lparr>ps_pool := CloseConnection sha cfg (mc_client mc) (ps_pool s), ps_borrowed := bs @ bs'\<rparr>)"
proof -
  note bp = borrowed_pool[OF inv b]
  let ?p = "cp_hcps (ps_pool s) ! h"
  note act = pool_invD(2,3)[OF inv] pool_invD(4-7)[OF inv bp(3)]
  obtain c where c: "mc_client mc = Some c" using bp(1) by blast
  have "mc_client mc' \<noteq> Some c" if "mc' \<in> set (hp_idle ?p)" for mc'
  proof
    assume "mc_client mc' = Some c"
    then have "c \<in> set (concat (map (\<lambda>p. concat (map mc_clients (hp_idle p))) (cp_hcps (ps_pool s))))"
      using that bp(3) mc_client_in_clients by fastforce
    moreover have "c \<in> set (concat (map (\<lambda>b. mc_clients (snd b)) (ps_borrowed s)))"
      using b c mc_client_in_clients by fastforce
    moreover have "distinct (conn_ids s)" using inv by (simp add: pool_inv_def)
    ultimately show False unfolding conn_ids_def distinct_append set_append by blast
  qed
  then have rm: "remove_client c (hp_idle ?p) = hp_idle ?p" by (simp add: remove_client_absent)
  have "pool_inv (s\<lparr>ps_pool := set_hcp h \<lparr>hp_idle = hp_idle ?p, hp_numActive = clamp (hp_numActive ?p - 1)\<rparr>
      ((ps_pool s)\<lparr>cp_closed := cp_closed (ps_pool s)\<rparr>), ps_borrowed := bs @ bs', ps_dialing := ps_dialing s\<rparr>)"
    by (rule pool_inv_set_hcp[OF inv bp(3)])
      (use act b in \<open>auto simp: borrowed_from_def dialing_for_def clamp_def\<close>)
  moreover have "CloseConnection sha cfg (mc_client mc) (ps_pool s) =
      set_hcp h \<lparr>hp_idle = hp_idle ?p, hp_numActive = clamp (hp_numActive ?p - 1)\<rparr> ((ps_pool s)\<lparr>cp_closed := cp_closed (ps_pool s)\<rparr>)"
    unfolding CloseConnection_def c option.case k bp(4) prod.case Let_def rm by simp
  ultimately show ?thesis by simp
qed

lemma filter_partition_length: "length (filter P xs) + length (filter (\<lambda>x. \<not> P x) xs) = length xs"
  by (induction xs) auto

lemma mset_concat_partition:
  "mset (concat (map f (filter P xs))) + mset (concat (map f (filter (\<lambda>x. \<not> P x) xs))) = mset (concat (map f xs))"
  by (induction xs) auto

lemma pool_inv_scrub:
  assumes inv: "pool_inv s" and h: "h < length (cp_hcps (ps_pool s))"
  shows "pool_inv (s\<lparr>ps_pool := scrub_pool now h (ps_pool s)\<rparr>)"
proof -
  let ?p = "cp_hcps (ps_pool s) ! h" and ?stale = "stale (cp_config (ps_pool s)) now"
  note act = pool_invD(2,3)[OF inv] pool_invD(4-7)[OF inv h]
  let ?idle = "filter (\<lambda>mc. \<not> ?stale mc) (hp_idle ?p)" and ?n = "length (filter ?stale (hp_idle ?p))"
  let ?closed = "cp_closed (ps_pool s) @ concat (map mc_clients (filter ?stale (hp_idle ?p)))"
  obtain i n c where sc: "scrub_idle (cp_config (ps_pool s)) now (hp_idle ?p) [] 0 (cp_closed (ps_pool s)) = (i, n, c)"
    using prod_cases3 by blast
  then have e: "i = ?idle" "n = ?n" "c = ?closed" using scrub_idle_props[OF sc] by simp_all
  have len: "?n + length ?idle = length (hp_idle ?p)" by (rule filter_partition_length)
  have ids: "mset (concat (map mc_clients (filter ?stale (hp_idle ?p)))) + mset (concat (map mc_clients ?idle)) =
      mset (concat (map mc_clients (hp_idle ?p)))" by (rule mset_concat_partition)
  have "pool_inv (s\<lparr>ps_pool := set_hcp h \<lparr>hp_idle = ?idle, hp_numActive = clamp (hp_numActive ?p - int ?n)\<rparr>
      ((ps_pool s)\<lparr>cp_closed := ?closed\<rparr>), ps_borrowed := ps_borrowed s, ps_dialing := ps_dialing s\<rparr>)"
    by (rule pool_inv_set_hcp[OF inv h])
      (use act len in \<open>auto simp: borrowed_from_def dialing_for_def clamp_def ids[symmetric]\<close>)
  then show ?thesis by (simp add: scrub_pool_def sc e)
qed

lemma pool_step_inv: "pool_step sha s s' \<Longrightarrow> pool_inv s \<Longrightarrow> pool_inv s'"
proof (induction rule: pool_step.induct)
  case (get_reuse now healthy cfg s h mc cp)
  then show ?case using pool_inv_get[OF _ get_reuse(1) generatePoolKey_ne] by simp
next
  case (get_exhausted now healthy cfg s k cp)
  then show ?case using pool_inv_get[OF _ get_exhausted(1) generatePoolKey_ne] by simp
next
  case (get_dial now healthy cfg s h k cp)
  then show ?case using pool_inv_get[OF _ get_dial(1) generatePoolKey_ne] by simp
next
  case (scrub h s now)
  then obtain k where "(k, h) \<in> set (cp_pools (ps_pool s))" by auto
  then have "gm_get (cp_pools (ps_pool s)) k = Some h"
    using pool_invD(1)[OF scrub(2)] by (auto simp: pools_ok_def gm_in_set_get)
  then show ?case using pool_invD(1)[OF scrub(2)] scrub(2) by (intro pool_inv_scrub) (auto simp: pools_ok_def)
qed (blast intro: pool_inv_dial_ok pool_inv_dial_fail pool_inv_put pool_inv_close)+

lemma cp_config_set_hcp [simp]: "cp_config (set_hcp h p cp) = cp_config cp"
  by (simp add: set_hcp_def)

lemma getOrCreate_config: "getOrCreateHostPool k cp = (h, cp') \<Longrightarrow> cp_config cp' = cp_config cp"
  by (auto simp: getOrCreateHostPool_def split: option.splits)

lemma Get_begin_config: "Get_begin now healthy k cp = (r, cp') \<Longrightarrow> cp_config cp' = cp_config cp"
  by (auto simp: Get_begin_def dest!: getOrCreate_config split: prod.splits option.splits if_splits)

lemma Put_config: "cp_config (Pool_Put now mc ok cp) = cp_config cp"
  by (auto simp: Pool_Put_def Let_def dest!: getOrCreate_config split: prod.splits option.splits)

lemma CloseConnection_config: "cp_config (CloseConnection sha cfg c cp) = cp_config cp"
  by (auto simp: CloseConnection_def Let_def dest!: getOrCreate_config split: prod.splits option.splits)

lemma scrub_config: "cp_config (scrub_pool now h cp) = cp_config cp"
  by (auto simp: scrub_pool_def split: prod.splits)

lemma pool_step_config: "pool_step sha s s' \<Longrightarrow> cp_config (ps_pool s') = cp_config (ps_pool s)"
  by (induction rule: pool_step.induct)
    (auto simp: Get_failed_def Put_config CloseConnection_config scrub_config dest: Get_begin_config)

lemma pool_reachable:
  assumes "(pool_step sha)\<^sup>*\<^sup>* (pool_start c) s"
  shows "pool_inv s \<and> cp_config (ps_pool s) = with_defaults c"
  using assms
proof (induction rule: rtranclp_induct)
  case base
  show ?case
    by (simp add: pool_start_def pool_inv_def pools_ok_def NewConnectionPool_def conn_ids_def Let_def)
next
  case (step s s')
  then show ?case using pool_step_inv pool_step_config by simp
qed


definition example_cfg :: "string \<Rightarrow> ConnectionCfg" where
  "example_cfg pwd = \<lparr>cc_Host = ''10.0.0.1'', cc_Port = 22, cc_User = ''root'', cc_Password = pwd, cc_PrivateKey = [],
     cc_PrivateKeyPath = [], cc_Timeout = 0, cc_BastionCfg = None\<rparr>"


text \<open>the key of a pool contains that there is a password and not which. A caller with a wrong
  password is handed an idle connection that was opened with the right one, without dialling, as
  long as it is fresh and answers.\<close>

theorem pool_ignores_password:
  assumes "cc_Password cfg \<noteq> []" "pwd \<noteq> []"
    and "gm_get (cp_pools cp) (generatePoolKey sha cfg) = Some h" "h < length (cp_hcps cp)"
    and "hp_idle (cp_hcps cp ! h) = mc # idle" "\<not> stale (cp_config cp) now mc" "mc_IsHealthy healthy mc"
  shows "generatePoolKey sha (cfg\<lparr>cc_Password := pwd\<rparr>) = generatePoolKey sha cfg \<and>
    fst (Pool_Get sha dialer now healthy (cfg\<lparr>cc_Password := pwd\<rparr>) cp) = Inr (mc\<lparr>mc_lastUsed := now\<rparr>)"
proof -
  have key: "generatePoolKey sha (cfg\<lparr>cc_Password := pwd\<rparr>) = generatePoolKey sha cfg"
    using assms(1,2) by (simp add: generatePoolKey_def)
  then show ?thesis
    using assms(3-7) by (simp add: Pool_Get_def key Get_begin_def getOrCreateHostPool_def)
qed

theorem pool_ignores_password_witness:
  "generatePoolKey (\<lambda>x. x) (example_cfg ''wrong'') = generatePoolKey (\<lambda>x. x) (example_cfg ''secret'') \<and>
   fst (Pool_Get (\<lambda>x. x) (\<lambda>_ _. Inl ''refused'') 5 (\<lambda>_. True) (example_cfg ''wrong'')
     (Pool_Put 5 (Some (Get_dialled 5 (generatePoolKey (\<lambda>x. x) (example_cfg ''secret'')) 1 None)) True (NewConnectionPool DefaultPoolConfig)))
   = Inr (Get_dialled 5 (generatePoolKey (\<lambda>x. x) (example_cfg ''secret'')) 1 None)"
proof -
  let ?k = "generatePoolKey (\<lambda>x. x) (example_cfg ''secret'')"
  let ?mc = "Get_dialled 5 ?k 1 None"
  let ?cp = "Pool_Put 5 (Some ?mc) True (NewConnectionPool DefaultPoolConfig)"
  have cp: "cp_pools ?cp = [(?k, 0)]" "cp_hcps ?cp = [\<lparr>hp_idle = [?mc], hp_numActive = 0\<rparr>]" "cp_config ?cp = DefaultPoolConfig"
    using generatePoolKey_ne[of "\<lambda>x. x" "example_cfg ''secret''"]
    by (simp_all add: Pool_Put_def Get_dialled_def getOrCreateHostPool_def NewConnectionPool_def with_defaults_def DefaultPoolConfig_def set_hcp_def Let_def)
  have ok: "\<not> stale (cp_config ?cp) 5 ?mc" "mc_IsHealthy (\<lambda>_. True) ?mc" "?mc\<lparr>mc_lastUsed := 5\<rparr> = ?mc"
    unfolding cp by (simp_all add: stale_def Get_dialled_def DefaultPoolConfig_def mc_IsHealthy_def)
  have cfg: "(example_cfg ''secret'')\<lparr>cc_Password := ''wrong''\<rparr> = example_cfg ''wrong''"
    "cc_Password (example_cfg ''secret'') \<noteq> []" by (simp_all add: example_cfg_def)
  have "gm_get (cp_pools ?cp) ?k = Some 0" "0 < length (cp_hcps ?cp)" "hp_idle (cp_hcps ?cp ! 0) = ?mc # []"
    unfolding cp by simp_all
  from pool_ignores_password[OF cfg(2) _ this ok(1,2), of "''wrong''" "\<lambda>_ _. Inl ''refused''"]
  show ?thesis unfolding cfg(1) ok(3) by simp
qed

end
