(* ===== verification/SshConnector.thy ===== *)
theory SshConnector
  imports Connector Pool
begin

text \<open>
  The SSH connector (\<^verbatim>\<open>connector/ssh.go\<close>): connecting and closing over the pool, the execution of a
  command with retries, the transfer of files with and without sudo, and the queries it answers by
  commands or SFTP.

  The packages \<^verbatim>\<open>golang.org/x/crypto/ssh\<close> and \<^verbatim>\<open>github.com/pkg/sftp\<close> and the remote machine behind
  them are an argument, \<open>ssh_env\<close>: functions on a world \<open>'w\<close>. A session is given to it with all that
  the code sets on it; it answers how the session ended and how many bytes of the standard input
  were taken.
\<close>

section \<open>The outside world\<close>

record ssh_session =
  ses_Ctx :: go_ctx
  ses_Env :: "(string \<times> string) list"
  ses_Cmd :: string
  ses_Stdin :: string
  ses_Stream :: stream

datatype session_end =
    NoSession string
  | NotStarted string string string
  | Interrupted string string string
  | Waited string string "error_value option"

datatype lstat_answer = StatFound FileStat | StatMissing | StatFailed string

record 'w ssh_env =
  env_dial :: "ConnectionCfg \<Rightarrow> duration \<Rightarrow> 'w \<Rightarrow> (error_value + nat \<times> nat option) \<times> 'w"
  env_close :: "nat \<Rightarrow> 'w \<Rightarrow> error_value option \<times> 'w"
  env_keepalive :: "nat \<Rightarrow> 'w \<Rightarrow> bool \<times> 'w"
  env_session :: "ssh_session \<Rightarrow> 'w \<Rightarrow> session_end \<times> nat \<times> 'w"
  env_done :: "go_ctx \<Rightarrow> 'w \<Rightarrow> bool"
    \<comment> \<open>\<^verbatim>\<open>ctx.Err() != nil\<close>\<close>
  env_after :: "go_ctx \<Rightarrow> duration \<Rightarrow> 'w \<Rightarrow> bool \<times> 'w"
    \<comment> \<open>\<^verbatim>\<open>select\<close> on a timer and the context: whether the timer came first\<close>
  env_now :: "'w \<Rightarrow> gotime"
  env_sftpNew :: "'w \<Rightarrow> string option \<times> 'w"
  env_sftpClose :: "'w \<Rightarrow> string option \<times> 'w"
  env_sftpMkdirAll :: "string \<Rightarrow> 'w \<Rightarrow> string option \<times> 'w"
  env_sftpCreate :: "string \<Rightarrow> 'w \<Rightarrow> string option \<times> 'w"
  env_sftpWrite :: "string \<Rightarrow> string \<Rightarrow> 'w \<Rightarrow> string option \<times> 'w"
  env_sftpChmod :: "string \<Rightarrow> nat \<Rightarrow> 'w \<Rightarrow> string option \<times> 'w"
  env_sftpLstat :: "string \<Rightarrow> 'w \<Rightarrow> lstat_answer \<times> 'w"
  env_sftpOpen :: "string \<Rightarrow> 'w \<Rightarrow> string option \<times> 'w"
  env_sftpReadAll :: "string \<Rightarrow> 'w \<Rightarrow> (string + string) \<times> 'w"

section \<open>Connecting\<close>

text \<open>The pool is shared; \<open>sc_pool\<close> tells whether the connector has one.\<close>

record SSHConnector =
  sc_client :: "nat option"
  sc_bastionClient :: "nat option"
  sc_sftpClient :: bool
  sc_connCfg :: ConnectionCfg
  sc_cachedOS :: "OS option"
  sc_isConnected :: bool
  sc_pool :: bool
  sc_isFromPool :: bool
  sc_managedConn :: "ManagedConnection option"

text \<open>
  \<^verbatim>\<open>Connect\<close>: \<open>get\<close> is \<^verbatim>\<open>pool.Get\<close> on the shared pool. Whatever error it returns, the pool's limit
  included, the connector dials on its own.
\<close>

definition Connect :: "'w ssh_env \<Rightarrow> (ConnectionCfg \<Rightarrow> ConnectionPool \<Rightarrow> (pool_error + ManagedConnection) \<times> ConnectionPool) \<Rightarrow>
    ConnectionCfg \<Rightarrow> SSHConnector \<Rightarrow> ConnectionPool \<Rightarrow> 'w \<Rightarrow> error_value option \<times> SSHConnector \<times> ConnectionPool \<times> 'w" where
  "Connect env get cfg c cp w =
     (let c1 = c\<lparr>sc_connCfg := cfg, sc_isFromPool := False\<rparr>;
          dial_direct = (\<lambda>cp'.
            let c2 = c1\<lparr>sc_isFromPool := False, sc_managedConn := None\<rparr> in
            case env_dial env cfg (cc_Timeout cfg) w of
              (Inl e, w1) \<Rightarrow> (Some e, c2, cp', w1)
            | (Inr (client, bastion), w1) \<Rightarrow>
                (None, c2\<lparr>sc_client := Some client, sc_bastionClient := bastion, sc_isConnected := True\<rparr>, cp', w1))
      in if sc_pool c \<and> cc_BastionCfg cfg = None
         then (case get cfg cp of
                 (Inr mc, cp') \<Rightarrow>
                   if mc_client mc \<noteq> None
                   then (None, c1\<lparr>sc_managedConn := Some mc, sc_client := mc_client mc, sc_isFromPool := True, sc_isConnected := True\<rparr>, cp', w)
                   else dial_direct cp'
               | (Inl e, cp') \<Rightarrow> dial_direct cp')
         else dial_direct cp)"

definition IsConnected :: "'w ssh_env \<Rightarrow> SSHConnector \<Rightarrow> 'w \<Rightarrow> bool \<times> SSHConnector \<times> 'w" where
  "IsConnected env c w =
     (case sc_client c of
        None \<Rightarrow> (False, c, w)
      | Some client \<Rightarrow>
          if \<not> sc_isConnected c then (False, c, w)
          else case env_keepalive env client w of
                 (True, w1) \<Rightarrow> (True, c, w1)
               | (False, w1) \<Rightarrow> (False, c\<lparr>sc_isConnected := False\<rparr>, w1))"

text \<open>\<^verbatim>\<open>Close\<close>: the first error is kept; \<open>put\<close> is \<^verbatim>\<open>pool.Put\<close> with the health it measures.\<close>

definition first_error :: "error_value option \<Rightarrow> error_value option \<Rightarrow> error_value option" where
  "first_error a b = (case a of None \<Rightarrow> b | Some e \<Rightarrow> Some e)"

definition close_opt :: "'w ssh_env \<Rightarrow> nat option \<Rightarrow> 'w \<Rightarrow> error_value option \<times> 'w" where
  "close_opt env client w = (case client of None \<Rightarrow> (None, w) | Some n \<Rightarrow> env_close env n w)"

definition Close :: "'w ssh_env \<Rightarrow> (ManagedConnection \<Rightarrow> ConnectionPool \<Rightarrow> ConnectionPool) \<Rightarrow> SSHConnector \<Rightarrow> ConnectionPool \<Rightarrow> 'w \<Rightarrow>
    error_value option \<times> SSHConnector \<times> ConnectionPool \<times> 'w" where
  "Close env put c cp w =
     (let (e1, w1) = (if sc_sftpClient c
            then (case env_sftpClose env w of (None, w') \<Rightarrow> (None, w') | (Some m, w') \<Rightarrow> (Some (Wrapf ''failed to close SFTP client'' (Errorf m)), w'))
            else (None, w));
          (e2, cp2, w2) = (case sc_client c of
              Some client \<Rightarrow>
                (case (if sc_isFromPool c \<and> sc_pool c then sc_managedConn c else None) of
                   Some mc \<Rightarrow> (None, put mc cp, w1)
                 | None \<Rightarrow>
                     (case env_close env client w1 of
                        (ec, w') \<Rightarrow> (case close_opt env (sc_bastionClient c) w' of (eb, w'') \<Rightarrow> (first_error ec eb, cp, w''))))
            | None \<Rightarrow> (case close_opt env (sc_bastionClient c) w1 of (eb, w') \<Rightarrow> (eb, cp, w')))
      in (first_error e1 e2,
          c\<lparr>sc_isConnected := False, sc_sftpClient := False, sc_client := None, sc_bastionClient := None,
            sc_managedConn := None, sc_isFromPool := False\<rparr>, cp2, w2))"

section \<open>Executing a command\<close>

text \<open>The variables that reach \<^verbatim>\<open>Setenv\<close>: those with an equals sign.\<close>

definition session_env :: "string list \<Rightarrow> (string \<times> string) list" where
  "session_env vars = concat (map (\<lambda>v. case split_at (CHR ''='') v of Some kv \<Rightarrow> [kv] | None \<Rightarrow> []) vars)"

definition sudo_password_prefix :: string where
  "sudo_password_prefix = ''sudo -S -p '' @ [sq, sq] @ '' -E -- ''"

definition sudo_prefix :: string where
  "sudo_prefix = ''sudo -E -- ''"

definition new_session :: "go_ctx \<Rightarrow> string \<Rightarrow> RunOptions \<Rightarrow> ConnectionCfg \<Rightarrow> string \<Rightarrow> ssh_session" where
  "new_session ctx cmd o' cfg stdin =
     (let finalCmd = (if ro_Dir o' \<noteq> [] then ''cd '' @ shellEscape (ro_Dir o') @ '' && '' @ cmd else cmd);
          (finalCmd, input) =
            (if ro_Sudo o'
             then (if cc_Password cfg \<noteq> [] then (sudo_password_prefix @ cmd, cc_Password cfg @ [CHR 0x0A] @ stdin)
                   else (sudo_prefix @ cmd, stdin))
             else (finalCmd, stdin))
      in \<lparr>ses_Ctx = ctx, ses_Env = session_env (ro_Env o'), ses_Cmd = finalCmd, ses_Stdin = input, ses_Stream = ro_Stream o'\<rparr>)"

definition runOnce :: "'w ssh_env \<Rightarrow> go_ctx \<Rightarrow> string \<Rightarrow> RunOptions \<Rightarrow> ConnectionCfg \<Rightarrow> string \<times> 'w \<Rightarrow>
    (string \<times> string \<times> error_value option) \<times> string \<times> 'w" where
  "runOnce env ctx cmd o' cfg s =
     (let ses = new_session ctx cmd o' cfg (fst s);
          pw = length (ses_Stdin ses) - length (fst s)
      in case env_session env ses (snd s) of
           (NoSession m, n, w) \<Rightarrow> (([], [], Some (Wrapf ''failed to create session'' (Errorf m))), fst s, w)
         | (NotStarted out err m, n, w) \<Rightarrow> ((out, err, Some (Wrapf ''failed to start command'' (Errorf m))), drop (n - pw) (fst s), w)
         | (Interrupted out err m, n, w) \<Rightarrow> ((out, err, Some (Errorf m)), drop (n - pw) (fst s), w)
         | (Waited out err e, n, w) \<Rightarrow> ((out, err, e), drop (n - pw) (fst s), w))"

definition attempt_ctx :: "go_ctx \<Rightarrow> RunOptions \<Rightarrow> go_ctx" where
  "attempt_ctx ctx o' = (if sint (ro_Timeout o') > 0 then TimeoutCtx ctx (ro_Timeout o') else ctx)"

text \<open>
  The loop over the attempts; the number counts the retries that are left. The flag tells that the
  context was done during the delay, in which case the error is returned as it is.
\<close>

definition retry_again :: "'w ssh_env \<Rightarrow> go_ctx \<Rightarrow> RunOptions \<Rightarrow> string \<times> 'w \<Rightarrow> bool \<times> string \<times> 'w" where
  "retry_again env ctx o' s =
     (if env_done env ctx (snd s) then (False, s)
      else if sint (ro_RetryDelay o') > 0
      then (case env_after env ctx (ro_RetryDelay o') (snd s) of (fired, w) \<Rightarrow> (fired, fst s, w))
      else (True, s))"

fun ssh_attempts :: "'w ssh_env \<Rightarrow> go_ctx \<Rightarrow> string \<Rightarrow> RunOptions \<Rightarrow> ConnectionCfg \<Rightarrow> nat \<Rightarrow> string \<times> 'w \<Rightarrow>
    ((string \<times> string \<times> error_value option) \<times> bool) \<times> string \<times> 'w" where
  "ssh_attempts env ctx cmd o' cfg n s =
     (case runOnce env (attempt_ctx ctx o') cmd o' cfg s of
        ((out, err, None), s1) \<Rightarrow> (((out, err, None), False), s1)
      | ((out, err, Some e), s1) \<Rightarrow>
          if env_done env ctx (snd s1) then (((out, err, Some e), False), s1)
          else (case n of
                  0 \<Rightarrow> (((out, err, Some e), False), s1)
                | Suc m \<Rightarrow>
                    if sint (ro_RetryDelay o') > 0
                    then (case env_after env ctx (ro_RetryDelay o') (snd s1) of
                            (False, w) \<Rightarrow> (((out, err, Some e), True), fst s1, w)
                          | (True, w) \<Rightarrow> ssh_attempts env ctx cmd o' cfg m (fst s1, w))
                    else ssh_attempts env ctx cmd o' cfg m s1))"

declare ssh_attempts.simps [simp del]

fun exit_code :: "error_value option \<Rightarrow> int" where
  "exit_code (Some (ExitError n)) = n"
| "exit_code _ = -1"

definition stdin_reader :: "stream \<Rightarrow> string" where
  "stdin_reader st = (case st of ReadOnlyStream content \<Rightarrow> content | _ \<Rightarrow> [])"

type_synonym 'w ssh_state = "SSHConnector \<times> 'w"

definition Exec :: "'w ssh_env \<Rightarrow> go_ctx \<Rightarrow> string \<Rightarrow> RunOptions option \<Rightarrow> 'w ssh_state \<Rightarrow>
    (string \<times> string \<times> error_value option) \<times> 'w ssh_state" where
  "Exec env ctx cmd options st =
     (case IsConnected env (fst st) (snd st) of
        (False, c, w) \<Rightarrow> (([], [], Some (ConnectionError (cc_Host (sc_connCfg c)) (Errorf ''not connected''))), c, w)
      | (True, c, w) \<Rightarrow>
          (let o' = or_zero zero_RunOptions options in
           if ro_Retries o' < 0
           then (([], [], Some (CommandError cmd (-1) [] [] None)), c, w)
           else (case ssh_attempts env ctx cmd o' (sc_connCfg c) (nat (ro_Retries o')) (stdin_reader (ro_Stream o'), w) of
                   (((out, err, None), late), rest, w') \<Rightarrow> ((out, err, None), c, w')
                 | (((out, err, Some e), True), rest, w') \<Rightarrow> ((out, err, Some e), c, w')
                 | (((out, err, Some e), False), rest, w') \<Rightarrow>
                     ((out, err, Some (CommandError cmd (exit_code (Some e)) out err (Some e))), c, w'))))"

text \<open>\<^verbatim>\<open>Run\<close>: the exit code next to the output.\<close>

definition ssh_Run :: "'w ssh_env \<Rightarrow> go_ctx \<Rightarrow> string \<Rightarrow> RunOptions option \<Rightarrow> 'w ssh_state \<Rightarrow>
    (string \<times> string \<times> int \<times> error_value option) \<times> 'w ssh_state" where
  "ssh_Run env ctx cmd opts st =
     (case Exec env ctx cmd opts st of
        ((out, err, e), st') \<Rightarrow>
          ((out, err,
            (case e of None \<Rightarrow> 0 | Some e' \<Rightarrow> (if is_CommandError e' then (case as_CommandError e' of Some n \<Rightarrow> n | None \<Rightarrow> -1) else -1)),
            e), st'))"


section \<open>Correctness of the retries\<close>

abbreviation ended_well :: "string \<times> string \<times> error_value option \<Rightarrow> bool" where
  "ended_well r \<equiv> snd (snd r) = None"

definition ssh_loop :: "'w ssh_env \<Rightarrow> go_ctx \<Rightarrow> string \<Rightarrow> RunOptions \<Rightarrow> ConnectionCfg \<Rightarrow> nat \<Rightarrow> string \<times> 'w \<Rightarrow>
    (string \<times> string \<times> error_value option) \<times> string \<times> 'w" where
  "ssh_loop env ctx cmd o' cfg n s = (case ssh_attempts env ctx cmd o' cfg n s of ((r, _), s') \<Rightarrow> (r, s'))"

interpretation ssh_retry: retry_loop "runOnce env (attempt_ctx ctx o') cmd o' cfg" ended_well "retry_again env ctx o'"
    "ssh_loop env ctx cmd o' cfg" for env ctx cmd o' cfg
proof unfold_locales
  fix s r s1 s2 n
  assume a: "runOnce env (attempt_ctx ctx o') cmd o' cfg s = (r, s1)"
  show "ended_well r \<Longrightarrow> ssh_loop env ctx cmd o' cfg n s = (r, s1)"
    using a by (cases r) (auto simp: ssh_loop_def ssh_attempts.simps[of _ _ _ _ _ n] split: option.splits)
  assume nr: "\<not> ended_well r"
  then obtain out err e where r: "r = (out, err, Some e)" by (cases r) auto
  show "\<not> ended_well (fst (ssh_loop env ctx cmd o' cfg 0 s))"
    using a r by (auto simp: ssh_loop_def ssh_attempts.simps[of _ _ _ _ _ 0])
  show "retry_again env ctx o' s1 = (True, s2) \<Longrightarrow> ssh_loop env ctx cmd o' cfg (Suc n) s = ssh_loop env ctx cmd o' cfg n s2"
    using a r by (auto simp: ssh_loop_def ssh_attempts.simps[of _ _ _ _ _ "Suc n"] retry_again_def split: if_splits prod.splits)
  show "retry_again env ctx o' s1 = (False, s2) \<Longrightarrow> \<not> ended_well (fst (ssh_loop env ctx cmd o' cfg n s))"
    using a r by (cases n) (auto simp: ssh_loop_def ssh_attempts.simps[of _ _ _ _ _ 0] ssh_attempts.simps[of _ _ _ _ _ "Suc m" for m] retry_again_def split: if_splits prod.splits)
qed

text \<open>How the answer of \<open>Exec\<close> comes from the loop.\<close>

lemma Exec_loop:
  assumes "IsConnected env c w = (True, c', w')" "0 \<le> ro_Retries (or_zero zero_RunOptions options)"
  shows "ended_well (fst (Exec env ctx cmd options (c, w))) \<longleftrightarrow>
      ended_well (fst (ssh_loop env ctx cmd (or_zero zero_RunOptions options) (sc_connCfg c')
        (nat (ro_Retries (or_zero zero_RunOptions options))) (stdin_reader (ro_Stream (or_zero zero_RunOptions options)), w')))"
  using assms by (auto simp: Exec_def ssh_loop_def Let_def split: prod.splits option.splits bool.splits)

text \<open>C17: On a connected client a command succeeds exactly when one of the first \<open>Retries + 1\<close> attempts
  does, an attempt being made only while all before it failed, the context was not done and the delays
  ran to their end.\<close>

theorem Exec_succeeds_iff:
  assumes "IsConnected env c w = (True, c', w')" "0 \<le> ro_Retries o'"
  shows "ended_well (fst (Exec env ctx cmd (Some o') (c, w))) \<longleftrightarrow>
      (\<exists>k \<le> nat (ro_Retries o'). \<exists>sk.
         after_failures (runOnce env (attempt_ctx ctx o') cmd o' (sc_connCfg c')) ended_well (retry_again env ctx o') k
           (stdin_reader (ro_Stream o'), w') = Some sk \<and>
         ended_well (fst (runOnce env (attempt_ctx ctx o') cmd o' (sc_connCfg c') sk)))"
  using Exec_loop[OF assms(1), of "Some o'"] assms(2) ssh_retry.succeeds_iff by simp

definition demo_ssh_env :: "nat ssh_env" where
  "demo_ssh_env =
     \<lparr>env_dial = (\<lambda>cfg t w. (Inr (w, None), Suc w)), env_close = (\<lambda>n w. (None, w)), env_keepalive = (\<lambda>n w. (True, w)),
      env_session = (\<lambda>ses w. (if w = 0 then NoSession ''busy'' else Waited [] [] None, 0, Suc w)), env_done = (\<lambda>ctx w. False),
      env_after = (\<lambda>ctx d w. (True, w)), env_now = (\<lambda>w. 7), env_sftpNew = (\<lambda>w. (None, w)), env_sftpClose = (\<lambda>w. (None, w)),
      env_sftpMkdirAll = (\<lambda>p w. (None, w)), env_sftpCreate = (\<lambda>p w. (None, w)), env_sftpWrite = (\<lambda>p c w. (None, w)),
      env_sftpChmod = (\<lambda>p m w. (None, w)), env_sftpLstat = (\<lambda>p w. (StatMissing, w)), env_sftpOpen = (\<lambda>p w. (None, w)),
      env_sftpReadAll = (\<lambda>p w. (Inr [], w))\<rparr>"

definition demo_cfg :: ConnectionCfg where
  "demo_cfg = \<lparr>cc_Host = ''node1'', cc_Port = 22, cc_User = ''root'', cc_Password = [], cc_PrivateKey = [], cc_PrivateKeyPath = ''/id'',
     cc_Timeout = 1, cc_BastionCfg = None\<rparr>"

definition demo_ssh :: SSHConnector where
  "demo_ssh = \<lparr>sc_client = Some 0, sc_bastionClient = None, sc_sftpClient = False, sc_connCfg = demo_cfg, sc_cachedOS = None,
     sc_isConnected = True, sc_pool = True, sc_isFromPool = False, sc_managedConn = None\<rparr>"

lemma demo_connected: "IsConnected demo_ssh_env demo_ssh w = (True, demo_ssh, w)"
  by (simp add: IsConnected_def demo_ssh_def demo_ssh_env_def)

text \<open>The first attempt finds no session, the second succeeds.\<close>

theorem Exec_succeeds_iff_witness:
  "ended_well (fst (Exec demo_ssh_env CallerCtx ''true'' (Some ((sudo_options False)\<lparr>ro_Retries := 1\<rparr>)) (demo_ssh, 0)))"
proof -
  let ?o = "(sudo_options False)\<lparr>ro_Retries := 1\<rparr>"
  have fails: "runOnce demo_ssh_env (attempt_ctx CallerCtx ?o) ''true'' ?o cfg ([], 0) = (([], [], Some (Wrapf ''failed to create session'' (Errorf ''busy''))), [], 1)"
    and works: "runOnce demo_ssh_env (attempt_ctx CallerCtx ?o) ''true'' ?o cfg ([], 1) = (([], [], None), [], 2)" for cfg
    by (simp_all add: runOnce_def demo_ssh_env_def)
  have go: "retry_again demo_ssh_env CallerCtx ?o s = (True, s)" for s
    by (simp add: retry_again_def demo_ssh_env_def sudo_options_def zero_RunOptions_def)
  have "after_failures (runOnce demo_ssh_env (attempt_ctx CallerCtx ?o) ''true'' ?o (sc_connCfg demo_ssh)) ended_well (retry_again demo_ssh_env CallerCtx ?o) 1
      (stdin_reader (ro_Stream ?o), 0) = Some ([], 1)"
    by (simp add: stdin_reader_def fails go sudo_options_def zero_RunOptions_def)
       (use fails[of "sc_connCfg demo_ssh"] go[of "([], 1)"] in \<open>simp add: sudo_options_def zero_RunOptions_def\<close>)
  with works[of "sc_connCfg demo_ssh"] show ?thesis
    using Exec_succeeds_iff[OF demo_connected, of ?o CallerCtx "''true''" 0] by (auto intro!: exI[of _ 1])
qed

text \<open>The kind of an error: without a delay between attempts every failure becomes a \<open>CommandError\<close>.\<close>

lemma ssh_attempts_not_late:
  "sint (ro_RetryDelay o') \<le> 0 \<Longrightarrow> snd (fst (ssh_attempts env ctx cmd o' cfg n s)) = False"
  by (induction env ctx cmd o' cfg n s rule: ssh_attempts.induct)
    (subst ssh_attempts.simps, auto split: prod.splits option.splits nat.splits)

lemma Exec_error_kind:
  assumes "IsConnected env c w = (True, c', w')" "sint (ro_RetryDelay o') \<le> 0"
    and "Exec env ctx cmd (Some o') (c, w) = ((out, err, Some e), st')"
  shows "is_CommandError e"
proof (cases "ro_Retries o' < 0")
  case True
  with assms show ?thesis by (auto simp: Exec_def)
next
  case False
  let ?r = "ssh_attempts env ctx cmd o' (sc_connCfg c') (nat (ro_Retries o')) (stdin_reader (ro_Stream o'), w')"
  obtain out' err' e' late rest w'' where r: "?r = (((out', err', e'), late), rest, w'')" by (metis prod.exhaust)
  have "late = False" using ssh_attempts_not_late[OF assms(2), of env ctx cmd "sc_connCfg c'" "nat (ro_Retries o')"] r by (metis fst_conv snd_conv)
  with False assms r show ?thesis by (cases e') (auto simp: Exec_def)
qed

text \<open>With sudo the directory of the options plays no part in the session.\<close>

lemma new_session_sudo_Dir:
  "ro_Sudo o' \<Longrightarrow> new_session ctx cmd (o'\<lparr>ro_Dir := d\<rparr>) cfg stdin = new_session ctx cmd o' cfg stdin"
  by (simp add: new_session_def)

section \<open>Connecting over the pool\<close>

text \<open>A connection taken from the pool is given back to it by \<open>Close\<close>, and nothing is dialled or closed.\<close>

lemma Connect_Close_pooled:
  assumes "sc_pool c" "cc_BastionCfg cfg = None" "get cfg cp = (Inr mc, cp1)" "mc_client mc \<noteq> None" "\<not> sc_sftpClient c"
    and "Connect env get cfg c cp w = (e, c1, cp2, w1)"
  shows "e = None \<and> cp2 = cp1 \<and> w1 = w \<and> (\<exists>c2. Close env put c1 cp3 w3 = (None, c2, put mc cp3, w3) \<and> sc_client c2 = None)"
  using assms by (auto simp: Connect_def Close_def Let_def first_error_def)

text \<open>The limit of the pool does not limit the connections: when \<^verbatim>\<open>Get\<close> reports the pool exhausted, \<^verbatim>\<open>Connect\<close> dials on
  its own and, if the dialler answers, the connector is connected with a client the pool does not count.\<close>

theorem Connect_bypasses_pool_limit:
  assumes "sc_pool c" "cc_BastionCfg cfg = None"
    and "Pool_Get sha dialer now healthy cfg cp = (Inl (ErrPoolExhausted k), cp1)"
    and "env_dial env cfg (cc_Timeout cfg) w = (Inr (client, bastion), w1)"
  shows "\<exists>c1. Connect env (Pool_Get sha dialer now healthy) cfg c cp w = (None, c1, cp1, w1) \<and>
           sc_client c1 = Some client \<and> sc_isConnected c1 \<and> \<not> sc_isFromPool c1"
  using assms by (simp add: Connect_def Let_def)

definition full_pool :: ConnectionPool where
  "full_pool = NewConnectionPool (DefaultPoolConfig\<lparr>pc_MaxPerKey := -1\<rparr>)"

lemma full_pool_exhausted:
  "\<exists>cp1. Pool_Get sha dialer now healthy cfg full_pool = (Inl (ErrPoolExhausted (generatePoolKey sha cfg)), cp1)"
  by (simp add: Pool_Get_def Get_begin_def full_pool_def NewConnectionPool_def with_defaults_def DefaultPoolConfig_def
      getOrCreateHostPool_def Let_def)

theorem Connect_bypasses_pool_limit_witness:
  "\<exists>c1 cp1. Connect demo_ssh_env (Pool_Get id (\<lambda>_ _. Inl []) 0 (\<lambda>_. True)) demo_cfg demo_ssh full_pool 5 = (None, c1, cp1, 6) \<and>
     sc_client c1 = Some 5 \<and> sc_isConnected c1 \<and> \<not> sc_isFromPool c1"
proof -
  obtain cp1 where "Pool_Get id (\<lambda>_ _. Inl []) 0 (\<lambda>_. True) demo_cfg full_pool = (Inl (ErrPoolExhausted (generatePoolKey id demo_cfg)), cp1)"
    using full_pool_exhausted by blast
  from Connect_bypasses_pool_limit[OF _ _ this, of demo_ssh demo_ssh_env 5 5 None 6] show ?thesis
    by (auto simp: demo_ssh_def demo_cfg_def demo_ssh_env_def)
qed

text \<open>A second \<^verbatim>\<open>Connect\<close> forgets the connection of the first: it is never given back.\<close>

lemma reconnect_forgets_connection:
  assumes "sc_pool c" "cc_BastionCfg cfg = None" "get cfg cp = (Inr mc, cp1)" "mc_client mc \<noteq> None"
    and "get cfg cp1 = (Inr mc', cp2)" "mc_client mc' \<noteq> None"
    and "Connect env get cfg c cp w = (e1, c1, cpa, w1)" "Connect env get cfg c1 cpa w1 = (e2, c2, cpb, w2)"
  shows "sc_managedConn c2 = Some mc' \<and> cpb = cp2"
  using assms by (auto simp: Connect_def Let_def)

end
