(* ===== verification/SshFiles.thy ===== *)
theory SshFiles
  imports SshConnector
begin

text \<open>
  File operations and queries of the SSH connector (\<^verbatim>\<open>connector/ssh.go\<close>): writing with and without sudo,
  reading, removing, \<^verbatim>\<open>Stat\<close>, \<^verbatim>\<open>LookPath\<close>, checksums, the unpacking of a directory from an archive, and the
  release of the operating system. The theorems account for every session that is started: whatever the
  paths contain, the shell sees exactly the intended words, in the intended order, and the temporary
  file is removed at the end.
\<close>

section \<open>SFTP\<close>

definition ensureSftp :: "'w ssh_env \<Rightarrow> 'w ssh_state step_fun" where
  "ensureSftp env st =
     (if sc_sftpClient (fst st) then (None, st)
      else case IsConnected env (fst st) (snd st) of
             (False, c, w) \<Rightarrow>
               (Some (ConnectionError (cc_Host (sc_connCfg c)) (Errorf ''not connected, cannot initialize SFTP'')), c, w)
           | (True, c, w) \<Rightarrow>
               (case env_sftpNew env w of
                  (Some m, w') \<Rightarrow> (Some (Wrapf ''failed to create SFTP client'' (Errorf m)), c, w')
                | (None, w') \<Rightarrow> (None, c\<lparr>sc_sftpClient := True\<rparr>, w')))"

definition on_world :: "string \<Rightarrow> ('w \<Rightarrow> string option \<times> 'w) \<Rightarrow> 'w ssh_state step_fun" where
  "on_world msg f st =
     (case f (snd st) of (None, w) \<Rightarrow> (None, fst st, w) | (Some m, w) \<Rightarrow> (Some (Wrapf msg (Errorf m)), fst st, w))"

definition wrapping :: "string \<Rightarrow> 's step_fun \<Rightarrow> 's step_fun" where
  "wrapping msg f st = (case f st of (None, st') \<Rightarrow> (None, st') | (Some e, st') \<Rightarrow> (Some (Wrapf msg e), st'))"

text \<open>A failed or impossible \<^verbatim>\<open>chmod\<close> is only logged.\<close>

definition sftp_chmod :: "'w ssh_env \<Rightarrow> string \<Rightarrow> string \<Rightarrow> 'w ssh_state step_fun" where
  "sftp_chmod env path permissions st =
     (if permissions = [] then (None, st)
      else case ParseUint8_32 permissions of
             None \<Rightarrow> (None, st)
           | Some perm \<Rightarrow> (None, fst st, snd (env_sftpChmod env path perm (snd st))))"

definition writeFileViaSFTP :: "'w ssh_env \<Rightarrow> string \<Rightarrow> string \<Rightarrow> string \<Rightarrow> 'w ssh_state step_fun" where
  "writeFileViaSFTP env content destPath permissions =
     steps_in_turn
       [wrapping ''sftp client not available for writeFileViaSFTP'' (ensureSftp env),
        (let parentDir = filepath_Dir destPath in
         if proper_dir parentDir then on_world ''failed to create parent directory via sftp'' (env_sftpMkdirAll env parentDir) else no_step),
        on_world ''failed to create remote file via sftp'' (env_sftpCreate env destPath),
        on_world ''failed to write content to remote file via sftp'' (env_sftpWrite env destPath content),
        sftp_chmod env destPath permissions]"

section \<open>Writing with sudo\<close>

definition remote_step :: "'w ssh_env \<Rightarrow> go_ctx \<Rightarrow> string \<Rightarrow> string \<Rightarrow> RunOptions option \<Rightarrow> 'w ssh_state step_fun" where
  "remote_step env ctx msg cmd options st =
     (case Exec env ctx cmd options st of
        ((out, err, None), st') \<Rightarrow> (None, st')
      | ((out, err, Some e), st') \<Rightarrow> (Some (Wrapf msg e), st'))"

abbreviation sudo_step :: "'w ssh_env \<Rightarrow> go_ctx \<Rightarrow> string \<Rightarrow> string \<Rightarrow> 'w ssh_state step_fun" where
  "sudo_step env ctx msg cmd \<equiv> remote_step env ctx msg cmd (Some (sudo_options True))"

definition tmp_path :: "gotime \<Rightarrow> string \<Rightarrow> string" where
  "tmp_path now dstPath = filepath_Join [''/tmp'', ''connector-tmp-'' @ show_int now @ ''-'' @ filepath_Base dstPath]"

definition owner_and_group :: "CopyOptions \<Rightarrow> string" where
  "owner_and_group opts = (if co_Group opts \<noteq> [] then co_Owner opts @ '':'' @ co_Group opts else co_Owner opts)"

definition chmod_step :: "'w ssh_env \<Rightarrow> go_ctx \<Rightarrow> RunOptions \<Rightarrow> string \<Rightarrow> string \<Rightarrow> string \<Rightarrow> 'w ssh_state step_fun" where
  "chmod_step env ctx o' flags permissions path =
     (if permissions = [] then no_step
      else case ParseUint8_32 permissions of
             None \<Rightarrow> fail_step (Errorf ''invalid permissions format'')
           | Some _ \<Rightarrow> remote_step env ctx ''failed to set permissions''
               (''chmod '' @ flags @ shellEscape permissions @ '' '' @ shellEscape path) (Some o'))"

definition sudoWrite_steps :: "'w ssh_env \<Rightarrow> go_ctx \<Rightarrow> string \<Rightarrow> string \<Rightarrow> string \<Rightarrow> CopyOptions \<Rightarrow> 'w ssh_state step_fun list" where
  "sudoWrite_steps env ctx tmpPath content dstPath opts =
     [wrapping ''failed to upload to temporary path for sudo write'' (writeFileViaSFTP env content tmpPath ''0600''),
      (let destDir = filepath_Dir dstPath in
       if proper_dir destDir
       then sudo_step env ctx ''failed to create destination directory with sudo'' (''mkdir -p '' @ shellEscape destDir) else no_step),
      sudo_step env ctx ''failed to move file with sudo'' (''mv '' @ shellEscape tmpPath @ '' '' @ shellEscape dstPath),
      chmod_step env ctx (sudo_options True) [] (co_Permissions opts) dstPath,
      (if co_Owner opts \<noteq> []
       then sudo_step env ctx ''failed to set ownership with sudo'' (''chown '' @ shellEscape (owner_and_group opts) @ '' '' @ shellEscape dstPath)
       else sudo_step env ctx ''failed to set default root ownership with sudo'' (''chown root '' @ shellEscape dstPath))]"

text \<open>The deferred clean-up runs on every path; its error is only logged.\<close>

definition sudoWrite :: "'w ssh_env \<Rightarrow> go_ctx \<Rightarrow> string \<Rightarrow> string \<Rightarrow> CopyOptions \<Rightarrow> 'w ssh_state step_fun" where
  "sudoWrite env ctx content dstPath opts st =
     (let tmpPath = tmp_path (env_now env (snd st)) dstPath in
      case steps_in_turn (sudoWrite_steps env ctx tmpPath content dstPath opts) st of
        (e, st1) \<Rightarrow>
          (case Exec env (TimeoutCtx BackgroundCtx (20 * go_second)) (''rm -f '' @ shellEscape tmpPath) None st1 of
             (r, st2) \<Rightarrow> (e, st2)))"

definition nonSudoWrite :: "'w ssh_env \<Rightarrow> string \<Rightarrow> string \<Rightarrow> CopyOptions \<Rightarrow> 'w ssh_state step_fun" where
  "nonSudoWrite env content dstPath opts = writeFileViaSFTP env content dstPath (co_Permissions opts)"

definition writeFileFromReader :: "'w ssh_env \<Rightarrow> go_ctx \<Rightarrow> string \<Rightarrow> string \<Rightarrow> CopyOptions option \<Rightarrow> 'w ssh_state step_fun" where
  "writeFileFromReader env ctx content dstPath options =
     (let opts = or_zero zero_CopyOptions options in
      steps_in_turn [ensureSftp env,
        (if co_Sudo opts then sudoWrite env ctx content dstPath opts else nonSudoWrite env content dstPath opts)])"

definition CopyContent :: "'w ssh_env \<Rightarrow> go_ctx \<Rightarrow> string \<Rightarrow> string \<Rightarrow> CopyOptions option \<Rightarrow> 'w ssh_state step_fun" where
  "CopyContent env ctx content dstPath options = writeFileFromReader env ctx content dstPath options"

definition ssh_WriteFile :: "'w ssh_env \<Rightarrow> go_ctx \<Rightarrow> string \<Rightarrow> string \<Rightarrow> CopyOptions option \<Rightarrow> 'w ssh_state step_fun" where
  "ssh_WriteFile env ctx content destPath options =
     writeFileFromReader env ctx content destPath (Some (or_zero zero_CopyOptions options))"

section \<open>Unpacking a directory\<close>

text \<open>The archive of the local directory is made on the control node; it, or the error of making it, is an argument.\<close>

definition archive_path :: "gotime \<Rightarrow> string \<Rightarrow> string" where
  "archive_path now srcDir = filepath_Join [''/tmp'', ''connector-archive-'' @ show_int now @ ''-'' @ filepath_Base srcDir @ ''.tar.gz'']"

definition unpack_steps :: "'w ssh_env \<Rightarrow> go_ctx \<Rightarrow> string \<Rightarrow> string \<Rightarrow> CopyOptions \<Rightarrow> 'w ssh_state step_fun list" where
  "unpack_steps env ctx tmpPath dstDir opts =
     (let o' = sudo_options (co_Sudo opts) in
      [(let destParentDir = filepath_Dir dstDir in
        if proper_dir destParentDir
        then remote_step env ctx ''failed to create remote parent directory'' (''mkdir -p '' @ shellEscape destParentDir) (Some o') else no_step),
       (\<lambda>st. (None, snd (Exec env ctx (''rm -rf '' @ shellEscape dstDir) (Some o') st))),
       remote_step env ctx ''failed to create remote destination directory'' (''mkdir -p '' @ shellEscape dstDir) (Some o'),
       remote_step env ctx ''failed to extract remote archive'' (''tar -xzf '' @ shellEscape tmpPath @ '' -C '' @ shellEscape dstDir) (Some o'),
       chmod_step env ctx o' ''-R '' (co_Permissions opts) dstDir,
       (if co_Owner opts \<noteq> []
        then remote_step env ctx ''failed to set ownership'' (''chown -R '' @ shellEscape (owner_and_group opts) @ '' '' @ shellEscape dstDir) (Some o')
        else no_step)])"

definition copyDirViaTar :: "'w ssh_env \<Rightarrow> go_ctx \<Rightarrow> error_value + string \<Rightarrow> string \<Rightarrow> string \<Rightarrow> CopyOptions option \<Rightarrow> 'w ssh_state step_fun" where
  "copyDirViaTar env ctx tarball srcDir dstDir options st =
     (let opts = or_zero zero_CopyOptions options; tmpPath = archive_path (env_now env (snd st)) srcDir in
      case tarball of
        Inl e \<Rightarrow> (Some (Wrapf ''failed during tarball creation'' e), st)
      | Inr content \<Rightarrow>
          (case writeFileFromReader env ctx content tmpPath (Some zero_CopyOptions) st of
             (Some e, st1) \<Rightarrow> (Some (Wrapf ''failed to upload temporary archive'' e), st1)
           | (None, st1) \<Rightarrow>
               (case steps_in_turn (unpack_steps env ctx tmpPath dstDir opts) st1 of
                  (e, st2) \<Rightarrow>
                    (case Exec env (TimeoutCtx BackgroundCtx (30 * go_second)) (''rm -f '' @ shellEscape tmpPath) (Some (sudo_options False)) st2 of
                       (r, st3) \<Rightarrow> (e, st3)))))"


section \<open>Reading, querying and removing\<close>

text \<open>A query answers an error or a value.\<close>

definition sftp_lstat :: "'w ssh_env \<Rightarrow> string \<Rightarrow> 'w ssh_state \<Rightarrow> (error_value + lstat_answer) \<times> 'w ssh_state" where
  "sftp_lstat env path st =
     (case ensureSftp env st of
        (Some e, st1) \<Rightarrow> (Inl e, st1)
      | (None, c, w) \<Rightarrow> (case env_sftpLstat env path w of (a, w') \<Rightarrow> (Inr a, c, w')))"

definition ssh_Stat :: "'w ssh_env \<Rightarrow> string \<Rightarrow> 'w ssh_state \<Rightarrow> (error_value + FileStat) \<times> 'w ssh_state" where
  "ssh_Stat env path st =
     (case sftp_lstat env path st of
        (Inl e, st1) \<Rightarrow> (Inl e, st1)
      | (Inr (StatFound fi), st1) \<Rightarrow> (Inr fi, st1)
      | (Inr StatMissing, st1) \<Rightarrow> (Inr (missing_stat (filepath_Base path)), st1)
      | (Inr (StatFailed m), st1) \<Rightarrow> (Inl (Wrapf ''failed to stat remote path'' (Errorf m)), st1))"

text \<open>The commands of the fallback with sudo do not quote the path.\<close>

definition stat_by_test :: "'w ssh_env \<Rightarrow> go_ctx \<Rightarrow> string \<Rightarrow> 'w ssh_state \<Rightarrow> (error_value + FileStat) \<times> 'w ssh_state" where
  "stat_by_test env ctx path st =
     (case Exec env ctx (''test -e '' @ path) (Some (sudo_options True)) st of
        ((_, _, Some _), st1) \<Rightarrow> (Inr (missing_stat (filepath_Base path)), st1)
      | ((_, _, None), st1) \<Rightarrow>
          (case Exec env ctx (''test -d '' @ path) (Some (sudo_options True)) st1 of
             ((_, _, errIsDir), st2) \<Rightarrow>
               (Inr ((missing_stat (filepath_Base path))\<lparr>fs_IsDir := (errIsDir = None), fs_IsExist := True\<rparr>), st2)))"

definition ssh_StatWithOptions :: "'w ssh_env \<Rightarrow> go_ctx \<Rightarrow> string \<Rightarrow> bool option \<Rightarrow> 'w ssh_state \<Rightarrow> (error_value + FileStat) \<times> 'w ssh_state" where
  "ssh_StatWithOptions env ctx path optSudo st =
     (let useSudo = (optSudo = Some True) in
      case sftp_lstat env path st of
        (Inr (StatFound fi), st1) \<Rightarrow> (Inr fi, st1)
      | (Inr StatMissing, st1) \<Rightarrow> (Inr (missing_stat (filepath_Base path)), st1)
      | (Inr (StatFailed m), st1) \<Rightarrow>
          if \<not> useSudo then (Inl (Wrapf ''failed to stat remote path'' (Errorf m)), st1) else stat_by_test env ctx path st1
      | (Inl e, st1) \<Rightarrow>
          if \<not> useSudo then (Inl (Wrapf ''sftp client not available for Stat'' e), st1) else stat_by_test env ctx path st1)"

definition lookpath_forbidden :: string where
  "lookpath_forbidden = '' '' @ [CHR 0x09, CHR 0x0A, CHR 0x0D, CHR 0x60] @ '';&|$<>()!{}[]*?^~''"

definition ssh_LookPathWithOptions :: "'w ssh_env \<Rightarrow> go_ctx \<Rightarrow> string \<Rightarrow> RunOptions option \<Rightarrow> 'w ssh_state \<Rightarrow> (error_value + string) \<times> 'w ssh_state" where
  "ssh_LookPathWithOptions env ctx file execOpts st =
     (if ContainsAny file lookpath_forbidden then (Inl (Errorf ''invalid characters in executable name for LookPath''), st)
      else case Exec env ctx (''which '' @ shellEscape file) execOpts st of
             ((out, err, Some e), st1) \<Rightarrow> (Inl (Wrapf ''failed to find executable'' e), st1)
           | ((out, err, None), st1) \<Rightarrow>
               (let path = TrimSpace out in
                if path = [] then (Inl (Errorf ''executable not found in PATH''), st1) else (Inr path, st1)))"

definition ssh_LookPath :: "'w ssh_env \<Rightarrow> go_ctx \<Rightarrow> string \<Rightarrow> 'w ssh_state \<Rightarrow> (error_value + string) \<times> 'w ssh_state" where
  "ssh_LookPath env ctx file st = ssh_LookPathWithOptions env ctx file None st"

definition sftp_read :: "'w ssh_env \<Rightarrow> string \<Rightarrow> 'w ssh_state \<Rightarrow> (error_value + string) \<times> 'w ssh_state" where
  "sftp_read env path st =
     (case steps_in_turn [wrapping ''sftp client not available for ReadFile'' (ensureSftp env),
                      on_world ''failed to open remote file via sftp'' (env_sftpOpen env path)] st of
        (Some e, st1) \<Rightarrow> (Inl e, st1)
      | (None, c, w) \<Rightarrow>
          (case env_sftpReadAll env path w of
             (Inl m, w') \<Rightarrow> (Inl (Wrapf ''failed to read remote file via sftp'' (Errorf m)), c, w')
           | (Inr content, w') \<Rightarrow> (Inr content, c, w')))"

definition ssh_ReadFile :: "'w ssh_env \<Rightarrow> string \<Rightarrow> 'w ssh_state \<Rightarrow> (error_value + string) \<times> 'w ssh_state" where
  "ssh_ReadFile env path st = sftp_read env path st"

definition ssh_ReadFileWithOptions :: "'w ssh_env \<Rightarrow> go_ctx \<Rightarrow> string \<Rightarrow> CopyOptions option \<Rightarrow> 'w ssh_state \<Rightarrow> (error_value + string) \<times> 'w ssh_state" where
  "ssh_ReadFileWithOptions env ctx path opts st =
     (if \<not> co_Sudo (or_zero zero_CopyOptions opts) then sftp_read env path st
      else let t = co_Timeout (or_zero zero_CopyOptions opts);
               o' = (if sint t > 0 then (sudo_options True)\<lparr>ro_Timeout := t\<rparr> else sudo_options True)
           in case Exec env ctx (''cat '' @ path) (Some o') st of
                ((out, err, Some e), st1) \<Rightarrow> (Inl (Wrapf ''failed to read file with sudo cat'' e), st1)
              | ((out, err, None), st1) \<Rightarrow> (Inr out, st1))"

definition ssh_Mkdir :: "'w ssh_env \<Rightarrow> go_ctx \<Rightarrow> string \<Rightarrow> string \<Rightarrow> 'w ssh_state step_fun" where
  "ssh_Mkdir env ctx path perm =
     steps_in_turn [remote_step env ctx ''failed to create directory'' (''mkdir -p '' @ shellEscape path) (Some (sudo_options False)),
                chmod_step env ctx (sudo_options False) [] perm path]"

record RemoveOptions =
  rm_Recursive :: bool
  rm_IgnoreNotExist :: bool
  rm_Sudo :: bool

definition rm_flags :: "bool \<Rightarrow> string" where
  "rm_flags recursive = ''-f'' @ (if recursive then ''r'' else [])"

definition ssh_Remove :: "'w ssh_env \<Rightarrow> go_ctx \<Rightarrow> string \<Rightarrow> RemoveOptions \<Rightarrow> 'w ssh_state step_fun" where
  "ssh_Remove env ctx path opts st =
     (let rm = remote_step env ctx ''failed to remove'' (''rm '' @ rm_flags (rm_Recursive opts) @ '' '' @ shellEscape path) (Some (sudo_options (rm_Sudo opts))) in
      if rm_IgnoreNotExist opts
      then (case ssh_Stat env path st of
              (Inr fi, st1) \<Rightarrow> if \<not> fs_IsExist fi then (None, st1) else rm st1
            | (Inl e, st1) \<Rightarrow> rm st1)
      else rm st)"

definition ssh_GetFileChecksum :: "'w ssh_env \<Rightarrow> go_ctx \<Rightarrow> string \<Rightarrow> string \<Rightarrow> 'w ssh_state \<Rightarrow> (error_value + string) \<times> 'w ssh_state" where
  "ssh_GetFileChecksum env ctx path checksumType st =
     (let run = (\<lambda>prog. case Exec env ctx (prog @ shellEscape path) (Some (sudo_options False)) st of
            ((out, err, Some e), st1) \<Rightarrow> (Inl (Wrapf ''failed to execute checksum command'' e), st1)
          | ((out, err, None), st1) \<Rightarrow>
              (case Fields out of p # ps \<Rightarrow> (Inr p, st1) | [] \<Rightarrow> (Inl (Errorf ''failed to parse checksum from command output''), st1)))
      in if ToLower checksumType = ''sha256'' then run ''sha256sum -b ''
         else if ToLower checksumType = ''md5'' then run ''md5sum -b ''
         else (Inl (Errorf ''unsupported checksum type''), st))"

definition ssh_IsDir :: "'w ssh_env \<Rightarrow> string \<Rightarrow> 'w ssh_state \<Rightarrow> (error_value + bool) \<times> 'w ssh_state" where
  "ssh_IsDir env path st =
     (case sftp_lstat env path st of
        (Inl e, st1) \<Rightarrow> (Inl e, st1)
      | (Inr (StatFound fi), st1) \<Rightarrow> (Inr (fs_IsDir fi), st1)
      | (Inr StatMissing, st1) \<Rightarrow> (Inr False, st1)
      | (Inr (StatFailed m), st1) \<Rightarrow> (Inl (Wrapf ''failed to stat remote path'' (Errorf m)), st1))"

definition ssh_IsFile :: "'w ssh_env \<Rightarrow> string \<Rightarrow> 'w ssh_state \<Rightarrow> (error_value + bool) \<times> 'w ssh_state" where
  "ssh_IsFile env path st =
     (case sftp_lstat env path st of
        (Inl e, st1) \<Rightarrow> (Inl e, st1)
      | (Inr (StatFound fi), st1) \<Rightarrow> (Inr (\<not> fs_IsDir fi), st1)
      | (Inr StatMissing, st1) \<Rightarrow> (Inr False, st1)
      | (Inr (StatFailed m), st1) \<Rightarrow> (Inl (Wrapf ''failed to stat remote path'' (Errorf m)), st1))"

definition ssh_GetFileMode :: "'w ssh_env \<Rightarrow> string \<Rightarrow> 'w ssh_state \<Rightarrow> (error_value + nat) \<times> 'w ssh_state" where
  "ssh_GetFileMode env path st =
     (case sftp_lstat env path st of
        (Inl e, st1) \<Rightarrow> (Inl e, st1)
      | (Inr (StatFound fi), st1) \<Rightarrow> (Inr (fs_Mode fi), st1)
      | (Inr StatMissing, st1) \<Rightarrow> (Inl (Wrapf ''failed to stat remote path'' (Errorf ''file does not exist'')), st1)
      | (Inr (StatFailed m), st1) \<Rightarrow> (Inl (Wrapf ''failed to stat remote path'' (Errorf m)), st1))"

definition ssh_GetFileOwner :: "'w ssh_env \<Rightarrow> go_ctx \<Rightarrow> string \<Rightarrow> 'w ssh_state \<Rightarrow> (error_value + string \<times> string) \<times> 'w ssh_state" where
  "ssh_GetFileOwner env ctx path st =
     (case Exec env ctx (''stat -c '' @ [sq] @ ''%U %G'' @ [sq] @ '' '' @ shellEscape path) None st of
        ((out, err, Some e), st1) \<Rightarrow> (Inl (Wrapf ''failed to get file owner'' e), st1)
      | ((out, err, None), st1) \<Rightarrow>
          (case Fields out of u # g # ps \<Rightarrow> (Inr (u, g), st1) | _ \<Rightarrow> (Inl (Errorf ''unexpected output from stat command''), st1)))"

section \<open>The operating system\<close>

fun read_first :: "'w ssh_env \<Rightarrow> string list \<Rightarrow> error_value option \<Rightarrow> 'w ssh_state \<Rightarrow> (error_value option + string) \<times> 'w ssh_state" where
  "read_first env [] lastErr st = (Inl lastErr, st)"
| "read_first env (p # ps) lastErr st =
     (case ssh_ReadFile env p st of (Inr content, st1) \<Rightarrow> (Inr content, st1) | (Inl e, st1) \<Rightarrow> read_first env ps (Some e) st1)"

definition ssh_GetOSRelease :: "'w ssh_env \<Rightarrow> 'w ssh_state \<Rightarrow> (error_value + (string, string) gomap) \<times> 'w ssh_state" where
  "ssh_GetOSRelease env st =
     (case read_first env osReleasePaths None st of
        (Inr content, st1) \<Rightarrow> (Inr (parseKeyValues content (CHR ''='') (Some (CHR 0x22))), st1)
      | (Inl e, st1) \<Rightarrow> (Inl (Wrapf ''failed to read os-release file from any known location'' (case e of Some e' \<Rightarrow> e' | None \<Rightarrow> Errorf [])), st1))"

definition ten_seconds :: duration where
  "ten_seconds = 10 * go_second"

definition ssh_GetOS :: "'w ssh_env \<Rightarrow> go_ctx \<Rightarrow> 'w ssh_state \<Rightarrow> (error_value + OS) \<times> 'w ssh_state" where
  "ssh_GetOS env ctx st =
     (case sc_cachedOS (fst st) of
        Some os \<Rightarrow> (Inr os, st)
      | None \<Rightarrow>
          (let (osInfo, err, st1) =
             (case ssh_GetOSRelease env st of
                (Inr vars, st1) \<Rightarrow>
                  (zero_OS\<lparr>os_ID := gm_getd [] vars ''ID'', os_VersionID := gm_getd [] vars ''VERSION_ID'',
                     os_PrettyName := gm_getd [] vars ''PRETTY_NAME'', os_Codename := gm_getd [] vars ''VERSION_CODENAME''\<rparr>, None, st1)
              | (Inl e, st1) \<Rightarrow>
                  (case Exec env (TimeoutCtx ctx ten_seconds) ''lsb_release -a'' None st1 of
                     ((out, _, None), st2) \<Rightarrow>
                       (let lsb = parseKeyValues out (CHR '':'') None in
                        (zero_OS\<lparr>os_ID := ToLower (gm_getd [] lsb ''Distributor ID''), os_VersionID := gm_getd [] lsb ''Release'',
                           os_Codename := gm_getd [] lsb ''Codename''\<rparr>, Some e, st2))
                   | ((out, _, Some _), st2) \<Rightarrow> (zero_OS, Some e, st2)));
             (osInfo, st2) =
               (if os_ID osInfo = []
                then (case Exec env (TimeoutCtx ctx ten_seconds) ''uname -s'' None st1 of
                        ((out, _, None), st2) \<Rightarrow> (osInfo\<lparr>os_ID := ToLower (TrimSpace out)\<rparr>, st2)
                      | ((out, _, Some _), st2) \<Rightarrow> (osInfo, st2))
                else (osInfo, st1))
           in if os_ID osInfo = [] then (Inl (Wrapf ''failed to determine OS'' (case err of Some e \<Rightarrow> e | None \<Rightarrow> Errorf [])), st2)
              else (Inr osInfo, (fst st2)\<lparr>sc_cachedOS := Some osInfo\<rparr>, snd st2)))"

section \<open>Recording the sessions\<close>

text \<open>The world extended by the list of the sessions that were started.\<close>

definition lift_log :: "('w \<Rightarrow> 'a \<times> 'w) \<Rightarrow> 'w \<times> 'l list \<Rightarrow> 'a \<times> 'w \<times> 'l list" where
  "lift_log f s = (case f (fst s) of (r, w) \<Rightarrow> (r, w, snd s))"

definition recording :: "'w ssh_env \<Rightarrow> ('w \<times> ssh_session list) ssh_env" where
  "recording env =
     \<lparr>env_dial = (\<lambda>cfg t. lift_log (env_dial env cfg t)), env_close = (\<lambda>n. lift_log (env_close env n)),
      env_keepalive = (\<lambda>n. lift_log (env_keepalive env n)),
      env_session = (\<lambda>ses s. case env_session env ses (fst s) of (r, n, w) \<Rightarrow> (r, n, w, snd s @ [ses])),
      env_done = (\<lambda>ctx s. env_done env ctx (fst s)), env_after = (\<lambda>ctx d. lift_log (env_after env ctx d)),
      env_now = (\<lambda>s. env_now env (fst s)), env_sftpNew = lift_log (env_sftpNew env), env_sftpClose = lift_log (env_sftpClose env),
      env_sftpMkdirAll = (\<lambda>p. lift_log (env_sftpMkdirAll env p)), env_sftpCreate = (\<lambda>p. lift_log (env_sftpCreate env p)),
      env_sftpWrite = (\<lambda>p c. lift_log (env_sftpWrite env p c)), env_sftpChmod = (\<lambda>p m. lift_log (env_sftpChmod env p m)),
      env_sftpLstat = (\<lambda>p. lift_log (env_sftpLstat env p)), env_sftpOpen = (\<lambda>p. lift_log (env_sftpOpen env p)),
      env_sftpReadAll = (\<lambda>p. lift_log (env_sftpReadAll env p))\<rparr>"

text \<open>What the shell on the other side reads, session by session.\<close>

definition session_words :: "('w \<times> ssh_session list) ssh_state \<Rightarrow> string list option list" where
  "session_words st = map (\<lambda>ses. sh_words (ses_Cmd ses)) (snd (snd st))"

text \<open>A link that stays up: the connector has a client, and its keep-alive requests are answered.\<close>

definition link_up :: "'w ssh_env \<Rightarrow> bool" where
  "link_up env \<longleftrightarrow> (\<forall>n w. fst (env_keepalive env n w))"

definition linked :: "ConnectionCfg \<Rightarrow> ('w \<times> ssh_session list) ssh_state \<Rightarrow> bool" where
  "linked cfg st \<longleftrightarrow> sc_client (fst st) \<noteq> None \<and> sc_isConnected (fst st) \<and> sc_connCfg (fst st) = cfg"

definition sudo_words :: "bool \<Rightarrow> ConnectionCfg \<Rightarrow> string list \<Rightarrow> string list" where
  "sudo_words sudo cfg argv =
     (if \<not> sudo then argv
      else if cc_Password cfg \<noteq> [] then [''sudo'', ''-S'', ''-p'', [], ''-E'', ''--''] @ argv else [''sudo'', ''-E'', ''--''] @ argv)"

lemma sudo_prefix_words:
  "ps \<noteq> [] \<Longrightarrow> list_all piece_ok ps \<Longrightarrow> sh_words (sudo_password_prefix @ command_line ps) =
     Some ([''sudo'', ''-S'', ''-p'', [], ''-E'', ''--''] @ map piece_text ps)"
  "ps \<noteq> [] \<Longrightarrow> list_all piece_ok ps \<Longrightarrow> sh_words (sudo_prefix @ command_line ps) = Some ([''sudo'', ''-E'', ''--''] @ map piece_text ps)"
proof -
  assume ps: "ps \<noteq> []" "list_all piece_ok ps"
  let ?p = "[Word ''sudo'', Word ''-S'', Word ''-p'', Arg [], Word ''-E'', Word ''--'']" and ?q = "[Word ''sudo'', Word ''-E'', Word ''--'']"
  have "sudo_password_prefix @ command_line ps = command_line (?p @ ps)" "sudo_prefix @ command_line ps = command_line (?q @ ps)"
    using ps(1) by (simp_all only: command_line_append[of ?p] command_line_append[of ?q] list.distinct simp_thms)
      (simp_all add: command_line_def sudo_password_prefix_def sudo_prefix_def shellEscape_def)
  moreover have "list_all piece_ok (?p @ ps)" "list_all piece_ok (?q @ ps)" using ps(2) by (simp_all add: plain_def plain_char_def less_eq_char_def)
  ultimately show "sh_words (sudo_password_prefix @ command_line ps) = Some ([''sudo'', ''-S'', ''-p'', [], ''-E'', ''--''] @ map piece_text ps)"
    "sh_words (sudo_prefix @ command_line ps) = Some ([''sudo'', ''-E'', ''--''] @ map piece_text ps)"
    by (simp_all only: sh_words_command_line) simp_all
qed

lemma new_session_words:
  assumes "ps \<noteq> []" "list_all piece_ok ps" "ro_Dir o' = []"
  shows "sh_words (ses_Cmd (new_session ctx (command_line ps) o' cfg stdin)) = Some (sudo_words (ro_Sudo o') cfg (map piece_text ps))"
  using assms by (simp add: new_session_def Let_def sudo_words_def sudo_prefix_words sh_words_command_line)

text \<open>Without retries one execution on a linked connector starts exactly one session.\<close>

lemma IsConnected_linked:
  assumes "link_up env" "linked cfg st"
  obtains w where "IsConnected (recording env) (fst st) (snd st) = (True, fst st, w, snd (snd st))"
proof -
  obtain n where n: "sc_client (fst st) = Some n" "sc_isConnected (fst st)" using assms(2) by (auto simp: linked_def)
  obtain b w where k: "env_keepalive env n (fst (snd st)) = (b, w)" by fastforce
  with assms(1) have b by (metis fst_conv link_up_def)
  with n k have "IsConnected (recording env) (fst st) (snd st) = (True, fst st, w, snd (snd st))"
    by (simp add: IsConnected_def recording_def lift_log_def)
  with that show thesis by blast
qed

lemma Exec_logs:
  assumes "link_up env" "linked cfg st" "ro_Retries (or_zero zero_RunOptions options) = 0"
  shows "linked cfg (snd (Exec (recording env) ctx cmd options st)) \<and> (\<exists>stdin.
     snd (snd (snd (Exec (recording env) ctx cmd options st))) = snd (snd st) @
       [new_session (attempt_ctx ctx (or_zero zero_RunOptions options)) cmd (or_zero zero_RunOptions options) cfg stdin])"
proof -
  obtain w where w: "IsConnected (recording env) (fst st) (snd st) = (True, fst st, w, snd (snd st))"
    using IsConnected_linked[OF assms(1,2)] .
  let ?o = "or_zero zero_RunOptions options"
  let ?ses = "new_session (attempt_ctx ctx ?o) cmd ?o cfg (stdin_reader (ro_Stream ?o))"
  have cfg: "sc_connCfg (fst st) = cfg" using assms(2) by (simp add: linked_def)
  obtain r rest s1 where r: "runOnce (recording env) (attempt_ctx ctx ?o) cmd ?o cfg (stdin_reader (ro_Stream ?o), w, snd (snd st)) = (r, rest, s1)"
    by (metis prod.exhaust)
  have s1: "snd s1 = snd (snd st) @ [?ses]"
    using r by (auto simp: runOnce_def recording_def Let_def split: prod.splits session_end.splits)
  have "snd (Exec (recording env) ctx cmd options st) = (fst st, s1)"
    using w r assms(3) cfg
    by (cases r) (auto simp: Exec_def ssh_attempts.simps[of _ _ _ _ _ 0] Let_def split: option.splits)
  with assms(2) s1 show ?thesis by (auto simp: linked_def)
qed

definition plain_run :: "RunOptions option \<Rightarrow> bool" where
  "plain_run options \<longleftrightarrow> ro_Retries (or_zero zero_RunOptions options) = 0 \<and> ro_Dir (or_zero zero_RunOptions options) = []"

lemma plain_run_simps [simp]: "plain_run None" "plain_run (Some (sudo_options b))"
  by (simp_all add: plain_run_def)

lemma Exec_words:
  assumes "link_up env" "linked cfg st" "plain_run options" "ps \<noteq> []" "list_all piece_ok ps"
  shows "linked cfg (snd (Exec (recording env) ctx (command_line ps) options st)) \<and>
    session_words (snd (Exec (recording env) ctx (command_line ps) options st)) =
      session_words st @ [Some (sudo_words (ro_Sudo (or_zero zero_RunOptions options)) cfg (map piece_text ps))]"
proof -
  from Exec_logs[OF assms(1,2), of options ctx "command_line ps"] assms(3) obtain stdin where
    "linked cfg (snd (Exec (recording env) ctx (command_line ps) options st))"
    "snd (snd (snd (Exec (recording env) ctx (command_line ps) options st))) = snd (snd st) @
       [new_session (attempt_ctx ctx (or_zero zero_RunOptions options)) (command_line ps) (or_zero zero_RunOptions options) cfg stdin]"
    by (auto simp: plain_run_def)
  with new_session_words[OF assms(4,5)] assms(3) show ?thesis by (simp add: session_words_def plain_run_def)
qed

lemma remote_step_logs:
  fixes env :: "'w ssh_env"
  assumes "link_up env" "plain_run options" "ps \<noteq> []" "list_all piece_ok ps" "cmd = command_line ps"
  shows "step_logs session_words (linked cfg) (remote_step (recording env) ctx msg cmd options)
    [Some (sudo_words (ro_Sudo (or_zero zero_RunOptions options)) cfg (map piece_text ps))]"
  unfolding step_logs_def
proof (intro allI impI)
  fix st :: "('w \<times> ssh_session list) ssh_state"
  assume "linked cfg st"
  have "snd (remote_step (recording env) ctx msg cmd options st) = snd (Exec (recording env) ctx cmd options st)"
    by (auto simp: remote_step_def split: prod.splits option.splits)
  with Exec_words[OF assms(1) \<open>linked cfg st\<close> assms(2-4)] assms(5)
  show "linked cfg (snd (remote_step (recording env) ctx msg cmd options st)) \<and>
      session_words (snd (remote_step (recording env) ctx msg cmd options st)) =
        session_words st @ [Some (sudo_words (ro_Sudo (or_zero zero_RunOptions options)) cfg (map piece_text ps))]" by simp
qed

text \<open>SFTP starts no session.\<close>

lemma ensureSftp_logs:
  fixes env :: "'w ssh_env"
  assumes "link_up env"
  shows "step_logs session_words (linked cfg) (ensureSftp (recording env)) []"
  unfolding step_logs_def
proof (intro allI impI)
  fix st :: "('w \<times> ssh_session list) ssh_state"
  assume "linked cfg st"
  with assms obtain w where "IsConnected (recording env) (fst st) (snd st) = (True, fst st, w, snd (snd st))"
    by (rule IsConnected_linked)
  with \<open>linked cfg st\<close> show "linked cfg (snd (ensureSftp (recording env) st)) \<and> session_words (snd (ensureSftp (recording env) st)) = session_words st @ []"
    by (auto simp: ensureSftp_def linked_def session_words_def recording_def lift_log_def split: prod.splits option.splits)
qed

lemma on_world_logs:
  "step_logs session_words (linked cfg) (on_world msg (env_sftpMkdirAll (recording env) p)) []"
  "step_logs session_words (linked cfg) (on_world msg (env_sftpCreate (recording env) p)) []"
  "step_logs session_words (linked cfg) (on_world msg (env_sftpWrite (recording env) p c)) []"
  "step_logs session_words (linked cfg) (sftp_chmod (recording env) p m) []"
  by (auto simp: step_logs_def on_world_def sftp_chmod_def recording_def lift_log_def linked_def session_words_def
      split: prod.splits option.splits)

lemma step_logs_wrapping: "step_logs lg I f ls \<Longrightarrow> step_logs lg I (wrapping msg f) ls"
proof -
  have "snd (wrapping msg f s) = snd (f s)" for s by (auto simp: wrapping_def split: prod.splits option.splits)
  then show "step_logs lg I f ls \<Longrightarrow> step_logs lg I (wrapping msg f) ls" by (simp add: step_logs_def)
qed

lemma step_logs_run_steps_Nil:
  assumes "\<forall>f \<in> set fs. step_logs lg I f []"
  shows "step_logs lg I (steps_in_turn fs) []"
  unfolding step_logs_def
proof (intro allI impI)
  fix s assume s: "I s"
  have l: "list_all2 (step_logs lg I) fs (map (\<lambda>_. []) fs)" using assms by (simp add: list_all2_conv_all_nth)
  obtain e s' where r: "steps_in_turn fs s = (e, s')" by fastforce
  from steps_in_turn_logs[OF l s r] obtain k where k: "I s'" "lg s' = lg s @ concat (take k (map (\<lambda>_. []) fs))" by blast
  have "concat (take k (map (\<lambda>_. []) fs)) = []" by (auto simp: take_map)
  with k r show "I (snd (steps_in_turn fs s)) \<and> lg (snd (steps_in_turn fs s)) = lg s @ []" by simp
qed

lemma writeFileViaSFTP_logs: "link_up env \<Longrightarrow> step_logs session_words (linked cfg) (writeFileViaSFTP (recording env) content p perms) []"
  unfolding writeFileViaSFTP_def
  by (rule step_logs_run_steps_Nil) (auto simp: Let_def on_world_logs intro: step_logs_wrapping ensureSftp_logs)

section \<open>The commands of a write\<close>

text \<open>The argument vectors of a write with sudo, in order.\<close>

definition mkdir_argv :: "string \<Rightarrow> string list list" where
  "mkdir_argv dir = (if proper_dir dir then [[''mkdir'', ''-p'', dir]] else [])"

definition chmod_argv :: "string list \<Rightarrow> string \<Rightarrow> string \<Rightarrow> string list list" where
  "chmod_argv flags permissions path =
     (if permissions = [] \<or> ParseUint8_32 permissions = None then [] else [[''chmod''] @ flags @ [permissions, path]])"

definition write_argvs :: "string \<Rightarrow> string \<Rightarrow> CopyOptions \<Rightarrow> string list list list" where
  "write_argvs tmpPath dstPath opts =
     [[], mkdir_argv (filepath_Dir dstPath), [[''mv'', tmpPath, dstPath]], chmod_argv [] (co_Permissions opts) dstPath,
      [if co_Owner opts \<noteq> [] then [''chown'', owner_and_group opts, dstPath] else [''chown'', ''root'', dstPath]]]"

definition run_words :: "bool \<Rightarrow> ConnectionCfg \<Rightarrow> string list list \<Rightarrow> string list option list" where
  "run_words sudo cfg argvs = map (\<lambda>argv. Some (sudo_words sudo cfg argv)) argvs"

lemma command_pieces:
  "''mkdir -p '' @ shellEscape d = command_line [Word ''mkdir'', Word ''-p'', Arg d]"
  "''mv '' @ shellEscape a @ '' '' @ shellEscape b = command_line [Word ''mv'', Arg a, Arg b]"
  "''chmod '' @ [] @ shellEscape a @ '' '' @ shellEscape b = command_line [Word ''chmod'', Arg a, Arg b]"
  "''chmod '' @ ''-R '' @ shellEscape a @ '' '' @ shellEscape b = command_line [Word ''chmod'', Word ''-R'', Arg a, Arg b]"
  "''chown '' @ shellEscape a @ '' '' @ shellEscape b = command_line [Word ''chown'', Arg a, Arg b]"
  "''chown -R '' @ shellEscape a @ '' '' @ shellEscape b = command_line [Word ''chown'', Word ''-R'', Arg a, Arg b]"
  "''chown root '' @ shellEscape b = command_line [Word ''chown'', Word ''root'', Arg b]"
  "''rm -f '' @ shellEscape b = command_line [Word ''rm'', Word ''-f'', Arg b]"
  "''rm -rf '' @ shellEscape b = command_line [Word ''rm'', Word ''-rf'', Arg b]"
  "''tar -xzf '' @ shellEscape a @ '' -C '' @ shellEscape b = command_line [Word ''tar'', Word ''-xzf'', Arg a, Word ''-C'', Arg b]"
  by (simp_all add: command_line_def)

lemma command_words_plain [simp]:
  "plain ''mkdir''" "plain ''-p''" "plain ''mv''" "plain ''chmod''" "plain ''-R''" "plain ''chown''" "plain ''root''" "plain ''rm''" "plain ''-f''"
  "plain ''-rf''" "plain ''tar''" "plain ''-xzf''" "plain ''-C''"
  by (simp_all add: plain_def plain_char_def less_eq_char_def)

lemma remote_step_run_words:
  assumes "link_up env" "list_all piece_ok ps" "ps \<noteq> []" "cmd = command_line ps" "argv = map piece_text ps"
  shows "step_logs session_words (linked cfg) (remote_step (recording env) ctx msg cmd (Some (sudo_options b))) (run_words b cfg [argv])"
  using remote_step_logs[OF assms(1) _ assms(3,2,4), of "Some (sudo_options b)"] assms(5) by (simp add: run_words_def)

lemma command_logs:
  assumes "link_up env"
  shows "step_logs session_words (linked cfg) (remote_step (recording env) ctx msg (''mkdir -p '' @ shellEscape d) (Some (sudo_options b)))
      (run_words b cfg [[''mkdir'', ''-p'', d]])"
    "step_logs session_words (linked cfg) (remote_step (recording env) ctx msg (''mv '' @ shellEscape p @ '' '' @ shellEscape q) (Some (sudo_options b)))
      (run_words b cfg [[''mv'', p, q]])"
    "step_logs session_words (linked cfg) (remote_step (recording env) ctx msg (''chmod '' @ [] @ shellEscape p @ '' '' @ shellEscape q) (Some (sudo_options b)))
      (run_words b cfg [[''chmod'', p, q]])"
    "step_logs session_words (linked cfg) (remote_step (recording env) ctx msg (''chmod '' @ ''-R '' @ shellEscape p @ '' '' @ shellEscape q) (Some (sudo_options b)))
      (run_words b cfg [[''chmod'', ''-R'', p, q]])"
    "step_logs session_words (linked cfg) (remote_step (recording env) ctx msg (''chown '' @ shellEscape p @ '' '' @ shellEscape q) (Some (sudo_options b)))
      (run_words b cfg [[''chown'', p, q]])"
    "step_logs session_words (linked cfg) (remote_step (recording env) ctx msg (''chown -R '' @ shellEscape p @ '' '' @ shellEscape q) (Some (sudo_options b)))
      (run_words b cfg [[''chown'', ''-R'', p, q]])"
    "step_logs session_words (linked cfg) (remote_step (recording env) ctx msg (''chown root '' @ shellEscape q) (Some (sudo_options b)))
      (run_words b cfg [[''chown'', ''root'', q]])"
    "step_logs session_words (linked cfg) (remote_step (recording env) ctx msg (''tar -xzf '' @ shellEscape p @ '' -C '' @ shellEscape q) (Some (sudo_options b)))
      (run_words b cfg [[''tar'', ''-xzf'', p, ''-C'', q]])"
  by (rule remote_step_run_words[OF assms _ _ command_pieces(1)] remote_step_run_words[OF assms _ _ command_pieces(2)]
      remote_step_run_words[OF assms _ _ command_pieces(3)] remote_step_run_words[OF assms _ _ command_pieces(4)]
      remote_step_run_words[OF assms _ _ command_pieces(5)] remote_step_run_words[OF assms _ _ command_pieces(6)]
      remote_step_run_words[OF assms _ _ command_pieces(7)] remote_step_run_words[OF assms _ _ command_pieces(10)]; simp)+

lemma step_logs_if:
  "(P \<Longrightarrow> step_logs lg I f ls) \<Longrightarrow> (\<not> P \<Longrightarrow> step_logs lg I g ls') \<Longrightarrow> step_logs lg I (if P then f else g) (if P then ls else ls')"
  by simp

lemma run_words_if: "run_words b cfg (if P then xs else ys) = (if P then run_words b cfg xs else run_words b cfg ys)"
  "run_words b cfg [if P then x else y] = (if P then run_words b cfg [x] else run_words b cfg [y])"
  "run_words b cfg [] = []"
  by (simp_all add: run_words_def)

lemma mkdir_step_logs:
  assumes "link_up env"
  shows "step_logs session_words (linked cfg)
     (if proper_dir d then remote_step (recording env) ctx msg (''mkdir -p '' @ shellEscape d) (Some (sudo_options b)) else no_step)
     (run_words b cfg (mkdir_argv d))"
  unfolding mkdir_argv_def run_words_if by (intro step_logs_if command_logs assms step_logs_no_step)

lemma chmod_step_logs:
  assumes "link_up env"
  shows "step_logs session_words (linked cfg) (chmod_step (recording env) ctx (sudo_options b) [] perms p)
      (run_words b cfg (chmod_argv [] perms p))"
    "step_logs session_words (linked cfg) (chmod_step (recording env) ctx (sudo_options b) ''-R '' perms p)
      (run_words b cfg (chmod_argv [''-R''] perms p))"
proof -
  have "step_logs session_words (linked cfg) (chmod_step (recording env) ctx (sudo_options b) fl perms p) (run_words b cfg (chmod_argv fl' perms p))"
    if l: "\<And>msg. step_logs session_words (linked cfg) (remote_step (recording env) ctx msg (''chmod '' @ fl @ shellEscape perms @ '' '' @ shellEscape p)
        (Some (sudo_options b))) (run_words b cfg [[''chmod''] @ fl' @ [perms, p]])" for fl fl'
  proof (cases "perms = [] \<or> ParseUint8_32 perms = None")
    case True
    then show ?thesis unfolding chmod_step_def chmod_argv_def by (auto simp: run_words_if(3))
  next
    case False
    then obtain n where "perms \<noteq> []" "ParseUint8_32 perms = Some n" by auto
    then show ?thesis unfolding chmod_step_def chmod_argv_def
      by (simp only: if_False if_True option.case option.distinct simp_thms not_False_eq_True l)
  qed
  note w = this
  have a: "[[''chmod''] @ [] @ [perms, p]] = [[''chmod'', perms, p]]" "[[''chmod''] @ [''-R''] @ [perms, p]] = [[''chmod'', ''-R'', perms, p]]"
    by simp_all
  show "step_logs session_words (linked cfg) (chmod_step (recording env) ctx (sudo_options b) [] perms p) (run_words b cfg (chmod_argv [] perms p))"
    by (rule w, unfold a, rule command_logs(3)[OF assms])
  show "step_logs session_words (linked cfg) (chmod_step (recording env) ctx (sudo_options b) ''-R '' perms p) (run_words b cfg (chmod_argv [''-R''] perms p))"
    by (rule w, unfold a, rule command_logs(4)[OF assms])
qed

lemma sudoWrite_steps_logs:
  assumes "link_up env"
  shows "list_all2 (step_logs session_words (linked cfg)) (sudoWrite_steps (recording env) ctx tmp content dst opts)
    (map (run_words True cfg) (write_argvs tmp dst opts))"
proof -
  have up: "step_logs session_words (linked cfg) (wrapping m (writeFileViaSFTP (recording env) content tmp ''0600'')) []" for m
    by (rule step_logs_wrapping[OF writeFileViaSFTP_logs[OF assms]])
  show ?thesis
    unfolding sudoWrite_steps_def write_argvs_def Let_def list.map run_words_if
    by (intro list_all2_Cons[THEN iffD2] conjI list_all2_Nil[THEN iffD2] refl up step_logs_if
        mkdir_step_logs[OF assms] chmod_step_logs(1)[OF assms] command_logs[OF assms])
qed

text \<open>C15: A write with sudo over a link that stays up runs, through sudo, a prefix of its commands - create the
  directory, move the uploaded file to its place, set permissions and owner - and all of them when it
  succeeds; then, on every path, it removes the temporary file. Whatever the paths and options contain,
  the shell reads exactly these words.\<close>

theorem sudoWrite_commands:
  assumes "link_up env" "linked cfg (c, w, [])"
  shows "\<exists>k \<le> length (write_argvs (tmp_path (env_now env w) dst) dst opts).
    session_words (snd (sudoWrite (recording env) ctx content dst opts (c, w, []))) =
      run_words True cfg (concat (take k (write_argvs (tmp_path (env_now env w) dst) dst opts))) @
      run_words False cfg [[''rm'', ''-f'', tmp_path (env_now env w) dst]] \<and>
    (fst (sudoWrite (recording env) ctx content dst opts (c, w, [])) = None \<longrightarrow>
      k = length (write_argvs (tmp_path (env_now env w) dst) dst opts))"
proof -
  let ?st = "(c, w, [])" and ?tmp = "tmp_path (env_now env w) dst"
  have now: "env_now (recording env) (w, []) = env_now env w" by (simp add: recording_def)
  obtain e st1 where r: "steps_in_turn (sudoWrite_steps (recording env) ctx ?tmp content dst opts) ?st = (e, st1)" by (metis prod.exhaust)
  from steps_in_turn_logs[OF sudoWrite_steps_logs[OF assms(1)] assms(2) r] obtain k where
    k: "linked cfg st1" "k \<le> length (write_argvs ?tmp dst opts)"
      "session_words st1 = session_words ?st @ concat (take k (map (run_words True cfg) (write_argvs ?tmp dst opts)))"
      "e = None \<longrightarrow> k = length (write_argvs ?tmp dst opts)" by auto
  have "concat (take k (map (run_words True cfg) xss)) = run_words True cfg (concat (take k xss))" for xss
    by (simp add: take_map run_words_def[abs_def] map_concat)
  moreover have "session_words ?st = []" by (simp add: session_words_def)
  moreover have "session_words (snd (Exec (recording env) (TimeoutCtx BackgroundCtx (20 * go_second)) (''rm -f '' @ shellEscape ?tmp) None st1)) =
      session_words st1 @ run_words False cfg [[''rm'', ''-f'', ?tmp]]"
    unfolding command_pieces(8) using Exec_words[OF assms(1) k(1), of None "[Word ''rm'', Word ''-f'', Arg ?tmp]"]
    by (simp add: run_words_def)
  moreover have "sudoWrite (recording env) ctx content dst opts ?st =
      (e, snd (Exec (recording env) (TimeoutCtx BackgroundCtx (20 * go_second)) (''rm -f '' @ shellEscape ?tmp) None st1))"
    unfolding sudoWrite_def by (simp add: now r split: prod.splits)
  ultimately show ?thesis using k by auto
qed

lemma demo_linked: "link_up demo_ssh_env" "linked demo_cfg (demo_ssh, w, l)"
  by (simp_all add: link_up_def demo_ssh_env_def linked_def demo_ssh_def)

theorem sudoWrite_commands_witness:
  "\<exists>k \<le> length (write_argvs (tmp_path (env_now demo_ssh_env 0) ''/etc/a b'') ''/etc/a b'' zero_CopyOptions).
    session_words (snd (sudoWrite (recording demo_ssh_env) CallerCtx ''x'' ''/etc/a b'' zero_CopyOptions (demo_ssh, 0, []))) =
      run_words True demo_cfg (concat (take k (write_argvs (tmp_path (env_now demo_ssh_env 0) ''/etc/a b'') ''/etc/a b'' zero_CopyOptions))) @
      run_words False demo_cfg [[''rm'', ''-f'', tmp_path (env_now demo_ssh_env 0) ''/etc/a b'']] \<and>
    (fst (sudoWrite (recording demo_ssh_env) CallerCtx ''x'' ''/etc/a b'' zero_CopyOptions (demo_ssh, 0, [])) = None \<longrightarrow>
      k = length (write_argvs (tmp_path (env_now demo_ssh_env 0) ''/etc/a b'') ''/etc/a b'' zero_CopyOptions))"
  by (rule sudoWrite_commands[OF demo_linked])

section \<open>The commands of an unpacked directory\<close>

definition unpack_argvs :: "string \<Rightarrow> string \<Rightarrow> CopyOptions \<Rightarrow> string list list list" where
  "unpack_argvs tmpPath dstDir opts =
     [mkdir_argv (filepath_Dir dstDir), [[''rm'', ''-rf'', dstDir]], [[''mkdir'', ''-p'', dstDir]], [[''tar'', ''-xzf'', tmpPath, ''-C'', dstDir]],
      chmod_argv [''-R''] (co_Permissions opts) dstDir,
      (if co_Owner opts \<noteq> [] then [[''chown'', ''-R'', owner_and_group opts, dstDir]] else [])]"

text \<open>The destination is removed before the archive is unpacked, and an error of the removal is ignored.\<close>

lemma unpack_steps_logs:
  assumes "link_up env"
  shows "list_all2 (step_logs session_words (linked cfg)) (unpack_steps (recording env) ctx tmp dst opts)
    (map (run_words (co_Sudo opts) cfg) (unpack_argvs tmp dst opts))"
proof -
  have rm: "step_logs session_words (linked cfg)
     (\<lambda>st. (None, snd (Exec (recording env) ctx (''rm -rf '' @ shellEscape dst) (Some (sudo_options b)) st))) (run_words b cfg [[''rm'', ''-rf'', dst]])" for b
    using Exec_words[OF assms, of cfg _ "Some (sudo_options b)" "[Word ''rm'', Word ''-rf'', Arg dst]"]
    unfolding step_logs_def command_pieces(9) by (simp add: run_words_def)
  show ?thesis
    unfolding unpack_steps_def unpack_argvs_def Let_def list.map run_words_if
    by (intro list_all2_Cons[THEN iffD2] conjI list_all2_Nil[THEN iffD2] refl step_logs_if rm step_logs_no_step
        mkdir_step_logs[OF assms] chmod_step_logs(2)[OF assms] command_logs[OF assms])
qed

section \<open>Caching the operating system\<close>

lemma ssh_GetOS_cached:
  assumes "ssh_GetOS env ctx st = (Inr os, st1)"
  shows "sc_cachedOS (fst st1) = Some os \<and> ssh_GetOS env ctx' st1 = (Inr os, st1)"
proof -
  have "sc_cachedOS (fst st1) = Some os"
    using assms unfolding ssh_GetOS_def Let_def
    by (cases "sc_cachedOS (fst st)") (auto split: prod.splits if_splits)
  then show ?thesis by (simp add: ssh_GetOS_def)
qed

text \<open>Reading a file as root and the fallback of \<^verbatim>\<open>StatWithOptions\<close> do not quote: a path with a blank is read as two.\<close>

lemma unquoted_paths:
  "sh_words (''cat '' @ ''/a b'') = Some [''cat'', ''/a'', ''b'']" "sh_words (''test -e '' @ ''/a b'') = Some [''test'', ''-e'', ''/a'', ''b'']"
  by (simp_all add: sh_words_def plain_char_def is_blank_def less_eq_char_def)

end
