(* ===== verification/LocalConnector.thy ===== *)
theory LocalConnector
  imports Connector
begin

text \<open>
  The connector of the control node (\<^verbatim>\<open>connector/local.go\<close>) on Linux: the execution of a command with
  retries, and the file operations that go through sudo. The operating system behind \<^verbatim>\<open>os\<close> and \<^verbatim>\<open>os/exec\<close>
  is an argument, functions on a world \<open>'w\<close>.
\<close>

section \<open>The operating system\<close>

text \<open>A process: its context, the line given to \<^verbatim>\<open>/bin/sh -c\<close>, the additional environment, input, directory and stream.\<close>

record local_process =
  lp_Ctx :: go_ctx
  lp_Line :: string
  lp_Env :: "string list"
  lp_Stdin :: "string option"
  lp_Stream :: stream
  lp_Dir :: string

datatype os_lstat = PathFound bool | PathMissing | PathFailed string

record 'w os_env =
  os_run :: "local_process \<Rightarrow> 'w \<Rightarrow> (string \<times> string \<times> error_value option) \<times> 'w"
  os_done :: "go_ctx \<Rightarrow> 'w \<Rightarrow> bool"
  os_sleep :: "duration \<Rightarrow> 'w \<Rightarrow> 'w"
  os_Lstat :: "string \<Rightarrow> 'w \<Rightarrow> os_lstat \<times> 'w"
  os_IsDir :: "string \<Rightarrow> 'w \<Rightarrow> bool"
    \<comment> \<open>\<^verbatim>\<open>os.Stat\<close> succeeds and reports a directory\<close>
  os_MkdirAll :: "string \<Rightarrow> nat \<Rightarrow> 'w \<Rightarrow> string option \<times> 'w"
  os_WriteFile :: "string \<Rightarrow> string \<Rightarrow> nat \<Rightarrow> 'w \<Rightarrow> string option \<times> 'w"
  os_CreateTemp :: "string \<Rightarrow> 'w \<Rightarrow> (string + string) \<times> 'w"
  os_WriteTemp :: "string \<Rightarrow> string \<Rightarrow> 'w \<Rightarrow> string option \<times> 'w"
  os_Remove :: "string \<Rightarrow> 'w \<Rightarrow> string option \<times> 'w"
  os_RemoveAll :: "string \<Rightarrow> 'w \<Rightarrow> string option \<times> 'w"
  os_ReadFile :: "string \<Rightarrow> 'w \<Rightarrow> (string + string) \<times> 'w"

section \<open>Executing a command\<close>

definition local_line :: "string \<Rightarrow> string \<Rightarrow> bool \<Rightarrow> string" where
  "local_line password cmd sudo =
     (if sudo then (if password \<noteq> [] then ''sudo -S -p '' @ [sq, sq] @ '' -E -- '' @ cmd else ''sudo -E -- '' @ cmd) else cmd)"

text \<open>The context of an attempt with a timeout does not derive from the context of the caller.\<close>

definition local_attempt_ctx :: "go_ctx \<Rightarrow> RunOptions \<Rightarrow> go_ctx" where
  "local_attempt_ctx ctx o' = (if sint (ro_Timeout o') > 0 then TimeoutCtx BackgroundCtx (ro_Timeout o') else ctx)"

definition local_process_of :: "string \<Rightarrow> go_ctx \<Rightarrow> string \<Rightarrow> RunOptions \<Rightarrow> local_process" where
  "local_process_of password ctx cmd o' =
     \<lparr>lp_Ctx = local_attempt_ctx ctx o', lp_Line = local_line password cmd (ro_Sudo o'), lp_Env = ro_Env o',
      lp_Stdin = (if ro_Sudo o' \<and> password \<noteq> [] then Some (password @ [CHR 0x0A]) else None),
      lp_Stream = ro_Stream o', lp_Dir = ro_Dir o'\<rparr>"

text \<open>
  After an attempt its context is cancelled, and only then asked for its error: with a timeout it
  always has one.
\<close>

definition attempt_ctx_done :: "'w os_env \<Rightarrow> go_ctx \<Rightarrow> RunOptions \<Rightarrow> 'w \<Rightarrow> bool" where
  "attempt_ctx_done env ctx o' w = (if sint (ro_Timeout o') > 0 then True else os_done env ctx w)"

fun local_attempts :: "'w os_env \<Rightarrow> string \<Rightarrow> go_ctx \<Rightarrow> string \<Rightarrow> RunOptions \<Rightarrow> nat \<Rightarrow> 'w \<Rightarrow> (string \<times> string \<times> error_value option) \<times> 'w" where
  "local_attempts env password ctx cmd o' n w =
     (case os_run env (local_process_of password ctx cmd o') w of
        ((out, err, None), w1) \<Rightarrow> ((out, err, None), w1)
      | ((out, err, Some e), w1) \<Rightarrow>
          if attempt_ctx_done env ctx o' w1 \<or> os_done env ctx w1 then ((out, err, Some e), w1)
          else (case n of
                  0 \<Rightarrow> ((out, err, Some e), w1)
                | Suc m \<Rightarrow>
                    local_attempts env password ctx cmd o' m
                      (if sint (ro_RetryDelay o') > 0 then os_sleep env (ro_RetryDelay o') w1 else w1)))"

declare local_attempts.simps [simp del]

fun local_exit_code :: "error_value \<Rightarrow> int" where
  "local_exit_code (ExitError n) = n"
| "local_exit_code _ = -1"

definition local_Exec :: "'w os_env \<Rightarrow> string \<Rightarrow> go_ctx \<Rightarrow> string \<Rightarrow> RunOptions option \<Rightarrow> 'w \<Rightarrow> (string \<times> string \<times> error_value option) \<times> 'w" where
  "local_Exec env password ctx cmd options w =
     (let o' = or_zero zero_RunOptions options;
          failed = (\<lambda>out err e w1.
            if os_done env ctx w1 then ((out, err, Some (CommandError cmd (-1) out err (Some (Errorf ''context done'')))), w1)
            else ((out, err, Some (CommandError cmd (case e of Some e' \<Rightarrow> local_exit_code e' | None \<Rightarrow> -1) out err e)), w1))
      in if ro_Retries o' < 0 then failed [] [] None w
         else case local_attempts env password ctx cmd o' (nat (ro_Retries o')) w of
                ((out, err, None), w1) \<Rightarrow> ((out, err, None), w1)
              | ((out, err, Some e), w1) \<Rightarrow> failed out err (Some e) w1)"

section \<open>Files\<close>

definition local_exec_step :: "'w os_env \<Rightarrow> string \<Rightarrow> go_ctx \<Rightarrow> string \<Rightarrow> string \<Rightarrow> 'w step_fun" where
  "local_exec_step env password ctx msg cmd w =
     (case local_Exec env password ctx cmd (Some (sudo_options True)) w of
        ((out, err, None), w1) \<Rightarrow> (None, w1)
      | ((out, err, Some e), w1) \<Rightarrow> (Some (Wrapf msg e), w1))"

definition os_step :: "string \<Rightarrow> ('w \<Rightarrow> string option \<times> 'w) \<Rightarrow> 'w step_fun" where
  "os_step msg f w = (case f w of (None, w1) \<Rightarrow> (None, w1) | (Some m, w1) \<Rightarrow> (Some (Wrapf msg (Errorf m)), w1))"

text \<open>\<^verbatim>\<open>strings.ReplaceAll(s, "  ", " ")\<close>: pairs of blanks from the left.\<close>

fun squeeze_blanks :: "string \<Rightarrow> string" where
  "squeeze_blanks (c # d # s) = (if c = CHR '' '' \<and> d = CHR '' '' then CHR '' '' # squeeze_blanks s else c # squeeze_blanks (d # s))"
| "squeeze_blanks s = s"

definition local_owner :: "CopyOptions \<Rightarrow> string" where
  "local_owner opts =
     (let og = (if co_Group opts \<noteq> [] then co_Owner opts @ '':'' @ co_Group opts else co_Owner opts)
      in if og = [] then ''root'' else og)"

definition chown_command :: "bool \<Rightarrow> string \<Rightarrow> string \<Rightarrow> string" where
  "chown_command isDir owner path =
     TrimSpace (squeeze_blanks (''chown '' @ (if isDir then ''-R'' else []) @ '' '' @ shellEscape owner @ '' '' @ shellEscape path))"

definition applySudoPermissions :: "'w os_env \<Rightarrow> string \<Rightarrow> go_ctx \<Rightarrow> string \<Rightarrow> CopyOptions \<Rightarrow> 'w step_fun" where
  "applySudoPermissions env password ctx path opts =
     steps_in_turn
       [(if co_Permissions opts = [] then no_step
         else case ParseUint8_32 (co_Permissions opts) of
                None \<Rightarrow> fail_step (Errorf ''invalid permissions format for applySudoPermissions'')
              | Some _ \<Rightarrow> local_exec_step env password ctx ''failed to set permissions with sudo chmod''
                  (''chmod '' @ shellEscape (co_Permissions opts) @ '' '' @ shellEscape path)),
        (\<lambda>w. local_exec_step env password ctx ''failed to set ownership with sudo chown''
               (chown_command (os_IsDir env path w) (local_owner opts) path) w)]"

definition local_file_mode :: "string \<Rightarrow> nat option" where
  "local_file_mode permissions = (if permissions = [] then Some 420 else ParseUint8_32 permissions)"
    \<comment> \<open>\<^verbatim>\<open>0644\<close> is 420\<close>

definition local_write_plain :: "'w os_env \<Rightarrow> string \<Rightarrow> string \<Rightarrow> nat \<Rightarrow> 'w step_fun" where
  "local_write_plain env content path mode = os_step ''failed to write file'' (os_WriteFile env path content mode)"

definition local_mkdir_step :: "'w os_env \<Rightarrow> string \<Rightarrow> go_ctx \<Rightarrow> string \<Rightarrow> 'w step_fun" where
  "local_mkdir_step env password ctx dir =
     (if proper_dir dir
      then local_exec_step env password ctx ''failed to create parent directory with sudo'' (''mkdir -p '' @ shellEscape dir) else no_step)"

text \<open>The rest of a write with sudo once the temporary file exists; its deferred removal runs on every path.\<close>

definition local_move_temp :: "'w os_env \<Rightarrow> string \<Rightarrow> go_ctx \<Rightarrow> string \<Rightarrow> 'w step_fun list \<Rightarrow> string \<Rightarrow> CopyOptions \<Rightarrow> string \<Rightarrow> 'w step_fun" where
  "local_move_temp env password ctx content between destPath opts tmpPath w =
     (case steps_in_turn ([os_step ''failed to write content to temporary file'' (os_WriteTemp env tmpPath content)] @ between @
              [local_exec_step env password ctx ''failed to move temporary file with sudo'' (''mv '' @ shellEscape tmpPath @ '' '' @ shellEscape destPath),
               applySudoPermissions env password ctx destPath opts]) w of
        (e, w1) \<Rightarrow> (e, snd (os_Remove env tmpPath w1)))"

definition local_with_temp :: "'w os_env \<Rightarrow> string \<Rightarrow> (string \<Rightarrow> 'w step_fun) \<Rightarrow> 'w step_fun" where
  "local_with_temp env pattern k w =
     (case os_CreateTemp env pattern w of
        (Inl m, w1) \<Rightarrow> (Some (Wrapf ''failed to create temporary file'' (Errorf m)), w1)
      | (Inr tmpPath, w1) \<Rightarrow> k tmpPath w1)"

definition local_WriteFile :: "'w os_env \<Rightarrow> string \<Rightarrow> go_ctx \<Rightarrow> string \<Rightarrow> string \<Rightarrow> CopyOptions option \<Rightarrow> 'w step_fun" where
  "local_WriteFile env password ctx content destPath options =
     (let opts = or_zero zero_CopyOptions options;
          ctx' = (if sint (co_Timeout opts) > 0 then TimeoutCtx ctx (co_Timeout opts) else ctx)
      in if co_Sudo opts
         then steps_in_turn [local_mkdir_step env password ctx' (filepath_Dir destPath),
                local_with_temp env ''localconnector-sudo-write-'' (local_move_temp env password ctx' content [] destPath opts)]
         else steps_in_turn [os_step ''failed to create parent directory'' (os_MkdirAll env (filepath_Dir destPath) 493),
                (case local_file_mode (co_Permissions opts) of
                   None \<Rightarrow> fail_step (Errorf ''invalid permissions format for local WriteFile'')
                 | Some mode \<Rightarrow> local_write_plain env content destPath mode)])"

definition local_CopyContent :: "'w os_env \<Rightarrow> string \<Rightarrow> go_ctx \<Rightarrow> string \<Rightarrow> string \<Rightarrow> CopyOptions option \<Rightarrow> 'w step_fun" where
  "local_CopyContent env password ctx content dstPath options =
     (let opts = or_zero zero_CopyOptions options;
          ctx' = (if sint (co_Timeout opts) > 0 then TimeoutCtx ctx (co_Timeout opts) else ctx)
      in if co_Sudo opts
         then local_with_temp env ''localconnector-content-''
                (local_move_temp env password ctx' content [local_mkdir_step env password ctx' (filepath_Dir dstPath)] dstPath opts)
         else (case local_file_mode (co_Permissions opts) of
                 None \<Rightarrow> fail_step (Errorf ''invalid permissions format for CopyContent'')
               | Some mode \<Rightarrow>
                   steps_in_turn [os_step ''failed to create destination directory'' (os_MkdirAll env (filepath_Dir dstPath) 493),
                     (\<lambda>w. case os_WriteFile env dstPath content mode w of (None, w1) \<Rightarrow> (None, w1) | (Some m, w1) \<Rightarrow> (Some (Errorf m), w1))]))"

definition local_Remove :: "'w os_env \<Rightarrow> string \<Rightarrow> go_ctx \<Rightarrow> string \<Rightarrow> bool \<Rightarrow> bool \<Rightarrow> bool \<Rightarrow> 'w step_fun" where
  "local_Remove env password ctx path recursive ignoreNotExist sudo w =
     (case os_Lstat env path w of
        (PathMissing, w1) \<Rightarrow> if ignoreNotExist then (None, w1) else (Some (Wrapf ''path does not exist'' (Errorf ''file does not exist'')), w1)
      | (PathFailed m, w1) \<Rightarrow> (Some (Wrapf ''failed to stat path before removal'' (Errorf m)), w1)
      | (PathFound d, w1) \<Rightarrow>
          if sudo
          then local_exec_step env password ctx ''failed to remove with sudo''
                 (strings_Join ([''rm''] @ (if recursive then [''-r''] else []) @ [''-f'', shellEscape path]) '' '') w1
          else os_step ''failed to remove'' (if recursive then os_RemoveAll env path else os_Remove env path) w1)"

definition local_ReadFileWithOptions :: "'w os_env \<Rightarrow> string \<Rightarrow> go_ctx \<Rightarrow> string \<Rightarrow> CopyOptions option \<Rightarrow> 'w \<Rightarrow> (error_value + string) \<times> 'w" where
  "local_ReadFileWithOptions env password ctx path opts w =
     (if \<not> co_Sudo (or_zero zero_CopyOptions opts)
      then (case os_ReadFile env path w of
              (Inl m, w1) \<Rightarrow> (Inl (Wrapf ''failed to read local file'' (Errorf m)), w1) | (Inr data, w1) \<Rightarrow> (Inr data, w1))
      else let t = co_Timeout (or_zero zero_CopyOptions opts);
               o' = (if sint t > 0 then (sudo_options True)\<lparr>ro_Timeout := t\<rparr> else sudo_options True)
           in case local_Exec env password ctx (''cat '' @ path) (Some o') w of
                ((out, err, Some e), w1) \<Rightarrow> (Inl (Wrapf ''failed to read file with local sudo cat'' e), w1)
              | ((out, err, None), w1) \<Rightarrow> (Inr out, w1))"

section \<open>Retries\<close>

definition local_again :: "'w os_env \<Rightarrow> go_ctx \<Rightarrow> RunOptions \<Rightarrow> 'w \<Rightarrow> bool \<times> 'w" where
  "local_again env ctx o' w =
     (if attempt_ctx_done env ctx o' w \<or> os_done env ctx w then (False, w)
      else (True, if sint (ro_RetryDelay o') > 0 then os_sleep env (ro_RetryDelay o') w else w))"

interpretation local_retry: retry_loop "os_run env (local_process_of password ctx cmd o')" "\<lambda>r. snd (snd r) = None" "local_again env ctx o'"
    "local_attempts env password ctx cmd o'" for env password ctx cmd o'
proof unfold_locales
  fix s s1 s2 and r :: "string \<times> string \<times> error_value option" and n
  assume a: "os_run env (local_process_of password ctx cmd o') s = (r, s1)"
  show "snd (snd r) = None \<Longrightarrow> local_attempts env password ctx cmd o' n s = (r, s1)"
    using a by (cases r) (auto simp: local_attempts.simps[of _ _ _ _ _ n])
  assume "snd (snd r) \<noteq> None"
  then obtain out err e where r: "r = (out, err, Some e)" by (cases r) auto
  show "snd (snd (fst (local_attempts env password ctx cmd o' 0 s))) \<noteq> None"
    using a r by (auto simp: local_attempts.simps[of _ _ _ _ _ 0])
  show "local_again env ctx o' s1 = (True, s2) \<Longrightarrow> local_attempts env password ctx cmd o' (Suc n) s = local_attempts env password ctx cmd o' n s2"
    using a r by (auto simp: local_attempts.simps[of _ _ _ _ _ "Suc n"] local_again_def split: if_splits)
  show "local_again env ctx o' s1 = (False, s2) \<Longrightarrow> snd (snd (fst (local_attempts env password ctx cmd o' n s))) \<noteq> None"
    using a r by (cases n) (auto simp: local_attempts.simps[of _ _ _ _ _ 0] local_attempts.simps[of _ _ _ _ _ "Suc m" for m] local_again_def split: if_splits)
qed

text \<open>With a timeout the local connector never retries: a command is attempted once, whatever the number of
  retries in its options.\<close>

theorem local_Exec_timeout_no_retry:
  assumes "sint (ro_Timeout o') > 0" "0 \<le> ro_Retries o'"
  shows "local_Exec env password ctx cmd (Some o') w = local_Exec env password ctx cmd (Some (o'\<lparr>ro_Retries := 0\<rparr>)) w"
proof -
  have "local_process_of password ctx cmd (o'\<lparr>ro_Retries := 0\<rparr>) = local_process_of password ctx cmd o'"
    by (simp add: local_process_of_def local_attempt_ctx_def)
  then have "local_attempts env password ctx cmd o' n w = local_attempts env password ctx cmd (o'\<lparr>ro_Retries := 0\<rparr>) 0 w" for n
    using assms(1) by (auto simp: local_attempts.simps[of _ _ _ _ _ n] local_attempts.simps[of _ _ _ _ _ 0] attempt_ctx_done_def
        split: prod.splits option.splits)
  with assms(2) show ?thesis by (simp add: local_Exec_def)
qed

definition demo_os :: "nat os_env" where
  "demo_os =
     \<lparr>os_run = (\<lambda>p w. (([], [], if w = 0 then Some (ExitError 1) else None), Suc w)), os_done = (\<lambda>ctx w. False), os_sleep = (\<lambda>d w. w),
      os_Lstat = (\<lambda>p w. (PathMissing, w)), os_IsDir = (\<lambda>p w. False), os_MkdirAll = (\<lambda>p m w. (None, w)), os_WriteFile = (\<lambda>p c m w. (None, w)),
      os_CreateTemp = (\<lambda>p w. (Inr ''/tmp/x'', w)), os_WriteTemp = (\<lambda>p c w. (None, w)), os_Remove = (\<lambda>p w. (None, w)),
      os_RemoveAll = (\<lambda>p w. (None, w)), os_ReadFile = (\<lambda>p w. (Inr [], w))\<rparr>"

text \<open>The second attempt would succeed, and is not made.\<close>

theorem local_Exec_timeout_no_retry_witness:
  "snd (local_Exec demo_os [] CallerCtx ''true'' (Some ((sudo_options False)\<lparr>ro_Timeout := 1, ro_Retries := 3\<rparr>)) 0) = 1"
  using local_Exec_timeout_no_retry[of "(sudo_options False)\<lparr>ro_Timeout := 1, ro_Retries := 3\<rparr>" demo_os "[]" CallerCtx "''true''" 0]
  by (simp add: local_Exec_def local_attempts.simps demo_os_def Let_def)

text \<open>Every failure is a \<^verbatim>\<open>CommandError\<close>.\<close>

lemma local_Exec_error_kind: "local_Exec env password ctx cmd options w = ((out, err, Some e), w1) \<Longrightarrow> is_CommandError e"
  by (auto simp: local_Exec_def Let_def split: if_splits prod.splits option.splits)

text \<open>The command for the owner squeezes blanks after quoting: a path with two blanks in a row names another file.\<close>

lemma chown_command_wrong_path:
  "sh_words (chown_command False ''root'' ''/a  b'') = Some [''chown'', ''root'', ''/a b'']"
  by (simp add: chown_command_def shellEscape_def TrimSpace_def is_space_def sh_words_def plain_char_def is_blank_def less_eq_char_def)

end
