(* ===== verification/Runner.thy ===== *)
theory Runner
  imports SshFiles LocalConnector
begin

text \<open>
  The runner (\<^verbatim>\<open>runner/command.go\<close>, \<^verbatim>\<open>runner/service.go\<close>, \<^verbatim>\<open>runner/package.go\<close>): commands, services and packages
  over any connector. A connector is a record of functions on a world \<open>'w\<close>, nil is \<open>None\<close>; the two
  connectors of the program are instances. Texts of errors are shortened, their chains are kept.
\<close>

section \<open>Connectors\<close>

record 'w connector =
  cn_Exec :: "go_ctx \<Rightarrow> string \<Rightarrow> RunOptions option \<Rightarrow> 'w \<Rightarrow> (string \<times> string \<times> error_value option) \<times> 'w"
  cn_Stat :: "go_ctx \<Rightarrow> string \<Rightarrow> 'w \<Rightarrow> (error_value + FileStat) \<times> 'w"
  cn_LookPath :: "go_ctx \<Rightarrow> string \<Rightarrow> 'w \<Rightarrow> (error_value + string) \<times> 'w"
  cn_ReadFile :: "go_ctx \<Rightarrow> string \<Rightarrow> 'w \<Rightarrow> (error_value + string) \<times> 'w"
  cn_WriteFile :: "go_ctx \<Rightarrow> string \<Rightarrow> string \<Rightarrow> CopyOptions option \<Rightarrow> 'w step_fun"

definition ssh_connector :: "'w ssh_env \<Rightarrow> 'w ssh_state connector" where
  "ssh_connector env =
     \<lparr>cn_Exec = Exec env, cn_Stat = (\<lambda>ctx. ssh_Stat env), cn_LookPath = ssh_LookPath env, cn_ReadFile = (\<lambda>ctx. ssh_ReadFile env),
      cn_WriteFile = ssh_WriteFile env\<rparr>"

section \<open>Running commands\<close>

record CommandResult =
  cr_ExitCode :: int
  cr_Stdout :: string
  cr_Stderr :: string
  cr_Success :: bool

abbreviation nil_connector :: error_value where
  "nil_connector \<equiv> Errorf ''connector cannot be nil''"

definition Run :: "'w connector option \<Rightarrow> go_ctx \<Rightarrow> string \<Rightarrow> bool \<Rightarrow> 'w \<Rightarrow> (CommandResult \<times> error_value option) \<times> 'w" where
  "Run conn ctx cmd sudo w =
     (case conn of
        None \<Rightarrow> ((\<lparr>cr_ExitCode = -1, cr_Stdout = [], cr_Stderr = [], cr_Success = False\<rparr>, Some nil_connector), w)
      | Some c \<Rightarrow>
          (case cn_Exec c ctx cmd (Some (sudo_options sudo)) w of
             ((out, err, e), w1) \<Rightarrow>
               (let result = \<lparr>cr_ExitCode = 0, cr_Stdout = out, cr_Stderr = err, cr_Success = (e = None)\<rparr> in
                case e of
                  None \<Rightarrow> ((result, None), w1)
                | Some e' \<Rightarrow>
                    ((result\<lparr>cr_ExitCode := (case as_CommandError e' of Some n \<Rightarrow> n | None \<Rightarrow> -1), cr_Success := False\<rparr>, Some e'), w1))))"

definition OriginRun :: "'w connector option \<Rightarrow> go_ctx \<Rightarrow> string \<Rightarrow> bool \<Rightarrow> 'w \<Rightarrow> (string \<times> string \<times> error_value option) \<times> 'w" where
  "OriginRun conn ctx cmd sudo w =
     (case conn of
        None \<Rightarrow> (([], [], Some nil_connector), w)
      | Some c \<Rightarrow>
          (case cn_Exec c ctx cmd (Some (sudo_options sudo)) w of
             ((out, err, None), w1) \<Rightarrow> ((out, err, None), w1)
           | ((out, err, Some e), w1) \<Rightarrow>
               ((out, err, Some (if length err > 0 then Wrapf (''command failed, stderr: '' @ err) e else Wrapf ''command failed'' e)), w1)))"

definition MustRun :: "'w connector option \<Rightarrow> go_ctx \<Rightarrow> string \<Rightarrow> bool \<Rightarrow> 'w \<Rightarrow> (CommandResult \<times> error_value option) \<times> 'w" where
  "MustRun conn ctx cmd sudo w =
     (case Run conn ctx cmd sudo w of
        ((r, Some e), w1) \<Rightarrow> ((r, Some (Wrapf ''command failed'' e)), w1)
      | ((r, None), w1) \<Rightarrow> ((r, None), w1))"

definition Check :: "'w connector option \<Rightarrow> go_ctx \<Rightarrow> string \<Rightarrow> bool \<Rightarrow> 'w \<Rightarrow> (bool \<times> error_value option) \<times> 'w" where
  "Check conn ctx cmd sudo w =
     (case conn of
        None \<Rightarrow> ((False, Some nil_connector), w)
      | Some c \<Rightarrow>
          (case cn_Exec c ctx cmd (Some (sudo_options sudo)) w of
             ((out, err, None), w1) \<Rightarrow> ((True, None), w1)
           | ((out, err, Some e), w1) \<Rightarrow> if as_CommandError e \<noteq> None then ((False, None), w1) else ((False, Some e), w1)))"

definition RunWithOptions :: "'w connector option \<Rightarrow> go_ctx \<Rightarrow> string \<Rightarrow> RunOptions option \<Rightarrow> 'w \<Rightarrow> (string \<times> string \<times> error_value option) \<times> 'w" where
  "RunWithOptions conn ctx cmd opts w =
     (case conn of
        None \<Rightarrow> (([], [], Some nil_connector), w)
      | Some c \<Rightarrow> cn_Exec c ctx cmd (Some (or_zero zero_RunOptions opts)) w)"

definition LookPath :: "'w connector option \<Rightarrow> go_ctx \<Rightarrow> string \<Rightarrow> 'w \<Rightarrow> (error_value + string) \<times> 'w" where
  "LookPath conn ctx file w = (case conn of None \<Rightarrow> (Inl nil_connector, w) | Some c \<Rightarrow> cn_LookPath c ctx file w)"

definition background_command :: "string option \<Rightarrow> string \<Rightarrow> string" where
  "background_command nohupPath cmd =
     (let escapedCmd = replace_char sq [bslash, sq] cmd in
      case nohupPath of
        None \<Rightarrow> ''sh -c '' @ [sq] @ escapedCmd @ '' > /dev/null 2>&1 &'' @ [sq] @ '' ''
      | Some p \<Rightarrow> p @ '' sh -c '' @ [sq] @ escapedCmd @ [sq] @ '' > /dev/null 2>&1 &'')"

text \<open>A command by options, its error wrapped.\<close>

definition run_step :: "'w connector option \<Rightarrow> go_ctx \<Rightarrow> string \<Rightarrow> string \<Rightarrow> bool \<Rightarrow> 'w step_fun" where
  "run_step conn ctx msg cmd sudo w =
     (case RunWithOptions conn ctx cmd (Some (sudo_options sudo)) w of
        ((out, err, None), w1) \<Rightarrow> (None, w1)
      | ((out, err, Some e), w1) \<Rightarrow> (Some (Wrapf msg e), w1))"

definition RunInBackground :: "'w connector option \<Rightarrow> go_ctx \<Rightarrow> string \<Rightarrow> bool \<Rightarrow> 'w step_fun" where
  "RunInBackground conn ctx cmd sudo w =
     (if conn = None then (Some nil_connector, w)
      else if TrimSpace cmd = [] then (Some (Errorf ''command cannot be empty for RunInBackground''), w)
      else case LookPath conn ctx ''nohup'' w of
             (r, w1) \<Rightarrow>
               run_step conn ctx ''failed to launch command in background''
                 (background_command (case r of Inl _ \<Rightarrow> None | Inr p \<Rightarrow> Some p) cmd) sudo w1)"

section \<open>Retrying a command\<close>

text \<open>
  \<^verbatim>\<open>RunRetry\<close>: the context is looked at before every attempt and during the delay. The world tells when it
  is done (\<open>done\<close>) and whether a delay ran to its end (\<open>after\<close>). The number of attempts is computed in
  \<^verbatim>\<open>int\<close>; \<open>None\<close> is the panic of reading the result when no attempt was made.
\<close>

record 'w clock =
  ck_done :: "go_ctx \<Rightarrow> 'w \<Rightarrow> bool"
  ck_after :: "go_ctx \<Rightarrow> duration \<Rightarrow> 'w \<Rightarrow> bool \<times> 'w"

fun retry_from :: "'w clock \<Rightarrow> 'w connector option \<Rightarrow> go_ctx \<Rightarrow> string \<Rightarrow> bool \<Rightarrow> duration \<Rightarrow> nat \<Rightarrow> (CommandResult \<times> error_value) option \<Rightarrow>
    'w \<Rightarrow> (string \<times> error_value option) \<times> 'w" where
  "retry_from ck conn ctx cmd sudo delay n lastRun w =
     (if ck_done ck ctx w
      then (case lastRun of
              Some (r, e) \<Rightarrow> ((cr_Stdout r, Some (Errorf ''context cancelled during retries'')), w)
            | None \<Rightarrow> (([], Some (Errorf ''context cancelled before command could complete'')), w))
      else case Run conn ctx cmd sudo w of
             ((r, None), w1) \<Rightarrow> ((cr_Stdout r, None), w1)
           | ((r, Some e), w1) \<Rightarrow>
               (case n of
                  0 \<Rightarrow> ((cr_Stdout r, Some (Wrapf ''command failed after all attempts'' e)), w1)
                | Suc m \<Rightarrow>
                    if sint delay > 0
                    then (case ck_after ck ctx delay w1 of
                            (True, w2) \<Rightarrow> retry_from ck conn ctx cmd sudo delay m (Some (r, e)) w2
                          | (False, w2) \<Rightarrow> ((cr_Stdout r, Some (Errorf ''context cancelled during delay'')), w2))
                    else retry_from ck conn ctx cmd sudo delay m (Some (r, e)) w1))"

declare retry_from.simps [simp del]

definition RunRetry :: "'w clock \<Rightarrow> 'w connector option \<Rightarrow> go_ctx \<Rightarrow> string \<Rightarrow> bool \<Rightarrow> goint \<Rightarrow> duration \<Rightarrow> 'w \<Rightarrow>
    (string \<times> error_value option) option \<times> 'w" where
  "RunRetry ck conn ctx cmd sudo retries delay w =
     (if conn = None then (Some ([], Some nil_connector), w)
      else if TrimSpace cmd = [] then (Some ([], Some (Errorf ''command cannot be empty for RunRetry'')), w)
      else let retries' = (if sint retries < 0 then 0 else retries);
               totalAttempts = 1 + retries'
           in if sint totalAttempts \<le> 0 then (None, w)
              else case retry_from ck conn ctx cmd sudo delay (nat (sint totalAttempts) - 1) None w of (r, w1) \<Rightarrow> (Some r, w1))"


text \<open>\<^verbatim>\<open>RunRetry\<close> returns for every number of retries but the largest \<^verbatim>\<open>int\<close>, for which the number of attempts
  overflows, no attempt is made and reading the missing result panics.\<close>

theorem RunRetry_panics_iff:
  assumes "conn \<noteq> None" "TrimSpace cmd \<noteq> []"
  shows "fst (RunRetry ck conn ctx cmd sudo retries delay w) = None \<longleftrightarrow> sint retries = 2 ^ 63 - 1"
proof -
  let ?r = "if sint retries < 0 then 0 else retries"
  have r: "0 \<le> sint ?r" "sint ?r < 2 ^ 63" using sint_range_size[of retries] by (auto simp: word_size)
  have "1 + ?r = word_of_int (1 + sint ?r)" by simp
  then have "sint (1 + ?r) = sint (word_of_int (1 + sint ?r) :: 64 word)" by (simp only:)
  also have "\<dots> = signed_take_bit 63 (1 + sint ?r)" by (subst signed_of_int) simp
  also have "\<dots> = (1 + sint ?r + 2 ^ 63) mod 2 ^ 64 - 2 ^ 63"
    by (simp add: signed_take_bit_eq_take_bit_shift take_bit_eq_mod)
  finally have "sint (1 + ?r) = (1 + sint ?r + 2 ^ 63) mod 2 ^ 64 - 2 ^ 63" .
  then have "sint (1 + ?r) \<le> 0 \<longleftrightarrow> sint ?r = 2 ^ 63 - 1"
    using r by (cases "sint ?r = 2 ^ 63 - 1") (simp_all add: mod_pos_pos_trivial)
  moreover have "sint ?r = 2 ^ 63 - 1 \<longleftrightarrow> sint retries = 2 ^ 63 - 1" by simp
  ultimately show ?thesis using assms by (auto simp: RunRetry_def Let_def split: prod.splits)
qed

definition demo_clock :: "'w clock" where
  "demo_clock = \<lparr>ck_done = (\<lambda>ctx w. False), ck_after = (\<lambda>ctx d w. (True, w))\<rparr>"

theorem RunRetry_panics_iff_witness:
  "fst (RunRetry demo_clock (Some (ssh_connector demo_ssh_env)) CallerCtx ''true'' False 9223372036854775807 0 (demo_ssh, 0)) = None"
proof -
  have "sint (9223372036854775807 :: 64 word) = 2 ^ 63 - 1" by simp
  moreover have "TrimSpace ''true'' \<noteq> []" by (simp add: TrimSpace_def is_space_def)
  ultimately show ?thesis
    using RunRetry_panics_iff[of "Some (ssh_connector demo_ssh_env)" "''true''" demo_clock CallerCtx False 9223372036854775807 0 "(demo_ssh, 0)"] by simp
qed

section \<open>Checks over SSH\<close>

text \<open>Over an SSH connection whose keep-alive is answered \<^verbatim>\<open>Check\<close> never reports an error: a session that cannot be opened, a
  command that cannot be started, a timeout and a lost connection all read as a check that is false, like an
  exit status of the command.\<close>

theorem Check_ssh_hides_failures:
  assumes "IsConnected env c w = (True, c', w')"
  shows "\<exists>st. Check (Some (ssh_connector env)) ctx cmd sudo (c, w) =
    ((ended_well (fst (Exec env ctx cmd (Some (sudo_options sudo)) (c, w))), None), st)"
proof -
  obtain out err e st where x: "Exec env ctx cmd (Some (sudo_options sudo)) (c, w) = ((out, err, e), st)" by (metis prod.exhaust)
  show ?thesis
  proof (cases e)
    case None
    with x show ?thesis by (simp add: Check_def ssh_connector_def)
  next
    case (Some e')
    have "is_CommandError e'" by (rule Exec_error_kind[OF assms _ x[unfolded Some]]) simp
    from is_as_CommandError[OF this] x Some show ?thesis by (auto simp: Check_def ssh_connector_def)
  qed
qed

text \<open>No session can be opened, and the check is answered false without an error.\<close>

theorem Check_ssh_hides_failures_witness:
  "\<exists>st. Check (Some (ssh_connector demo_ssh_env)) CallerCtx ''test -e /x'' False (demo_ssh, 0) = ((False, None), st)"
proof -
  have "\<not> ended_well (fst (Exec demo_ssh_env CallerCtx ''test -e /x'' (Some (sudo_options False)) (demo_ssh, 0)))"
    by (simp add: Exec_def demo_connected ssh_attempts.simps runOnce_def Let_def) (simp add: demo_ssh_env_def)
  with Check_ssh_hides_failures[OF demo_connected, of CallerCtx "''test -e /x''" False 0] show ?thesis by simp
qed

section \<open>Facts, services and packages\<close>

text \<open>\<^verbatim>\<open>fmt.Sprintf\<close> with strings as arguments, for templates whose verbs are \<^verbatim>\<open>%s\<close> and \<^verbatim>\<open>%%\<close>.\<close>

definition extra_args :: "string list \<Rightarrow> string" where
  "extra_args as = (if as = [] then [] else ''%!(EXTRA '' @ strings_Join (map (\<lambda>a. ''string='' @ a) as) '', '' @ '')'')"

fun Sprintf :: "string \<Rightarrow> string list \<Rightarrow> string" where
  "Sprintf [] as = extra_args as"
| "Sprintf [c] as = c # extra_args as"
| "Sprintf (c # d # t) as =
     (if c = CHR ''%'' \<and> d = CHR ''s''
      then (case as of [] \<Rightarrow> ''%!s(MISSING)'' @ Sprintf t [] | a # as' \<Rightarrow> a @ Sprintf t as')
      else if c = CHR ''%'' \<and> d = CHR ''%'' then CHR ''%'' # Sprintf t as
      else c # Sprintf (d # t) as)"

datatype InitSystemType = InitSystemUnknown | InitSystemSystemd | InitSystemSysV

record ServiceInfo =
  si_Type :: InitSystemType
  si_StartCmd :: string
  si_StopCmd :: string
  si_EnableCmd :: string
  si_DisableCmd :: string
  si_RestartCmd :: string
  si_IsActiveCmd :: string
  si_DaemonReloadCmd :: string

datatype PackageManagerType = PackageManagerUnknown | PackageManagerApt | PackageManagerYum | PackageManagerDnf

record PackageInfo =
  pi_Type :: PackageManagerType
  pi_UpdateCmd :: string
  pi_InstallCmd :: string
  pi_RemoveCmd :: string
  pi_PkgQueryCmd :: string
  pi_CacheCleanCmd :: string

text \<open>The facts of a host as these operations use them; the operating system has been determined.\<close>

record Facts =
  ft_OS :: OS
  ft_PackageManager :: "PackageInfo option"
  ft_InitSystem :: "ServiceInfo option"

definition init_system :: "Facts option \<Rightarrow> ServiceInfo option" where
  "init_system facts = Option.bind facts ft_InitSystem"

definition package_manager :: "Facts option \<Rightarrow> PackageInfo option" where
  "package_manager facts = Option.bind facts ft_PackageManager"

definition manageService :: "'w connector option \<Rightarrow> go_ctx \<Rightarrow> Facts option \<Rightarrow> string \<Rightarrow> string \<Rightarrow> bool \<Rightarrow> 'w step_fun" where
  "manageService conn ctx facts serviceName commandTemplate sudo w =
     (if conn = None then (Some nil_connector, w)
      else if init_system facts = None then (Some (Errorf ''init system facts not available''), w)
      else if TrimSpace serviceName = [] then (Some (Errorf ''serviceName cannot be empty''), w)
      else if commandTemplate = [] then (Some (Errorf ''internal error: command template is empty for service management''), w)
      else run_step conn ctx ''failed to manage service'' (Sprintf commandTemplate [serviceName]) sudo w)"

definition says_running :: "string \<Rightarrow> bool" where
  "says_running out =
     (let outputStr = ToLower out in
      Contains outputStr ''is running'' \<or> Contains outputStr ''running...'' \<or> Contains outputStr ''active (running)'')"

definition IsServiceActive :: "'w connector option \<Rightarrow> go_ctx \<Rightarrow> Facts option \<Rightarrow> string \<Rightarrow> 'w \<Rightarrow> (bool \<times> error_value option) \<times> 'w" where
  "IsServiceActive conn ctx facts serviceName w =
     (if conn = None then ((False, Some nil_connector), w)
      else case init_system facts of
        None \<Rightarrow> ((False, Some (Errorf ''init system facts not available for IsServiceActive'')), w)
      | Some svc \<Rightarrow>
          if TrimSpace serviceName = [] then ((False, Some (Errorf ''serviceName cannot be empty'')), w)
          else let cmd = Sprintf (si_IsActiveCmd svc) [serviceName] in
               (case si_Type svc of
                  InitSystemSystemd \<Rightarrow> Check conn ctx cmd False w
                | InitSystemSysV \<Rightarrow>
                    (case RunWithOptions conn ctx cmd (Some (sudo_options False)) w of
                       ((out, err, None), w1) \<Rightarrow> ((says_running out, None), w1)
                     | ((out, err, Some e), w1) \<Rightarrow>
                         if as_CommandError e \<noteq> None then ((False, None), w1)
                         else ((False, Some (Wrapf ''failed to check SysV service status'' e)), w1))
                | InitSystemUnknown \<Rightarrow> ((False, Some (Errorf ''IsServiceActive not fully implemented for init system type'')), w)))"

text \<open>A query by exit status; the error is only looked at itself, not along its chain.\<close>

definition exit_status_query :: "'w connector option \<Rightarrow> go_ctx \<Rightarrow> string \<Rightarrow> 'w \<Rightarrow> (bool \<times> error_value option) \<times> 'w" where
  "exit_status_query conn ctx cmd w =
     (case RunWithOptions conn ctx cmd (Some (sudo_options False)) w of
        ((out, err, None), w1) \<Rightarrow> ((True, None), w1)
      | ((out, err, Some e), w1) \<Rightarrow> if is_CommandError e then ((False, None), w1) else ((False, Some e), w1))"

definition IsServiceEnabled :: "'w connector option \<Rightarrow> go_ctx \<Rightarrow> Facts option \<Rightarrow> string \<Rightarrow> 'w \<Rightarrow> (bool \<times> error_value option) \<times> 'w" where
  "IsServiceEnabled conn ctx facts serviceName w =
     (if conn = None then ((False, Some nil_connector), w)
      else case (facts, init_system facts) of
        (Some f, Some svc) \<Rightarrow>
          if TrimSpace serviceName = [] then ((False, Some (Errorf ''serviceName cannot be empty'')), w)
          else (case si_Type svc of
                  InitSystemSystemd \<Rightarrow> exit_status_query conn ctx (''systemctl is-enabled --quiet '' @ serviceName) w
                | InitSystemSysV \<Rightarrow>
                    (let osFamily = ToLower (os_ID (ft_OS f));
                         by_links = (\<lambda>w1. Check conn ctx (''ls /etc/rc?.d/S* | grep -qE '' @ [sq] @ ''/S[0-9]+'' @ serviceName @ ''$'' @ [sq]) False w1)
                     in if osFamily \<in> {''rhel'', ''centos'', ''fedora''}
                        then (case LookPath conn ctx ''chkconfig'' w of
                                (Inr p, w1) \<Rightarrow> exit_status_query conn ctx (''chkconfig '' @ serviceName) w1
                              | (Inl e, w1) \<Rightarrow> by_links w1)
                        else by_links w)
                | InitSystemUnknown \<Rightarrow> ((False, Some (Errorf ''IsServiceEnabled not implemented for init system type'')), w))
      | _ \<Rightarrow> ((False, Some (Errorf ''init system facts not available for IsServiceEnabled'')), w))"

definition StartService :: "'w connector option \<Rightarrow> go_ctx \<Rightarrow> Facts option \<Rightarrow> string \<Rightarrow> 'w step_fun" where
  "StartService conn ctx facts serviceName w =
     (case init_system facts of
        None \<Rightarrow> (Some (Errorf ''init system facts not available for StartService''), w)
      | Some svc \<Rightarrow>
          (case IsServiceActive conn ctx facts serviceName w of
             ((active, Some e), w1) \<Rightarrow> (Some (Wrapf ''failed to check service status'' e), w1)
           | ((active, None), w1) \<Rightarrow> if active then (None, w1) else manageService conn ctx facts serviceName (si_StartCmd svc) True w1))"

definition StopService :: "'w connector option \<Rightarrow> go_ctx \<Rightarrow> Facts option \<Rightarrow> string \<Rightarrow> 'w step_fun" where
  "StopService conn ctx facts serviceName w =
     (case init_system facts of
        None \<Rightarrow> (Some (Errorf ''init system facts not available for StopService''), w)
      | Some svc \<Rightarrow>
          (case IsServiceActive conn ctx facts serviceName w of
             ((active, Some e), w1) \<Rightarrow> (Some (Wrapf ''failed to check service status'' e), w1)
           | ((active, None), w1) \<Rightarrow> if \<not> active then (None, w1) else manageService conn ctx facts serviceName (si_StopCmd svc) True w1))"

definition RestartService :: "'w connector option \<Rightarrow> go_ctx \<Rightarrow> Facts option \<Rightarrow> string \<Rightarrow> 'w step_fun" where
  "RestartService conn ctx facts serviceName w =
     (case init_system facts of
        None \<Rightarrow> (Some (Errorf ''init system facts not available for RestartService''), w)
      | Some svc \<Rightarrow> manageService conn ctx facts serviceName (si_RestartCmd svc) True w)"

definition EnableService :: "'w connector option \<Rightarrow> go_ctx \<Rightarrow> Facts option \<Rightarrow> string \<Rightarrow> 'w step_fun" where
  "EnableService conn ctx facts serviceName w =
     (case init_system facts of
        None \<Rightarrow> (Some (Errorf ''init system facts not available for EnableService''), w)
      | Some svc \<Rightarrow>
          (case IsServiceEnabled conn ctx facts serviceName w of
             ((enabled, err), w1) \<Rightarrow>
               if err = None \<and> enabled then (None, w1)
               else if si_Type svc = InitSystemSysV \<and> (si_EnableCmd svc = [] \<or> \<not> Contains (si_EnableCmd svc) ''%s'')
               then (Some (Errorf ''enabling service is not reliably supported for detected SysV init variant''), w1)
               else manageService conn ctx facts serviceName (si_EnableCmd svc) True w1))"

definition DisableService :: "'w connector option \<Rightarrow> go_ctx \<Rightarrow> Facts option \<Rightarrow> string \<Rightarrow> 'w step_fun" where
  "DisableService conn ctx facts serviceName w =
     (case init_system facts of
        None \<Rightarrow> (Some (Errorf ''init system facts not available for DisableService''), w)
      | Some svc \<Rightarrow>
          (case IsServiceEnabled conn ctx facts serviceName w of
             ((enabled, err), w1) \<Rightarrow>
               if err = None \<and> \<not> enabled then (None, w1)
               else if si_Type svc = InitSystemSysV \<and> (si_DisableCmd svc = [] \<or> \<not> Contains (si_DisableCmd svc) ''%s'')
               then (Some (Errorf ''disabling service is not reliably supported for detected SysV init variant''), w1)
               else manageService conn ctx facts serviceName (si_DisableCmd svc) True w1))"

definition DaemonReload :: "'w connector option \<Rightarrow> go_ctx \<Rightarrow> Facts option \<Rightarrow> 'w step_fun" where
  "DaemonReload conn ctx facts w =
     (if conn = None then (Some nil_connector, w)
      else case init_system facts of
        None \<Rightarrow> (Some (Errorf ''init system facts not available for DaemonReload''), w)
      | Some svc \<Rightarrow>
          if si_DaemonReloadCmd svc = []
          then (if si_Type svc = InitSystemSysV then (None, w) else (Some (Errorf ''daemon-reload command not defined for init system type''), w))
          else run_step conn ctx ''failed to execute daemon-reload'' (si_DaemonReloadCmd svc) True w)"

section \<open>Packages\<close>

definition IsPackageInstalled :: "'w connector option \<Rightarrow> go_ctx \<Rightarrow> Facts option \<Rightarrow> string \<Rightarrow> 'w \<Rightarrow> (bool \<times> error_value option) \<times> 'w" where
  "IsPackageInstalled conn ctx facts packageName w =
     (if conn = None then ((False, Some nil_connector), w)
      else case package_manager facts of
        None \<Rightarrow> ((False, Some (Errorf ''package manager facts not available'')), w)
      | Some pm \<Rightarrow>
          if TrimSpace packageName = [] then ((False, Some (Errorf ''packageName cannot be empty'')), w)
          else if pi_PkgQueryCmd pm = [] then ((False, Some (Errorf ''package query command not defined'')), w)
          else (case RunWithOptions conn ctx (Sprintf (pi_PkgQueryCmd pm) [packageName]) (Some (sudo_options False)) w of
                  ((out, err, e), w1) \<Rightarrow>
                    (case pi_Type pm of
                       PackageManagerApt \<Rightarrow> if e \<noteq> None then ((False, None), w1) else ((Contains out ''install ok installed'', None), w1)
                     | PackageManagerYum \<Rightarrow> ((e = None, None), w1)
                     | PackageManagerDnf \<Rightarrow> ((e = None, None), w1)
                     | PackageManagerUnknown \<Rightarrow> ((False, Some (Errorf ''package installed check not fully implemented or query failed'')), w1))))"

fun missing_packages :: "'w connector option \<Rightarrow> go_ctx \<Rightarrow> Facts option \<Rightarrow> string list \<Rightarrow> 'w \<Rightarrow> string list \<times> 'w" where
  "missing_packages conn ctx facts [] w = ([], w)"
| "missing_packages conn ctx facts (pkg # pkgs) w =
     (case IsPackageInstalled conn ctx facts pkg w of
        ((installed, err), w1) \<Rightarrow>
          (case missing_packages conn ctx facts pkgs w1 of (ms, w2) \<Rightarrow> (if \<not> installed then pkg # ms else ms, w2)))"

definition InstallPackages :: "'w connector option \<Rightarrow> go_ctx \<Rightarrow> Facts option \<Rightarrow> string list \<Rightarrow> 'w step_fun" where
  "InstallPackages conn ctx facts packages w =
     (if conn = None then (Some nil_connector, w)
      else case package_manager facts of
        None \<Rightarrow> (Some (Errorf ''package manager facts not available''), w)
      | Some pm \<Rightarrow>
          if length packages = 0 then (Some (Errorf ''no packages specified for installation''), w)
          else (case missing_packages conn ctx facts packages w of
                  (packagesToInstall, w1) \<Rightarrow>
                    if length packagesToInstall = 0 then (None, w1)
                    else run_step conn ctx ''failed to install packages''
                           (Sprintf (pi_InstallCmd pm) [strings_Join packagesToInstall '' '']) True w1))"

definition RemovePackages :: "'w connector option \<Rightarrow> go_ctx \<Rightarrow> Facts option \<Rightarrow> string list \<Rightarrow> 'w step_fun" where
  "RemovePackages conn ctx facts packages w =
     (if conn = None then (Some nil_connector, w)
      else case package_manager facts of
        None \<Rightarrow> (Some (Errorf ''package manager facts not available''), w)
      | Some pm \<Rightarrow>
          if length packages = 0 then (Some (Errorf ''no packages specified for removal''), w)
          else run_step conn ctx ''failed to remove packages'' (Sprintf (pi_RemoveCmd pm) [strings_Join packages '' '']) True w)"

definition UpdatePackageCache :: "'w connector option \<Rightarrow> go_ctx \<Rightarrow> Facts option \<Rightarrow> 'w step_fun" where
  "UpdatePackageCache conn ctx facts w =
     (if conn = None then (Some nil_connector, w)
      else case package_manager facts of
        None \<Rightarrow> (Some (Errorf ''package manager facts not available''), w)
      | Some pm \<Rightarrow> run_step conn ctx ''failed to update package cache'' (pi_UpdateCmd pm) True w)"

definition WriteFile :: "'w connector option \<Rightarrow> go_ctx \<Rightarrow> string \<Rightarrow> string \<Rightarrow> string \<Rightarrow> bool \<Rightarrow> 'w step_fun" where
  "WriteFile conn ctx content destPath permissions sudo w =
     (case conn of
        None \<Rightarrow> (Some nil_connector, w)
      | Some c \<Rightarrow> cn_WriteFile c ctx content destPath (Some (zero_CopyOptions\<lparr>co_Permissions := permissions, co_Sudo := sudo\<rparr>)) w)"

text \<open>Installing a helper program that a repository command needs, when it is not found.\<close>

definition ensure_program :: "'w connector option \<Rightarrow> go_ctx \<Rightarrow> Facts option \<Rightarrow> string \<Rightarrow> string \<Rightarrow> 'w step_fun" where
  "ensure_program conn ctx facts program package w =
     (case LookPath conn ctx program w of
        (Inr p, w1) \<Rightarrow> (None, w1)
      | (Inl e, w1) \<Rightarrow> wrapping ''failed to install helper package'' (InstallPackages conn ctx facts [package]) w1)"

definition AddRepository :: "'w connector option \<Rightarrow> go_ctx \<Rightarrow> Facts option \<Rightarrow> string \<Rightarrow> bool \<Rightarrow> 'w step_fun" where
  "AddRepository conn ctx facts repoConfig isFilePath w =
     (if conn = None then (Some nil_connector, w)
      else case package_manager facts of
        None \<Rightarrow> (Some (Errorf ''package manager facts not available''), w)
      | Some pm \<Rightarrow>
          (case pi_Type pm of
             PackageManagerApt \<Rightarrow>
               if \<not> isFilePath
               then steps_in_turn [ensure_program conn ctx facts ''add-apt-repository'' ''software-properties-common'',
                      run_step conn ctx ''failed to add apt repository'' (''add-apt-repository -y '' @ repoConfig) True,
                      UpdatePackageCache conn ctx facts] w
               else (Some (Errorf ''AddRepository for apt with file path not yet implemented''), w)
           | PackageManagerUnknown \<Rightarrow> (Some (Errorf ''AddRepository not implemented for package manager type''), w)
           | _ \<Rightarrow>
               if isFilePath then WriteFile conn ctx repoConfig ''/etc/yum.repos.d/kubexm.repo'' ''0644'' True w
               else if pi_Type pm = PackageManagerDnf
               then run_step conn ctx ''failed to add yum/dnf repository'' (''dnf config-manager --add-repo '' @ repoConfig) True w
               else steps_in_turn [ensure_program conn ctx facts ''yum-config-manager'' ''yum-utils'',
                      run_step conn ctx ''failed to add yum/dnf repository'' (''yum-config-manager --add-repo '' @ repoConfig) True] w))"

end
