(* ===== verification/RunnerFiles.thy ===== *)
theory RunnerFiles
  imports Runner
begin

text \<open>
  Files, users, kernel modules, parameters and mounts of the runner (\<^verbatim>\<open>runner/file.go\<close>, \<^verbatim>\<open>runner/user.go\<close>,
  \<^verbatim>\<open>runner/system.go\<close>). The commands are built as the code builds them, from the arguments as they are given.
\<close>

section \<open>Queries on files\<close>

definition os_IsNotExist :: "error_value \<Rightarrow> bool" where
  "os_IsNotExist e \<longleftrightarrow> e = Errorf ''file does not exist''"

definition PathExists :: "'w connector option \<Rightarrow> go_ctx \<Rightarrow> string \<Rightarrow> 'w \<Rightarrow> (bool \<times> error_value option) \<times> 'w" where
  "PathExists conn ctx path w =
     (case conn of
        None \<Rightarrow> ((False, Some nil_connector), w)
      | Some c \<Rightarrow>
          (case cn_Stat c ctx path w of
             (Inl e, w1) \<Rightarrow> if os_IsNotExist e then ((False, None), w1) else ((False, Some (Wrapf ''failed to stat path'' e)), w1)
           | (Inr st, w1) \<Rightarrow> ((fs_IsExist st, None), w1)))"

definition IsDir :: "'w connector option \<Rightarrow> go_ctx \<Rightarrow> string \<Rightarrow> 'w \<Rightarrow> (bool \<times> error_value option) \<times> 'w" where
  "IsDir conn ctx path w =
     (case conn of
        None \<Rightarrow> ((False, Some nil_connector), w)
      | Some c \<Rightarrow>
          (case cn_Stat c ctx path w of
             (Inl e, w1) \<Rightarrow> ((False, Some (Wrapf ''failed to stat path'' e)), w1)
           | (Inr st, w1) \<Rightarrow> ((if \<not> fs_IsExist st then False else fs_IsDir st, None), w1)))"

definition ReadFile :: "'w connector option \<Rightarrow> go_ctx \<Rightarrow> string \<Rightarrow> 'w \<Rightarrow> (error_value + string) \<times> 'w" where
  "ReadFile conn ctx path w = (case conn of None \<Rightarrow> (Inl nil_connector, w) | Some c \<Rightarrow> cn_ReadFile c ctx path w)"

section \<open>Commands on files\<close>

definition Chmod :: "'w connector option \<Rightarrow> go_ctx \<Rightarrow> string \<Rightarrow> string \<Rightarrow> bool \<Rightarrow> 'w step_fun" where
  "Chmod conn ctx path permissions sudo w =
     (if conn = None then (Some nil_connector, w)
      else if permissions = [] then (Some (Errorf ''permissions cannot be empty for Chmod''), w)
      else run_step conn ctx ''failed to chmod'' (''chmod '' @ permissions @ '' '' @ path) sudo w)"

definition Mkdirp :: "'w connector option \<Rightarrow> go_ctx \<Rightarrow> string \<Rightarrow> string \<Rightarrow> bool \<Rightarrow> 'w step_fun" where
  "Mkdirp conn ctx path permissions sudo w =
     (if conn = None then (Some nil_connector, w)
      else steps_in_turn [run_step conn ctx ''failed to mkdir -p'' (''mkdir -p '' @ path) sudo,
             (if permissions \<noteq> [] then wrapping ''failed to chmod on directory after mkdirp'' (Chmod conn ctx path permissions sudo) else no_step)] w)"

definition parent_step :: "'w connector option \<Rightarrow> go_ctx \<Rightarrow> string \<Rightarrow> bool \<Rightarrow> 'w step_fun" where
  "parent_step conn ctx dir sudo =
     (if proper_dir dir then wrapping ''failed to create parent directory'' (Mkdirp conn ctx dir ''0755'' sudo) else no_step)"

definition TouchFile :: "'w connector option \<Rightarrow> go_ctx \<Rightarrow> string \<Rightarrow> bool \<Rightarrow> 'w step_fun" where
  "TouchFile conn ctx path sudo w =
     (if conn = None then (Some nil_connector, w)
      else if TrimSpace path = [] then (Some (Errorf ''path cannot be empty for TouchFile''), w)
      else steps_in_turn [parent_step conn ctx (filepath_Dir path) sudo,
             run_step conn ctx ''failed to touch file'' (''touch '' @ path) sudo] w)"

text \<open>The directory that \<^verbatim>\<open>Move\<close> and \<^verbatim>\<open>CopyFile\<close> create first: the destination itself when it is a directory.\<close>

definition dest_dir :: "'w connector option \<Rightarrow> go_ctx \<Rightarrow> string \<Rightarrow> 'w \<Rightarrow> (error_value + string) \<times> 'w" where
  "dest_dir conn ctx dest w =
     (case PathExists conn ctx dest w of
        ((_, Some e), w1) \<Rightarrow> (Inl (Wrapf ''failed to check existence of destination'' e), w1)
      | ((False, None), w1) \<Rightarrow> (Inr (filepath_Dir dest), w1)
      | ((True, None), w1) \<Rightarrow>
          (case IsDir conn ctx dest w1 of
             ((_, Some e), w2) \<Rightarrow> (Inl (Wrapf ''failed to check if destination is a directory'' e), w2)
           | ((isDir, None), w2) \<Rightarrow> (Inr (if isDir then dest else filepath_Dir dest), w2)))"

definition transfer :: "'w connector option \<Rightarrow> go_ctx \<Rightarrow> string \<Rightarrow> string \<Rightarrow> string \<Rightarrow> bool \<Rightarrow> 'w step_fun" where
  "transfer conn ctx src dest cmd sudo w =
     (if conn = None then (Some nil_connector, w)
      else if TrimSpace src = [] then (Some (Errorf ''sourcePath cannot be empty''), w)
      else if TrimSpace dest = [] then (Some (Errorf ''destPath cannot be empty''), w)
      else case dest_dir conn ctx dest w of
             (Inl e, w1) \<Rightarrow> (Some e, w1)
           | (Inr dir, w1) \<Rightarrow> steps_in_turn [parent_step conn ctx dir sudo, run_step conn ctx ''failed to move or copy'' cmd sudo] w1)"

definition Move :: "'w connector option \<Rightarrow> go_ctx \<Rightarrow> string \<Rightarrow> string \<Rightarrow> bool \<Rightarrow> 'w step_fun" where
  "Move conn ctx src dest sudo = transfer conn ctx src dest (''mv '' @ src @ '' '' @ dest) sudo"

definition refield :: "string list \<Rightarrow> string" where
  "refield parts = strings_Join (Fields (strings_Join parts '' '')) '' ''"

definition CopyFile :: "'w connector option \<Rightarrow> go_ctx \<Rightarrow> string \<Rightarrow> string \<Rightarrow> bool \<Rightarrow> bool \<Rightarrow> 'w step_fun" where
  "CopyFile conn ctx src dest recursive sudo = transfer conn ctx src dest (refield [''cp'', if recursive then ''-a'' else [], src, dest]) sudo"

definition remove_command :: "string \<Rightarrow> bool \<Rightarrow> string" where
  "remove_command path recursive = ''rm -f'' @ (if recursive then ''r'' else []) @ '' '' @ path"

definition Remove :: "'w connector option \<Rightarrow> go_ctx \<Rightarrow> string \<Rightarrow> bool \<Rightarrow> bool \<Rightarrow> 'w step_fun" where
  "Remove conn ctx path sudo recursive w =
     (if conn = None then (Some nil_connector, w)
      else run_step conn ctx ''failed to remove'' (remove_command path recursive) sudo w)"

definition Chown :: "'w connector option \<Rightarrow> go_ctx \<Rightarrow> string \<Rightarrow> string \<Rightarrow> string \<Rightarrow> bool \<Rightarrow> 'w step_fun" where
  "Chown conn ctx path owner grp recursive w =
     (if conn = None then (Some nil_connector, w)
      else if owner = [] \<and> grp = [] then (Some (Errorf ''owner and group cannot both be empty for Chown''), w)
      else let spec = owner @ (if grp \<noteq> [] then (if owner \<noteq> [] then '':'' else []) @ grp else []) in
           run_step conn ctx ''failed to chown'' (refield [''chown'', if recursive then ''-R'' else [], spec, path]) True w)"

definition CreateSymlink :: "'w connector option \<Rightarrow> go_ctx \<Rightarrow> string \<Rightarrow> string \<Rightarrow> bool \<Rightarrow> 'w step_fun" where
  "CreateSymlink conn ctx target linkPath sudo w =
     (if conn = None then (Some nil_connector, w)
      else if TrimSpace target = [] then (Some (Errorf ''target cannot be empty for CreateSymlink''), w)
      else if TrimSpace linkPath = [] then (Some (Errorf ''linkPath cannot be empty for CreateSymlink''), w)
      else let linkDir = filepath_Dir linkPath in
           steps_in_turn [(if linkDir \<noteq> ''.'' \<and> linkDir \<noteq> [slash] then wrapping ''failed to create parent directory'' (Mkdirp conn ctx linkDir ''0755'' sudo) else no_step),
             run_step conn ctx ''failed to create symlink'' (''ln -sf '' @ target @ '' '' @ linkPath) sudo] w)"

definition valid_fs_char :: "char \<Rightarrow> bool" where
  "valid_fs_char c = (char_within ''az'' c \<or> char_within ''09'' c \<or> c = CHR ''.'')"

definition MakeFilesystem :: "'w connector option \<Rightarrow> go_ctx \<Rightarrow> string \<Rightarrow> string \<Rightarrow> bool \<Rightarrow> 'w step_fun" where
  "MakeFilesystem conn ctx device fsType force w =
     (if conn = None then (Some nil_connector, w)
      else if TrimSpace device = [] then (Some (Errorf ''device cannot be empty for MakeFilesystem''), w)
      else if TrimSpace fsType = [] then (Some (Errorf ''fsType cannot be empty for MakeFilesystem''), w)
      else if \<not> list_all valid_fs_char fsType then (Some (Errorf ''invalid characters in fsType''), w)
      else run_step conn ctx ''failed to make filesystem''
             (strings_Join ([''mkfs.'' @ fsType] @ (if force then [''-f''] else []) @ [device]) '' '') True w)"

section \<open>Mounts\<close>

definition mounted_in :: "string \<Rightarrow> string \<Rightarrow> bool" where
  "mounted_in procMounts path =
     list_ex (\<lambda>line. case Fields line of a # b # _ \<Rightarrow> b = path | _ \<Rightarrow> False) (split_char (CHR 0x0A) procMounts)"

definition IsMounted :: "'w connector option \<Rightarrow> go_ctx \<Rightarrow> string \<Rightarrow> 'w \<Rightarrow> (bool \<times> error_value option) \<times> 'w" where
  "IsMounted conn ctx path w =
     (if conn = None then ((False, Some nil_connector), w)
      else if TrimSpace path = [] then ((False, Some (Errorf ''path cannot be empty for IsMounted'')), w)
      else case LookPath conn ctx ''mountpoint'' w of
             (Inr p, w1) \<Rightarrow> Check conn ctx (''mountpoint -q '' @ path) False w1
           | (Inl e, w1) \<Rightarrow>
               (case ReadFile conn ctx ''/proc/mounts'' w1 of
                  (Inl e', w2) \<Rightarrow> ((False, Some (Wrapf ''mountpoint command not found and failed to read /proc/mounts'' e')), w2)
                | (Inr procMounts, w2) \<Rightarrow> ((mounted_in procMounts path, None), w2)))"

definition mount_command :: "string \<Rightarrow> string \<Rightarrow> string \<Rightarrow> string list \<Rightarrow> string" where
  "mount_command device mountPoint fsType options =
     strings_Join ([''mount''] @ (if length options > 0 then [''-o'', strings_Join options '',''] else []) @ [''-t'', fsType, device, mountPoint]) '' ''"

definition fstab_entry :: "string \<Rightarrow> string \<Rightarrow> string \<Rightarrow> string list \<Rightarrow> string" where
  "fstab_entry device mountPoint fsType options =
     device @ '' '' @ mountPoint @ '' '' @ fsType @ '' '' @ (if length options > 0 then strings_Join options '','' else ''defaults'') @ '' 0 0''"

text \<open>A step that is skipped when a check holds; an error of the check is ignored.\<close>

definition unless_check :: "'w connector option \<Rightarrow> go_ctx \<Rightarrow> string \<Rightarrow> 'w step_fun \<Rightarrow> 'w step_fun" where
  "unless_check conn ctx cmd f w = (case Check conn ctx cmd False w of ((holds, _), w1) \<Rightarrow> if holds then (None, w1) else f w1)"

definition EnsureMount :: "'w connector option \<Rightarrow> go_ctx \<Rightarrow> string \<Rightarrow> string \<Rightarrow> string \<Rightarrow> string list \<Rightarrow> bool \<Rightarrow> 'w step_fun" where
  "EnsureMount conn ctx device mountPoint fsType options persistent w =
     (if conn = None then (Some nil_connector, w)
      else if device = [] \<or> mountPoint = [] \<or> fsType = [] then (Some (Errorf ''device, mountPoint, and fsType must be specified for EnsureMount''), w)
      else case IsMounted conn ctx mountPoint w of
             ((_, Some e), w1) \<Rightarrow> (Some (Wrapf ''failed to check if already mounted'' e), w1)
           | ((isMounted, None), w1) \<Rightarrow>
               steps_in_turn
                 ((if isMounted then []
                   else [wrapping ''failed to create mount point directory'' (Mkdirp conn ctx mountPoint ''0755'' True),
                         run_step conn ctx ''failed to mount'' (mount_command device mountPoint fsType options) True]) @
                  (if persistent
                   then [unless_check conn ctx (''grep -qE '' @ [sq] @ ''^[[:space:]]*[^#]+[[:space:]]+'' @ mountPoint @ ''[[:space:]]'' @ [sq] @ '' /etc/fstab'')
                           (run_step conn ctx ''failed to add entry to /etc/fstab''
                              (''sh -c '' @ [sq] @ ''echo '' @ fstab_entry device mountPoint fsType options @ '' >> /etc/fstab'' @ [sq]) True)]
                   else [])) w1)"

section \<open>Users\<close>

definition UserExists :: "'w connector option \<Rightarrow> go_ctx \<Rightarrow> string \<Rightarrow> 'w \<Rightarrow> (bool \<times> error_value option) \<times> 'w" where
  "UserExists conn ctx username w =
     (if conn = None then ((False, Some nil_connector), w)
      else if TrimSpace username = [] then ((False, Some (Errorf ''username cannot be empty'')), w)
      else case Check conn ctx (''id -u '' @ username) False w of
             ((_, Some e), w1) \<Rightarrow> ((False, Some (Wrapf ''error checking user'' e)), w1)
           | ((exists, None), w1) \<Rightarrow> ((exists, None), w1))"

definition GroupExists :: "'w connector option \<Rightarrow> go_ctx \<Rightarrow> string \<Rightarrow> 'w \<Rightarrow> (bool \<times> error_value option) \<times> 'w" where
  "GroupExists conn ctx groupname w =
     (if conn = None then ((False, Some nil_connector), w)
      else if TrimSpace groupname = [] then ((False, Some (Errorf ''groupname cannot be empty'')), w)
      else case Check conn ctx (''getent group '' @ groupname) False w of
             ((_, Some e), w1) \<Rightarrow> ((False, Some (Wrapf ''error checking group'' e)), w1)
           | ((exists, None), w1) \<Rightarrow> ((exists, None), w1))"

definition useradd_command :: "string \<Rightarrow> string \<Rightarrow> string \<Rightarrow> string \<Rightarrow> bool \<Rightarrow> bool \<Rightarrow> string" where
  "useradd_command username grp shell homeDir createHome systemUser =
     strings_Join
       ([''useradd''] @ (if systemUser then [''-r''] else []) @
        (if createHome then [''-m''] @ (if homeDir \<noteq> [] then [''-d'', homeDir] else [])
         else [''-M''] @ (if homeDir \<noteq> [] then [''-d'', homeDir] else [])) @
        (if grp \<noteq> [] then [''-g'', grp] else []) @ (if shell \<noteq> [] then [''-s'', shell] else []) @ [username]) '' ''"

definition AddUser :: "'w connector option \<Rightarrow> go_ctx \<Rightarrow> string \<Rightarrow> string \<Rightarrow> string \<Rightarrow> string \<Rightarrow> bool \<Rightarrow> bool \<Rightarrow> 'w step_fun" where
  "AddUser conn ctx username grp shell homeDir createHome systemUser w =
     (if conn = None then (Some nil_connector, w)
      else if TrimSpace username = [] then (Some (Errorf ''username cannot be empty for AddUser''), w)
      else case UserExists conn ctx username w of
             ((_, Some e), w1) \<Rightarrow> (Some (Wrapf ''failed to check if user exists before adding'' e), w1)
           | ((True, None), w1) \<Rightarrow> (None, w1)
           | ((False, None), w1) \<Rightarrow>
               run_step conn ctx ''failed to add user'' (useradd_command username grp shell homeDir createHome systemUser) True w1)"

definition AddGroup :: "'w connector option \<Rightarrow> go_ctx \<Rightarrow> string \<Rightarrow> bool \<Rightarrow> 'w step_fun" where
  "AddGroup conn ctx groupname systemGroup w =
     (if conn = None then (Some nil_connector, w)
      else if TrimSpace groupname = [] then (Some (Errorf ''groupname cannot be empty for AddGroup''), w)
      else case GroupExists conn ctx groupname w of
             ((_, Some e), w1) \<Rightarrow> (Some (Wrapf ''failed to check if group exists before adding'' e), w1)
           | ((True, None), w1) \<Rightarrow> (None, w1)
           | ((False, None), w1) \<Rightarrow>
               run_step conn ctx ''failed to add group'' (strings_Join ([''groupadd''] @ (if systemGroup then [''-r''] else []) @ [groupname]) '' '') True w1)"

definition sudoer_forbidden :: string where
  "sudoer_forbidden = ''/'' @ [bslash] @ '' !@#$%^&*()+={}|[]:;'' @ [CHR 0x22, sq] @ ''<>,.?~'' @ [CHR 0x60]"

definition sudoer_tmp :: "string \<Rightarrow> gotime \<Rightarrow> string" where
  "sudoer_tmp sudoerName now = ''/tmp/kubexm_sudoer_'' @ sudoerName @ ''_'' @ show_int now"

definition sudoer_path :: "string \<Rightarrow> string" where
  "sudoer_path sudoerName = ''/etc/sudoers.d/'' @ sudoerName"

definition sudoer_steps :: "'w connector option \<Rightarrow> go_ctx \<Rightarrow> string \<Rightarrow> string \<Rightarrow> string \<Rightarrow> 'w step_fun list" where
  "sudoer_steps conn ctx content remoteTempPath finalSudoerPath =
     [wrapping ''failed to write temporary sudoer content'' (WriteFile conn ctx content remoteTempPath ''0600'' False),
      run_step conn ctx ''sudoer content validation failed'' (''visudo -cf '' @ remoteTempPath) True,
      wrapping ''failed to ensure sudoers.d directory exists'' (Mkdirp conn ctx ''/etc/sudoers.d'' ''0755'' True),
      run_step conn ctx ''failed to move sudoer file'' (''mv '' @ remoteTempPath @ '' '' @ finalSudoerPath) True,
      wrapping ''failed to set permissions'' (Chmod conn ctx finalSudoerPath ''0440'' True),
      wrapping ''failed to set ownership'' (Chown conn ctx finalSudoerPath ''root'' ''root'' False)]"

definition remove_if_there :: "'w connector option \<Rightarrow> go_ctx \<Rightarrow> string \<Rightarrow> 'w \<Rightarrow> 'w" where
  "remove_if_there conn ctx path w =
     (case conn of
        None \<Rightarrow> w
      | Some c \<Rightarrow>
          (case cn_Stat c ctx path w of
             (Inr st, w1) \<Rightarrow> if fs_IsExist st then snd (Remove conn ctx path False False w1) else w1
           | (Inl e, w1) \<Rightarrow> w1))"

text \<open>\<open>now\<close> is the time of the call; the deferred clean-up runs on every path after the checks of the arguments.\<close>

definition ConfigureSudoer :: "'w connector option \<Rightarrow> go_ctx \<Rightarrow> gotime \<Rightarrow> string \<Rightarrow> string \<Rightarrow> 'w step_fun" where
  "ConfigureSudoer conn ctx now sudoerName content w =
     (if conn = None then (Some nil_connector, w)
      else if TrimSpace sudoerName = [] then (Some (Errorf ''sudoerName cannot be empty''), w)
      else if ContainsAny sudoerName sudoer_forbidden then (Some (Errorf ''invalid characters in sudoerName''), w)
      else if TrimSpace content = [] then (Some (Errorf ''content for sudoer file cannot be empty''), w)
      else case steps_in_turn (sudoer_steps conn ctx content (sudoer_tmp sudoerName now) (sudoer_path sudoerName)) w of
             (e, w1) \<Rightarrow> (e, remove_if_there conn (TimeoutCtx BackgroundCtx (30 * go_second)) (sudoer_tmp sudoerName now) w1))"

definition SetUserPassword :: "'w connector option \<Rightarrow> go_ctx \<Rightarrow> string \<Rightarrow> string \<Rightarrow> 'w step_fun" where
  "SetUserPassword conn ctx username hashedPassword w =
     (if conn = None then (Some nil_connector, w)
      else if TrimSpace username = [] then (Some (Errorf ''username cannot be empty for SetUserPassword''), w)
      else if TrimSpace hashedPassword = [] then (Some (Errorf ''hashedPassword cannot be empty for SetUserPassword''), w)
      else case UserExists conn ctx username w of
             ((_, Some e), w1) \<Rightarrow> (Some (Wrapf ''failed to check if user exists before setting password'' e), w1)
           | ((False, None), w1) \<Rightarrow> (Some (Errorf ''user does not exist, cannot set password''), w1)
           | ((True, None), w1) \<Rightarrow>
               (case RunWithOptions conn ctx (''echo '' @ username @ '':'' @ hashedPassword @ '' | chpasswd'') (Some ((sudo_options True)\<lparr>ro_Hidden := True\<rparr>)) w1 of
                  ((_, _, None), w2) \<Rightarrow> (None, w2)
                | ((_, _, Some e), w2) \<Rightarrow> (Some (Wrapf ''failed to set password using chpasswd'' e), w2)))"

section \<open>Kernel modules and parameters\<close>

definition module_char :: "char \<Rightarrow> bool" where
  "module_char c =
     (let isLetter = char_within ''az'' c \<or> char_within ''AZ'' c; isDigit = char_within ''09'' c; isAllowedSymbol = c \<in> set ''_-''
      in isLetter \<or> isDigit \<or> isAllowedSymbol)"

definition module_name_error :: "string \<Rightarrow> error_value option" where
  "module_name_error moduleName =
     (if TrimSpace moduleName = [] then Some (Errorf ''moduleName cannot be empty'')
      else if \<not> list_all module_char moduleName then Some (Errorf ''invalid characters in moduleName'') else None)"

definition LoadModule :: "'w connector option \<Rightarrow> go_ctx \<Rightarrow> string \<Rightarrow> string list \<Rightarrow> 'w step_fun" where
  "LoadModule conn ctx moduleName params w =
     (if conn = None then (Some nil_connector, w)
      else case module_name_error moduleName of
             Some e \<Rightarrow> (Some e, w)
           | None \<Rightarrow>
               if list_ex (\<lambda>p. TrimSpace p = []) params then (Some (Errorf ''module parameters cannot be empty strings''), w)
               else run_step conn ctx ''failed to load module'' (strings_Join ([''modprobe'', moduleName] @ params) '' '') True w)"

definition IsModuleLoaded :: "'w connector option \<Rightarrow> go_ctx \<Rightarrow> string \<Rightarrow> 'w \<Rightarrow> (bool \<times> error_value option) \<times> 'w" where
  "IsModuleLoaded conn ctx moduleName w =
     (if conn = None then ((False, Some nil_connector), w)
      else case module_name_error moduleName of
             Some e \<Rightarrow> ((False, Some e), w)
           | None \<Rightarrow>
               (case Check conn ctx (''test -d /sys/module/'' @ moduleName) False w of
                  ((_, Some e), w1) \<Rightarrow> ((False, Some (Wrapf ''error checking for module'' e)), w1)
                | ((loaded, None), w1) \<Rightarrow> ((loaded, None), w1)))"

definition line_break :: string where
  "line_break = [CHR 0x0A]"

definition ConfigureModuleOnBoot :: "'w connector option \<Rightarrow> go_ctx \<Rightarrow> string \<Rightarrow> string list \<Rightarrow> 'w step_fun" where
  "ConfigureModuleOnBoot conn ctx moduleName params w =
     (if conn = None then (Some nil_connector, w)
      else case module_name_error moduleName of
             Some e \<Rightarrow> (Some e, w)
           | None \<Rightarrow>
               steps_in_turn
                 ([wrapping ''failed to ensure directory exists'' (Mkdirp conn ctx ''/etc/modules-load.d'' ''0755'' True),
                   wrapping ''failed to write module config'' (WriteFile conn ctx (moduleName @ line_break) (''/etc/modules-load.d/'' @ moduleName @ ''.conf'') ''0644'' True)] @
                  (if length params > 0
                   then [wrapping ''failed to ensure directory exists'' (Mkdirp conn ctx ''/etc/modprobe.d'' ''0755'' True),
                         wrapping ''failed to write module options''
                           (WriteFile conn ctx (''options '' @ moduleName @ '' '' @ strings_Join params '' '' @ line_break) (''/etc/modprobe.d/'' @ moduleName @ ''.conf'') ''0644'' True)]
                   else [])) w)"

definition sysctl_conf :: string where
  "sysctl_conf = ''/etc/sysctl.d/99-kubexm-runner.conf''"

definition sysctl_line :: "string \<Rightarrow> string \<Rightarrow> string" where
  "sysctl_line key val = key @ '' = '' @ val"

definition SetSysctl :: "'w connector option \<Rightarrow> go_ctx \<Rightarrow> string \<Rightarrow> string \<Rightarrow> bool \<Rightarrow> 'w step_fun" where
  "SetSysctl conn ctx key val persistent w =
     (if conn = None then (Some nil_connector, w)
      else if TrimSpace key = [] then (Some (Errorf ''key cannot be empty for SetSysctl''), w)
      else if ContainsAny key ('';|&'' @ [CHR 0x60, CHR 0x0A]) then (Some (Errorf ''invalid characters in sysctl key''), w)
      else if ContainsAny val [CHR 0x60, CHR 0x0A] then (Some (Errorf ''invalid characters in sysctl value''), w)
      else steps_in_turn
             ([run_step conn ctx ''failed to set sysctl temporarily'' (''sysctl -w '' @ key @ ''='' @ [CHR 0x22] @ val @ [CHR 0x22]) True] @
              (if persistent
               then [wrapping ''failed to ensure directory exists'' (Mkdirp conn ctx ''/etc/sysctl.d'' ''0755'' True),
                     unless_check conn ctx (''grep -Fxq -- '' @ sysctl_line key val @ '' '' @ sysctl_conf)
                       (run_step conn ctx ''failed to persist sysctl setting'' (''echo '' @ sysctl_line key val @ '' | tee -a '' @ sysctl_conf) True),
                     run_step conn ctx ''failed to apply sysctl settings'' ''sysctl -p'' True]
               else [])) w)"

definition SetTimezone :: "'w connector option \<Rightarrow> go_ctx \<Rightarrow> string \<Rightarrow> 'w step_fun" where
  "SetTimezone conn ctx timezone w =
     (if conn = None then (Some nil_connector, w)
      else if TrimSpace timezone = [] then (Some (Errorf ''timezone cannot be empty for SetTimezone''), w)
      else if ContainsAny timezone ('';|&'' @ [CHR 0x60] @ ''$'' @ [CHR 0x0A]) \<or> HasPrefix timezone ''/'' \<or> Contains timezone ''..''
      then (Some (Errorf ''invalid characters or format in timezone string''), w)
      else case LookPath conn ctx ''timedatectl'' w of
             (Inr p, w1) \<Rightarrow> run_step conn ctx ''failed to set timezone using timedatectl'' (''timedatectl set-timezone '' @ timezone) True w1
           | (Inl e, w1) \<Rightarrow> (Some (Errorf ''timedatectl command not found, and fallback method is not fully implemented''), w1))"

definition sed_pattern :: string where
  "sed_pattern = ''s@^'' @ [bslash] @ ''([^#][^ ]*[[:space:]]'' @ [bslash] @ ''+[^[:space:]]'' @ [bslash] @ ''+[[:space:]]'' @ [bslash] @
     ''+swap[[:space:]]'' @ [bslash] @ ''+.*'' @ [bslash] @ '')@#'' @ [bslash] @ ''1@g''"

definition DisableSwap :: "'w connector option \<Rightarrow> go_ctx \<Rightarrow> 'w step_fun" where
  "DisableSwap conn ctx w =
     (if conn = None then (Some nil_connector, w)
      else steps_in_turn [run_step conn ctx ''failed to execute swapoff'' ''swapoff -a'' True,
             run_step conn ctx ''failed to comment out swap entries''
               (''sed -i'' @ [sq] @ ''.kubexm-runner.bak'' @ [sq] @ '' -E '' @ [CHR 0x22] @ sed_pattern @ [CHR 0x22] @ '' /etc/fstab'') True] w)"

definition IsSwapEnabled :: "'w connector option \<Rightarrow> go_ctx \<Rightarrow> 'w \<Rightarrow> (bool \<times> error_value option) \<times> 'w" where
  "IsSwapEnabled conn ctx w =
     (if conn = None then ((False, Some nil_connector), w)
      else case RunWithOptions conn ctx ''cat /proc/swaps'' (Some (sudo_options False)) w of
             ((out, err, Some e), w1) \<Rightarrow> ((False, Some (Wrapf ''failed to read /proc/swaps'' e)), w1)
           | ((out, err, None), w1) \<Rightarrow> ((list_ex (\<lambda>l. TrimSpace l \<noteq> []) (tl (split_char (CHR 0x0A) (TrimSpace out))), None), w1))"

end
