(* ===== verification/RunnerCorrect.thy ===== *)
theory RunnerCorrect
  imports RunnerFiles
begin

text \<open>
  What the runner does to a host, command by command: a connector is extended by a log of the commands it
  was given and whether they succeeded. Sequences run a prefix of their commands, each one only after all
  before it succeeded; sudoers are only installed after \<^verbatim>\<open>visudo\<close> has accepted them; exactly the packages that
  are missing are installed; a service is only started when it is not active.
\<close>

section \<open>Logging a connector\<close>

type_synonym cmd_log = "(string \<times> bool) list"

definition logging :: "'w connector \<Rightarrow> ('w \<times> cmd_log) connector" where
  "logging c =
     \<lparr>cn_Exec = (\<lambda>ctx cmd o' s. case cn_Exec c ctx cmd o' (fst s) of (r, w) \<Rightarrow> (r, w, snd s @ [(cmd, snd (snd r) = None)])),
      cn_Stat = (\<lambda>ctx p. lift_log (cn_Stat c ctx p)), cn_LookPath = (\<lambda>ctx p. lift_log (cn_LookPath c ctx p)),
      cn_ReadFile = (\<lambda>ctx p. lift_log (cn_ReadFile c ctx p)), cn_WriteFile = (\<lambda>ctx a b o'. lift_log (cn_WriteFile c ctx a b o'))\<rparr>"

text \<open>The log of a sequence of commands that ended with the error \<open>e\<close>: all commands succeeded and there is no error, or
  a proper prefix succeeded and the next command, if it was run at all, failed.\<close>

definition ok_entries :: "string list \<Rightarrow> cmd_log" where
  "ok_entries cs = map (\<lambda>c. (c, True)) cs"

definition stops_at_failure :: "string list \<Rightarrow> error_value option \<Rightarrow> cmd_log \<Rightarrow> bool" where
  "stops_at_failure cs e l \<longleftrightarrow>
     (if e = None then l = ok_entries cs
      else (\<exists>k \<le> length cs. l = ok_entries (take k cs)) \<or> (\<exists>k < length cs. l = ok_entries (take k cs) @ [(cs ! k, False)]))"

definition runs_in_order :: "('w \<times> cmd_log) step_fun \<Rightarrow> string list \<Rightarrow> bool" where
  "runs_in_order f cs \<longleftrightarrow> (\<forall>s. \<exists>l. snd (snd (f s)) = snd s @ l \<and> stops_at_failure cs (fst (f s)) l)"

lemma ok_entries_simps [simp]: "ok_entries [] = []" "ok_entries (c # cs) = (c, True) # ok_entries cs"
  "ok_entries (cs @ ds) = ok_entries cs @ ok_entries ds" by (simp_all add: ok_entries_def)

lemma stops_at_failure_append:
  "stops_at_failure cs (Some e) l \<Longrightarrow> stops_at_failure (cs @ ds) (Some e) l"
  "stops_at_failure ds r l \<Longrightarrow> stops_at_failure (cs @ ds) r (ok_entries cs @ l)"
proof -
  assume "stops_at_failure cs (Some e) l"
  then consider k where "k \<le> length cs" "l = ok_entries (take k cs)" | k where "k < length cs" "l = ok_entries (take k cs) @ [(cs ! k, False)]"
    by (auto simp: stops_at_failure_def)
  then show "stops_at_failure (cs @ ds) (Some e) l"
  proof cases
    case 1
    then show ?thesis by (auto simp: stops_at_failure_def intro!: exI[of _ k])
  next
    case 2
    then show ?thesis by (auto simp: stops_at_failure_def nth_append intro!: exI[of _ k])
  qed
next
  assume d: "stops_at_failure ds r l"
  show "stops_at_failure (cs @ ds) r (ok_entries cs @ l)"
  proof (cases r)
    case None
    with d show ?thesis by (simp add: stops_at_failure_def)
  next
    case (Some e)
    with d consider k where "k \<le> length ds" "l = ok_entries (take k ds)" | k where "k < length ds" "l = ok_entries (take k ds) @ [(ds ! k, False)]"
      by (auto simp: stops_at_failure_def)
    then show ?thesis
    proof cases
      case 1
      then have "length cs + k \<le> length (cs @ ds) \<and> ok_entries cs @ l = ok_entries (take (length cs + k) (cs @ ds))" by simp
      then show ?thesis unfolding stops_at_failure_def Some by (simp only: if_False option.distinct) blast
    next
      case 2
      then have "length cs + k < length (cs @ ds) \<and>
          ok_entries cs @ l = ok_entries (take (length cs + k) (cs @ ds)) @ [((cs @ ds) ! (length cs + k), False)]" by simp
      then show ?thesis unfolding stops_at_failure_def Some by (simp only: if_False option.distinct) blast
    qed
  qed
qed

lemma runs_in_order_run_steps:
  "list_all2 runs_in_order fs css \<Longrightarrow> runs_in_order (steps_in_turn fs) (concat css)"
proof (induction fs arbitrary: css)
  case Nil
  then show ?case by (simp add: runs_in_order_def stops_at_failure_def)
next
  case (Cons f fs)
  then obtain cs css' where css: "css = cs # css'" "runs_in_order f cs" "list_all2 runs_in_order fs css'"
    by (auto simp: list_all2_Cons1)
  note IH = Cons.IH[OF css(3)]
  show ?case
    unfolding runs_in_order_def css(1) concat.simps
  proof
    fix s
    obtain e s1 where f: "f s = (e, s1)" by (metis prod.exhaust)
    from css(2) obtain l where l: "snd s1 = snd s @ l" "stops_at_failure cs e l"
      unfolding runs_in_order_def by (metis f fst_conv snd_conv)
    show "\<exists>l. snd (snd (steps_in_turn (f # fs) s)) = snd s @ l \<and> stops_at_failure (cs @ concat css') (fst (steps_in_turn (f # fs) s)) l"
    proof (cases e)
      case (Some x)
      with f l show ?thesis using stops_at_failure_append(1) by auto
    next
      case None
      from IH obtain l' where l': "snd (snd (steps_in_turn fs s1)) = snd s1 @ l'" "stops_at_failure (concat css') (fst (steps_in_turn fs s1)) l'"
        unfolding runs_in_order_def by blast
      moreover have "l = ok_entries cs" using l(2) None by (simp add: stops_at_failure_def)
      ultimately show ?thesis
        using f None l(1) stops_at_failure_append(2)[OF l'(2), of cs] by auto
    qed
  qed
qed

lemma runs_in_order_run_step: "runs_in_order (run_step (Some (logging c)) ctx msg cmd sudo) [cmd]"
  unfolding runs_in_order_def
proof
  fix s :: "'a \<times> cmd_log"
  obtain out err e w where "cn_Exec c ctx cmd (Some (sudo_options sudo)) (fst s) = ((out, err, e), w)" by (metis prod.exhaust)
  then show "\<exists>l. snd (snd (run_step (Some (logging c)) ctx msg cmd sudo s)) = snd s @ l \<and>
      stops_at_failure [cmd] (fst (run_step (Some (logging c)) ctx msg cmd sudo s)) l"
    by (cases e) (auto simp: run_step_def RunWithOptions_def logging_def stops_at_failure_def intro!: exI[of _ 0])
qed

lemma runs_in_order_wrapping: "runs_in_order f cs \<Longrightarrow> runs_in_order (wrapping msg f) cs"
proof -
  have "snd (wrapping msg f s) = snd (f s)" "fst (wrapping msg f s) = None \<longleftrightarrow> fst (f s) = None" for s
    by (auto simp: wrapping_def split: prod.splits option.splits)
  then show "runs_in_order f cs \<Longrightarrow> runs_in_order (wrapping msg f) cs"
    by (simp add: runs_in_order_def stops_at_failure_def)
qed

lemma runs_in_order_no_step: "runs_in_order no_step []"
  by (simp add: runs_in_order_def stops_at_failure_def)

lemma runs_in_order_WriteFile: "runs_in_order (WriteFile (Some (logging c)) ctx content p perms sudo) []"
  by (auto simp: runs_in_order_def WriteFile_def logging_def lift_log_def stops_at_failure_def split: prod.splits)

lemma runs_in_order_Chmod: "perms \<noteq> [] \<Longrightarrow> runs_in_order (Chmod (Some (logging c)) ctx p perms sudo) [''chmod '' @ perms @ '' '' @ p]"
proof -
  assume "perms \<noteq> []"
  then have "Chmod (Some (logging c)) ctx p perms sudo = run_step (Some (logging c)) ctx ''failed to chmod'' (''chmod '' @ perms @ '' '' @ p) sudo"
    by (intro ext) (simp add: Chmod_def)
  then show ?thesis by (simp only: runs_in_order_run_step)
qed

lemma runs_in_order_Mkdirp:
  "perms \<noteq> [] \<Longrightarrow> runs_in_order (Mkdirp (Some (logging c)) ctx p perms sudo) [''mkdir -p '' @ p, ''chmod '' @ perms @ '' '' @ p]"
proof -
  assume p: "perms \<noteq> []"
  have "Mkdirp (Some (logging c)) ctx p perms sudo =
      steps_in_turn [run_step (Some (logging c)) ctx ''failed to mkdir -p'' (''mkdir -p '' @ p) sudo,
        wrapping ''failed to chmod on directory after mkdirp'' (Chmod (Some (logging c)) ctx p perms sudo)]"
    using p by (intro ext) (simp only: Mkdirp_def if_True if_False option.distinct simp_thms not_False_eq_True)
  moreover have "runs_in_order \<dots> (concat [[''mkdir -p '' @ p], [''chmod '' @ perms @ '' '' @ p]])"
    by (intro runs_in_order_run_steps list_all2_Cons[THEN iffD2] conjI list_all2_Nil[THEN iffD2] refl
        runs_in_order_run_step runs_in_order_wrapping runs_in_order_Chmod p)
  ultimately show ?thesis by (simp only: concat.simps append.simps)
qed

section \<open>Sudoers\<close>

definition sudoer_commands :: "string \<Rightarrow> string \<Rightarrow> string list" where
  "sudoer_commands tmp final =
     [''visudo -cf '' @ tmp, ''mkdir -p /etc/sudoers.d'', ''chmod 0755 /etc/sudoers.d'', ''mv '' @ tmp @ '' '' @ final,
      ''chmod 0440 '' @ final, refield [''chown'', [], ''root:root'', final]]"

lemma runs_in_order_Chown_root:
  "runs_in_order (Chown (Some (logging c)) ctx p ''root'' ''root'' False) [refield [''chown'', [], ''root:root'', p]]"
proof -
  have "Chown (Some (logging c)) ctx p ''root'' ''root'' False = run_step (Some (logging c)) ctx ''failed to chown'' (refield [''chown'', [], ''root:root'', p]) True"
    by (intro ext) (simp add: Chown_def)
  then show ?thesis by (simp only: runs_in_order_run_step)
qed

lemma runs_in_order_sudoer:
  "runs_in_order (steps_in_turn (sudoer_steps (Some (logging c)) ctx content tmp final)) (sudoer_commands tmp final)"
proof -
  have "runs_in_order (steps_in_turn (sudoer_steps (Some (logging c)) ctx content tmp final))
     (concat [[], [''visudo -cf '' @ tmp], [''mkdir -p '' @ ''/etc/sudoers.d'', ''chmod '' @ ''0755'' @ '' '' @ ''/etc/sudoers.d''],
        [''mv '' @ tmp @ '' '' @ final], [''chmod '' @ ''0440'' @ '' '' @ final], [refield [''chown'', [], ''root:root'', final]]])"
    unfolding sudoer_steps_def
    by (intro runs_in_order_run_steps list_all2_Cons[THEN iffD2] conjI list_all2_Nil[THEN iffD2] refl runs_in_order_wrapping
        runs_in_order_WriteFile runs_in_order_run_step runs_in_order_Mkdirp runs_in_order_Chmod runs_in_order_Chown_root) simp_all
  then show ?thesis by (simp add: sudoer_commands_def)
qed

lemma remove_if_there_log:
  "\<exists>b. snd (remove_if_there (Some (logging c)) ctx p s) = snd s \<or> snd (remove_if_there (Some (logging c)) ctx p s) = snd s @ [(''rm -f '' @ p, b)]"
proof -
  obtain r w where st: "cn_Stat c ctx p (fst s) = (r, w)" by fastforce
  have "\<exists>b. snd (snd (Remove (Some (logging c)) ctx p False False s')) = snd s' @ [(''rm -f '' @ p, b)]" for s'
  proof -
    obtain out err e w' where "cn_Exec c ctx (''rm -f '' @ p) (Some (sudo_options False)) (fst s') = ((out, err, e), w')" by (metis prod.exhaust)
    then show ?thesis by (cases e) (auto simp: Remove_def run_step_def RunWithOptions_def remove_command_def logging_def)
  qed
  note rm = this[of "(w, snd s)", unfolded snd_conv]
  have stat: "cn_Stat (logging c) ctx p s = (r, w, snd s)" using st by (simp add: logging_def lift_log_def)
  show ?thesis
  proof (cases r)
    case (Inl e)
    with stat show ?thesis by (simp add: remove_if_there_def)
  next
    case (Inr fi)
    with stat rm show ?thesis by (cases "fs_IsExist fi") (simp_all add: remove_if_there_def)
  qed
qed

text \<open>C16: The commands of \<^verbatim>\<open>ConfigureSudoer\<close> run in order, each one only after all before it succeeded, and it
  returns no error only when all did: a sudoers file is moved into place only after \<^verbatim>\<open>visudo\<close> has accepted
  the temporary file. Whatever happens, only the removal of the temporary file may follow.\<close>

theorem ConfigureSudoer_validates_first:
  "\<exists>l rest. snd (snd (ConfigureSudoer (Some (logging c)) ctx now name content (w, []))) = l @ rest \<and>
     stops_at_failure (sudoer_commands (sudoer_tmp name now) (sudoer_path name))
       (fst (ConfigureSudoer (Some (logging c)) ctx now name content (w, []))) l \<and>
     (rest = [] \<or> (\<exists>b. rest = [(''rm -f '' @ sudoer_tmp name now, b)]))"
proof (cases "TrimSpace name = [] \<or> ContainsAny name sudoer_forbidden \<or> TrimSpace content = []")
  case True
  then have "\<exists>e. ConfigureSudoer (Some (logging c)) ctx now name content (w, []) = (Some e, w, [])"
    by (auto simp: ConfigureSudoer_def)
  then show ?thesis by (auto simp: stops_at_failure_def intro!: exI[of _ "0 :: nat"])
next
  case False
  let ?steps = "steps_in_turn (sudoer_steps (Some (logging c)) ctx content (sudoer_tmp name now) (sudoer_path name))"
  obtain e w1 where r: "?steps (w, []) = (e, w1)" by (metis prod.exhaust)
  let ?w2 = "remove_if_there (Some (logging c)) (TimeoutCtx BackgroundCtx (30 * go_second)) (sudoer_tmp name now) w1"
  have res: "ConfigureSudoer (Some (logging c)) ctx now name content (w, []) = (e, ?w2)"
    using False r by (simp add: ConfigureSudoer_def)
  from runs_in_order_sudoer[of c ctx content "sudoer_tmp name now" "sudoer_path name"] r
  have l: "stops_at_failure (sudoer_commands (sudoer_tmp name now) (sudoer_path name)) e (snd w1)"
    unfolding runs_in_order_def by (metis append_Nil fst_conv snd_conv)
  from remove_if_there_log[of c "TimeoutCtx BackgroundCtx (30 * go_second)" "sudoer_tmp name now" w1] obtain b where
    "snd ?w2 = snd w1 \<or> snd ?w2 = snd w1 @ [(''rm -f '' @ sudoer_tmp name now, b)]" by blast
  then obtain rest where "snd ?w2 = snd w1 @ rest" "rest = [] \<or> rest = [(''rm -f '' @ sudoer_tmp name now, b)]" by auto
  with res l show ?thesis unfolding res fst_conv snd_conv by blast
qed

section \<open>Packages\<close>

text \<open>A host that answers every command in the same way each time.\<close>

definition stateless :: "(string \<Rightarrow> string \<times> string \<times> error_value option) \<Rightarrow> unit connector" where
  "stateless ans =
     \<lparr>cn_Exec = (\<lambda>ctx cmd o' w. (ans cmd, w)), cn_Stat = (\<lambda>ctx p w. (Inl (Errorf []), w)), cn_LookPath = (\<lambda>ctx p w. (Inl (Errorf []), w)),
      cn_ReadFile = (\<lambda>ctx p w. (Inl (Errorf []), w)), cn_WriteFile = (\<lambda>ctx a b o' w. (None, w))\<rparr>"

fun reports_installed :: "PackageManagerType \<Rightarrow> string \<times> string \<times> error_value option \<Rightarrow> bool" where
  "reports_installed PackageManagerApt (out, err, e) \<longleftrightarrow> e = None \<and> Contains out ''install ok installed''"
| "reports_installed _ (out, err, e) \<longleftrightarrow> e = None"

definition query_command :: "PackageInfo \<Rightarrow> string \<Rightarrow> string" where
  "query_command pm pkg = Sprintf (pi_PkgQueryCmd pm) [pkg]"

lemma IsPackageInstalled_stateless:
  assumes "package_manager facts = Some pm" "pi_PkgQueryCmd pm \<noteq> []" "pi_Type pm \<noteq> PackageManagerUnknown" "TrimSpace pkg \<noteq> []"
  shows "\<exists>b. IsPackageInstalled (Some (logging (stateless ans))) ctx facts pkg (u, l) =
    ((reports_installed (pi_Type pm) (ans (query_command pm pkg)), None), u, l @ [(query_command pm pkg, b)])"
  using assms by (cases "ans (query_command pm pkg)"; cases "pi_Type pm")
    (auto simp: IsPackageInstalled_def RunWithOptions_def logging_def stateless_def query_command_def)

lemma missing_packages_stateless:
  assumes "package_manager facts = Some pm" "pi_PkgQueryCmd pm \<noteq> []" "pi_Type pm \<noteq> PackageManagerUnknown" "\<forall>p \<in> set pkgs. TrimSpace p \<noteq> []"
  shows "\<exists>bs. map fst bs = map (query_command pm) pkgs \<and> missing_packages (Some (logging (stateless ans))) ctx facts pkgs (u, l) =
    (filter (\<lambda>p. \<not> reports_installed (pi_Type pm) (ans (query_command pm p))) pkgs, u, l @ bs)"
  using assms(4)
proof (induction pkgs arbitrary: l)
  case (Cons pkg pkgs)
  from IsPackageInstalled_stateless[OF assms(1-3), of pkg ans ctx u l] Cons.prems obtain b where
    b: "IsPackageInstalled (Some (logging (stateless ans))) ctx facts pkg (u, l) =
      ((reports_installed (pi_Type pm) (ans (query_command pm pkg)), None), u, l @ [(query_command pm pkg, b)])" by auto
  from Cons.IH[of "l @ [(query_command pm pkg, b)]"] Cons.prems obtain bs where
    "map fst bs = map (query_command pm) pkgs" "missing_packages (Some (logging (stateless ans))) ctx facts pkgs (u, l @ [(query_command pm pkg, b)]) =
      (filter (\<lambda>p. \<not> reports_installed (pi_Type pm) (ans (query_command pm p))) pkgs, u, (l @ [(query_command pm pkg, b)]) @ bs)" by auto
  with b show ?case by (intro exI[of _ "(query_command pm pkg, b) # bs"]) simp
qed simp

definition install_commands :: "PackageInfo \<Rightarrow> string list \<Rightarrow> string list" where
  "install_commands pm missing = (if missing = [] then [] else [Sprintf (pi_InstallCmd pm) [strings_Join missing '' '']])"

text \<open>C19: \<^verbatim>\<open>InstallPackages\<close> asks for every package once, in order, and then installs, with one command, exactly those that
  are not reported installed; when none is missing it runs no further command.\<close>

theorem InstallPackages_exact:
  assumes "package_manager facts = Some pm" "pi_PkgQueryCmd pm \<noteq> []" "pi_Type pm \<noteq> PackageManagerUnknown"
    and "pkgs \<noteq> []" "\<forall>p \<in> set pkgs. TrimSpace p \<noteq> []"
  shows "map fst (snd (snd (InstallPackages (Some (logging (stateless ans))) ctx facts pkgs ((), [])))) =
    map (query_command pm) pkgs @
    install_commands pm (filter (\<lambda>p. \<not> reports_installed (pi_Type pm) (ans (query_command pm p))) pkgs)"
proof -
  let ?ms = "filter (\<lambda>p. \<not> reports_installed (pi_Type pm) (ans (query_command pm p))) pkgs"
  from missing_packages_stateless[OF assms(1-3,5), of ans ctx "()" "[]"] obtain bs where
    bs: "map fst bs = map (query_command pm) pkgs" "missing_packages (Some (logging (stateless ans))) ctx facts pkgs ((), []) = (?ms, (), bs)" by auto
  show ?thesis
  proof (cases "?ms = []")
    case True
    with bs assms(1,4) show ?thesis by (simp add: InstallPackages_def install_commands_def)
  next
    case False
    obtain out err e where "ans (Sprintf (pi_InstallCmd pm) [strings_Join ?ms '' '']) = (out, err, e)" by (metis prod.exhaust)
    with False bs assms(1,4) show ?thesis
      by (cases e) (simp_all add: InstallPackages_def install_commands_def run_step_def RunWithOptions_def logging_def stateless_def)
  qed
qed

definition demo_facts :: Facts where
  "demo_facts = \<lparr>ft_OS = zero_OS, ft_PackageManager = Some \<lparr>pi_Type = PackageManagerYum, pi_UpdateCmd = ''yum makecache'',
      pi_InstallCmd = ''yum install -y %s'', pi_RemoveCmd = ''yum remove -y %s'', pi_PkgQueryCmd = ''rpm -q %s'', pi_CacheCleanCmd = ''yum clean all''\<rparr>, ft_InitSystem = None\<rparr>"

theorem InstallPackages_exact_witness:
  "map fst (snd (snd (InstallPackages (Some (logging (stateless (\<lambda>cmd. ([], [], if cmd = ''rpm -q tar'' then None else Some (ExitError 1))))))
     CallerCtx (Some demo_facts) [''tar'', ''socat''] ((), [])))) = [''rpm -q tar'', ''rpm -q socat'', ''yum install -y socat'']"
  by (subst InstallPackages_exact[of _ "the (ft_PackageManager demo_facts)"])
    (simp_all add: package_manager_def demo_facts_def query_command_def extra_args_def install_commands_def TrimSpace_def is_space_def)

section \<open>Services\<close>

text \<open>On a host with systemd \<^verbatim>\<open>StartService\<close> asks whether the service is active and starts it exactly when it is not.\<close>

lemma StartService_systemd:
  assumes "init_system facts = Some svc" "si_Type svc = InitSystemSystemd" "TrimSpace name \<noteq> []" "si_StartCmd svc \<noteq> []"
    and "StartService (Some (logging c)) ctx facts name (w, []) = (e, w', l)"
  shows "(\<exists>b. l = [(Sprintf (si_IsActiveCmd svc) [name], False), (Sprintf (si_StartCmd svc) [name], b)] \<and> (e = None \<longleftrightarrow> b)) \<or>
    (\<exists>b. l = [(Sprintf (si_IsActiveCmd svc) [name], b)] \<and> (e = None \<longleftrightarrow> b))"
proof -
  let ?a = "Sprintf (si_IsActiveCmd svc) [name]" and ?s = "Sprintf (si_StartCmd svc) [name]"
  obtain out err e1 w1 where x: "cn_Exec c ctx ?a (Some (sudo_options False)) w = ((out, err, e1), w1)" by (metis prod.exhaust)
  obtain out' err' e2 w2 where y: "cn_Exec c ctx ?s (Some (sudo_options True)) w1 = ((out', err', e2), w2)" by (metis prod.exhaust)
  have "StartService (Some (logging c)) ctx facts name (w, []) =
    (case e1 of None \<Rightarrow> (None, w1, [(?a, True)])
     | Some e1' \<Rightarrow> if as_CommandError e1' = None then (Some (Wrapf ''failed to check service status'' e1'), w1, [(?a, False)])
         else (case e2 of None \<Rightarrow> (None, w2, [(?a, False), (?s, True)])
               | Some e2' \<Rightarrow> (Some (Wrapf ''failed to manage service'' e2'), w2, [(?a, False), (?s, False)])))"
    using assms(1-4) x y
    by (cases e1; cases e2) (simp_all add: StartService_def IsServiceActive_def Check_def manageService_def run_step_def RunWithOptions_def logging_def Let_def)
  with assms(5) show ?thesis by (auto split: option.splits if_splits)
qed

section \<open>Unquoted arguments\<close>

text \<open>The runner does not quote paths: a path with a blank is two paths to the shell, here of a recursive removal.\<close>

lemma Remove_splits_path: "sh_words (remove_command ''/data/a /data/b'' True) = Some [''rm'', ''-fr'', ''/data/a'', ''/data/b'']"
  by (simp add: remove_command_def sh_words_def plain_char_def is_blank_def less_eq_char_def)

lemma remove_command_plain:
  assumes "path \<noteq> []" "plain path"
  shows "sh_words (remove_command path recursive) = Some [''rm'', if recursive then ''-fr'' else ''-f'', path]"
proof -
  let ?ps = "[Word ''rm'', Word (if recursive then ''-fr'' else ''-f''), Word path]"
  have "remove_command path recursive = command_line ?ps" by (simp add: remove_command_def command_line_def)
  moreover have "plain ''-fr''" by (simp add: plain_def plain_char_def less_eq_char_def)
  then have "list_all piece_ok ?ps" using assms by simp
  ultimately show ?thesis by (simp only: sh_words_command_line) simp
qed

text \<open>A command with a quote, run in the background, leaves a quote open: the escape is none inside single quotes.\<close>

lemma background_command_broken:
  "sh_words (''sh -c '' @ [sq] @ replace_char sq [bslash, sq] ([CHR ''a'', sq, CHR ''b'']) @ [sq]) = None"
  by (simp add: sh_words_def plain_char_def is_blank_def less_eq_char_def)

text \<open>The test whether a kernel parameter is already configured looks for the key alone, in files named by the rest of the line.\<close>

lemma sysctl_check_words:
  "sh_words (''grep -Fxq -- '' @ sysctl_line ''vm.swappiness'' ''10'' @ '' '' @ sysctl_conf) =
     Some [''grep'', ''-Fxq'', ''--'', ''vm.swappiness'', ''='', ''10'', ''/etc/sysctl.d/99-kubexm-runner.conf'']"
  by (simp add: sh_words_def sysctl_line_def sysctl_conf_def plain_char_def is_blank_def less_eq_char_def)

end
