(* ===== verification/RunnerFacts.thy ===== *)
theory RunnerFacts
  imports RunnerCorrect
begin

text \<open>
  \<^verbatim>\<open>runner/runner.go\<close>: the detection of the package manager and the init system, the deployment of a service, the
  question whether a path needs sudo, and the parsers for the output of the programs that describe a host. The text
  template engine and the JSON decoder are arguments.
\<close>

section \<open>Package manager and init system\<close>

definition aptInfo :: PackageInfo where
  "aptInfo =
     \<lparr>pi_Type = PackageManagerApt, pi_UpdateCmd = ''apt-get update -y'', pi_InstallCmd = ''apt-get install -y %s'',
      pi_RemoveCmd = ''apt-get remove -y %s'', pi_PkgQueryCmd = ''dpkg-query -W -f='' @ [sq] @ ''${Status}'' @ [sq] @ '' %s'',
      pi_CacheCleanCmd = ''apt-get clean''\<rparr>"

definition yumDnfInfoBase :: PackageInfo where
  "yumDnfInfoBase =
     \<lparr>pi_Type = PackageManagerYum, pi_UpdateCmd = ''yum update -y'', pi_InstallCmd = ''yum install -y %s'',
      pi_RemoveCmd = ''yum remove -y %s'', pi_PkgQueryCmd = ''rpm -q %s'', pi_CacheCleanCmd = ''yum clean all''\<rparr>"

definition dnfSpecificInfo :: PackageInfo where
  "dnfSpecificInfo =
     yumDnfInfoBase\<lparr>pi_Type := PackageManagerDnf, pi_UpdateCmd := ''dnf update -y'', pi_InstallCmd := ''dnf install -y %s'',
       pi_RemoveCmd := ''dnf remove -y %s'', pi_CacheCleanCmd := ''dnf clean all''\<rparr>"

definition has_program :: "'w connector option \<Rightarrow> go_ctx \<Rightarrow> string \<Rightarrow> 'w \<Rightarrow> bool \<times> 'w" where
  "has_program conn ctx prog w = (case LookPath conn ctx prog w of (Inl e, w1) \<Rightarrow> (False, w1) | (Inr p, w1) \<Rightarrow> (True, w1))"

text \<open>\<open>os\<close> is the operating system in the facts; without facts or without it there is none.\<close>

definition detectPackageManager :: "'w connector option \<Rightarrow> go_ctx \<Rightarrow> OS option \<Rightarrow> 'w \<Rightarrow> (error_value + PackageInfo) \<times> 'w" where
  "detectPackageManager conn ctx os w =
     (case os of
        None \<Rightarrow> (Inl (Errorf ''OS facts not available, cannot detect package manager''), w)
      | Some os' \<Rightarrow>
          (let osID = ToLower (os_ID os') in
           if osID \<in> set [''ubuntu'', ''debian'', ''raspbian'', ''linuxmint''] then (Inr aptInfo, w)
           else if osID \<in> set [''centos'', ''rhel'', ''fedora'', ''almalinux'', ''rocky'']
           then (case has_program conn ctx ''dnf'' w of (dnf, w1) \<Rightarrow> (Inr (if dnf then dnfSpecificInfo else yumDnfInfoBase), w1))
           else (case has_program conn ctx ''apt-get'' w of
                   (True, w1) \<Rightarrow> (Inr aptInfo, w1)
                 | (False, w1) \<Rightarrow>
                     (case has_program conn ctx ''dnf'' w1 of
                        (True, w2) \<Rightarrow> (Inr dnfSpecificInfo, w2)
                      | (False, w2) \<Rightarrow>
                          (case has_program conn ctx ''yum'' w2 of
                             (True, w3) \<Rightarrow> (Inr yumDnfInfoBase, w3)
                           | (False, w3) \<Rightarrow> (Inl (Errorf ''unsupported OS or unable to detect package manager''), w3))))))"

definition systemdInfo :: ServiceInfo where
  "systemdInfo =
     \<lparr>si_Type = InitSystemSystemd, si_StartCmd = ''systemctl start %s'', si_StopCmd = ''systemctl stop %s'',
      si_EnableCmd = ''systemctl enable %s'', si_DisableCmd = ''systemctl disable %s'', si_RestartCmd = ''systemctl restart %s'',
      si_IsActiveCmd = ''systemctl is-active --quiet %s'', si_DaemonReloadCmd = ''systemctl daemon-reload''\<rparr>"

definition sysvinitInfo :: ServiceInfo where
  "sysvinitInfo =
     \<lparr>si_Type = InitSystemSysV, si_StartCmd = ''service %s start'', si_StopCmd = ''service %s stop'',
      si_EnableCmd = ''chkconfig %s on'', si_DisableCmd = ''chkconfig %s off'', si_RestartCmd = ''service %s restart'',
      si_IsActiveCmd = ''service %s status'', si_DaemonReloadCmd = []\<rparr>"

definition detectInitSystem :: "'w connector option \<Rightarrow> go_ctx \<Rightarrow> OS option \<Rightarrow> 'w \<Rightarrow> (error_value + ServiceInfo) \<times> 'w" where
  "detectInitSystem conn ctx os w =
     (case os of
        None \<Rightarrow> (Inl (Errorf ''OS facts not available, cannot detect init system''), w)
      | Some os' \<Rightarrow>
          (case has_program conn ctx ''systemctl'' w of
             (True, w1) \<Rightarrow> (Inr systemdInfo, w1)
           | (False, w1) \<Rightarrow>
               (case has_program conn ctx ''service'' w1 of
                  (True, w2) \<Rightarrow> (Inr sysvinitInfo, w2)
                | (False, w2) \<Rightarrow>
                    (case PathExists conn ctx ''/etc/init.d'' w2 of
                       ((exists, _), w3) \<Rightarrow>
                         if exists then (Inr sysvinitInfo, w3)
                         else (Inl (Errorf ''unable to detect a supported init system (systemd, sysvinit)''), w3)))))"

section \<open>Deploying a service\<close>

text \<open>\<open>render\<close> is the parsing of the content as a template and its execution with the data, absent when there is no data.\<close>

definition config_bytes :: "(string \<Rightarrow> error_value + string) option \<Rightarrow> string \<Rightarrow> error_value + string" where
  "config_bytes render configContent =
     (case render of
        Some r \<Rightarrow> if configContent = [] then Inl (Errorf ''configContent cannot be empty if templateData is provided'') else r configContent
      | None \<Rightarrow> Inr configContent)"

definition deploy_steps :: "'w connector option \<Rightarrow> go_ctx \<Rightarrow> Facts option \<Rightarrow> string \<Rightarrow> string \<Rightarrow> string \<Rightarrow> string \<Rightarrow> 'w step_fun list" where
  "deploy_steps conn ctx facts serviceName contentBytes configPath permissions =
     [wrapping ''failed to write configuration file'' (WriteFile conn ctx contentBytes configPath (if permissions = [] then ''0644'' else permissions) True),
      wrapping ''failed to perform daemon-reload after writing config'' (DaemonReload conn ctx facts),
      wrapping ''failed to enable service'' (EnableService conn ctx facts serviceName),
      wrapping ''failed to restart service'' (RestartService conn ctx facts serviceName)]"

definition DeployAndEnableService :: "(string \<Rightarrow> error_value + string) option \<Rightarrow> 'w connector option \<Rightarrow> go_ctx \<Rightarrow> Facts option \<Rightarrow>
    string \<Rightarrow> string \<Rightarrow> string \<Rightarrow> string \<Rightarrow> 'w step_fun" where
  "DeployAndEnableService render conn ctx facts serviceName configContent configPath permissions w =
     (if conn = None then (Some nil_connector, w)
      else if facts = None then (Some (Errorf ''facts cannot be nil for DeployAndEnableService''), w)
      else if serviceName = [] then (Some (Errorf ''serviceName cannot be empty''), w)
      else if configPath = [] then (Some (Errorf ''configPath cannot be empty''), w)
      else case config_bytes render configContent of
             Inl e \<Rightarrow> (Some e, w)
           | Inr contentBytes \<Rightarrow> steps_in_turn (deploy_steps conn ctx facts serviceName contentBytes configPath permissions) w)"

section \<open>Whether a path needs sudo\<close>

text \<open>
  The cache is a variable of the package: every connection of the process shares it. \<open>user\<close> is the user of the
  connection.
\<close>

type_synonym sudo_cache = "(string, bool) gomap"

definition DetermineSudo :: "string \<Rightarrow> 'w connector option \<Rightarrow> go_ctx \<Rightarrow> string \<Rightarrow> sudo_cache \<times> 'w \<Rightarrow> bool \<times> sudo_cache \<times> 'w" where
  "DetermineSudo user conn ctx path s =
     (if user = ''root'' then (False, s)
      else let dir = filepath_Dir path in
        case gm_get (fst s) dir of
          Some needsSudo \<Rightarrow> (needsSudo, s)
        | None \<Rightarrow>
            (case RunWithOptions conn ctx (''test -w '' @ dir) (Some (sudo_options False)) (snd s) of
               ((out, err, e), w1) \<Rightarrow> (let needsSudo = (e \<noteq> None) in (needsSudo, gm_put dir needsSudo (fst s), w1))))"

section \<open>Block devices\<close>

record PartitionInfo =
  pt_Name :: string
  pt_Size :: int
  pt_MountPoint :: string

record DiskInfo =
  dk_Name :: string
  dk_Size :: int
  dk_Type :: string
  dk_MountPoint :: string
  dk_Partitions :: "PartitionInfo list"

text \<open>The pattern \<^verbatim>\<open>p\d+$\<close>, and if it does not match \<^verbatim>\<open>\d+$\<close>, is removed.\<close>

definition getParentDisk :: "string \<Rightarrow> string" where
  "getParentDisk name =
     (let ds = takeWhile is_digit (rev name); rest = dropWhile is_digit (rev name) in
      case rest of
        c # cs \<Rightarrow> if ds \<noteq> [] \<and> c = CHR ''p'' then rev cs else rev rest
      | [] \<Rightarrow> [])"

text \<open>A line of \<^verbatim>\<open>lsblk\<close>: name, size, type and mount point; \<open>None\<close> for a line the loop skips.\<close>

definition lsblk_line :: "string \<Rightarrow> (string \<times> int \<times> string \<times> string) option" where
  "lsblk_line line =
     (case Fields line of
        name # sizeStr # diskType # others \<Rightarrow>
          map_option (\<lambda>size. (name, size, diskType, case others of m # _ \<Rightarrow> m | [] \<Rightarrow> [])) (Atoi sizeStr)
      | _ \<Rightarrow> None)"

definition lsblk_step :: "string \<times> int \<times> string \<times> string \<Rightarrow> (string, DiskInfo) gomap \<times> DiskInfo list \<Rightarrow> (string, DiskInfo) gomap \<times> DiskInfo list" where
  "lsblk_step l s =
     (case (l, s) of ((name, bytes, diskType, mountPoint), (diskMap, disks)) \<Rightarrow>
        if diskType = ''disk''
        then (let disk = \<lparr>dk_Name = name, dk_Size = bytes, dk_Type = diskType, dk_MountPoint = mountPoint, dk_Partitions = []\<rparr>
              in (gm_put name disk diskMap, disks @ [disk]))
        else if diskType = ''part''
        then (let parentDiskName = getParentDisk name in
              case gm_get diskMap parentDiskName of
                Some d \<Rightarrow>
                  (gm_put parentDiskName
                     (d\<lparr>dk_Partitions := dk_Partitions d @ [\<lparr>pt_Name = name, pt_Size = bytes, pt_MountPoint = mountPoint\<rparr>]\<rparr>) diskMap, disks)
              | None \<Rightarrow> (diskMap, disks))
        else (diskMap, disks))"

definition parseLsblkOutput :: "string \<Rightarrow> DiskInfo list" where
  "parseLsblkOutput output =
     (let ls = List.map_filter lsblk_line (split_char (CHR 0x0A) (TrimSpace output));
          (diskMap, disks) = fold lsblk_step ls ([], [])
      in map (\<lambda>disk. case gm_get diskMap (dk_Name disk) of Some d \<Rightarrow> d | None \<Rightarrow> disk) disks)"

section \<open>Processors, interfaces and SELinux\<close>

record CPUInfo =
  cpu_ModelName :: string
  cpu_Architecture :: string
  cpu_Sockets :: int
  cpu_CoresPerSocket :: int
  cpu_ThreadsPerCore :: int
  cpu_LogicalCount :: int

text \<open>The value \<^verbatim>\<open>strconv.Atoi\<close> returns beside its error: zero for text, the nearest number for one out of range.\<close>

definition Atoi_value :: "string \<Rightarrow> int" where
  "Atoi_value s =
     (case Atoi s of
        Some i \<Rightarrow> i
      | None \<Rightarrow>
          (let (neg, ds) = (case s of c # cs \<Rightarrow> if c = CHR ''-'' then (True, cs) else if c = CHR ''+'' then (False, cs) else (False, s) | [] \<Rightarrow> (False, []))
           in if \<not> digits_only ds then 0 else if neg then - (2 ^ 63) else 2 ^ 63 - 1))"

fun cut_at :: "string \<Rightarrow> string \<Rightarrow> (string \<times> string) option" where
  "cut_at sep [] = (if sep = [] then Some ([], []) else None)"
| "cut_at sep (c # s) =
     (if HasPrefix (c # s) sep then Some ([], drop (length sep) (c # s))
      else map_option (\<lambda>(a, b). (c # a, b)) (cut_at sep s))"

definition quot_int :: "int \<Rightarrow> int \<Rightarrow> int" where
  "quot_int a b = sgn a * sgn b * (\<bar>a\<bar> div \<bar>b\<bar>)"

definition cpu_darwin :: "string \<Rightarrow> CPUInfo \<Rightarrow> CPUInfo" where
  "cpu_darwin line info =
     (case cut_at '': '' line of
        None \<Rightarrow> info
      | Some (k, v) \<Rightarrow>
          (let key = TrimSpace k; val = TrimSpace v in
           if key = ''machdep.cpu.brand_string'' then info\<lparr>cpu_ModelName := val\<rparr>
           else if key = ''machdep.cpu.core_count'' then info\<lparr>cpu_CoresPerSocket := Atoi_value val\<rparr>
           else if key = ''machdep.cpu.thread_count'' then info\<lparr>cpu_LogicalCount := Atoi_value val\<rparr>
           else info))"

definition cpu_linux :: "string \<Rightarrow> CPUInfo \<Rightarrow> CPUInfo" where
  "cpu_linux line info =
     (case cut_at '':'' line of
        None \<Rightarrow> info
      | Some (k, v) \<Rightarrow>
          (let key = TrimSpace k; val = TrimSpace v in
           if key = ''Architecture'' then info\<lparr>cpu_Architecture := val\<rparr>
           else if key = ''Model name'' then info\<lparr>cpu_ModelName := val\<rparr>
           else if key = ''CPU(s)'' then info\<lparr>cpu_LogicalCount := Atoi_value val\<rparr>
           else if key = ''Socket(s)'' then info\<lparr>cpu_Sockets := Atoi_value val\<rparr>
           else if key = ''Core(s) per socket'' then info\<lparr>cpu_CoresPerSocket := Atoi_value val\<rparr>
           else if key = ''Thread(s) per core'' then info\<lparr>cpu_ThreadsPerCore := Atoi_value val\<rparr>
           else info))"

definition parseCPUInfo :: "string \<Rightarrow> string \<Rightarrow> CPUInfo" where
  "parseCPUInfo output osID =
     (let zero = \<lparr>cpu_ModelName = [], cpu_Architecture = [], cpu_Sockets = 0, cpu_CoresPerSocket = 0, cpu_ThreadsPerCore = 0, cpu_LogicalCount = 0\<rparr>;
          ls = split_char (CHR 0x0A) output
      in if ToLower osID = ''darwin''
         then (let info = (fold cpu_darwin ls zero)\<lparr>cpu_Sockets := 1\<rparr> in
               if cpu_CoresPerSocket info > 0
               then info\<lparr>cpu_ThreadsPerCore := quot_int (cpu_LogicalCount info) (cpu_CoresPerSocket info)\<rparr> else info)
         else fold cpu_linux ls zero)"

record AddrInfo =
  ad_Family :: string
  ad_Local :: string
  ad_Prefixlen :: int

record IpAddrInfo =
  ia_Ifname :: string
  ia_Operstate :: string
  ia_LinkType :: string
  ia_Address :: string
  ia_AddrInfo :: "AddrInfo list"

record NetworkInterface =
  ni_Name :: string
  ni_MACAddress :: string
  ni_IPv4 :: "string list"
  ni_IPv6 :: "string list"

definition interface_of :: "IpAddrInfo \<Rightarrow> NetworkInterface" where
  "interface_of info =
     (let cidrs = (\<lambda>fam. map (\<lambda>a. ad_Local a @ ''/'' @ show_int (ad_Prefixlen a)) (filter (\<lambda>a. ad_Family a = fam) (ia_AddrInfo info)))
      in \<lparr>ni_Name = ia_Ifname info, ni_MACAddress = ia_Address info, ni_IPv4 = cidrs ''inet'', ni_IPv6 = cidrs ''inet6''\<rparr>)"

definition parseNetworkInterfaces :: "(string \<Rightarrow> error_value + IpAddrInfo list) \<Rightarrow> string \<Rightarrow> string \<Rightarrow> error_value + NetworkInterface list" where
  "parseNetworkInterfaces unmarshal output osID =
     (if ToLower osID \<noteq> ''linux'' then Inr []
      else case unmarshal output of
             Inl e \<Rightarrow> Inl (Wrapf ''failed to unmarshal output'' e)
           | Inr infos \<Rightarrow>
               Inr (map interface_of (filter (\<lambda>info. \<not> (ia_Operstate info = ''DOWN'' \<or> ia_LinkType info = ''loopback'')) infos)))"

definition blank_char :: "char \<Rightarrow> bool" where
  "blank_char c \<longleftrightarrow> c \<in> set [CHR 0x09, CHR 0x0A, CHR 0x0C, CHR 0x0D, CHR 0x20]"

definition word_char :: "char \<Rightarrow> bool" where
  "word_char c \<longleftrightarrow> char_within ''az'' c \<or> char_within ''AZ'' c \<or> char_within ''09'' c \<or> c = CHR ''_''"

text \<open>The first match of \<^verbatim>\<open>Current mode:\s+(\w+)\<close>; blanks are not word characters, so that taking all blanks loses no match.\<close>

fun current_mode :: "string \<Rightarrow> string option" where
  "current_mode [] = None"
| "current_mode (c # s) =
     (let rest = drop 13 (c # s); blanks = takeWhile blank_char rest; mode = takeWhile word_char (dropWhile blank_char rest) in
      if HasPrefix (c # s) ''Current mode:'' \<and> blanks \<noteq> [] \<and> mode \<noteq> [] then Some mode else current_mode s)"

definition parseSELinuxStatus :: "string \<Rightarrow> string" where
  "parseSELinuxStatus output =
     (case current_mode output of
        None \<Rightarrow> ''Unknown''
      | Some m \<Rightarrow>
          (let status = ToLower m in
           if status = ''enforcing'' then ''Enforcing''
           else if status = ''permissive'' then ''Permissive''
           else if status = ''disabled'' then ''Disabled''
           else ''Unknown''))"

section \<open>What is detected\<close>

text \<open>A detected init system is one of the two that are supported, and its templates have one place for the name of the service.\<close>

lemma detectInitSystem_result: "detectInitSystem conn ctx os w = (Inr svc, w') \<Longrightarrow> svc = systemdInfo \<or> svc = sysvinitInfo"
  by (auto simp: detectInitSystem_def split: option.splits prod.splits bool.splits if_splits)

lemma systemd_commands:
  "Sprintf (si_EnableCmd systemdInfo) [name] = ''systemctl enable '' @ name"
  "Sprintf (si_RestartCmd systemdInfo) [name] = ''systemctl restart '' @ name"
  "Sprintf (si_StartCmd systemdInfo) [name] = ''systemctl start '' @ name"
  "Sprintf (si_IsActiveCmd systemdInfo) [name] = ''systemctl is-active --quiet '' @ name"
  by (simp_all add: systemdInfo_def extra_args_def)

lemma detectPackageManager_result:
  "detectPackageManager conn ctx os w = (Inr pm, w') \<Longrightarrow> pm = aptInfo \<or> pm = yumDnfInfoBase \<or> pm = dnfSpecificInfo"
  by (auto simp: detectPackageManager_def Let_def split: option.splits prod.splits bool.splits if_splits)

text \<open>Detected package managers can query and install, as the installation of packages requires.\<close>

lemma detected_can_install:
  assumes "detectPackageManager conn ctx os w = (Inr pm, w')"
  shows "pi_PkgQueryCmd pm \<noteq> []" "pi_Type pm \<noteq> PackageManagerUnknown" "pi_InstallCmd pm \<noteq> []"
  using detectPackageManager_result[OF assms] by (auto simp: aptInfo_def yumDnfInfoBase_def dnfSpecificInfo_def)

section \<open>Deployed services\<close>

text \<open>The logs a deployment on a host with systemd may leave, with and without an error.\<close>

definition deploy_logs :: "string \<Rightarrow> cmd_log list" where
  "deploy_logs name =
     (let reload = ''systemctl daemon-reload''; query = ''systemctl is-enabled --quiet '' @ name;
          enable = ''systemctl enable '' @ name; restart = ''systemctl restart '' @ name
      in [[(reload, True), (query, True), (restart, True)],
          [(reload, True), (query, False), (enable, True), (restart, True)]])"

definition failed_deploy_logs :: "string \<Rightarrow> cmd_log list" where
  "failed_deploy_logs name =
     (let reload = ''systemctl daemon-reload''; query = ''systemctl is-enabled --quiet '' @ name;
          enable = ''systemctl enable '' @ name; restart = ''systemctl restart '' @ name
      in [[], [(reload, False)], [(reload, True), (query, False), (enable, False)],
          [(reload, True), (query, True), (restart, False)],
          [(reload, True), (query, False), (enable, True), (restart, False)]])"

lemma log_run_step:
  assumes "cn_Exec c ctx cmd (Some (sudo_options sudo)) w = ((out, err, e), w1)"
  shows "run_step (Some (logging c)) ctx msg cmd sudo (w, l) = (map_option (Wrapf msg) e, w1, l @ [(cmd, e = None)])"
  using assms by (cases e) (simp_all add: run_step_def RunWithOptions_def logging_def)

lemma log_DaemonReload:
  assumes "init_system facts = Some systemdInfo"
  obtains b w1 e where "DaemonReload (Some (logging c)) ctx facts (w, l) = (e, w1, l @ [(''systemctl daemon-reload'', b)])" "e = None \<longleftrightarrow> b"
proof -
  obtain out err e w1 where x: "cn_Exec c ctx ''systemctl daemon-reload'' (Some (sudo_options True)) w = ((out, err, e), w1)" by (metis prod.exhaust)
  have "si_DaemonReloadCmd systemdInfo = ''systemctl daemon-reload''" by (simp add: systemdInfo_def)
  then show ?thesis using that log_run_step[OF x] assms by (simp add: DaemonReload_def)
qed

lemma log_RestartService:
  assumes "init_system facts = Some systemdInfo" "TrimSpace name \<noteq> []"
  obtains b w1 e where "RestartService (Some (logging c)) ctx facts name (w, l) = (e, w1, l @ [(''systemctl restart '' @ name, b)])" "e = None \<longleftrightarrow> b"
proof -
  obtain out err e w1 where x: "cn_Exec c ctx (''systemctl restart '' @ name) (Some (sudo_options True)) w = ((out, err, e), w1)" by (metis prod.exhaust)
  have "si_RestartCmd systemdInfo \<noteq> []" by (simp add: systemdInfo_def)
  then show ?thesis using that log_run_step[OF x] assms
    by (simp only: RestartService_def manageService_def systemd_commands option.case option.distinct if_False simp_thms) simp
qed

lemma log_EnableService:
  assumes "init_system facts = Some systemdInfo" "TrimSpace name \<noteq> []"
  obtains w1 where "EnableService (Some (logging c)) ctx facts name (w, l) = (None, w1, l @ [(''systemctl is-enabled --quiet '' @ name, True)])"
  | b w1 e where "EnableService (Some (logging c)) ctx facts name (w, l) =
      (e, w1, l @ [(''systemctl is-enabled --quiet '' @ name, False), (''systemctl enable '' @ name, b)])" "e = None \<longleftrightarrow> b"
proof -
  let ?q = "''systemctl is-enabled --quiet '' @ name" and ?n = "''systemctl enable '' @ name"
  obtain f where f: "facts = Some f" using assms(1) by (auto simp: init_system_def split: Option.bind_splits)
  obtain out err e w1 where x: "cn_Exec c ctx ?q (Some (sudo_options False)) w = ((out, err, e), w1)" by (metis prod.exhaust)
  obtain out' err' e2 w2 where y: "cn_Exec c ctx ?n (Some (sudo_options True)) w1 = ((out', err', e2), w2)" by (metis prod.exhaust)
  have t: "si_Type systemdInfo = InitSystemSystemd" "si_EnableCmd systemdInfo \<noteq> []" by (simp_all add: systemdInfo_def)
  have ex: "cn_Exec (logging c) ctx ?q (Some (sudo_options False)) (w, l) = ((out, err, e), w1, l @ [(?q, e = None)])"
    by (simp only: logging_def connector.simps fst_conv snd_conv x prod.case)
  have q: "IsServiceEnabled (Some (logging c)) ctx facts name (w, l) =
      (case e of None \<Rightarrow> (True, None) | Some e' \<Rightarrow> if is_CommandError e' then (False, None) else (False, Some e'), w1, l @ [(?q, e = None)])"
    unfolding IsServiceEnabled_def assms(1) unfolding f exit_status_query_def RunWithOptions_def
    using assms(2) t ex by (cases e) simp_all
  have m: "manageService (Some (logging c)) ctx facts name (si_EnableCmd systemdInfo) True (w1, l @ [(?q, False)]) =
      (map_option (Wrapf ''failed to manage service'') e2, w2, (l @ [(?q, False)]) @ [(?n, e2 = None)])"
    using log_run_step[OF y, of "''failed to manage service''" "l @ [(?q, False)]"] assms t
    by (simp only: manageService_def systemd_commands option.distinct if_False simp_thms)
  show ?thesis
  proof (cases e)
    case None
    then have "EnableService (Some (logging c)) ctx facts name (w, l) = (None, w1, l @ [(?q, True)])"
      using assms(1) q by (simp add: EnableService_def)
    then show ?thesis by (rule that(1))
  next
    case (Some e')
    then have "EnableService (Some (logging c)) ctx facts name (w, l) =
        manageService (Some (logging c)) ctx facts name (si_EnableCmd systemdInfo) True (w1, l @ [(?q, False)])"
      using assms(1) q t by (simp add: EnableService_def)
    then show ?thesis using that(2)[of _ _ "e2 = None"] m by simp
  qed
qed

lemma log_WriteFile:
  obtains e w1 where "WriteFile (Some (logging c)) ctx content p perms sudo (w, l) = (e, w1, l)"
proof -
  obtain e w1 where "cn_WriteFile c ctx content p (Some (zero_CopyOptions\<lparr>co_Permissions := perms, co_Sudo := sudo\<rparr>)) w = (e, w1)" by fastforce
  then show ?thesis using that by (simp add: WriteFile_def logging_def lift_log_def)
qed

lemma wrapping_result: "f s = (e, s') \<Longrightarrow> wrapping msg f s = (map_option (Wrapf msg) e, s')"
  by (cases e) (simp_all add: wrapping_def)

lemma wrapped_step:
  "f s = (e, s') \<Longrightarrow> steps_in_turn (wrapping msg f # fs) s = (case e of None \<Rightarrow> steps_in_turn fs s' | Some e' \<Rightarrow> (Some (Wrapf msg e'), s'))"
  by (cases e) (simp_all add: wrapping_result)

lemma deploy_enable_restart:
  assumes "init_system facts = Some systemdInfo" "TrimSpace name \<noteq> []"
    and "steps_in_turn [wrapping m1 (EnableService (Some (logging c)) ctx facts name), wrapping m2 (RestartService (Some (logging c)) ctx facts name)]
      (w, [(''systemctl daemon-reload'', True)]) = (e, w', l)"
  shows "l \<in> set (if e = None then deploy_logs name else failed_deploy_logs name)"
proof -
  let ?l = "[(''systemctl daemon-reload'', True)]"
  let ?q = "''systemctl is-enabled --quiet '' @ name"
  let ?enable = "EnableService (Some (logging c)) ctx facts name" and ?restart = "RestartService (Some (logging c)) ctx facts name"
  note restart = log_RestartService[OF assms(1,2), where c = c and ctx = ctx]
  show ?thesis
  proof (rule log_EnableService[OF assms(1,2), where c = c and ctx = ctx and w = w and l = ?l])
    fix w3
    assume s3: "EnableService (Some (logging c)) ctx facts name (w, ?l) = (None, w3, ?l @ [(?q, True)])"
    obtain b w4 e4 where s4: "RestartService (Some (logging c)) ctx facts name (w3, ?l @ [(?q, True)]) =
        (e4, w4, (?l @ [(?q, True)]) @ [(''systemctl restart '' @ name, b)])" "e4 = None \<longleftrightarrow> b" using restart .
    show ?thesis using assms(3) s4(2) wrapped_step[of ?enable, OF s3] wrapped_step[of ?restart, OF s4(1)]
      by (cases e4) (auto simp: deploy_logs_def failed_deploy_logs_def Let_def)
  next
    fix a w3 e3
    let ?l3 = "?l @ [(?q, False), (''systemctl enable '' @ name, a)]"
    assume s3: "EnableService (Some (logging c)) ctx facts name (w, ?l) = (e3, w3, ?l3)" "e3 = None \<longleftrightarrow> a"
    obtain b w4 e4 where s4: "RestartService (Some (logging c)) ctx facts name (w3, ?l3) = (e4, w4, ?l3 @ [(''systemctl restart '' @ name, b)])" "e4 = None \<longleftrightarrow> b"
      using restart .
    show ?thesis using assms(3) s3(2) s4(2) wrapped_step[of ?enable, OF s3(1)] wrapped_step[of ?restart, OF s4(1)]
      by (cases e3; cases e4) (auto simp: deploy_logs_def failed_deploy_logs_def Let_def)
  qed
qed

lemma deploy_steps_logs:
  assumes "init_system facts = Some systemdInfo" "TrimSpace name \<noteq> []"
    and "steps_in_turn (deploy_steps (Some (logging c)) ctx facts name bytes path perms) (w, []) = (e, w', l)"
  shows "l \<in> set (if e = None then deploy_logs name else failed_deploy_logs name)"
proof -
  let ?perms = "if perms = [] then ''0644'' else perms"
  obtain e1 w1 where s1: "WriteFile (Some (logging c)) ctx bytes path ?perms True (w, []) = (e1, w1, [])" using log_WriteFile .
  obtain b2 w2 e2 where s2: "DaemonReload (Some (logging c)) ctx facts (w1, []) = (e2, w2, [] @ [(''systemctl daemon-reload'', b2)])" "e2 = None \<longleftrightarrow> b2"
    using log_DaemonReload[OF assms(1)] .
  note run1 = assms(3)[unfolded deploy_steps_def wrapped_step[of "WriteFile (Some (logging c)) ctx bytes path ?perms True", OF s1]]
  show ?thesis
  proof (cases e1)
    case (Some x)
    then show ?thesis using run1 by (auto simp: failed_deploy_logs_def Let_def)
  next
    case None
    note run2 = run1[unfolded None option.case wrapped_step[of "DaemonReload (Some (logging c)) ctx facts", OF s2(1)] append_Nil]
    show ?thesis
    proof (cases e2)
      case (Some x)
      then show ?thesis using run2 s2(2) by (auto simp: failed_deploy_logs_def Let_def)
    next
      case None
      then have b2: "b2 = True" using s2(2) by simp
      show ?thesis by (rule deploy_enable_restart[OF assms(1,2) run2[unfolded None b2 option.case]])
    qed
  qed
qed

text \<open>C22: On a host with systemd \<^verbatim>\<open>DeployAndEnableService\<close> reloads, enables and restarts in this order: it returns no error only if the
  daemon was reloaded, the service is enabled - the question said so, or enabling it succeeded - and was restarted, and
  each command runs only after the commands before it, the question apart, succeeded.\<close>

theorem DeployAndEnableService_order:
  assumes "init_system facts = Some systemdInfo" "TrimSpace name \<noteq> []"
    and "DeployAndEnableService render (Some (logging c)) ctx facts name content path perms (w, []) = (e, w', l)"
  shows "l \<in> set (if e = None then deploy_logs name else failed_deploy_logs name)"
proof -
  obtain f where f: "facts = Some f" using assms(1) by (auto simp: init_system_def split: Option.bind_splits)
  show ?thesis
  proof (cases "name = [] \<or> path = [] \<or> (\<exists>x. config_bytes render content = Inl x)")
    case True
    then have "(\<exists>x. e = Some x) \<and> l = []" using assms(3) f by (auto simp: DeployAndEnableService_def split: if_splits sum.splits)
    then show ?thesis by (auto simp: failed_deploy_logs_def Let_def)
  next
    case False
    then obtain bytes where "config_bytes render content = Inr bytes" by (cases "config_bytes render content") auto
    then have "steps_in_turn (deploy_steps (Some (logging c)) ctx facts name bytes path perms) (w, []) = (e, w', l)"
      using assms(3) False f by (simp add: DeployAndEnableService_def)
    then show ?thesis by (rule deploy_steps_logs[OF assms(1,2)])
  qed
qed

theorem DeployAndEnableService_order_witness:
  "snd (snd (DeployAndEnableService None (Some (logging (stateless (\<lambda>cmd. ([], [], None))))) CallerCtx
     (Some (demo_facts\<lparr>ft_InitSystem := Some systemdInfo\<rparr>)) ''etcd'' ''x'' ''/etc/x'' [] ((), []))) \<in> set (deploy_logs ''etcd'')"
proof -
  let ?r = "DeployAndEnableService None (Some (logging (stateless (\<lambda>cmd. ([], [], None))))) CallerCtx
     (Some (demo_facts\<lparr>ft_InitSystem := Some systemdInfo\<rparr>)) ''etcd'' ''x'' ''/etc/x'' [] ((), [])"
  have "init_system (Some (demo_facts\<lparr>ft_InitSystem := Some systemdInfo\<rparr>)) = Some systemdInfo" by (simp add: init_system_def)
  moreover have "TrimSpace ''etcd'' \<noteq> []" by code_simp
  moreover obtain e w' l where r: "?r = (e, w', l)" by (metis prod.exhaust)
  ultimately have "l \<in> set (if e = None then deploy_logs ''etcd'' else failed_deploy_logs ''etcd'')"
    by (rule DeployAndEnableService_order)
  moreover have "fst ?r = None" by code_simp
  ultimately show ?thesis by (simp only: r fst_conv snd_conv if_True simp_thms)
qed

section \<open>The cache of \<^verbatim>\<open>DetermineSudo\<close>\<close>

text \<open>The answer of \<^verbatim>\<open>DetermineSudo\<close> for one host is the answer for all: once a host has been asked about a directory, every
  other host gets the same answer for it, and no command is run there.\<close>

theorem DetermineSudo_shared:
  fixes wA :: 'a and wB :: 'b
  assumes "userA \<noteq> ''root''" "userB \<noteq> ''root''" "filepath_Dir pathA = filepath_Dir pathB"
    and "DetermineSudo userA connA ctx pathA (cache, wA) = (needsSudo, cache', wA')"
  shows "DetermineSudo userB connB ctx' pathB (cache', wB) = (needsSudo, cache', wB)"
proof -
  have "gm_get cache' (filepath_Dir pathA) = Some needsSudo"
    using assms(1,4) by (auto simp: DetermineSudo_def Let_def split: option.splits prod.splits)
  then show ?thesis using assms(2,3) by (simp add: DetermineSudo_def)
qed

text \<open>On the first host the directory is not writable, on the second one it is.\<close>

theorem DetermineSudo_shared_witness:
  "\<exists>cache. DetermineSudo ''ops'' (Some (stateless (\<lambda>cmd. ([], [], Some (CommandError cmd 1 [] [] None))))) CallerCtx ''/data/a'' ([], ()) = (True, cache, ()) \<and>
     DetermineSudo ''ops'' (Some (stateless (\<lambda>cmd. ([], [], None)))) CallerCtx ''/data/b'' (cache, ()) = (True, cache, ()) \<and>
     fst (DetermineSudo ''ops'' (Some (stateless (\<lambda>cmd. ([], [], None)))) CallerCtx ''/data/b'' ([], ())) = False"
proof -
  let ?a = "DetermineSudo ''ops'' (Some (stateless (\<lambda>cmd. ([], [], Some (CommandError cmd 1 [] [] None))))) CallerCtx ''/data/a'' ([], ())"
  obtain r where "snd ?a = (r, ())" by (cases "snd ?a") auto
  moreover have "fst ?a = True" by code_simp
  ultimately have a: "?a = (True, r, ())" by (simp add: prod_eq_iff)
  have dir: "filepath_Dir ''/data/a'' = filepath_Dir ''/data/b''" by code_simp
  have "DetermineSudo ''ops'' (Some (stateless (\<lambda>cmd. ([], [], None)))) CallerCtx ''/data/b'' (r, ()) = (True, r, ())"
    by (rule DetermineSudo_shared[OF _ _ dir a]) simp_all
  moreover have "fst (DetermineSudo ''ops'' (Some (stateless (\<lambda>cmd. ([], [], None)))) CallerCtx ''/data/b'' ([], ())) = False" by code_simp
  ultimately show ?thesis using a by blast
qed

section \<open>Parsed descriptions of a host\<close>

lemma getParentDisk_examples:
  "getParentDisk ''sda1'' = ''sda''" "getParentDisk ''nvme0n1p2'' = ''nvme0n1''" "getParentDisk ''sdp1'' = ''sd''"
  by code_simp+

text \<open>The last example is the first partition of the disk \<^verbatim>\<open>sdp\<close>, which is lost.\<close>

lemma parseLsblk_sdp:
  "map (\<lambda>d. (dk_Name d, map pt_Name (dk_Partitions d))) (parseLsblkOutput (''sdo 10 disk'' @ [CHR 0x0A] @ ''sdo1 5 part /'' @ [CHR 0x0A] @ ''sdp 10 disk'' @ [CHR 0x0A] @ ''sdp1 5 part /data'')) =
     [(''sdo'', [''sdo1'']), (''sdp'', [])]"
  by code_simp

text \<open>The operating systems are named by their distribution, so that no interface of these is reported.\<close>

lemma interfaces_not_reported:
  assumes "os_ID os \<in> {''ubuntu'', ''debian'', ''centos'', ''rhel'', ''fedora'', ''almalinux'', ''rocky''}"
  shows "parseNetworkInterfaces unmarshal output (os_ID os) = Inr []"
proof -
  have "ToLower i \<noteq> ''linux''" if "i \<in> set [''ubuntu'', ''debian'', ''centos'', ''rhel'', ''fedora'', ''almalinux'', ''rocky'']" for i
    using that by (simp, elim disjE) (simp_all add: ToLower_def to_lower_def)
  then show ?thesis using assms by (simp add: parseNetworkInterfaces_def)
qed

lemma parseSELinuxStatus_modes:
  "parseSELinuxStatus (''Current mode:   '' @ ''enforcing'') = ''Enforcing''" "parseSELinuxStatus ''SELinux status: disabled'' = ''Unknown''"
  by code_simp+

section \<open>Disks and their partitions\<close>

type_synonym lsblk_entry = "string \<times> int \<times> string \<times> string"

fun is_disk :: "lsblk_entry \<Rightarrow> bool" where
  "is_disk (name, bytes, t, mp) \<longleftrightarrow> t = ''disk''"

fun is_part :: "lsblk_entry \<Rightarrow> bool" where
  "is_part (name, bytes, t, mp) \<longleftrightarrow> t = ''part''"

fun part_of :: "lsblk_entry \<Rightarrow> PartitionInfo" where
  "part_of (name, bytes, t, mp) = \<lparr>pt_Name = name, pt_Size = bytes, pt_MountPoint = mp\<rparr>"

definition children :: "lsblk_entry list \<Rightarrow> string \<Rightarrow> PartitionInfo list" where
  "children ls n = map part_of (filter (\<lambda>p. is_part p \<and> getParentDisk (fst p) = n) ls)"

fun disk_of :: "PartitionInfo list \<Rightarrow> lsblk_entry \<Rightarrow> DiskInfo" where
  "disk_of ps (name, bytes, t, mp) = \<lparr>dk_Name = name, dk_Size = bytes, dk_Type = t, dk_MountPoint = mp, dk_Partitions = ps\<rparr>"

definition disk_names :: "lsblk_entry list \<Rightarrow> string list" where
  "disk_names ls = map fst (filter is_disk ls)"

text \<open>The order in which \<^verbatim>\<open>lsblk\<close> prints: disks have different names and a partition comes after its disk.\<close>

fun lsblk_ordered :: "string list \<Rightarrow> lsblk_entry list \<Rightarrow> bool" where
  "lsblk_ordered seen [] \<longleftrightarrow> True"
| "lsblk_ordered seen (l # ls) \<longleftrightarrow>
     (if is_disk l then fst l \<notin> set seen \<and> lsblk_ordered (fst l # seen) ls
      else (is_part l \<longrightarrow> getParentDisk (fst l) \<in> set seen \<or> getParentDisk (fst l) \<notin> set (disk_names ls)) \<and> lsblk_ordered seen ls)"

lemma lsblk_ordered_disjoint: "lsblk_ordered seen ls \<Longrightarrow> n \<in> set (disk_names ls) \<Longrightarrow> n \<notin> set seen"
proof (induction seen ls rule: lsblk_ordered.induct)
  case (2 seen l ls)
  then show ?case by (cases "is_disk l") (auto simp: disk_names_def)
qed (simp add: disk_names_def)

text \<open>
  The loop from a state whose table holds the disks \<open>seen\<close>: it appends the disks that follow, and at its end the table
  has the partitions that follow added to the disks it held, and the disks that follow with all their partitions.
\<close>

definition add_children :: "lsblk_entry list \<Rightarrow> DiskInfo \<Rightarrow> DiskInfo" where
  "add_children ls d = d\<lparr>dk_Partitions := dk_Partitions d @ children ls (dk_Name d)\<rparr>"

definition lsblk_result :: "lsblk_entry list \<Rightarrow> (string, DiskInfo) gomap \<times> DiskInfo list \<Rightarrow> (string, DiskInfo) gomap \<times> DiskInfo list \<Rightarrow> bool" where
  "lsblk_result ls s s' \<longleftrightarrow>
     snd s' = snd s @ map (disk_of []) (filter is_disk ls) \<and>
     (\<forall>n d. gm_get (fst s) n = Some d \<longrightarrow> gm_get (fst s') n = Some (add_children ls d)) \<and>
     (\<forall>l \<in> set ls. is_disk l \<longrightarrow> gm_get (fst s') (fst l) = Some (disk_of (children ls (fst l)) l))"

definition table_of :: "string list \<Rightarrow> (string, DiskInfo) gomap \<Rightarrow> bool" where
  "table_of seen m \<longleftrightarrow> (\<forall>n. n \<in> set seen \<longleftrightarrow> gm_get m n \<noteq> None) \<and> (\<forall>n d. gm_get m n = Some d \<longrightarrow> dk_Name d = n)"

lemma lsblk_result_disk:
  assumes "is_disk l" "fst l \<notin> set seen" "table_of seen (fst s)" "lsblk_result ls (lsblk_step l s) s'" "lsblk_ordered (fst l # seen) ls"
  shows "lsblk_result (l # ls) s s'"
proof -
  have np: "\<not> is_part l" using assms(1) by (cases l) simp
  have step: "lsblk_step l s = (gm_put (fst l) (disk_of [] l) (fst s), snd s @ [disk_of [] l])"
    using assms(1) by (cases l; cases s) (simp add: lsblk_step_def Let_def)
  have ch: "children (l # ls) n = children ls n" for n using np by (simp add: children_def)
  have own: "add_children ls (disk_of [] l) = disk_of (children ls (fst l)) l" by (cases l) (simp add: add_children_def)
  have "gm_get (fst s) n = Some d \<Longrightarrow> n \<noteq> fst l" for n d using assms(2,3) by (auto simp: table_of_def)
  then show ?thesis
    using assms(1,4) own unfolding lsblk_result_def step fst_conv snd_conv
    by (auto simp: ch add_children_def)
qed

lemma table_of_part: "is_part l \<Longrightarrow> table_of seen (fst s) \<Longrightarrow> table_of seen (fst (lsblk_step l s))"
  by (cases l; cases s) (auto simp: lsblk_step_def Let_def table_of_def split: option.splits if_splits)

lemma lsblk_result_part:
  assumes "is_part l" "\<not> is_disk l" "table_of seen (fst s)" "lsblk_result ls (lsblk_step l s) s'" "lsblk_ordered seen ls"
    and "getParentDisk (fst l) \<in> set seen \<or> getParentDisk (fst l) \<notin> set (disk_names ls)"
  shows "lsblk_result (l # ls) s s'"
proof -
  let ?p = "getParentDisk (fst l)"
  have step: "lsblk_step l s = (case gm_get (fst s) ?p of
      Some d \<Rightarrow> (gm_put ?p (d\<lparr>dk_Partitions := dk_Partitions d @ [part_of l]\<rparr>) (fst s), snd s) | None \<Rightarrow> s)"
    using assms(1) by (cases l; cases s) (simp add: lsblk_step_def Let_def split: option.splits)
  have ch: "children (l # ls) n = (if n = ?p then [part_of l] else []) @ children ls n" for n
    using assms(1) by (simp add: children_def)
  have later: "?p \<noteq> fst l'" if "l' \<in> set ls" "is_disk l'" for l'
    using assms(5,6) that lsblk_ordered_disjoint[of seen ls "fst l'"] by (auto simp: disk_names_def)
  have disks: "gm_get (fst s') (fst l') = Some (disk_of (children (l # ls) (fst l')) l')" if "l' \<in> set (l # ls)" "is_disk l'" for l'
    using that assms(2,4) later[of l'] unfolding ch lsblk_result_def by auto
  have held: "gm_get (fst s') n = Some (add_children (l # ls) d)" if d: "gm_get (fst s) n = Some d" for n d
  proof -
    have n: "dk_Name d = n" using d assms(3) by (auto simp: table_of_def)
    show ?thesis
    proof (cases "n = ?p")
      case True
      then have "gm_get (fst (lsblk_step l s)) n = Some (d\<lparr>dk_Partitions := dk_Partitions d @ [part_of l]\<rparr>)" using d by (simp add: step)
      then show ?thesis using assms(4) True n unfolding lsblk_result_def by (auto simp: add_children_def ch)
    next
      case False
      then have "gm_get (fst (lsblk_step l s)) n = Some d" using d by (auto simp: step split: option.splits)
      then show ?thesis using assms(4) False n unfolding lsblk_result_def by (auto simp: add_children_def ch)
    qed
  qed
  have "snd (lsblk_step l s) = snd s" by (simp add: step split: option.splits)
  then show ?thesis using assms(2,4) disks held unfolding lsblk_result_def by auto
qed

lemma table_of_disk: "is_disk l \<Longrightarrow> table_of seen (fst s) \<Longrightarrow> table_of (fst l # seen) (fst (lsblk_step l s))"
  by (cases l; cases s) (auto simp: lsblk_step_def Let_def table_of_def)

lemma lsblk_fold:
  "lsblk_ordered seen ls \<Longrightarrow> table_of seen (fst s) \<Longrightarrow> lsblk_result ls s (fold lsblk_step ls s)"
proof (induction ls arbitrary: s seen)
  case Nil
  then show ?case by (simp add: lsblk_result_def add_children_def children_def)
next
  case (Cons l ls)
  consider "is_disk l" | "is_part l" "\<not> is_disk l" | "\<not> is_disk l" "\<not> is_part l" by blast
  then show ?case
  proof cases
    case 1
    then have o: "fst l \<notin> set seen" "lsblk_ordered (fst l # seen) ls" using Cons.prems(1) by simp_all
    then show ?thesis using lsblk_result_disk[OF 1 o(1) Cons.prems(2) Cons.IH[OF o(2) table_of_disk[OF 1 Cons.prems(2)]] o(2)] by simp
  next
    case 2
    then have o: "getParentDisk (fst l) \<in> set seen \<or> getParentDisk (fst l) \<notin> set (disk_names ls)" "lsblk_ordered seen ls"
      using Cons.prems(1) by simp_all
    have "table_of seen (fst (lsblk_step l s))" by (rule table_of_part[OF 2(1) Cons.prems(2)])
    then show ?thesis using lsblk_result_part[OF 2 Cons.prems(2) Cons.IH[OF o(2)] o(2,1)] by simp
  next
    case 3
    then have "lsblk_step l s = s" by (cases l; cases s) (simp add: lsblk_step_def)
    then show ?thesis using Cons.IH[of seen s] Cons.prems 3 by (simp add: lsblk_result_def add_children_def children_def)
  qed
qed

text \<open>C25: When \<^verbatim>\<open>lsblk\<close> lists different disks and every partition after its disk, \<^verbatim>\<open>parseLsblkOutput\<close> returns the disks in this
  order, each with exactly the partitions whose names lead to it, in their order.\<close>

theorem parseLsblkOutput_groups:
  assumes "ls = List.map_filter lsblk_line (split_char (CHR 0x0A) (TrimSpace output))" "lsblk_ordered [] ls"
  shows "parseLsblkOutput output = map (\<lambda>l. disk_of (children ls (fst l)) l) (filter is_disk ls)"
proof -
  obtain m ds where f: "fold lsblk_step ls ([], []) = (m, ds)" by fastforce
  then have r: "lsblk_result ls ([], []) (m, ds)" using lsblk_fold[OF assms(2), of "([], [])"] by (simp add: table_of_def)
  have name: "dk_Name (disk_of ps l) = fst l" for ps l by (cases l) simp
  have "parseLsblkOutput output = map (\<lambda>disk. case gm_get m (dk_Name disk) of Some d \<Rightarrow> d | None \<Rightarrow> disk) ds"
    by (simp add: parseLsblkOutput_def f flip: assms(1))
  then show ?thesis using r by (auto simp: lsblk_result_def name)
qed

theorem parseLsblkOutput_groups_witness:
  "map (\<lambda>d. (dk_Name d, map pt_Name (dk_Partitions d))) (parseLsblkOutput (''sda 9 disk'' @ [CHR 0x0A] @ ''sda1 5 part /'' @ [CHR 0x0A] @ ''sda2 4 part'')) =
     [(''sda'', [''sda1'', ''sda2''])]"
proof -
  let ?ls = "[(''sda'', 9, ''disk'', []), (''sda1'', 5, ''part'', ''/''), (''sda2'', 4, ''part'', [])]"
  have "?ls = List.map_filter lsblk_line (split_char (CHR 0x0A) (TrimSpace (''sda 9 disk'' @ [CHR 0x0A] @ ''sda1 5 part /'' @ [CHR 0x0A] @ ''sda2 4 part'')))"
    by code_simp
  moreover have "lsblk_ordered [] ?ls" by code_simp
  ultimately have "parseLsblkOutput (''sda 9 disk'' @ [CHR 0x0A] @ ''sda1 5 part /'' @ [CHR 0x0A] @ ''sda2 4 part'') =
      map (\<lambda>l. disk_of (children ?ls (fst l)) l) (filter is_disk ?ls)" by (rule parseLsblkOutput_groups)
  moreover have "map (\<lambda>d. (dk_Name d, map pt_Name (dk_Partitions d))) (map (\<lambda>l. disk_of (children ?ls (fst l)) l) (filter is_disk ?ls)) =
     [(''sda'', [''sda1'', ''sda2''])]" by code_simp
  ultimately show ?thesis by simp
qed

end
