(* ===== verification/GoNet.thy ===== *)
theory GoNet
  imports GoStrings
begin

text \<open>
  The part of Go's package \<^verbatim>\<open>net\<close> the sources use: textual addresses (\<^verbatim>\<open>ParseIP\<close>, which calls
  \<^verbatim>\<open>netip.ParseAddr\<close> and refuses zones) and \<^verbatim>\<open>IsLoopback\<close>. An address is the list of its sixteen
  bytes; an IPv4 address has the prefix of the mapped addresses.
\<close>

type_synonym ip = "nat list"

section \<open>IPv4\<close>

definition octet :: "string \<Rightarrow> nat option" where
  "octet s = (if digits_only s \<and> (length s = 1 \<or> hd s \<noteq> CHR ''0'') \<and> read_nat s \<le> 255 then Some (read_nat s) else None)"

fun all_some :: "'a option list \<Rightarrow> 'a list option" where
  "all_some [] = Some []"
| "all_some (None # xs) = None"
| "all_some (Some x # xs) = map_option ((#) x) (all_some xs)"

definition parseIPv4Fields :: "string \<Rightarrow> nat list option" where
  "parseIPv4Fields s = (let fs = split_char (CHR ''.'') s in if length fs = 4 then all_some (map octet fs) else None)"

definition v4InV6Prefix :: "nat list" where
  "v4InV6Prefix = [0, 0, 0, 0, 0, 0, 0, 0, 0, 0, 255, 255]"

section \<open>IPv6\<close>

definition hex_val :: "char \<Rightarrow> nat option" where
  "hex_val c =
     (if is_digit c then Some (digit_val c)
      else if CHR ''a'' \<le> c \<and> c \<le> CHR ''f'' then Some (of_char c - 87)
      else if CHR ''A'' \<le> c \<and> c \<le> CHR ''F'' then Some (of_char c - 55)
      else None)"

definition is_hex :: "char \<Rightarrow> bool" where
  "is_hex c \<longleftrightarrow> hex_val c \<noteq> None"

definition read_hex :: "string \<Rightarrow> nat" where
  "read_hex s = foldl (\<lambda>n c. 16 * n + (case hex_val c of None \<Rightarrow> 0 | Some d \<Rightarrow> d)) 0 s"

text \<open>
  The loop over the groups: \<open>bs\<close> are the bytes so far, \<open>el\<close> the position of the ellipsis. The result
  is the bytes, the position of the ellipsis and the unread rest.
\<close>

function (sequential) ipv6_groups :: "string \<Rightarrow> nat list \<Rightarrow> nat option \<Rightarrow> (nat list \<times> nat option \<times> string) option" where
  "ipv6_groups s bs el =
     (if length bs \<ge> 16 then Some (bs, el, s)
      else let ds = takeWhile is_hex s; rest = drop (length ds) s; acc = read_hex ds in
        if ds = [] \<or> length ds > 4 then None
        else if rest \<noteq> [] \<and> hd rest = CHR ''.'' then
          (if (el = None \<and> length bs \<noteq> 12) \<or> length bs > 12 then None
           else map_option (\<lambda>v4. (bs @ v4, el, [])) (parseIPv4Fields s))
        else let bs' = bs @ [acc div 256, acc mod 256] in
          if rest = [] then Some (bs', el, [])
          else if hd rest \<noteq> CHR '':'' \<or> tl rest = [] then None
          else let s' = tl rest in
            if hd s' = CHR '':'' then
              (if el \<noteq> None then None
               else if tl s' = [] then Some (bs', Some (length bs'), [])
               else ipv6_groups (tl s') bs' (Some (length bs')))
            else ipv6_groups s' bs' el)"
  by pat_completeness auto
termination by (relation "measure (\<lambda>(s, bs, el). 16 - length bs)") auto

declare ipv6_groups.simps [simp del]

definition parseIPv6 :: "string \<Rightarrow> ip option" where
  "parseIPv6 s =
     (let (el, s') = (if HasPrefix s ''::'' then (Some 0, drop 2 s) else (None, s)) in
      if el = Some 0 \<and> s' = [] then Some (replicate 16 0)
      else case ipv6_groups s' [] el of
        None \<Rightarrow> None
      | Some (bs, el', rest) \<Rightarrow>
          if rest \<noteq> [] then None
          else if length bs < 16
          then map_option (\<lambda>k. take k bs @ replicate (16 - length bs) 0 @ drop k bs) el'
          else if el' = None then Some bs else None)"

section \<open>ParseIP\<close>

text \<open>The first character among dot, colon and percent decides. An address with a zone is refused.\<close>

definition ParseIP :: "string \<Rightarrow> ip option" where
  "ParseIP s =
     (case dropWhile (\<lambda>c. c \<noteq> CHR ''.'' \<and> c \<noteq> CHR '':'' \<and> c \<noteq> CHR ''%'') s of
        [] \<Rightarrow> None
      | c # _ \<Rightarrow>
          if c = CHR ''.'' then map_option ((@) v4InV6Prefix) (parseIPv4Fields s)
          else if c = CHR '':'' \<and> CHR ''%'' \<notin> set s then parseIPv6 s
          else None)"

definition To4 :: "ip \<Rightarrow> nat list option" where
  "To4 a = (if length a = 4 then Some a else if length a = 16 \<and> take 12 a = v4InV6Prefix then Some (drop 12 a) else None)"

definition IsLoopback :: "ip \<Rightarrow> bool" where
  "IsLoopback a = (case To4 a of Some v4 \<Rightarrow> hd v4 = 127 | None \<Rightarrow> a = replicate 15 0 @ [1])"

lemma all_some_iff: "all_some xs = Some ys \<longleftrightarrow> xs = map Some ys"
proof (induction xs arbitrary: ys)
  case (Cons x xs)
  then show ?case by (cases x; cases ys) auto
qed auto

lemma octet_bound: "octet s = Some v \<Longrightarrow> v \<le> 255"
  by (auto simp: octet_def split: if_splits)

lemma parseIPv4Fields_bytes: "parseIPv4Fields s = Some bs \<Longrightarrow> length bs = 4 \<and> (\<forall>b\<in>set bs. b \<le> 255)"
proof -
  assume "parseIPv4Fields s = Some bs"
  then have *: "length (split_char (CHR ''.'') s) = 4" "map octet (split_char (CHR ''.'') s) = map Some bs"
    by (auto simp: parseIPv4Fields_def all_some_iff Let_def split: if_splits)
  have "Some b \<in> octet ` set (split_char (CHR ''.'') s)" if "b \<in> set bs" for b
    using *(2) that by (metis image_eqI list.set_map)
  then have "\<forall>b\<in>set bs. b \<le> 255" by (metis imageE octet_bound)
  then show ?thesis using * by (metis length_map)
qed

end
