(* ===== verification/Network.thy ===== *)
theory Network
  imports GoNet "HOL-Library.Word"
begin

unbundle bit_operations_syntax

text \<open>
  The address arithmetic of \<^verbatim>\<open>util/network.go\<close>, and the second \<^verbatim>\<open>NetworksOverlap\<close>, of
  \<^verbatim>\<open>apis/kubexms/v1alpha1/helpers/strings.go\<close>. Addresses and masks are lists of bytes, most significant first, and
  a byte is an \<open>8 word\<close>. The theorems read an address as a number (\<open>val\<close>): the bytewise loops are operations on the
  bits of this number, a network is a block of numbers that agree above the bits its mask leaves open.
\<close>

section \<open>Bytes and networks\<close>

type_synonym byte = "8 word"

record IPNet =
  ipn_IP :: "byte list"
  ipn_Mask :: "byte list"

text \<open>\<^verbatim>\<open>bytes.Compare\<close>.\<close>

fun bytes_Compare :: "byte list \<Rightarrow> byte list \<Rightarrow> int" where
  "bytes_Compare [] [] = 0"
| "bytes_Compare [] (y # ys) = -1"
| "bytes_Compare (x # xs) [] = 1"
| "bytes_Compare (x # xs) (y # ys) = (if x < y then -1 else if y < x then 1 else bytes_Compare xs ys)"

text \<open>
  Of \<^verbatim>\<open>net\<close>: \<^verbatim>\<open>CIDRMask\<close>, whose loop over \<open>l\<close> bytes is \<open>prefix_mask\<close>, \<^verbatim>\<open>IPMask.Size\<close>, which answers \<^verbatim>\<open>(0, 0)\<close> for a mask that is not a
  prefix, \<^verbatim>\<open>IP.To4\<close> and \<^verbatim>\<open>IPNet.Contains\<close>.
\<close>

fun prefix_mask :: "nat \<Rightarrow> nat \<Rightarrow> byte list" where
  "prefix_mask ones 0 = []"
| "prefix_mask ones (Suc l) =
     (if ones \<ge> 8 then 0xFF # prefix_mask (ones - 8) l else NOT (drop_bit ones 0xFF) # prefix_mask 0 l)"

definition CIDRMask :: "nat \<Rightarrow> nat \<Rightarrow> byte list" where
  "CIDRMask ones bits = (if (bits = 32 \<or> bits = 128) \<and> ones \<le> bits then prefix_mask ones (bits div 8) else [])"

definition mask_Size :: "byte list \<Rightarrow> nat \<times> nat" where
  "mask_Size m =
     (case filter (\<lambda>ones. prefix_mask ones (length m) = m) [0 ..< Suc (8 * length m)] of
        [] \<Rightarrow> (0, 0)
      | ones # _ \<Rightarrow> (ones, 8 * length m))"

definition v4_prefix :: "byte list" where
  "v4_prefix = map of_nat v4InV6Prefix"

definition ip_To4 :: "byte list \<Rightarrow> byte list option" where
  "ip_To4 a = (if length a = 4 then Some a else if length a = 16 \<and> take 12 a = v4_prefix then Some (drop 12 a) else None)"

definition networkNumberAndMask :: "IPNet \<Rightarrow> (byte list \<times> byte list) option" where
  "networkNumberAndMask n =
     (let m = ipn_Mask n in
      case (case ip_To4 (ipn_IP n) of Some x \<Rightarrow> Some x | None \<Rightarrow> if length (ipn_IP n) \<noteq> 16 then None else Some (ipn_IP n)) of
        None \<Rightarrow> None
      | Some ip \<Rightarrow>
          if length m = 4 then (if length ip \<noteq> 4 then None else Some (ip, m))
          else if length m = 16 then (if length ip = 4 then Some (ip, drop 12 m) else Some (ip, m))
          else None)"

definition IPNet_Contains :: "IPNet \<Rightarrow> byte list \<Rightarrow> bool" where
  "IPNet_Contains n ip =
     (let (nn, m) = (case networkNumberAndMask n of Some p \<Rightarrow> p | None \<Rightarrow> ([], []));
          x = (case ip_To4 ip of Some v4 \<Rightarrow> v4 | None \<Rightarrow> ip)
      in length x = length nn \<and> list_all (\<lambda>(n', i, k). n' AND k = i AND k) (zip nn (zip x m)))"

section \<open>Operations\<close>

text \<open>\<^verbatim>\<open>LastIP\<close> reads \<^verbatim>\<open>n.Mask[i]\<close> for every byte of the address; it panics (\<open>None\<close>) when the mask is shorter.\<close>

definition LastIP :: "IPNet \<Rightarrow> byte list option" where
  "LastIP n =
     (if length (ipn_IP n) \<le> length (ipn_Mask n)
      then Some (map2 (\<lambda>i m. i OR NOT m) (ipn_IP n) (ipn_Mask n)) else None)"

definition NetworksOverlap :: "IPNet option \<Rightarrow> IPNet option \<Rightarrow> bool option" where
  "NetworksOverlap a b =
     (case (a, b) of
        (Some n1, Some n2) \<Rightarrow>
          (case (LastIP n1, LastIP n2) of
             (Some n1_last, Some n2_last) \<Rightarrow>
               Some (bytes_Compare (ipn_IP n1) n2_last \<le> 0 \<and> bytes_Compare (ipn_IP n2) n1_last \<le> 0)
           | _ \<Rightarrow> None)
      | _ \<Rightarrow> Some False)"

text \<open>The helper of the configuration types; a nil mask is an empty one.\<close>

definition helpers_NetworksOverlap :: "IPNet option \<Rightarrow> IPNet option \<Rightarrow> bool" where
  "helpers_NetworksOverlap a b =
     (case (a, b) of
        (Some n1, Some n2) \<Rightarrow>
          IPNet_Contains n1 (ipn_IP n2) \<and> ipn_Mask n2 \<noteq> [] \<or> IPNet_Contains n2 (ipn_IP n1) \<and> ipn_Mask n1 \<noteq> []
      | _ \<Rightarrow> False)"

definition IsSubnet :: "IPNet option \<Rightarrow> IPNet option \<Rightarrow> bool option" where
  "IsSubnet a b =
     (case (a, b) of
        (Some n1, Some n2) \<Rightarrow>
          if \<not> IPNet_Contains n1 (ipn_IP n2) then Some False else map_option (IPNet_Contains n1) (LastIP n2)
      | _ \<Rightarrow> Some False)"

text \<open>\<^verbatim>\<open>NextIP\<close>: the loop runs from the last byte; \<open>next_bytes\<close> takes the bytes in this order.\<close>

fun next_bytes :: "byte list \<Rightarrow> byte list option" where
  "next_bytes [] = None"
| "next_bytes (b # bs) = (let b' = b + 1 in if b' > 0 then Some (b' # bs) else map_option ((#) b') (next_bytes bs))"

definition NextIP :: "byte list \<Rightarrow> byte list option" where
  "NextIP ip = map_option rev (next_bytes (rev ip))"

definition IPToUint32 :: "byte list \<Rightarrow> 32 word option" where
  "IPToUint32 ip =
     map_option (\<lambda>a. push_bit 24 (ucast (a ! 0)) OR push_bit 16 (ucast (a ! 1)) OR push_bit 8 (ucast (a ! 2)) OR ucast (a ! 3))
       (ip_To4 ip)"

definition CIDRToIPRange :: "IPNet \<Rightarrow> (byte list \<times> byte list) option" where
  "CIDRToIPRange n = map_option (Pair (ipn_IP n)) (LastIP n)"

datatype net_error =
    CannotSplit nat
  | InvalidPortRange string
  | TooManyAddresses int
  | InvalidIPRange string

text \<open>\<^verbatim>\<open>SplitCIDR\<close>: the index is out of range when the address has fewer bytes than the mask (\<open>None\<close> is the panic).\<close>

definition SplitCIDR :: "IPNet \<Rightarrow> (net_error + IPNet list) option" where
  "SplitCIDR n =
     (let (ones, bits) = mask_Size (ipn_Mask n) in
      if ones = bits then Some (Inl (CannotSplit ones))
      else
        (let newPrefixLen = ones + 1;
             mask = CIDRMask newPrefixLen bits;
             byteIndex = (if newPrefixLen mod 8 = 0 then newPrefixLen div 8 - 1 else newPrefixLen div 8);
             bitIndex = 7 - (newPrefixLen - 1) mod 8
         in if byteIndex < length (ipn_IP n)
            then Some (Inr [\<lparr>ipn_IP = ipn_IP n, ipn_Mask = mask\<rparr>,
                            \<lparr>ipn_IP = (ipn_IP n)[byteIndex := (ipn_IP n ! byteIndex) OR push_bit bitIndex 1], ipn_Mask = mask\<rparr>])
            else None))"

definition MaxExpandSize :: nat where
  "MaxExpandSize = 4096"

fun expand_loop :: "nat \<Rightarrow> byte list \<Rightarrow> byte list list" where
  "expand_loop 0 currentIP = []"
| "expand_loop (Suc n) currentIP =
     currentIP # (case NextIP currentIP of None \<Rightarrow> [] | Some ip \<Rightarrow> expand_loop n ip)"

text \<open>
  \<^verbatim>\<open>1 << (bits - ones)\<close> is an \<^verbatim>\<open>int\<close> of 64 bits; \<^verbatim>\<open>make\<close> panics on a negative capacity.
\<close>

definition numAddresses :: "nat \<Rightarrow> int" where
  "numAddresses h = sint (push_bit h 1 :: 64 word)"

definition ExpandCIDR :: "IPNet \<Rightarrow> (net_error + byte list list) option" where
  "ExpandCIDR cidr =
     (let (ones, bits) = mask_Size (ipn_Mask cidr); num = numAddresses (bits - ones) in
      if num > int MaxExpandSize then Some (Inl (TooManyAddresses num))
      else if num < 0 then None
      else Some (Inr (expand_loop (nat num) (ipn_IP cidr))))"

text \<open>The loop of \<^verbatim>\<open>ExpandIPRange\<close>; \<open>room\<close> is how many addresses the list may still take.\<close>

fun range_loop :: "nat \<Rightarrow> byte list \<Rightarrow> byte list \<Rightarrow> byte list list option" where
  "range_loop 0 endIP currentIP = None"
| "range_loop (Suc room) endIP currentIP =
     (if currentIP = endIP then Some [currentIP]
      else case NextIP currentIP of
             None \<Rightarrow> Some [currentIP]
           | Some ip \<Rightarrow> map_option ((#) currentIP) (range_loop room endIP ip))"

definition parse_address :: "string \<Rightarrow> byte list option" where
  "parse_address s = map_option (map of_nat) (ParseIP (TrimSpace s))"

definition ExpandIPRange :: "string \<Rightarrow> net_error + byte list list" where
  "ExpandIPRange ipRange =
     (case split_char (CHR ''-'') ipRange of
        [p0, p1] \<Rightarrow>
          (case parse_address p0 of
             None \<Rightarrow> Inl (InvalidIPRange p0)
           | Some startIP \<Rightarrow>
               (case parse_address p1 of
                  None \<Rightarrow> Inl (InvalidIPRange p1)
                | Some endIP \<Rightarrow>
                    if bytes_Compare startIP endIP > 0 then Inl (InvalidIPRange ipRange)
                    else (case range_loop MaxExpandSize endIP startIP of
                            None \<Rightarrow> Inl (TooManyAddresses (int MaxExpandSize))
                          | Some l \<Rightarrow> Inr l)))
      | _ \<Rightarrow> Inl (InvalidIPRange ipRange))"

text \<open>\<^verbatim>\<open>ParsePortRange\<close>: the set of ports is a map whose keys are then sorted.\<close>

definition port_part :: "string \<Rightarrow> int list option" where
  "port_part part =
     (if CHR ''-'' \<in> set part
      then (case split_char (CHR ''-'') part of
              [a, b] \<Rightarrow>
                (case (Atoi (TrimSpace a), Atoi (TrimSpace b)) of
                   (Some s, Some e) \<Rightarrow> if s < 1 \<or> e > 65535 \<or> s > e then None else Some [s .. e]
                 | _ \<Rightarrow> None)
            | _ \<Rightarrow> None)
      else (case Atoi part of
              Some p \<Rightarrow> if p < 1 \<or> p > 65535 then None else Some [p]
            | None \<Rightarrow> None))"

fun port_parts :: "string list \<Rightarrow> (int, unit) gomap \<Rightarrow> net_error + (int, unit) gomap" where
  "port_parts [] portSet = Inr portSet"
| "port_parts (p # ps) portSet =
     (let part = TrimSpace p in
      if part = [] then port_parts ps portSet
      else case port_part part of
             None \<Rightarrow> Inl (InvalidPortRange part)
           | Some l \<Rightarrow> port_parts ps (fold (\<lambda>i m. gm_put i () m) l portSet))"

definition ParsePortRange :: "string \<Rightarrow> net_error + int list" where
  "ParsePortRange portRange =
     (if portRange = [] then Inr []
      else map_sum id (\<lambda>m. sort (map fst m)) (port_parts (split_char (CHR '','') portRange) []))"

section \<open>Addresses as numbers\<close>

fun val :: "byte list \<Rightarrow> nat" where
  "val [] = 0"
| "val (b # bs) = unat b * 256 ^ length bs + val bs"

lemma unat_byte: "unat (b :: byte) < 256"
  using unsigned_less[of b] by simp

lemma val_append: "val (xs @ ys) = val xs * 256 ^ length ys + val ys"
  by (induction xs) (simp_all add: power_add algebra_simps)

lemma val_bound: "val bs < 256 ^ length bs"
proof (induction bs)
  case (Cons b bs)
  have "unat b * 256 ^ length bs + val bs < (unat b + 1) * 256 ^ length bs" using Cons by simp
  also have "\<dots> \<le> 256 * 256 ^ length bs" using unat_byte[of b] by (intro mult_right_mono) simp_all
  finally show ?case by simp
qed simp

lemma val_bound_bits: "val bs < 2 ^ (8 * length bs)"
  using val_bound[of bs] by (simp add: power_mult)

text \<open>Comparing two addresses of the same length compares their numbers.\<close>

lemma compare_val: "length xs = length ys \<Longrightarrow> bytes_Compare xs ys = (if val xs < val ys then -1 else if val xs = val ys then 0 else 1)"
proof (induction xs ys rule: list_induct2)
  case (Cons x xs y ys)
  have step: "unat a * 256 ^ length ys + val as < unat b * 256 ^ length ys + val bs"
    if "a < b" "length as = length ys" for a b :: byte and as bs
  proof -
    have "unat a * 256 ^ length ys + val as < (unat a + 1) * 256 ^ length ys" using val_bound[of as] that by simp
    also have "\<dots> \<le> unat b * 256 ^ length ys" using that by (intro mult_right_mono) (simp_all add: word_less_nat_alt)
    finally show ?thesis by simp
  qed
  show ?case
  proof (cases x y rule: linorder_cases)
    case less
    then show ?thesis using step[of x y xs ys] Cons.hyps by simp
  next
    case greater
    then show ?thesis using step[of y x ys xs] Cons.hyps by (simp add: not_less_iff_gr_or_eq)
  qed (use Cons in simp)
qed simp

lemma val_inject: "length xs = length ys \<Longrightarrow> val xs = val ys \<longleftrightarrow> xs = ys"
proof (induction xs ys rule: list_induct2)
  case (Cons x xs y ys)
  have "x = y" if eq: "unat x * 256 ^ length ys + val xs = unat y * 256 ^ length ys + val ys"
  proof -
    have "(unat x * 256 ^ length ys + val xs) div 256 ^ length ys = (unat y * 256 ^ length ys + val ys) div 256 ^ length ys"
      using eq by simp
    then show "x = y" using val_bound[of xs] val_bound[of ys] Cons.hyps by (simp add: word_unat_eq_iff)
  qed
  then show ?case using Cons by auto
qed simp

text \<open>Bit \<open>k\<close> of the number is bit \<open>k mod 8\<close> of byte \<open>k div 8\<close>, counted from the end.\<close>

lemma bit_append_byte: "bit (a * 256 + unat (b :: byte)) k = (if k < 8 then bit b k else bit a (k - 8))"
proof -
  have "a * 256 + unat b = push_bit 8 a + unat b" by (simp add: push_bit_eq_mult)
  also have "\<dots> = push_bit 8 a OR unat b"
    by (intro disjunctive_add) (auto simp: bit_simps dest: bit_imp_le_length)
  finally show ?thesis using bit_imp_le_length[of b] by (auto simp: bit_simps bit_unsigned_iff)
qed

lemma bit_val: "bit (val bs) k \<longleftrightarrow> k < 8 * length bs \<and> bit (bs ! (length bs - 1 - k div 8)) (k mod 8)"
proof (induction bs arbitrary: k rule: rev_induct)
  case (snoc b bs)
  have v: "val (bs @ [b]) = val bs * 256 + unat b" by (simp add: val_append)
  show ?case
  proof (cases "k < 8")
    case False
    then have "k div 8 = Suc ((k - 8) div 8)" "k mod 8 = (k - 8) mod 8" "k - 8 < 8 * length bs \<longleftrightarrow> k < 8 * length (bs @ [b])"
      by (auto simp: le_div_geq le_mod_geq)
    moreover have "k - 8 < 8 * length bs \<Longrightarrow> length bs - 1 - (k - 8) div 8 < length bs" by (cases bs) auto
    ultimately show ?thesis using False snoc.IH[of "k - 8"] by (auto simp: v bit_append_byte nth_append)
  qed (simp add: v bit_append_byte)
qed simp

text \<open>A bytewise loop is the same operation on the bits of the numbers.\<close>

lemma bit_val_map2:
  assumes "length xs = length ys" "\<And>x y j. j < 8 \<Longrightarrow> bit (f x y) j \<longleftrightarrow> P (bit x j) (bit y j)"
  shows "bit (val (map2 f xs ys)) k \<longleftrightarrow> k < 8 * length xs \<and> P (bit (val xs) k) (bit (val ys) k)"
proof (cases "k < 8 * length xs")
  case True
  then have "length xs - 1 - k div 8 < length xs" by (cases xs) auto
  then show ?thesis using True assms by (simp add: bit_val)
qed (use assms(1) in \<open>simp add: bit_val\<close>)

lemma length_prefix_mask [simp]: "length (prefix_mask ones l) = l"
  by (induction ones l rule: prefix_mask.induct) auto

lemma bit_FF: "bit (0xFF :: byte) j \<longleftrightarrow> j < 8"
proof -
  have "bit (mask 8 :: byte) j \<longleftrightarrow> j < 8" by (auto simp: bit_simps)
  moreover have "(mask 8 :: byte) = 0xFF" by (simp add: mask_eq_exp_minus_1)
  ultimately show ?thesis by metis
qed

lemma bit_mask_byte: "j < 8 \<Longrightarrow> n < 8 \<Longrightarrow> bit (NOT (drop_bit n 0xFF) :: byte) j \<longleftrightarrow> 7 - j < n"
proof -
  assume "j < 8" "n < 8"
  have "bit (NOT (drop_bit n 0xFF) :: byte) j \<longleftrightarrow> \<not> bit (0xFF :: byte) (n + j)"
    using \<open>j < 8\<close> by (simp add: bit_not_iff bit_drop_bit_eq)
  then show ?thesis unfolding bit_FF using \<open>j < 8\<close> \<open>n < 8\<close> by arith
qed

lemma nth_prefix_mask: "i < l \<Longrightarrow> j < 8 \<Longrightarrow> bit (prefix_mask ones l ! i) j \<longleftrightarrow> 8 * i + 7 - j < ones"
proof (induction ones l arbitrary: i rule: prefix_mask.induct)
  case (2 ones l)
  show ?case
  proof (cases i)
    case 0
    then show ?thesis using "2.prems" bit_FF[of j] by (auto simp: bit_mask_byte)
  next
    case (Suc i')
    then have "bit (prefix_mask (ones - 8) l ! i') j \<longleftrightarrow> 8 * i' + 7 - j < ones - 8" if "8 \<le> ones"
      using "2.IH"(1)[OF that] "2.prems" by simp
    moreover have "\<not> bit (prefix_mask 0 l ! i') j" if "\<not> 8 \<le> ones"
      using "2.IH"(2)[OF that] "2.prems" Suc by simp
    ultimately show ?thesis using Suc "2.prems" by auto
  qed
qed simp

lemma bit_val_mask:
  assumes "h \<le> 8 * l"
  shows "bit (val (prefix_mask (8 * l - h) l)) k \<longleftrightarrow> h \<le> k \<and> k < 8 * l"
proof (cases "k < 8 * l")
  case True
  let ?i = "l - 1 - k div 8"
  have i: "?i < l" using True by (cases l) auto
  have "k div 8 \<le> l - 1" using True by (cases l) auto
  then have "8 * ?i + 7 - k mod 8 = 8 * l - 1 - k" using i by (simp add: right_diff_distrib' flip: minus_mult_div_eq_mod)
  then show ?thesis using True nth_prefix_mask[OF i, of "k mod 8" "8 * l - h"] assms by (auto simp: bit_val)
qed (simp add: bit_val)

section \<open>Networks as blocks of numbers\<close>

text \<open>
  The networks \<^verbatim>\<open>net.ParseCIDR\<close> returns: address and mask have 4 or 16 bytes, the mask is a prefix and the address has no
  bits outside of it. IPv4 addresses written as IPv6 are left out, since \<^verbatim>\<open>Contains\<close> reads them as IPv4.
\<close>

definition host_bits :: "IPNet \<Rightarrow> nat" where
  "host_bits n = (case mask_Size (ipn_Mask n) of (ones, bits) \<Rightarrow> bits - ones)"

definition proper_net :: "IPNet \<Rightarrow> bool" where
  "proper_net n \<longleftrightarrow>
     (length (ipn_IP n) = 4 \<or> length (ipn_IP n) = 16 \<and> take 12 (ipn_IP n) \<noteq> v4_prefix) \<and>
     list_ex (\<lambda>ones. ipn_Mask n = prefix_mask ones (length (ipn_IP n))) [0 ..< Suc (8 * length (ipn_IP n))] \<and>
     map2 (AND) (ipn_IP n) (ipn_Mask n) = ipn_IP n"

lemma filter_single: "a < k \<Longrightarrow> filter (\<lambda>x. x = a) [0 ..< k] = [a]"
  by (induction k) (auto simp: less_Suc_eq)

lemma prefix_mask_inject:
  assumes "a \<le> 8 * l" "b \<le> 8 * l" "prefix_mask a l = prefix_mask b l"
  shows "a = b"
proof -
  have "8 * l - a \<le> k \<and> k < 8 * l \<longleftrightarrow> 8 * l - b \<le> k \<and> k < 8 * l" for k
    using bit_val_mask[of "8 * l - a" l k] bit_val_mask[of "8 * l - b" l k] assms by simp
  from this[of "8 * l - a"] this[of "8 * l - b"] show ?thesis using assms by auto
qed

lemma mask_Size_prefix:
  assumes "ones \<le> 8 * l"
  shows "mask_Size (prefix_mask ones l) = (ones, 8 * l)"
proof -
  have "filter (\<lambda>x. prefix_mask x l = prefix_mask ones l) [0 ..< Suc (8 * l)] = filter (\<lambda>x. x = ones) [0 ..< Suc (8 * l)]"
    using prefix_mask_inject[OF _ assms] by (intro filter_cong) auto
  then show ?thesis using filter_single[of ones "Suc (8 * l)"] assms by (simp add: mask_Size_def)
qed

lemma proper_net_mask:
  assumes "proper_net n"
  shows "ipn_Mask n = prefix_mask (8 * length (ipn_IP n) - host_bits n) (length (ipn_IP n))"
    "host_bits n \<le> 8 * length (ipn_IP n)" "length (ipn_Mask n) = length (ipn_IP n)"
    "mask_Size (ipn_Mask n) = (8 * length (ipn_IP n) - host_bits n, 8 * length (ipn_IP n))"
proof -
  obtain ones where o: "ones \<le> 8 * length (ipn_IP n)" "ipn_Mask n = prefix_mask ones (length (ipn_IP n))"
    using assms unfolding proper_net_def list_ex_iff by (metis atLeastLessThan_iff less_Suc_eq_le set_upt)
  then have h: "host_bits n = 8 * length (ipn_IP n) - ones" by (simp add: host_bits_def mask_Size_prefix)
  then show m: "ipn_Mask n = prefix_mask (8 * length (ipn_IP n) - host_bits n) (length (ipn_IP n))"
    and "host_bits n \<le> 8 * length (ipn_IP n)" using o by simp_all
  then show "length (ipn_Mask n) = length (ipn_IP n)" by simp
  show "mask_Size (ipn_Mask n) = (8 * length (ipn_IP n) - host_bits n, 8 * length (ipn_IP n))"
    by (subst m) (simp add: mask_Size_prefix)
qed

lemma bit_proper_mask:
  assumes "proper_net n"
  shows "bit (val (ipn_Mask n)) k \<longleftrightarrow> host_bits n \<le> k \<and> k < 8 * length (ipn_IP n)"
  using bit_val_mask[OF proper_net_mask(2)[OF assms]] proper_net_mask(1)[OF assms] by simp

text \<open>The address of a network has no host bits: its number is a multiple of the size of the block.\<close>

lemma proper_net_aligned:
  assumes "proper_net n"
  shows "take_bit (host_bits n) (val (ipn_IP n)) = 0"
proof (rule bit_eqI)
  fix k
  have "val (map2 (AND) (ipn_IP n) (ipn_Mask n)) = val (ipn_IP n)" using assms by (simp add: proper_net_def)
  then have "bit (val (ipn_IP n)) k \<Longrightarrow> bit (val (ipn_Mask n)) k"
    using bit_val_map2[of "ipn_IP n" "ipn_Mask n" "(AND)" "(\<and>)" k] proper_net_mask(3)[OF assms] by (simp add: bit_and_iff)
  then show "bit (take_bit (host_bits n) (val (ipn_IP n))) k = bit 0 k"
    using bit_proper_mask[OF assms, of k] by (auto simp: bit_take_bit_iff)
qed

lemma LastIP_val:
  assumes "proper_net n"
  obtains l where "LastIP n = Some l" "length l = length (ipn_IP n)" "val l = val (ipn_IP n) + (2 ^ host_bits n - 1)"
proof -
  let ?l = "map2 (\<lambda>i m. i OR NOT m) (ipn_IP n) (ipn_Mask n)"
  note len = proper_net_mask(3)[OF assms]
  have "val ?l = val (ipn_IP n) OR mask (host_bits n)"
  proof (rule bit_eqI)
    fix k
    show "bit (val ?l) k = bit (val (ipn_IP n) OR mask (host_bits n)) k"
      using bit_val_map2[of "ipn_IP n" "ipn_Mask n" "\<lambda>i m. i OR NOT m" "\<lambda>a b. a \<or> \<not> b" k] len
        bit_proper_mask[OF assms, of k] bit_val[of "ipn_IP n" k] proper_net_mask(2)[OF assms]
      by (auto simp: bit_or_iff bit_not_iff bit_mask_iff)
  qed
  also have "\<dots> = val (ipn_IP n) + mask (host_bits n)"
  proof (rule disjunctive_add [symmetric])
    fix k
    have "\<not> bit (take_bit (host_bits n) (val (ipn_IP n))) k" using proper_net_aligned[OF assms] by simp
    then show "\<not> bit (val (ipn_IP n)) k \<or> \<not> bit (mask (host_bits n) :: nat) k" by (auto simp: bit_take_bit_iff bit_mask_iff)
  qed
  finally show ?thesis using that[of ?l] len by (simp add: LastIP_def mask_eq_exp_minus_1)
qed

text \<open>\<^verbatim>\<open>Contains\<close> compares the numbers above the host bits.\<close>

definition normal_ip :: "byte list \<Rightarrow> byte list" where
  "normal_ip a = (case ip_To4 a of Some v4 \<Rightarrow> v4 | None \<Rightarrow> a)"

lemma normal_ip_proper: "proper_net n \<Longrightarrow> normal_ip (ipn_IP n) = ipn_IP n"
  by (auto simp: normal_ip_def ip_To4_def proper_net_def)

lemma masked_bytes_eq:
  assumes "length xs = length ms" "length ys = length ms"
  shows "list_all (\<lambda>(x, y, m). x AND m = y AND m) (zip xs (zip ys ms)) \<longleftrightarrow> map2 (AND) xs ms = map2 (AND) ys ms"
  using assms by (auto simp: list_all_length list_eq_iff_nth_eq)

lemma masked_val_eq:
  assumes "proper_net n" "length xs = length (ipn_IP n)" "length ys = length (ipn_IP n)"
  shows "map2 (AND) xs (ipn_Mask n) = map2 (AND) ys (ipn_Mask n) \<longleftrightarrow> val xs div 2 ^ host_bits n = val ys div 2 ^ host_bits n"
proof -
  note len = proper_net_mask(3)[OF assms(1)]
  have bit: "bit (val (map2 (AND) zs (ipn_Mask n))) k \<longleftrightarrow> bit (val zs) k \<and> host_bits n \<le> k"
    if "length zs = length (ipn_IP n)" for zs k
    using bit_val_map2[of zs "ipn_Mask n" "(AND)" "(\<and>)" k] bit_proper_mask[OF assms(1), of k] bit_val[of zs k] that len
    by (auto simp: bit_and_iff)
  have "map2 (AND) xs (ipn_Mask n) = map2 (AND) ys (ipn_Mask n) \<longleftrightarrow>
      val (map2 (AND) xs (ipn_Mask n)) = val (map2 (AND) ys (ipn_Mask n))"
    using assms len by (intro val_inject [symmetric]) simp
  also have "\<dots> \<longleftrightarrow> drop_bit (host_bits n) (val xs) = drop_bit (host_bits n) (val ys)"
  proof
    assume "val (map2 (AND) xs (ipn_Mask n)) = val (map2 (AND) ys (ipn_Mask n))"
    then have "bit (val xs) k = bit (val ys) k" if "host_bits n \<le> k" for k
      using bit[OF assms(2), of k] bit[OF assms(3), of k] that by simp
    then show "drop_bit (host_bits n) (val xs) = drop_bit (host_bits n) (val ys)"
      by (intro bit_eqI) (simp add: bit_drop_bit_eq)
  next
    assume eq: "drop_bit (host_bits n) (val xs) = drop_bit (host_bits n) (val ys)"
    have "bit (val xs) k = bit (val ys) k" if "host_bits n \<le> k" for k
      using arg_cong[OF eq, of "\<lambda>v. bit v (k - host_bits n)"] that by (simp add: bit_drop_bit_eq)
    then show "val (map2 (AND) xs (ipn_Mask n)) = val (map2 (AND) ys (ipn_Mask n))"
      by (intro bit_eqI) (auto simp: bit[OF assms(2)] bit[OF assms(3)])
  qed
  finally show ?thesis by (simp add: drop_bit_eq_div)
qed

lemma Contains_proper:
  assumes "proper_net n"
  shows "IPNet_Contains n ip \<longleftrightarrow> length (normal_ip ip) = length (ipn_IP n) \<and>
    val (normal_ip ip) div 2 ^ host_bits n = val (ipn_IP n) div 2 ^ host_bits n"
proof -
  have nm: "networkNumberAndMask n = Some (ipn_IP n, ipn_Mask n)"
    using assms proper_net_mask(3)[OF assms] by (auto simp: networkNumberAndMask_def ip_To4_def proper_net_def)
  show ?thesis
  proof (cases "length (normal_ip ip) = length (ipn_IP n)")
    case True
    then show ?thesis
      using masked_bytes_eq[of "ipn_IP n" "ipn_Mask n" "normal_ip ip"] masked_val_eq[OF assms refl True] proper_net_mask(3)[OF assms]
      by (auto simp: IPNet_Contains_def nm normal_ip_def [symmetric])
  qed (simp add: IPNet_Contains_def nm normal_ip_def [symmetric])
qed

lemma le_pred_power: "m \<le> k + (2 ^ g - 1) \<longleftrightarrow> m < k + (2 ^ g :: nat)"
  by (cases "2 ^ g :: nat") auto

lemma in_block:
  fixes b v :: nat
  assumes "take_bit h b = 0"
  shows "v div 2 ^ h = b div 2 ^ h \<longleftrightarrow> b \<le> v \<and> v \<le> b + (2 ^ h - 1)"
proof -
  obtain q where b: "b = 2 ^ h * q" using assms by (auto simp: take_bit_eq_mod elim: dvdE)
  have "v div 2 ^ h = q \<longleftrightarrow> 2 ^ h * q \<le> v \<and> v < 2 ^ h * Suc q"
  proof
    assume "v div 2 ^ h = q"
    then show "2 ^ h * q \<le> v \<and> v < 2 ^ h * Suc q"
      using times_div_less_eq_dividend[of "2 ^ h" v] dividend_less_times_div[of "2 ^ h" v] by simp
  qed (simp add: div_nat_eqI)
  also have "\<dots> \<longleftrightarrow> b \<le> v \<and> v \<le> b + (2 ^ h - 1)" unfolding b le_pred_power by (simp add: algebra_simps)
  finally show ?thesis by (simp add: b)
qed

text \<open>Two blocks overlap exactly when the smaller one starts in the larger one.\<close>

lemma smaller_block:
  fixes a b :: nat
  assumes "take_bit g a = 0" "take_bit h b = 0" "g \<le> h"
  shows "a \<le> b + (2 ^ h - 1) \<and> b \<le> a + (2 ^ g - 1) \<longleftrightarrow> a div 2 ^ h = b div 2 ^ h"
proof -
  have "take_bit g b = 0" using assms(2,3) by (metis min.absorb1 take_bit_of_0 take_bit_take_bit)
  then obtain x y where "a = 2 ^ g * x" "b = 2 ^ g * y"
    using assms(1) by (auto simp: take_bit_eq_mod elim!: dvdE)
  moreover have "y \<le> x \<longleftrightarrow> 2 ^ g * y < 2 ^ g * Suc x" by (simp only: mult_less_cancel1) auto
  ultimately have "b \<le> a + (2 ^ g - 1) \<longleftrightarrow> b \<le> a" unfolding le_pred_power by (simp add: algebra_simps)
  then show ?thesis using in_block[OF assms(2), of a] by auto
qed

section \<open>Overlapping networks\<close>

lemma helpers_overlap_val:
  assumes "proper_net n1" "proper_net n2" "length (ipn_IP n1) = length (ipn_IP n2)"
  shows "helpers_NetworksOverlap (Some n1) (Some n2) \<longleftrightarrow>
    val (ipn_IP n2) div 2 ^ host_bits n1 = val (ipn_IP n1) div 2 ^ host_bits n1 \<or>
    val (ipn_IP n1) div 2 ^ host_bits n2 = val (ipn_IP n2) div 2 ^ host_bits n2"
proof -
  have "ipn_Mask n \<noteq> []" if "proper_net n" for n
    using proper_net_mask(3)[OF that] that by (auto simp: proper_net_def)
  then show ?thesis using assms by (simp add: helpers_NetworksOverlap_def Contains_proper normal_ip_proper)
qed

lemma overlap_val:
  assumes "proper_net n1" "proper_net n2" "length (ipn_IP n1) = length (ipn_IP n2)"
  shows "NetworksOverlap (Some n1) (Some n2) =
    Some (val (ipn_IP n1) \<le> val (ipn_IP n2) + (2 ^ host_bits n2 - 1) \<and> val (ipn_IP n2) \<le> val (ipn_IP n1) + (2 ^ host_bits n1 - 1))"
proof -
  obtain l1 where l1: "LastIP n1 = Some l1" "length l1 = length (ipn_IP n1)" "val l1 = val (ipn_IP n1) + (2 ^ host_bits n1 - 1)"
    using LastIP_val[OF assms(1)] .
  obtain l2 where l2: "LastIP n2 = Some l2" "length l2 = length (ipn_IP n2)" "val l2 = val (ipn_IP n2) + (2 ^ host_bits n2 - 1)"
    using LastIP_val[OF assms(2)] .
  have "bytes_Compare (ipn_IP n1) l2 \<le> 0 \<longleftrightarrow> val (ipn_IP n1) \<le> val l2" "bytes_Compare (ipn_IP n2) l1 \<le> 0 \<longleftrightarrow> val (ipn_IP n2) \<le> val l1"
    using compare_val[of "ipn_IP n1" l2] compare_val[of "ipn_IP n2" l1] l1(2) l2(2) assms(3) by auto
  then show ?thesis by (simp only: NetworksOverlap_def l1 l2 prod.case option.case)
qed

lemma common_address_smaller:
  assumes "proper_net n1" "proper_net n2" "length (ipn_IP n1) = length (ipn_IP n2)" "host_bits n1 \<le> host_bits n2"
  shows "(\<exists>ip. IPNet_Contains n1 ip \<and> IPNet_Contains n2 ip) \<longleftrightarrow>
    val (ipn_IP n1) div 2 ^ host_bits n2 = val (ipn_IP n2) div 2 ^ host_bits n2"
proof
  assume "\<exists>ip. IPNet_Contains n1 ip \<and> IPNet_Contains n2 ip"
  then obtain v where v: "v div 2 ^ host_bits n1 = val (ipn_IP n1) div 2 ^ host_bits n1" "v div 2 ^ host_bits n2 = val (ipn_IP n2) div 2 ^ host_bits n2"
    using assms by (auto simp: Contains_proper)
  have "a div 2 ^ host_bits n2 = a div 2 ^ host_bits n1 div 2 ^ (host_bits n2 - host_bits n1)" for a :: nat
    using assms(4) by (simp add: div_mult2_eq [symmetric] power_add [symmetric])
  then show "val (ipn_IP n1) div 2 ^ host_bits n2 = val (ipn_IP n2) div 2 ^ host_bits n2" using v by metis
next
  assume "val (ipn_IP n1) div 2 ^ host_bits n2 = val (ipn_IP n2) div 2 ^ host_bits n2"
  then have "IPNet_Contains n1 (ipn_IP n1) \<and> IPNet_Contains n2 (ipn_IP n1)"
    using assms by (simp add: Contains_proper normal_ip_proper)
  then show "\<exists>ip. IPNet_Contains n1 ip \<and> IPNet_Contains n2 ip" by blast
qed

lemma smaller_starts_inside:
  assumes "proper_net n1" "proper_net n2" "host_bits n1 \<le> host_bits n2"
    and "val (ipn_IP n2) div 2 ^ host_bits n1 = val (ipn_IP n1) div 2 ^ host_bits n1"
  shows "val (ipn_IP n1) div 2 ^ host_bits n2 = val (ipn_IP n2) div 2 ^ host_bits n2"
proof -
  have "val (ipn_IP n1) \<le> val (ipn_IP n2)" "val (ipn_IP n2) \<le> val (ipn_IP n1) + (2 ^ host_bits n1 - 1)"
    using in_block[OF proper_net_aligned[OF assms(1)]] assms(4) by auto
  then show ?thesis
    using smaller_block[OF proper_net_aligned[OF assms(1)] proper_net_aligned[OF assms(2)] assms(3)] by (meson trans_le_add1)
qed

lemma overlap_smaller:
  assumes "proper_net n1" "proper_net n2" "length (ipn_IP n1) = length (ipn_IP n2)" "host_bits n1 \<le> host_bits n2"
  shows "NetworksOverlap (Some n1) (Some n2) = Some (\<exists>ip. IPNet_Contains n1 ip \<and> IPNet_Contains n2 ip)"
    "helpers_NetworksOverlap (Some n1) (Some n2) \<longleftrightarrow> (\<exists>ip. IPNet_Contains n1 ip \<and> IPNet_Contains n2 ip)"
  using overlap_val[OF assms(1-3)] helpers_overlap_val[OF assms(1-3)] common_address_smaller[OF assms] smaller_starts_inside[OF assms(1,2,4)]
    smaller_block[OF proper_net_aligned[OF assms(1)] proper_net_aligned[OF assms(2)] assms(4)] by auto

lemma overlap_commute:
  assumes "proper_net n1" "proper_net n2" "length (ipn_IP n1) = length (ipn_IP n2)"
  shows "NetworksOverlap (Some n1) (Some n2) = NetworksOverlap (Some n2) (Some n1)"
    "helpers_NetworksOverlap (Some n1) (Some n2) = helpers_NetworksOverlap (Some n2) (Some n1)"
  using overlap_val[OF assms] overlap_val[OF assms(2,1)] assms(3) by (auto simp: helpers_NetworksOverlap_def)

text \<open>C20: For two networks of the same family both implementations of \<^verbatim>\<open>NetworksOverlap\<close>, the comparison of address ranges in
  \<^verbatim>\<open>util\<close> and the test of base addresses in the helpers of the configuration, answer whether there is an address that
  both networks contain.\<close>

theorem NetworksOverlap_agree:
  assumes "proper_net n1" "proper_net n2" "length (ipn_IP n1) = length (ipn_IP n2)"
  shows "NetworksOverlap (Some n1) (Some n2) = Some (\<exists>ip. IPNet_Contains n1 ip \<and> IPNet_Contains n2 ip) \<and>
    helpers_NetworksOverlap (Some n1) (Some n2) = (\<exists>ip. IPNet_Contains n1 ip \<and> IPNet_Contains n2 ip)"
proof (cases "host_bits n1 \<le> host_bits n2")
  case True
  then show ?thesis using overlap_smaller[OF assms] by simp
next
  case False
  then show ?thesis using overlap_smaller[OF assms(2,1)] overlap_commute[OF assms] assms(3) by (simp add: conj_commute)
qed

text \<open>Two networks for an example: \<^verbatim>\<open>10.0.0.0/8\<close> and \<^verbatim>\<open>10.244.0.0/16\<close>.\<close>

definition demo_net8 :: IPNet where
  "demo_net8 = \<lparr>ipn_IP = [10, 0, 0, 0], ipn_Mask = [0xFF, 0, 0, 0]\<rparr>"

definition demo_net16 :: IPNet where
  "demo_net16 = \<lparr>ipn_IP = [10, 244, 0, 0], ipn_Mask = [0xFF, 0xFF, 0, 0]\<rparr>"

lemma demo_nets: "proper_net demo_net8" "proper_net demo_net16" "host_bits demo_net8 = 24" "host_bits demo_net16 = 16"
  by code_simp+

theorem NetworksOverlap_agree_witness:
  "NetworksOverlap (Some demo_net8) (Some demo_net16) = Some True \<and> helpers_NetworksOverlap (Some demo_net8) (Some demo_net16)"
proof -
  have "IPNet_Contains demo_net8 (ipn_IP demo_net16) \<and> IPNet_Contains demo_net16 (ipn_IP demo_net16)" by code_simp
  then show ?thesis using NetworksOverlap_agree[of demo_net8 demo_net16] demo_nets by (auto simp: demo_net8_def demo_net16_def)
qed

text \<open>
  Across the families the implementations differ: \<^verbatim>\<open>bytes.Compare\<close> reads a four byte address as a prefix, so that
  \<^verbatim>\<open>util.NetworksOverlap\<close> reports \<^verbatim>\<open>10.0.0.0/8\<close> and \<^verbatim>\<open>a00::/16\<close> to overlap.
\<close>

lemma NetworksOverlap_across_families:
  defines "n6 \<equiv> \<lparr>ipn_IP = 10 # replicate 15 0, ipn_Mask = prefix_mask 16 16\<rparr>"
  shows "proper_net n6" "NetworksOverlap (Some demo_net8) (Some n6) = Some True" "\<not> helpers_NetworksOverlap (Some demo_net8) (Some n6)"
  unfolding n6_def by code_simp+

section \<open>Subnets\<close>

text \<open>An IPv4 network is a subnet of another one exactly when all its addresses are in that one.\<close>

lemma IsSubnet_iff:
  assumes "proper_net n1" "proper_net n2" "length (ipn_IP n1) = 4" "length (ipn_IP n2) = 4"
  shows "IsSubnet (Some n1) (Some n2) = Some (\<forall>ip. IPNet_Contains n2 ip \<longrightarrow> IPNet_Contains n1 ip)"
proof -
  obtain l where l: "LastIP n2 = Some l" "length l = 4" "val l = val (ipn_IP n2) + (2 ^ host_bits n2 - 1)"
    using LastIP_val[OF assms(2)] assms(4) by metis
  have norm: "normal_ip l = l" using l(2) by (simp add: normal_ip_def ip_To4_def)
  let ?b = "val (ipn_IP n1) div 2 ^ host_bits n1"
  have "val l div 2 ^ host_bits n2 = val (ipn_IP n2) div 2 ^ host_bits n2"
    unfolding in_block[OF proper_net_aligned[OF assms(2)]] l(3) by (intro conjI le_add1 order_refl)
  then have in2: "IPNet_Contains n2 (ipn_IP n2)" "IPNet_Contains n2 l"
    using l(2) assms norm by (simp_all add: Contains_proper normal_ip_proper)
  have "IPNet_Contains n1 ip" if "IPNet_Contains n1 (ipn_IP n2)" "IPNet_Contains n1 l" "IPNet_Contains n2 ip" for ip
  proof -
    let ?v = "val (normal_ip ip)"
    have "length (normal_ip ip) = 4" "val (ipn_IP n2) \<le> ?v" "?v \<le> val l"
      using that(3) in_block[OF proper_net_aligned[OF assms(2)], of ?v] assms l(3) by (auto simp: Contains_proper)
    moreover have "val (ipn_IP n2) div 2 ^ host_bits n1 = ?b" "val l div 2 ^ host_bits n1 = ?b"
      using that(1,2) assms norm by (auto simp: Contains_proper normal_ip_proper)
    ultimately show ?thesis using assms(1,3) by (simp add: Contains_proper) (metis div_le_mono order_antisym)
  qed
  then have "(\<forall>ip. IPNet_Contains n2 ip \<longrightarrow> IPNet_Contains n1 ip) \<longleftrightarrow> IPNet_Contains n1 (ipn_IP n2) \<and> IPNet_Contains n1 l"
    using in2 by blast
  then show ?thesis by (simp add: IsSubnet_def l(1))
qed

text \<open>
  For IPv6 it is not: the last address of \<^verbatim>\<open>::/80\<close> reads as an IPv4 address, which \<^verbatim>\<open>::/0\<close> does not contain.
\<close>

lemma IsSubnet_reads_IPv4:
  "IsSubnet (Some \<lparr>ipn_IP = replicate 16 0, ipn_Mask = prefix_mask 0 16\<rparr>)
            (Some \<lparr>ipn_IP = replicate 16 0, ipn_Mask = prefix_mask 80 16\<rparr>) = Some False"
  by code_simp

section \<open>Splitting a network\<close>

lemma proper_netI:
  assumes "length (ipn_IP n) = 4 \<or> length (ipn_IP n) = 16 \<and> take 12 (ipn_IP n) \<noteq> v4_prefix"
    and "h \<le> 8 * length (ipn_IP n)" "ipn_Mask n = prefix_mask (8 * length (ipn_IP n) - h) (length (ipn_IP n))"
    and "take_bit h (val (ipn_IP n)) = 0"
  shows "proper_net n" "host_bits n = h"
proof -
  let ?l = "length (ipn_IP n)"
  show "host_bits n = h" using assms(2,3) by (simp add: host_bits_def mask_Size_prefix)
  have "val (map2 (AND) (ipn_IP n) (ipn_Mask n)) = val (ipn_IP n)"
  proof (rule bit_eqI)
    fix k
    have "\<not> bit (take_bit h (val (ipn_IP n))) k" using assms(4) by simp
    then show "bit (val (map2 (AND) (ipn_IP n) (ipn_Mask n))) k = bit (val (ipn_IP n)) k"
      using bit_val_map2[of "ipn_IP n" "ipn_Mask n" "(AND)" "(\<and>)" k] bit_val_mask[OF assms(2), of k] bit_val[of "ipn_IP n" k] assms(3)
      by (auto simp: bit_and_iff bit_take_bit_iff)
  qed
  then have "map2 (AND) (ipn_IP n) (ipn_Mask n) = ipn_IP n" using assms(3) by (subst (asm) val_inject) simp_all
  moreover have "8 * ?l - h \<in> set [0 ..< Suc (8 * ?l)]" using diff_le_self[of "8 * ?l" h] by (simp only: set_upt atLeastLessThan_iff le0 less_Suc_eq_le simp_thms)
  ultimately show "proper_net n" using assms(1,3) unfolding proper_net_def list_ex_iff by blast
qed

lemma bit_set_byte: "i < 8 \<Longrightarrow> bit ((b :: byte) OR push_bit j 1) i \<longleftrightarrow> bit b i \<or> i = j"
  by (auto simp: bit_simps)

lemma bit_val_set_bit:
  assumes "i < length xs" "j < 8"
  shows "bit (val (xs[i := (xs ! i) OR push_bit j 1])) k \<longleftrightarrow> bit (val xs) k \<or> k = 8 * (length xs - 1 - i) + j"
proof -
  let ?p = "length xs - 1 - k div 8"
  have eq: "k < 8 * length xs \<and> ?p = i \<and> k mod 8 = j \<longleftrightarrow> k = 8 * (length xs - 1 - i) + j"
  proof
    assume "k < 8 * length xs \<and> ?p = i \<and> k mod 8 = j"
    then have "k div 8 = length xs - 1 - i" "k mod 8 = j" by auto
    then show "k = 8 * (length xs - 1 - i) + j" by (metis mult_div_mod_eq)
  qed (use assms in auto)
  have "k < 8 * length xs \<Longrightarrow> ?p < length xs" by (cases xs) auto
  then show ?thesis using assms eq
    by (cases "?p = i") (auto simp: bit_val nth_list_update bit_set_byte simp del: push_bit_of_1)
qed

lemma val_take: "k \<le> length xs \<Longrightarrow> val (take k xs) = val xs div 256 ^ (length xs - k)"
proof -
  assume "k \<le> length xs"
  have "val xs = val (take k xs) * 256 ^ (length xs - k) + val (drop k xs)"
    using val_append[of "take k xs" "drop k xs"] by simp
  then show ?thesis using val_bound[of "drop k xs"] by simp
qed

text \<open>
  The upper half starts with the first host bit set. It has the form of an IPv4 address only when the
  whole has 33 host bits, as \<^verbatim>\<open>::fffe:0:0/95\<close>.
\<close>

lemma low_bit_clear: "take_bit h (v :: nat) = 0 \<Longrightarrow> k < h \<Longrightarrow> \<not> bit v k"
  using bit_take_bit_iff[of h v k] by simp

lemma val_v4_prefix: "val v4_prefix = 65535"
  by (simp add: v4_prefix_def v4InV6Prefix_def)

definition upper_half :: "IPNet \<Rightarrow> byte list" where
  "upper_half n =
     (let ones = 8 * length (ipn_IP n) - host_bits n; i = ones div 8
      in (ipn_IP n)[i := (ipn_IP n ! i) OR push_bit (7 - ones mod 8) 1])"

lemma upper_half_val:
  assumes "proper_net n" "host_bits n > 0"
  shows "length (upper_half n) = length (ipn_IP n)" "val (upper_half n) = val (ipn_IP n) + 2 ^ (host_bits n - 1)"
    "take_bit (host_bits n - 1) (val (upper_half n)) = 0"
proof -
  let ?l = "length (ipn_IP n)" let ?h = "host_bits n" let ?o = "8 * ?l - ?h"
  note h = proper_net_mask(2)[OF assms(1)]
  show "length (upper_half n) = ?l" by (simp add: upper_half_def Let_def)
  have o: "?o div 8 < ?l" using h assms(2) by (simp add: less_mult_imp_div_less)
  have pos: "8 * (?l - 1 - ?o div 8) + (7 - ?o mod 8) = ?h - 1"
    using o h assms(2) mod_less_divisor[of 8 ?o] by (simp add: right_diff_distrib' flip: minus_mult_div_eq_mod)
  have bits: "bit (val (upper_half n)) k \<longleftrightarrow> bit (val (ipn_IP n)) k \<or> k = ?h - 1" for k
    using bit_val_set_bit[OF o, of "7 - ?o mod 8" k] unfolding pos by (simp add: upper_half_def Let_def)
  have clear: "\<not> bit (val (ipn_IP n)) k" if "k < ?h" for k
    using low_bit_clear[OF proper_net_aligned[OF assms(1)] that] .
  have "val (upper_half n) = val (ipn_IP n) OR 2 ^ (?h - 1)"
    by (rule bit_eqI) (auto simp: bits bit_or_iff bit_exp_iff)
  also have "\<dots> = val (ipn_IP n) + 2 ^ (?h - 1)"
    using clear[of "?h - 1"] assms(2) by (intro disjunctive_add [symmetric]) (auto simp: bit_exp_iff)
  finally show "val (upper_half n) = val (ipn_IP n) + 2 ^ (?h - 1)" .
  show "take_bit (?h - 1) (val (upper_half n)) = 0"
    by (rule bit_eqI) (use clear in \<open>auto simp: bit_take_bit_iff bits\<close>)
qed

lemma upper_half_not_mapped:
  assumes "proper_net n" "host_bits n > 0" "length (ipn_IP n) = 16" "host_bits n \<noteq> 33"
  shows "take 12 (upper_half n) \<noteq> v4_prefix"
proof
  let ?h = "host_bits n"
  assume "take 12 (upper_half n) = v4_prefix"
  then have u: "val (upper_half n) div 2 ^ 32 = 65535"
    using val_take[of 12 "upper_half n"] upper_half_val(1)[OF assms(1,2)] assms(3) val_v4_prefix by simp
  show False
  proof (cases "?h \<le> 32")
    case True
    have "val (ipn_IP n) div 2 ^ 32 = val (upper_half n) div 2 ^ 32"
    proof -
      have "(2 :: nat) ^ (?h - 1) < 2 ^ ?h" using assms(2) by simp
      then have "val (upper_half n) \<le> val (ipn_IP n) + (2 ^ ?h - 1)"
        unfolding le_pred_power using upper_half_val(2)[OF assms(1,2)] by simp
      then have "val (upper_half n) div 2 ^ ?h = val (ipn_IP n) div 2 ^ ?h"
        using in_block[OF proper_net_aligned[OF assms(1)], of "val (upper_half n)"] upper_half_val(2)[OF assms(1,2)] by simp
      moreover have "a div 2 ^ 32 = a div 2 ^ ?h div 2 ^ (32 - ?h)" for a :: nat
        using True by (simp only: div_mult2_eq [symmetric] power_add [symmetric]) simp
      ultimately show ?thesis by metis
    qed
    then have "val (take 12 (ipn_IP n)) = val v4_prefix"
      using u val_v4_prefix val_take[of 12 "ipn_IP n"] assms(3) by simp
    then have "take 12 (ipn_IP n) = v4_prefix"
      using assms(3) by (subst (asm) val_inject) (simp_all add: v4_prefix_def v4InV6Prefix_def)
    then show False using assms(1,3) by (simp add: proper_net_def)
  next
    case False
    then have "32 < ?h - 1" using assms(4) by simp
    then have "\<not> bit (val (upper_half n)) 32"
      using low_bit_clear[OF upper_half_val(3)[OF assms(1,2)]] by blast
    then have "even (val (upper_half n) div 2 ^ 32)" by (simp add: bit_iff_odd)
    then show False unfolding u by simp
  qed
qed

lemma block_halves:
  fixes b u v :: nat
  assumes "take_bit (Suc g) b = 0" "u = b + 2 ^ g"
  shows "v div 2 ^ Suc g = b div 2 ^ Suc g \<longleftrightarrow> v div 2 ^ g = b div 2 ^ g \<or> v div 2 ^ g = u div 2 ^ g"
    "\<not> (v div 2 ^ g = b div 2 ^ g \<and> v div 2 ^ g = u div 2 ^ g)"
proof -
  have "take_bit g b = take_bit g (take_bit (Suc g) b)" by simp
  then have b: "take_bit g b = 0" using assms(1) by simp
  then have "take_bit g u = 0" using assms(2) by (simp add: take_bit_eq_mod)
  note blocks = in_block[OF assms(1), of v] in_block[OF b, of v] in_block[OF this, of v]
  show "v div 2 ^ Suc g = b div 2 ^ Suc g \<longleftrightarrow> v div 2 ^ g = b div 2 ^ g \<or> v div 2 ^ g = u div 2 ^ g"
    unfolding blocks unfolding le_pred_power unfolding assms(2) power_Suc by auto
  show "\<not> (v div 2 ^ g = b div 2 ^ g \<and> v div 2 ^ g = u div 2 ^ g)"
    unfolding blocks unfolding le_pred_power assms(2) by auto
qed

lemma SplitCIDR_halves:
  assumes "proper_net n" "host_bits n > 0"
  defines "m \<equiv> prefix_mask (8 * length (ipn_IP n) - (host_bits n - 1)) (length (ipn_IP n))"
  shows "SplitCIDR n = Some (Inr [\<lparr>ipn_IP = ipn_IP n, ipn_Mask = m\<rparr>, \<lparr>ipn_IP = upper_half n, ipn_Mask = m\<rparr>])"
proof -
  let ?l = "length (ipn_IP n)" let ?o = "8 * ?l - host_bits n"
  note h = proper_net_mask(2)[OF assms(1)]
  have "(if Suc o' mod 8 = 0 then Suc o' div 8 - 1 else Suc o' div 8) = o' div 8" for o' by (simp add: div_Suc mod_Suc)
  moreover have "?o div 8 < ?l" using h assms(2) by (simp add: less_mult_imp_div_less)
  moreover have "CIDRMask (Suc ?o) (8 * ?l) = m"
    using assms(1,2) h by (auto simp: CIDRMask_def m_def proper_net_def Suc_diff_le)
  ultimately show ?thesis using h assms(2)
    by (simp add: SplitCIDR_def proper_net_mask(4)[OF assms(1)] upper_half_def Let_def)
qed

text \<open>C21: Splitting a network with host bits gives two networks with one host bit less, and every address of
  the network is in exactly one of them. (The upper half must not read as IPv4, which only a network of 33 host bits can.)\<close>

theorem SplitCIDR_partition:
  assumes "proper_net n" "host_bits n > 0" "host_bits n \<noteq> 33"
  shows "\<exists>s1 s2. SplitCIDR n = Some (Inr [s1, s2]) \<and> proper_net s1 \<and> proper_net s2 \<and>
    host_bits s1 = host_bits n - 1 \<and> host_bits s2 = host_bits n - 1 \<and>
    (\<forall>ip. (IPNet_Contains n ip \<longleftrightarrow> IPNet_Contains s1 ip \<or> IPNet_Contains s2 ip) \<and> \<not> (IPNet_Contains s1 ip \<and> IPNet_Contains s2 ip))"
proof -
  let ?l = "length (ipn_IP n)" let ?h = "host_bits n" let ?m = "prefix_mask (8 * ?l - (?h - 1)) ?l"
  let ?s1 = "\<lparr>ipn_IP = ipn_IP n, ipn_Mask = ?m\<rparr>" let ?s2 = "\<lparr>ipn_IP = upper_half n, ipn_Mask = ?m\<rparr>"
  note h = proper_net_mask(2)[OF assms(1)] and u = upper_half_val[OF assms(1,2)]
  have l: "?l = 4 \<or> ?l = 16 \<and> take 12 (ipn_IP n) \<noteq> v4_prefix" using assms(1) by (simp add: proper_net_def)
  have "take_bit (?h - 1) (val (ipn_IP n)) = take_bit (?h - 1) (take_bit ?h (val (ipn_IP n)))" by (simp add: min_def)
  then have a: "take_bit (?h - 1) (val (ipn_IP n)) = 0" using proper_net_aligned[OF assms(1)] by simp
  have s1: "proper_net ?s1" "host_bits ?s1 = ?h - 1" using proper_netI[of ?s1 "?h - 1"] l a h by auto
  have s2: "proper_net ?s2" "host_bits ?s2 = ?h - 1"
    using proper_netI[of ?s2 "?h - 1"] l h u upper_half_not_mapped[OF assms(1,2)] assms(3) by auto
  have hs: "?h = Suc (?h - 1)" using assms(2) by simp
  note halves = block_halves[of "?h - 1" "val (ipn_IP n)" "val (upper_half n)", folded hs, OF proper_net_aligned[OF assms(1)] u(2)]
  have "SplitCIDR n = Some (Inr [?s1, ?s2])" by (rule SplitCIDR_halves[OF assms(1,2)])
  moreover have "(IPNet_Contains n ip \<longleftrightarrow> IPNet_Contains ?s1 ip \<or> IPNet_Contains ?s2 ip) \<and> \<not> (IPNet_Contains ?s1 ip \<and> IPNet_Contains ?s2 ip)" for ip
    using halves(1,2)[of "val (normal_ip ip)"] s1 s2 u(1) assms(1) by (auto simp: Contains_proper)
  ultimately show ?thesis using s1 s2 by blast
qed

theorem SplitCIDR_partition_witness:
  "\<exists>s1 s2. SplitCIDR demo_net16 = Some (Inr [s1, s2]) \<and> host_bits s1 = 15 \<and> host_bits s2 = 15"
  using SplitCIDR_partition[of demo_net16] demo_nets by fastforce

section \<open>Enumerating addresses\<close>

text \<open>The address with a given number.\<close>

fun ip_of :: "nat \<Rightarrow> nat \<Rightarrow> byte list" where
  "ip_of 0 v = []"
| "ip_of (Suc l) v = of_nat (v div 256 ^ l) # ip_of l v"

lemma length_ip_of [simp]: "length (ip_of l v) = l"
  by (induction l) auto

lemma val_ip_of: "v < 256 ^ l \<Longrightarrow> val (ip_of l v) = v"
proof -
  have "val (ip_of l v) = v mod 256 ^ l" for v
  proof (induction l)
    case (Suc l)
    have "v mod 256 ^ Suc l = 256 ^ l * (v div 256 ^ l mod 256) + v mod 256 ^ l"
      using mod_mult2_eq[of v "256 ^ l" 256] by (simp add: mult.commute)
    then show ?case by (simp add: Suc unat_of_nat)
  qed simp
  then show "v < 256 ^ l \<Longrightarrow> val (ip_of l v) = v" by simp
qed

lemma ip_of_val: "ip_of (length ip) (val ip) = ip"
  using val_inject[of "ip_of (length ip) (val ip)" ip] val_ip_of[OF val_bound] by simp

lemma ip_of_eq: "length ip = l \<Longrightarrow> val ip = v \<Longrightarrow> ip = ip_of l v"
  by (auto simp: ip_of_val)

lemma next_bytes_val:
  "case next_bytes bs of
     None \<Rightarrow> Suc (val (rev bs)) = 256 ^ length bs
   | Some bs' \<Rightarrow> length bs' = length bs \<and> val (rev bs') = Suc (val (rev bs))"
proof (induction bs)
  case (Cons b bs)
  have v: "val (rev (c # cs)) = val (rev cs) * 256 + unat c" for c and cs :: "byte list" by (simp add: val_append)
  show ?case
  proof (cases "b + 1 > 0")
    case True
    then have "unat (b + 1) = Suc (unat b)" using unatSuc[of b] by (simp add: word_gt_0 add.commute)
    then show ?thesis using True by (simp add: v del: rev.simps)
  next
    case False
    then have b1: "b + 1 = 0" by (simp add: word_gt_0)
    then have "b = - 1" by (simp add: eq_neg_iff_add_eq_0)
    moreover have "unat (- 1 :: byte) = 255" by code_simp
    ultimately have "unat b = 255" by simp
    then show ?thesis using Cons b1 by (auto simp: v simp del: rev.simps split: option.splits)
  qed
qed simp

text \<open>\<^verbatim>\<open>NextIP\<close> adds one, and returns nil on the last address.\<close>

lemma NextIP_succ:
  "NextIP ip = (if Suc (val ip) < 256 ^ length ip then Some (ip_of (length ip) (Suc (val ip))) else None)"
proof -
  note nb = next_bytes_val[of "rev ip"]
  show ?thesis
  proof (cases "next_bytes (rev ip)")
    case None
    then show ?thesis using nb by (simp add: NextIP_def)
  next
    case (Some bs')
    then have "length (rev bs') = length ip" "val (rev bs') = Suc (val ip)" using nb by simp_all
    then have "rev bs' = ip_of (length ip) (Suc (val ip))" "Suc (val ip) < 256 ^ length ip"
      using ip_of_eq val_bound[of "rev bs'"] by simp_all
    then show ?thesis using Some by (simp add: NextIP_def)
  qed
qed

lemma expand_loop_addresses:
  "val ip + k \<le> 256 ^ length ip \<Longrightarrow> expand_loop k ip = map (ip_of (length ip)) [val ip ..< val ip + k]"
proof (induction k arbitrary: ip)
  case (Suc k)
  have first: "[val ip ..< val ip + Suc k] = val ip # [Suc (val ip) ..< Suc (val ip) + k]" by (simp add: upt_conv_Cons)
  show ?case
  proof (cases "Suc (val ip) < 256 ^ length ip")
    case True
    then have "expand_loop k (ip_of (length ip) (Suc (val ip))) = map (ip_of (length ip)) [Suc (val ip) ..< Suc (val ip) + k]"
      using Suc.IH[of "ip_of (length ip) (Suc (val ip))"] Suc.prems val_ip_of[OF True] by simp
    then show ?thesis using True unfolding first by (simp add: NextIP_succ ip_of_val del: upt.simps)
  next
    case False
    then have "k = 0" using Suc.prems by simp
    then show ?thesis using False by (simp add: NextIP_succ ip_of_val)
  qed
qed simp

text \<open>The addresses of a network in ascending order, and that they are those it contains.\<close>

definition addresses :: "IPNet \<Rightarrow> byte list list" where
  "addresses n = map (ip_of (length (ipn_IP n))) [val (ipn_IP n) ..< val (ipn_IP n) + 2 ^ host_bits n]"

lemma block_fits:
  assumes "proper_net n"
  shows "val (ipn_IP n) + 2 ^ host_bits n \<le> 256 ^ length (ipn_IP n)"
proof -
  obtain l where "length l = length (ipn_IP n)" "val l = val (ipn_IP n) + (2 ^ host_bits n - 1)"
    using LastIP_val[OF assms] by metis
  then have "val (ipn_IP n) + (2 ^ host_bits n - 1) < 256 ^ length (ipn_IP n)" using val_bound[of l] by simp
  then show ?thesis by (metis add_diff_assoc2 add.commute Suc_diff_1 Suc_le_eq add_Suc_right zero_less_numeral zero_less_power)
qed

lemma numAddresses_val: "numAddresses h = (if h \<le> 62 then 2 ^ h else if h = 63 then - (2 ^ 63) else 0)"
proof (cases h "63 :: nat" rule: linorder_cases)
  case less
  then have "(2 :: int) ^ h < 2 ^ 63" by (intro power_strict_increasing) simp_all
  then have "signed_take_bit 63 (2 ^ h :: int) = 2 ^ h" by (intro signed_take_bit_int_eq_self) (simp_all add: order_trans [of _ 0])
  moreover have "(push_bit h 1 :: 64 word) = word_of_int (2 ^ h)" by (simp add: push_bit_eq_mult)
  ultimately have "numAddresses h = 2 ^ h" unfolding numAddresses_def by (simp only:) (subst signed_of_int, simp)
  then show ?thesis using less by simp
next
  case equal
  then show ?thesis by (simp add: numAddresses_def)
next
  case greater
  then have zero: "(push_bit h 1 :: 64 word) = 0" by (intro bit_word_eqI) (auto simp: bit_simps)
  show ?thesis using greater unfolding numAddresses_def zero by simp
qed

text \<open>C24: \<^verbatim>\<open>ExpandCIDR\<close> lists exactly the addresses of a network of at most 4096 addresses, in ascending order, and refuses larger ones
  up to 62 host bits. Beyond, the size no longer fits an \<^verbatim>\<open>int\<close>: it panics for 63 host bits, and from 64 on - a usual
  IPv6 network - it returns an empty list without error.\<close>

theorem ExpandCIDR_total:
  assumes "proper_net n"
  shows "ExpandCIDR n =
    (if host_bits n \<le> 12 then Some (Inr (addresses n))
     else if host_bits n \<le> 62 then Some (Inl (TooManyAddresses (2 ^ host_bits n)))
     else if host_bits n = 63 then None
     else Some (Inr []))"
proof -
  let ?h = "host_bits n"
  have size: "8 * length (ipn_IP n) - (8 * length (ipn_IP n) - ?h) = ?h" using proper_net_mask(2)[OF assms] by simp
  have big: "(2 :: int) ^ ?h > 4096 \<longleftrightarrow> 12 < ?h" using power_strict_increasing_iff[of "2 :: int" 12 ?h] by simp
  have "nat (2 ^ ?h) = 2 ^ ?h" by (simp add: nat_power_eq)
  then have loop: "expand_loop (nat (2 ^ ?h)) (ipn_IP n) = addresses n"
    using expand_loop_addresses[OF block_fits[OF assms]] by (simp only: addresses_def)
  have "ExpandCIDR n = (let num = numAddresses ?h in if num > 4096 then Some (Inl (TooManyAddresses num))
      else if num < 0 then None else Some (Inr (expand_loop (nat num) (ipn_IP n))))"
    by (simp add: ExpandCIDR_def proper_net_mask(4)[OF assms] size MaxExpandSize_def)
  then show ?thesis using big loop by (simp add: numAddresses_val Let_def)
qed

theorem ExpandCIDR_total_witness:
  "ExpandCIDR \<lparr>ipn_IP = 10 # replicate 15 0, ipn_Mask = prefix_mask 64 16\<rparr> = Some (Inr [])"
proof -
  let ?n = "\<lparr>ipn_IP = 10 # replicate 15 0, ipn_Mask = prefix_mask 64 16\<rparr>"
  have "proper_net ?n" "host_bits ?n = 64" by code_simp+
  then show ?thesis using ExpandCIDR_total[of ?n] by simp
qed

lemma addresses_contained:
  assumes "proper_net n" "length (ipn_IP n) = 4"
  shows "set (addresses n) = {ip. length ip = 4 \<and> IPNet_Contains n ip}" "distinct (addresses n)"
proof -
  let ?I = "{val (ipn_IP n) ..< val (ipn_IP n) + 2 ^ host_bits n}"
  have small: "v < 256 ^ 4" if "v \<in> ?I" for v using that block_fits[OF assms(1)] assms(2) by simp
  have mem: "length ip = 4 \<and> IPNet_Contains n ip \<longleftrightarrow> length ip = 4 \<and> val ip \<in> ?I" for ip
  proof (cases "length ip = 4")
    case True
    then have "normal_ip ip = ip" by (simp add: normal_ip_def ip_To4_def)
    then have "IPNet_Contains n ip \<longleftrightarrow> val ip div 2 ^ host_bits n = val (ipn_IP n) div 2 ^ host_bits n"
      using Contains_proper[OF assms(1), of ip] assms(2) True by simp
    also have "\<dots> \<longleftrightarrow> val ip \<in> ?I" unfolding in_block[OF proper_net_aligned[OF assms(1)]] le_pred_power by simp
    finally show ?thesis by simp
  qed simp
  have "set (addresses n) = ip_of 4 ` ?I" using assms(2) by (simp add: addresses_def)
  also have "\<dots> = {ip. length ip = 4 \<and> val ip \<in> ?I}"
  proof
    show "ip_of 4 ` ?I \<subseteq> {ip. length ip = 4 \<and> val ip \<in> ?I}" using small by (auto simp: val_ip_of)
    show "{ip. length ip = 4 \<and> val ip \<in> ?I} \<subseteq> ip_of 4 ` ?I"
    proof
      fix ip assume "ip \<in> {ip. length ip = 4 \<and> val ip \<in> ?I}"
      then show "ip \<in> ip_of 4 ` ?I" using ip_of_eq[of ip 4 "val ip"] by blast
    qed
  qed
  finally show "set (addresses n) = {ip. length ip = 4 \<and> IPNet_Contains n ip}" using mem by blast
  have "inj_on (ip_of 4) ?I" by (rule inj_onI) (metis small val_ip_of)
  then show "distinct (addresses n)" using assms(2) by (simp add: addresses_def distinct_map)
qed

lemma range_loop_addresses:
  assumes "length ip = length e" "val ip \<le> val e"
  shows "range_loop room e ip =
    (if val e - val ip < room then Some (map (ip_of (length e)) [val ip ..< Suc (val e)]) else None)"
  using assms
proof (induction room arbitrary: ip)
  case (Suc room)
  show ?case
  proof (cases "ip = e")
    case True
    then show ?thesis by (simp add: ip_of_val)
  next
    case False
    then have less: "val ip < val e" using Suc.prems val_inject[of ip e] by auto
    then have fits: "Suc (val ip) < 256 ^ length ip" using val_bound[of e] Suc.prems(1) by simp
    have first: "[val ip ..< Suc (val e)] = val ip # [Suc (val ip) ..< Suc (val e)]" using less by (simp add: upt_conv_Cons)
    have "range_loop room e (ip_of (length ip) (Suc (val ip))) =
        (if val e - Suc (val ip) < room then Some (map (ip_of (length e)) [Suc (val ip) ..< Suc (val e)]) else None)"
      using Suc.IH[of "ip_of (length ip) (Suc (val ip))"] Suc.prems(1) less val_ip_of[OF fits] by simp
    then show ?thesis using False fits less Suc.prems(1) ip_of_val[of ip] unfolding first by (auto simp: NextIP_succ)
  qed
qed simp

lemma ipv6_groups_cases:
  assumes "ipv6_groups s bs el = Some (bs', el', rest)" "length bs < 16"
  shows "(\<exists>v4. length v4 = 4 \<and> bs' = bs @ v4 \<and> el' = el \<and> length bs \<le> 12) \<or>
    (\<exists>a b. bs' = bs @ [a, b] \<and> (el' = el \<or> el' = Some (length bs'))) \<or>
    (\<exists>a b s' el2. ipv6_groups s' (bs @ [a, b]) el2 = Some (bs', el', rest) \<and> (el2 = el \<or> el2 = Some (length bs + 2)))"
proof -
  define ds where "ds = takeWhile is_hex s"
  define r where "r = drop (length ds) s"
  define bs2 where "bs2 = bs @ [read_hex ds div 256, read_hex ds mod 256]"
  note eq = assms(1)[unfolded ipv6_groups.simps[of s bs el] Let_def, folded ds_def, folded r_def, folded bs2_def]
  consider (dot) "r \<noteq> [] \<and> hd r = CHR ''.''" | (fin) "r = []" | (group) "r \<noteq> []" "hd r \<noteq> CHR ''.''" by blast
  then show ?thesis
  proof cases
    case dot
    then obtain v4 where "parseIPv4Fields s = Some v4" "bs' = bs @ v4" "el' = el" "length bs \<le> 12"
      using eq assms(2) by (auto split: if_splits)
    then show ?thesis using parseIPv4Fields_bytes by blast
  next
    case fin
    then have "bs' = bs2" "el' = el" using eq assms(2) by (auto split: if_splits)
    then show ?thesis unfolding bs2_def by blast
  next
    case group
    then consider "bs' = bs2" "el' = Some (length bs2)"
      | s' el2 where "ipv6_groups s' bs2 el2 = Some (bs', el', rest)" "el2 = el \<or> el2 = Some (length bs2)"
      using eq assms(2) by (auto split: if_splits)
    then show ?thesis unfolding bs2_def by cases force+
  qed
qed

lemma ipv6_groups_length:
  assumes "ipv6_groups s bs el = Some (bs', el', rest)" "length bs \<le> 16" "even (length bs)" "\<forall>k. el = Some k \<longrightarrow> k \<le> length bs"
  shows "length bs' \<le> 16 \<and> (\<forall>k. el' = Some k \<longrightarrow> k \<le> length bs')"
  using assms
proof (induction "16 - length bs" arbitrary: s bs el rule: less_induct)
  case less
  show ?case
  proof (cases "length bs = 16")
    case True
    then show ?thesis using less.prems by (simp add: ipv6_groups.simps[of s])
  next
    case False
    then have room: "length bs + 2 \<le> 16" using less.prems(2,3) by presburger
    then have "length bs < 16" by simp
    then consider v4 where "length v4 = 4" "bs' = bs @ v4" "el' = el" "length bs \<le> 12"
      | a b where "bs' = bs @ [a, b]" "el' = el \<or> el' = Some (length bs')"
      | a b s' el2 where "ipv6_groups s' (bs @ [a, b]) el2 = Some (bs', el', rest)" "el2 = el \<or> el2 = Some (length bs + 2)"
      using ipv6_groups_cases[OF less.prems(1)] by blast
    then show ?thesis
    proof cases
      case (3 a b s' el2)
      then show ?thesis using less.hyps[of "bs @ [a, b]" s' el2] less.prems(3,4) room by fastforce
    qed (use less.prems(4) room in auto)
  qed
qed

lemma parse_address_length: "parse_address s = Some ip \<Longrightarrow> length ip = 16"
proof -
  have v6: "length a = 16" if "parseIPv6 t = Some a" for t a
  proof -
    have len: "length bs \<le> 16 \<and> (\<forall>k. el' = Some k \<longrightarrow> k \<le> length bs)" if "ipv6_groups t' [] el = Some (bs, el', r)" "el = None \<or> el = Some 0" for t' el bs el' r
      using ipv6_groups_length[OF that(1)] that(2) by auto
    show ?thesis using that unfolding parseIPv6_def
      by (auto simp: Let_def split: if_splits option.splits dest!: len)
  qed
  assume "parse_address s = Some ip"
  then obtain a where "ParseIP (TrimSpace s) = Some a" "ip = map of_nat a" by (auto simp: parse_address_def)
  moreover have "length a = 16" if "ParseIP t = Some a" for t
    using that v6 by (auto simp: ParseIP_def v4InV6Prefix_def dest: parseIPv4Fields_bytes split: list.splits if_splits)
  ultimately show "length ip = 16" by simp
qed

text \<open>C23: A range \<^verbatim>\<open>start-end\<close> of addresses expands to exactly the addresses from the first to the last, in ascending order, when these are at most
  4096; a longer range and one that ends before it starts are refused.\<close>

theorem ExpandIPRange_exact:
  assumes "CHR ''-'' \<notin> set a" "CHR ''-'' \<notin> set b" "parse_address a = Some s" "parse_address b = Some e"
  shows "ExpandIPRange (a @ ''-'' @ b) =
    (if val e < val s then Inl (InvalidIPRange (a @ ''-'' @ b))
     else if val e - val s < 4096 then Inr (map (ip_of 16) [val s ..< Suc (val e)])
     else Inl (TooManyAddresses 4096))"
proof -
  have "split_char (CHR ''-'') (a @ ''-'' @ b) = [a, b]" using assms(1,2) by (simp add: split_char_append split_char_plain)
  moreover have len: "length s = 16" "length e = 16" using parse_address_length assms(3,4) by auto
  moreover have "bytes_Compare s e > 0 \<longleftrightarrow> val e < val s" using compare_val[of s e] len by auto
  ultimately show ?thesis using assms(3,4) range_loop_addresses[of s e MaxExpandSize]
    by (simp add: ExpandIPRange_def MaxExpandSize_def del: upt.simps)
qed

theorem ExpandIPRange_exact_witness:
  "ExpandIPRange ''10.0.0.254-10.0.1.1'' = Inr (map (ip_of 16) [281470849515774 ..< 281470849515778])"
proof -
  have "parse_address ''10.0.0.254'' = Some (v4_prefix @ [10, 0, 0, 254])" "parse_address ''10.0.1.1'' = Some (v4_prefix @ [10, 0, 1, 1])"
    by code_simp+
  moreover have "val (v4_prefix @ [10, 0, 0, 254]) = 281470849515774" "val (v4_prefix @ [10, 0, 1, 1]) = 281470849515777"
    by (simp_all add: v4_prefix_def v4InV6Prefix_def)
  ultimately show ?thesis using ExpandIPRange_exact[of "''10.0.0.254''" "''10.0.1.1''"] by simp
qed

section \<open>Port ranges\<close>

text \<open>A list of ports and port ranges stands for the ports its parts name, each once and in ascending order.\<close>

lemma port_part_bounds: "port_part p = Some l \<Longrightarrow> i \<in> set l \<Longrightarrow> 1 \<le> i \<and> i \<le> 65535"
  by (auto simp: port_part_def split: if_splits list.splits option.splits)

lemma fold_put_keys:
  "gm_ok m \<Longrightarrow> gm_ok (fold (\<lambda>i m. gm_put i () m) l m) \<and> set (gm_keys (fold (\<lambda>i m. gm_put i () m) l m)) = set (gm_keys m) \<union> set l"
proof (induction l arbitrary: m)
  case (Cons i l)
  then show ?case using Cons.IH[OF gm_ok_put[OF Cons.prems]] by (auto simp: gm_keys_put gm_has_iff)
qed simp

lemma port_parts_keys:
  assumes "port_parts ps m = Inr m'" "gm_ok m"
  shows "gm_ok m' \<and> set (gm_keys m') = set (gm_keys m) \<union> {i. \<exists>p \<in> set ps. \<exists>l. port_part (TrimSpace p) = Some l \<and> i \<in> set l}"
  using assms
proof (induction ps arbitrary: m)
  case (Cons p ps)
  have empty: "port_part [] = None" by (simp add: port_part_def Atoi_def digits_only_def)
  show ?case
  proof (cases "TrimSpace p = []")
    case True
    then show ?thesis using Cons empty by simp
  next
    case False
    then obtain l where l: "port_part (TrimSpace p) = Some l" "port_parts ps (fold (\<lambda>i m. gm_put i () m) l m) = Inr m'"
      using Cons.prems(1) by (auto simp: Let_def split: option.splits)
    then show ?thesis using Cons.IH[OF l(2)] fold_put_keys[OF Cons.prems(2), of l] by auto
  qed
qed simp

lemma ParsePortRange_exact:
  assumes "ParsePortRange s = Inr ports" "s \<noteq> []"
  shows "sorted ports" "distinct ports" "set ports \<subseteq> {1 .. 65535}"
    "set ports = {i. \<exists>p \<in> set (split_char (CHR '','') s). \<exists>l. port_part (TrimSpace p) = Some l \<and> i \<in> set l}"
proof -
  obtain m where m: "port_parts (split_char (CHR '','') s) [] = Inr m" "ports = sort (map fst m)"
    using assms by (cases "port_parts (split_char (CHR '','') s) []") (auto simp: ParsePortRange_def)
  have keys: "gm_ok m" "set (gm_keys m) = {i. \<exists>p \<in> set (split_char (CHR '','') s). \<exists>l. port_part (TrimSpace p) = Some l \<and> i \<in> set l}"
    using port_parts_keys[OF m(1)] by (simp_all add: gm_ok_def)
  show "sorted ports" by (simp add: m(2))
  show "distinct ports" using keys(1) by (simp add: m(2) gm_ok_def)
  show set: "set ports = {i. \<exists>p \<in> set (split_char (CHR '','') s). \<exists>l. port_part (TrimSpace p) = Some l \<and> i \<in> set l}"
    using keys(2) by (simp add: m(2))
  show "set ports \<subseteq> {1 .. 65535}" unfolding set using port_part_bounds by fastforce
qed

lemma ParsePortRange_example: "ParsePortRange ''443, 80-82,81'' = Inr [80, 81, 82, 443]"
  by code_simp

end
