(* ===== verification/PlanResult.thy ===== *)
theory PlanResult
  imports Steps
begin

text \<open>
  Execution results (\<^verbatim>\<open>plan/result.go\<close>): the status of graphs, nodes and hosts, the aggregation
  of host results into a node's status, and the artifact list kept in a host's metadata.
  Readings of the clock are arguments. A map that may be \<^verbatim>\<open>nil\<close> is an option.
\<close>

section \<open>Data and operations\<close>

datatype Status = StatusPending | StatusRunning | StatusSuccess | StatusFailed | StatusSkipped

record HostResult =
  hr_HostName :: string
  hr_Status :: Status
  hr_Message :: string
  hr_Stdout :: string
  hr_Stderr :: string
  hr_Metadata :: "metadata option"
  hr_StartTime :: gotime
  hr_EndTime :: gotime

record NodeResult =
  nr_NodeName :: string
  nr_StepName :: string
  nr_Status :: Status
  nr_StartTime :: gotime
  nr_EndTime :: gotime
  nr_Message :: string
  nr_HostResults :: "(string, HostResult) gomap option"
  nr_Output :: "metadata option"

record GraphExecutionResult =
  ger_GraphName :: string
  ger_StartTime :: gotime
  ger_EndTime :: gotime
  ger_Status :: Status
  ger_NodeResults :: "(string, NodeResult) gomap"
  ger_Message :: string

definition NewGraphExecutionResult :: "gotime \<Rightarrow> string \<Rightarrow> GraphExecutionResult" where
  "NewGraphExecutionResult now graphName =
     \<lparr>ger_GraphName = graphName, ger_StartTime = now, ger_EndTime = 0, ger_Status = StatusPending,
      ger_NodeResults = [], ger_Message = []\<rparr>"

definition Finalize :: "gotime \<Rightarrow> Status \<Rightarrow> string \<Rightarrow> GraphExecutionResult \<Rightarrow> GraphExecutionResult" where
  "Finalize now status message r =
     r\<lparr>ger_EndTime := now, ger_Status := status, ger_Message := message\<rparr>"

definition NewNodeResult :: "gotime \<Rightarrow> string \<Rightarrow> string \<Rightarrow> NodeResult" where
  "NewNodeResult now nodeName stepName =
     \<lparr>nr_NodeName = nodeName, nr_StepName = stepName, nr_Status = StatusPending, nr_StartTime = now,
      nr_EndTime = 0, nr_Message = [], nr_HostResults = Some [], nr_Output = None\<rparr>"

definition NewHostResult :: "gotime \<Rightarrow> string \<Rightarrow> HostResult" where
  "NewHostResult now hostName =
     \<lparr>hr_HostName = hostName, hr_Status = StatusPending, hr_Message = [], hr_Stdout = [], hr_Stderr = [],
      hr_Metadata = Some [], hr_StartTime = now, hr_EndTime = 0\<rparr>"

text \<open>The loop of \<^verbatim>\<open>AggregateStatus\<close> over the host results, with its \<^verbatim>\<open>break\<close>.\<close>

fun aggregate_loop :: "(string, HostResult) gomap \<Rightarrow> Status \<Rightarrow> Status" where
  "aggregate_loop [] final = final"
| "aggregate_loop ((h, r) # hrs) final =
     (if hr_Status r = StatusFailed then StatusFailed else aggregate_loop hrs final)"

definition AggregateStatus :: "NodeResult \<Rightarrow> NodeResult" where
  "AggregateStatus nr =
     (case nr_HostResults nr of
        None \<Rightarrow> nr\<lparr>nr_Status := StatusSuccess\<rparr>
      | Some hrs \<Rightarrow>
          if length hrs = 0 then nr\<lparr>nr_Status := StatusSuccess\<rparr>
          else nr\<lparr>nr_Status := aggregate_loop hrs StatusSuccess\<rparr>)"

definition HostResult_AddArtifact :: "string \<Rightarrow> HostResult \<Rightarrow> HostResult" where
  "HostResult_AddArtifact path hr =
     (let md = (case hr_Metadata hr of None \<Rightarrow> [] | Some m \<Rightarrow> m);
          artifacts = (case gm_getd VNil md ''artifacts'' of VStrings as \<Rightarrow> as | _ \<Rightarrow> [])
      in hr\<lparr>hr_Metadata := Some (gm_put ''artifacts'' (VStrings (artifacts @ [path])) md)\<rparr>)"

section \<open>Properties\<close>

lemma aggregate_loop_Failed:
  "aggregate_loop hrs StatusSuccess = (if \<exists>(h, r) \<in> set hrs. hr_Status r = StatusFailed then StatusFailed else StatusSuccess)"
  by (induction hrs) auto

lemma AggregateStatus_status:
  "nr_Status (AggregateStatus nr) =
     (if \<exists>hrs. nr_HostResults nr = Some hrs \<and> (\<exists>(h, r) \<in> set hrs. hr_Status r = StatusFailed)
      then StatusFailed else StatusSuccess)"
  by (cases "nr_HostResults nr") (auto simp: AggregateStatus_def aggregate_loop_Failed)

lemma AddArtifact_fold:
  "hr_Metadata (fold HostResult_AddArtifact as hr) =
     (if as = [] then hr_Metadata hr
      else Some (gm_put ''artifacts''
        (VStrings ((case hr_Metadata hr of None \<Rightarrow> []
            | Some m \<Rightarrow> (case gm_getd VNil m ''artifacts'' of VStrings bs \<Rightarrow> bs | _ \<Rightarrow> [])) @ as))
        (case hr_Metadata hr of None \<Rightarrow> [] | Some m \<Rightarrow> m)))"
proof (induction as arbitrary: hr)
  case (Cons a as)
  then show ?case
    by (cases "hr_Metadata hr") (auto simp: HostResult_AddArtifact_def Let_def update_conv' gm_getd_def)
qed simp

end
