(* ===== verification/HostRun.thy ===== *)
theory HostRun
  imports PlanGraph PlanResult
begin

text \<open>
  Running one step on one host and one node on its hosts (\<^verbatim>\<open>runStepOnHost\<close> and \<^verbatim>\<open>runNode\<close> of
  \<^verbatim>\<open>engine/executor.go\<close>): precheck, run with retries and exponential backoff, recovery from
  panics, rollback, and the aggregation of the hosts' results.

  What the step does is an environment: the answers of \<^verbatim>\<open>Precheck\<close>, \<^verbatim>\<open>Run\<close> (per attempt) and
  \<^verbatim>\<open>Rollback\<close> (per call) and the readings of the clock. The calls made are part of the answer,
  so that theorems can speak about them. \<open>None\<close> stands for a panic that no recover catches
  (a step without metadata, a nil step or host), which ends the process.
\<close>

section \<open>The environment of a host run\<close>

datatype precheck_answer = PreRet bool "goerr option" | PrePanic string

datatype run_outcome = RunRet "StepResult option" "goerr option" | RunPanic string

record host_env =
  he_precheck :: precheck_answer
  he_run :: "nat \<Rightarrow> run_outcome"
  he_rollback :: "nat \<Rightarrow> goerr option"
  he_start :: "nat \<Rightarrow> gotime"
  he_end :: gotime

datatype call = CPrecheck duration | CRun nat | CRollback nat | CSleep duration

record retry_config =
  rc_maxRetries :: int
  rc_baseDelay :: duration
  rc_maxDelay :: duration

section \<open>Running a step on a host\<close>

definition second :: duration where
  "second = 1000000000"

definition step_timeout :: "StepBase \<Rightarrow> duration" where
  "step_timeout b = (if sint (sb_Timeout b) \<le> 0 then 300 * second else sb_Timeout b)"

text \<open>\<^verbatim>\<open>1<<uint(attempt-1)\<close> is a 64-bit shift and the product wraps.\<close>

definition retry_delay :: "retry_config \<Rightarrow> nat \<Rightarrow> duration" where
  "retry_delay rc attempt =
     (let delay = rc_baseDelay rc * push_bit (attempt - 1) 1
      in if sint (rc_maxDelay rc) < sint delay then rc_maxDelay rc else delay)"

text \<open>
  The retry loop. \<open>left\<close> counts the attempts that \<^verbatim>\<open>attempt <= retryMaxRetries\<close> still admits
  beyond the current one. The state is the current host result, the last \<^verbatim>\<open>result\<close> and
  \<^verbatim>\<open>runErr\<close> (both keep their old values when \<^verbatim>\<open>Run\<close> panics) and the calls made.
\<close>

record attempt_state =
  as_hr :: HostResult
  as_result :: "StepResult option"
  as_runErr :: "goerr option"
  as_calls :: "call list"

definition quoted :: "string \<Rightarrow> string" where
  "quoted s = CHR 0x27 # s @ [CHR 0x27]"

definition rollback_suffix :: "string \<Rightarrow> goerr option \<Rightarrow> string" where
  "rollback_suffix msg rb = (case rb of None \<Rightarrow> msg | Some e \<Rightarrow> msg @ ''. Rollback failed: '' @ e)"

definition run_attempt :: "host_env \<Rightarrow> string \<Rightarrow> nat \<Rightarrow> attempt_state \<Rightarrow> attempt_state" where
  "run_attempt env name attempt a =
     (case he_run env attempt of
        RunRet r e \<Rightarrow> a\<lparr>as_result := r, as_runErr := e, as_calls := as_calls a @ [CRun attempt]\<rparr>
      | RunPanic v \<Rightarrow>
          a\<lparr>as_hr := (as_hr a)\<lparr>hr_Status := StatusFailed,
                hr_Message := rollback_suffix (''PANIC in step '' @ quoted name @ '': '' @ v) (he_rollback env attempt)\<rparr>,
            as_calls := as_calls a @ [CRun attempt, CRollback attempt]\<rparr>)"

definition retry_attempt :: "retry_config \<Rightarrow> host_env \<Rightarrow> string \<Rightarrow> nat \<Rightarrow> attempt_state \<Rightarrow> attempt_state" where
  "retry_attempt rc env name attempt a =
     run_attempt env name attempt
       (if attempt > 0 then a\<lparr>as_calls := as_calls a @ [CSleep (retry_delay rc attempt)]\<rparr> else a)"

definition reset_host :: "host_env \<Rightarrow> string \<Rightarrow> nat \<Rightarrow> attempt_state \<Rightarrow> attempt_state" where
  "reset_host env host attempt a =
     a\<lparr>as_hr := (NewHostResult (he_start env (Suc attempt)) host)\<lparr>hr_Status := StatusRunning\<rparr>\<rparr>"

fun attempt_loop :: "retry_config \<Rightarrow> host_env \<Rightarrow> string \<Rightarrow> bool \<Rightarrow> string \<Rightarrow> nat \<Rightarrow> nat \<Rightarrow> attempt_state \<Rightarrow>
    attempt_state" where
  "attempt_loop rc env host ignoreErr name left attempt a =
     (let a' = retry_attempt rc env name attempt a
      in if as_runErr a' = None then a'
         else if ignoreErr then a'
         else case left of
           0 \<Rightarrow> a'
         | Suc l \<Rightarrow> attempt_loop rc env host ignoreErr name l (Suc attempt) (reset_host env host attempt a'))"

declare attempt_loop.simps [simp del]

definition finish_host :: "host_env \<Rightarrow> bool \<Rightarrow> nat \<Rightarrow> attempt_state \<Rightarrow> HostResult \<times> call list" where
  "finish_host env ignoreErr rbIndex a =
     (let hr = (as_hr a)\<lparr>hr_EndTime := he_end env\<rparr> in
      case as_runErr a of
        Some e \<Rightarrow>
          if ignoreErr
          then (hr\<lparr>hr_Status := StatusSuccess, hr_Message := ''Run failed but error ignored: '' @ e\<rparr>, as_calls a)
          else (hr\<lparr>hr_Status := StatusFailed,
                   hr_Message := rollback_suffix (''Run failed: '' @ e) (he_rollback env rbIndex)\<rparr>,
                as_calls a @ [CRollback rbIndex])
      | None \<Rightarrow>
          (case as_result a of
             None \<Rightarrow> (hr\<lparr>hr_Status := StatusSuccess, hr_Message := ''Step executed successfully.''\<rparr>, as_calls a)
           | Some r \<Rightarrow>
               ((case sr_Status r of
                   StepStatusSkipped \<Rightarrow>
                     hr\<lparr>hr_Status := StatusSuccess, hr_Message := sr_Message r, hr_Metadata := Some (sr_Metadata r)\<rparr>
                 | StepStatusCompleted \<Rightarrow>
                     fold HostResult_AddArtifact (case sr_Artifacts r of None \<Rightarrow> [] | Some as \<Rightarrow> as)
                       (hr\<lparr>hr_Status := StatusSuccess, hr_Message := sr_Message r, hr_Metadata := Some (sr_Metadata r)\<rparr>)
                 | StepStatusFailed \<Rightarrow>
                     hr\<lparr>hr_Status := StatusFailed, hr_Message := sr_Message r, hr_Metadata := Some (sr_Metadata r)\<rparr>
                 | _ \<Rightarrow> hr\<lparr>hr_Status := StatusSuccess, hr_Message := ''Step executed successfully.''\<rparr>),
                as_calls a)))"

definition precheck_error :: "string \<Rightarrow> precheck_answer \<Rightarrow> goerr option" where
  "precheck_error name p =
     (case p of PreRet d e \<Rightarrow> e | PrePanic v \<Rightarrow> Some (''PANIC in Precheck of step '' @ quoted name @ '': '' @ v))"

definition precheck_done :: "precheck_answer \<Rightarrow> bool" where
  "precheck_done p = (case p of PreRet d e \<Rightarrow> d | PrePanic v \<Rightarrow> False)"

text \<open>The rollback after the loop is the call behind the last possible attempt.\<close>

definition runStepOnHost :: "retry_config \<Rightarrow> host_env \<Rightarrow> string \<Rightarrow> Step \<Rightarrow> (HostResult \<times> call list) option" where
  "runStepOnHost rc env host s =
     (case stp_Meta s of
        None \<Rightarrow> None
      | Some m \<Rightarrow>
          (let hr = NewHostResult (he_start env 0) host;
               calls = [CPrecheck (step_timeout (stp_Base s))];
               name = sm_Name m;
               ignoreErr = sb_IgnoreError (stp_Base s);
               retries = nat (rc_maxRetries rc);
               a0 = \<lparr>as_hr = hr\<lparr>hr_Status := StatusRunning\<rparr>, as_result = None, as_runErr = None,
                     as_calls = calls\<rparr>
           in case precheck_error name (he_precheck env) of
                Some e \<Rightarrow>
                  Some (hr\<lparr>hr_Status := StatusFailed, hr_Message := ''Precheck failed: '' @ e,
                           hr_EndTime := he_end env\<rparr>, calls)
              | None \<Rightarrow>
                  if precheck_done (he_precheck env)
                  then Some (hr\<lparr>hr_Status := StatusSuccess,
                                hr_Message := ''Skipped: Precheck condition already met.'',
                                hr_EndTime := he_end env\<rparr>, calls)
                  else Some (finish_host env ignoreErr (Suc retries)
                         (if rc_maxRetries rc < 0 then a0
                          else attempt_loop rc env host ignoreErr name retries 0 a0))))"

section \<open>Running a node\<close>

record workerResult =
  wr_nodeID :: NodeID
  wr_status :: Status
  wr_message :: string
  wr_err :: "goerr option"
  wr_hostResults :: "(string, HostResult) gomap option"
  wr_output :: "metadata option"

text \<open>
  The environment of a node run: the answer of \<^verbatim>\<open>Condition\<close>, the hosts (as indices into
  \<^verbatim>\<open>node.Hosts\<close>) in the order in which their goroutines store their results, each with its own
  environment, and the order in which the host results are ranged over at the end.
\<close>

record node_env =
  ne_cond :: "bool \<times> goerr option"
  ne_done :: "(nat \<times> host_env) list"
  ne_range :: "string list"

definition host_failure :: "ExecutionNode \<Rightarrow> string \<Rightarrow> HostResult \<Rightarrow> goerr" where
  "host_failure node host hr =
     ''step '' @ quoted (nd_StepName node) @ '' on host '' @ quoted host @ '' failed: '' @ hr_Message hr"

text \<open>The error of the group is the first one returned.\<close>

fun run_hosts :: "retry_config \<Rightarrow> ExecutionNode \<Rightarrow> (nat \<times> host_env) list \<Rightarrow> (string, HostResult) gomap \<Rightarrow>
    goerr option \<Rightarrow> ((string, HostResult) gomap \<times> goerr option) option" where
  "run_hosts rc node [] hrs err = Some (hrs, err)"
| "run_hosts rc node ((k, env) # rest) hrs err =
     (case (case nd_Hosts node of None \<Rightarrow> None | Some hs \<Rightarrow> if k < length hs then hs ! k else None, nd_Step node) of
        (Some h, Some s) \<Rightarrow>
          (case runStepOnHost rc env (h_Name h) s of
             None \<Rightarrow> None
           | Some (hr, calls) \<Rightarrow>
               run_hosts rc node rest (gm_put (h_Name h) hr hrs)
                 (if err = None \<and> hr_Status hr = StatusFailed then Some (host_failure node (h_Name h) hr) else err))
      | _ \<Rightarrow> None)"

definition collect_output :: "(string, HostResult) gomap \<Rightarrow> string list \<Rightarrow> metadata" where
  "collect_output hrs order =
     fold (\<lambda>h out. case gm_get hrs h of
             None \<Rightarrow> out
           | Some hr \<Rightarrow> (case hr_Metadata hr of None \<Rightarrow> out
               | Some md \<Rightarrow> fold (\<lambda>(k, v). gm_put k v) md out)) order []"

definition runNode :: "retry_config \<Rightarrow> node_env \<Rightarrow> NodeID \<Rightarrow> ExecutionNode \<Rightarrow> workerResult option" where
  "runNode rc env i node =
     (case (nd_HasCondition node, ne_cond env) of
        (True, (_, Some e)) \<Rightarrow>
          Some \<lparr>wr_nodeID = i, wr_status = StatusFailed, wr_message = ''Condition check failed: '' @ e,
                wr_err = Some e, wr_hostResults = None, wr_output = None\<rparr>
      | (True, (False, None)) \<Rightarrow>
          Some \<lparr>wr_nodeID = i, wr_status = StatusSkipped, wr_message = ''Skipped: Condition not met'',
                wr_err = None, wr_hostResults = None, wr_output = None\<rparr>
      | _ \<Rightarrow>
          (case run_hosts rc node (ne_done env) [] None of
             None \<Rightarrow> None
           | Some (hrs, err) \<Rightarrow>
               Some \<lparr>wr_nodeID = i,
                     wr_status = nr_Status (AggregateStatus ((NewNodeResult 0 [] [])\<lparr>nr_HostResults := Some hrs\<rparr>)),
                     wr_message = (case err of None \<Rightarrow> ''Node completed.'' | Some e \<Rightarrow> e),
                     wr_err = err, wr_hostResults = Some hrs,
                     wr_output = Some (collect_output hrs (ne_range env))\<rparr>))"

section \<open>Lemmas on attempts\<close>

definition run_indices :: "call list \<Rightarrow> nat list" where
  "run_indices cs = concat (map (\<lambda>c. case c of CRun k \<Rightarrow> [k] | _ \<Rightarrow> []) cs)"

definition rollbacks :: "call list \<Rightarrow> nat" where
  "rollbacks cs = length (filter (\<lambda>c. case c of CRollback k \<Rightarrow> True | _ \<Rightarrow> False) cs)"

lemma run_indices_simps [simp]:
  "run_indices [] = []" "run_indices (cs @ ds) = run_indices cs @ run_indices ds"
  "run_indices (CRun k # cs) = k # run_indices cs" "run_indices (CSleep d # cs) = run_indices cs"
  "run_indices (CRollback k # cs) = run_indices cs" "run_indices (CPrecheck t # cs) = run_indices cs"
  by (simp_all add: run_indices_def)

lemma rollbacks_simps [simp]:
  "rollbacks [] = 0" "rollbacks (cs @ ds) = rollbacks cs + rollbacks ds"
  "rollbacks (CRun k # cs) = rollbacks cs" "rollbacks (CSleep d # cs) = rollbacks cs"
  "rollbacks (CRollback k # cs) = Suc (rollbacks cs)" "rollbacks (CPrecheck t # cs) = rollbacks cs"
  by (simp_all add: rollbacks_def)

lemma attempt_loop_stop:
  "as_runErr (retry_attempt rc env name k a) = None \<or> ign \<or> left = 0 \<Longrightarrow>
   attempt_loop rc env host ign name left k a = retry_attempt rc env name k a"
  by (subst attempt_loop.simps) (auto simp: Let_def)

lemma attempt_loop_again:
  "as_runErr (retry_attempt rc env name k a) \<noteq> None \<Longrightarrow> \<not> ign \<Longrightarrow>
   attempt_loop rc env host ign name (Suc l) k a =
     attempt_loop rc env host ign name l (Suc k) (reset_host env host k (retry_attempt rc env name k a))"
  by (subst attempt_loop.simps) (auto simp: Let_def)

lemma retry_attempt_calls:
  "run_indices (as_calls (retry_attempt rc env name k a)) = run_indices (as_calls a) @ [k]"
  "hr_HostName (as_hr (retry_attempt rc env name k a)) = hr_HostName (as_hr a)"
  by (simp_all add: retry_attempt_def run_attempt_def split: run_outcome.splits)

lemma retry_attempt_ret:
  "he_run env k = RunRet r e \<Longrightarrow>
   as_result (retry_attempt rc env name k a) = r \<and> as_runErr (retry_attempt rc env name k a) = e
   \<and> rollbacks (as_calls (retry_attempt rc env name k a)) = rollbacks (as_calls a)"
  by (simp add: retry_attempt_def run_attempt_def)

lemma reset_host_simps [simp]:
  "as_calls (reset_host env host k a) = as_calls a" "as_runErr (reset_host env host k a) = as_runErr a"
  "as_result (reset_host env host k a) = as_result a" "hr_HostName (as_hr (reset_host env host k a)) = host"
  by (simp_all add: reset_host_def NewHostResult_def)

lemma attempt_loop_runs:
  "\<exists>m \<le> left. run_indices (as_calls (attempt_loop rc env host ign name left k a)) =
     run_indices (as_calls a) @ [k..<Suc (k + m)]"
proof (induction left arbitrary: k a)
  case 0
  then show ?case by (simp add: attempt_loop_stop retry_attempt_calls)
next
  case (Suc l)
  let ?a = "retry_attempt rc env name k a"
  show ?case
  proof (cases "as_runErr ?a = None \<or> ign")
    case True
    then have "attempt_loop rc env host ign name (Suc l) k a = ?a" by (auto intro!: attempt_loop_stop)
    then show ?thesis by (intro exI[of _ 0]) (simp add: retry_attempt_calls)
  next
    case False
    then have eq: "attempt_loop rc env host ign name (Suc l) k a =
        attempt_loop rc env host ign name l (Suc k) (reset_host env host k ?a)"
      by (simp add: attempt_loop_again)
    obtain m where "m \<le> l" "run_indices (as_calls (attempt_loop rc env host ign name l (Suc k) (reset_host env host k ?a))) =
        run_indices (as_calls ?a) @ [Suc k..<Suc (Suc k + m)]"
      using Suc.IH[of "Suc k" "reset_host env host k ?a"] by auto
    then show ?thesis using eq by (intro exI[of _ "Suc m"]) (simp add: retry_attempt_calls upt_rec[of k])
  qed
qed

lemma attempt_loop_host:
  "hr_HostName (as_hr a) = host \<Longrightarrow> hr_HostName (as_hr (attempt_loop rc env host ign name left k a)) = host"
proof (induction left arbitrary: k a)
  case 0
  then show ?case by (simp add: attempt_loop_stop retry_attempt_calls)
next
  case (Suc l)
  then show ?case
    by (cases "as_runErr (retry_attempt rc env name k a) = None \<or> ign")
      (auto simp: attempt_loop_stop attempt_loop_again retry_attempt_calls)
qed

text \<open>Without panics the loop stops at the first attempt without error, or after the last one.\<close>

definition attempt_error :: "host_env \<Rightarrow> nat \<Rightarrow> bool" where
  "attempt_error env k \<longleftrightarrow> (\<exists>r e. he_run env k = RunRet r (Some e))"

lemma attempt_loop_stops:
  assumes "he_run env (k + m) = RunRet r e" "m \<le> left" "\<And>j. j < m \<Longrightarrow> attempt_error env (k + j)"
    and "e = None \<or> m = left"
  shows "as_result (attempt_loop rc env host False name left k a) = r
    \<and> as_runErr (attempt_loop rc env host False name left k a) = e
    \<and> rollbacks (as_calls (attempt_loop rc env host False name left k a)) = rollbacks (as_calls a)
    \<and> run_indices (as_calls (attempt_loop rc env host False name left k a)) = run_indices (as_calls a) @ [k..<Suc (k + m)]"
  using assms
proof (induction m arbitrary: k a left)
  case 0
  then have "attempt_loop rc env host False name left k a = retry_attempt rc env name k a"
    by (intro attempt_loop_stop) (auto dest: retry_attempt_ret)
  then show ?case using 0 by (simp add: retry_attempt_ret retry_attempt_calls)
next
  case (Suc m)
  then obtain l where l: "left = Suc l" by (cases left) auto
  obtain r' e' where run: "he_run env k = RunRet r' (Some e')"
    using Suc.prems(3)[of 0] by (auto simp: attempt_error_def)
  let ?a = "retry_attempt rc env name k a"
  have eq: "attempt_loop rc env host False name left k a =
      attempt_loop rc env host False name l (Suc k) (reset_host env host k ?a)"
    using retry_attempt_ret[OF run] by (simp add: l attempt_loop_again)
  have "attempt_error env (Suc k + j)" if "j < m" for j using Suc.prems(3)[of "Suc j"] that by simp
  then show ?case
    using Suc.IH[of "Suc k" l "reset_host env host k ?a"] Suc.prems(1,2,4) l eq retry_attempt_ret[OF run]
    by (simp add: retry_attempt_calls upt_rec[of k])
qed

lemma finish_host_status: "hr_Status (fst (finish_host env ign k a)) \<in> {StatusSuccess, StatusFailed}"
proof -
  have art: "hr_Status (fold HostResult_AddArtifact as hr) = hr_Status hr" for as hr
    by (induction as arbitrary: hr) (simp_all add: HostResult_AddArtifact_def Let_def)
  show ?thesis
    by (auto simp: finish_host_def Let_def art split: option.splits StepStatus.splits)
qed

lemma finish_host_frame:
  "hr_HostName (fst (finish_host env ign k a)) = hr_HostName (as_hr a)"
  "run_indices (snd (finish_host env ign k a)) = run_indices (as_calls a)"
proof -
  have art: "hr_HostName (fold HostResult_AddArtifact as hr) = hr_HostName hr" for as hr
    by (induction as arbitrary: hr) (simp_all add: HostResult_AddArtifact_def Let_def)
  show "hr_HostName (fst (finish_host env ign k a)) = hr_HostName (as_hr a)"
    by (auto simp: finish_host_def Let_def art split: option.splits StepStatus.splits)
  show "run_indices (snd (finish_host env ign k a)) = run_indices (as_calls a)"
    by (auto simp: finish_host_def Let_def split: option.splits)
qed

lemma finish_host_None:
  "as_runErr a = None \<Longrightarrow> hr_Status (fst (finish_host env ign k a)) =
     (case as_result a of None \<Rightarrow> StatusSuccess
      | Some r \<Rightarrow> if sr_Status r = StepStatusFailed then StatusFailed else StatusSuccess)
   \<and> snd (finish_host env ign k a) = as_calls a"
proof -
  have art: "hr_Status (fold HostResult_AddArtifact as hr) = hr_Status hr" for as hr
    by (induction as arbitrary: hr) (simp_all add: HostResult_AddArtifact_def Let_def)
  assume "as_runErr a = None"
  then show ?thesis by (auto simp: finish_host_def Let_def art split: option.splits StepStatus.splits)
qed

lemma finish_host_Some:
  "as_runErr a = Some e \<Longrightarrow> \<not> ign \<Longrightarrow> hr_Status (fst (finish_host env ign k a)) = StatusFailed
   \<and> snd (finish_host env ign k a) = as_calls a @ [CRollback k]"
  by (simp add: finish_host_def Let_def)

section \<open>Properties of a host run\<close>

definition first_attempt :: "host_env \<Rightarrow> string \<Rightarrow> StepBase \<Rightarrow> attempt_state" where
  "first_attempt env host b =
     \<lparr>as_hr = (NewHostResult (he_start env 0) host)\<lparr>hr_Status := StatusRunning\<rparr>, as_result = None,
      as_runErr = None, as_calls = [CPrecheck (step_timeout b)]\<rparr>"

lemma runStepOnHost_runs:
  assumes "stp_Meta s = Some m" "he_precheck env = PreRet False None" "0 \<le> rc_maxRetries rc"
  shows "runStepOnHost rc env host s =
    Some (finish_host env (sb_IgnoreError (stp_Base s)) (Suc (nat (rc_maxRetries rc)))
      (attempt_loop rc env host (sb_IgnoreError (stp_Base s)) (sm_Name m) (nat (rc_maxRetries rc)) 0
         (first_attempt env host (stp_Base s))))"
  using assms by (simp add: runStepOnHost_def Let_def precheck_error_def precheck_done_def first_attempt_def)

lemma runStepOnHost_precheck:
  assumes "stp_Meta s = Some m" "he_precheck env \<noteq> PreRet False None"
  shows "\<exists>hr. runStepOnHost rc env host s = Some (hr, [CPrecheck (step_timeout (stp_Base s))]) \<and> hr_HostName hr = host
    \<and> hr_Status hr = (if he_precheck env = PreRet True None then StatusSuccess else StatusFailed)"
  using assms
  by (cases "he_precheck env")
    (auto simp: runStepOnHost_def Let_def precheck_error_def precheck_done_def NewHostResult_def split: option.splits)

text \<open>running a step that has metadata on a host always returns a result, in spite of
  panics in \<^verbatim>\<open>Precheck\<close> and \<^verbatim>\<open>Run\<close>: it carries the host's name, its status is \<^verbatim>\<open>Success\<close> or
  \<^verbatim>\<open>Failed\<close>, and the step's \<^verbatim>\<open>Run\<close> was called for consecutive attempts starting at 0, at most
  \<^verbatim>\<open>retryMaxRetries + 1\<close> times, and not at all when the precheck failed or found the work done.\<close>

theorem runStepOnHost_returns:
  assumes "stp_Meta s = Some m" "0 \<le> rc_maxRetries rc"
  shows "\<exists>hr calls n. runStepOnHost rc env host s = Some (hr, calls) \<and> hr_HostName hr = host
    \<and> hr_Status hr \<in> {StatusSuccess, StatusFailed}
    \<and> run_indices calls = [0..<n] \<and> int n \<le> rc_maxRetries rc + 1
    \<and> (n = 0 \<longleftrightarrow> he_precheck env \<noteq> PreRet False None)"
proof (cases "he_precheck env = PreRet False None")
  case True
  let ?n = "nat (rc_maxRetries rc)" and ?ign = "sb_IgnoreError (stp_Base s)"
  let ?a = "attempt_loop rc env host ?ign (sm_Name m) ?n 0 (first_attempt env host (stp_Base s))"
  let ?fin = "finish_host env ?ign (Suc ?n) ?a"
  obtain k where k: "k \<le> ?n" "run_indices (as_calls ?a) = [0..<Suc k]"
    using attempt_loop_runs[of ?n rc env host ?ign "sm_Name m" 0 "first_attempt env host (stp_Base s)"]
    by (auto simp: first_attempt_def)
  have "hr_HostName (as_hr ?a) = host"
    by (rule attempt_loop_host) (simp add: first_attempt_def NewHostResult_def)
  then have "hr_HostName (fst ?fin) = host" "run_indices (snd ?fin) = [0..<Suc k]"
    using k(2) by (simp_all only: finish_host_frame)
  moreover have "runStepOnHost rc env host s = Some (fst ?fin, snd ?fin)"
    using runStepOnHost_runs[OF assms(1) True assms(2)] by simp
  moreover have "int (Suc k) \<le> rc_maxRetries rc + 1" using k(1) assms(2) by linarith
  ultimately show ?thesis using finish_host_status[of env ?ign "Suc ?n" ?a] True by blast
next
  case False
  from runStepOnHost_precheck[OF assms(1) this, of rc host] False assms(2) show ?thesis
    by (auto intro!: exI[of _ 0])
qed

definition plain_step :: "string \<Rightarrow> Step" where
  "plain_step nm =
     \<lparr>stp_Meta = Some \<lparr>sm_Name = nm, sm_Description = [], sm_Hidden = False, sm_AllowFailure = False\<rparr>,
      stp_Base = \<lparr>sb_Meta = \<lparr>sm_Name = nm, sm_Description = [], sm_Hidden = False, sm_AllowFailure = False\<rparr>,
                  sb_Timeout = 0, sb_Sudo = False, sb_IgnoreError = False\<rparr>\<rparr>"

definition plain_env :: "(nat \<Rightarrow> run_outcome) \<Rightarrow> host_env" where
  "plain_env run = \<lparr>he_precheck = PreRet False None, he_run = run, he_rollback = (\<lambda>_. None),
     he_start = (\<lambda>_. 0), he_end = 1\<rparr>"

definition default_retry :: "int \<Rightarrow> retry_config" where
  "default_retry n = \<lparr>rc_maxRetries = n, rc_baseDelay = second, rc_maxDelay = 30 * second\<rparr>"

theorem runStepOnHost_returns_witness:
  "\<exists>hr calls. runStepOnHost (default_retry 2) (plain_env (\<lambda>_. RunPanic ''boom'')) ''n1'' (plain_step ''s'') = Some (hr, calls)
     \<and> hr_HostName hr = ''n1''"
  using runStepOnHost_returns[of "plain_step ''s''" _ "default_retry 2" "plain_env (\<lambda>_. RunPanic ''boom'')" "''n1''"]
  by (fastforce simp: plain_step_def default_retry_def)



text \<open>C35: a step whose first \<^verbatim>\<open>Run\<close> panics is rolled back and then reported as \<^verbatim>\<open>Success\<close>: the
  recovery stores the failure in the host result, but \<^verbatim>\<open>runErr\<close> is still nil, so the loop is
  left and the result overwritten.\<close>

theorem runStepOnHost_panic_reported_as_success:
  assumes "stp_Meta s = Some m" "he_precheck env = PreRet False None" "0 \<le> rc_maxRetries rc" "he_run env 0 = RunPanic v"
  shows "\<exists>hr calls. runStepOnHost rc env host s = Some (hr, calls) \<and> hr_Status hr = StatusSuccess
    \<and> hr_Message hr = ''Step executed successfully.'' \<and> run_indices calls = [0] \<and> rollbacks calls = 1"
proof -
  let ?a0 = "first_attempt env host (stp_Base s)"
  let ?a = "retry_attempt rc env (sm_Name m) 0 ?a0"
  have a: "as_runErr ?a = None" "as_result ?a = None" "run_indices (as_calls ?a) = [0]" "rollbacks (as_calls ?a) = 1"
    using assms(4) by (simp_all add: retry_attempt_def run_attempt_def first_attempt_def)
  then have "runStepOnHost rc env host s = Some (finish_host env (sb_IgnoreError (stp_Base s)) (Suc (nat (rc_maxRetries rc))) ?a)"
    using runStepOnHost_runs[OF assms(1-3), of host] by (simp add: attempt_loop_stop)
  then show ?thesis using a by (simp add: finish_host_def Let_def)
qed

theorem runStepOnHost_panic_reported_as_success_witness:
  "\<exists>hr calls. runStepOnHost (default_retry 0) (plain_env (\<lambda>_. RunPanic ''boom'')) ''n1'' (plain_step ''s'') = Some (hr, calls)
     \<and> hr_Status hr = StatusSuccess"
  using runStepOnHost_panic_reported_as_success[of "plain_step ''s''" _ "plain_env (\<lambda>_. RunPanic ''boom'')" "default_retry 0" "''boom''" "''n1''"]
  by (fastforce simp: plain_step_def default_retry_def plain_env_def)

section \<open>Backoff\<close>

lemma sint_shifted:
  fixes b :: "64 word"
  assumes "0 \<le> sint b" "sint b * 2 ^ n < 2 ^ 63"
  shows "sint (b * push_bit n 1) = sint b * 2 ^ n"
proof -
  have "b * push_bit n 1 = word_of_int (sint b * 2 ^ n)" by (simp add: push_bit_eq_mult)
  moreover have "- (2 ^ 63) \<le> sint b * 2 ^ n" using assms(1) by (smt (verit) mult_nonneg_nonneg zero_le_power)
  moreover have "sint (word_of_int (sint b * 2 ^ n) :: 64 word) = signed_take_bit 63 (sint b * 2 ^ n)"
    by (rule sint_sbintrunc'[where 'a = 64, simplified])
  ultimately show ?thesis
    using assms(2) signed_take_bit_int_eq_self[of 63 "sint b * 2 ^ n"] by (simp only:)
qed

text \<open>before attempt \<open>n\<close> the executor pauses \<^verbatim>\<open>retryBaseDelay * 2^(n-1)\<close>, capped by
  \<^verbatim>\<open>retryMaxDelay\<close>, as long as that product fits in the 63 value bits of a \<^verbatim>\<open>time.Duration\<close>.\<close>

theorem retry_delay_exponential:
  assumes "0 \<le> sint (rc_baseDelay rc)" "sint (rc_baseDelay rc) * 2 ^ (n - 1) < 2 ^ 63"
  shows "sint (retry_delay rc n) = min (sint (rc_maxDelay rc)) (sint (rc_baseDelay rc) * 2 ^ (n - 1))"
  using sint_shifted[OF assms] by (auto simp: retry_delay_def Let_def min_def)

theorem retry_delay_exponential_witness: "sint (retry_delay (default_retry 5) 4) = 8000000000"
  using retry_delay_exponential[of "default_retry 5" 4] by (simp add: default_retry_def second_def)

text \<open>with the default base delay of one second the product overflows before attempt 35: the
  delay becomes negative, passes the test against the maximum, and the executor retries
  without any pause.\<close>

theorem retry_delay_overflow: "sint (retry_delay (default_retry n) 35) < 0"
proof -
  have "sint (second * push_bit 34 1) < 0" unfolding second_def by code_simp
  moreover have "0 < sint (30 * second)" unfolding second_def by code_simp
  ultimately show ?thesis by (simp add: retry_delay_def default_retry_def Let_def)
qed

section \<open>Properties of a node run\<close>

definition node_runnable :: "ExecutionNode \<Rightarrow> bool" where
  "node_runnable node \<longleftrightarrow>
     (case nd_Step node of None \<Rightarrow> False | Some s \<Rightarrow> stp_Meta s \<noteq> None) \<and>
     (case nd_Hosts node of None \<Rightarrow> True | Some hs \<Rightarrow> list_all (\<lambda>h. h \<noteq> None) hs)"

definition host_names :: "ExecutionNode \<Rightarrow> string list" where
  "host_names node = (case nd_Hosts node of None \<Rightarrow> [] | Some hs \<Rightarrow> map (\<lambda>h. h_Name (the h)) hs)"

definition node_env_ok :: "ExecutionNode \<Rightarrow> node_env \<Rightarrow> bool" where
  "node_env_ok node env \<longleftrightarrow> distinct (map fst (ne_done env)) \<and>
     set (map fst (ne_done env)) = {..<length (host_names node)}"

definition any_failed :: "(string, HostResult) gomap \<Rightarrow> bool" where
  "any_failed hrs \<longleftrightarrow> (\<exists>(h, r) \<in> set hrs. hr_Status r = StatusFailed)"

lemma run_hosts_ok:
  assumes "node_runnable node" "0 \<le> rc_maxRetries rc"
    and "\<forall>(k, e) \<in> set dn. k < length (host_names node)"
    and "distinct (map (\<lambda>(k, e). host_names node ! k) dn)"
    and "set (map (\<lambda>(k, e). host_names node ! k) dn) \<inter> set (gm_keys hrs) = {}"
    and "err \<noteq> None \<longleftrightarrow> any_failed hrs"
  shows "\<exists>hrs' err'. run_hosts rc node dn hrs err = Some (hrs', err') \<and> (err' \<noteq> None \<longleftrightarrow> any_failed hrs')
    \<and> set (gm_keys hrs') = set (gm_keys hrs) \<union> set (map (\<lambda>(k, e). host_names node ! k) dn)"
  using assms
proof (induction dn arbitrary: hrs err)
  case (Cons p dn)
  obtain k env where p: "p = (k, env)" by fastforce
  let ?h = "host_names node ! k"
  obtain s m where s: "nd_Step node = Some s" "stp_Meta s = Some m"
    using Cons.prems(1) by (auto simp: node_runnable_def split: option.splits)
  obtain hs h where h: "nd_Hosts node = Some hs" "k < length hs" "hs ! k = Some h" "h_Name h = ?h"
    using Cons.prems(1,3) by (cases "nd_Hosts node") (auto simp: p host_names_def node_runnable_def list_all_length)
  obtain hr calls where run: "runStepOnHost rc env ?h s = Some (hr, calls)"
    using runStepOnHost_precheck[OF s(2)] runStepOnHost_runs[OF s(2) _ Cons.prems(2)]
    by (metis surj_pair)
  let ?err = "if err = None \<and> hr_Status hr = StatusFailed then Some (host_failure node ?h hr) else err"
  have fresh: "gm_put ?h hr hrs = hrs @ [(?h, hr)]"
    using Cons.prems(5) by (intro gm_put_fresh) (auto simp: p)
  have "?err \<noteq> None \<longleftrightarrow> any_failed (gm_put ?h hr hrs)"
    unfolding fresh using Cons.prems(6) by (auto simp: any_failed_def)
  then obtain hrs' err' where "run_hosts rc node dn (gm_put ?h hr hrs) ?err = Some (hrs', err')"
    "err' \<noteq> None \<longleftrightarrow> any_failed hrs'"
    "set (gm_keys hrs') = set (gm_keys (gm_put ?h hr hrs)) \<union> set (map (\<lambda>(k, e). host_names node ! k) dn)"
    using Cons.IH[of "gm_put ?h hr hrs" ?err] Cons.prems(1-5) fresh by (auto simp: p)
  then show ?case using s h run fresh by (auto simp: p)
qed simp

text \<open>C31: running a node whose step has metadata and whose hosts are distinct always returns a
  result for that node, whatever the completion order of its hosts. It is \<^verbatim>\<open>Skipped\<close> exactly when
  the condition answers no, \<^verbatim>\<open>Failed\<close> exactly when an error is reported, and if the condition
  lets the node run, there is one host result per host and the node fails exactly when one of
  them failed.\<close>

theorem runNode_verdict:
  assumes "node_runnable node" "0 \<le> rc_maxRetries rc" "node_env_ok node env" "distinct (host_names node)"
  shows "\<exists>r. runNode rc env i node = Some r \<and> wr_nodeID r = i
    \<and> wr_status r \<in> {StatusSuccess, StatusFailed, StatusSkipped}
    \<and> (wr_status r = StatusSkipped \<longleftrightarrow> nd_HasCondition node \<and> ne_cond env = (False, None))
    \<and> (wr_status r = StatusFailed \<longleftrightarrow> wr_err r \<noteq> None)
    \<and> ((nd_HasCondition node \<longrightarrow> ne_cond env = (True, None)) \<longrightarrow>
         (\<exists>hrs. wr_hostResults r = Some hrs \<and> set (gm_keys hrs) = set (host_names node)
           \<and> (wr_status r = StatusFailed \<longleftrightarrow> any_failed hrs)))"
proof (cases "nd_HasCondition node \<longrightarrow> ne_cond env = (True, None)")
  case True
  let ?names = "map (\<lambda>(k, e). host_names node ! k) (ne_done env)"
  have eq: "?names = map ((!) (host_names node)) (map fst (ne_done env))" by (simp add: case_prod_beta comp_def)
  have "distinct ?names"
    unfolding eq using assms(3,4) by (auto simp: distinct_map node_env_ok_def inj_on_def nth_eq_iff_index_eq simp del: map_map)
  moreover have "set ?names = set (host_names node)"
  proof -
    have "set ?names = (!) (host_names node) ` set (map fst (ne_done env))" unfolding eq by (rule set_map)
    also have "\<dots> = (!) (host_names node) ` {..<length (host_names node)}" using assms(3) by (simp only: node_env_ok_def)
    also have "\<dots> = set (host_names node)" by (auto simp: set_conv_nth)
    finally show ?thesis .
  qed
  moreover have "\<forall>(k, e) \<in> set (ne_done env). k < length (host_names node)"
    using assms(3) by (force simp: node_env_ok_def)
  ultimately obtain hrs err where hrs: "run_hosts rc node (ne_done env) [] None = Some (hrs, err)"
    "err \<noteq> None \<longleftrightarrow> any_failed hrs" "set (gm_keys hrs) = set (host_names node)"
    using run_hosts_ok[OF assms(1,2), of "ne_done env" "[]" None] by (auto simp: any_failed_def)
  have st: "nr_Status (AggregateStatus ((NewNodeResult 0 [] [])\<lparr>nr_HostResults := Some hrs\<rparr>)) =
      (if any_failed hrs then StatusFailed else StatusSuccess)"
    by (simp add: AggregateStatus_status any_failed_def)
  show ?thesis
    using True hrs by (auto simp: runNode_def st split: prod.splits bool.splits option.splits)
next
  case False
  then obtain b e where "nd_HasCondition node" "ne_cond env = (b, e)" "b = False \<or> e \<noteq> None" by (cases "ne_cond env") auto
  then show ?thesis by (auto simp: runNode_def split: bool.splits option.splits)
qed

definition plain_host :: "string \<Rightarrow> Host" where
  "plain_host nm = \<lparr>h_Name = nm, h_Address = nm, h_Roles = []\<rparr>"

definition step_node :: "string \<Rightarrow> string list \<Rightarrow> NodeID list \<Rightarrow> ExecutionNode" where
  "step_node nm hosts ds =
     (plain_node nm ds)\<lparr>nd_Step := Some (plain_step nm), nd_Hosts := Some (map (\<lambda>h. Some (plain_host h)) hosts)\<rparr>"

theorem runNode_verdict_witness:
  "\<exists>r. runNode (default_retry 0)
      \<lparr>ne_cond = (True, None),
       ne_done = [(1, plain_env (\<lambda>_. RunRet None None)), (0, plain_env (\<lambda>_. RunRet None (Some ''boom'')))],
       ne_range = [''n1'', ''n2'']\<rparr> ''a'' (step_node ''a'' [''n1'', ''n2''] []) = Some r \<and> wr_nodeID r = ''a''"
proof -
  let ?n = "step_node ''a'' [''n1'', ''n2''] []"
  let ?env = "\<lparr>ne_cond = (True, None),
      ne_done = [(1, plain_env (\<lambda>_. RunRet None None)), (0, plain_env (\<lambda>_. RunRet None (Some ''boom'')))],
      ne_range = [''n1'', ''n2'']\<rparr>"
  have "node_runnable ?n" by code_simp
  moreover have "0 \<le> rc_maxRetries (default_retry 0)" by code_simp
  moreover have names: "host_names ?n = [''n1'', ''n2'']" by code_simp
  then have "node_env_ok ?n ?env" by (auto simp: node_env_ok_def)
  moreover have "distinct (host_names ?n)" by (simp add: names)
  ultimately show ?thesis using runNode_verdict[of ?n "default_retry 0" ?env "''a''"] by blast
qed

end
