(* ===== verification/CheckpointStore.thy ===== *)
theory CheckpointStore
  imports PlanResult GoPaths
begin

text \<open>
  Checkpoints and their persistence (\<^verbatim>\<open>checkpoint/checkpoint.go\<close>): the record of a run's
  progress, and a persister that writes it as JSON to a temporary file, renames it into
  place, reads it back and removes it.

  The file system is a map from paths to contents. A content is the JSON document of a
  checkpoint or bytes that are no such document. \<open>io_env\<close> gives the errors the operating
  system reports during one call. \<open>ck_json\<close> is what marshalling and unmarshalling a
  checkpoint with the struct tags of the source amounts to: maps tagged \<^verbatim>\<open>omitempty\<close> come
  back \<^verbatim>\<open>nil\<close> when they were empty, \<^verbatim>\<open>interface{}\<close> values come back as the value \<open>anyv\<close> that
  \<^verbatim>\<open>encoding/json\<close> decodes them to.
\<close>

section \<open>Data\<close>

record HostState =
  hs_Status :: Status
  hs_Message :: string
  hs_Stdout :: string
  hs_Stderr :: string
  hs_Metadata :: "metadata option"
  hs_StartTime :: gotime
  hs_EndTime :: gotime

record NodeState =
  ns_Status :: Status
  ns_StartedAt :: gotime
  ns_CompletedAt :: gotime
  ns_Message :: string
  ns_HostStates :: "(string, HostState) gomap option"
  ns_Output :: "metadata option"
  ns_PrecheckSkipped :: bool

record ModuleState =
  ms_Status :: Status
  ms_CompletedNodes :: "string list option"
  ms_FailedNodes :: "string list option"

record ConfigSnapshot =
  cs_ConfigHash :: string
  cs_KubernetesVersion :: string
  cs_EtcdVersion :: string
  cs_ContainerRuntime :: string

record Checkpoint =
  ck_Version :: int
  ck_ClusterName :: string
  ck_PipelineName :: string
  ck_GraphName :: string
  ck_CreatedAt :: gotime
  ck_UpdatedAt :: gotime
  ck_NodeStates :: "(string, NodeState) gomap option"
  ck_ModuleStates :: "(string, ModuleState) gomap option"
  ck_PipelineState :: "metadata option"
  ck_ConfigSnapshot :: "ConfigSnapshot option"
  ck_Status :: Status
  ck_LastCompletedNode :: string
  ck_ResumeCount :: int

section \<open>JSON round trip\<close>

definition omit_empty :: "('a, 'b) gomap option \<Rightarrow> ('a, 'b) gomap option" where
  "omit_empty m = (case m of None \<Rightarrow> None | Some xs \<Rightarrow> if xs = [] then None else Some xs)"

definition omit_empty_list :: "'a list option \<Rightarrow> 'a list option" where
  "omit_empty_list m = (case m of None \<Rightarrow> None | Some xs \<Rightarrow> if xs = [] then None else Some xs)"

definition map_values :: "('b \<Rightarrow> 'c) \<Rightarrow> ('a, 'b) gomap \<Rightarrow> ('a, 'c) gomap" where
  "map_values f m = map (\<lambda>(k, v). (k, f v)) m"

definition hs_json :: "(goval \<Rightarrow> goval) \<Rightarrow> HostState \<Rightarrow> HostState" where
  "hs_json anyv s = s\<lparr>hs_Metadata := omit_empty (map_option (map_values anyv) (hs_Metadata s))\<rparr>"

definition ns_json :: "(goval \<Rightarrow> goval) \<Rightarrow> NodeState \<Rightarrow> NodeState" where
  "ns_json anyv s =
     s\<lparr>ns_HostStates := omit_empty (map_option (map_values (hs_json anyv)) (ns_HostStates s)),
       ns_Output := omit_empty (map_option (map_values anyv) (ns_Output s))\<rparr>"

definition ms_json :: "ModuleState \<Rightarrow> ModuleState" where
  "ms_json s =
     s\<lparr>ms_CompletedNodes := omit_empty_list (ms_CompletedNodes s),
       ms_FailedNodes := omit_empty_list (ms_FailedNodes s)\<rparr>"

definition ck_json :: "(goval \<Rightarrow> goval) \<Rightarrow> Checkpoint \<Rightarrow> Checkpoint" where
  "ck_json anyv c =
     c\<lparr>ck_NodeStates := map_option (map_values (ns_json anyv)) (ck_NodeStates c),
       ck_ModuleStates := omit_empty (map_option (map_values ms_json) (ck_ModuleStates c)),
       ck_PipelineState := omit_empty (map_option (map_values anyv) (ck_PipelineState c))\<rparr>"

section \<open>Persister\<close>

datatype file_content = JsonCheckpoint Checkpoint | OtherBytes string

type_synonym file_system = "(string, file_content) gomap"

datatype ckpt_error =
    NilCheckpoint | MkdirFailed goerr | MarshalFailed goerr | WriteFailed goerr | RenameFailed goerr
  | ReadFailed goerr | UnmarshalFailed | RemoveFailed goerr

text \<open>A failed write may leave part of the data in the temporary file.\<close>

record io_env =
  io_now :: gotime
  io_mkdir :: "goerr option"
  io_marshal :: "goerr option"
  io_write :: "(goerr \<times> string option) option"
  io_rename :: "goerr option"
  io_read :: "goerr option"
  io_remove :: "goerr option"

definition io_ok :: "gotime \<Rightarrow> io_env" where
  "io_ok now = \<lparr>io_now = now, io_mkdir = None, io_marshal = None, io_write = None, io_rename = None,
     io_read = None, io_remove = None\<rparr>"

record CheckpointPersister =
  cp_CheckpointDir :: string

definition NewCheckpointPersister :: "string \<Rightarrow> CheckpointPersister" where
  "NewCheckpointPersister checkpointDir = \<lparr>cp_CheckpointDir = checkpointDir\<rparr>"

definition CheckpointPath :: "CheckpointPersister \<Rightarrow> string \<Rightarrow> string \<Rightarrow> string" where
  "CheckpointPath cp clusterName pipelineName =
     filepath_Join [cp_CheckpointDir cp, pipelineName @ ''.checkpoint.json'']"

text \<open>\<^verbatim>\<open>Save\<close> stamps the caller's checkpoint before anything can fail, so the stamped record is
  part of the answer.\<close>

definition Save :: "CheckpointPersister \<Rightarrow> io_env \<Rightarrow> string \<Rightarrow> string \<Rightarrow> Checkpoint option \<Rightarrow> file_system \<Rightarrow>
    ckpt_error option \<times> Checkpoint option \<times> file_system" where
  "Save cp io clusterName pipelineName ckpt fs =
     (case ckpt of
        None \<Rightarrow> (Some NilCheckpoint, None, fs)
      | Some c0 \<Rightarrow>
          (let c = c0\<lparr>ck_UpdatedAt := io_now io\<rparr>;
               path = CheckpointPath cp clusterName pipelineName;
               tmpPath = path @ ''.tmp''
           in case io_mkdir io of
                Some e \<Rightarrow> (Some (MkdirFailed e), Some c, fs)
              | None \<Rightarrow>
                  (case io_marshal io of
                     Some e \<Rightarrow> (Some (MarshalFailed e), Some c, fs)
                   | None \<Rightarrow>
                       (case io_write io of
                          Some (e, part) \<Rightarrow>
                            (Some (WriteFailed e), Some c,
                             (case part of None \<Rightarrow> fs | Some bs \<Rightarrow> gm_put tmpPath (OtherBytes bs) fs))
                        | None \<Rightarrow>
                            (let fs' = gm_put tmpPath (JsonCheckpoint c) fs
                             in case io_rename io of
                                  Some e \<Rightarrow> (Some (RenameFailed e), Some c, fs')
                                | None \<Rightarrow> (None, Some c, gm_put path (JsonCheckpoint c) (gm_del tmpPath fs')))))))"

definition Load :: "(goval \<Rightarrow> goval) \<Rightarrow> CheckpointPersister \<Rightarrow> io_env \<Rightarrow> string \<Rightarrow> string \<Rightarrow> file_system \<Rightarrow>
    ckpt_error + Checkpoint option" where
  "Load anyv cp io clusterName pipelineName fs =
     (case gm_get fs (CheckpointPath cp clusterName pipelineName) of
        None \<Rightarrow> Inr None
      | Some content \<Rightarrow>
          (case io_read io of
             Some e \<Rightarrow> Inl (ReadFailed e)
           | None \<Rightarrow>
               (case content of
                  OtherBytes bs \<Rightarrow> Inl UnmarshalFailed
                | JsonCheckpoint c \<Rightarrow> Inr (Some (ck_json anyv c)))))"

definition Delete :: "CheckpointPersister \<Rightarrow> io_env \<Rightarrow> string \<Rightarrow> string \<Rightarrow> file_system \<Rightarrow>
    ckpt_error option \<times> file_system" where
  "Delete cp io clusterName pipelineName fs =
     (let path = CheckpointPath cp clusterName pipelineName in
      if \<not> gm_has fs path then (None, fs)
      else case io_remove io of
        Some e \<Rightarrow> (Some (RemoveFailed e), fs)
      | None \<Rightarrow> (None, gm_del path fs))"

definition Exists :: "CheckpointPersister \<Rightarrow> string \<Rightarrow> string \<Rightarrow> file_system \<Rightarrow> bool" where
  "Exists cp clusterName pipelineName fs = gm_has fs (CheckpointPath cp clusterName pipelineName)"

definition FromCheckpoint :: "Checkpoint option \<Rightarrow> (string, NodeState) gomap option" where
  "FromCheckpoint ckpt = (case ckpt of None \<Rightarrow> None | Some c \<Rightarrow> ck_NodeStates c)"

section \<open>Lemmas\<close>

lemma append_tmp_neq [simp]: "p @ ''.tmp'' \<noteq> p" "p \<noteq> p @ ''.tmp''"
  by simp_all

lemma map_values_comp: "map_values f (map_values g m) = map_values (f \<circ> g) m"
  by (simp add: map_values_def comp_def case_prod_beta)

lemma map_values_Nil_iff [simp]: "map_values f m = [] \<longleftrightarrow> m = []"
  by (simp add: map_values_def)

lemma omit_empty_idem: "omit_empty (map_option (map_values f) (omit_empty (map_option (map_values g) m))) =
    omit_empty (map_option (map_values (f \<circ> g)) m)"
  by (cases m) (auto simp: omit_empty_def map_values_comp)

lemma gm_get_map_vals: "gm_get (map_values f m) k = map_option f (gm_get m k)"
  unfolding map_values_def by (rule gm_get_map_values)

lemma hs_json_idem: "(\<And>v. anyv (anyv v) = anyv v) \<Longrightarrow> hs_json anyv (hs_json anyv s) = hs_json anyv s"
  by (simp add: hs_json_def omit_empty_idem comp_def)

lemma ns_json_idem: "(\<And>v. anyv (anyv v) = anyv v) \<Longrightarrow> ns_json anyv (ns_json anyv s) = ns_json anyv s"
  by (simp add: ns_json_def omit_empty_idem comp_def hs_json_idem)

lemma ms_json_idem: "ms_json (ms_json s) = ms_json s"
  by (auto simp: ms_json_def omit_empty_list_def split: option.splits)

lemma ck_json_idem: "(\<And>v. anyv (anyv v) = anyv v) \<Longrightarrow> ck_json anyv (ck_json anyv c) = ck_json anyv c"
  by (simp add: ck_json_def omit_empty_idem comp_def ns_json_idem ms_json_idem option.map_comp map_values_comp)

text \<open>A checkpoint survives the trip to disk with every status, message and time of every node.\<close>

lemma ck_json_node:
  "ck_NodeStates c = Some m \<Longrightarrow> gm_get m i = Some s \<Longrightarrow>
   \<exists>m'. ck_NodeStates (ck_json anyv c) = Some m' \<and> gm_get m' i = Some (ns_json anyv s)"
  by (simp add: ck_json_def gm_get_map_vals)

lemma Save_cases:
  assumes "Save cp io cl p (Some c0) fs = (e, c', fs')"
  shows "c' = Some (c0\<lparr>ck_UpdatedAt := io_now io\<rparr>)
    \<and> (e = None \<longrightarrow> gm_get fs' (CheckpointPath cp cl p) = Some (JsonCheckpoint (c0\<lparr>ck_UpdatedAt := io_now io\<rparr>)))
    \<and> (e \<noteq> None \<longrightarrow> gm_get fs' (CheckpointPath cp cl p) = gm_get fs (CheckpointPath cp cl p))
    \<and> (\<forall>q. q \<noteq> CheckpointPath cp cl p \<longrightarrow> q \<noteq> CheckpointPath cp cl p @ ''.tmp'' \<longrightarrow> gm_get fs' q = gm_get fs q)"
  using assms by (auto simp: Save_def Let_def split: option.splits prod.splits)

definition checkpoint_file :: "string \<Rightarrow> string" where
  "checkpoint_file p = p @ ''.checkpoint.json''"

lemma plain_checkpoint_file: "slash \<notin> set p \<Longrightarrow> plain_elem (checkpoint_file p)"
proof -
  assume "slash \<notin> set p"
  moreover have "length (checkpoint_file p) > 2" by (simp add: checkpoint_file_def)
  then have "checkpoint_file p \<noteq> ''.''" "checkpoint_file p \<noteq> ''..''" by auto
  ultimately show ?thesis by (simp add: plain_elem_def checkpoint_file_def slash_def)
qed

lemma CheckpointPath_inject:
  assumes "slash \<notin> set p" "slash \<notin> set q" "CheckpointPath cp cl p = CheckpointPath cp cl' q"
  shows "p = q"
  using Join_dir_file_inject[OF plain_checkpoint_file[OF assms(1)] plain_checkpoint_file[OF assms(2)], of "cp_CheckpointDir cp"]
    assms(3) by (simp add: CheckpointPath_def checkpoint_file_def)

lemma last_Join_file: "plain_elem w \<Longrightarrow> last (filepath_Join [dir, w]) = last w"
proof (cases "dir = []")
  case True
  assume w: "plain_elem w"
  then have "w \<noteq> []" "hd w \<noteq> slash" by (cases w; auto simp: plain_elem_def)+
  with True w show ?thesis
    by (simp add: filepath_Join_def Clean_nonempty split_slash_plain plain_elem_def Let_def split: list.splits)
next
  case False
  assume w: "plain_elem w"
  then have "w \<noteq> []" by (simp add: plain_elem_def)
  then show ?thesis using False w by (simp add: Join_dir_file Let_def)
qed

lemma CheckpointPath_not_tmp:
  assumes "slash \<notin> set p"
  shows "CheckpointPath cp cl p \<noteq> q @ ''.tmp''"
proof
  assume "CheckpointPath cp cl p = q @ ''.tmp''"
  then have "last (CheckpointPath cp cl p) = CHR ''p''" by simp
  moreover have "last (CheckpointPath cp cl p) = CHR ''n''"
    using last_Join_file[OF plain_checkpoint_file[OF assms], of "cp_CheckpointDir cp"]
    by (simp add: CheckpointPath_def checkpoint_file_def)
  ultimately show False by simp
qed

section \<open>Properties\<close>

text \<open>C32: \<^verbatim>\<open>CheckpointPersister.Save\<close> replaces the checkpoint file atomically: whatever error the
  operating system reports along the way, the file holds either the complete new document
  (exactly when \<^verbatim>\<open>Save\<close> returns nil) or what it held before, and no other file except the
  temporary one is touched.\<close>

theorem Save_atomic:
  assumes "Save cp io cl p (Some c0) fs = (e, c', fs')"
  shows "gm_get fs' (CheckpointPath cp cl p) =
      (if e = None then Some (JsonCheckpoint (c0\<lparr>ck_UpdatedAt := io_now io\<rparr>))
       else gm_get fs (CheckpointPath cp cl p))
    \<and> (\<forall>q. q \<notin> {CheckpointPath cp cl p, CheckpointPath cp cl p @ ''.tmp''} \<longrightarrow> gm_get fs' q = gm_get fs q)"
  using Save_cases[OF assms] by simp

definition empty_checkpoint :: Checkpoint where
  "empty_checkpoint =
     \<lparr>ck_Version = 1, ck_ClusterName = ''c'', ck_PipelineName = ''p'', ck_GraphName = ''g'', ck_CreatedAt = 0,
      ck_UpdatedAt = 0, ck_NodeStates = Some [], ck_ModuleStates = None, ck_PipelineState = None,
      ck_ConfigSnapshot = None, ck_Status = StatusRunning, ck_LastCompletedNode = [], ck_ResumeCount = 0\<rparr>"

theorem Save_atomic_witness:
  "\<exists>fs'. Save (NewCheckpointPersister ''/w'') ((io_ok 5)\<lparr>io_write := Some (''disk full'', Some ''{'')\<rparr>) ''c'' ''p''
      (Some empty_checkpoint) [(''/w/p.checkpoint.json'', OtherBytes ''old'')] =
      (Some (WriteFailed ''disk full''), Some (empty_checkpoint\<lparr>ck_UpdatedAt := 5\<rparr>), fs')
    \<and> gm_get fs' ''/w/p.checkpoint.json'' = Some (OtherBytes ''old'')"
proof -
  let ?io = "(io_ok 5)\<lparr>io_write := Some (''disk full'', Some ''{'')\<rparr>" and ?cp = "NewCheckpointPersister ''/w''"
  let ?fs = "[(''/w/p.checkpoint.json'', OtherBytes ''old'')]"
  let ?fs' = "gm_put ''/w/p.checkpoint.json.tmp'' (OtherBytes ''{'') ?fs"
  have path: "CheckpointPath ?cp ''c'' ''p'' = ''/w/p.checkpoint.json''" by code_simp
  have "Save ?cp ?io ''c'' ''p'' (Some empty_checkpoint) ?fs =
      (Some (WriteFailed ''disk full''), Some (empty_checkpoint\<lparr>ck_UpdatedAt := 5\<rparr>), ?fs')"
    by (simp add: Save_def path io_ok_def)
  from this Save_atomic[OF this] show ?thesis by (simp add: path)
qed



text \<open>the checkpoint path does not depend on the cluster: two clusters that are given the same
  checkpoint directory share their checkpoints, and a cluster resumes from the other's.\<close>

theorem Load_shared_between_clusters:
  assumes "Save cp io cl p (Some c0) fs = (None, c', fs')" "io_read io' = None"
  shows "Load anyv cp io' other p fs' = Inr (Some (ck_json anyv (c0\<lparr>ck_UpdatedAt := io_now io\<rparr>)))"
proof -
  have "CheckpointPath cp other p = CheckpointPath cp cl p" by (simp add: CheckpointPath_def)
  then show ?thesis using Save_cases[OF assms(1)] assms(2) by (simp add: Load_def)
qed

theorem Load_shared_between_clusters_witness:
  "\<exists>c' fs'. Save (NewCheckpointPersister ''/w'') (io_ok 5) ''east'' ''p'' (Some empty_checkpoint) [] = (None, c', fs')
    \<and> Load id (NewCheckpointPersister ''/w'') (io_ok 6) ''west'' ''p'' fs' \<noteq> Inr None"
proof -
  let ?cp = "NewCheckpointPersister ''/w''"
  obtain c' fs' where s: "Save ?cp (io_ok 5) ''east'' ''p'' (Some empty_checkpoint) [] = (None, c', fs')"
    by (simp add: Save_def io_ok_def Let_def)
  then show ?thesis using Load_shared_between_clusters[OF s, of "io_ok 6" id "''west''"] by (simp add: io_ok_def)
qed

end
