(* ===== verification/Executor.thy ===== *)
theory Executor
  imports PlanFragment HostRun CheckpointStore
begin

text \<open>
  The graph executor (\<^verbatim>\<open>engine/executor.go\<close>): construction, dry run, and \<^verbatim>\<open>Execute\<close>, in which a
  pool of workers runs nodes taken from a channel of tasks and the main goroutine handles
  the results: it counts, stores, writes the checkpoint, and either releases the dependents
  of a node or skips them in a cascade.

  The concurrent execution is a step relation. The two buffered channels are lists, bounded
  by the number of nodes as in the code; \<open>x_busy\<close> are the nodes held by workers, at most
  \<open>ex_maxWorkers\<close>; a step is one action of a worker or of the main goroutine, in any order.
  \<open>x_started\<close> and \<open>x_received\<close> record history for the theorems and are never read.
\<close>

section \<open>Construction\<close>

record ExecutorOptions =
  eo_CheckpointDir :: string
  eo_ClusterName :: string
  eo_PipelineName :: string
  eo_DisableCheckpoint :: bool
  eo_Timeout :: duration
  eo_MaxRetries :: int
  eo_RetryBaseDelay :: duration
  eo_RetryMaxDelay :: duration

definition no_options :: ExecutorOptions where
  "no_options = \<lparr>eo_CheckpointDir = [], eo_ClusterName = [], eo_PipelineName = [], eo_DisableCheckpoint = False,
     eo_Timeout = 0, eo_MaxRetries = 0, eo_RetryBaseDelay = 0, eo_RetryMaxDelay = 0\<rparr>"

record dagExecutor =
  ex_maxWorkers :: nat
  ex_opts :: ExecutorOptions
  ex_persister :: "CheckpointPersister option"
  ex_retry :: retry_config

definition NewExecutor :: dagExecutor where
  "NewExecutor = \<lparr>ex_maxWorkers = 10, ex_opts = no_options, ex_persister = None,
     ex_retry = \<lparr>rc_maxRetries = 0, rc_baseDelay = 0, rc_maxDelay = 0\<rparr>\<rparr>"

definition NewCheckpointExecutor :: "ExecutorOptions \<Rightarrow> dagExecutor" where
  "NewCheckpointExecutor opts =
     \<lparr>ex_maxWorkers = 10, ex_opts = opts,
      ex_persister = (if eo_CheckpointDir opts \<noteq> [] \<and> \<not> eo_DisableCheckpoint opts
                      then Some (NewCheckpointPersister (eo_CheckpointDir opts)) else None),
      ex_retry =
        \<lparr>rc_maxRetries = (if eo_MaxRetries opts \<le> 0 then 0 else eo_MaxRetries opts),
         rc_baseDelay = (if sint (eo_RetryBaseDelay opts) \<le> 0 then second else eo_RetryBaseDelay opts),
         rc_maxDelay = (if sint (eo_RetryMaxDelay opts) \<le> 0 then 30 * second else eo_RetryMaxDelay opts)\<rparr>\<rparr>"

text \<open>The cluster's name (absent when the context or its configuration is nil) and its work directory.\<close>

definition NewCheckpointExecutorForPipeline :: "string option \<Rightarrow> string \<Rightarrow> string \<Rightarrow> dagExecutor" where
  "NewCheckpointExecutorForPipeline clusterName workDir pipelineName =
     (case clusterName of
        None \<Rightarrow> NewExecutor
      | Some c \<Rightarrow>
          if c = [] then NewExecutor
          else NewCheckpointExecutor
            (no_options\<lparr>eo_CheckpointDir :=
                 (if workDir = [] \<or> workDir = ''/_INVALID_CLUSTER_'' then ''/tmp/kubexm'' else workDir),
               eo_ClusterName := c, eo_PipelineName := pipelineName\<rparr>))"

section \<open>Dry run\<close>

text \<open>\<open>None\<close> when a nil node or host is dereferenced. The two clock readings per node are arguments.\<close>

definition dry_host :: "gotime \<Rightarrow> gotime \<Rightarrow> Host \<Rightarrow> HostResult" where
  "dry_host start fin h =
     (NewHostResult start (h_Name h))\<lparr>hr_Status := StatusSkipped,
        hr_Message := ''Dry run: Host operation skipped.'', hr_EndTime := fin\<rparr>"

fun dry_hosts :: "gotime \<Rightarrow> gotime \<Rightarrow> Host option list \<Rightarrow> (string, HostResult) gomap \<Rightarrow>
    (string, HostResult) gomap option" where
  "dry_hosts start fin [] hrs = Some hrs"
| "dry_hosts start fin (None # hs) hrs = None"
| "dry_hosts start fin (Some h # hs) hrs = dry_hosts start fin hs (gm_put (h_Name h) (dry_host start fin h) hrs)"

fun dryRun :: "gotime \<Rightarrow> gotime \<Rightarrow> nodes \<Rightarrow> (NodeID, NodeResult) gomap \<Rightarrow> (NodeID, NodeResult) gomap option" where
  "dryRun start fin [] res = Some res"
| "dryRun start fin ((i, None) # ns) res = None"
| "dryRun start fin ((i, Some n) # ns) res =
     (case dry_hosts start fin (case nd_Hosts n of None \<Rightarrow> [] | Some hs \<Rightarrow> hs) [] of
        None \<Rightarrow> None
      | Some hrs \<Rightarrow>
          dryRun start fin ns
            (gm_put i ((NewNodeResult start (nd_Name n) (nd_StepName n))\<lparr>nr_Status := StatusSkipped,
               nr_Message := ''Dry run: Node execution skipped.'', nr_EndTime := fin,
               nr_HostResults := Some hrs\<rparr>) res))"

section \<open>Checkpointed node states\<close>

definition restore_host :: "string \<Rightarrow> HostState \<Rightarrow> HostResult" where
  "restore_host hostname s =
     \<lparr>hr_HostName = hostname, hr_Status = hs_Status s, hr_Message = hs_Message s, hr_Stdout = hs_Stdout s,
      hr_Stderr = hs_Stderr s, hr_Metadata = hs_Metadata s, hr_StartTime = hs_StartTime s, hr_EndTime = hs_EndTime s\<rparr>"

definition restoreNodeResult :: "NodeState option \<Rightarrow> NodeResult \<Rightarrow> NodeResult" where
  "restoreNodeResult nodeState nr =
     (case nodeState of
        None \<Rightarrow> nr
      | Some s \<Rightarrow>
          (let nr1 = nr\<lparr>nr_Status := ns_Status s, nr_Message := ns_Message s,
                 nr_StartTime := (if ns_StartedAt s = 0 then nr_StartTime nr else ns_StartedAt s),
                 nr_EndTime := (if ns_CompletedAt s = 0 then nr_EndTime nr else ns_CompletedAt s)\<rparr>;
               nr2 = fold (\<lambda>(h, hs) r. r\<lparr>nr_HostResults :=
                       Some (gm_put h (restore_host h hs) (case nr_HostResults r of None \<Rightarrow> [] | Some m \<Rightarrow> m))\<rparr>)
                     (case ns_HostStates s of None \<Rightarrow> [] | Some m \<Rightarrow> m) nr1
           in case ns_Output s of
                None \<Rightarrow> nr2
              | Some out \<Rightarrow> if length out > 0 then nr2\<lparr>nr_Output := Some out\<rparr> else nr2))"

definition host_state :: "HostResult \<Rightarrow> HostState" where
  "host_state hr =
     \<lparr>hs_Status = hr_Status hr, hs_Message = hr_Message hr, hs_Stdout = hr_Stdout hr, hs_Stderr = hr_Stderr hr,
      hs_Metadata = hr_Metadata hr, hs_StartTime = hr_StartTime hr, hs_EndTime = hr_EndTime hr\<rparr>"

text \<open>Writing into a nil map panics: \<open>None\<close>.\<close>

definition saveNodeState :: "gotime \<Rightarrow> NodeID \<Rightarrow> NodeResult \<Rightarrow> (string, HostResult) gomap option \<Rightarrow>
    metadata option \<Rightarrow> Checkpoint \<Rightarrow> Checkpoint option" where
  "saveNodeState now i nr hostResults output ckpt =
     (let state = \<lparr>ns_Status = nr_Status nr, ns_StartedAt = nr_StartTime nr, ns_CompletedAt = nr_EndTime nr,
             ns_Message = nr_Message nr,
             ns_HostStates = Some (fold (\<lambda>(h, hr). gm_put h (host_state hr))
               (case hostResults of None \<Rightarrow> [] | Some m \<Rightarrow> m) []),
             ns_Output = output, ns_PrecheckSkipped = False\<rparr>
      in case ck_NodeStates ckpt of
           None \<Rightarrow> None
         | Some m \<Rightarrow> Some (ckpt\<lparr>ck_NodeStates := Some (gm_put i state m), ck_LastCompletedNode := i,
                          ck_UpdatedAt := now\<rparr>))"

section \<open>State of an execution\<close>

record state_bags =
  b_TaskState :: "metadata option"
  b_ModuleState :: "metadata option"
  b_PipelineState :: "metadata option"

datatype phase = PRunning | PDraining | PDone GraphExecutionResult | PCrashed

record exec_state =
  x_deg :: degrees
  x_adj :: adjacency
  x_res :: "(NodeID, NodeResult) gomap"
  x_tasks :: "NodeID list"
  x_busy :: "NodeID list"
  x_results :: "workerResult list"
  x_count :: nat
  x_ckpt :: "Checkpoint option"
  x_fs :: file_system
  x_bags :: state_bags
  x_phase :: phase
  x_result :: GraphExecutionResult
  x_started :: "NodeID list"
  x_received :: "NodeID list"

text \<open>The tables built from the graph: remaining dependencies and dependents of every node.\<close>

fun add_dependents :: "NodeID \<Rightarrow> NodeID list \<Rightarrow> adjacency \<Rightarrow> adjacency" where
  "add_dependents i [] adj = adj"
| "add_dependents i (d # ds) adj = add_dependents i ds (gm_put d (gm_getd [] adj d @ [i]) adj)"

fun build_tables :: "nodes \<Rightarrow> degrees \<times> adjacency \<Rightarrow> degrees \<times> adjacency" where
  "build_tables [] t = t"
| "build_tables ((i, n) # ns) (deg, adj) =
     (let ds = (case n of None \<Rightarrow> [] | Some n \<Rightarrow> nd_Dependencies n)
      in build_tables ns (gm_put i (int (length ds)) deg, add_dependents i ds adj))"

fun init_results :: "gotime \<Rightarrow> Checkpoint option \<Rightarrow> nodes \<Rightarrow> (NodeID, NodeResult) gomap \<Rightarrow> (NodeID, NodeResult) gomap" where
  "init_results now ckpt [] res = res"
| "init_results now ckpt ((i, n) # ns) res =
     (let nr = (case n of None \<Rightarrow> NewNodeResult now [] [] | Some n \<Rightarrow> NewNodeResult now (nd_Name n) (nd_StepName n));
          st = (case ckpt of None \<Rightarrow> None
                | Some c \<Rightarrow> (case ck_NodeStates c of None \<Rightarrow> None | Some m \<Rightarrow> gm_get m i))
      in init_results now ckpt ns (gm_put i (restoreNodeResult st nr) res))"

definition checkpointing :: "dagExecutor \<Rightarrow> bool" where
  "checkpointing e \<longleftrightarrow> ex_persister e \<noteq> None \<and> eo_ClusterName (ex_opts e) \<noteq> [] \<and> eo_PipelineName (ex_opts e) \<noteq> []"

text \<open>An unreadable checkpoint only causes a warning.\<close>

definition load_checkpoint :: "(goval \<Rightarrow> goval) \<Rightarrow> dagExecutor \<Rightarrow> io_env \<Rightarrow> file_system \<Rightarrow> Checkpoint option" where
  "load_checkpoint anyv e io fs =
     (if \<not> checkpointing e then None
      else case Load anyv (the (ex_persister e)) io (eo_ClusterName (ex_opts e)) (eo_PipelineName (ex_opts e)) fs of
        Inl err \<Rightarrow> None
      | Inr None \<Rightarrow> None
      | Inr (Some c) \<Rightarrow> Some (c\<lparr>ck_ResumeCount := ck_ResumeCount c + 1\<rparr>))"

definition fresh_checkpoint :: "dagExecutor \<Rightarrow> string \<Rightarrow> Checkpoint" where
  "fresh_checkpoint e graphName =
     \<lparr>ck_Version = 1, ck_ClusterName = eo_ClusterName (ex_opts e), ck_PipelineName = eo_PipelineName (ex_opts e),
      ck_GraphName = graphName, ck_CreatedAt = 0, ck_UpdatedAt = 0, ck_NodeStates = Some [], ck_ModuleStates = None,
      ck_PipelineState = None, ck_ConfigSnapshot = None, ck_Status = StatusRunning, ck_LastCompletedNode = [],
      ck_ResumeCount = 0\<rparr>"

definition save_checkpoint :: "dagExecutor \<Rightarrow> io_env \<Rightarrow> Checkpoint option \<Rightarrow> file_system \<Rightarrow>
    Checkpoint option \<times> file_system" where
  "save_checkpoint e io ckpt fs =
     (case ckpt of
        None \<Rightarrow> (None, fs)
      | Some c \<Rightarrow> snd (Save (the (ex_persister e)) io (eo_ClusterName (ex_opts e)) (eo_PipelineName (ex_opts e)) (Some c) fs))"

definition already_done :: "Checkpoint option \<Rightarrow> NodeID list" where
  "already_done ckpt =
     (case ckpt of None \<Rightarrow> []
      | Some c \<Rightarrow>
          (case ck_NodeStates c of None \<Rightarrow> []
           | Some m \<Rightarrow> map fst (filter (\<lambda>(i, s). ns_Status s = StatusSuccess \<or> ns_Status s = StatusSkipped) m)))"

definition exec_init :: "(goval \<Rightarrow> goval) \<Rightarrow> dagExecutor \<Rightarrow> io_env \<Rightarrow> ExecutionGraph \<Rightarrow> state_bags \<Rightarrow> file_system \<Rightarrow>
    exec_state" where
  "exec_init anyv e io g bags fs =
     (let loaded = load_checkpoint anyv e io fs;
          (deg, adj) = build_tables (eg_Nodes g) ([], []);
          res = init_results (io_now io) loaded (eg_Nodes g) [];
          ckpt0 = (case loaded of
                     Some c \<Rightarrow> Some c
                   | None \<Rightarrow> if checkpointing e then Some (fresh_checkpoint e (eg_Name g)) else None);
          (ckpt, fs') = save_checkpoint e io ckpt0 fs;
          dn = already_done ckpt
      in \<lparr>x_deg = deg, x_adj = adj, x_res = res,
          x_tasks = map fst (filter (\<lambda>(i, k). k = 0 \<and> i \<notin> set dn) deg),
          x_busy = [], x_results = [], x_count = length dn, x_ckpt = ckpt, x_fs = fs', x_bags = bags,
          x_phase = PRunning, x_result = NewGraphExecutionResult (io_now io) (eg_Name g),
          x_started = [], x_received = []\<rparr>)"

section \<open>Handling one result\<close>

definition pending :: "(NodeID, NodeResult) gomap \<Rightarrow> nat" where
  "pending res = length (filter (\<lambda>(i, nr). nr_Status nr = StatusPending) res)"

definition skip_result :: "gotime \<Rightarrow> NodeID \<Rightarrow> NodeResult \<Rightarrow> NodeResult" where
  "skip_result now src nr =
     nr\<lparr>nr_Status := StatusSkipped,
        nr_Message := ''Skipped due to upstream failure/skip of node '' @ quoted src, nr_EndTime := now\<rparr>"

lemma pending_skip:
  "gm_get res j = Some nr \<Longrightarrow> nr_Status nr = StatusPending \<Longrightarrow>
   Suc (pending (gm_put j (skip_result now src nr) res)) = pending res"
  by (induction res) (auto simp: pending_def skip_result_def split: if_splits)

lemma pending_skip_less:
  "gm_get res j = Some nr \<Longrightarrow> nr_Status nr = StatusPending \<Longrightarrow>
   pending (gm_put j (skip_result now src nr) res) < pending res"
  using pending_skip[of res j nr now src] by simp

text \<open>The cascade. Every node it meets is in the result map; a missing entry is passed over.\<close>

function skip_loop :: "gotime \<Rightarrow> NodeID \<Rightarrow> adjacency \<Rightarrow> NodeID list \<Rightarrow> (NodeID, NodeResult) gomap \<Rightarrow> nat \<Rightarrow>
    (NodeID, NodeResult) gomap \<times> nat" where
  "skip_loop now src adj [] res cnt = (res, cnt)"
| "skip_loop now src adj (j # queue) res cnt =
     (case gm_get res j of
        Some nr \<Rightarrow>
          if nr_Status nr = StatusPending
          then skip_loop now src adj (queue @ gm_getd [] adj j) (gm_put j (skip_result now src nr) res) (Suc cnt)
          else skip_loop now src adj queue res cnt
      | None \<Rightarrow> skip_loop now src adj queue res cnt)"
  by pat_completeness auto
termination
  by (relation "measures [\<lambda>(now, src, adj, queue, res, cnt). pending res,
      \<lambda>(now, src, adj, queue, res, cnt). length queue]") (auto simp: pending_skip_less)

definition merge_output :: "metadata option \<Rightarrow> state_bags \<Rightarrow> state_bags" where
  "merge_output output bags =
     (let out = (case output of None \<Rightarrow> [] | Some m \<Rightarrow> m);
          put_all = fold (\<lambda>(k, v). gm_put k v) out
      in if length out = 0 then bags
         else case b_TaskState bags of
           Some b \<Rightarrow> bags\<lparr>b_TaskState := Some (put_all b)\<rparr>
         | None \<Rightarrow>
             (case b_ModuleState bags of
                Some b \<Rightarrow> bags\<lparr>b_ModuleState := Some (put_all b)\<rparr>
              | None \<Rightarrow>
                  (case b_PipelineState bags of
                     Some b \<Rightarrow> bags\<lparr>b_PipelineState := Some (put_all b)\<rparr>
                   | None \<Rightarrow> bags)))"

definition store_result :: "gotime \<Rightarrow> workerResult \<Rightarrow> NodeResult \<Rightarrow> NodeResult" where
  "store_result now r nr =
     nr\<lparr>nr_Status := wr_status r, nr_Message := wr_message r, nr_HostResults := wr_hostResults r, nr_EndTime := now\<rparr>"

text \<open>The checkpoint after a node has finished; \<open>None\<close> when its node map is nil.\<close>

definition checkpoint_node :: "dagExecutor \<Rightarrow> io_env \<Rightarrow> NodeResult \<Rightarrow> workerResult \<Rightarrow> exec_state \<Rightarrow>
    (Checkpoint option \<times> file_system) option" where
  "checkpoint_node e io nr r s =
     (case x_ckpt s of
        None \<Rightarrow> Some (None, x_fs s)
      | Some c \<Rightarrow>
          map_option (\<lambda>c'. save_checkpoint e io (Some c') (x_fs s))
            (saveNodeState (io_now io) (wr_nodeID r) nr (wr_hostResults r) (wr_output r) c))"

text \<open>Skip everything behind a failed or skipped node, or release the dependents of a successful one.\<close>

definition propagate :: "gotime \<Rightarrow> NodeID \<Rightarrow> Status \<Rightarrow> exec_state \<Rightarrow> exec_state" where
  "propagate now i status s =
     (if status = StatusFailed \<or> status = StatusSkipped
      then let (res, cnt) = skip_loop now i (x_adj s) (gm_getd [] (x_adj s) i) (x_res s) (x_count s)
           in s\<lparr>x_res := res, x_count := cnt\<rparr>
      else let (deg, tasks) = relax (gm_getd [] (x_adj s) i) (x_deg s) (x_tasks s)
           in s\<lparr>x_deg := deg, x_tasks := tasks\<rparr>)"

text \<open>One turn of the main loop, from the received result to the dispatch of released nodes.\<close>

definition handle_result :: "dagExecutor \<Rightarrow> io_env \<Rightarrow> workerResult \<Rightarrow> exec_state \<Rightarrow> exec_state" where
  "handle_result e io r s0 =
     (let i = wr_nodeID r;
          s = s0\<lparr>x_received := x_received s0 @ [i]\<rparr>
      in case gm_get (x_res s) i of
           None \<Rightarrow> s\<lparr>x_phase := PCrashed\<rparr>
         | Some nr0 \<Rightarrow>
             (let cnt = (if nr_Status nr0 = StatusPending then Suc (x_count s) else x_count s);
                  nr = store_result (io_now io) r nr0
              in case checkpoint_node e io nr r s of
                   None \<Rightarrow> s\<lparr>x_phase := PCrashed\<rparr>
                 | Some (ckpt, fs) \<Rightarrow>
                     propagate (io_now io) i (nr_Status nr)
                       (s\<lparr>x_res := gm_put i nr (x_res s), x_count := cnt,
                          x_bags := merge_output (wr_output r) (x_bags s), x_ckpt := ckpt, x_fs := fs\<rparr>)))"

fun final_status :: "(NodeID, NodeResult) gomap \<Rightarrow> Status" where
  "final_status [] = StatusSuccess"
| "final_status ((i, nr) # res) = (if nr_Status nr = StatusFailed then StatusFailed else final_status res)"

text \<open>A successful run deletes its checkpoint, a failed one saves it with the final status.\<close>

definition finish_checkpoint :: "dagExecutor \<Rightarrow> io_env \<Rightarrow> Status \<Rightarrow> Checkpoint option \<Rightarrow> file_system \<Rightarrow>
    Checkpoint option \<times> file_system" where
  "finish_checkpoint e io status ckpt fs =
     (case ckpt of
        None \<Rightarrow> (None, fs)
      | Some c \<Rightarrow>
          (let c' = c\<lparr>ck_Status := status\<rparr>
           in if status = StatusSuccess
              then (Some c', snd (Delete (the (ex_persister e)) io (eo_ClusterName (ex_opts e))
                                    (eo_PipelineName (ex_opts e)) fs))
              else save_checkpoint e io (Some c') fs))"

definition finish_execution :: "dagExecutor \<Rightarrow> io_env \<Rightarrow> exec_state \<Rightarrow> exec_state" where
  "finish_execution e io s =
     (let status = final_status (x_res s);
          message = (if status = StatusFailed then ''Graph execution failed due to one or more node failures.''
                     else ''Graph execution completed successfully.'');
          result = Finalize (io_now io) status message ((x_result s)\<lparr>ger_NodeResults := x_res s\<rparr>);
          (ckpt, fs) = finish_checkpoint e io status (x_ckpt s) (x_fs s)
      in s\<lparr>x_phase := PDone result, x_ckpt := ckpt, x_fs := fs\<rparr>)"

section \<open>Steps of an execution\<close>

text \<open>\<open>world i\<close> are the environments in which node \<open>i\<close> may run.\<close>

inductive exec_step :: "(NodeID \<Rightarrow> node_env \<Rightarrow> bool) \<Rightarrow> dagExecutor \<Rightarrow> ExecutionGraph \<Rightarrow> exec_state \<Rightarrow> exec_state \<Rightarrow> bool"
  for world e g where
  worker_take:
    "x_phase s = PRunning \<or> x_phase s = PDraining \<Longrightarrow> x_tasks s = i # ts \<Longrightarrow>
     length (x_busy s) < ex_maxWorkers e \<Longrightarrow> gm_get (eg_Nodes g) i = Some (Some n) \<Longrightarrow>
     exec_step world e g s (s\<lparr>x_tasks := ts, x_busy := x_busy s @ [i], x_started := x_started s @ [i]\<rparr>)"
| worker_drop:
    "x_phase s = PRunning \<or> x_phase s = PDraining \<Longrightarrow> x_tasks s = i # ts \<Longrightarrow>
     length (x_busy s) < ex_maxWorkers e \<Longrightarrow> GetNode g i = None \<Longrightarrow>
     exec_step world e g s (s\<lparr>x_tasks := ts\<rparr>)"
| worker_finish:
    "x_phase s = PRunning \<or> x_phase s = PDraining \<Longrightarrow> i \<in> set (x_busy s) \<Longrightarrow>
     gm_get (eg_Nodes g) i = Some (Some n) \<Longrightarrow> node_env_ok n env \<Longrightarrow> world i env \<Longrightarrow> runNode (ex_retry e) env i n = Some r \<Longrightarrow>
     length (x_results s) < length (eg_Nodes g) \<Longrightarrow>
     exec_step world e g s (s\<lparr>x_busy := remove1 i (x_busy s), x_results := x_results s @ [r]\<rparr>)"
| worker_crash:
    "x_phase s = PRunning \<or> x_phase s = PDraining \<Longrightarrow> i \<in> set (x_busy s) \<Longrightarrow>
     gm_get (eg_Nodes g) i = Some (Some n) \<Longrightarrow> node_env_ok n env \<Longrightarrow> world i env \<Longrightarrow> runNode (ex_retry e) env i n = None \<Longrightarrow>
     exec_step world e g s (s\<lparr>x_phase := PCrashed\<rparr>)"
| main_receive:
    "x_phase s = PRunning \<Longrightarrow> x_count s < length (eg_Nodes g) \<Longrightarrow> x_results s = r # rs \<Longrightarrow>
     length (x_tasks (handle_result e io r (s\<lparr>x_results := rs\<rparr>))) \<le> length (eg_Nodes g) \<Longrightarrow>
     exec_step world e g s (handle_result e io r (s\<lparr>x_results := rs\<rparr>))"
| main_close:
    "x_phase s = PRunning \<Longrightarrow> length (eg_Nodes g) \<le> x_count s \<Longrightarrow> exec_step world e g s (s\<lparr>x_phase := PDraining\<rparr>)"
| main_finish:
    "x_phase s = PDraining \<Longrightarrow> x_tasks s = [] \<Longrightarrow> x_busy s = [] \<Longrightarrow>
     exec_step world e g s (finish_execution e io s)"

inductive_cases exec_stepE: "exec_step world e g s s'"

text \<open>How \<^verbatim>\<open>Execute\<close> begins: a dry run and a rejected graph end at once.\<close>

datatype exec_begin = BeginDone GraphExecutionResult "plan_error option" | BeginRun exec_state | BeginCrash

definition Execute :: "(goval \<Rightarrow> goval) \<Rightarrow> dagExecutor \<Rightarrow> io_env \<Rightarrow> ExecutionGraph \<Rightarrow> state_bags \<Rightarrow> file_system \<Rightarrow>
    bool \<Rightarrow> exec_begin" where
  "Execute anyv e io g bags fs dry =
     (let result = NewGraphExecutionResult (io_now io) (eg_Name g) in
      if dry then
        (case dryRun (io_now io) (io_now io) (eg_Nodes g) [] of
           None \<Rightarrow> BeginCrash
         | Some res \<Rightarrow> BeginDone (result\<lparr>ger_NodeResults := res\<rparr>) None)
      else case Validate g of
        Some err \<Rightarrow> BeginDone (Finalize (io_now io) StatusFailed ''Graph validation failed'' result) (Some err)
      | None \<Rightarrow> BeginRun (exec_init anyv e io g bags fs))"

end
