(* ===== verification/ExecutorCorrect.thy ===== *)
theory ExecutorCorrect
  imports Executor
begin

text \<open>
  Correctness of the executor: the cascade of skips, the tables built from the graph, the
  invariant of a fresh execution and its preservation by every step, progress and a bound on
  the number of steps, the verdict at the end and its independence of the schedule, and the
  deadlock of resumed executions.
\<close>

section \<open>The cascade\<close>

definition status_of :: "(NodeID, NodeResult) gomap \<Rightarrow> NodeID \<Rightarrow> Status" where
  "status_of res i = (case gm_get res i of None \<Rightarrow> StatusPending | Some nr \<Rightarrow> nr_Status nr)"

lemma status_of_put [simp]: "status_of (gm_put j nr res) i = (if i = j then nr_Status nr else status_of res i)"
  by (simp add: status_of_def)

lemma skip_result_status [simp]: "nr_Status (skip_result now src nr) = StatusSkipped"
  by (simp add: skip_result_def)

definition skipped_by :: "(NodeID, NodeResult) gomap \<Rightarrow> (NodeID, NodeResult) gomap \<Rightarrow> NodeID \<Rightarrow> bool" where
  "skipped_by res res' k \<longleftrightarrow> status_of res k = StatusPending \<and> status_of res' k = StatusSkipped"

text \<open>What the cascade does to the results: it turns pending entries into skipped ones and nothing
  else, it reaches everything behind its queue, and it skips nothing that is not behind it.\<close>

lemma skip_loop_frame:
  assumes "skip_loop now src adj queue res cnt = (res', cnt')"
  shows "gm_has res' = gm_has res \<and> (gm_ok res \<longrightarrow> gm_ok res') \<and> cnt' + pending res' = cnt + pending res
    \<and> (\<forall>k. status_of res' k = status_of res k \<or> skipped_by res res' k)"
  using assms
proof (induction now src adj queue res cnt rule: skip_loop.induct)
  case (2 now src adj j queue res cnt)
  show ?case
  proof (cases "gm_get res j")
    case None
    with 2 show ?thesis by simp
  next
    case (Some nr)
    show ?thesis
    proof (cases "nr_Status nr = StatusPending")
      case True
      let ?res = "gm_put j (skip_result now src nr) res"
      have run: "skip_loop now src adj (queue @ gm_getd [] adj j) ?res (Suc cnt) = (res', cnt')"
        using 2(4) Some True by simp
      have ih: "gm_has res' = gm_has ?res \<and> (gm_ok ?res \<longrightarrow> gm_ok res') \<and> cnt' + pending res' = Suc cnt + pending ?res
        \<and> (\<forall>k. status_of res' k = status_of ?res k \<or> skipped_by ?res res' k)"
        by (rule 2(2)[OF Some True run])
      have "gm_has ?res = gm_has res" using Some gm_has_get[OF Some] by (auto simp: fun_eq_iff)
      moreover have "status_of res j = StatusPending" using Some True by (simp add: status_of_def)
      ultimately show ?thesis
        using ih pending_skip[OF Some True, of now src] by (auto simp: skipped_by_def gm_ok_put split: if_splits)
    next
      case False
      with 2 Some show ?thesis by simp
    qed
  qed
qed simp

lemma skip_loop_reach:
  assumes "skip_loop now src adj queue res cnt = (res', cnt')"
  shows "(\<forall>k \<in> set queue. gm_has res k \<longrightarrow> status_of res' k \<noteq> StatusPending)
    \<and> (\<forall>k. skipped_by res res' k \<longrightarrow> (\<forall>j \<in> set (gm_getd [] adj k). gm_has res j \<longrightarrow> status_of res' j \<noteq> StatusPending))
    \<and> (\<forall>k. skipped_by res res' k \<longrightarrow> k \<in> set queue \<or> (\<exists>u. k \<in> set (gm_getd [] adj u) \<and> skipped_by res res' u))"
  using assms
proof (induction now src adj queue res cnt rule: skip_loop.induct)
  case (2 now src adj j queue res cnt)
  show ?case
  proof (cases "gm_get res j")
    case None
    then have "\<not> gm_has res j" by (simp add: gm_has_def)
    with None 2(1)[OF None] 2(4) show ?thesis by auto
  next
    case (Some nr)
    have stj: "status_of res j = nr_Status nr" using Some by (simp add: status_of_def)
    show ?thesis
    proof (cases "nr_Status nr = StatusPending")
      case True
      let ?res = "gm_put j (skip_result now src nr) res" and ?q = "queue @ gm_getd [] adj j"
      have run: "skip_loop now src adj ?q ?res (Suc cnt) = (res', cnt')" using 2(4) Some True by simp
      have has: "gm_has ?res = gm_has res" using gm_has_get[OF Some] by (auto simp: fun_eq_iff)
      have j': "status_of res' j = StatusSkipped"
        using skip_loop_frame[OF run] by (auto simp: skipped_by_def dest: spec[of _ j])
      have sk: "skipped_by res res' k \<longleftrightarrow> k = j \<or> skipped_by ?res res' k" for k
        using stj True j' by (auto simp: skipped_by_def)
      note ih = 2(2)[OF Some True run]
      show ?thesis using ih unfolding has sk by (auto simp: j')
    next
      case False
      then have run: "skip_loop now src adj queue res cnt = (res', cnt')" using 2(4) Some by simp
      have "status_of res' j \<noteq> StatusPending"
        using skip_loop_frame[OF run] stj False by (auto simp: skipped_by_def dest: spec[of _ j])
      with 2(3)[OF Some False run] show ?thesis by auto
    qed
  qed
qed (auto simp: skipped_by_def)

section \<open>The tables\<close>

lemma add_dependents_get:
  "gm_getd [] (add_dependents i ds adj) u = gm_getd [] adj u @ replicate (count_list ds u) i"
  by (induction i ds adj rule: add_dependents.induct) (auto simp: replicate_app_Cons_same)

lemma build_tables_get:
  assumes "gm_ok ns" "no_nil_nodes ns" "build_tables ns (deg, adj) = (deg', adj')"
  shows "(\<forall>u. gm_getd [] adj' u = gm_getd [] adj u @ edges_into (map (\<lambda>(i, n). (i, nd_Dependencies (the n))) ns) u)
    \<and> (\<forall>i. gm_get deg' i = (if i \<in> node_ids ns then Some (int (length (deps_of ns i))) else gm_get deg i))
    \<and> (gm_ok deg \<longrightarrow> gm_ok deg')"
  using assms
proof (induction ns arbitrary: deg adj)
  case (Cons p ns)
  then obtain i n where p: "p = (i, Some n)" by (cases p) (auto simp: no_nil_nodes_def)
  let ?deg = "gm_put i (int (length (nd_Dependencies n))) deg" and ?adj = "add_dependents i (nd_Dependencies n) adj"
  have ok: "gm_ok ns" "no_nil_nodes ns" "i \<notin> node_ids ns"
    using Cons.prems(1,2) by (auto simp: p gm_ok_Cons no_nil_nodes_def)
  have run: "build_tables ns (?deg, ?adj) = (deg', adj')" using Cons.prems(3) by (simp add: p Let_def)
  have d: "deps_of (p # ns) j = (if j = i then nd_Dependencies n else deps_of ns j)" for j
    by (simp add: p deps_of_def)
  have "gm_get deg' j = (if j \<in> node_ids (p # ns) then Some (int (length (deps_of (p # ns) j))) else gm_get deg j)" for j
    using Cons.IH[OF ok(1,2) run] ok(3) by (auto simp: p d[unfolded p] node_ids_Cons)
  moreover have "gm_getd [] adj' u = gm_getd [] adj u @ edges_into (map (\<lambda>(i, n). (i, nd_Dependencies (the n))) (p # ns)) u" for u
    using Cons.IH[OF ok(1,2) run] by (simp add: p add_dependents_get edges_into_def)
  moreover have "gm_ok deg \<longrightarrow> gm_ok deg'" using Cons.IH[OF ok(1,2) run] by (simp add: gm_ok_put)
  ultimately show ?case by blast
qed (simp add: edges_into_def)

lemma build_tables_start:
  assumes "gm_ok ns" "no_nil_nodes ns" "build_tables ns ([], []) = (deg, adj)"
  shows "adj_ok ns adj" "gm_ok deg"
    "\<forall>i. gm_get deg i = (if i \<in> node_ids ns then Some (int (length (deps_of ns i))) else None)"
  using build_tables_get[OF assms] count_edges_into[OF assms(1,2)] by (simp_all add: adj_ok_def)

lemma init_results_fresh:
  assumes "gm_ok ns"
  shows "gm_get (init_results now None ns res) i =
      (if i \<in> node_ids ns then Some (case gm_getd None ns i of None \<Rightarrow> NewNodeResult now [] []
          | Some n \<Rightarrow> NewNodeResult now (nd_Name n) (nd_StepName n))
       else gm_get res i)
    \<and> (gm_ok res \<longrightarrow> gm_ok (init_results now None ns res))"
  using assms
proof (induction ns arbitrary: res)
  case (Cons p ns)
  obtain j n where p: "p = (j, n)" by fastforce
  have "gm_ok ns" "j \<notin> node_ids ns" using Cons.prems by (auto simp: p gm_ok_Cons)
  then show ?case using Cons.IH
    by (auto simp: p node_ids_Cons restoreNodeResult_def gm_ok_put gm_getd_def Let_def)
qed simp

lemma pending_all:
  "gm_ok res \<Longrightarrow> (\<forall>i. gm_has res i \<longrightarrow> status_of res i = StatusPending) \<Longrightarrow> pending res = length res"
proof (induction res)
  case (Cons p res)
  obtain j nr where p: "p = (j, nr)" by fastforce
  have "gm_ok res" "\<not> gm_has res j" using Cons.prems(1) by (auto simp: p gm_ok_def gm_has_iff)
  moreover have "status_of res i = StatusPending" if "gm_has res i" for i
    using Cons.prems(2) that \<open>\<not> gm_has res j\<close> by (auto simp: p status_of_def dest!: spec[of _ i] split: if_splits)
  moreover have "nr_Status nr = StatusPending" using Cons.prems(2) by (auto simp: p status_of_def dest!: spec[of _ j])
  ultimately show ?case using Cons.IH by (simp add: p pending_def)
qed (simp add: pending_def)

lemma pending_pos:
  assumes "gm_ok res" "0 < pending res"
  shows "\<exists>i. gm_has res i \<and> status_of res i = StatusPending"
proof -
  obtain i nr where "(i, nr) \<in> set res" "nr_Status nr = StatusPending"
    using assms(2) by (auto simp: pending_def filter_empty_conv)
  then show ?thesis using gm_in_set_get[OF assms(1)] by (intro exI[of _ i]) (auto simp: gm_has_def status_of_def)
qed

lemma pending_zero:
  assumes "gm_ok res" "pending res = 0" "gm_has res i"
  shows "status_of res i \<noteq> StatusPending"
  using assms gm_get_in_set[of res i] by (auto simp: pending_def filter_empty_conv gm_has_def status_of_def)

lemma pending_put:
  "gm_get res i = Some nr \<Longrightarrow> nr_Status nr' \<noteq> StatusPending \<Longrightarrow>
   pending (gm_put i nr' res) + (if nr_Status nr = StatusPending then 1 else 0) = pending res"
  by (induction res) (auto simp: pending_def split: if_splits)

section \<open>The invariant of a fresh execution\<close>

definition ckpt_ok :: "Checkpoint option \<Rightarrow> bool" where
  "ckpt_ok ckpt \<longleftrightarrow> (case ckpt of None \<Rightarrow> True | Some c \<Rightarrow> ck_NodeStates c \<noteq> None)"

definition finished :: "Status set" where
  "finished = {StatusSuccess, StatusFailed, StatusSkipped}"

definition blocked :: "Status set" where
  "blocked = {StatusFailed, StatusSkipped}"

definition st :: "exec_state \<Rightarrow> NodeID \<Rightarrow> Status" where
  "st s i = status_of (x_res s) i"

definition succeeded :: "exec_state \<Rightarrow> NodeID set" where
  "succeeded s = {d \<in> set (x_received s). st s d = StatusSuccess}"

text \<open>The result map covers the nodes; the counter and the pending results add up.\<close>

definition inv_shape :: "nodes \<Rightarrow> exec_state \<Rightarrow> bool" where
  "inv_shape ns s \<longleftrightarrow> gm_ok (x_res s) \<and> (\<forall>i. gm_has (x_res s) i \<longleftrightarrow> i \<in> node_ids ns) \<and> adj_ok ns (x_adj s) \<and>
     x_count s + pending (x_res s) = length ns \<and> ckpt_ok (x_ckpt s)"

text \<open>A node passes through the channels once.\<close>

definition inv_queue :: "nodes \<Rightarrow> exec_state \<Rightarrow> bool" where
  "inv_queue ns s \<longleftrightarrow> distinct (x_tasks s @ x_started s) \<and> set (x_tasks s @ x_started s) \<subseteq> node_ids ns \<and>
     mset (x_started s) = mset (x_busy s) + mset (map wr_nodeID (x_results s)) + mset (x_received s) \<and>
     (\<forall>r \<in> set (x_results s). wr_status r \<in> finished)"

text \<open>Degrees count the dependencies that have not succeeded; the released nodes are those at zero.\<close>

definition inv_deg :: "nodes \<Rightarrow> exec_state \<Rightarrow> bool" where
  "inv_deg ns s \<longleftrightarrow>
     (\<forall>v. gm_getd 0 (x_deg s) v =
        (if v \<in> node_ids ns then int (length (filter (\<lambda>d. d \<notin> succeeded s) (deps_of ns v))) else 0)) \<and>
     (\<forall>v \<in> node_ids ns. v \<in> set (x_tasks s @ x_started s) \<longleftrightarrow> gm_getd 0 (x_deg s) v = 0)"

text \<open>Skipping is closed under dependents and always has a cause.\<close>

definition inv_status :: "nodes \<Rightarrow> exec_state \<Rightarrow> bool" where
  "inv_status ns s \<longleftrightarrow>
     (\<forall>i \<in> set (x_received s). st s i \<in> finished) \<and>
     (\<forall>i \<in> node_ids ns. i \<notin> set (x_received s) \<longrightarrow> st s i \<in> {StatusPending, StatusSkipped}) \<and>
     (\<forall>j \<in> node_ids ns. \<forall>i \<in> set (deps_of ns j). st s i \<in> blocked \<longrightarrow> st s j = StatusSkipped) \<and>
     (\<forall>i \<in> node_ids ns. i \<notin> set (x_received s) \<longrightarrow> st s i = StatusSkipped \<longrightarrow> (\<exists>d \<in> set (deps_of ns i). st s d \<in> blocked))"

definition exec_inv :: "nodes \<Rightarrow> exec_state \<Rightarrow> bool" where
  "exec_inv ns s \<longleftrightarrow> inv_shape ns s \<and> inv_queue ns s \<and> inv_deg ns s \<and> inv_status ns s"

lemma inv_received_started: "inv_queue ns s \<Longrightarrow> set (x_received s) \<subseteq> set (x_started s)"
  unfolding inv_queue_def by (metis mset_subset_eqD mset_subset_eq_add_right set_mset_mset subsetI)

lemma adj_mem:
  assumes "adj_ok ns adj"
  shows "v \<in> set (gm_getd [] adj u) \<longleftrightarrow> v \<in> node_ids ns \<and> u \<in> set (deps_of ns v)"
proof -
  have "count_list (gm_getd [] adj u) v = (if v \<in> node_ids ns then count_list (deps_of ns v) u else 0)"
    using assms by (simp add: adj_ok_def)
  then show ?thesis using count_list_0_iff[of "gm_getd [] adj u" v] count_list_0_iff[of "deps_of ns v" u] by metis
qed

lemma inv_deg_get: "inv_deg ns s \<Longrightarrow> gm_getd 0 (x_deg s) v =
    (if v \<in> node_ids ns then int (length (filter (\<lambda>d. d \<notin> succeeded s) (deps_of ns v))) else 0)"
  unfolding inv_deg_def by blast

lemma inv_deg_released:
  "inv_deg ns s \<Longrightarrow> v \<in> node_ids ns \<Longrightarrow> v \<in> set (x_tasks s @ x_started s) \<longleftrightarrow> gm_getd 0 (x_deg s) v = 0"
  unfolding inv_deg_def by blast

lemma inv_deg_deps:
  assumes "inv_deg ns s" "v \<in> node_ids ns"
  shows "v \<in> set (x_tasks s @ x_started s) \<longleftrightarrow> set (deps_of ns v) \<subseteq> succeeded s"
  unfolding inv_deg_released[OF assms] inv_deg_get[OF assms(1)] using assms(2) by (auto simp: filter_empty_conv)

lemma inv_statusD:
  assumes "inv_status ns s"
  shows "i \<in> set (x_received s) \<Longrightarrow> st s i \<in> finished"
    and "i \<in> node_ids ns \<Longrightarrow> i \<notin> set (x_received s) \<Longrightarrow> st s i = StatusPending \<or> st s i = StatusSkipped"
    and "j \<in> node_ids ns \<Longrightarrow> i \<in> set (deps_of ns j) \<Longrightarrow> st s i \<in> blocked \<Longrightarrow> st s j = StatusSkipped"
    and "i \<in> node_ids ns \<Longrightarrow> i \<notin> set (x_received s) \<Longrightarrow> st s i = StatusSkipped \<Longrightarrow>
      \<exists>d \<in> set (deps_of ns i). st s d \<in> blocked"
  using assms unfolding inv_status_def by blast+

text \<open>A released node whose result has not been received is pending, and its dependencies succeeded.\<close>

lemma released_pending:
  assumes "exec_inv ns s" "i \<in> set (x_tasks s @ x_started s)" "i \<notin> set (x_received s)"
  shows "i \<in> node_ids ns" "st s i = StatusPending" "set (deps_of ns i) \<subseteq> succeeded s"
proof -
  note inv = assms(1)[unfolded exec_inv_def]
  show ids: "i \<in> node_ids ns" using inv assms(2) by (auto simp: inv_queue_def)
  show deps: "set (deps_of ns i) \<subseteq> succeeded s" using inv_deg_deps[OF _ ids] inv assms(2) by auto
  have "st s i \<noteq> StatusSkipped"
  proof
    assume "st s i = StatusSkipped"
    then obtain d where "d \<in> set (deps_of ns i)" "st s d \<in> blocked"
      using inv_statusD(4)[OF _ ids assms(3)] inv by blast
    then show False using deps by (auto simp: succeeded_def blocked_def)
  qed
  then show "st s i = StatusPending" using inv_statusD(2)[OF _ ids assms(3)] inv by blast
qed

lemma started_pending:
  assumes "exec_inv ns s" "i \<in> set (x_started s)" "i \<notin> set (x_received s)"
  shows "i \<in> node_ids ns" "st s i = StatusPending" "set (deps_of ns i) \<subseteq> succeeded s"
  using released_pending[OF assms(1) _ assms(3)] assms(2) by simp_all

lemma in_flight:
  assumes "inv_queue ns s" "i \<in> set (x_busy s) \<or> i \<in> wr_nodeID ` set (x_results s)"
  shows "i \<in> set (x_started s) \<and> i \<notin> set (x_received s)"
proof -
  let ?fl = "mset (x_busy s) + mset (map wr_nodeID (x_results s))"
  have q: "mset (x_started s) = ?fl + mset (x_received s)" "distinct (x_started s)"
    using assms(1) by (simp_all add: inv_queue_def)
  have fl: "i \<in># ?fl" using assms(2) by auto
  then have m: "i \<in># mset (x_started s)" unfolding q(1) by simp
  then have "count (mset (x_started s)) i = 1" using q(2) by (simp add: distinct_count_atmost_1)
  then have "count ?fl i + count (mset (x_received s)) i = 1" unfolding q(1) by simp
  moreover have "0 < count ?fl i" using fl by (simp only: count_greater_zero_iff)
  ultimately have "count (mset (x_received s)) i = 0" by linarith
  then have "i \<notin># mset (x_received s)" by (simp only: not_in_iff)
  then show ?thesis using m by simp
qed

lemma result_waiting:
  assumes "exec_inv ns s" "x_results s = r # rs"
  shows "wr_nodeID r \<in> set (x_started s)" "wr_nodeID r \<notin> set (x_received s)" "wr_status r \<in> finished"
  using in_flight[of ns s "wr_nodeID r"] assms by (auto simp: exec_inv_def inv_queue_def)

section \<open>Receiving a result\<close>

lemma save_checkpoint_ok: "save_checkpoint e io (Some c) fs = (ckpt, fs') \<Longrightarrow> ck_NodeStates c \<noteq> None \<Longrightarrow> ckpt_ok ckpt"
proof -
  assume "save_checkpoint e io (Some c) fs = (ckpt, fs')" "ck_NodeStates c \<noteq> None"
  moreover obtain er c' fs'' where sv: "Save (the (ex_persister e)) io (eo_ClusterName (ex_opts e)) (eo_PipelineName (ex_opts e)) (Some c) fs
      = (er, c', fs'')" by (metis prod_cases3)
  ultimately show ?thesis using Save_cases[OF sv, THEN conjunct1] by (auto simp: save_checkpoint_def ckpt_ok_def)
qed

lemma handle_result_eq:
  fixes e :: dagExecutor and io :: io_env and s :: exec_state and r :: workerResult
  assumes nr: "gm_get (x_res s) (wr_nodeID r) = Some nr0" "nr_Status nr0 = StatusPending" and ck: "ckpt_ok (x_ckpt s)"
  defines "s' \<equiv> handle_result e io r s"
    and "res \<equiv> gm_put (wr_nodeID r) (store_result (io_now io) r nr0) (x_res s)"
    and "succ \<equiv> gm_getd [] (x_adj s) (wr_nodeID r)"
  shows "x_received s' = x_received s @ [wr_nodeID r]" "x_adj s' = x_adj s" "x_busy s' = x_busy s"
    "x_results s' = x_results s" "x_started s' = x_started s" "x_phase s' = x_phase s" "ckpt_ok (x_ckpt s')"
    "wr_status r \<in> blocked \<Longrightarrow> x_deg s' = x_deg s \<and> x_tasks s' = x_tasks s \<and>
       skip_loop (io_now io) (wr_nodeID r) (x_adj s) succ res (Suc (x_count s)) = (x_res s', x_count s')"
    "wr_status r \<notin> blocked \<Longrightarrow> relax succ (x_deg s) (x_tasks s) = (x_deg s', x_tasks s') \<and>
       x_res s' = res \<and> x_count s' = Suc (x_count s)"
proof -
  let ?nr = "store_result (io_now io) r nr0" and ?s = "s\<lparr>x_received := x_received s @ [wr_nodeID r]\<rparr>"
  obtain ckpt fs where saved: "ckpt_ok ckpt" "checkpoint_node e io ?nr r ?s = Some (ckpt, fs)"
  proof (cases "x_ckpt s")
    case None
    then show ?thesis by (intro that[of None "x_fs s"]) (simp_all add: ckpt_ok_def checkpoint_node_def)
  next
    case (Some c)
    then obtain m where "ck_NodeStates c = Some m" using ck by (auto simp: ckpt_ok_def)
    then obtain c' where c': "saveNodeState (io_now io) (wr_nodeID r) ?nr (wr_hostResults r) (wr_output r) c = Some c'"
      "ck_NodeStates c' \<noteq> None" by (simp add: saveNodeState_def Let_def)
    obtain ckpt fs where "save_checkpoint e io (Some c') (x_fs s) = (ckpt, fs)" by fastforce
    then show ?thesis using that[of ckpt fs] save_checkpoint_ok c' Some by (simp add: checkpoint_node_def)
  qed
  define s1 where "s1 = ?s\<lparr>x_res := res, x_count := Suc (x_count s), x_bags := merge_output (wr_output r) (x_bags s),
      x_ckpt := ckpt, x_fs := fs\<rparr>"
  have s': "s' = propagate (io_now io) (wr_nodeID r) (wr_status r) s1"
    using saved(2) nr by (simp add: s'_def handle_result_def s1_def res_def Let_def) (simp add: store_result_def)
  have s1: "x_received s1 = x_received s @ [wr_nodeID r]" "x_adj s1 = x_adj s" "x_busy s1 = x_busy s"
    "x_results s1 = x_results s" "x_started s1 = x_started s" "x_phase s1 = x_phase s" "x_ckpt s1 = ckpt"
    "x_res s1 = res" "x_count s1 = Suc (x_count s)" "x_deg s1 = x_deg s" "x_tasks s1 = x_tasks s"
    by (simp_all add: s1_def)
  show "x_received s' = x_received s @ [wr_nodeID r]" "x_adj s' = x_adj s" "x_busy s' = x_busy s"
    "x_results s' = x_results s" "x_started s' = x_started s" "x_phase s' = x_phase s" "ckpt_ok (x_ckpt s')"
    using saved(1) by (simp_all add: s' propagate_def s1 split: prod.split)
  show "wr_status r \<in> blocked \<Longrightarrow> x_deg s' = x_deg s \<and> x_tasks s' = x_tasks s \<and>
       skip_loop (io_now io) (wr_nodeID r) (x_adj s) succ res (Suc (x_count s)) = (x_res s', x_count s')"
    by (auto simp: s' propagate_def s1 blocked_def succ_def split: prod.split)
  show "wr_status r \<notin> blocked \<Longrightarrow> relax succ (x_deg s) (x_tasks s) = (x_deg s', x_tasks s') \<and>
       x_res s' = res \<and> x_count s' = Suc (x_count s)"
    by (auto simp: s' propagate_def s1 blocked_def succ_def split: prod.split)
qed

text \<open>The two ways a result changes the picture, on the bare components.\<close>

lemma receive_blocked:
  assumes inv: "exec_inv ns s" and r: "x_results s = r # rs" and b: "wr_status r \<in> blocked"
    and eq: "x_received s' = x_received s @ [wr_nodeID r]" "x_started s' = x_started s" "x_tasks s' = x_tasks s" "x_deg s' = x_deg s"
    and res: "gm_get (x_res s) (wr_nodeID r) = Some nr0" "nr_Status nr = wr_status r"
    and adj: "adj_ok ns adj"
    and skip: "skip_loop now (wr_nodeID r) adj (gm_getd [] adj (wr_nodeID r)) (gm_put (wr_nodeID r) nr (x_res s)) c = (x_res s', c')"
  shows "inv_deg ns s' \<and> inv_status ns s'"
proof -
  let ?i = "wr_nodeID r" and ?res1 = "gm_put (wr_nodeID r) nr (x_res s)"
  note w = result_waiting[OF inv r]
  note p = started_pending[OF inv w(1,2)]
  have ideg: "inv_deg ns s" and ist: "inv_status ns s" and iq: "inv_queue ns s"
    and has: "\<And>k. gm_has (x_res s) k \<longleftrightarrow> k \<in> node_ids ns"
    using inv by (simp_all add: exec_inv_def inv_shape_def)
  have has1: "gm_has ?res1 k \<longleftrightarrow> k \<in> node_ids ns" for k using has p(1) by auto
  have st1: "status_of ?res1 k = (if k = ?i then wr_status r else st s k)" for k by (simp add: st_def res(2))
  have frame: "st s' k = status_of ?res1 k \<or> skipped_by ?res1 (x_res s') k" for k
    using skip_loop_frame[OF skip] by (simp add: st_def)
  have sk: "skipped_by ?res1 (x_res s') k \<Longrightarrow> k \<noteq> ?i \<and> st s k = StatusPending \<and> st s' k = StatusSkipped" for k
    using b st1[of k] by (auto simp: skipped_by_def st_def blocked_def split: if_splits)
  have keep: "st s k \<noteq> StatusPending \<Longrightarrow> st s' k = st s k" for k
    using frame[of k] sk[of k] st1[of k] p(2) by (cases "k = ?i") auto
  have sti: "st s' ?i = wr_status r" using frame[of ?i] sk[of ?i] st1[of ?i] by auto
  have change: "st s' k = st s k \<or> st s' k = StatusSkipped" if "k \<noteq> ?i" for k
    using frame[of k] sk[of k] st1[of k] that by auto
  have rec: "st s' k = st s k" if "k \<in> set (x_received s)" for k
    using inv_statusD(1)[OF ist that] keep[of k] by (auto simp: finished_def)
  have succ: "succeeded s' = succeeded s"
    using rec sti b w(2) by (auto simp: succeeded_def eq(1) blocked_def)
  have ideg': "inv_deg ns s'" using ideg unfolding inv_deg_def eq(2-4) succ .
  have no_rec: "j \<notin> set (x_received s')" if "j \<in> node_ids ns" "d \<in> set (deps_of ns j)" "st s' d \<in> blocked" for j d
  proof -
    have "d \<notin> succeeded s'" using that(3) by (auto simp: succeeded_def blocked_def)
    then have "j \<notin> set (x_started s')" using inv_deg_deps[OF ideg' that(1)] that(2) by auto
    then show ?thesis using inv_received_started[OF iq] w(1) eq(1,2) by auto
  qed
  have pend: "st s' j = StatusPending \<or> st s' j = StatusSkipped" if "j \<in> node_ids ns" "j \<notin> set (x_received s')" for j
    using inv_statusD(2)[OF ist that(1)] that(2) change[of j] eq(1) by auto
  have closed: "st s' j = StatusSkipped" if j: "j \<in> node_ids ns" "d \<in> set (deps_of ns j)" "st s' d \<in> blocked" for j d
  proof (rule ccontr)
    assume "st s' j \<noteq> StatusSkipped"
    then have pj: "st s' j = StatusPending" using pend[OF j(1) no_rec[OF j]] by blast
    have dj: "j \<in> set (gm_getd [] adj d)" using adj_mem[OF adj] j by blast
    have "gm_has ?res1 j" using has1 j(1) by blast
    then have "d \<noteq> ?i" "\<not> skipped_by ?res1 (x_res s') d"
      using skip_loop_reach[OF skip] dj pj unfolding st_def by blast+
    then have "st s d \<in> blocked" using frame[of d] st1[of d] j(3) by auto
    then have "st s j = StatusSkipped" by (rule inv_statusD(3)[OF ist j(1,2)])
    then show False using keep[of j] pj by auto
  qed
  have cause: "\<exists>d \<in> set (deps_of ns k). st s' d \<in> blocked"
    if k: "k \<in> node_ids ns" "k \<notin> set (x_received s')" "st s' k = StatusSkipped" for k
  proof (cases "skipped_by ?res1 (x_res s') k")
    case True
    then consider "k \<in> set (gm_getd [] adj ?i)" | u where "k \<in> set (gm_getd [] adj u)" "skipped_by ?res1 (x_res s') u"
      using skip_loop_reach[OF skip] by blast
    then show ?thesis
    proof cases
      case 1
      then have "?i \<in> set (deps_of ns k)" using adj_mem[OF adj] by blast
      then show ?thesis using sti b by (intro bexI[of _ ?i]) simp_all
    next
      case 2
      then have "u \<in> set (deps_of ns k)" "st s' u = StatusSkipped" using adj_mem[OF adj] sk by blast+
      then show ?thesis by (auto simp: blocked_def)
    qed
  next
    case False
    then have "st s k = StatusSkipped" using frame[of k] st1[of k] k(2,3) eq(1) by auto
    then obtain d where "d \<in> set (deps_of ns k)" "st s d \<in> blocked"
      using inv_statusD(4)[OF ist k(1)] k(2) eq(1) by auto
    then show ?thesis using keep[of d] by (auto simp: blocked_def)
  qed
  have "\<forall>k \<in> set (x_received s'). st s' k \<in> finished"
    using rec inv_statusD(1)[OF ist] sti w(3) eq(1) by auto
  then have "inv_status ns s'" unfolding inv_status_def using pend closed cause by blast
  with ideg' show ?thesis ..
qed

lemma receive_success:
  assumes inv: "exec_inv ns s" and r: "x_results s = r # rs" and ok: "wr_status r = StatusSuccess"
    and eq: "x_received s' = x_received s @ [wr_nodeID r]" "x_started s' = x_started s"
    and res: "x_res s' = gm_put (wr_nodeID r) nr (x_res s)" "nr_Status nr = wr_status r"
    and adj: "adj_ok ns adj" and relax: "relax (gm_getd [] adj (wr_nodeID r)) (x_deg s) (x_tasks s) = (x_deg s', x_tasks s')"
  shows "inv_deg ns s' \<and> inv_status ns s' \<and> distinct (x_tasks s' @ x_started s')
    \<and> set (x_tasks s' @ x_started s') \<subseteq> node_ids ns"
proof -
  let ?i = "wr_nodeID r" let ?vs = "gm_getd [] adj ?i"
  let ?open = "\<lambda>A v. int (length (filter (\<lambda>d. d \<notin> A) (deps_of ns v)))"
  note w = result_waiting[OF inv r]
  note p = started_pending[OF inv w(1,2)]
  have ideg: "inv_deg ns s" and ist: "inv_status ns s" and iq: "inv_queue ns s"
    using inv by (simp_all add: exec_inv_def)
  have st': "st s' k = (if k = ?i then StatusSuccess else st s k)" for k by (simp add: st_def res ok)
  have succ: "succeeded s' = insert ?i (succeeded s)" using w(2) by (auto simp: succeeded_def eq(1) st')
  have new: "?i \<notin> succeeded s" using w(2) by (simp add: succeeded_def)
  have deg: "gm_getd 0 (x_deg s) v = (if v \<in> node_ids ns then ?open (succeeded s) v else 0)" for v
    by (rule inv_deg_get[OF ideg])
  have cnt: "count_list ?vs v = (if v \<in> node_ids ns then count_list (deps_of ns v) ?i else 0)" for v
    using adj by (simp add: adj_ok_def)
  have split: "?open (insert ?i (succeeded s)) v + int (count_list (deps_of ns v) ?i) = ?open (succeeded s) v" for v
    using length_filter_remove[OF new, of "deps_of ns v"] by linarith
  have le: "\<forall>v. int (count_list ?vs v) \<le> gm_getd 0 (x_deg s) v"
  proof
    fix v
    show "int (count_list ?vs v) \<le> gm_getd 0 (x_deg s) v"
      using deg[of v] cnt[of v] split[of v] by (cases "v \<in> node_ids ns") simp_all
  qed
  from relax_spec[OF le, of "x_tasks s"] relax obtain ps where ps: "x_tasks s' = x_tasks s @ ps" "distinct ps"
    "set ps = {v \<in> set ?vs. gm_getd 0 (x_deg s) v = int (count_list ?vs v)}"
    "\<forall>v. gm_getd 0 (x_deg s') v = gm_getd 0 (x_deg s) v - int (count_list ?vs v)" by auto
  have deg': "gm_getd 0 (x_deg s') v = (if v \<in> node_ids ns then ?open (succeeded s') v else 0)" for v
    unfolding succ using ps(4) deg[of v] cnt[of v] split[of v] by auto
  have vs: "v \<in> set ?vs \<longleftrightarrow> v \<in> node_ids ns \<and> ?i \<in> set (deps_of ns v)" for v by (rule adj_mem[OF adj])
  have mem: "v \<in> set ?vs \<longleftrightarrow> count_list ?vs v \<noteq> 0" for v by (simp add: count_list_0_iff)
  have zero: "v \<in> set (x_tasks s' @ x_started s') \<longleftrightarrow> gm_getd 0 (x_deg s') v = 0" if v: "v \<in> node_ids ns" for v
  proof -
    have "gm_getd 0 (x_deg s') v = 0 \<longleftrightarrow> gm_getd 0 (x_deg s) v = int (count_list ?vs v)" using ps(4) by auto
    also have "\<dots> \<longleftrightarrow> gm_getd 0 (x_deg s) v = 0 \<or> v \<in> set ps"
      using ps(3) mem[of v] le by (auto dest: spec[of _ v])
    finally show ?thesis using inv_deg_released[OF ideg v] ps(1) eq(2) by auto
  qed
  have fresh: "v \<notin> set (x_tasks s @ x_started s)" if "v \<in> set ps" for v
  proof -
    have "v \<in> node_ids ns" "?i \<in> set (deps_of ns v)" using that ps(3) vs by auto
    then show ?thesis using inv_deg_deps[OF ideg] new by blast
  qed
  have dist: "distinct (x_tasks s' @ x_started s')"
    using iq ps(1,2) fresh eq(2) by (auto simp: inv_queue_def)
  have sub: "set (x_tasks s' @ x_started s') \<subseteq> node_ids ns"
    using iq ps(1,3) vs eq(2) by (auto simp: inv_queue_def)
  have "inv_deg ns s'" unfolding inv_deg_def using deg' zero by blast
  moreover have "inv_status ns s'"
    unfolding inv_status_def
  proof (intro conjI ballI impI)
    fix k assume "k \<in> set (x_received s')"
    then show "st s' k \<in> finished" using inv_statusD(1)[OF ist] by (auto simp: st' eq(1) finished_def)
  next
    fix k assume "k \<in> node_ids ns" "k \<notin> set (x_received s')"
    then show "st s' k \<in> {StatusPending, StatusSkipped}" using inv_statusD(2)[OF ist] by (auto simp: st' eq(1))
  next
    fix j d assume "j \<in> node_ids ns" "d \<in> set (deps_of ns j)" "st s' d \<in> blocked"
    then have "st s j = StatusSkipped" using inv_statusD(3)[OF ist] by (auto simp: st' blocked_def split: if_splits)
    then show "st s' j = StatusSkipped" using p(2) by (auto simp: st')
  next
    fix k assume "k \<in> node_ids ns" "k \<notin> set (x_received s')" "st s' k = StatusSkipped"
    then obtain d where "d \<in> set (deps_of ns k)" "st s d \<in> blocked"
      using inv_statusD(4)[OF ist] by (auto simp: st' eq(1))
    then show "\<exists>d \<in> set (deps_of ns k). st s' d \<in> blocked"
      using p(2) by (intro bexI[of _ d]) (auto simp: st' blocked_def)
  qed
  ultimately show ?thesis using dist sub by blast
qed

lemma receive_inv:
  assumes inv: "exec_inv ns s" and r: "x_results s = r # rs"
  shows "exec_inv ns (handle_result e io r (s\<lparr>x_results := rs\<rparr>))" (is "exec_inv ns ?s'")
    and "x_phase (handle_result e io r (s\<lparr>x_results := rs\<rparr>)) = x_phase s"
    and "x_received (handle_result e io r (s\<lparr>x_results := rs\<rparr>)) = x_received s @ [wr_nodeID r]"
    and "x_started (handle_result e io r (s\<lparr>x_results := rs\<rparr>)) = x_started s"
    and "x_busy (handle_result e io r (s\<lparr>x_results := rs\<rparr>)) = x_busy s"
    and "x_results (handle_result e io r (s\<lparr>x_results := rs\<rparr>)) = rs"
    and "st (handle_result e io r (s\<lparr>x_results := rs\<rparr>)) (wr_nodeID r) = wr_status r"
    and "\<forall>k. st s k \<noteq> StatusPending \<longrightarrow> st (handle_result e io r (s\<lparr>x_results := rs\<rparr>)) k = st s k"
proof -
  let ?i = "wr_nodeID r" and ?t = "s\<lparr>x_results := rs\<rparr>"
  note w = result_waiting[OF inv r]
  note p = started_pending[OF inv w(1,2)]
  have sh: "inv_shape ns s" and iq: "inv_queue ns s" and ist: "inv_status ns s" using inv by (simp_all add: exec_inv_def)
  obtain nr0 where nr0: "gm_get (x_res s) ?i = Some nr0" "nr_Status nr0 = StatusPending"
  proof -
    have "gm_has (x_res s) ?i" using sh p(1) by (simp add: inv_shape_def)
    then show ?thesis using that p(2) by (auto simp: st_def status_of_def elim!: gm_hasE)
  qed
  let ?nr = "store_result (io_now io) r nr0" let ?res1 = "gm_put ?i ?nr (x_res s)"
  have nr: "nr_Status ?nr = wr_status r" by (simp add: store_result_def)
  have adj: "adj_ok ns (x_adj s)" and ck: "ckpt_ok (x_ckpt s)" and ok: "gm_ok (x_res s)"
    and has: "\<And>k. gm_has (x_res s) k \<longleftrightarrow> k \<in> node_ids ns" and cnt: "x_count s + pending (x_res s) = length ns"
    using sh by (simp_all add: inv_shape_def)
  note h = handle_result_eq[of ?t r nr0 e io, simplified, OF nr0 ck]
  show "x_phase ?s' = x_phase s" "x_received ?s' = x_received s @ [wr_nodeID r]" "x_started ?s' = x_started s"
    "x_busy ?s' = x_busy s" "x_results ?s' = rs"
    using h(1-6) by simp_all
  have fin: "nr_Status ?nr \<noteq> StatusPending" using w(3) by (auto simp: nr finished_def)
  have pend: "Suc (pending ?res1) = pending (x_res s)"
    using pending_put[OF nr0(1) fin] nr0(2) by simp
  have st1: "status_of ?res1 k = (if k = ?i then wr_status r else st s k)" for k by (simp add: st_def nr)
  have shape: "gm_ok (x_res ?s') \<and> gm_has (x_res ?s') = gm_has ?res1 \<and> x_count ?s' + pending (x_res ?s') = Suc (x_count s) + pending ?res1
    \<and> (\<forall>k. st ?s' k = status_of ?res1 k \<or> skipped_by ?res1 (x_res ?s') k)"
  proof (cases "wr_status r \<in> blocked")
    case True
    from skip_loop_frame[OF h(8)[OF True, THEN conjunct2, THEN conjunct2]] show ?thesis
      using gm_ok_put[OF ok] by (simp add: st_def)
  next
    case False
    from h(9)[OF False] show ?thesis using gm_ok_put[OF ok] by (simp add: st_def)
  qed
  have "gm_has (x_res ?s') k \<longleftrightarrow> k \<in> node_ids ns" for k using shape has p(1) by auto
  then have sh': "inv_shape ns ?s'"
    using shape adj h(2,7) pend cnt by (simp add: inv_shape_def)
  have deg_st: "inv_deg ns ?s' \<and> inv_status ns ?s' \<and> distinct (x_tasks ?s' @ x_started ?s')
      \<and> set (x_tasks ?s' @ x_started ?s') \<subseteq> node_ids ns"
  proof (cases "wr_status r \<in> blocked")
    case True
    then have "inv_deg ns ?s' \<and> inv_status ns ?s'"
      using receive_blocked[OF inv r True, of ?s' nr0 ?nr "x_adj s" "io_now io" "Suc (x_count s)" "x_count ?s'"]
        h nr0 nr adj by simp
    then show ?thesis using h(5,8) True iq by (simp add: inv_queue_def)
  next
    case False
    then have "wr_status r = StatusSuccess" using w(3) by (auto simp: finished_def blocked_def)
    then show ?thesis using receive_success[OF inv r, of ?s' ?nr "x_adj s"] h(1,5,9) False nr adj by simp
  qed
  have "inv_queue ns ?s'"
    using deg_st iq h(1,3,4,5) r by (simp add: inv_queue_def)
  then show "exec_inv ns ?s'" using sh' deg_st by (simp add: exec_inv_def)
  show "st ?s' ?i = wr_status r" using shape st1[of ?i] w(3) by (auto simp: skipped_by_def finished_def dest: spec[of _ ?i])
  show "\<forall>k. st s k \<noteq> StatusPending \<longrightarrow> st ?s' k = st s k"
    using shape st1 p(2) by (metis skipped_by_def)
qed

section \<open>The start of a fresh execution\<close>

text \<open>A fresh execution: the graph passed \<^verbatim>\<open>Validate\<close>, no checkpoint was loaded, every node can run.\<close>

definition fresh_run :: "(goval \<Rightarrow> goval) \<Rightarrow> dagExecutor \<Rightarrow> io_env \<Rightarrow> ExecutionGraph \<Rightarrow> file_system \<Rightarrow> bool" where
  "fresh_run anyv e io g fs \<longleftrightarrow> gm_ok (eg_Nodes g) \<and> Validate g = None \<and> load_checkpoint anyv e io fs = None \<and>
     0 < ex_maxWorkers e \<and> 0 \<le> rc_maxRetries (ex_retry e) \<and>
     list_all (\<lambda>(i, n). case n of None \<Rightarrow> False | Some n \<Rightarrow> node_runnable n) (eg_Nodes g)"

lemma fresh_runD:
  assumes "fresh_run anyv e io g fs"
  shows "gm_ok (eg_Nodes g)" "no_nil_nodes (eg_Nodes g)" "deps_closed (eg_Nodes g)" "acyclic (dep_rel (eg_Nodes g))"
    "load_checkpoint anyv e io fs = None" "0 < ex_maxWorkers e" "0 \<le> rc_maxRetries (ex_retry e)"
    "gm_get (eg_Nodes g) i = Some (Some n) \<Longrightarrow> node_runnable n"
  using assms Validate_None_iff[of g]
  by (auto simp: fresh_run_def valid_plan_def list_all_iff dest!: gm_get_in_set split: option.splits)

lemma fresh_ckpt:
  assumes "load_checkpoint anyv e io fs = None"
    and "save_checkpoint e io (if checkpointing e then Some (fresh_checkpoint e nm) else None) fs = (ckpt, fs')"
  shows "ckpt_ok ckpt \<and> already_done ckpt = []"
proof (cases "checkpointing e")
  case True
  obtain er c' fs'' where sv: "Save (the (ex_persister e)) io (eo_ClusterName (ex_opts e)) (eo_PipelineName (ex_opts e))
      (Some (fresh_checkpoint e nm)) fs = (er, c', fs'')" by (metis prod_cases3)
  from Save_cases[OF sv, THEN conjunct1] show ?thesis
    using True sv assms(2) by (auto simp: save_checkpoint_def ckpt_ok_def already_done_def fresh_checkpoint_def)
next
  case False
  with assms(2) show ?thesis by (simp add: save_checkpoint_def ckpt_ok_def already_done_def)
qed

lemma exec_init_fields:
  fixes bags :: state_bags
  assumes "load_checkpoint anyv e io fs = None" "build_tables (eg_Nodes g) ([], []) = (deg, adj)"
  defines "s \<equiv> exec_init anyv e io g bags fs"
  shows "x_deg s = deg" "x_adj s = adj" "x_res s = init_results (io_now io) None (eg_Nodes g) []"
    "x_tasks s = map fst (filter (\<lambda>(i, k). k = 0) deg)" "x_busy s = []" "x_results s = []" "x_count s = 0"
    "ckpt_ok (x_ckpt s)" "x_phase s = PRunning" "x_started s = []" "x_received s = []"
proof -
  obtain ckpt fs' where sv: "save_checkpoint e io (if checkpointing e then Some (fresh_checkpoint e (eg_Name g)) else None) fs = (ckpt, fs')"
    by fastforce
  note ck = fresh_ckpt[OF assms(1) sv]
  have "s = \<lparr>x_deg = deg, x_adj = adj, x_res = init_results (io_now io) None (eg_Nodes g) [],
      x_tasks = map fst (filter (\<lambda>(i, k). k = 0) deg), x_busy = [], x_results = [], x_count = 0, x_ckpt = ckpt,
      x_fs = fs', x_bags = bags, x_phase = PRunning, x_result = NewGraphExecutionResult (io_now io) (eg_Name g),
      x_started = [], x_received = []\<rparr>"
    using sv ck by (simp add: s_def exec_init_def assms(1,2) Let_def)
  then show "x_deg s = deg" "x_adj s = adj" "x_res s = init_results (io_now io) None (eg_Nodes g) []"
    "x_tasks s = map fst (filter (\<lambda>(i, k). k = 0) deg)" "x_busy s = []" "x_results s = []" "x_count s = 0"
    "ckpt_ok (x_ckpt s)" "x_phase s = PRunning" "x_started s = []" "x_received s = []"
    using ck by simp_all
qed

lemma exec_init_inv:
  assumes "fresh_run anyv e io g fs"
  shows "exec_inv (eg_Nodes g) (exec_init anyv e io g bags fs)" (is "exec_inv ?ns ?s")
proof -
  note f = fresh_runD[OF assms]
  obtain deg adj where tb: "build_tables ?ns ([], []) = (deg, adj)" by fastforce
  note x = exec_init_fields[OF f(5) tb, of bags]
  note t = build_tables_start[OF f(1,2) tb]
  have init: "gm_get (x_res ?s) i = (if i \<in> node_ids ?ns then Some (case gm_getd None ?ns i of None \<Rightarrow> NewNodeResult (io_now io) [] []
      | Some n \<Rightarrow> NewNodeResult (io_now io) (nd_Name n) (nd_StepName n)) else None)" "gm_ok (x_res ?s)" for i
    using init_results_fresh[OF f(1), of "io_now io" "[]" i] by (simp_all add: x)
  have stp: "st ?s i = StatusPending" for i
    by (simp add: st_def status_of_def init(1) NewNodeResult_def split: option.splits)
  have has: "gm_has (x_res ?s) i \<longleftrightarrow> i \<in> node_ids ?ns" for i by (simp add: gm_has_def init(1))
  have "node_ids ?ns = set (gm_keys (x_res ?s))" using has by (auto simp: gm_has_iff)
  then have "length (x_res ?s) = length ?ns"
    using card_node_ids[OF f(1)] init(2) by (metis distinct_card gm_ok_def length_map)
  moreover have "pending (x_res ?s) = length (x_res ?s)"
    using stp by (intro pending_all[OF init(2)]) (simp add: st_def)
  ultimately have "inv_shape ?ns ?s" using init(2) has t(1) x(2,7,8) by (simp add: inv_shape_def)
  moreover have dist: "distinct (x_tasks ?s)"
    using t(2) unfolding x(4) gm_ok_def by (rule distinct_map_filter)
  moreover have mem: "v \<in> set (x_tasks ?s) \<longleftrightarrow> gm_get deg v = Some 0" for v
    unfolding x(4) using gm_in_set_get[OF t(2), of v 0] gm_get_in_set[of deg v 0] by force
  then have tasks: "v \<in> set (x_tasks ?s) \<longleftrightarrow> v \<in> node_ids ?ns \<and> deps_of ?ns v = []" for v using t(3) by simp
  then have "inv_queue ?ns ?s" using dist by (auto simp: inv_queue_def x(5,6,10,11))
  moreover have "gm_getd 0 deg v = (if v \<in> node_ids ?ns then int (length (deps_of ?ns v)) else 0)" for v
    using t(3) by (simp add: gm_getd_def)
  then have "inv_deg ?ns ?s" using tasks by (simp add: inv_deg_def x(1,10,11) succeeded_def)
  moreover have "inv_status ?ns ?s" by (simp add: inv_status_def stp x(11) blocked_def)
  ultimately show ?thesis by (simp add: exec_inv_def)
qed

section \<open>Every step keeps the invariant\<close>

lemma run_hosts_total:
  assumes "node_runnable node" "0 \<le> rc_maxRetries rc" "\<forall>(k, e) \<in> set dn. k < length (host_names node)"
  shows "run_hosts rc node dn hrs err \<noteq> None"
  using assms(3)
proof (induction dn arbitrary: hrs err)
  case (Cons p dn)
  obtain k env where p: "p = (k, env)" by fastforce
  obtain s m where s: "nd_Step node = Some s" "stp_Meta s = Some m"
    using assms(1) by (auto simp: node_runnable_def split: option.splits)
  obtain hs h where h: "nd_Hosts node = Some hs" "k < length hs" "hs ! k = Some h"
    using assms(1) Cons.prems by (cases "nd_Hosts node") (auto simp: p host_names_def node_runnable_def list_all_length)
  obtain hr calls where "runStepOnHost rc env (h_Name h) s = Some (hr, calls)"
    using runStepOnHost_precheck[OF s(2)] runStepOnHost_runs[OF s(2) _ assms(2)] by (metis surj_pair)
  then show ?case using Cons s h by (simp add: p)
qed simp

lemma runNode_total:
  assumes "node_runnable node" "0 \<le> rc_maxRetries rc" "node_env_ok node env"
  shows "runNode rc env i node \<noteq> None"
proof -
  have "\<forall>(k, e) \<in> set (ne_done env). k < length (host_names node)" using assms(3) by (force simp: node_env_ok_def)
  from run_hosts_total[OF assms(1,2) this, of "[]" None] show ?thesis
    by (auto simp: runNode_def split: prod.splits bool.splits option.splits)
qed

lemma runNode_result:
  assumes "runNode rc env i node = Some r"
  shows "wr_nodeID r = i \<and> wr_status r \<in> finished"
proof -
  have "nr_Status (AggregateStatus nr) \<in> finished" for nr by (simp add: AggregateStatus_status finished_def)
  then show ?thesis using assms by (auto simp: runNode_def split: prod.splits bool.splits option.splits) (auto simp: finished_def)
qed

lemma exec_inv_take:
  assumes "exec_inv ns s" "x_tasks s = i # ts"
  shows "exec_inv ns (s\<lparr>x_tasks := ts, x_busy := x_busy s @ [i], x_started := x_started s @ [i]\<rparr>)"
proof -
  let ?s = "s\<lparr>x_tasks := ts, x_busy := x_busy s @ [i], x_started := x_started s @ [i]\<rparr>"
  have eq: "st ?s = st s" "succeeded ?s = succeeded s" by (auto simp: st_def succeeded_def fun_eq_iff)
  have "inv_queue ns ?s" using assms by (auto simp: exec_inv_def inv_queue_def)
  moreover have "set (x_tasks ?s @ x_started ?s) = set (x_tasks s @ x_started s)" using assms(2) by auto
  then have "inv_deg ns ?s" using assms(1) unfolding exec_inv_def inv_deg_def eq by auto
  moreover have "inv_shape ns ?s" "inv_status ns ?s"
    using assms(1) unfolding exec_inv_def inv_shape_def inv_status_def eq by simp_all
  ultimately show ?thesis by (simp add: exec_inv_def)
qed

lemma exec_inv_finish:
  assumes "exec_inv ns s" "wr_nodeID r \<in> set (x_busy s)" "wr_status r \<in> finished"
  shows "exec_inv ns (s\<lparr>x_busy := remove1 (wr_nodeID r) (x_busy s), x_results := x_results s @ [r]\<rparr>)"
proof -
  let ?s = "s\<lparr>x_busy := remove1 (wr_nodeID r) (x_busy s), x_results := x_results s @ [r]\<rparr>"
  have eq: "st ?s = st s" "succeeded ?s = succeeded s" by (auto simp: st_def succeeded_def fun_eq_iff)
  have "mset (x_busy s) = mset (remove1 (wr_nodeID r) (x_busy s)) + {#wr_nodeID r#}" using assms(2) by simp
  then have "inv_queue ns ?s" using assms(1,3) by (auto simp: exec_inv_def inv_queue_def)
  moreover have "inv_shape ns ?s" "inv_status ns ?s" "inv_deg ns ?s"
    using assms(1) unfolding exec_inv_def inv_shape_def inv_status_def inv_deg_def eq by simp_all
  ultimately show ?thesis by (simp add: exec_inv_def)
qed

lemma exec_inv_cong:
  assumes "exec_inv ns s" "x_deg s' = x_deg s" "x_adj s' = x_adj s" "x_res s' = x_res s" "x_tasks s' = x_tasks s"
    "x_busy s' = x_busy s" "x_results s' = x_results s" "x_count s' = x_count s" "ckpt_ok (x_ckpt s')"
    "x_started s' = x_started s" "x_received s' = x_received s"
  shows "exec_inv ns s'"
proof -
  have eq: "st s' = st s" "succeeded s' = succeeded s" using assms by (auto simp: st_def succeeded_def fun_eq_iff)
  show ?thesis
    using assms(1) unfolding exec_inv_def inv_shape_def inv_queue_def inv_deg_def inv_status_def eq assms(2-8,10,11)
    by (simp add: assms(9))
qed

text \<open>Once everything is processed, the channels are empty and the workers idle.\<close>

lemma processed_idle:
  assumes inv: "exec_inv ns s" and cnt: "length ns \<le> x_count s"
  shows "x_tasks s = [] \<and> x_busy s = [] \<and> x_results s = []"
proof -
  have "pending (x_res s) = 0" "gm_ok (x_res s)" "\<And>k. gm_has (x_res s) k \<longleftrightarrow> k \<in> node_ids ns"
    using inv cnt by (auto simp: exec_inv_def inv_shape_def)
  then have none: "i \<in> node_ids ns \<Longrightarrow> st s i \<noteq> StatusPending" for i
    using pending_zero[of "x_res s" i] by (simp add: st_def)
  have sub: "set (x_tasks s @ x_started s) \<subseteq> set (x_received s)"
    using released_pending[OF inv] none by blast
  have iq: "inv_queue ns s" using inv by (simp add: exec_inv_def)
  have "x_tasks s = []"
    using sub inv_received_started[OF iq] iq by (cases "x_tasks s") (auto simp: inv_queue_def)
  moreover have "x_busy s = []"
    using in_flight[OF iq] sub by (cases "x_busy s") auto
  moreover have "x_results s = []"
    using in_flight[OF iq] sub by (cases "x_results s") auto
  ultimately show ?thesis by blast
qed

section \<open>Runs\<close>

lemma node_present:
  assumes "no_nil_nodes ns" "i \<in> node_ids ns"
  shows "\<exists>n. gm_get ns i = Some (Some n)"
proof -
  have "gm_has ns i" using assms(2) by (simp add: gm_has_node_ids)
  then obtain x where x: "gm_get ns i = Some x" by (rule gm_hasE)
  then show ?thesis using assms(1) gm_get_in_set[OF x] by (auto simp: no_nil_nodes_def)
qed

lemma no_worker_drop:
  assumes "exec_inv (eg_Nodes g) s" "no_nil_nodes (eg_Nodes g)" "x_tasks s = i # ts"
  shows "GetNode g i \<noteq> None"
proof -
  have "i \<in> node_ids (eg_Nodes g)" using assms(1,3) by (auto simp: exec_inv_def inv_queue_def)
  from node_present[OF assms(2) this] show ?thesis by (auto simp: GetNode_def gm_getd_def)
qed

definition phase_ok :: "nat \<Rightarrow> nat \<Rightarrow> (NodeID, NodeResult) gomap \<Rightarrow> phase \<Rightarrow> bool" where
  "phase_ok n cnt res ph \<longleftrightarrow>
     (case ph of
        PRunning \<Rightarrow> True
      | PDraining \<Rightarrow> n \<le> cnt
      | PDone result \<Rightarrow> n \<le> cnt \<and> ger_Status result = final_status res \<and> ger_NodeResults result = res
      | PCrashed \<Rightarrow> False)"

definition run_inv :: "nodes \<Rightarrow> exec_state \<Rightarrow> bool" where
  "run_inv ns s \<longleftrightarrow> exec_inv ns s \<and> phase_ok (length ns) (x_count s) (x_res s) (x_phase s)"

lemma finish_checkpoint_ok: "ckpt_ok ckpt \<Longrightarrow> finish_checkpoint e io status ckpt fs = (ckpt', fs') \<Longrightarrow> ckpt_ok ckpt'"
  using save_checkpoint_ok
  by (cases ckpt) (auto simp: finish_checkpoint_def ckpt_ok_def[of ckpt] Let_def ckpt_ok_def[of None]
      ckpt_ok_def[of "Some c" for c] split: if_splits)

lemma finish_execution_inv:
  assumes "exec_inv ns s" "length ns \<le> x_count s"
  shows "run_inv ns (finish_execution e io s)"
proof -
  obtain ckpt fs where fc: "finish_checkpoint e io (final_status (x_res s)) (x_ckpt s) (x_fs s) = (ckpt, fs)" by fastforce
  have ck: "ckpt_ok ckpt" using finish_checkpoint_ok[OF _ fc] assms(1) by (simp add: exec_inv_def inv_shape_def)
  show ?thesis unfolding run_inv_def
  proof (intro conjI)
    show "exec_inv ns (finish_execution e io s)"
      using ck by (intro exec_inv_cong[OF assms(1)]) (simp_all add: finish_execution_def Let_def fc)
  qed (use assms(2) in \<open>simp add: finish_execution_def Let_def Finalize_def fc phase_ok_def\<close>)
qed

lemma exec_step_inv:
  assumes step: "exec_step world e g s s'" and inv: "run_inv (eg_Nodes g) s"
    and runnable: "\<And>i n. gm_get (eg_Nodes g) i = Some (Some n) \<Longrightarrow> node_runnable n" and retries: "0 \<le> rc_maxRetries (ex_retry e)"
    and nonil: "no_nil_nodes (eg_Nodes g)"
  shows "run_inv (eg_Nodes g) s'"
  using step
proof cases
  case (worker_take i ts n)
  then show ?thesis using inv exec_inv_take[of "eg_Nodes g" s i ts] by (simp add: run_inv_def)
next
  case (worker_drop i ts)
  then show ?thesis using no_worker_drop[of g s i ts] inv nonil by (simp add: run_inv_def)
next
  case (worker_finish i n env r)
  then show ?thesis
    using inv exec_inv_finish[of "eg_Nodes g" s r] runNode_result[OF worker_finish(7)] by (auto simp: run_inv_def)
next
  case (worker_crash i n env)
  then show ?thesis using runNode_total[OF runnable retries, of i n env i] by auto
next
  case (main_receive r rs io)
  then show ?thesis
    using inv receive_inv(1,2)[of "eg_Nodes g" s r rs e io] by (simp add: run_inv_def phase_ok_def)
next
  case main_close
  then show ?thesis using inv exec_inv_cong[of "eg_Nodes g" s s'] by (auto simp: run_inv_def exec_inv_def inv_shape_def phase_ok_def)
next
  case (main_finish io)
  then show ?thesis using inv finish_execution_inv[of "eg_Nodes g" s e io] by (simp add: run_inv_def phase_ok_def)
qed

text \<open>Progress: a pending node whose predecessors are settled is somewhere in the pipeline.\<close>

lemma pending_in_pipeline:
  assumes inv: "exec_inv ns s" and acyc: "acyclic (dep_rel ns)" and closed: "deps_closed ns" and cnt: "x_count s < length ns"
  shows "x_tasks s \<noteq> [] \<or> x_busy s \<noteq> [] \<or> x_results s \<noteq> []"
proof (rule ccontr)
  assume "\<not> ?thesis"
  then have idle: "x_tasks s = []" "x_busy s = []" "x_results s = []" by simp_all
  have iq: "inv_queue ns s" and ist: "inv_status ns s" and ideg: "inv_deg ns s" and sh: "inv_shape ns s"
    using inv by (simp_all add: exec_inv_def)
  have "mset (x_started s) = mset (x_received s)" using iq idle by (simp add: inv_queue_def)
  then have rs: "set (x_started s) = set (x_received s)" by (rule mset_eq_setD)
  have wf: "wf (dep_rel ns)" using acyc by (simp add: finite_acyclic_wf)
  have "i \<in> node_ids ns \<longrightarrow> st s i \<noteq> StatusPending" for i
  proof (induction i rule: wf_induct_rule[OF wf])
    case (1 i)
    show ?case
    proof (intro impI notI)
      assume i: "i \<in> node_ids ns" "st s i = StatusPending"
      have "d \<in> succeeded s" if d: "d \<in> set (deps_of ns i)" for d
      proof -
        have ids: "d \<in> node_ids ns" using closed d i(1) by (auto simp: deps_closed_def)
        have "st s d \<noteq> StatusPending" using 1 d i(1) ids by (auto simp: dep_rel_def)
        moreover have "st s d \<notin> blocked" using inv_statusD(3)[OF ist i(1) d] i(2) by auto
        ultimately have "d \<in> set (x_received s)" using inv_statusD(2)[OF ist ids] by (auto simp: blocked_def)
        then show ?thesis
          using inv_statusD(1)[OF ist, of d] \<open>st s d \<notin> blocked\<close> by (auto simp: succeeded_def finished_def blocked_def)
      qed
      then have "i \<in> set (x_received s)" using inv_deg_deps[OF ideg i(1)] rs idle(1) by auto
      then show False using inv_statusD(1)[OF ist, of i] i(2) by (simp add: finished_def)
    qed
  qed
  moreover obtain i where "gm_has (x_res s) i" "st s i = StatusPending"
    using pending_pos[of "x_res s"] sh cnt by (auto simp: inv_shape_def st_def)
  ultimately show False using sh by (auto simp: inv_shape_def)
qed

lemma exec_progress:
  assumes inv: "run_inv (eg_Nodes g) s" and fr: "fresh_run anyv e io0 g fs" and notdone: "\<And>result. x_phase s \<noteq> PDone result"
    and world: "\<And>i n. gm_get (eg_Nodes g) i = Some (Some n) \<Longrightarrow> \<exists>env. node_env_ok n env \<and> world i env"
  shows "\<exists>s'. exec_step world e g s s'"
proof -
  note f = fresh_runD[OF fr]
  have ei: "exec_inv (eg_Nodes g) s" using inv by (simp add: run_inv_def)
  have iq: "inv_queue (eg_Nodes g) s" using ei by (simp add: exec_inv_def)
  note node = node_present[OF f(2)]
  consider "x_phase s = PDraining" | "x_phase s = PRunning" "length (eg_Nodes g) \<le> x_count s"
    | "x_phase s = PRunning" "x_count s < length (eg_Nodes g)"
    using inv notdone
    by (cases "x_phase s"; cases "length (eg_Nodes g) \<le> x_count s") (auto simp: run_inv_def phase_ok_def)
  then show ?thesis
  proof cases
    case 1
    then have "length (eg_Nodes g) \<le> x_count s" using inv by (simp add: run_inv_def phase_ok_def)
    from processed_idle[OF ei this] 1 show ?thesis by (blast intro: main_finish)
  next
    case 2
    then show ?thesis by (blast intro: main_close)
  next
    case 3
    from pending_in_pipeline[OF ei f(4,3) 3(2)] consider r rs where "x_results s = r # rs"
      | i where "x_results s = []" "i \<in> set (x_busy s)" | i ts where "x_busy s = []" "x_tasks s = i # ts"
      by (metis list.exhaust list.set_intros(1))
    then show ?thesis
    proof cases
      case (1 r rs)
      let ?s = "handle_result e io0 r (s\<lparr>x_results := rs\<rparr>)"
      have q: "inv_queue (eg_Nodes g) ?s" using receive_inv(1)[OF ei 1, of e io0] by (simp add: exec_inv_def)
      have "length (x_tasks ?s) = card (set (x_tasks ?s))" using q by (simp add: inv_queue_def distinct_card)
      also have "\<dots> \<le> card (node_ids (eg_Nodes g))" using q by (intro card_mono) (auto simp: inv_queue_def)
      finally show ?thesis using main_receive[OF 3(1,2) 1] card_node_ids[OF f(1)] by auto
    next
      case (2 i)
      then have "i \<in> node_ids (eg_Nodes g)" using in_flight[OF iq, of i] iq by (auto simp: inv_queue_def)
      then obtain n where n: "gm_get (eg_Nodes g) i = Some (Some n)" using node by blast
      obtain env where env: "node_env_ok n env" "world i env" using world[OF n] by blast
      obtain r where r: "runNode (ex_retry e) env i n = Some r"
        using runNode_total[OF f(8)[OF n] f(7) env(1)] by blast
      have "x_phase s = PRunning \<or> x_phase s = PDraining" "length (x_results s) < length (eg_Nodes g)" using 2(1) 3 by auto
      then show ?thesis using exec_step.worker_finish[where world = world, OF _ 2(2) n env r] by blast
    next
      case (3 i ts)
      then have "i \<in> node_ids (eg_Nodes g)" using iq by (auto simp: inv_queue_def)
      then obtain n where "gm_get (eg_Nodes g) i = Some (Some n)" using node by blast
      moreover have "x_phase s = PRunning \<or> x_phase s = PDraining" "length (x_busy s) < ex_maxWorkers e"
        using 3(1) f(6) \<open>x_phase s = PRunning\<close> by auto
      ultimately show ?thesis using exec_step.worker_take[OF _ 3(2)] by blast
    qed
  qed
qed

text \<open>Every step uses up a little of a finite budget.\<close>

definition budget :: "nat \<Rightarrow> exec_state \<Rightarrow> nat" where
  "budget n s = 3 * (n - length (x_started s)) + 2 * length (x_busy s) + length (x_results s) +
     (case x_phase s of PRunning \<Rightarrow> 2 | PDraining \<Rightarrow> 1 | _ \<Rightarrow> 0)"

lemma exec_step_budget:
  assumes step: "exec_step world e g s s'" and inv: "run_inv (eg_Nodes g) s" "run_inv (eg_Nodes g) s'"
    and ok: "gm_ok (eg_Nodes g)" and nonil: "no_nil_nodes (eg_Nodes g)"
  shows "budget (length (eg_Nodes g)) s' < budget (length (eg_Nodes g)) s"
proof -
  have len: "length (x_started t) \<le> length (eg_Nodes g)" if "run_inv (eg_Nodes g) t" for t
  proof -
    have "distinct (x_started t)" "set (x_started t) \<subseteq> node_ids (eg_Nodes g)"
      using that by (auto simp: run_inv_def exec_inv_def inv_queue_def)
    then show ?thesis using card_node_ids[OF ok] card_mono[OF finite_node_ids] distinct_card by metis
  qed
  from step show ?thesis
  proof cases
    case (worker_take i ts n)
    then show ?thesis using len[OF inv(2)] by (auto simp: budget_def)
  next
    case (worker_drop i ts)
    then show ?thesis using no_worker_drop[of g s i ts] inv(1) nonil by (simp add: run_inv_def)
  next
    case (worker_finish i n env r)
    then have "Suc (length (remove1 i (x_busy s))) = length (x_busy s)"
      by (metis Suc_pred length_pos_if_in_set length_remove1 One_nat_def)
    then show ?thesis using worker_finish(1,2) by (auto simp: budget_def)
  next
    case (worker_crash i n env)
    then show ?thesis using inv(2) by (simp add: run_inv_def phase_ok_def)
  next
    case (main_receive r rs io)
    then show ?thesis
      using inv receive_inv[of "eg_Nodes g" s r rs e io] by (simp add: budget_def run_inv_def)
  next
    case main_close
    then show ?thesis by (simp add: budget_def)
  next
    case (main_finish io)
    then show ?thesis by (simp add: budget_def finish_execution_def Let_def split: prod.splits)
  qed
qed

definition plan_world :: "ExecutionGraph \<Rightarrow> (NodeID \<Rightarrow> node_env \<Rightarrow> bool) \<Rightarrow> bool" where
  "plan_world g world \<longleftrightarrow> (\<forall>(i, n) \<in> set (eg_Nodes g). \<exists>env. node_env_ok (the n) env \<and> world i env)"

lemma reachable_inv:
  assumes fr: "fresh_run anyv e io g fs" and steps: "(exec_step world e g)\<^sup>*\<^sup>* (exec_init anyv e io g bags fs) s"
  shows "run_inv (eg_Nodes g) s"
  using steps
proof (induction rule: rtranclp_induct)
  case base
  obtain deg adj where "build_tables (eg_Nodes g) ([], []) = (deg, adj)" by fastforce
  then have "x_phase (exec_init anyv e io g bags fs) = PRunning"
    using exec_init_fields(9)[OF fresh_runD(5)[OF fr]] by blast
  then show ?case using exec_init_inv[OF fr, of bags] by (simp add: run_inv_def phase_ok_def)
next
  case (step s s')
  note f = fresh_runD[OF fr]
  show ?case by (rule exec_step_inv[OF step(2,3) f(8) f(7) f(2)])
qed

lemma bounded_run:
  assumes fr: "fresh_run anyv e io g fs" and steps: "((exec_step world e g) ^^ k) (exec_init anyv e io g bags fs) s"
  shows "k + budget (length (eg_Nodes g)) s \<le> 3 * length (eg_Nodes g) + 2"
  using steps
proof (induction k arbitrary: s)
  case 0
  obtain deg adj where "build_tables (eg_Nodes g) ([], []) = (deg, adj)" by fastforce
  from exec_init_fields[OF fresh_runD(5)[OF fr] this, of bags] 0 show ?case by (auto simp: budget_def)
next
  case (Suc k)
  then obtain t where t: "((exec_step world e g) ^^ k) (exec_init anyv e io g bags fs) t" "exec_step world e g t s" by auto
  have inv: "run_inv (eg_Nodes g) t" "run_inv (eg_Nodes g) s"
    using reachable_inv[OF fr] t Suc.prems by (metis relpowp_imp_rtranclp)+
  note f = fresh_runD[OF fr]
  show ?case using Suc.IH[OF t(1)] exec_step_budget[OF t(2) inv f(1,2)] by linarith
qed

lemma reaches_done:
  assumes fr: "fresh_run anyv e io g fs" and world: "plan_world g world"
    and steps: "(exec_step world e g)\<^sup>*\<^sup>* (exec_init anyv e io g bags fs) s"
  shows "\<exists>s' result. (exec_step world e g)\<^sup>*\<^sup>* s s' \<and> x_phase s' = PDone result"
  using steps
proof (induction "budget (length (eg_Nodes g)) s" arbitrary: s rule: less_induct)
  case less
  note f = fresh_runD[OF fr]
  have inv: "run_inv (eg_Nodes g) s" by (rule reachable_inv[OF fr less.prems])
  have w: "\<exists>env. node_env_ok n env \<and> world i env" if "gm_get (eg_Nodes g) i = Some (Some n)" for i n
    using world gm_get_in_set[OF that] by (fastforce simp: plan_world_def)
  show ?case
  proof (cases "\<exists>result. x_phase s = PDone result")
    case True
    then show ?thesis by blast
  next
    case False
    then obtain t where t: "exec_step world e g s t" using exec_progress[where world = world, OF inv fr] w by blast
    have rt: "(exec_step world e g)\<^sup>*\<^sup>* (exec_init anyv e io g bags fs) t" using less.prems t by simp
    have "budget (length (eg_Nodes g)) t < budget (length (eg_Nodes g)) s"
      by (rule exec_step_budget[OF t inv reachable_inv[OF fr rt] f(1,2)])
    from less.hyps[OF this rt] t show ?thesis by (meson converse_rtranclp_into_rtranclp)
  qed
qed

lemma busy_bound:
  assumes "(exec_step world e g)\<^sup>*\<^sup>* s0 s" "length (x_busy s0) \<le> ex_maxWorkers e"
    and "\<And>r rs io t. x_results t = r # rs \<Longrightarrow> (exec_step world e g)\<^sup>*\<^sup>* s0 t \<Longrightarrow>
      x_busy (handle_result e io r (t\<lparr>x_results := rs\<rparr>)) = x_busy t"
  shows "length (x_busy s) \<le> ex_maxWorkers e"
  using assms(1)
proof (induction rule: rtranclp_induct)
  case (step t s)
  from step(2) show ?case
  proof cases
    case (main_receive r rs io)
    then show ?thesis using step(1,3) assms(3) by simp
  next
    case (main_finish io)
    then show ?thesis by (simp add: finish_execution_def Let_def split: prod.splits)
  qed (use step(3) in \<open>auto simp: length_remove1\<close>)
qed (rule assms(2))

text \<open>At the end every node is settled by the verdicts on its dependencies.\<close>

lemma done_settled:
  assumes inv: "run_inv ns s" and fin: "x_phase s = PDone result" and closed: "deps_closed ns" and i: "i \<in> node_ids ns"
  shows "if \<forall>d \<in> set (deps_of ns i). st s d = StatusSuccess then i \<in> set (x_received s) else st s i = StatusSkipped"
proof -
  have ei: "exec_inv ns s" and cnt: "length ns \<le> x_count s" using inv fin by (simp_all add: run_inv_def phase_ok_def)
  have iq: "inv_queue ns s" and ist: "inv_status ns s" and ideg: "inv_deg ns s" and sh: "inv_shape ns s"
    using ei by (simp_all add: exec_inv_def)
  note idle = processed_idle[OF ei cnt]
  have nopend: "st s d \<noteq> StatusPending" if "d \<in> node_ids ns" for d
    using pending_zero[of "x_res s" d] sh cnt that by (auto simp: inv_shape_def st_def)
  have settled: "st s d \<in> finished" if "d \<in> node_ids ns" for d
    using inv_statusD(1,2)[OF ist, of d] nopend[OF that] that by (auto simp: finished_def)
  show ?thesis
  proof (cases "\<forall>d \<in> set (deps_of ns i). st s d = StatusSuccess")
    case True
    have "d \<in> succeeded s" if "d \<in> set (deps_of ns i)" for d
    proof -
      have "d \<in> node_ids ns" using closed that i by (auto simp: deps_closed_def)
      then show ?thesis using inv_statusD(2)[OF ist, of d] True that by (auto simp: succeeded_def)
    qed
    then have "i \<in> set (x_started s)" using inv_deg_deps[OF ideg i] idle by auto
    moreover have "mset (x_started s) = mset (x_received s)" using iq idle by (simp add: inv_queue_def)
    then have "set (x_started s) = set (x_received s)" by (rule mset_eq_setD)
    ultimately show ?thesis using True by simp
  next
    case False
    then obtain d where d: "d \<in> set (deps_of ns i)" "st s d \<noteq> StatusSuccess" by blast
    have "d \<in> node_ids ns" using closed d(1) i by (auto simp: deps_closed_def)
    then have "st s d \<in> blocked" using settled d(2) by (auto simp: finished_def blocked_def)
    then show ?thesis using inv_statusD(3)[OF ist i d(1)] False by auto
  qed
qed

definition outcomes :: "(NodeID \<Rightarrow> node_env \<Rightarrow> bool) \<Rightarrow> dagExecutor \<Rightarrow> ExecutionGraph \<Rightarrow> (NodeID \<Rightarrow> Status) \<Rightarrow> bool" where
  "outcomes world e g \<rho> \<longleftrightarrow> (\<forall>i n env r. gm_get (eg_Nodes g) i = Some (Some n) \<longrightarrow> node_env_ok n env \<longrightarrow> world i env \<longrightarrow>
     runNode (ex_retry e) env i n = Some r \<longrightarrow> wr_status r = \<rho> i)"

lemma reachable_outcomes:
  assumes fr: "fresh_run anyv e io g fs" and out: "outcomes world e g \<rho>"
    and steps: "(exec_step world e g)\<^sup>*\<^sup>* (exec_init anyv e io g bags fs) s"
  shows "(\<forall>r \<in> set (x_results s). wr_status r = \<rho> (wr_nodeID r)) \<and> (\<forall>i \<in> set (x_received s). st s i = \<rho> i)"
  using steps
proof (induction rule: rtranclp_induct)
  case base
  obtain deg adj where "build_tables (eg_Nodes g) ([], []) = (deg, adj)" by fastforce
  from exec_init_fields[OF fresh_runD(5)[OF fr] this, of bags] show ?case by simp
next
  case (step t s)
  have ei: "exec_inv (eg_Nodes g) t" using reachable_inv[OF fr step(1)] by (simp add: run_inv_def)
  from step(2) show ?case
  proof cases
    case (worker_finish i n env r)
    then have "wr_status r = \<rho> (wr_nodeID r)" using out runNode_result[OF worker_finish(7)] by (auto simp: outcomes_def)
    then show ?thesis using step(3) worker_finish(1) by (auto simp: st_def)
  next
    case (main_receive r rs io)
    note rc = receive_inv[OF ei main_receive(4), of e io]
    have "st t i \<noteq> StatusPending" if "i \<in> set (x_received t)" for i
      using inv_statusD(1)[of "eg_Nodes g" t i] ei that by (auto simp: exec_inv_def finished_def)
    then show ?thesis using step(3) rc(3,6,7,8) main_receive(1,4) by auto
  next
    case (main_finish io)
    then show ?thesis using step(3) by (simp add: st_def finish_execution_def Let_def split: prod.splits)
  qed (use step(3) in \<open>auto simp: st_def\<close>)
qed

lemma final_status_Failed:
  "final_status res = (if \<exists>(i, nr) \<in> set res. nr_Status nr = StatusFailed then StatusFailed else StatusSuccess)"
  by (induction res) auto

lemma final_status_st:
  assumes "run_inv ns s"
  shows "final_status (x_res s) = (if \<exists>i \<in> node_ids ns. st s i = StatusFailed then StatusFailed else StatusSuccess)"
proof -
  have ok: "gm_ok (x_res s)" and has: "\<And>i. gm_has (x_res s) i \<longleftrightarrow> i \<in> node_ids ns"
    using assms by (auto simp: run_inv_def exec_inv_def inv_shape_def)
  have "(\<exists>(i, nr) \<in> set (x_res s). nr_Status nr = StatusFailed) \<longleftrightarrow> (\<exists>i \<in> node_ids ns. st s i = StatusFailed)"
  proof
    assume "\<exists>(i, nr) \<in> set (x_res s). nr_Status nr = StatusFailed"
    then obtain i nr where "gm_get (x_res s) i = Some nr" "nr_Status nr = StatusFailed"
      using gm_in_set_get[OF ok] by blast
    then show "\<exists>i \<in> node_ids ns. st s i = StatusFailed"
      using has[of i] by (intro bexI[of _ i]) (auto simp: st_def status_of_def dest: gm_has_get)
  next
    assume "\<exists>i \<in> node_ids ns. st s i = StatusFailed"
    then obtain i nr where "gm_get (x_res s) i = Some nr" "nr_Status nr = StatusFailed"
      by (auto simp: st_def status_of_def split: option.splits)
    then show "\<exists>(i, nr) \<in> set (x_res s). nr_Status nr = StatusFailed" using gm_get_in_set by fastforce
  qed
  then show ?thesis by (simp add: final_status_Failed)
qed

section \<open>Properties\<close>

text \<open>C9: in every state a fresh execution can reach, under any interleaving of the workers and the
  main goroutine, each node has been started at most once; a started node's dependencies have
  all been received as successful before; no more nodes are running than there are workers;
  and neither channel holds more entries than it has room for.\<close>

theorem Execute_safe:
  assumes fr: "fresh_run anyv e io g fs"
    and steps: "(exec_step world e g)\<^sup>*\<^sup>* (exec_init anyv e io g bags fs) s"
  shows "distinct (x_started s) \<and> set (x_started s) \<subseteq> node_ids (eg_Nodes g)
    \<and> (\<forall>i \<in> set (x_started s). \<forall>d \<in> set (deps_of (eg_Nodes g) i). d \<in> set (x_received s) \<and> st s d = StatusSuccess)
    \<and> length (x_busy s) \<le> ex_maxWorkers e
    \<and> length (x_tasks s) \<le> length (eg_Nodes g) \<and> length (x_results s) \<le> length (eg_Nodes g)"
proof -
  note f = fresh_runD[OF fr]
  have ei: "exec_inv (eg_Nodes g) s" using reachable_inv[OF fr steps] by (simp add: run_inv_def)
  have iq: "inv_queue (eg_Nodes g) s" and ideg: "inv_deg (eg_Nodes g) s" using ei by (simp_all add: exec_inv_def)
  have dist: "distinct (x_tasks s @ x_started s)" "set (x_tasks s @ x_started s) \<subseteq> node_ids (eg_Nodes g)"
    using iq by (simp_all add: inv_queue_def)
  have le: "length xs \<le> length (eg_Nodes g)" if "distinct xs" "set xs \<subseteq> node_ids (eg_Nodes g)" for xs
    using that card_node_ids[OF f(1)] card_mono[OF finite_node_ids] distinct_card by metis
  have "length (x_results s) \<le> length (x_started s)"
    using iq by (metis inv_queue_def le_add1 le_add2 length_map order_trans size_mset size_union)
  then have "length (x_results s) \<le> length (eg_Nodes g)" using le[of "x_started s"] dist by simp
  moreover have "d \<in> set (x_received s) \<and> st s d = StatusSuccess"
    if "i \<in> set (x_started s)" "d \<in> set (deps_of (eg_Nodes g) i)" for i d
    using inv_deg_deps[OF ideg, of i] that dist(2) by (auto simp: succeeded_def)
  moreover have "length (x_busy s) \<le> ex_maxWorkers e"
  proof (rule busy_bound[OF steps])
    obtain deg adj where "build_tables (eg_Nodes g) ([], []) = (deg, adj)" by fastforce
    from exec_init_fields(5)[OF f(5) this] show "length (x_busy (exec_init anyv e io g bags fs)) \<le> ex_maxWorkers e" by simp
  next
    fix r rs io' t
    assume "x_results t = r # rs" "(exec_step world e g)\<^sup>*\<^sup>* (exec_init anyv e io g bags fs) t"
    then show "x_busy (handle_result e io' r (t\<lparr>x_results := rs\<rparr>)) = x_busy t"
      using receive_inv(5) reachable_inv[OF fr] by (metis run_inv_def)
  qed
  ultimately show ?thesis using dist le[of "x_tasks s"] by simp
qed


text \<open>C1: when a fresh execution ends, all channels are empty and all workers idle, and every node
  has a final status: a node was run exactly if all its dependencies succeeded (with status
  Success, Failed or Skipped as its run answered), and is Skipped otherwise, so that a failure
  skips everything behind it and nothing else. The graph's result lists these statuses and is
  Failed exactly if some node failed.\<close>

theorem Execute_verdict:
  assumes fr: "fresh_run anyv e io g fs"
    and steps: "(exec_step world e g)\<^sup>*\<^sup>* (exec_init anyv e io g bags fs) s" and fin: "x_phase s = PDone result"
  shows "x_tasks s = [] \<and> x_busy s = [] \<and> x_results s = [] \<and> ger_NodeResults result = x_res s
    \<and> (\<forall>i \<in> node_ids (eg_Nodes g). st s i \<in> {StatusSuccess, StatusFailed, StatusSkipped} \<and>
         (if \<forall>d \<in> set (deps_of (eg_Nodes g) i). st s d = StatusSuccess
          then i \<in> set (x_started s) else i \<notin> set (x_started s) \<and> st s i = StatusSkipped))
    \<and> ger_Status result = (if \<exists>i \<in> node_ids (eg_Nodes g). st s i = StatusFailed then StatusFailed else StatusSuccess)"
proof -
  let ?ns = "eg_Nodes g"
  note f = fresh_runD[OF fr]
  have inv: "run_inv ?ns s" by (rule reachable_inv[OF fr steps])
  have ei: "exec_inv ?ns s" and cnt: "length ?ns \<le> x_count s" and res: "ger_NodeResults result = x_res s"
    "ger_Status result = final_status (x_res s)"
    using inv fin by (simp_all add: run_inv_def phase_ok_def)
  have iq: "inv_queue ?ns s" and ist: "inv_status ?ns s" and ideg: "inv_deg ?ns s" using ei by (simp_all add: exec_inv_def)
  have "st s i \<in> {StatusSuccess, StatusFailed, StatusSkipped} \<and>
      (if \<forall>d \<in> set (deps_of ?ns i). st s d = StatusSuccess
       then i \<in> set (x_started s) else i \<notin> set (x_started s) \<and> st s i = StatusSkipped)"
    if i: "i \<in> node_ids ?ns" for i
  proof (cases "\<forall>d \<in> set (deps_of ?ns i). st s d = StatusSuccess")
    case True
    then have "i \<in> set (x_received s)" using done_settled[OF inv fin f(3) i] by simp
    then show ?thesis using True inv_received_started[OF iq] inv_statusD(1)[OF ist] by (auto simp: finished_def)
  next
    case False
    then have "\<not> set (deps_of ?ns i) \<subseteq> succeeded s" by (auto simp: succeeded_def)
    then have "i \<notin> set (x_started s)" using inv_deg_deps[OF ideg i] by auto
    then show ?thesis using False done_settled[OF inv fin f(3) i] by auto
  qed
  then show ?thesis using processed_idle[OF ei cnt] res final_status_st[OF inv] by simp
qed


section \<open>A small execution\<close>

text \<open>Two nodes, \<open>b\<close> behind \<open>a\<close>; the condition of \<open>a\<close> fails.\<close>

definition demo_graph :: ExecutionGraph where
  "demo_graph = (NewExecutionGraph ''demo'')\<lparr>eg_Nodes :=
     [(''b'', Some (step_node ''b'' [] [''a''])), (''a'', Some ((step_node ''a'' [] [])\<lparr>nd_HasCondition := True\<rparr>))]\<rparr>"

definition demo_env :: node_env where
  "demo_env = \<lparr>ne_cond = (False, Some ''boom''), ne_done = [], ne_range = []\<rparr>"

definition demo_world :: "NodeID \<Rightarrow> node_env \<Rightarrow> bool" where
  "demo_world i env \<longleftrightarrow> env = demo_env"

definition demo_bags :: state_bags where
  "demo_bags = \<lparr>b_TaskState = None, b_ModuleState = None, b_PipelineState = None\<rparr>"

definition demo_outcome :: "NodeID \<Rightarrow> Status" where
  "demo_outcome i = (if i = ''a'' then StatusFailed else StatusSuccess)"

lemma demo_fresh: "fresh_run id NewExecutor (io_ok t) demo_graph []"
proof -
  have "gm_ok (eg_Nodes demo_graph)" "Validate demo_graph = None"
    "list_all (\<lambda>(i, n). case n of None \<Rightarrow> False | Some n \<Rightarrow> node_runnable n) (eg_Nodes demo_graph)"
    "0 < ex_maxWorkers NewExecutor" "0 \<le> rc_maxRetries (ex_retry NewExecutor)" by code_simp+
  moreover have "load_checkpoint id NewExecutor (io_ok t) [] = None"
    by (simp add: load_checkpoint_def checkpointing_def NewExecutor_def)
  ultimately show ?thesis by (simp add: fresh_run_def)
qed

lemma demo_plan_world: "plan_world demo_graph demo_world"
proof -
  have "list_all (\<lambda>(i, n). host_names (the n) = []) (eg_Nodes demo_graph)" by code_simp
  then show ?thesis
    by (auto simp: plan_world_def demo_world_def demo_env_def node_env_ok_def list_all_iff)
qed

lemma demo_outcomes: "outcomes demo_world NewExecutor demo_graph demo_outcome"
proof -
  have a: "runNode (ex_retry NewExecutor) demo_env ''a'' ((step_node ''a'' [] [])\<lparr>nd_HasCondition := True\<rparr>) =
      Some \<lparr>wr_nodeID = ''a'', wr_status = StatusFailed, wr_message = ''Condition check failed: boom'', wr_err = Some ''boom'',
        wr_hostResults = None, wr_output = None\<rparr>" by code_simp
  have b: "map_option wr_status (runNode (ex_retry NewExecutor) demo_env ''b'' (step_node ''b'' [] [''a''])) = Some StatusSuccess"
    by code_simp
  show ?thesis unfolding outcomes_def
  proof (intro allI impI)
    fix i n env r
    assume "gm_get (eg_Nodes demo_graph) i = Some (Some n)" "demo_world i env" "runNode (ex_retry NewExecutor) env i n = Some r"
    then show "wr_status r = demo_outcome i"
      using a b by (auto simp: demo_graph_def demo_world_def demo_outcome_def split: if_splits)
  qed
qed

lemma demo_run: "\<exists>s result. (exec_step demo_world NewExecutor demo_graph)\<^sup>*\<^sup>* (exec_init id NewExecutor (io_ok t) demo_graph demo_bags []) s
    \<and> x_phase s = PDone result"
  using reaches_done[OF demo_fresh demo_plan_world] by blast

theorem Execute_safe_witness:
  "distinct (x_started (exec_init id NewExecutor (io_ok 0) demo_graph demo_bags []))"
  using Execute_safe[OF demo_fresh, where world = demo_world and s = "exec_init id NewExecutor (io_ok 0) demo_graph demo_bags []"]
  by blast


theorem Execute_verdict_witness:
  "\<exists>s result. x_phase s = PDone result \<and> st s ''b'' = StatusSkipped \<and> ger_Status result = StatusFailed"
proof -
  obtain s result where s: "(exec_step demo_world NewExecutor demo_graph)\<^sup>*\<^sup>* (exec_init id NewExecutor (io_ok 0) demo_graph demo_bags []) s"
    "x_phase s = PDone result" using demo_run by blast
  have ids: "node_ids (eg_Nodes demo_graph) = {''a'', ''b''}" and deps: "deps_of (eg_Nodes demo_graph) ''a'' = []"
    "deps_of (eg_Nodes demo_graph) ''b'' = [''a'']" by code_simp+
  note v = Execute_verdict[OF demo_fresh s]
  have inv: "run_inv (eg_Nodes demo_graph) s" by (rule reachable_inv[OF demo_fresh s(1)])
  have "deps_closed (eg_Nodes demo_graph)" by code_simp
  from done_settled[OF inv s(2) this, of "''a''"] have "''a'' \<in> set (x_received s)" by (simp add: ids deps)
  then have "st s ''a'' = StatusFailed"
    using reachable_outcomes[OF demo_fresh demo_outcomes s(1)] by (simp add: demo_outcome_def)
  then show ?thesis using v s(2) by (auto simp: ids deps)
qed


section \<open>Resuming\<close>

text \<open>C34: resuming deadlocks. If every entry node of the graph is recorded as done in the loaded
  checkpoint and some other node is not, then the execution starts with no task, no running
  node and no result and with fewer processed nodes than the graph has: no step is possible
  and \<^verbatim>\<open>Execute\<close> never returns. (The restored nodes never release their dependents.)\<close>

theorem Execute_resume_deadlock:
  assumes "gm_ok (eg_Nodes g)" "no_nil_nodes (eg_Nodes g)"
    and ck: "load_checkpoint anyv e io fs = Some c" "ck_NodeStates c = Some m" "gm_ok m"
    and dn: "set (already_done (Some c)) \<subset> node_ids (eg_Nodes g)" "entry_ids (eg_Nodes g) \<subseteq> set (already_done (Some c))"
  shows "x_phase (exec_init anyv e io g bags fs) = PRunning
    \<and> \<not> (\<exists>s'. exec_step world e g (exec_init anyv e io g bags fs) s')"
proof -
  let ?ns = "eg_Nodes g" and ?s = "exec_init anyv e io g bags fs"
  obtain deg adj where tb: "build_tables ?ns ([], []) = (deg, adj)" by fastforce
  note t = build_tables_start[OF assms(1,2) tb]
  obtain ckpt fs' where sv: "save_checkpoint e io (Some c) fs = (ckpt, fs')" by fastforce
  obtain er c' fs'' where s': "Save (the (ex_persister e)) io (eo_ClusterName (ex_opts e)) (eo_PipelineName (ex_opts e)) (Some c) fs = (er, c', fs'')"
    by (metis prod_cases3)
  have "ckpt = Some (c\<lparr>ck_UpdatedAt := io_now io\<rparr>)"
    using Save_cases[OF s', THEN conjunct1] s' sv by (simp add: save_checkpoint_def)
  then have done_eq: "already_done ckpt = already_done (Some c)" by (simp add: already_done_def)
  let ?dn = "already_done (Some c)"
  have x: "x_tasks ?s = map fst (filter (\<lambda>(i, k). k = 0 \<and> i \<notin> set ?dn) deg)" "x_busy ?s = []" "x_results ?s = []"
    "x_count ?s = length ?dn" "x_phase ?s = PRunning"
    by (simp_all add: exec_init_def Let_def tb ck(1) sv done_eq)
  have "v \<in> set ?dn" if "(v, 0) \<in> set deg" for v
    using gm_in_set_get[OF t(2) that] t(3) dn(2) by (auto simp: entry_ids_def split: if_splits)
  then have tasks: "x_tasks ?s = []" unfolding x(1) by (auto simp: filter_empty_conv)
  have "distinct ?dn" using ck(2,3) by (simp add: already_done_def gm_ok_def distinct_map_filter)
  then have "length ?dn < length ?ns"
    using psubset_card_mono[OF finite_node_ids dn(1)] card_node_ids[OF assms(1)] by (simp add: distinct_card)
  then have "\<not> exec_step world e g ?s s''" for s'' using x tasks by (auto elim!: exec_stepE)
  then show ?thesis using x(5) by blast
qed

definition resume_executor :: dagExecutor where
  "resume_executor = NewCheckpointExecutor
     (no_options\<lparr>eo_CheckpointDir := ''/w'', eo_ClusterName := ''c'', eo_PipelineName := ''p''\<rparr>)"

definition resume_checkpoint :: Checkpoint where
  "resume_checkpoint = empty_checkpoint\<lparr>ck_NodeStates := Some [(''a'',
     \<lparr>ns_Status = StatusSuccess, ns_StartedAt = 1, ns_CompletedAt = 2, ns_Message = ''Node completed.'',
      ns_HostStates = None, ns_Output = None, ns_PrecheckSkipped = False\<rparr>)]\<rparr>"

theorem Execute_resume_deadlock_witness:
  "\<not> (\<exists>s'. exec_step (\<lambda>i env. True) resume_executor demo_graph
     (exec_init id resume_executor (io_ok 9) demo_graph demo_bags [(''/w/p.checkpoint.json'', JsonCheckpoint resume_checkpoint)]) s')"
proof -
  let ?fs = "[(''/w/p.checkpoint.json'', JsonCheckpoint resume_checkpoint)]"
  let ?c = "resume_checkpoint\<lparr>ck_ResumeCount := 1\<rparr>"
  have g: "gm_ok (eg_Nodes demo_graph)" "no_nil_nodes (eg_Nodes demo_graph)" by code_simp+
  have l: "load_checkpoint id resume_executor (io_ok 9) ?fs = Some ?c" by code_simp
  have m: "ck_NodeStates ?c = Some (the (ck_NodeStates resume_checkpoint))" "gm_ok (the (ck_NodeStates resume_checkpoint))"
    by code_simp+
  have d: "already_done (Some ?c) = [''a'']" by code_simp
  have i: "node_ids (eg_Nodes demo_graph) = {''a'', ''b''}" "entry_ids (eg_Nodes demo_graph) = {''a''}" by code_simp+
  have "set (already_done (Some ?c)) \<subset> node_ids (eg_Nodes demo_graph)" by (auto simp: d i(1))
  moreover have "entry_ids (eg_Nodes demo_graph) \<subseteq> set (already_done (Some ?c))" by (simp add: d i(2))
  ultimately show ?thesis using Execute_resume_deadlock[OF g l m] by blast
qed

section \<open>Dry run\<close>

lemma dry_hosts_skipped:
  assumes "dry_hosts start fin hs hrs = Some hrs'" "\<forall>(h, hr) \<in> set hrs. hr_Status hr = StatusSkipped"
  shows "\<forall>(h, hr) \<in> set hrs'. hr_Status hr = StatusSkipped"
  using assms
proof (induction start fin hs hrs rule: dry_hosts.induct)
  case (3 start fin h hs hrs)
  have "set (gm_put k v m) \<subseteq> insert (k, v) (set m)" for k and v :: HostResult and m by (induction m) auto
  then have "\<forall>(k, hr) \<in> set (gm_put (h_Name h) (dry_host start fin h) hrs). hr_Status hr = StatusSkipped"
    using 3(3) by (fastforce simp: dry_host_def NewHostResult_def)
  with 3 show ?case by simp
qed simp_all

lemma dryRun_skipped:
  assumes "dryRun start fin ns res = Some res'" "gm_ok ns"
  shows "\<forall>i. (i \<in> node_ids ns \<longrightarrow> (\<exists>nr. gm_get res' i = Some nr \<and> nr_Status nr = StatusSkipped \<and>
      (\<exists>hrs. nr_HostResults nr = Some hrs \<and> (\<forall>(h, hr) \<in> set hrs. hr_Status hr = StatusSkipped)))) \<and>
    (i \<notin> node_ids ns \<longrightarrow> gm_get res' i = gm_get res i)"
  using assms
proof (induction start fin ns res rule: dryRun.induct)
  case (3 start fin i n ns res)
  then obtain hrs where hrs: "dry_hosts start fin (case nd_Hosts n of None \<Rightarrow> [] | Some hs \<Rightarrow> hs) [] = Some hrs"
    by (auto split: option.splits)
  have sk: "\<forall>(h, hr) \<in> set hrs. hr_Status hr = StatusSkipped" using dry_hosts_skipped[OF hrs] by simp
  have "i \<notin> node_ids ns" using 3(3) by (simp add: gm_ok_Cons)
  then show ?case using 3 hrs sk by (auto simp: node_ids_Cons gm_ok_Cons)
qed simp_all

text \<open>a dry run of a graph without nil nodes and hosts runs nothing: it returns at once, without
  error, with every node of the graph and every host result marked Skipped; the status of the
  graph result is left at Pending.\<close>

theorem Execute_dry_run:
  assumes ok: "gm_ok (eg_Nodes g)" and run: "dryRun (io_now io) (io_now io) (eg_Nodes g) [] = Some res"
  shows "\<exists>result. Execute anyv e io g bags fs True = BeginDone result None \<and> ger_Status result = StatusPending
    \<and> (\<forall>i. gm_has (ger_NodeResults result) i \<longleftrightarrow> i \<in> node_ids (eg_Nodes g))
    \<and> (\<forall>i \<in> node_ids (eg_Nodes g). \<exists>nr hrs. gm_get (ger_NodeResults result) i = Some nr
         \<and> nr_Status nr = StatusSkipped \<and> nr_HostResults nr = Some hrs \<and> (\<forall>(h, hr) \<in> set hrs. hr_Status hr = StatusSkipped))"
proof -
  let ?r = "(NewGraphExecutionResult (io_now io) (eg_Name g))\<lparr>ger_NodeResults := res\<rparr>"
  note d = dryRun_skipped[OF run ok]
  have "Execute anyv e io g bags fs True = BeginDone ?r None" using run by (simp add: Execute_def Let_def)
  moreover have "gm_has res i \<longleftrightarrow> i \<in> node_ids (eg_Nodes g)" for i
    using d[rule_format, of i] by (auto simp: gm_has_def)
  moreover have "ger_Status ?r = StatusPending" by (simp add: NewGraphExecutionResult_def)
  ultimately show ?thesis using d by (intro exI[of _ ?r]) fastforce
qed

theorem Execute_dry_run_witness:
  "\<exists>result. Execute id NewExecutor (io_ok 3) demo_graph demo_bags [] True = BeginDone result None"
proof -
  obtain res where "dryRun (io_now (io_ok 3)) (io_now (io_ok 3)) (eg_Nodes demo_graph) [] = Some res"
    by (simp add: demo_graph_def step_node_def plain_node_def)
  moreover have "gm_ok (eg_Nodes demo_graph)" by code_simp
  ultimately show ?thesis using Execute_dry_run by blast
qed

end
