(* ===== verification/ModuleTasks.thy ===== *)
theory ModuleTasks
  imports Planning
begin

text \<open>
  What the modules of \<^verbatim>\<open>module/\<close> share: the part of the cluster configuration they read
  (\<^verbatim>\<open>apis/kubexms/v1alpha1\<close>), the tasks they construct, the calls they make on a task and on the
  fragment under construction, and the loops that plan a list of tasks one after the other.

  The tasks themselves (\<^verbatim>\<open>task/\<close>) are reached through the interface \<^verbatim>\<open>task.Task\<close>: a function
  from the task a constructor builds to its name and its answers. A task that is asked twice
  gives the same answers.
\<close>

section \<open>Cluster configuration\<close>

text \<open>A pointer is an option. \<^verbatim>\<open>External\<close> of etcd is only compared with nil.\<close>

record Addon =
  ad_Name :: string
  ad_Enabled :: "bool option"

record LoadBalancerConfig =
  lb_Enabled :: "bool option"
  lb_Type :: string

record HighAvailability =
  ha_Enabled :: "bool option"
  ha_External :: "LoadBalancerConfig option"
  ha_Internal :: "LoadBalancerConfig option"

record Kubernetes =
  ku_Type :: string
  ku_ContainerRuntime :: "string option"

record Etcd =
  et_Type :: string
  et_HasExternal :: bool

record Storage =
  so_Longhorn :: "bool option option"
  so_NFS :: "bool option option"
  so_OpenEBS :: "bool option option"
  so_RookCeph :: "bool option option"

record ClusterSpec =
  cs_Kubernetes :: "Kubernetes option"
  cs_Etcd :: "Etcd option"
  cs_Network :: "string option"
  cs_ControlPlaneEndpoint :: "HighAvailability option option"
  cs_Addons :: "Addon list"
  cs_Storage :: "Storage option"

text \<open>A module's context: whether it is also a task context, and the cluster configuration.\<close>

record ModuleContext =
  mc_IsTaskContext :: bool
  mc_ClusterConfig :: "ClusterSpec option"

section \<open>Tasks\<close>

text \<open>One constructor for every \<^verbatim>\<open>New\<dots>Task\<close> the modules call, one type for every package of \<^verbatim>\<open>task/\<close>.\<close>

datatype preflight_task =
    CheckConnectivityTask | GreetingTask | ConfirmTask string string bool | ExtractBundleTask string
  | PrepareAssetsTask | InstallToolBinariesTask | PreflightChecksTask
  | VerifyArtifactsTask | PackageAssetsTask string | DownloadAssetsTask

datatype os_task =
    InstallPrerequisitesTask | ConfigureHostTask | DisableServicesTask | ConfigureKernelTask | CleanOSNodesTask

datatype infra_task =
    GenerateEtcdPKITask | DeployEtcdClusterTask | CleanEtcdTask
  | DeployContainerdTask | DeployDockerTask | DeployCrioTask
  | CleanContainerdTask | CleanDockerTask | CleanCrioTask

datatype kubeadm_task =
    InstallKubeComponentsTask | BootstrapFirstMasterTask | JoinMastersTask | JoinWorkersTask
  | CleanKubernetesTask | CleanKubeComponentsTask | DrainNodeTask | ResetNodeTask
  | UpgradeControlPlaneTask string | UpgradeWorkersTask string

datatype kubexm_task =
    GenerateKubePKITask | GenerateControlPlaneKubeconfigsTask | GenerateNodePKITask
  | ConfigureControlPlaneTask | StartControlPlaneTask | GenerateAdminKubeconfigTask
  | KubexmJoinMastersTask | DeployWorkerNodesTask

datatype addon_task =
    InstallNetworkPluginTask | CleanNetworkPluginTask | InstallAddonTask Addon | CleanAddonTask Addon

datatype lb_task =
    DeployLoadBalancerTask | InstallKeepalivedTask | UninstallKeepalivedTask
  | DeployHAProxyAsDaemonTask | UninstallHAProxyAsDaemonTask
  | DeployHAProxyOnWorkersTask | DeployHAProxyAsStaticPodTask
  | CleanHAProxyOnWorkersTask | CleanHAProxyStaticPodTask
  | DeployNginxAsDaemonTask | CleanNginxAsDaemonTask | DeployNginxOnWorkersTask | DeployNginxAsStaticPodTask
  | CleanNginxOnWorkersTask | CleanNginxStaticPodTask | DeployKubeVipTask | CleanKubeVipTask

datatype storage_task =
    DeployLonghornTask | DeployNfsTask | DeployOpenebsTask | CleanLonghornTask | CleanNfsTask | CleanOpenebsTask

datatype registry_task =
    InstallRegistryTask | GenerateRegistryConfigTask | DistributeRegistryConfigTask
  | SetupRegistryServiceTask | StartRegistryServiceTask | StopRegistryServiceTask
  | DisableRegistryServiceTask | RemoveRegistryArtifactsTask | RemoveRegistryDataTask

datatype maintenance_task =
    BackupPKITask | BackupEtcdTask | BackupK8sConfigsTask
  | RestorePKITask | RestoreEtcdTask string | RestoreK8sConfigsTask
  | CheckClusterHealthTask | CheckAPIServerHealthTask | CheckSchedulerHealthTask
  | CheckControllerManagerHealthTask | CheckKubeletHealthTask
  | ReconfigureAPIServerTask | ReconfigureSchedulerTask | ReconfigureControllerManagerTask
  | ReconfigureKubeletTask | ReconfigureProxyTask

datatype pki_task =
    GenerateClusterCertsTask | GenerateKubeconfigsTask | RolloutLeafCertsToMastersTask
  | RolloutK8sCABundleTask | FinalizeMastersTask | UpdateWorkerNodesTask | CleanupTask
  | GenerateNewCertificatesTask | DeployNewLeafCertsRollingTask | DeployTrustBundleRollingTask
  | DeployFinalCARollingTask | FinalizeWorkspaceTask

datatype task_kind =
    Preflight preflight_task | Os os_task | Infra infra_task | Kubeadm kubeadm_task | Kubexm kubexm_task
  | Addons addon_task | LoadBalancer lb_task | StorageT storage_task | Registry registry_task
  | Maintenance maintenance_task | Pki pki_task

type_synonym tasks = "task_kind \<Rightarrow> Task"

type_synonym 'a planning = "(module_error, 'a) outcome"

section \<open>Calls\<close>

fun and_then :: "('e, 'a) outcome \<Rightarrow> ('a \<Rightarrow> ('e, 'b) outcome) \<Rightarrow> ('e, 'b) outcome" where
  "and_then (Done x) k = k x"
| "and_then (Fails e) k = Fails e"
| "and_then Aborts k = Aborts"

definition ask_required :: "Task \<Rightarrow> bool planning" where
  "ask_required t =
     (case tk_IsRequired t of
        Panics v \<Rightarrow> Aborts
      | Returns b (Some e) \<Rightarrow> Fails (IsRequiredFailed (tk_Name t) e)
      | Returns b None \<Rightarrow> Done b)"

definition ask_plan :: "Task \<Rightarrow> ExecutionFragment option planning" where
  "ask_plan t =
     (case tk_Plan t of
        Panics v \<Rightarrow> Aborts
      | Returns f (Some e) \<Rightarrow> Fails (TaskPlanFailed (tk_Name t) e)
      | Returns f None \<Rightarrow> Done f)"

definition merge_task :: "string \<Rightarrow> ExecutionFragment option \<Rightarrow> ExecutionFragment \<Rightarrow> ExecutionFragment planning" where
  "merge_task nm tf f =
     (case Fragment_MergeFragment tf f of
        (Some e, f') \<Rightarrow> Fails (TaskMergeFailed nm e) | (None, f') \<Rightarrow> Done f')"

definition link_task :: "string \<Rightarrow> NodeID list \<Rightarrow> NodeID list \<Rightarrow> ExecutionFragment \<Rightarrow> ExecutionFragment planning" where
  "link_task nm froms tos f =
     (case LinkFragments Fragment_HasNode Fragment_AddDependency f froms tos of
        (Some (LinkFailed a b NilDereference), f') \<Rightarrow> Aborts
      | (Some e, f') \<Rightarrow> Fails (TaskLinkFailed nm e)
      | (None, f') \<Rightarrow> Done f')"

text \<open>Reading a field of a fragment that is nil panics.\<close>

definition non_nil :: "'a option \<Rightarrow> 'a planning" where
  "non_nil x = (case x of None \<Rightarrow> Aborts | Some y \<Rightarrow> Done y)"

definition calculate :: "ExecutionFragment \<Rightarrow> ExecutionFragment planning" where
  "calculate f = (case Fragment_CalculateEntryAndExitNodes f of Inl e \<Rightarrow> Aborts | Inr f' \<Rightarrow> Done f')"

definition task_context :: "ModuleContext \<Rightarrow> string \<Rightarrow> unit planning" where
  "task_context ctx nm = (if mc_IsTaskContext ctx then Done () else Fails (NotATaskContext nm))"

section \<open>Planning tasks one after the other\<close>

text \<open>
  The loop most modules have: ask the task (only where \<open>ask\<close> says so), plan it, pass over an empty
  fragment, merge it and link its entries behind the exits of the last non-empty fragment.
\<close>

fun chain_tasks :: "bool \<Rightarrow> Task list \<Rightarrow> NodeID list \<Rightarrow> ExecutionFragment \<Rightarrow> (NodeID list \<times> ExecutionFragment) planning" where
  "chain_tasks ask [] prev f = Done (prev, f)"
| "chain_tasks ask (t # ts) prev f =
     and_then (if ask then ask_required t else Done True) (\<lambda>required.
       if \<not> required then chain_tasks ask ts prev f
       else and_then (ask_plan t) (\<lambda>tf.
         case tf of
           None \<Rightarrow> chain_tasks ask ts prev f
         | Some g \<Rightarrow>
             if length (ef_Nodes g) = 0 then chain_tasks ask ts prev f
             else and_then (merge_task (tk_Name t) tf f) (\<lambda>f1.
               and_then (if length prev > 0 then link_task (tk_Name t) prev (ef_EntryNodes g) f1 else Done f1) (\<lambda>f2.
                 chain_tasks ask ts (ef_ExitNodes g) f2))))"

text \<open>\<^verbatim>\<open>planTask\<close> of the infrastructure module: a task that is not required gives an empty fragment.\<close>

definition planTask :: "ModuleContext \<Rightarrow> Task \<Rightarrow> ExecutionFragment option planning" where
  "planTask ctx t =
     and_then (task_context ctx (tk_Name t)) (\<lambda>_.
       and_then (ask_required t) (\<lambda>required.
         if \<not> required then Done (Some (NewEmptyFragment (tk_Name t))) else ask_plan t))"

text \<open>A task that is asked, planned, merged and linked behind \<open>prev\<close>; the last result tells the fragment.\<close>

definition optional_task :: "Task \<Rightarrow> (ExecutionFragment \<Rightarrow> ExecutionFragment \<Rightarrow> 's planning) \<Rightarrow> 's \<Rightarrow> ExecutionFragment \<Rightarrow> 's planning" where
  "optional_task t k s f =
     and_then (ask_required t) (\<lambda>required.
       if \<not> required then Done s
       else and_then (ask_plan t) (\<lambda>tf.
         and_then (merge_task (tk_Name t) tf f) (\<lambda>f1.
           and_then (non_nil tf) (\<lambda>g. k g f1))))"

text \<open>
  The loop of the older modules: nodes are copied one by one, the entries of the first task with
  exits become the module's entries, and the link step is an argument.
\<close>

type_synonym entry_linker = "string \<Rightarrow> NodeID list \<Rightarrow> NodeID list \<Rightarrow> ExecutionFragment \<Rightarrow> ExecutionFragment planning"

definition copy_nodes :: "string \<Rightarrow> ExecutionFragment \<Rightarrow> ExecutionFragment \<Rightarrow> ExecutionFragment planning" where
  "copy_nodes nm g f =
     (case merge_nodes (ef_Nodes g) (ef_Nodes f) of
        (Some (MergeDuplicate i), ns) \<Rightarrow> Fails (DuplicateTaskNode i nm)
      | (Some e, ns) \<Rightarrow> Aborts
      | (None, ns) \<Rightarrow> Done (f\<lparr>ef_Nodes := ns\<rparr>))"

fun update_entries :: "(NodeID list \<Rightarrow> NodeID list) \<Rightarrow> string \<Rightarrow> NodeID list \<Rightarrow> nodes \<Rightarrow> nodes planning" where
  "update_entries upd nm [] ns = Done ns"
| "update_entries upd nm (e # es) ns =
     (case gm_get ns e of
        None \<Rightarrow> Fails (EntryNodeMissing e nm)
      | Some None \<Rightarrow> Aborts
      | Some (Some n) \<Rightarrow>
          update_entries upd nm es (gm_put e (Some (n\<lparr>nd_Dependencies := upd (nd_Dependencies n)\<rparr>)) ns))"

definition link_unique :: entry_linker where
  "link_unique nm prev es f =
     and_then (update_entries (\<lambda>ds. UniqueNodeIDs (ds @ prev)) nm es (ef_Nodes f)) (\<lambda>ns. Done (f\<lparr>ef_Nodes := ns\<rparr>))"

text \<open>The set of existing dependencies is taken before the loop, so repeated exits are repeated.\<close>

definition link_append :: entry_linker where
  "link_append nm prev es f =
     and_then (update_entries (\<lambda>ds. ds @ filter (\<lambda>p. p \<notin> set ds) prev) nm es (ef_Nodes f))
       (\<lambda>ns. Done (f\<lparr>ef_Nodes := ns\<rparr>))"

fun effective_tasks :: "(string \<Rightarrow> ExecutionFragment \<Rightarrow> ExecutionFragment \<Rightarrow> ExecutionFragment planning) \<Rightarrow> entry_linker \<Rightarrow>
    ModuleContext \<Rightarrow> string \<Rightarrow> Task list \<Rightarrow> NodeID list \<Rightarrow> bool \<Rightarrow> ExecutionFragment \<Rightarrow> (NodeID list \<times> ExecutionFragment) planning" where
  "effective_tasks merge link ctx nm [] prev isFirst f = Done (prev, f)"
| "effective_tasks merge link ctx nm (t # ts) prev isFirst f =
     and_then (task_context ctx nm) (\<lambda>_.
     and_then (ask_required t) (\<lambda>required.
       if \<not> required then effective_tasks merge link ctx nm ts prev isFirst f
       else and_then (ask_plan t) (\<lambda>tf.
         case tf of
           None \<Rightarrow> effective_tasks merge link ctx nm ts prev isFirst f
         | Some g \<Rightarrow>
             if length (ef_Nodes g) = 0 then effective_tasks merge link ctx nm ts prev isFirst f
             else and_then (merge (tk_Name t) g f) (\<lambda>f1.
               and_then
                 (if \<not> isFirst \<and> length prev > 0 then link (tk_Name t) prev (ef_EntryNodes g) f1
                  else if isFirst then Done (f1\<lparr>ef_EntryNodes := ef_EntryNodes f1 @ ef_EntryNodes g\<rparr>)
                  else Done f1) (\<lambda>f2.
                 if length (ef_ExitNodes g) > 0
                 then effective_tasks merge link ctx nm ts (ef_ExitNodes g) False f2
                 else effective_tasks merge link ctx nm ts prev isFirst f2)))))"

definition finish_effective :: "NodeID list \<times> ExecutionFragment \<Rightarrow> ExecutionFragment planning" where
  "finish_effective r =
     (case r of (prev, f) \<Rightarrow>
        Done (f\<lparr>ef_EntryNodes := UniqueNodeIDs (ef_EntryNodes f), ef_ExitNodes := UniqueNodeIDs (ef_ExitNodes f @ prev)\<rparr>))"

end
