(* ===== verification/Modules.thy ===== *)
theory Modules
  imports ModuleTasks
begin

text \<open>
  The modules of \<^verbatim>\<open>module/\<close>: for each one its constructor and its \<^verbatim>\<open>Plan\<close>, which asks its tasks and
  assembles their fragments. The log calls are left out.
\<close>

section \<open>Preflight, operating system and assets\<close>

definition NewPreflightConnectivityModule :: "tasks \<Rightarrow> BaseModule" where
  "NewPreflightConnectivityModule tw = NewBaseModule ''PreflightConnectivity'' [tw (Preflight CheckConnectivityTask)]"

definition PreflightConnectivityModule_Plan :: "tasks \<Rightarrow> ModuleContext \<Rightarrow> ExecutionFragment planning" where
  "PreflightConnectivityModule_Plan tw ctx = PlanTasks (mc_IsTaskContext ctx) (NewPreflightConnectivityModule tw)"

definition PreflightModule_GetTasks :: "tasks \<Rightarrow> bool \<Rightarrow> Task list" where
  "PreflightModule_GetTasks tw assumeYes =
     [tw (Preflight GreetingTask),
      tw (Preflight (ConfirmTask ''InitialConfirmation'' ''Proceed with KubeXM operations?'' assumeYes)),
      tw (Preflight (ExtractBundleTask [])),
      tw (Os InstallPrerequisitesTask),
      tw (Preflight PrepareAssetsTask),
      tw (Preflight InstallToolBinariesTask),
      tw (Preflight PreflightChecksTask),
      tw (Preflight VerifyArtifactsTask)]"

definition PreflightModule_Plan :: "tasks \<Rightarrow> ModuleContext \<Rightarrow> bool \<Rightarrow> ExecutionFragment planning" where
  "PreflightModule_Plan tw ctx assumeYes =
     and_then (task_context ctx ''PreflightChecksAndSetup'') (\<lambda>_.
       and_then (chain_tasks True (PreflightModule_GetTasks tw assumeYes) []
                   (NewExecutionFragment ''PreflightChecksAndSetup-Fragment'')) (\<lambda>(prev, f). calculate f))"

definition AssetsDownloadModule_GetTasks :: "tasks \<Rightarrow> string \<Rightarrow> Task list" where
  "AssetsDownloadModule_GetTasks tw outputPath =
     [tw (Preflight PrepareAssetsTask), tw (Preflight VerifyArtifactsTask), tw (Preflight (PackageAssetsTask outputPath))]"

definition AssetsDownloadModule_Plan :: "tasks \<Rightarrow> ModuleContext \<Rightarrow> string \<Rightarrow> ExecutionFragment planning" where
  "AssetsDownloadModule_Plan tw ctx outputPath =
     and_then (task_context ctx ''AssetsDownload'') (\<lambda>_.
       and_then (chain_tasks True (AssetsDownloadModule_GetTasks tw outputPath) []
                   (NewExecutionFragment ''AssetsDownload-Fragment'')) (\<lambda>(prev, f). calculate f))"

definition NewDownloadModule :: "tasks \<Rightarrow> BaseModule" where
  "NewDownloadModule tw = NewBaseModule ''Download'' [tw (Preflight DownloadAssetsTask)]"

definition DownloadModule_Plan :: "tasks \<Rightarrow> ModuleContext \<Rightarrow> ExecutionFragment planning" where
  "DownloadModule_Plan tw ctx = PlanTasks (mc_IsTaskContext ctx) (NewDownloadModule tw)"

definition NewOsModule :: "tasks \<Rightarrow> BaseModule" where
  "NewOsModule tw = NewBaseModule ''OSConfiguration''
     [tw (Os ConfigureHostTask), tw (Os DisableServicesTask), tw (Os ConfigureKernelTask)]"

definition OsModule_Plan :: "tasks \<Rightarrow> ModuleContext \<Rightarrow> ExecutionFragment planning" where
  "OsModule_Plan tw ctx = PlanTasks (mc_IsTaskContext ctx) (NewOsModule tw)"

definition NewOsCleanupModule :: "tasks \<Rightarrow> BaseModule" where
  "NewOsCleanupModule tw = NewBaseModule ''OsCleanup'' [tw (Os CleanOSNodesTask)]"

definition OsCleanupModule_Plan :: "tasks \<Rightarrow> ModuleContext \<Rightarrow> ExecutionFragment planning" where
  "OsCleanupModule_Plan tw ctx = PlanTasks (mc_IsTaskContext ctx) (NewOsCleanupModule tw)"

section \<open>Infrastructure\<close>

fun os_chain :: "ModuleContext \<Rightarrow> Task list \<Rightarrow> NodeID list \<Rightarrow> ExecutionFragment \<Rightarrow> (NodeID list \<times> ExecutionFragment) planning" where
  "os_chain ctx [] prev f = Done (prev, f)"
| "os_chain ctx (t # ts) prev f =
     and_then (planTask ctx t) (\<lambda>tf.
       case tf of
         None \<Rightarrow> os_chain ctx ts prev f
       | Some g \<Rightarrow>
           if length (ef_Nodes g) = 0 then os_chain ctx ts prev f
           else and_then (merge_task (tk_Name t) tf f) (\<lambda>f1.
             and_then (if length prev > 0 then link_task (tk_Name t) prev (ef_EntryNodes g) f1 else Done f1) (\<lambda>f2.
               os_chain ctx ts (ef_ExitNodes g) f2)))"

text \<open>The container runtime's task; \<open>isula\<close> and unknown types are refused.\<close>

definition runtime_task :: "ClusterSpec option \<Rightarrow> infra_task planning" where
  "runtime_task cfg =
     and_then (non_nil cfg) (\<lambda>c.
       case Option.bind (cs_Kubernetes c) ku_ContainerRuntime of
         None \<Rightarrow> Fails RuntimeSpecNil
       | Some ty \<Rightarrow>
           if ty = ''containerd'' then Done DeployContainerdTask
           else if ty = ''docker'' then Done DeployDockerTask
           else if ty = ''cri-o'' then Done DeployCrioTask
           else Fails (UnsupportedRuntime ty))"

text \<open>Planned, merged and linked behind \<open>prev\<close> without a test for emptiness.\<close>

definition add_after :: "ModuleContext \<Rightarrow> Task \<Rightarrow> NodeID list \<Rightarrow> ExecutionFragment \<Rightarrow> (ExecutionFragment \<times> ExecutionFragment) planning" where
  "add_after ctx t prev f =
     and_then (planTask ctx t) (\<lambda>tf.
       and_then (merge_task (tk_Name t) tf f) (\<lambda>f1.
         and_then (non_nil tf) (\<lambda>g.
           and_then (link_task (tk_Name t) prev (ef_EntryNodes g) f1) (\<lambda>f2. Done (g, f2)))))"

definition InfrastructureModule_Plan :: "tasks \<Rightarrow> ModuleContext \<Rightarrow> ExecutionFragment planning" where
  "InfrastructureModule_Plan tw ctx =
     and_then (os_chain ctx [tw (Os ConfigureHostTask), tw (Os DisableServicesTask), tw (Os ConfigureKernelTask)] []
                 (NewExecutionFragment ''CoreInfrastructureSetup-Fragment'')) (\<lambda>(lastOs, f0).
     and_then (add_after ctx (tw (Infra GenerateEtcdPKITask)) lastOs f0) (\<lambda>(pki, f1).
     and_then (add_after ctx (tw (Infra DeployEtcdClusterTask)) (ef_ExitNodes pki) f1) (\<lambda>(etcd, f2).
     and_then (runtime_task (mc_ClusterConfig ctx)) (\<lambda>rt.
     and_then (add_after ctx (tw (Infra rt)) lastOs f2) (\<lambda>(runtime, f3).
       calculate (f3\<lparr>ef_ExitNodes := UniqueNodeIDs (ef_ExitNodes etcd @ ef_ExitNodes runtime)\<rparr>))))))"

definition RuntimeModule_Plan :: "tasks \<Rightarrow> ModuleContext \<Rightarrow> ExecutionFragment planning" where
  "RuntimeModule_Plan tw ctx =
     and_then (task_context ctx ''ContainerRuntime'') (\<lambda>_.
     and_then (runtime_task (mc_ClusterConfig ctx)) (\<lambda>rt.
     and_then (ask_plan (tw (Infra rt))) (\<lambda>tf.
     and_then (merge_task (tk_Name (tw (Infra rt))) tf (NewExecutionFragment ''ContainerRuntime-Fragment'')) (\<lambda>f.
     and_then (non_nil tf) (\<lambda>g.
       Done (f\<lparr>ef_EntryNodes := ef_EntryNodes g, ef_ExitNodes := ef_ExitNodes g\<rparr>))))))"

definition RuntimeCleanupModule_Plan :: "tasks \<Rightarrow> ModuleContext \<Rightarrow> ExecutionFragment planning" where
  "RuntimeCleanupModule_Plan tw ctx =
     and_then (task_context ctx ''ContainerRuntimeCleanup'') (\<lambda>_.
     and_then (non_nil (mc_ClusterConfig ctx)) (\<lambda>c.
       case Option.bind (cs_Kubernetes c) ku_ContainerRuntime of
         None \<Rightarrow> Done (NewEmptyFragment ''ContainerRuntimeCleanup'')
       | Some ty \<Rightarrow>
           let clean = (\<lambda>t.
             and_then (ask_plan t) (\<lambda>tf.
             and_then (merge_task (tk_Name t) tf (NewExecutionFragment ''ContainerRuntimeCleanup-Fragment'')) (\<lambda>f.
             and_then (non_nil tf) (\<lambda>g.
               Done (f\<lparr>ef_EntryNodes := ef_EntryNodes g, ef_ExitNodes := ef_ExitNodes g\<rparr>)))))
           in if ty = ''containerd'' then clean (tw (Infra CleanContainerdTask))
              else if ty = ''docker'' then clean (tw (Infra CleanDockerTask))
              else if ty = ''cri-o'' then clean (tw (Infra CleanCrioTask))
              else Done (NewEmptyFragment ''ContainerRuntimeCleanup'')))"

text \<open>Runtime-specific modules: enabled by the configured type only.\<close>

definition runtime_is :: "string \<Rightarrow> ClusterSpec \<Rightarrow> bool" where
  "runtime_is ty c \<longleftrightarrow> Option.bind (cs_Kubernetes c) ku_ContainerRuntime = Some ty"

definition ContainerdModule_Plan :: "tasks \<Rightarrow> ModuleContext \<Rightarrow> ExecutionFragment planning" where
  "ContainerdModule_Plan tw ctx =
     and_then (non_nil (mc_ClusterConfig ctx)) (\<lambda>c.
       if \<not> runtime_is ''containerd'' c then Done (NewEmptyFragment ''ContainerdRuntime'')
       else and_then (effective_tasks copy_nodes link_append ctx ''ContainerdRuntime'' [tw (Infra DeployContainerdTask)]
                        [] True (NewExecutionFragment ''ContainerdRuntime-Fragment'')) finish_effective)"

definition ContainerdCleanupModule_Plan :: "tasks \<Rightarrow> ModuleContext \<Rightarrow> ExecutionFragment planning" where
  "ContainerdCleanupModule_Plan tw ctx =
     and_then (non_nil (mc_ClusterConfig ctx)) (\<lambda>c.
       if \<not> runtime_is ''containerd'' c then Done (NewEmptyFragment ''ContainerdCleanup'')
       else and_then (effective_tasks copy_nodes link_unique ctx ''ContainerdCleanup'' [tw (Infra CleanContainerdTask)]
                        [] True (NewExecutionFragment ''ContainerdCleanup-Fragment'')) finish_effective)"

definition DockerModule_Plan :: "tasks \<Rightarrow> ModuleContext \<Rightarrow> ExecutionFragment planning" where
  "DockerModule_Plan tw ctx =
     and_then (non_nil (mc_ClusterConfig ctx)) (\<lambda>c.
       if \<not> runtime_is ''docker'' c then Done (NewEmptyFragment ''DockerCriDockerdRuntime'')
       else and_then (effective_tasks copy_nodes link_append ctx ''DockerCriDockerdRuntime'' [tw (Infra DeployDockerTask)]
                        [] True (NewExecutionFragment ''DockerCriDockerdRuntime-Fragment'')) finish_effective)"

text \<open>The etcd module asks both tasks and links the installation behind the certificates.\<close>

definition EtcdModule_Plan :: "tasks \<Rightarrow> ModuleContext \<Rightarrow> ExecutionFragment planning" where
  "EtcdModule_Plan tw ctx =
     and_then (non_nil (mc_ClusterConfig ctx)) (\<lambda>c.
       if cs_Etcd c = None then Done (NewEmptyFragment ''ETCDClusterManagement'')
       else and_then (task_context ctx ''EtcdModule'') (\<lambda>_.
         and_then (optional_task (tw (Infra GenerateEtcdPKITask))
                     (\<lambda>g f1. Done (ef_ExitNodes g, f1\<lparr>ef_EntryNodes := ef_EntryNodes f1 @ ef_EntryNodes g\<rparr>))
                     ([], NewExecutionFragment ''ETCDClusterManagement-Fragment'')
                     (NewExecutionFragment ''ETCDClusterManagement-Fragment'')) (\<lambda>(prev, f).
         and_then (optional_task (tw (Infra DeployEtcdClusterTask))
                     (\<lambda>g f1.
                        if length prev > 0
                        then and_then (link_unique ''InstallETCDTask'' prev (ef_EntryNodes g) f1) (\<lambda>f2. Done (ef_ExitNodes g, f2))
                        else Done (ef_ExitNodes g, f1\<lparr>ef_EntryNodes := ef_EntryNodes f1 @ ef_EntryNodes g\<rparr>))
                     (prev, f) f) (\<lambda>(prev', f').
           let f'' = f'\<lparr>ef_EntryNodes := UniqueNodeIDs (ef_EntryNodes f'), ef_ExitNodes := UniqueNodeIDs prev'\<rparr>
           in if length (ef_Nodes f'') = 0 then Done (NewEmptyFragment ''ETCDClusterManagement'') else Done f''))))"

definition EtcdCleanupModule_Plan :: "tasks \<Rightarrow> ModuleContext \<Rightarrow> ExecutionFragment planning" where
  "EtcdCleanupModule_Plan tw ctx =
     and_then (non_nil (mc_ClusterConfig ctx)) (\<lambda>c.
       if (case cs_Etcd c of None \<Rightarrow> True | Some e \<Rightarrow> et_HasExternal e) then Done (NewEmptyFragment ''EtcdClusterCleanup'')
       else and_then (effective_tasks copy_nodes link_unique ctx ''EtcdClusterCleanup'' [tw (Infra CleanEtcdTask)]
                        [] True (NewExecutionFragment ''EtcdClusterCleanup-Fragment'')) finish_effective)"

section \<open>Kubernetes\<close>

definition kube_type :: "ClusterSpec \<Rightarrow> string" where
  "kube_type c =
     (let ty = (case cs_Kubernetes c of None \<Rightarrow> [] | Some k \<Rightarrow> ku_Type k)
      in if ty = [] then ''kubeadm'' else ty)"

text \<open>A task whose entries become entries of the module, and one that is linked behind \<open>prev\<close>.\<close>

definition entry_step :: "Task \<Rightarrow> NodeID list \<times> ExecutionFragment \<Rightarrow> (NodeID list \<times> ExecutionFragment) planning" where
  "entry_step t s =
     optional_task t (\<lambda>g f1. Done (ef_ExitNodes g, f1\<lparr>ef_EntryNodes := ef_EntryNodes f1 @ ef_EntryNodes g\<rparr>)) s (snd s)"

definition linked_step :: "Task \<Rightarrow> NodeID list \<times> ExecutionFragment \<Rightarrow> (NodeID list \<times> ExecutionFragment) planning" where
  "linked_step t s =
     optional_task t (\<lambda>g f1.
       and_then (link_task (tk_Name t) (fst s) (ef_EntryNodes g) f1) (\<lambda>f2. Done (ef_ExitNodes g, f2))) s (snd s)"

definition unique_ends :: "string \<Rightarrow> NodeID list \<Rightarrow> ExecutionFragment \<Rightarrow> ExecutionFragment planning" where
  "unique_ends nm exits f =
     (if length (ef_Nodes f) = 0 then Done (NewEmptyFragment nm)
      else Done (f\<lparr>ef_EntryNodes := UniqueNodeIDs (ef_EntryNodes f), ef_ExitNodes := UniqueNodeIDs exits\<rparr>))"

definition KubeadmControlPlaneModule_Plan :: "tasks \<Rightarrow> ModuleContext \<Rightarrow> ExecutionFragment planning" where
  "KubeadmControlPlaneModule_Plan tw ctx =
     and_then (task_context ctx ''KubeadmControlPlane'') (\<lambda>_.
     let install = tw (Kubeadm InstallKubeComponentsTask); f0 = NewExecutionFragment ''KubeadmControlPlane-Fragment'' in
     and_then (ask_plan install) (\<lambda>tf.
     and_then (merge_task (tk_Name install) tf f0) (\<lambda>f1.
     and_then (non_nil tf) (\<lambda>g.
     and_then (linked_step (tw (Kubeadm BootstrapFirstMasterTask))
                 (UniqueNodeIDs (ef_ExitNodes g), f1\<lparr>ef_EntryNodes := ef_EntryNodes f1 @ ef_EntryNodes g\<rparr>)) (\<lambda>s2.
     and_then (linked_step (tw (Kubeadm JoinMastersTask)) s2) (\<lambda>(prev, f).
       unique_ends ''KubeadmControlPlane'' prev f))))))"

definition KubeadmWorkerModule_Plan :: "tasks \<Rightarrow> ModuleContext \<Rightarrow> ExecutionFragment planning" where
  "KubeadmWorkerModule_Plan tw ctx =
     and_then (task_context ctx ''KubeadmWorker'') (\<lambda>_.
     and_then (entry_step (tw (Kubeadm InstallKubeComponentsTask)) ([], NewExecutionFragment ''KubeadmWorker-Fragment'')) (\<lambda>(exits, f).
     and_then (linked_step (tw (Kubeadm JoinWorkersTask)) (UniqueNodeIDs exits, f)) (\<lambda>(prev, f').
       unique_ends ''KubeadmWorker'' prev f')))"

text \<open>
  The kubexm control plane: the configuration task (third) is not linked behind the kubeconfigs,
  and the exits are those of the last task only. The tests for a non-empty \<open>prev\<close> in front of the
  links are covered by \<^verbatim>\<open>LinkFragments\<close>, which does nothing for an empty list.
\<close>

definition KubexmControlPlaneModule_Plan :: "tasks \<Rightarrow> ModuleContext \<Rightarrow> ExecutionFragment planning" where
  "KubexmControlPlaneModule_Plan tw ctx =
     and_then (task_context ctx ''KubexmControlPlane'') (\<lambda>_.
     and_then (entry_step (tw (Kubexm GenerateKubePKITask)) ([], NewExecutionFragment ''KubexmControlPlane-Fragment'')) (\<lambda>s1.
     and_then (linked_step (tw (Kubexm GenerateControlPlaneKubeconfigsTask)) s1) (\<lambda>s2.
     and_then (entry_step (tw (Kubexm ConfigureControlPlaneTask)) s2) (\<lambda>s3.
     and_then (linked_step (tw (Kubexm StartControlPlaneTask)) s3) (\<lambda>s4.
     and_then (linked_step (tw (Kubexm GenerateAdminKubeconfigTask)) s4) (\<lambda>s5.
     and_then (linked_step (tw (Kubexm KubexmJoinMastersTask)) s5) (\<lambda>(prev, f).
       unique_ends ''KubexmControlPlane'' prev f)))))))"

definition KubexmWorkerModule_Plan :: "tasks \<Rightarrow> ModuleContext \<Rightarrow> ExecutionFragment planning" where
  "KubexmWorkerModule_Plan tw ctx =
     and_then (task_context ctx ''KubexmWorker'') (\<lambda>_.
     and_then (optional_task (tw (Kubexm DeployWorkerNodesTask))
                 (\<lambda>g f1. Done (f1\<lparr>ef_EntryNodes := ef_EntryNodes g, ef_ExitNodes := ef_ExitNodes g\<rparr>))
                 (NewExecutionFragment ''KubexmWorker-Fragment'') (NewExecutionFragment ''KubexmWorker-Fragment'')) (\<lambda>f.
       unique_ends ''KubexmWorker'' (ef_ExitNodes f) f))"

datatype kube_mode = KubeadmMode | KubexmMode

definition NewControlPlaneModuleForType :: "string \<Rightarrow> kube_mode" where
  "NewControlPlaneModuleForType ty =
     (let ty' = (if ty = [] then ''kubeadm'' else ty)
      in if ty' = ''kubeadm'' then KubeadmMode else if ty' = ''kubexm'' then KubexmMode else KubeadmMode)"

definition NewWorkerModuleForType :: "string \<Rightarrow> kube_mode" where
  "NewWorkerModuleForType ty =
     (let ty' = (if ty = [] then ''kubeadm'' else ty)
      in if ty' = ''kubeadm'' then KubeadmMode else if ty' = ''kubexm'' then KubexmMode else KubeadmMode)"

definition ControlPlaneModule_Plan :: "tasks \<Rightarrow> ModuleContext \<Rightarrow> ExecutionFragment planning" where
  "ControlPlaneModule_Plan tw ctx =
     and_then (task_context ctx ''KubernetesControlPlaneSetup'') (\<lambda>_.
     and_then (non_nil (mc_ClusterConfig ctx)) (\<lambda>c.
       case NewControlPlaneModuleForType (kube_type c) of
         KubeadmMode \<Rightarrow> KubeadmControlPlaneModule_Plan tw ctx
       | KubexmMode \<Rightarrow> KubexmControlPlaneModule_Plan tw ctx))"

definition WorkerModule_Plan :: "tasks \<Rightarrow> ModuleContext \<Rightarrow> ExecutionFragment planning" where
  "WorkerModule_Plan tw ctx =
     and_then (task_context ctx ''KubernetesWorkerSetup'') (\<lambda>_.
     and_then (non_nil (mc_ClusterConfig ctx)) (\<lambda>c.
       case NewWorkerModuleForType (kube_type c) of
         KubeadmMode \<Rightarrow> KubeadmWorkerModule_Plan tw ctx
       | KubexmMode \<Rightarrow> KubexmWorkerModule_Plan tw ctx))"

definition ControlPlaneCleanupModule_Plan :: "tasks \<Rightarrow> ModuleContext \<Rightarrow> ExecutionFragment planning" where
  "ControlPlaneCleanupModule_Plan tw ctx =
     and_then (effective_tasks copy_nodes link_unique ctx ''KubernetesControlPlaneCleanup''
                 [tw (Kubeadm CleanKubernetesTask), tw (Kubeadm CleanKubeComponentsTask)]
                 [] True (NewExecutionFragment ''KubernetesControlPlaneCleanup-Fragment'')) finish_effective"

definition WorkerCleanupModule_Plan :: "tasks \<Rightarrow> ModuleContext \<Rightarrow> ExecutionFragment planning" where
  "WorkerCleanupModule_Plan tw ctx =
     and_then (task_context ctx ''WorkerCleanup'') (\<lambda>_.
     and_then (PlanSingleTask (tw (Kubeadm DrainNodeTask))) (\<lambda>drain.
     and_then (PlanSingleTask (tw (Kubeadm ResetNodeTask))) (\<lambda>reset.
     and_then (merge_task ''drain'' (Some drain) (NewExecutionFragment ''WorkerCleanup-Fragment'')) (\<lambda>f1.
     and_then (merge_task ''reset'' (Some reset) f1) (\<lambda>f2.
     and_then (link_task ''reset'' (ef_ExitNodes drain) (ef_EntryNodes reset) f2) calculate)))))"

text \<open>The upgrades read \<^verbatim>\<open>Spec.Kubernetes.Type\<close> without a test for nil.\<close>

definition upgrade_type :: "ClusterSpec option \<Rightarrow> string planning" where
  "upgrade_type cfg =
     and_then (non_nil cfg) (\<lambda>c.
     and_then (non_nil (cs_Kubernetes c)) (\<lambda>k.
       Done (if ku_Type k = [] then ''kubeadm'' else ku_Type k)))"

definition ControlPlaneUpgradeModule_Plan :: "tasks \<Rightarrow> ModuleContext \<Rightarrow> string \<Rightarrow> ExecutionFragment planning" where
  "ControlPlaneUpgradeModule_Plan tw ctx targetVersion =
     and_then (task_context ctx ''ControlPlaneUpgrade'') (\<lambda>_.
     and_then (upgrade_type (mc_ClusterConfig ctx)) (\<lambda>ty.
       let f0 = NewExecutionFragment ''ControlPlaneUpgrade-Fragment''; t = tw (Kubeadm (UpgradeControlPlaneTask targetVersion)) in
       and_then
         (if ty = ''kubeadm''
          then and_then (ask_plan t) (\<lambda>tf. and_then (merge_task (tk_Name t) tf f0) (\<lambda>f1. and_then (non_nil tf) (\<lambda>_. Done f1)))
          else Done f0) (\<lambda>f.
         if length (ef_Nodes f) = 0 then Done (NewEmptyFragment ''ControlPlaneUpgrade'') else calculate f)))"

definition WorkerUpgradeModule_Plan :: "tasks \<Rightarrow> ModuleContext \<Rightarrow> string \<Rightarrow> ExecutionFragment planning" where
  "WorkerUpgradeModule_Plan tw ctx targetVersion =
     and_then (task_context ctx ''WorkerUpgrade'') (\<lambda>_.
     and_then (upgrade_type (mc_ClusterConfig ctx)) (\<lambda>ty.
       if ty = ''kubeadm'' then PlanSingleTask (tw (Kubeadm (UpgradeWorkersTask targetVersion)))
       else Done (NewEmptyFragment ''WorkerUpgrade'')))"

definition NetworkUpgradeModule_Plan :: "tasks \<Rightarrow> ModuleContext \<Rightarrow> ExecutionFragment planning" where
  "NetworkUpgradeModule_Plan tw ctx =
     and_then (task_context ctx ''NetworkUpgrade'') (\<lambda>_.
     let t = tw (Addons InstallNetworkPluginTask) in
     and_then (ask_plan t) (\<lambda>tf.
       if Fragment_IsEmpty tf then Done (NewEmptyFragment ''NetworkUpgrade'')
       else and_then (merge_task (tk_Name t) tf (NewExecutionFragment ''NetworkUpgrade-Fragment'')) calculate))"

text \<open>Modules without tasks.\<close>

definition KubeletModule_Plan :: "ModuleContext \<Rightarrow> ExecutionFragment planning" where
  "KubeletModule_Plan ctx =
     and_then (effective_tasks copy_nodes link_unique ctx ''KubernetesKubeletSetup'' [] [] True
                 (NewExecutionFragment ''KubernetesKubeletSetup-Fragment'')) finish_effective"

text \<open>The node reset module has no tasks yet; its loop links with sorted unions behind the previous task.\<close>

fun reset_tasks :: "Task list \<Rightarrow> NodeID list \<Rightarrow> bool \<Rightarrow> ExecutionFragment \<Rightarrow> ExecutionFragment planning" where
  "reset_tasks [] prev processed f = Done f"
| "reset_tasks (t # ts) prev processed f =
     and_then (ask_required t) (\<lambda>required.
       if \<not> required then reset_tasks ts prev processed f
       else and_then (ask_plan t) (\<lambda>tf.
         case tf of
           None \<Rightarrow> reset_tasks ts prev processed f
         | Some g \<Rightarrow>
             if length (ef_Nodes g) = 0 then reset_tasks ts prev processed f
             else and_then (merge_task (tk_Name t) tf f) (\<lambda>f1.
               and_then
                 (if processed \<and> length prev > 0 \<and> length (ef_EntryNodes g) > 0
                  then link_unique (tk_Name t) prev (ef_EntryNodes g) f1 else Done f1) (\<lambda>f2.
                 reset_tasks ts (ef_ExitNodes g) True f2))))"

definition NodeResetModule_Plan :: "ModuleContext \<Rightarrow> ExecutionFragment planning" where
  "NodeResetModule_Plan ctx =
     and_then (task_context ctx ''KubernetesNodeReset'') (\<lambda>_.
       and_then (reset_tasks [] [] False (NewExecutionFragment ''KubernetesNodeReset-Fragment'')) calculate)"

definition ClusterBootstrapModule_Plan :: "ExecutionFragment planning" where
  "ClusterBootstrapModule_Plan = Done (NewEmptyFragment ''KubernetesClusterBootstrap'')"

definition ClusterReadyModule_Plan :: "ExecutionFragment planning" where
  "ClusterReadyModule_Plan = Done (NewEmptyFragment ''ClusterFinalConfiguration'')"

definition CoreComponentsModule_Plan :: "ExecutionFragment planning" where
  "CoreComponentsModule_Plan = Done (NewEmptyFragment ''CoreComponentsInstallation'')"

definition ISCSIModule_Plan :: "ExecutionFragment planning" where
  "ISCSIModule_Plan = Done (NewEmptyFragment ''ISCSIClientManagement'')"

section \<open>Network and add-ons\<close>

definition NetworkModule_Plan :: "tasks \<Rightarrow> ModuleContext \<Rightarrow> ExecutionFragment planning" where
  "NetworkModule_Plan tw ctx =
     and_then (task_context ctx ''KubernetesNetworkSetup'') (\<lambda>_.
     let t = tw (Addons InstallNetworkPluginTask) in
     and_then (ask_required t) (\<lambda>required.
       if \<not> required then Done (NewEmptyFragment ''KubernetesNetworkSetup'')
       else and_then (ask_plan t) (\<lambda>tf.
         and_then (merge_task (tk_Name t) tf (NewExecutionFragment ''KubernetesNetworkSetup-Fragment'')) (\<lambda>f.
         and_then (non_nil tf) (\<lambda>g.
           if length (ef_Nodes f) = 0 then Done (NewEmptyFragment ''KubernetesNetworkSetup'')
           else Done (f\<lparr>ef_EntryNodes := ef_EntryNodes g, ef_ExitNodes := ef_ExitNodes g\<rparr>))))))"

definition NetworkCleanupModule_Plan :: "tasks \<Rightarrow> ModuleContext \<Rightarrow> ExecutionFragment planning" where
  "NetworkCleanupModule_Plan tw ctx =
     and_then (non_nil (mc_ClusterConfig ctx)) (\<lambda>c.
       if cs_Network c = None \<or> cs_Network c = Some [] then Done (NewEmptyFragment ''NetworkCleanup'')
       else PlanTasks (mc_IsTaskContext ctx) (NewBaseModule ''NetworkCleanup'' [tw (Addons CleanNetworkPluginTask)]))"

text \<open>The Calico module has no tasks; its loop merges and links with the plan package's functions.\<close>

definition CalicoModule_Plan :: "ModuleContext \<Rightarrow> ExecutionFragment planning" where
  "CalicoModule_Plan ctx =
     and_then (non_nil (mc_ClusterConfig ctx)) (\<lambda>c.
       if cs_Network c \<noteq> Some ''calico'' then Done (NewEmptyFragment ''CNICalicoSetup'')
       else and_then (effective_tasks (\<lambda>nm g. merge_task nm (Some g)) link_task ctx ''CNICalicoSetup'' [] [] True
                        (NewExecutionFragment ''CNICalicoSetup-Fragment'')) finish_effective)"

text \<open>An add-on whose \<^verbatim>\<open>Enabled\<close> is nil is switched on in the configuration.\<close>

definition enable_addon :: "Addon \<Rightarrow> Addon" where
  "enable_addon a = (if ad_Enabled a = None then a\<lparr>ad_Enabled := Some True\<rparr> else a)"

definition AddonsModule_GetTasks :: "ClusterSpec \<Rightarrow> task_kind list \<times> ClusterSpec" where
  "AddonsModule_GetTasks c =
     (if length (cs_Addons c) = 0 then ([], c)
      else (map (\<lambda>a. Addons (InstallAddonTask (enable_addon a))) (cs_Addons c),
            c\<lparr>cs_Addons := map enable_addon (cs_Addons c)\<rparr>))"

text \<open>Add-ons are merged side by side; entries and exits are collected.\<close>

fun parallel_tasks :: "Task list \<Rightarrow> NodeID list \<Rightarrow> NodeID list \<Rightarrow> ExecutionFragment \<Rightarrow>
    (NodeID list \<times> NodeID list \<times> ExecutionFragment) planning" where
  "parallel_tasks [] entries exits f = Done (entries, exits, f)"
| "parallel_tasks (t # ts) entries exits f =
     and_then (ask_required t) (\<lambda>required.
       if \<not> required then parallel_tasks ts entries exits f
       else and_then (ask_plan t) (\<lambda>tf.
         case tf of
           None \<Rightarrow> parallel_tasks ts entries exits f
         | Some g \<Rightarrow>
             if length (ef_Nodes g) = 0 then parallel_tasks ts entries exits f
             else and_then (merge_task (tk_Name t) tf f) (\<lambda>f1.
               parallel_tasks ts (entries @ ef_EntryNodes g) (exits @ ef_ExitNodes g) f1)))"

definition AddonsModule_Plan :: "tasks \<Rightarrow> ModuleContext \<Rightarrow> ExecutionFragment planning" where
  "AddonsModule_Plan tw ctx =
     and_then (task_context ctx ''ClusterAddonsDeployment'') (\<lambda>_.
     and_then (non_nil (mc_ClusterConfig ctx)) (\<lambda>c.
       let ts = map tw (fst (AddonsModule_GetTasks c)) in
       if length ts = 0 then Done (NewEmptyFragment ''ClusterAddonsDeployment'')
       else and_then (parallel_tasks ts [] [] (NewExecutionFragment ''ClusterAddonsDeployment-Fragment'')) (\<lambda>(entries, exits, f).
         if length (ef_Nodes f) = 0 then Done (NewEmptyFragment ''ClusterAddonsDeployment'')
         else Done (f\<lparr>ef_EntryNodes := UniqueNodeIDs entries, ef_ExitNodes := UniqueNodeIDs exits\<rparr>))))"

text \<open>The ending the chained modules share: an empty fragment when no exit nodes were left.\<close>

definition chained :: "string \<Rightarrow> bool \<Rightarrow> Task list \<Rightarrow> ExecutionFragment planning" where
  "chained nm ask ts =
     and_then (chain_tasks ask ts [] (NewExecutionFragment (nm @ ''-Fragment''))) (\<lambda>(prev, f).
       if length prev = 0 then Done (NewEmptyFragment nm) else calculate f)"

definition AddonCleanupModule_Plan :: "tasks \<Rightarrow> ModuleContext \<Rightarrow> ExecutionFragment planning" where
  "AddonCleanupModule_Plan tw ctx =
     and_then (task_context ctx ''AddonCleanup'') (\<lambda>_.
       case mc_ClusterConfig ctx of
         None \<Rightarrow> Done (NewEmptyFragment ''AddonCleanup'')
       | Some c \<Rightarrow>
           let ts = map (\<lambda>a. tw (Addons (CleanAddonTask a))) (filter (\<lambda>a. ad_Enabled a \<noteq> Some False) (cs_Addons c)) in
           if length (cs_Addons c) = 0 \<or> length ts = 0 then Done (NewEmptyFragment ''AddonCleanup'')
           else chained ''AddonCleanup'' False ts)"

section \<open>Load balancers and storage\<close>

definition ha_enabled :: "HighAvailability option \<Rightarrow> bool" where
  "ha_enabled ha \<longleftrightarrow> (\<exists>h. ha = Some h \<and> ha_Enabled h = Some True)"

definition lb_on :: "LoadBalancerConfig option \<Rightarrow> bool" where
  "lb_on l \<longleftrightarrow> (\<exists>x. l = Some x \<and> lb_Enabled x = Some True)"

lemma ha_enabled_code [code]: "ha_enabled ha = (case ha of None \<Rightarrow> False | Some h \<Rightarrow> ha_Enabled h = Some True)"
  by (cases ha) (auto simp: ha_enabled_def)

lemma lb_on_code [code]: "lb_on l = (case l of None \<Rightarrow> False | Some x \<Rightarrow> lb_Enabled x = Some True)"
  by (cases l) (auto simp: lb_on_def)

definition is_kubexm :: "ClusterSpec \<Rightarrow> bool" where
  "is_kubexm c \<longleftrightarrow> (case cs_Kubernetes c of None \<Rightarrow> False | Some k \<Rightarrow> ku_Type k = ''kubexm'')"

text \<open>Both functions read \<^verbatim>\<open>ControlPlaneEndpoint\<close> without a test for nil.\<close>

definition GetLoadBalancerTasks :: "ClusterSpec option \<Rightarrow> lb_task list planning" where
  "GetLoadBalancerTasks cfg =
     and_then (non_nil cfg) (\<lambda>c.
     and_then (non_nil (cs_ControlPlaneEndpoint c)) (\<lambda>ha.
       if \<not> ha_enabled ha then Done []
       else
         let h = the ha;
             ext = (if lb_on (ha_External h) then lb_Type (the (ha_External h)) else []);
             int = (if lb_on (ha_Internal h) then lb_Type (the (ha_Internal h)) else []);
             outer = (if ext = ''kubexm-kh'' then [InstallKeepalivedTask, DeployHAProxyAsDaemonTask]
                      else if ext = ''kubexm-kn'' then [InstallKeepalivedTask, DeployNginxAsDaemonTask]
                      else if ext = ''kube-vip'' then [DeployKubeVipTask] else []);
             inner = (if int = ''haproxy'' then [if is_kubexm c then DeployHAProxyOnWorkersTask else DeployHAProxyAsStaticPodTask]
                      else if int = ''nginx'' then [if is_kubexm c then DeployNginxOnWorkersTask else DeployNginxAsStaticPodTask]
                      else if int = ''kube-vip'' then [DeployKubeVipTask] else [])
         in if ext = ''external'' then Done [] else Done (outer @ inner)))"

definition GetLoadBalancerCleanupTasks :: "ClusterSpec option \<Rightarrow> lb_task list planning" where
  "GetLoadBalancerCleanupTasks cfg =
     and_then (non_nil cfg) (\<lambda>c.
     and_then (non_nil (cs_ControlPlaneEndpoint c)) (\<lambda>ha.
       if \<not> ha_enabled ha then Done []
       else
         let h = the ha;
             ext = (if lb_on (ha_External h) then lb_Type (the (ha_External h)) else []);
             int = (if lb_on (ha_Internal h) then lb_Type (the (ha_Internal h)) else []);
             outer = (if ext = ''kubexm-kh'' then [UninstallHAProxyAsDaemonTask, UninstallKeepalivedTask]
                      else if ext = ''kubexm-kn'' then [CleanNginxAsDaemonTask, UninstallKeepalivedTask]
                      else if ext = ''kube-vip'' then [CleanKubeVipTask] else []);
             inner = (if int = ''haproxy'' then [if is_kubexm c then CleanHAProxyOnWorkersTask else CleanHAProxyStaticPodTask]
                      else if int = ''nginx'' then [if is_kubexm c then CleanNginxOnWorkersTask else CleanNginxStaticPodTask]
                      else if int = ''kube-vip'' then [CleanKubeVipTask] else [])
         in if ext = ''external'' then Done [] else Done (outer @ inner)))"

text \<open>\<^verbatim>\<open>DeployLoadBalancerTask.Plan\<close> leaves the entry and exit lists of its fragment empty.\<close>

definition DeployLoadBalancerTask_Plan :: "tasks \<Rightarrow> ModuleContext \<Rightarrow> ExecutionFragment planning" where
  "DeployLoadBalancerTask_Plan tw ctx =
     and_then (GetLoadBalancerTasks (mc_ClusterConfig ctx)) (\<lambda>ts.
     and_then (chain_tasks False (map (\<lambda>t. tw (LoadBalancer t)) ts) [] (NewExecutionFragment ''DeployLoadBalancer'')) (\<lambda>(prev, f).
       if length prev = 0 then Done (NewEmptyFragment ''DeployLoadBalancer'') else Done f))"

definition DeployLoadBalancerTask_IsRequired :: "ModuleContext \<Rightarrow> bool" where
  "DeployLoadBalancerTask_IsRequired ctx =
     (case mc_ClusterConfig ctx of
        None \<Rightarrow> False
      | Some c \<Rightarrow> (case cs_ControlPlaneEndpoint c of None \<Rightarrow> False | Some ha \<Rightarrow> ha_enabled ha))"

definition LoadBalancerModule_Plan :: "tasks \<Rightarrow> ModuleContext \<Rightarrow> ExecutionFragment planning" where
  "LoadBalancerModule_Plan tw ctx =
     and_then (task_context ctx ''LoadBalancerSetup'') (\<lambda>_.
       if \<not> DeployLoadBalancerTask_IsRequired ctx then Done (NewEmptyFragment ''LoadBalancerSetup'')
       else and_then (DeployLoadBalancerTask_Plan tw ctx) (\<lambda>g.
         if length (ef_Nodes g) = 0 then Done (NewEmptyFragment ''LoadBalancerSetup'')
         else and_then (merge_task ''DeployLoadBalancer'' (Some g) (NewExecutionFragment ''LoadBalancerSetup-Fragment'')) (\<lambda>f.
           Done (f\<lparr>ef_EntryNodes := ef_EntryNodes g, ef_ExitNodes := ef_ExitNodes g\<rparr>))))"

definition LoadBalancerCleanupModule_Plan :: "tasks \<Rightarrow> ModuleContext \<Rightarrow> ExecutionFragment planning" where
  "LoadBalancerCleanupModule_Plan tw ctx =
     and_then (task_context ctx ''LoadBalancerCleanup'') (\<lambda>_.
     and_then (GetLoadBalancerCleanupTasks (mc_ClusterConfig ctx)) (\<lambda>ts.
     and_then (chain_tasks False (map (\<lambda>t. tw (LoadBalancer t)) ts) [] (NewExecutionFragment ''LoadBalancerCleanup-Fragment'')) (\<lambda>(prev, f).
       if length (ef_Nodes f) = 0 then Done (NewEmptyFragment ''LoadBalancerCleanup'') else calculate f)))"

definition enabled :: "bool option option \<Rightarrow> bool" where
  "enabled x \<longleftrightarrow> x = Some (Some True)"

definition DeployStorageTask_IsRequired :: "ModuleContext \<Rightarrow> bool" where
  "DeployStorageTask_IsRequired ctx =
     (case Option.bind (mc_ClusterConfig ctx) cs_Storage of
        None \<Rightarrow> False
      | Some so \<Rightarrow> enabled (so_Longhorn so) \<or> enabled (so_NFS so) \<or> enabled (so_OpenEBS so) \<or> enabled (so_RookCeph so))"

definition storage_tasks :: "storage_task \<Rightarrow> storage_task \<Rightarrow> storage_task \<Rightarrow> Storage \<Rightarrow> storage_task list" where
  "storage_tasks lh nfs ebs so =
     (if enabled (so_Longhorn so) then [lh] else []) @ (if enabled (so_NFS so) then [nfs] else [])
     @ (if enabled (so_OpenEBS so) then [ebs] else [])"

definition DeployStorageTask_Plan :: "tasks \<Rightarrow> ModuleContext \<Rightarrow> ExecutionFragment planning" where
  "DeployStorageTask_Plan tw ctx =
     (case Option.bind (mc_ClusterConfig ctx) cs_Storage of
        None \<Rightarrow> Done (NewEmptyFragment ''DeployStorage'')
      | Some so \<Rightarrow>
          if \<not> DeployStorageTask_IsRequired ctx then Done (NewEmptyFragment ''DeployStorage'')
          else and_then (chain_tasks False (map (\<lambda>t. tw (StorageT t)) (storage_tasks DeployLonghornTask DeployNfsTask DeployOpenebsTask so))
                           [] (NewExecutionFragment ''DeployStorage'')) (\<lambda>(prev, f).
            if length prev = 0 then Done (NewEmptyFragment ''DeployStorage'') else Done f))"

definition StorageModule_Plan :: "tasks \<Rightarrow> ModuleContext \<Rightarrow> ExecutionFragment planning" where
  "StorageModule_Plan tw ctx =
     and_then (task_context ctx ''StorageSetup'') (\<lambda>_.
       if \<not> DeployStorageTask_IsRequired ctx then Done (NewEmptyFragment ''StorageSetup'')
       else and_then (DeployStorageTask_Plan tw ctx) (\<lambda>g.
         if length (ef_Nodes g) = 0 then Done (NewEmptyFragment ''StorageSetup'')
         else and_then (merge_task ''DeployStorage'' (Some g) (NewExecutionFragment ''StorageSetup-Fragment'')) (\<lambda>f.
           Done (f\<lparr>ef_EntryNodes := ef_EntryNodes g, ef_ExitNodes := ef_ExitNodes g\<rparr>))))"

definition StorageCleanupModule_Plan :: "tasks \<Rightarrow> ModuleContext \<Rightarrow> ExecutionFragment planning" where
  "StorageCleanupModule_Plan tw ctx =
     and_then (task_context ctx ''StorageCleanup'') (\<lambda>_.
       case Option.bind (mc_ClusterConfig ctx) cs_Storage of
         None \<Rightarrow> Done (NewEmptyFragment ''StorageCleanup'')
       | Some so \<Rightarrow>
           let ts = map (\<lambda>t. tw (StorageT t)) (storage_tasks CleanLonghornTask CleanNfsTask CleanOpenebsTask so) in
           if length ts = 0 then Done (NewEmptyFragment ''StorageCleanup'') else chained ''StorageCleanup'' False ts)"

section \<open>Registry, backup, health, reconfiguration and certificates\<close>

definition NewRegistryModule :: "tasks \<Rightarrow> string \<Rightarrow> BaseModule" where
  "NewRegistryModule tw operation =
     NewBaseModule ''Registry'' (map (\<lambda>t. tw (Registry t))
       (if operation = ''uninstall''
        then [StopRegistryServiceTask, DisableRegistryServiceTask, RemoveRegistryArtifactsTask, RemoveRegistryDataTask]
        else [InstallRegistryTask, GenerateRegistryConfigTask, DistributeRegistryConfigTask, SetupRegistryServiceTask,
              StartRegistryServiceTask]))"

definition RegistryModule_Plan :: "tasks \<Rightarrow> ModuleContext \<Rightarrow> string \<Rightarrow> ExecutionFragment planning" where
  "RegistryModule_Plan tw ctx operation =
     and_then (task_context ctx ''Registry'') (\<lambda>_. chained ''Registry'' True (bm_ModuleTasks (NewRegistryModule tw operation)))"

definition NewBackupModule :: "tasks \<Rightarrow> string \<Rightarrow> BaseModule" where
  "NewBackupModule tw backupType =
     NewBaseModule ''Backup'' (map (\<lambda>t. tw (Maintenance t))
       (if backupType = ''pki'' then [BackupPKITask]
        else if backupType = ''etcd'' then [BackupEtcdTask]
        else if backupType = ''kubernetes'' then [BackupK8sConfigsTask]
        else [BackupPKITask, BackupEtcdTask, BackupK8sConfigsTask]))"

definition BackupModule_Plan :: "tasks \<Rightarrow> ModuleContext \<Rightarrow> string \<Rightarrow> ExecutionFragment planning" where
  "BackupModule_Plan tw ctx backupType =
     and_then (task_context ctx ''Backup'') (\<lambda>_. chained ''Backup'' True (bm_ModuleTasks (NewBackupModule tw backupType)))"

definition NewRestoreModule :: "tasks \<Rightarrow> string \<Rightarrow> string \<Rightarrow> BaseModule" where
  "NewRestoreModule tw restoreType snapshotPath =
     NewBaseModule ''Restore'' (map (\<lambda>t. tw (Maintenance t))
       (if restoreType = ''pki'' then [RestorePKITask]
        else if restoreType = ''etcd'' then [RestoreEtcdTask snapshotPath]
        else if restoreType = ''kubernetes'' then [RestoreK8sConfigsTask]
        else [RestorePKITask, RestoreEtcdTask snapshotPath, RestoreK8sConfigsTask]))"

definition RestoreModule_Plan :: "tasks \<Rightarrow> ModuleContext \<Rightarrow> string \<Rightarrow> string \<Rightarrow> ExecutionFragment planning" where
  "RestoreModule_Plan tw ctx restoreType snapshotPath =
     and_then (task_context ctx ''Restore'') (\<lambda>_.
       chained ''Restore'' True (bm_ModuleTasks (NewRestoreModule tw restoreType snapshotPath)))"

definition NewHealthModule :: "tasks \<Rightarrow> string \<Rightarrow> BaseModule" where
  "NewHealthModule tw component =
     NewBaseModule ''HealthCheck'' (map (\<lambda>t. tw (Maintenance t))
       (if component = ''all''
        then [CheckClusterHealthTask, CheckAPIServerHealthTask, CheckSchedulerHealthTask,
              CheckControllerManagerHealthTask, CheckKubeletHealthTask]
        else if component = ''apiserver'' then [CheckAPIServerHealthTask]
        else if component = ''scheduler'' then [CheckSchedulerHealthTask]
        else if component = ''controller-manager'' then [CheckControllerManagerHealthTask]
        else if component = ''kubelet'' then [CheckKubeletHealthTask]
        else [CheckClusterHealthTask]))"

definition HealthModule_Plan :: "tasks \<Rightarrow> ModuleContext \<Rightarrow> string \<Rightarrow> ExecutionFragment planning" where
  "HealthModule_Plan tw ctx component =
     and_then (task_context ctx ''HealthCheck'') (\<lambda>_. chained ''HealthCheck'' True (bm_ModuleTasks (NewHealthModule tw component)))"

definition NewReconfigureModule :: "tasks \<Rightarrow> string \<Rightarrow> BaseModule" where
  "NewReconfigureModule tw component =
     NewBaseModule ''Reconfigure'' (map (\<lambda>t. tw (Maintenance t))
       (if component = ''apiserver'' then [ReconfigureAPIServerTask]
        else if component = ''scheduler'' then [ReconfigureSchedulerTask]
        else if component = ''controller-manager'' then [ReconfigureControllerManagerTask]
        else if component = ''kubelet'' then [ReconfigureKubeletTask]
        else if component = ''proxy'' then [ReconfigureProxyTask]
        else if component = ''network'' then []
        else [ReconfigureAPIServerTask, ReconfigureSchedulerTask, ReconfigureControllerManagerTask,
              ReconfigureKubeletTask, ReconfigureProxyTask]))"

definition ReconfigureModule_Plan :: "tasks \<Rightarrow> ModuleContext \<Rightarrow> string \<Rightarrow> ExecutionFragment planning" where
  "ReconfigureModule_Plan tw ctx component =
     and_then (task_context ctx ''Reconfigure'') (\<lambda>_.
       chained ''Reconfigure'' True (bm_ModuleTasks (NewReconfigureModule tw component)))"

definition kubernetes_cert_tasks :: "pki_task list" where
  "kubernetes_cert_tasks =
     [GenerateClusterCertsTask, GenerateKubeconfigsTask, RolloutLeafCertsToMastersTask, RolloutK8sCABundleTask,
      FinalizeMastersTask, UpdateWorkerNodesTask, CleanupTask]"

definition etcd_cert_tasks :: "pki_task list" where
  "etcd_cert_tasks =
     [GenerateNewCertificatesTask, DeployNewLeafCertsRollingTask, DeployTrustBundleRollingTask,
      DeployFinalCARollingTask, FinalizeWorkspaceTask]"

definition NewPKIModule :: "tasks \<Rightarrow> string \<Rightarrow> BaseModule" where
  "NewPKIModule tw certType =
     NewBaseModule ''PKIRenewal'' (map (\<lambda>t. tw (Pki t))
       (if certType = ''kubernetes-ca'' \<or> certType = ''kubernetes-certs'' then kubernetes_cert_tasks
        else if certType = ''etcd-ca'' \<or> certType = ''etcd-certs'' then etcd_cert_tasks
        else if certType = ''all'' then kubernetes_cert_tasks @ etcd_cert_tasks
        else []))"

definition kubeadm_etcd :: "ClusterSpec option \<Rightarrow> bool" where
  "kubeadm_etcd cfg \<longleftrightarrow> (case Option.bind cfg cs_Etcd of None \<Rightarrow> False | Some e \<Rightarrow> et_Type e = ''kubeadm'')"

text \<open>For \<^verbatim>\<open>all\<close> with an etcd managed by kubeadm only a log line differs.\<close>

definition PKIModule_Plan :: "tasks \<Rightarrow> ModuleContext \<Rightarrow> string \<Rightarrow> ExecutionFragment planning" where
  "PKIModule_Plan tw ctx certType =
     (if (certType = ''etcd-ca'' \<or> certType = ''etcd-certs'') \<and> kubeadm_etcd (mc_ClusterConfig ctx)
      then Done (NewEmptyFragment ''PKIRenewal'')
      else if length (bm_ModuleTasks (NewPKIModule tw certType)) = 0 then Done (NewEmptyFragment ''PKIRenewal'')
      else and_then (PlanTasks (mc_IsTaskContext ctx) (NewPKIModule tw certType)) (\<lambda>f.
        if length (ef_Nodes f) = 0 then Done (NewEmptyFragment ''PKIRenewal'') else Done f))"

section \<open>The modules as one interface\<close>

datatype Module =
    PreflightConnectivityModule | PreflightModule bool | InfrastructureModule | LoadBalancerModule
  | ControlPlaneModule | NetworkModule | WorkerModule | AddonsModule
  | AddonCleanupModule | WorkerCleanupModule | ControlPlaneCleanupModule | NetworkCleanupModule
  | LoadBalancerCleanupModule | EtcdCleanupModule | RuntimeCleanupModule | StorageCleanupModule | OsCleanupModule
  | ControlPlaneUpgradeModule string | WorkerUpgradeModule string | NetworkUpgradeModule
  | OsModule | EtcdModule | RuntimeModule
  | PKIModule string | RegistryModule string | BackupModule string | RestoreModule string string
  | HealthModule string | ReconfigureModule string | AssetsDownloadModule string

text \<open>
  \<^verbatim>\<open>Name\<close> as the pipelines call it after \<^verbatim>\<open>Plan\<close>: a control plane or worker module that has chosen its
  delegate answers with the delegate's name.
\<close>

definition delegate_Name :: "ModuleContext \<Rightarrow> string \<Rightarrow> (string \<Rightarrow> kube_mode) \<Rightarrow> string \<Rightarrow> string \<Rightarrow> string" where
  "delegate_Name ctx base pick kubeadm kubexm =
     (case mc_ClusterConfig ctx of
        None \<Rightarrow> base
      | Some c \<Rightarrow>
          if \<not> mc_IsTaskContext ctx then base
          else (case pick (kube_type c) of KubeadmMode \<Rightarrow> kubeadm | KubexmMode \<Rightarrow> kubexm))"

fun Module_Name :: "ModuleContext \<Rightarrow> Module \<Rightarrow> string" where
  "Module_Name ctx PreflightConnectivityModule = ''PreflightConnectivity''"
| "Module_Name ctx (PreflightModule _) = ''PreflightChecksAndSetup''"
| "Module_Name ctx InfrastructureModule = ''CoreInfrastructureSetup''"
| "Module_Name ctx LoadBalancerModule = ''LoadBalancerSetup''"
| "Module_Name ctx ControlPlaneModule =
     delegate_Name ctx ''KubernetesControlPlaneSetup'' NewControlPlaneModuleForType ''KubeadmControlPlane'' ''KubexmControlPlane''"
| "Module_Name ctx NetworkModule = ''KubernetesNetworkSetup''"
| "Module_Name ctx WorkerModule =
     delegate_Name ctx ''KubernetesWorkerSetup'' NewWorkerModuleForType ''KubeadmWorker'' ''KubexmWorker''"
| "Module_Name ctx AddonsModule = ''ClusterAddonsDeployment''"
| "Module_Name ctx AddonCleanupModule = ''AddonCleanup''"
| "Module_Name ctx WorkerCleanupModule = ''WorkerCleanup''"
| "Module_Name ctx ControlPlaneCleanupModule = ''KubernetesControlPlaneCleanup''"
| "Module_Name ctx NetworkCleanupModule = ''NetworkCleanup''"
| "Module_Name ctx LoadBalancerCleanupModule = ''LoadBalancerCleanup''"
| "Module_Name ctx EtcdCleanupModule = ''EtcdClusterCleanup''"
| "Module_Name ctx RuntimeCleanupModule = ''ContainerRuntimeCleanup''"
| "Module_Name ctx StorageCleanupModule = ''StorageCleanup''"
| "Module_Name ctx OsCleanupModule = ''OsCleanup''"
| "Module_Name ctx (ControlPlaneUpgradeModule _) = ''ControlPlaneUpgrade''"
| "Module_Name ctx (WorkerUpgradeModule _) = ''WorkerUpgrade''"
| "Module_Name ctx NetworkUpgradeModule = ''NetworkUpgrade''"
| "Module_Name ctx OsModule = ''OSConfiguration''"
| "Module_Name ctx EtcdModule = ''ETCDClusterManagement''"
| "Module_Name ctx RuntimeModule = ''ContainerRuntime''"
| "Module_Name ctx (PKIModule _) = ''PKIRenewal''"
| "Module_Name ctx (RegistryModule _) = ''Registry''"
| "Module_Name ctx (BackupModule _) = ''Backup''"
| "Module_Name ctx (RestoreModule _ _) = ''Restore''"
| "Module_Name ctx (HealthModule _) = ''HealthCheck''"
| "Module_Name ctx (ReconfigureModule _) = ''Reconfigure''"
| "Module_Name ctx (AssetsDownloadModule _) = ''AssetsDownload''"

fun Module_Plan :: "tasks \<Rightarrow> ModuleContext \<Rightarrow> Module \<Rightarrow> ExecutionFragment planning" where
  "Module_Plan tw ctx PreflightConnectivityModule = PreflightConnectivityModule_Plan tw ctx"
| "Module_Plan tw ctx (PreflightModule y) = PreflightModule_Plan tw ctx y"
| "Module_Plan tw ctx InfrastructureModule = InfrastructureModule_Plan tw ctx"
| "Module_Plan tw ctx LoadBalancerModule = LoadBalancerModule_Plan tw ctx"
| "Module_Plan tw ctx ControlPlaneModule = ControlPlaneModule_Plan tw ctx"
| "Module_Plan tw ctx NetworkModule = NetworkModule_Plan tw ctx"
| "Module_Plan tw ctx WorkerModule = WorkerModule_Plan tw ctx"
| "Module_Plan tw ctx AddonsModule = AddonsModule_Plan tw ctx"
| "Module_Plan tw ctx AddonCleanupModule = AddonCleanupModule_Plan tw ctx"
| "Module_Plan tw ctx WorkerCleanupModule = WorkerCleanupModule_Plan tw ctx"
| "Module_Plan tw ctx ControlPlaneCleanupModule = ControlPlaneCleanupModule_Plan tw ctx"
| "Module_Plan tw ctx NetworkCleanupModule = NetworkCleanupModule_Plan tw ctx"
| "Module_Plan tw ctx LoadBalancerCleanupModule = LoadBalancerCleanupModule_Plan tw ctx"
| "Module_Plan tw ctx EtcdCleanupModule = EtcdCleanupModule_Plan tw ctx"
| "Module_Plan tw ctx RuntimeCleanupModule = RuntimeCleanupModule_Plan tw ctx"
| "Module_Plan tw ctx StorageCleanupModule = StorageCleanupModule_Plan tw ctx"
| "Module_Plan tw ctx OsCleanupModule = OsCleanupModule_Plan tw ctx"
| "Module_Plan tw ctx (ControlPlaneUpgradeModule v) = ControlPlaneUpgradeModule_Plan tw ctx v"
| "Module_Plan tw ctx (WorkerUpgradeModule v) = WorkerUpgradeModule_Plan tw ctx v"
| "Module_Plan tw ctx NetworkUpgradeModule = NetworkUpgradeModule_Plan tw ctx"
| "Module_Plan tw ctx OsModule = OsModule_Plan tw ctx"
| "Module_Plan tw ctx EtcdModule = EtcdModule_Plan tw ctx"
| "Module_Plan tw ctx RuntimeModule = RuntimeModule_Plan tw ctx"
| "Module_Plan tw ctx (PKIModule c) = PKIModule_Plan tw ctx c"
| "Module_Plan tw ctx (RegistryModule p) = RegistryModule_Plan tw ctx p"
| "Module_Plan tw ctx (BackupModule t) = BackupModule_Plan tw ctx t"
| "Module_Plan tw ctx (RestoreModule t p) = RestoreModule_Plan tw ctx t p"
| "Module_Plan tw ctx (HealthModule c) = HealthModule_Plan tw ctx c"
| "Module_Plan tw ctx (ReconfigureModule c) = ReconfigureModule_Plan tw ctx c"
| "Module_Plan tw ctx (AssetsDownloadModule p) = AssetsDownloadModule_Plan tw ctx p"

text \<open>What a pipeline's loop sees of a module.\<close>

definition module_answer :: "tasks \<Rightarrow> ModuleContext \<Rightarrow> Module \<Rightarrow> string \<times> (module_error, ExecutionFragment option) answer" where
  "module_answer tw ctx m =
     (Module_Name ctx m,
      case Module_Plan tw ctx m of Done f \<Rightarrow> Returns (Some f) None | Fails e \<Rightarrow> Returns None (Some e) | Aborts \<Rightarrow> Panics [])"

end
