(* ===== verification/ModulesCorrect.thy ===== *)
theory ModulesCorrect
  imports Modules
begin

text \<open>
  What the modules plan: the fragment of a module that chains its tasks, the certificate module
  whose tasks stay unordered, the control plane of a binary installation, the infrastructure
  module and the load balancer module, with the order their graphs impose.
\<close>

section \<open>Merging and linking one task\<close>

lemma and_then_Done_iff: "and_then m k = Done y \<longleftrightarrow> (\<exists>x. m = Done x \<and> k x = Done y)"
  by (cases m) auto

text \<open>What adding a dependency keeps, linking keeps.\<close>

lemma link_pairs_keeps:
  assumes "\<And>a b g g'. addDep a b g = Inr g' \<Longrightarrow> P g' = P g"
  shows "link_pairs addDep ps g = (e, g') \<Longrightarrow> P g' = P g"
proof (induction ps arbitrary: g)
  case (Cons p ps)
  obtain a b where p: "p = (a, b)" by fastforce
  show ?case
  proof (cases "addDep a b g")
    case (Inr g1)
    then show ?thesis using Cons.IH[of g1] Cons.prems assms[OF Inr] by (simp add: p)
  qed (use Cons.prems in \<open>simp add: p\<close>)
qed simp

lemma LinkFragments_keeps:
  assumes "\<And>a b g g'. addDep a b g = Inr g' \<Longrightarrow> P g' = P g"
  shows "LinkFragments hasNode addDep g as bs = (e, g') \<Longrightarrow> P g' = P g"
  using link_pairs_keeps[of addDep P, OF assms] by (auto simp: LinkFragments_def split: if_splits option.splits)

lemma link_task_keeps:
  assumes "\<And>a b f f'. Fragment_AddDependency a b f = Inr f' \<Longrightarrow> P f' = P f"
    and "link_task nm fs ts f = Done f'"
  shows "P f' = P f"
proof -
  obtain e where "LinkFragments Fragment_HasNode Fragment_AddDependency f fs ts = (e, f')"
    using assms(2) by (auto simp: link_task_def split: prod.splits option.splits plan_error.splits)
  then show ?thesis by (rule LinkFragments_keeps[where P = P, rotated]) (rule assms(1))
qed

lemma link_task_ends:
  "link_task nm fs ts f = Done f' \<Longrightarrow> ef_EntryNodes f' = ef_EntryNodes f \<and> ef_ExitNodes f' = ef_ExitNodes f"
proof -
  assume l: "link_task nm fs ts f = Done f'"
  have "(ef_EntryNodes f', ef_ExitNodes f') = (ef_EntryNodes f, ef_ExitNodes f)"
    by (rule link_task_keeps[where P = "\<lambda>f. (ef_EntryNodes f, ef_ExitNodes f)", OF _ l])
      (auto simp: Fragment_AddDependency_def split: sum.splits)
  then show ?thesis by simp
qed

lemma merge_task_ends:
  "merge_task nm tf f = Done f' \<Longrightarrow> ef_EntryNodes f' = ef_EntryNodes f \<and> ef_ExitNodes f' = ef_ExitNodes f"
  by (auto simp: merge_task_def Fragment_MergeFragment_def split: prod.splits option.splits)

lemma merge_link_task:
  assumes "fragment_plan f" "module_result g" "frag_disjoint g f" "set prev \<subseteq> frag_ids f"
  shows "\<exists>f1 f2. merge_task nm (Some g) f = Done f1 \<and> link_task nm prev (ef_EntryNodes g) f1 = Done f2
    \<and> (prev = [] \<longrightarrow> f2 = f1) \<and> fragment_plan f2 \<and> frag_ids f2 = frag_ids f \<union> frag_ids g
    \<and> dep_rel (ef_Nodes f2) = dep_rel (ef_Nodes f) \<union> dep_rel (ef_Nodes g) \<union> set prev \<times> set (ef_EntryNodes g)
    \<and> ef_EntryNodes f2 = ef_EntryNodes f \<and> ef_ExitNodes f2 = ef_ExitNodes f \<and> ef_EntryNodes f1 = ef_EntryNodes f"
proof -
  have f: "fragment_wf f" "deps_closed (ef_Nodes f)" "acyclic (dep_rel (ef_Nodes f))" and g: "fragment_plan g"
    "set (ef_EntryNodes g) \<subseteq> frag_ids g" using assms(1,2) by (simp_all add: fragment_plan_def module_result_def)
  obtain f1 f2 where r: "Fragment_MergeFragment (Some g) f = (None, f1)"
    "LinkFragments Fragment_HasNode Fragment_AddDependency f1 prev (ef_EntryNodes g) = (None, f2)"
    "fragment_plan f2" "frag_ids f2 = frag_ids f \<union> frag_ids g"
    "dep_rel (ef_Nodes f2) = dep_rel (ef_Nodes f) \<union> dep_rel (ef_Nodes g) \<union> set prev \<times> set (ef_EntryNodes g)"
    using efm.merge_link_plan[OF f g(1) assms(3,4) g(2)] unfolding fragment_plan_def by blast
  have m: "merge_task nm (Some g) f = Done f1" and l: "link_task nm prev (ef_EntryNodes g) f1 = Done f2"
    using r(1,2) by (simp_all add: merge_task_def link_task_def)
  moreover have "prev = [] \<longrightarrow> f2 = f1" using r(2) by (auto simp: LinkFragments_def)
  ultimately show ?thesis using r(3-5) merge_task_ends[OF m] link_task_ends[OF l] by auto
qed

section \<open>Tasks planned one after the other\<close>

text \<open>The non-empty fragments the loop meets, in order; \<open>None\<close> when a call fails or panics.\<close>

fun chain_fragments :: "bool \<Rightarrow> Task list \<Rightarrow> ExecutionFragment list option" where
  "chain_fragments ask [] = Some []"
| "chain_fragments ask (t # ts) =
     (case (if ask then tk_IsRequired t else Returns True None) of
        Returns False None \<Rightarrow> chain_fragments ask ts
      | Returns True None \<Rightarrow>
          (case tk_Plan t of
             Returns None None \<Rightarrow> chain_fragments ask ts
           | Returns (Some g) None \<Rightarrow>
               (if ef_Nodes g = [] then chain_fragments ask ts else map_option (Cons g) (chain_fragments ask ts))
           | _ \<Rightarrow> None)
      | _ \<Rightarrow> None)"

lemma chain_step_cases:
  assumes "chain_fragments ask (t # ts) = Some fs"
  obtains (skip) "chain_fragments ask ts = Some fs" "\<And>prev f. chain_tasks ask (t # ts) prev f = chain_tasks ask ts prev f"
  | (add) g fs' where "fs = g # fs'" "chain_fragments ask ts = Some fs'" "ef_Nodes g \<noteq> []"
      "\<And>prev f. chain_tasks ask (t # ts) prev f =
        and_then (merge_task (tk_Name t) (Some g) f) (\<lambda>f1.
          and_then (if length prev > 0 then link_task (tk_Name t) prev (ef_EntryNodes g) f1 else Done f1) (\<lambda>f2.
            chain_tasks ask ts (ef_ExitNodes g) f2))"
proof (cases "(if ask then tk_IsRequired t else Returns True None) = Returns True None \<and> (\<exists>g. tk_Plan t = Returns (Some g) None \<and> ef_Nodes g \<noteq> [])")
  case True
  then obtain g where g: "tk_Plan t = Returns (Some g) None" "ef_Nodes g \<noteq> []" by blast
  then obtain fs' where "chain_fragments ask ts = Some fs'" "fs = g # fs'" using True assms by (auto split: if_splits)
  then show ?thesis using True g by (intro add[of g fs']) (auto simp: ask_required_def ask_plan_def split: if_splits)
next
  case False
  then show ?thesis
    using assms by (intro skip)
      (auto simp: ask_required_def ask_plan_def split: if_splits answer.splits option.splits bool.splits)
qed

lemma chain_tasks_plan:
  assumes "chain_fragments ask ts = Some fs" "fragment_plan f" "set prev \<subseteq> frag_ids f"
    and "\<And>g. g \<in> set fs \<Longrightarrow> module_result g \<and> frag_disjoint g f" "sorted_wrt frag_disjoint fs"
  shows "\<exists>f'. chain_tasks ask ts prev f = Done (if fs = [] then prev else ef_ExitNodes (last fs), f')
    \<and> fragment_plan f' \<and> frag_ids f' = frag_ids f \<union> (\<Union>g \<in> set fs. frag_ids g)
    \<and> dep_rel (ef_Nodes f') = dep_rel (ef_Nodes f) \<union> (\<Union>g \<in> set fs. dep_rel (ef_Nodes g)) \<union> barrier_edges (set prev) fs
    \<and> ef_EntryNodes f' = ef_EntryNodes f \<and> ef_ExitNodes f' = ef_ExitNodes f"
  using assms
proof (induction ts arbitrary: fs prev f)
  case (Cons t ts)
  from Cons.prems(1) show ?case
  proof (cases rule: chain_step_cases)
    case skip
    then show ?thesis using Cons.IH[OF _ Cons.prems(2-5)] by simp
  next
    case (add g fs')
    have g: "module_result g" "frag_disjoint g f" "set (ef_ExitNodes g) \<subseteq> frag_ids g"
      using Cons.prems(4)[of g] add(1) by (auto simp: module_result_def)
    obtain f1 f2 where f2: "merge_task (tk_Name t) (Some g) f = Done f1"
      "link_task (tk_Name t) prev (ef_EntryNodes g) f1 = Done f2" "prev = [] \<longrightarrow> f2 = f1"
      "fragment_plan f2" "frag_ids f2 = frag_ids f \<union> frag_ids g"
      "dep_rel (ef_Nodes f2) = dep_rel (ef_Nodes f) \<union> dep_rel (ef_Nodes g) \<union> set prev \<times> set (ef_EntryNodes g)"
      "ef_EntryNodes f2 = ef_EntryNodes f" "ef_ExitNodes f2 = ef_ExitNodes f"
      using merge_link_task[OF Cons.prems(2) g(1,2) Cons.prems(3)] by metis
    have step: "chain_tasks ask (t # ts) prev f = chain_tasks ask ts (ef_ExitNodes g) f2"
      using add(4)[of prev f] f2(1-3) by (cases prev) auto
    have exits: "set (ef_ExitNodes g) \<subseteq> frag_ids f2" using g(3) f2(5) by auto
    have "module_result g' \<and> frag_disjoint g' f2" if "g' \<in> set fs'" for g'
      using that Cons.prems(4)[of g'] Cons.prems(5) add(1) f2(5) by (auto simp: Int_commute)
    from Cons.IH[OF add(2) f2(4) exits this] obtain f' where f': 
      "chain_tasks ask ts (ef_ExitNodes g) f2 = Done (if fs' = [] then ef_ExitNodes g else ef_ExitNodes (last fs'), f')"
      "fragment_plan f'" "frag_ids f' = frag_ids f2 \<union> (\<Union>g \<in> set fs'. frag_ids g)"
      "dep_rel (ef_Nodes f') = dep_rel (ef_Nodes f2) \<union> (\<Union>g \<in> set fs'. dep_rel (ef_Nodes g)) \<union> barrier_edges (set (ef_ExitNodes g)) fs'"
      "ef_EntryNodes f' = ef_EntryNodes f2" "ef_ExitNodes f' = ef_ExitNodes f2"
      using Cons.prems(5) add(1) by auto
    have "frag_ids f' = frag_ids f \<union> (\<Union>g \<in> set fs. frag_ids g)" using f'(3) f2(5) add(1) by auto
    moreover have "dep_rel (ef_Nodes f') = dep_rel (ef_Nodes f) \<union> (\<Union>g \<in> set fs. dep_rel (ef_Nodes g)) \<union> barrier_edges (set prev) fs"
      unfolding f'(4) f2(6) add(1) by auto
    ultimately show ?thesis using step f' f2(7,8) add(1) by simp
  qed
qed simp

lemma chain_fragments_nonempty: "chain_fragments ask ts = Some fs \<Longrightarrow> g \<in> set fs \<Longrightarrow> ef_Nodes g \<noteq> []"
proof (induction ts arbitrary: fs)
  case (Cons t ts)
  from Cons.prems(1) show ?case
    by (cases rule: chain_step_cases) (use Cons.IH Cons.prems(2) in auto)
qed simp

lemma calculate_plan:
  assumes "fragment_plan f"
  shows "\<exists>f'. calculate f = Done f' \<and> module_fragment f' \<and> ef_Nodes f' = ef_Nodes f"
  using Fragment_Calculate_plan[OF assms] by (auto simp: calculate_def module_fragment_def)

lemma NewEmptyFragment_sound: "module_fragment (NewEmptyFragment nm)" "ef_Nodes (NewEmptyFragment nm) = []"
  by (simp_all add: module_fragment_def NewEmptyFragment_def fragment_plan_def fragment_wf_def deps_closed_def
      dep_rel_def wf_acyclic entry_ids_def exit_ids_def)

lemma NewExecutionFragment_fields [simp]:
  "ef_Nodes (NewExecutionFragment nm) = []" "ef_EntryNodes (NewExecutionFragment nm) = []"
  "ef_ExitNodes (NewExecutionFragment nm) = []"
  by (simp_all add: NewExecutionFragment_def)

lemma sound_has_exits:
  assumes "module_fragment f" "ef_Nodes f \<noteq> []"
  shows "ef_ExitNodes f \<noteq> []"
proof
  assume "ef_ExitNodes f = []"
  moreover obtain i where "i \<in> frag_ids f" using node_ids_nonempty[OF assms(2)] by blast
  ultimately show False using reaches_exit[of "ef_Nodes f" i] assms(1) by (auto simp: module_fragment_def fragment_plan_def)
qed

text \<open>The loop from an empty fragment: a plan in which every task waits for all earlier ones.\<close>

lemma chain_tasks_sequence:
  assumes "chain_fragments ask ts = Some fs" "\<And>g. g \<in> set fs \<Longrightarrow> module_fragment g" "sorted_wrt frag_disjoint fs"
  shows "\<exists>prev f. chain_tasks ask ts [] (NewExecutionFragment nm) = Done (prev, f) \<and> (prev = [] \<longleftrightarrow> fs = [])
    \<and> fragment_plan f \<and> frag_ids f = (\<Union>g \<in> set fs. frag_ids g)
    \<and> dep_rel (ef_Nodes f) = (\<Union>g \<in> set fs. dep_rel (ef_Nodes g)) \<union> barrier_edges {} fs
    \<and> sorted_wrt (ordered_by (dep_rel (ef_Nodes f))) fs"
proof -
  obtain f where f: "chain_tasks ask ts [] (NewExecutionFragment nm) = Done (if fs = [] then [] else ef_ExitNodes (last fs), f)"
    "fragment_plan f" "frag_ids f = (\<Union>g \<in> set fs. frag_ids g)"
    "dep_rel (ef_Nodes f) = (\<Union>g \<in> set fs. dep_rel (ef_Nodes g)) \<union> barrier_edges {} fs"
    using chain_tasks_plan[OF assms(1) fragment_plan_empty[of nm], of "[]"] assms(2,3) module_fragment_result by auto
  have sound: "module_fragment g \<and> ef_Nodes g \<noteq> []" if "g \<in> set fs" for g
    using that assms(2) chain_fragments_nonempty[OF assms(1)] by blast
  have "sorted_wrt (ordered_by (dep_rel (ef_Nodes f))) fs"
    by (rule barrier_ordered[where A = "{}"]) (use f(4) sound in auto)
  moreover have "fs \<noteq> [] \<Longrightarrow> ef_ExitNodes (last fs) \<noteq> []" using sound[of "last fs"] sound_has_exits by auto
  ultimately show ?thesis using f by (intro exI[of _ "if fs = [] then [] else ef_ExitNodes (last fs)"] exI[of _ f]) auto
qed

text \<open>The modules that plan their tasks one after the other, with the tasks.\<close>

fun chained_module :: "tasks \<Rightarrow> Module \<Rightarrow> Task list option" where
  "chained_module tw (PreflightModule y) = Some (PreflightModule_GetTasks tw y)"
| "chained_module tw (AssetsDownloadModule p) = Some (AssetsDownloadModule_GetTasks tw p)"
| "chained_module tw (RegistryModule p) = Some (bm_ModuleTasks (NewRegistryModule tw p))"
| "chained_module tw (BackupModule t) = Some (bm_ModuleTasks (NewBackupModule tw t))"
| "chained_module tw (RestoreModule t p) = Some (bm_ModuleTasks (NewRestoreModule tw t p))"
| "chained_module tw (HealthModule c) = Some (bm_ModuleTasks (NewHealthModule tw c))"
| "chained_module tw (ReconfigureModule c) = Some (bm_ModuleTasks (NewReconfigureModule tw c))"
| "chained_module tw _ = None"

lemma chained_module_Plan:
  assumes "chained_module tw m = Some ts" "mc_IsTaskContext ctx"
  shows "\<exists>nm. Module_Plan tw ctx m = chained nm True ts \<or>
    Module_Plan tw ctx m = and_then (chain_tasks True ts [] (NewExecutionFragment nm)) (\<lambda>(prev, f). calculate f)"
  using assms by (cases m)
    (auto simp: task_context_def PreflightModule_Plan_def AssetsDownloadModule_Plan_def RegistryModule_Plan_def
      BackupModule_Plan_def RestoreModule_Plan_def HealthModule_Plan_def ReconfigureModule_Plan_def)

lemma chained_sound:
  assumes "chain_tasks True ts [] (NewExecutionFragment (nm @ ''-Fragment'')) = Done (prev, f)" "prev = [] \<longrightarrow> ef_Nodes f = []"
    "fragment_plan f"
  shows "\<exists>f'. chained nm True ts = Done f' \<and> module_fragment f' \<and> ef_Nodes f' = ef_Nodes f"
  using assms calculate_plan[OF assms(3)] NewEmptyFragment_sound[of nm]
  by (auto simp: chained_def)

section \<open>Properties\<close>

text \<open>the preflight, asset download, registry, backup, restore, health and reconfiguration modules,
  given tasks whose calls succeed with sound fragments over different node IDs, return a sound
  fragment that has exactly the tasks' nodes and edges and the edges from each task's exits to
  the next task's entries; every node of a task waits for all nodes of all earlier tasks.\<close>

theorem Module_Plan_chained:
  assumes "chained_module tw m = Some ts" "mc_IsTaskContext ctx" "chain_fragments True ts = Some fs"
    and "\<And>g. g \<in> set fs \<Longrightarrow> module_fragment g" "sorted_wrt frag_disjoint fs"
  shows "\<exists>f. Module_Plan tw ctx m = Done f \<and> module_fragment f \<and> frag_ids f = (\<Union>g \<in> set fs. frag_ids g)
    \<and> dep_rel (ef_Nodes f) = (\<Union>g \<in> set fs. dep_rel (ef_Nodes g)) \<union> barrier_edges {} fs
    \<and> sorted_wrt (ordered_by (dep_rel (ef_Nodes f))) fs"
proof -
  obtain nm where "Module_Plan tw ctx m = chained nm True ts \<or>
      Module_Plan tw ctx m = and_then (chain_tasks True ts [] (NewExecutionFragment nm)) (\<lambda>(prev, f). calculate f)"
    using chained_module_Plan[OF assms(1,2)] by blast
  moreover obtain nm' where nm': "nm' = (if Module_Plan tw ctx m = chained nm True ts then nm @ ''-Fragment'' else nm)" by blast
  obtain prev f where f: "chain_tasks True ts [] (NewExecutionFragment nm') = Done (prev, f)" "prev = [] \<longleftrightarrow> fs = []"
    "fragment_plan f" "frag_ids f = (\<Union>g \<in> set fs. frag_ids g)"
    "dep_rel (ef_Nodes f) = (\<Union>g \<in> set fs. dep_rel (ef_Nodes g)) \<union> barrier_edges {} fs"
    "sorted_wrt (ordered_by (dep_rel (ef_Nodes f))) fs"
    using chain_tasks_sequence[OF assms(3-5)] by metis
  have "prev = [] \<longrightarrow> ef_Nodes f = []" using f(2,4) by (cases "ef_Nodes f") (auto simp: node_ids_def)
  ultimately obtain f' where "Module_Plan tw ctx m = Done f'" "module_fragment f'" "ef_Nodes f' = ef_Nodes f"
    using chained_sound[of ts nm prev f] calculate_plan[OF f(3)] f(1,3) nm' by (auto split: if_splits)
  then show ?thesis using f(4-6) by auto
qed

text \<open>The parts of a union of closed plans over different nodes stay apart.\<close>

definition unordered_by :: "(NodeID \<times> NodeID) set \<Rightarrow> ExecutionFragment \<Rightarrow> ExecutionFragment \<Rightarrow> bool" where
  "unordered_by R f f' \<longleftrightarrow> R\<^sup>+ \<inter> (frag_ids f \<times> frag_ids f' \<union> frag_ids f' \<times> frag_ids f) = {}"

lemma disjoint_same:
  "sorted_wrt frag_disjoint fs \<Longrightarrow> g \<in> set fs \<Longrightarrow> h \<in> set fs \<Longrightarrow> x \<in> frag_ids g \<Longrightarrow> x \<in> frag_ids h \<Longrightarrow> g = h"
  by (induction fs) auto

lemma closed_edge:
  assumes "\<And>g. g \<in> set fs \<Longrightarrow> fragment_plan g" "sorted_wrt frag_disjoint fs" "g \<in> set fs" "a \<in> frag_ids g \<or> b \<in> frag_ids g"
    and "(a, b) \<in> (\<Union>g \<in> set fs. dep_rel (ef_Nodes g))"
  shows "(a, b) \<in> dep_rel (ef_Nodes g) \<and> b \<in> frag_ids g"
proof -
  obtain h where h: "h \<in> set fs" "(a, b) \<in> dep_rel (ef_Nodes h)" using assms(5) by blast
  have "a \<in> frag_ids h" "b \<in> frag_ids h"
    using h assms(1)[OF h(1)] dep_rel_closed[of "ef_Nodes h"] by (auto simp: fragment_plan_def)
  then have "h = g" using disjoint_same[OF assms(2) h(1) assms(3)] assms(4) by blast
  then show ?thesis using h \<open>b \<in> frag_ids h\<close> by simp
qed

lemma closed_part:
  assumes "\<And>g. g \<in> set fs \<Longrightarrow> fragment_plan g" "sorted_wrt frag_disjoint fs" "g \<in> set fs" "x \<in> frag_ids g"
    and "(x, y) \<in> (\<Union>g \<in> set fs. dep_rel (ef_Nodes g))\<^sup>+"
  shows "y \<in> frag_ids g"
  using assms(5) by (induction rule: trancl_induct) (use closed_edge[OF assms(1-3)] assms(4) in blast)+

lemma union_unordered:
  assumes "\<And>g. g \<in> set fs \<Longrightarrow> fragment_plan g" "sorted_wrt frag_disjoint fs"
  shows "sorted_wrt (unordered_by (\<Union>g \<in> set fs. dep_rel (ef_Nodes g))) fs"
proof -
  have "unordered_by (\<Union>g \<in> set fs. dep_rel (ef_Nodes g)) (fs ! i) (fs ! j)" if "i < j" "j < length fs" for i j
  proof -
    have "fs ! i \<in> set fs" "fs ! j \<in> set fs" "frag_disjoint (fs ! i) (fs ! j)"
      using that assms(2) by (auto simp: sorted_wrt_iff_nth_less)
    then show ?thesis using closed_part[OF assms] unfolding unordered_by_def by blast
  qed
  then show ?thesis by (simp add: sorted_wrt_iff_nth_less)
qed

text \<open>the certificate renewal module puts no order between its tasks: when it plans (for every
  certificate type, and for \<^verbatim>\<open>all\<close> also with an etcd managed by kubeadm), its fragment has exactly
  the edges inside the tasks, no node of one task depends on a node of another, and the first
  nodes of every task, the clean-up tasks included, are entry nodes of the module.\<close>

theorem PKIModule_Plan_unordered:
  assumes "mc_IsTaskContext ctx" "certType = ''all'' \<or> \<not> kubeadm_etcd (mc_ClusterConfig ctx)"
    and "required_fragments (bm_ModuleTasks (NewPKIModule tw certType)) = Some fs" "\<exists>g \<in> set fs. ef_Nodes g \<noteq> []"
    and "\<And>g. g \<in> set fs \<Longrightarrow> module_fragment g" "sorted_wrt frag_disjoint fs"
  shows "\<exists>f. PKIModule_Plan tw ctx certType = Done f \<and> frag_ids f = (\<Union>g \<in> set fs. frag_ids g)
    \<and> sorted_wrt (unordered_by (dep_rel (ef_Nodes f))) fs
    \<and> (\<forall>g \<in> set fs. set (ef_EntryNodes g) \<subseteq> set (ef_EntryNodes f))"
proof -
  let ?b = "NewPKIModule tw certType"
  have plan: "fragment_plan g" if "g \<in> set fs" for g using assms(5)[OF that] by (simp add: module_fragment_def)
  obtain f where f: "PlanTasks True ?b = Done f" "module_fragment f" "frag_ids f = (\<Union>g \<in> set fs. frag_ids g)"
    "dep_rel (ef_Nodes f) = (\<Union>g \<in> set fs. dep_rel (ef_Nodes g))"
    using PlanTasks_plan[OF assms(3) plan assms(6)] by blast
  have "frag_ids f \<noteq> {}" using assms(4) f(3) node_ids_nonempty by fastforce
  then have "ef_Nodes f \<noteq> []" by auto
  moreover have "bm_ModuleTasks ?b \<noteq> []" using assms(3,4) by (cases "bm_ModuleTasks ?b") auto
  ultimately have "PKIModule_Plan tw ctx certType = Done f"
    using f(1) assms(1,2) by (auto simp: PKIModule_Plan_def)
  moreover have "sorted_wrt (unordered_by (dep_rel (ef_Nodes f))) fs"
    unfolding f(4) by (rule union_unordered[OF plan assms(6)])
  moreover have "set (ef_EntryNodes g) \<subseteq> set (ef_EntryNodes f)" if g: "g \<in> set fs" for g
  proof
    fix i assume "i \<in> set (ef_EntryNodes g)"
    then have i: "i \<in> frag_ids g" "deps_of (ef_Nodes g) i = []"
      using assms(5)[OF g] by (auto simp: module_fragment_def entry_ids_def)
    have "(d, i) \<notin> (\<Union>g \<in> set fs. dep_rel (ef_Nodes g))" for d
      using closed_edge[OF plan assms(6) g, of d i] i by (auto simp: dep_rel_def)
    moreover have "i \<in> frag_ids f" using i(1) f(3) g by blast
    ultimately have "set (deps_of (ef_Nodes f) i) = {}" using deps_of_rel[of i "ef_Nodes f"] f(4) by auto
    then have "deps_of (ef_Nodes f) i = []" by simp
    then show "i \<in> set (ef_EntryNodes f)" using f(2,3) i(1) g by (auto simp: module_fragment_def entry_ids_def)
  qed
  ultimately show ?thesis using f(3) by blast
qed

text \<open>Task by task: the control plane modules.\<close>

lemma and_then_assoc: "and_then (and_then m k) h = and_then m (\<lambda>x. and_then (k x) h)"
  by (cases m) auto

lemma optional_task_required:
  assumes "tk_IsRequired t = Returns True None" "tk_Plan t = Returns (Some g) None" "merge_task (tk_Name t) (Some g) f = Done f1"
  shows "optional_task t k s f = k g f1"
  using assms by (simp add: optional_task_def ask_required_def ask_plan_def non_nil_def)

definition planned :: "Task \<Rightarrow> ExecutionFragment \<Rightarrow> bool" where
  "planned t g \<longleftrightarrow> tk_IsRequired t = Returns True None \<and> tk_Plan t = Returns (Some g) None"

lemma entry_step_plan:
  assumes "planned t g" "module_result g" "fragment_plan f" "frag_disjoint g f"
  shows "\<exists>f'. entry_step t (prev, f) = Done (ef_ExitNodes g, f') \<and> fragment_plan f' \<and> frag_ids f' = frag_ids f \<union> frag_ids g
    \<and> dep_rel (ef_Nodes f') = dep_rel (ef_Nodes f) \<union> dep_rel (ef_Nodes g)
    \<and> ef_EntryNodes f' = ef_EntryNodes f @ ef_EntryNodes g"
proof -
  obtain f1 where f1: "merge_task (tk_Name t) (Some g) f = Done f1" "fragment_plan f1" "frag_ids f1 = frag_ids f \<union> frag_ids g"
    "dep_rel (ef_Nodes f1) = dep_rel (ef_Nodes f) \<union> dep_rel (ef_Nodes g)" "ef_EntryNodes f1 = ef_EntryNodes f"
    using merge_link_task[OF assms(3,2,4), of "[]" "tk_Name t"] by auto
  let ?f = "f1\<lparr>ef_EntryNodes := ef_EntryNodes f @ ef_EntryNodes g\<rparr>"
  have "entry_step t (prev, f) = Done (ef_ExitNodes g, ?f)"
    using assms(1) f1(1,5) by (simp add: entry_step_def planned_def optional_task_required)
  moreover have "fragment_plan ?f" using f1(2) by (simp add: fragment_plan_def fragment_wf_def)
  ultimately show ?thesis using f1(3,4) by (intro exI[of _ ?f]) simp
qed

lemma linked_step_plan:
  assumes "planned t g" "module_result g" "fragment_plan f" "frag_disjoint g f" "set prev \<subseteq> frag_ids f"
  shows "\<exists>f'. linked_step t (prev, f) = Done (ef_ExitNodes g, f') \<and> fragment_plan f' \<and> frag_ids f' = frag_ids f \<union> frag_ids g
    \<and> dep_rel (ef_Nodes f') = dep_rel (ef_Nodes f) \<union> dep_rel (ef_Nodes g) \<union> set prev \<times> set (ef_EntryNodes g)
    \<and> ef_EntryNodes f' = ef_EntryNodes f"
proof -
  obtain f1 f2 where f2: "merge_task (tk_Name t) (Some g) f = Done f1" "link_task (tk_Name t) prev (ef_EntryNodes g) f1 = Done f2"
    "fragment_plan f2" "frag_ids f2 = frag_ids f \<union> frag_ids g" "ef_EntryNodes f2 = ef_EntryNodes f"
    "dep_rel (ef_Nodes f2) = dep_rel (ef_Nodes f) \<union> dep_rel (ef_Nodes g) \<union> set prev \<times> set (ef_EntryNodes g)"
    using merge_link_task[OF assms(3,2,4,5)] by metis
  then show ?thesis
    using assms(1) by (auto simp: linked_step_def planned_def optional_task_required)
qed

text \<open>Several such steps in a row; the flag says whether a step links behind the step before.\<close>

fun run_steps :: "(bool \<times> Task) list \<Rightarrow> NodeID list \<times> ExecutionFragment \<Rightarrow> (NodeID list \<times> ExecutionFragment) planning" where
  "run_steps [] s = Done s"
| "run_steps ((l, t) # xs) s = and_then (if l then linked_step t s else entry_step t s) (run_steps xs)"

fun step_edges :: "NodeID set \<Rightarrow> (bool \<times> ExecutionFragment) list \<Rightarrow> (NodeID \<times> NodeID) set" where
  "step_edges A [] = {}"
| "step_edges A ((l, g) # xs) = (if l then A \<times> set (ef_EntryNodes g) else {}) \<union> step_edges (set (ef_ExitNodes g)) xs"

fun step_entries :: "(bool \<times> ExecutionFragment) list \<Rightarrow> NodeID list" where
  "step_entries [] = []"
| "step_entries ((l, g) # xs) = (if l then [] else ef_EntryNodes g) @ step_entries xs"

lemma run_steps_plan:
  assumes "list_all2 (\<lambda>(l, t) (l', g). l = l' \<and> planned t g) ts gs" "fragment_plan f" "set prev \<subseteq> frag_ids f"
    and "\<And>g. g \<in> snd ` set gs \<Longrightarrow> module_result g \<and> frag_disjoint g f" "sorted_wrt frag_disjoint (map snd gs)"
  shows "\<exists>f'. run_steps ts (prev, f) = Done (if gs = [] then prev else ef_ExitNodes (snd (last gs)), f') \<and> fragment_plan f'
    \<and> frag_ids f' = frag_ids f \<union> (\<Union>g \<in> snd ` set gs. frag_ids g)
    \<and> dep_rel (ef_Nodes f') = dep_rel (ef_Nodes f) \<union> (\<Union>g \<in> snd ` set gs. dep_rel (ef_Nodes g)) \<union> step_edges (set prev) gs
    \<and> ef_EntryNodes f' = ef_EntryNodes f @ step_entries gs"
  using assms
proof (induction ts gs arbitrary: prev f rule: list_all2_induct)
  case (Cons x ts y gs)
  obtain l t g where xy: "x = (l, t)" "y = (l, g)" and pl: "planned t g" using Cons.hyps(1) by (cases x; cases y) auto
  have g: "module_result g" "frag_disjoint g f" "set (ef_ExitNodes g) \<subseteq> frag_ids g"
    using Cons.prems(3)[of g] xy by (auto simp: module_result_def)
  have "\<exists>f1. (if l then linked_step t (prev, f) else entry_step t (prev, f)) = Done (ef_ExitNodes g, f1) \<and> fragment_plan f1
    \<and> frag_ids f1 = frag_ids f \<union> frag_ids g
    \<and> dep_rel (ef_Nodes f1) = dep_rel (ef_Nodes f) \<union> dep_rel (ef_Nodes g) \<union> (if l then set prev \<times> set (ef_EntryNodes g) else {})
    \<and> ef_EntryNodes f1 = ef_EntryNodes f @ (if l then [] else ef_EntryNodes g)"
    using linked_step_plan[OF pl g(1) Cons.prems(1) g(2) Cons.prems(2)] entry_step_plan[OF pl g(1) Cons.prems(1) g(2), of prev]
    by (cases l) simp_all
  then obtain f1 where f1: "(if l then linked_step t (prev, f) else entry_step t (prev, f)) = Done (ef_ExitNodes g, f1)"
    "fragment_plan f1" "frag_ids f1 = frag_ids f \<union> frag_ids g"
    "dep_rel (ef_Nodes f1) = dep_rel (ef_Nodes f) \<union> dep_rel (ef_Nodes g) \<union> (if l then set prev \<times> set (ef_EntryNodes g) else {})"
    "ef_EntryNodes f1 = ef_EntryNodes f @ (if l then [] else ef_EntryNodes g)" by blast
  have new: "module_result g' \<and> frag_disjoint g' f1" if "g' \<in> snd ` set gs" for g'
    using that Cons.prems(3)[of g'] Cons.prems(4) f1(3) by (auto simp: xy Int_commute)
  have exits: "set (ef_ExitNodes g) \<subseteq> frag_ids f1" using g(3) f1(3) by auto
  have dis: "sorted_wrt frag_disjoint (map snd gs)" using Cons.prems(4) by simp
  obtain f' where f': "run_steps ts (ef_ExitNodes g, f1) = Done (if gs = [] then ef_ExitNodes g else ef_ExitNodes (snd (last gs)), f')"
    "fragment_plan f'" "frag_ids f' = frag_ids f1 \<union> (\<Union>g \<in> snd ` set gs. frag_ids g)"
    "dep_rel (ef_Nodes f') = dep_rel (ef_Nodes f1) \<union> (\<Union>g \<in> snd ` set gs. dep_rel (ef_Nodes g)) \<union> step_edges (set (ef_ExitNodes g)) gs"
    "ef_EntryNodes f' = ef_EntryNodes f1 @ step_entries gs"
    using Cons.IH[OF f1(2) exits new dis] by blast
  have "run_steps (x # ts) (prev, f) = Done (if y # gs = [] then prev else ef_ExitNodes (snd (last (y # gs))), f')"
    using f1(1) f'(1) by (simp add: xy)
  moreover have "frag_ids f' = frag_ids f \<union> (\<Union>g \<in> snd ` set (y # gs). frag_ids g)" using f'(3) f1(3) by (auto simp: xy)
  moreover have "dep_rel (ef_Nodes f') = dep_rel (ef_Nodes f) \<union> (\<Union>g \<in> snd ` set (y # gs). dep_rel (ef_Nodes g))
      \<union> step_edges (set prev) (y # gs)"
    unfolding f'(4) f1(4) by (auto simp: xy)
  ultimately show ?case using f'(2,5) f1(5) by (intro exI[of _ f']) (simp add: xy)
qed simp

lemma unique_ends_Done:
  "ef_Nodes f \<noteq> [] \<Longrightarrow>
     unique_ends nm exits f = Done (f\<lparr>ef_EntryNodes := UniqueNodeIDs (ef_EntryNodes f), ef_ExitNodes := UniqueNodeIDs exits\<rparr>)"
  by (simp add: unique_ends_def)

text \<open>the kubexm control plane module, with all its tasks required and planned soundly over
  different node IDs: the certificates precede the kubeconfigs, and the configuration precedes the
  start, the admin kubeconfig and the joins, but nothing connects the two chains, and the module
  lists as exits the exits of the joins only. So the control plane is configured and started
  without waiting for its certificates, and later modules do not wait for them either.\<close>

theorem KubexmControlPlaneModule_Plan_edges:
  assumes "mc_IsTaskContext ctx"
    and "planned (tw (Kubexm GenerateKubePKITask)) pki" "planned (tw (Kubexm GenerateControlPlaneKubeconfigsTask)) kc"
    and "planned (tw (Kubexm ConfigureControlPlaneTask)) conf" "planned (tw (Kubexm StartControlPlaneTask)) start"
    and "planned (tw (Kubexm GenerateAdminKubeconfigTask)) admin" "planned (tw (Kubexm KubexmJoinMastersTask)) join"
    and "\<And>g. g \<in> {pki, kc, conf, start, admin, join} \<Longrightarrow> module_result g" "ef_Nodes pki \<noteq> []"
    and "sorted_wrt frag_disjoint [pki, kc, conf, start, admin, join]"
  shows "\<exists>f. KubexmControlPlaneModule_Plan tw ctx = Done f \<and> fragment_plan f
    \<and> dep_rel (ef_Nodes f) = (\<Union>g \<in> {pki, kc, conf, start, admin, join}. dep_rel (ef_Nodes g))
        \<union> barrier_edges {} [pki, kc] \<union> barrier_edges {} [conf, start, admin, join]
    \<and> set (ef_EntryNodes f) = set (ef_EntryNodes pki) \<union> set (ef_EntryNodes conf)
    \<and> set (ef_ExitNodes f) = set (ef_ExitNodes join)"
proof -
  let ?gs = "[(False, pki), (True, kc), (False, conf), (True, start), (True, admin), (True, join)]"
  let ?ts = "[(False, tw (Kubexm GenerateKubePKITask)), (True, tw (Kubexm GenerateControlPlaneKubeconfigsTask)),
     (False, tw (Kubexm ConfigureControlPlaneTask)), (True, tw (Kubexm StartControlPlaneTask)),
     (True, tw (Kubexm GenerateAdminKubeconfigTask)), (True, tw (Kubexm KubexmJoinMastersTask))]"
  let ?f0 = "NewExecutionFragment ''KubexmControlPlane-Fragment''"
  have "KubexmControlPlaneModule_Plan tw ctx = and_then (run_steps ?ts ([], ?f0)) (\<lambda>(prev, f). unique_ends ''KubexmControlPlane'' prev f)"
    using assms(1) by (simp add: KubexmControlPlaneModule_Plan_def task_context_def and_then_assoc)
  moreover have "list_all2 (\<lambda>(l, t) (l', g). l = l' \<and> planned t g) ?ts ?gs" using assms(2-7) by simp
  from run_steps_plan[OF this fragment_plan_empty, of "[]" "''KubexmControlPlane-Fragment''"] obtain f where f:
    "run_steps ?ts ([], ?f0) = Done (ef_ExitNodes join, f)" "fragment_plan f" "frag_ids f = (\<Union>g \<in> snd ` set ?gs. frag_ids g)"
    "dep_rel (ef_Nodes f) = (\<Union>g \<in> snd ` set ?gs. dep_rel (ef_Nodes g)) \<union> step_edges {} ?gs"
    "ef_EntryNodes f = step_entries ?gs"
    using assms(8,10) by auto
  have "ef_Nodes f \<noteq> []" using f(3) node_ids_nonempty[OF assms(9)] by auto
  ultimately have "KubexmControlPlaneModule_Plan tw ctx = 
      Done (f\<lparr>ef_EntryNodes := UniqueNodeIDs (ef_EntryNodes f), ef_ExitNodes := UniqueNodeIDs (ef_ExitNodes join)\<rparr>)"
    using f(1) by (simp add: unique_ends_Done)
  moreover have "fragment_plan (f\<lparr>ef_EntryNodes := UniqueNodeIDs (ef_EntryNodes f), ef_ExitNodes := UniqueNodeIDs (ef_ExitNodes join)\<rparr>)"
    using f(2) by (simp add: fragment_plan_def fragment_wf_def)
  ultimately show ?thesis using f(4,5) by (auto simp: Un_assoc)
qed

text \<open>The infrastructure module.\<close>

lemma os_chain_eq:
  assumes "mc_IsTaskContext ctx"
  shows "os_chain ctx ts = chain_tasks True ts"
proof (induction ts)
  case (Cons t ts)
  have "os_chain ctx (t # ts) prev f = chain_tasks True (t # ts) prev f" for prev f
  proof (cases "ask_required t")
    case (Done required)
    then show ?thesis
      unfolding os_chain.simps chain_tasks.simps Cons.IH
      using assms by (cases required) (simp_all add: planTask_def task_context_def NewEmptyFragment_def)
  qed (use assms in \<open>auto simp: planTask_def task_context_def\<close>)
  then show ?case by blast
qed (simp add: fun_eq_iff)

lemma barrier_edges_append:
  "barrier_edges A (xs @ ys) = barrier_edges A xs \<union> barrier_edges (if xs = [] then A else set (ef_ExitNodes (last xs))) ys"
  by (induction A xs rule: barrier_edges.induct) auto

lemma barrier_targets: "(a, b) \<in> barrier_edges A fs \<Longrightarrow> \<exists>g \<in> set fs. b \<in> set (ef_EntryNodes g)"
  by (induction A fs rule: barrier_edges.induct) auto

lemma barrier_sources: "(a, b) \<in> barrier_edges A fs \<Longrightarrow> a \<in> A \<or> (\<exists>g \<in> set fs. a \<in> set (ef_ExitNodes g))"
  by (induction A fs rule: barrier_edges.induct) auto

definition plans_to :: "Task \<Rightarrow> ExecutionFragment \<Rightarrow> bool" where
  "plans_to t g \<longleftrightarrow> planned t g \<or> tk_IsRequired t = Returns False None \<and> g = NewEmptyFragment (tk_Name t)"

lemma add_after_plan:
  assumes "mc_IsTaskContext ctx" "plans_to t g" "module_result g" "fragment_plan f" "frag_disjoint g f" "set prev \<subseteq> frag_ids f"
  shows "\<exists>f'. add_after ctx t prev f = Done (g, f') \<and> fragment_plan f' \<and> frag_ids f' = frag_ids f \<union> frag_ids g
    \<and> dep_rel (ef_Nodes f') = dep_rel (ef_Nodes f) \<union> dep_rel (ef_Nodes g) \<union> set prev \<times> set (ef_EntryNodes g)"
proof -
  have "planTask ctx t = Done (Some g)"
    using assms(1,2) by (auto simp: planTask_def plans_to_def planned_def task_context_def ask_required_def ask_plan_def)
  moreover obtain f1 f2 where "merge_task (tk_Name t) (Some g) f = Done f1" "link_task (tk_Name t) prev (ef_EntryNodes g) f1 = Done f2"
    "fragment_plan f2" "frag_ids f2 = frag_ids f \<union> frag_ids g"
    "dep_rel (ef_Nodes f2) = dep_rel (ef_Nodes f) \<union> dep_rel (ef_Nodes g) \<union> set prev \<times> set (ef_EntryNodes g)"
    using merge_link_task[OF assms(4,3,5,6), of "tk_Name t"] by blast
  ultimately show ?thesis by (simp add: add_after_def non_nil_def)
qed

lemma InfrastructureModule_Plan_edges:
  assumes "mc_IsTaskContext ctx" "chain_fragments True [tw (Os ConfigureHostTask), tw (Os DisableServicesTask), tw (Os ConfigureKernelTask)] = Some fs"
    and "plans_to (tw (Infra GenerateEtcdPKITask)) pki" "plans_to (tw (Infra DeployEtcdClusterTask)) etcd"
    and "runtime_task (mc_ClusterConfig ctx) = Done rt" "plans_to (tw (Infra rt)) run"
    and "\<And>g. g \<in> set (fs @ [pki, etcd, run]) \<Longrightarrow> module_result g" "sorted_wrt frag_disjoint (fs @ [pki, etcd, run])" "fs \<noteq> []"
  shows "\<exists>f. InfrastructureModule_Plan tw ctx = Done f \<and> module_fragment f
    \<and> frag_ids f = (\<Union>g \<in> set (fs @ [pki, etcd, run]). frag_ids g)
    \<and> dep_rel (ef_Nodes f) = (\<Union>g \<in> set (fs @ [pki, etcd, run]). dep_rel (ef_Nodes g))
        \<union> barrier_edges {} (fs @ [pki, etcd]) \<union> set (ef_ExitNodes (last fs)) \<times> set (ef_EntryNodes run)"
proof -
  let ?f0 = "NewExecutionFragment ''CoreInfrastructureSetup-Fragment''" and ?os = "ef_ExitNodes (last fs)"
  have res: "module_result pki" "module_result etcd" "module_result run" "\<And>g. g \<in> set fs \<Longrightarrow> module_result g"
    using assms(7) by auto
  have dis: "sorted_wrt frag_disjoint fs" "frag_disjoint etcd pki" "frag_disjoint run pki" "frag_disjoint run etcd"
    using assms(8) by (auto simp: sorted_wrt_append Int_commute)
  have apart: "frag_ids g \<inter> (\<Union>h \<in> set fs. frag_ids h) = {}" if "g \<in> {pki, etcd, run}" for g
    using assms(8) that by (auto simp: sorted_wrt_append)
  obtain f1 where f1: "os_chain ctx [tw (Os ConfigureHostTask), tw (Os DisableServicesTask), tw (Os ConfigureKernelTask)] [] ?f0 = Done (?os, f1)"
    "fragment_plan f1" "frag_ids f1 = (\<Union>g \<in> set fs. frag_ids g)"
    "dep_rel (ef_Nodes f1) = (\<Union>g \<in> set fs. dep_rel (ef_Nodes g)) \<union> barrier_edges {} fs"
    using chain_tasks_plan[OF assms(2) fragment_plan_empty, of "[]" "''CoreInfrastructureSetup-Fragment''"] res(4) dis(1) assms(9)
    by (auto simp: os_chain_eq[OF assms(1)] simp del: chain_tasks.simps os_chain.simps)
  have os: "set ?os \<subseteq> frag_ids f1" using res(4)[OF last_in_set[OF assms(9)]] last_in_set[OF assms(9)] f1(3) by (auto simp: module_result_def)
  have "frag_disjoint pki f1" using apart[of pki] f1(3) by simp
  from add_after_plan[OF assms(1,3) res(1) f1(2) this os] obtain f2 where f2: 
    "add_after ctx (tw (Infra GenerateEtcdPKITask)) ?os f1 = Done (pki, f2)"
    "fragment_plan f2" "frag_ids f2 = frag_ids f1 \<union> frag_ids pki"
    "dep_rel (ef_Nodes f2) = dep_rel (ef_Nodes f1) \<union> dep_rel (ef_Nodes pki) \<union> set ?os \<times> set (ef_EntryNodes pki)" by blast
  have "frag_disjoint etcd f2" using dis(2) apart[of etcd] f1(3) f2(3) by (simp add: Int_Un_distrib)
  moreover have "set (ef_ExitNodes pki) \<subseteq> frag_ids f2" using f2(3) res(1) by (auto simp: module_result_def)
  ultimately obtain f3 where f3: 
    "add_after ctx (tw (Infra DeployEtcdClusterTask)) (ef_ExitNodes pki) f2 = Done (etcd, f3)"
    "fragment_plan f3" "frag_ids f3 = frag_ids f2 \<union> frag_ids etcd"
    "dep_rel (ef_Nodes f3) = dep_rel (ef_Nodes f2) \<union> dep_rel (ef_Nodes etcd) \<union> set (ef_ExitNodes pki) \<times> set (ef_EntryNodes etcd)"
    using add_after_plan[OF assms(1,4) res(2) f2(2)] by blast
  have "frag_disjoint run f3" using dis(3,4) apart[of run] f1(3) f2(3) f3(3) by (simp add: Int_Un_distrib)
  moreover have "set ?os \<subseteq> frag_ids f3" using os f2(3) f3(3) by auto
  ultimately obtain f4 where f4: 
    "add_after ctx (tw (Infra rt)) ?os f3 = Done (run, f4)"
    "fragment_plan f4" "frag_ids f4 = frag_ids f3 \<union> frag_ids run"
    "dep_rel (ef_Nodes f4) = dep_rel (ef_Nodes f3) \<union> dep_rel (ef_Nodes run) \<union> set ?os \<times> set (ef_EntryNodes run)"
    using add_after_plan[OF assms(1,6) res(3) f3(2)] by blast
  let ?f5 = "f4\<lparr>ef_ExitNodes := UniqueNodeIDs (ef_ExitNodes etcd @ ef_ExitNodes run)\<rparr>"
  have "fragment_plan ?f5" using f4(2) by (simp add: fragment_plan_def fragment_wf_def)
  from calculate_plan[OF this] obtain f5 where f5: "calculate ?f5 = Done f5" "module_fragment f5" "ef_Nodes f5 = ef_Nodes f4" by auto
  have "InfrastructureModule_Plan tw ctx = Done f5"
    using f1(1) f2(1) f3(1) f4(1) f5(1) assms(5) by (simp add: InfrastructureModule_Plan_def del: os_chain.simps)
  moreover have "dep_rel (ef_Nodes f5) = (\<Union>g \<in> set (fs @ [pki, etcd, run]). dep_rel (ef_Nodes g))
        \<union> barrier_edges {} (fs @ [pki, etcd]) \<union> set ?os \<times> set (ef_EntryNodes run)"
    unfolding f5(3) f4(4) f3(4) f2(4) f1(4) barrier_edges_append using assms(9) by auto
  moreover have "frag_ids f5 = (\<Union>g \<in> set (fs @ [pki, etcd, run]). frag_ids g)"
    unfolding f5(3) f4(3) f3(3) f2(3) f1(3) by auto
  ultimately show ?thesis using f5(2) by blast
qed

lemma infrastructure_etcd_alone:
  assumes "\<And>g. g \<in> set (fs @ [pki, etcd, run]) \<Longrightarrow> module_fragment g" "sorted_wrt frag_disjoint (fs @ [pki, etcd, run])"
    and R: "R = (\<Union>g \<in> set (fs @ [pki, etcd, run]). dep_rel (ef_Nodes g))
        \<union> barrier_edges {} (fs @ [pki, etcd]) \<union> set (ef_ExitNodes (last fs)) \<times> set (ef_EntryNodes run)"
    and "ef_Nodes pki = []" "g \<in> set fs"
  shows "unordered_by R g etcd"
proof -
  have plan: "fragment_plan g" if "g \<in> set (fs @ [pki, etcd, run])" for g
    using assms(1)[OF that] by (simp add: module_fragment_def)
  have ends: "set (ef_EntryNodes g) \<subseteq> frag_ids g" "set (ef_ExitNodes g) \<subseteq> frag_ids g" if "g \<in> set (fs @ [pki, etcd, run])" for g
    using module_fragment_result[OF assms(1)[OF that]] by (simp_all add: module_result_def)
  have pki: "set (ef_EntryNodes pki) = {}" "set (ef_ExitNodes pki) = {}" using ends[of pki] assms(4) by (auto simp: node_ids_def)
  have apart: "x \<notin> frag_ids etcd" if "x \<in> frag_ids h" "h \<in> set fs \<or> h = run" for x h
    using that assms(2) by (auto simp: sorted_wrt_append)
  have bar: "barrier_edges {} (fs @ [pki, etcd]) = barrier_edges {} fs"
    using pki by (simp add: barrier_edges_append)
  have edge: "a \<in> frag_ids etcd \<longleftrightarrow> b \<in> frag_ids etcd" if "(a, b) \<in> R" for a b
  proof -
    consider (inside) "(a, b) \<in> (\<Union>g \<in> set (fs @ [pki, etcd, run]). dep_rel (ef_Nodes g))"
      | (os) "(a, b) \<in> barrier_edges {} fs" | (run) "a \<in> set (ef_ExitNodes (last fs))" "b \<in> set (ef_EntryNodes run)"
      using \<open>(a, b) \<in> R\<close> R bar by blast
    then show ?thesis
    proof cases
      case inside
      then show ?thesis using closed_edge[OF plan assms(2), of etcd a b] dep_rel_closed[of "ef_Nodes etcd"] plan[of etcd]
        by (auto simp: fragment_plan_def)
    next
      case os
      then obtain h h' where "h \<in> set fs" "a \<in> set (ef_ExitNodes h)" "h' \<in> set fs" "b \<in> set (ef_EntryNodes h')"
        using barrier_sources[of a b "{}" fs] barrier_targets by blast
      moreover from this have "a \<in> frag_ids h" "b \<in> frag_ids h'" using ends[of h] ends[of h'] by auto
      ultimately show ?thesis using apart by blast
    next
      case run
      have "last fs \<in> set fs" using assms(5) by (cases fs) auto
      then show ?thesis using run ends[of "last fs"] ends[of run] apart by auto
    qed
  qed
  have "x \<in> frag_ids etcd \<longleftrightarrow> y \<in> frag_ids etcd" if "(x, y) \<in> R\<^sup>+" for x y
    using that by (induction rule: trancl_induct) (use edge in blast)+
  then show ?thesis using apart[of _ g] assms(5) unfolding unordered_by_def by blast
qed

text \<open>in the infrastructure module, with its tasks planned soundly over different node IDs, every
  node of the container runtime waits for all operating system tasks. The etcd installation does
  so only through the etcd certificates: when the certificate task is not required, no etcd node
  depends on any operating system task.\<close>

theorem InfrastructureModule_Plan_order:
  assumes "mc_IsTaskContext ctx" "chain_fragments True [tw (Os ConfigureHostTask), tw (Os DisableServicesTask), tw (Os ConfigureKernelTask)] = Some fs"
    and "plans_to (tw (Infra GenerateEtcdPKITask)) pki" "planned (tw (Infra DeployEtcdClusterTask)) etcd"
    and "runtime_task (mc_ClusterConfig ctx) = Done rt" "planned (tw (Infra rt)) run"
    and "\<And>g. g \<in> set (fs @ [pki, etcd, run]) \<Longrightarrow> module_fragment g" "sorted_wrt frag_disjoint (fs @ [pki, etcd, run])" "fs \<noteq> []"
    and "ef_Nodes etcd \<noteq> []" "ef_Nodes run \<noteq> []"
  shows "\<exists>f. InfrastructureModule_Plan tw ctx = Done f \<and> module_fragment f
    \<and> frag_ids f = (\<Union>g \<in> set (fs @ [pki, etcd, run]). frag_ids g)
    \<and> (\<forall>g \<in> set fs. ordered_by (dep_rel (ef_Nodes f)) g run
        \<and> (if ef_Nodes pki \<noteq> [] then ordered_by (dep_rel (ef_Nodes f)) g etcd else unordered_by (dep_rel (ef_Nodes f)) g etcd))"
proof -
  have pt: "plans_to (tw (Infra DeployEtcdClusterTask)) etcd" "plans_to (tw (Infra rt)) run"
    using assms(4,6) by (simp_all add: plans_to_def)
  obtain f where f: "InfrastructureModule_Plan tw ctx = Done f" "module_fragment f"
    "frag_ids f = (\<Union>g \<in> set (fs @ [pki, etcd, run]). frag_ids g)"
    "dep_rel (ef_Nodes f) = (\<Union>g \<in> set (fs @ [pki, etcd, run]). dep_rel (ef_Nodes g))
        \<union> barrier_edges {} (fs @ [pki, etcd]) \<union> set (ef_ExitNodes (last fs)) \<times> set (ef_EntryNodes run)"
    using InfrastructureModule_Plan_edges[OF assms(1-3) pt(1) assms(5) pt(2) module_fragment_result[OF assms(7)] assms(8,9)] by blast
  let ?R = "dep_rel (ef_Nodes f)"
  have sound: "module_fragment g \<and> ef_Nodes g \<noteq> []" if "g \<in> set fs" for g
    using that assms(7)[of g] chain_fragments_nonempty[OF assms(2) that] by simp
  have "sorted_wrt (ordered_by ?R) (fs @ [run])"
    by (rule barrier_ordered[where A = "{}"])
      (use f(4) assms(7,9,11) sound in \<open>auto simp: barrier_edges_append\<close>)
  moreover have "sorted_wrt (ordered_by ?R) (fs @ [pki, etcd])" if "ef_Nodes pki \<noteq> []"
    by (rule barrier_ordered[where A = "{}"]) (use f(4) assms(7,10) sound that in auto)
  moreover have "unordered_by ?R g etcd" if pki: "ef_Nodes pki = []" and g: "g \<in> set fs" for g
    using infrastructure_etcd_alone[OF assms(7,8) f(4) pki g] .
  ultimately show ?thesis using f(1-3) by (auto simp: sorted_wrt_append)
qed

text \<open>The load balancer module's fragment lists neither entry nor exit nodes.\<close>

lemma chain_tasks_ends:
  "chain_tasks ask ts prev f = Done (prev', f') \<Longrightarrow> ef_EntryNodes f' = ef_EntryNodes f \<and> ef_ExitNodes f' = ef_ExitNodes f"
proof (induction ts arbitrary: prev f)
  case (Cons t ts)
  obtain required where req: "(if ask then ask_required t else Done True) = Done required"
    using Cons.prems by (simp only: chain_tasks.simps and_then_Done_iff) blast
  show ?case
  proof (cases "\<not> required \<or> ask_plan t = Done None \<or> (\<exists>g. ask_plan t = Done (Some g) \<and> ef_Nodes g = [])")
    case True
    then have "chain_tasks ask ts prev f = Done (prev', f')" using Cons.prems unfolding chain_tasks.simps req by (auto split: if_splits)
    then show ?thesis by (rule Cons.IH)
  next
    case False
    then obtain g where g: "required" "ask_plan t = Done (Some g)" "ef_Nodes g \<noteq> []"
      using Cons.prems unfolding chain_tasks.simps req by (cases "ask_plan t") auto
    then have "and_then (merge_task (tk_Name t) (Some g) f) (\<lambda>f1.
        and_then (if length prev > 0 then link_task (tk_Name t) prev (ef_EntryNodes g) f1 else Done f1)
          (chain_tasks ask ts (ef_ExitNodes g))) = Done (prev', f')"
      using Cons.prems unfolding chain_tasks.simps req by simp
    then obtain f1 f2 where "merge_task (tk_Name t) (Some g) f = Done f1"
      "(if length prev > 0 then link_task (tk_Name t) prev (ef_EntryNodes g) f1 else Done f1) = Done f2"
      "chain_tasks ask ts (ef_ExitNodes g) f2 = Done (prev', f')"
      unfolding and_then_Done_iff by blast
    then show ?thesis using Cons.IH[of "ef_ExitNodes g" f2] merge_task_ends[of _ "Some g" f f1] link_task_ends[of _ prev "ef_EntryNodes g" f1 f2]
      by (cases prev) auto
  qed
qed simp

lemma LoadBalancerModule_Plan_ends:
  "LoadBalancerModule_Plan tw ctx = Done f \<Longrightarrow> ef_EntryNodes f = [] \<and> ef_ExitNodes f = []"
  by (auto simp: LoadBalancerModule_Plan_def DeployLoadBalancerTask_Plan_def and_then_Done_iff NewEmptyFragment_def
      split: if_splits dest: chain_tasks_ends)

section \<open>Examples\<close>

definition task_of :: "string \<Rightarrow> (NodeID \<times> NodeID list) list \<Rightarrow> Task" where
  "task_of nm dl = \<lparr>tk_Name = nm, tk_IsRequired = Returns True None, tk_Plan = Returns (Some (planned_fragment dl)) None\<rparr>"

definition not_required :: "string \<Rightarrow> Task" where
  "not_required nm = \<lparr>tk_Name = nm, tk_IsRequired = Returns False None, tk_Plan = Panics ''not planned''\<rparr>"

lemma planned_task_of: "planned (task_of nm dl) (planned_fragment dl)"
  by (simp add: planned_def task_of_def)

lemma single_fragment:
  "module_fragment (planned_fragment [(i, [])])" "frag_ids (planned_fragment [(i, [])]) = {i}"
  "ef_Nodes (planned_fragment [(i, [])]) \<noteq> []"
  "set (ef_EntryNodes (planned_fragment [(i, [])])) = {i}" "set (ef_ExitNodes (planned_fragment [(i, [])])) = {i}"
  "dep_rel (ef_Nodes (planned_fragment [(i, [])])) = {}"
proof -
  let ?ns = "[(i, Some (plain_node i []))]"
  have "gm_ok ?ns" "no_nil_nodes ?ns" by (simp_all add: gm_ok_def no_nil_nodes_def)
  moreover have "ef_Nodes (plain_fragment [(i, [])]) = ?ns" by (simp add: plain_fragment_def)
  moreover have "deps_of ?ns j = []" for j by (simp add: deps_of_def plain_node_def)
  moreover have ids: "node_ids ?ns = {i}" by (simp add: node_ids_def)
  ultimately have f: "planned_fragment [(i, [])] = (plain_fragment [(i, [])])\<lparr>ef_EntryNodes := [i], ef_ExitNodes := [i]\<rparr>"
    and rel: "dep_rel ?ns = {}" and ends: "entry_ids ?ns = {i}" "exit_ids ?ns = {i}" and closed: "deps_closed ?ns"
    using Fragment_Calculate_eq[of "plain_fragment [(i, [])]"]
    by (auto simp: planned_fragment_def fragment_entry_ids_def exit_ids_def entry_ids_def dep_rel_def deps_closed_def)
  have ns: "ef_Nodes (planned_fragment [(i, [])]) = ?ns" using f by (simp add: plain_fragment_def)
  show "module_fragment (planned_fragment [(i, [])])"
    using f ns rel ends closed \<open>gm_ok ?ns\<close> \<open>no_nil_nodes ?ns\<close>
    by (simp add: module_fragment_def fragment_plan_def fragment_wf_def wf_acyclic)
  show "frag_ids (planned_fragment [(i, [])]) = {i}" "ef_Nodes (planned_fragment [(i, [])]) \<noteq> []"
    "dep_rel (ef_Nodes (planned_fragment [(i, [])])) = {}" using ns ids rel by simp_all
  show "set (ef_EntryNodes (planned_fragment [(i, [])])) = {i}" "set (ef_ExitNodes (planned_fragment [(i, [])])) = {i}"
    using f by simp_all
qed

text \<open>A cluster in which every task plans one node named after it.\<close>

fun demo_task :: "task_kind \<Rightarrow> Task" where
  "demo_task (Maintenance BackupPKITask) = task_of ''BackupPKI'' [(''backup-pki'', [])]"
| "demo_task (Maintenance BackupEtcdTask) = not_required ''BackupEtcd''"
| "demo_task (Maintenance BackupK8sConfigsTask) = task_of ''BackupK8s'' [(''backup-k8s'', [])]"
| "demo_task (Pki GenerateClusterCertsTask) = task_of ''GenerateClusterCerts'' [(''generate'', [])]"
| "demo_task (Pki CleanupTask) = task_of ''Cleanup'' [(''cleanup'', [])]"
| "demo_task (Kubexm GenerateKubePKITask) = task_of ''GenerateKubePKI'' [(''kube-pki'', [])]"
| "demo_task (Kubexm GenerateControlPlaneKubeconfigsTask) = task_of ''Kubeconfigs'' [(''kubeconfigs'', [])]"
| "demo_task (Kubexm ConfigureControlPlaneTask) = task_of ''Configure'' [(''configure'', [])]"
| "demo_task (Kubexm StartControlPlaneTask) = task_of ''Start'' [(''start'', [])]"
| "demo_task (Kubexm GenerateAdminKubeconfigTask) = task_of ''Admin'' [(''admin'', [])]"
| "demo_task (Kubexm KubexmJoinMastersTask) = task_of ''Join'' [(''join'', [])]"
| "demo_task (Os ConfigureHostTask) = task_of ''ConfigureHost'' [(''host'', [])]"
| "demo_task (Infra DeployEtcdClusterTask) = task_of ''DeployEtcd'' [(''etcd'', [])]"
| "demo_task (Infra DeployContainerdTask) = task_of ''DeployContainerd'' [(''containerd'', [])]"
| "demo_task k = not_required ''other''"

definition demo_spec :: ClusterSpec where
  "demo_spec =
     \<lparr>cs_Kubernetes = Some \<lparr>ku_Type = ''kubexm'', ku_ContainerRuntime = Some ''containerd''\<rparr>, cs_Etcd = None,
      cs_Network = None, cs_ControlPlaneEndpoint = None, cs_Addons = [], cs_Storage = None\<rparr>"

definition demo_ctx :: ModuleContext where
  "demo_ctx = \<lparr>mc_IsTaskContext = True, mc_ClusterConfig = Some demo_spec\<rparr>"

abbreviation one :: "NodeID \<Rightarrow> ExecutionFragment" where
  "one i \<equiv> planned_fragment [(i, [])]"

theorem Module_Plan_chained_witness:
  "\<exists>f. Module_Plan demo_task demo_ctx (BackupModule ''all'') = Done f \<and> frag_ids f = {''backup-pki'', ''backup-k8s''}
     \<and> (''backup-pki'', ''backup-k8s'') \<in> (dep_rel (ef_Nodes f))\<^sup>+"
proof -
  let ?ts = "bm_ModuleTasks (NewBackupModule demo_task ''all'')"
  have fs: "chain_fragments True ?ts = Some [one ''backup-pki'', one ''backup-k8s'']"
    by (simp add: NewBackupModule_def NewBaseModule_def task_of_def not_required_def single_fragment)
  have "mc_IsTaskContext demo_ctx" by (simp add: demo_ctx_def)
  from Module_Plan_chained[of demo_task "BackupModule ''all''", OF _ this fs] show ?thesis
    by (fastforce simp: single_fragment ordered_by_def)
qed

theorem PKIModule_Plan_unordered_witness:
  "\<exists>f. PKIModule_Plan demo_task demo_ctx ''kubernetes-certs'' = Done f
     \<and> (''generate'', ''cleanup'') \<notin> (dep_rel (ef_Nodes f))\<^sup>+ \<and> ''cleanup'' \<in> set (ef_EntryNodes f)"
proof -
  let ?b = "NewPKIModule demo_task ''kubernetes-certs''"
  have "mc_IsTaskContext demo_ctx" "\<not> kubeadm_etcd (mc_ClusterConfig demo_ctx)"
    by (simp_all add: demo_ctx_def demo_spec_def kubeadm_etcd_def)
  moreover have "required_fragments (bm_ModuleTasks ?b) = Some [one ''generate'', one ''cleanup'']"
    by (simp add: NewPKIModule_def NewBaseModule_def kubernetes_cert_tasks_def task_of_def not_required_def)
  ultimately show ?thesis
    using PKIModule_Plan_unordered[of demo_ctx "''kubernetes-certs''" demo_task "[one ''generate'', one ''cleanup'']"]
    by (fastforce simp: single_fragment unordered_by_def)
qed

theorem KubexmControlPlaneModule_Plan_edges_witness:
  "\<exists>f. KubexmControlPlaneModule_Plan demo_task demo_ctx = Done f \<and> (''kubeconfigs'', ''configure'') \<notin> dep_rel (ef_Nodes f)
     \<and> (''kube-pki'', ''kubeconfigs'') \<in> dep_rel (ef_Nodes f) \<and> set (ef_ExitNodes f) = {''join''}"
proof -
  have "mc_IsTaskContext demo_ctx" by (simp add: demo_ctx_def)
  then show ?thesis
    using KubexmControlPlaneModule_Plan_edges[of demo_ctx demo_task "one ''kube-pki''" "one ''kubeconfigs''" "one ''configure''"
        "one ''start''" "one ''admin''" "one ''join''"]
    by (fastforce simp: planned_task_of single_fragment module_fragment_result)
qed

theorem InfrastructureModule_Plan_order_witness:
  "\<exists>f. InfrastructureModule_Plan demo_task demo_ctx = Done f \<and> (''host'', ''containerd'') \<in> (dep_rel (ef_Nodes f))\<^sup>+
     \<and> (''host'', ''etcd'') \<notin> (dep_rel (ef_Nodes f))\<^sup>+"
proof -
  let ?pki = "NewEmptyFragment ''other''"
  have c: "mc_IsTaskContext demo_ctx" "runtime_task (mc_ClusterConfig demo_ctx) = Done DeployContainerdTask"
    by (simp_all add: demo_ctx_def demo_spec_def runtime_task_def non_nil_def)
  have fs: "chain_fragments True [demo_task (Os ConfigureHostTask), demo_task (Os DisableServicesTask), demo_task (Os ConfigureKernelTask)]
      = Some [one ''host'']" by (simp add: task_of_def not_required_def single_fragment)
  have t: "plans_to (demo_task (Infra GenerateEtcdPKITask)) ?pki" "planned (demo_task (Infra DeployEtcdClusterTask)) (one ''etcd'')"
    "planned (demo_task (Infra DeployContainerdTask)) (one ''containerd'')"
    by (simp_all add: plans_to_def not_required_def planned_task_of)
  from InfrastructureModule_Plan_order[OF c(1) fs t(1,2) c(2) t(3)] show ?thesis
    by (fastforce simp: single_fragment NewEmptyFragment_sound ordered_by_def unordered_by_def)
qed

end
