(* ===== verification/Pipelines.thy ===== *)
theory Pipelines
  imports ModulesCorrect Executor
begin

text \<open>
  The pipelines of \<^verbatim>\<open>pipeline/\<close>: their constructors, \<^verbatim>\<open>Plan\<close> and \<^verbatim>\<open>Run\<close>, and the offline mode check
  that precedes the creation of a cluster. The engine is an argument, a function from the executor,
  the graph and the dry run flag to the result and error of \<^verbatim>\<open>Execute\<close>. Error values keep what a
  message names and leave its text out.
\<close>

section \<open>Contexts and the common part of the pipelines\<close>

text \<open>What the pipelines read of a context, and the dynamic types it can be asserted to.\<close>

record PipelineContext =
  pc_IsModuleContext :: bool
  pc_IsRuntimeContext :: bool
  pc_Module :: ModuleContext
  pc_ClusterName :: "string option"
  pc_ClusterWorkDir :: string
  pc_GlobalWorkDir :: string

definition DefaultPipelineTimeout :: "64 word" where
  "DefaultPipelineTimeout = 30 * 60 * second"

record PipelineBase =
  pb_Name :: string
  pb_Description :: string
  pb_Timeout :: "64 word"
  pb_IgnoreError :: bool

definition NewBase :: "string \<Rightarrow> string \<Rightarrow> PipelineBase" where
  "NewBase nm description =
     \<lparr>pb_Name = nm, pb_Description = description, pb_Timeout = DefaultPipelineTimeout, pb_IgnoreError = False\<rparr>"

definition GetTimeout :: "PipelineBase \<Rightarrow> 64 word" where
  "GetTimeout b = (if sint (pb_Timeout b) \<le> 0 then DefaultPipelineTimeout else pb_Timeout b)"

record Pipeline =
  pl_Base :: PipelineBase
  pl_Modules :: "Module list"

abbreviation pl_Name :: "'a Pipeline_scheme \<Rightarrow> string" where
  "pl_Name p \<equiv> pb_Name (pl_Base p)"

type_synonym plan_return = "ExecutionGraph option \<times> pipe_error option"
type_synonym run_return = "(pipe_error, GraphExecutionResult option) answer"
type_synonym engine = "dagExecutor \<Rightarrow> ExecutionGraph \<Rightarrow> bool \<Rightarrow> GraphExecutionResult option \<times> plan_error option"

text \<open>
  The two ways the pipelines assemble their graph: nodes copied and entries linked in the body of
  \<^verbatim>\<open>Plan\<close>, or through \<^verbatim>\<open>MergeFragment\<close> and \<^verbatim>\<open>LinkFragments\<close>.
\<close>

definition module_answers :: "tasks \<Rightarrow> PipelineContext \<Rightarrow> 'a Pipeline_scheme \<Rightarrow> (string \<times> (module_error, ExecutionFragment option) answer) list" where
  "module_answers tw ctx p = map (module_answer tw (pc_Module ctx)) (pl_Modules p)"

definition plan_inline :: "tasks \<Rightarrow> PipelineContext \<Rightarrow> 'a Pipeline_scheme \<Rightarrow> (pipe_error, ExecutionGraph) outcome" where
  "plan_inline tw ctx p = plan_modules add_inline (pl_Name p) (pc_IsModuleContext ctx) (module_answers tw ctx p)"

definition plan_linked :: "tasks \<Rightarrow> PipelineContext \<Rightarrow> 'a Pipeline_scheme \<Rightarrow> (pipe_error, ExecutionGraph) outcome" where
  "plan_linked tw ctx p = plan_modules add_linked (pl_Name p) (pc_IsModuleContext ctx) (module_answers tw ctx p)"

definition empty_result :: "string \<Rightarrow> Status \<Rightarrow> GraphExecutionResult" where
  "empty_result nm status =
     \<lparr>ger_GraphName = nm, ger_StartTime = 0, ger_EndTime = 0, ger_Status = status, ger_NodeResults = [], ger_Message = []\<rparr>"

text \<open>
  The part every \<^verbatim>\<open>Run\<close> ends with: a given graph or the planned one is executed; an absent or empty
  graph is a success. \<open>reads_result\<close> tells whether the last log line reads the result's status,
  which panics when the engine returns neither a result nor an error.
\<close>

definition execute_graph :: "bool \<Rightarrow> engine \<Rightarrow> PipelineContext \<Rightarrow> string \<Rightarrow> ExecutionGraph \<Rightarrow> bool \<Rightarrow> run_return" where
  "execute_graph reads_result engine ctx nm g dry =
     (case engine (NewCheckpointExecutorForPipeline (pc_ClusterName ctx) (pc_ClusterWorkDir ctx) nm) g dry of
        (None, Some e) \<Rightarrow> Returns (Some (empty_result nm StatusFailed)) (Some (ExecutionFailed nm e))
      | (Some r, Some e) \<Rightarrow> Returns (Some r) (Some (ExecutionFailed nm e))
      | (None, None) \<Rightarrow> if reads_result then Panics ''nil pointer dereference'' else Returns None None
      | (Some r, None) \<Rightarrow> Returns (Some r) None)"

definition run_graph :: "bool \<Rightarrow> engine \<Rightarrow> PipelineContext \<Rightarrow> string \<Rightarrow> plan_return \<Rightarrow> ExecutionGraph option \<Rightarrow> bool \<Rightarrow> run_return" where
  "run_graph reads_result engine ctx nm planres graph dry =
     (case (case graph of None \<Rightarrow> planres | Some g \<Rightarrow> (Some g, None)) of
        (_, Some e) \<Rightarrow> Returns None (Some (PlanningFailed nm e))
      | (None, None) \<Rightarrow> Returns (Some (empty_result nm StatusSuccess)) None
      | (Some g, None) \<Rightarrow>
          if IsEmpty g then Returns (Some (empty_result nm StatusSuccess)) None
          else execute_graph reads_result engine ctx nm g dry)"

definition run_pipeline :: "engine \<Rightarrow> PipelineContext \<Rightarrow> string \<Rightarrow> plan_return \<Rightarrow> ExecutionGraph option \<Rightarrow> bool \<Rightarrow> run_return" where
  "run_pipeline engine ctx nm planres graph dry =
     (if \<not> pc_IsRuntimeContext ctx then Returns None (Some (NotARuntimeContext nm))
      else run_graph True engine ctx nm planres graph dry)"

section \<open>Offline mode\<close>

text \<open>The answers of \<^verbatim>\<open>os.Stat\<close>: the file is absent, another error, or its size.\<close>

datatype stat_answer = NotExist | StatFails | Size nat

definition essentialComponents :: "string list" where
  "essentialComponents = [''etcd'', ''kubernetes'', ''helm'']"

definition essentialFiles :: "(string \<times> string list) list" where
  "essentialFiles =
     [(''etcd'', [''etcd.tar.gz'', ''etcdctl.tar.gz'']),
      (''kubernetes'', [''kubelet.tar.gz'', ''kubeadm.tar.gz'', ''kubectl.tar.gz'']),
      (''helm'', [''helm.tar.gz''])]"

definition DetectOfflineMode :: "(string \<Rightarrow> stat_answer) \<Rightarrow> PipelineContext \<Rightarrow> bool" where
  "DetectOfflineMode stat ctx =
     (if mc_ClusterConfig (pc_Module ctx) = None then False
      else if pc_GlobalWorkDir ctx = [] then False
      else
        let packagesDir = filepath_Join [pc_GlobalWorkDir ctx, ''packages''] in
        if stat packagesDir = NotExist then False
        else if \<not> list_all (\<lambda>c. stat (filepath_Join [packagesDir, c]) \<noteq> NotExist) essentialComponents then False
        else list_all (\<lambda>(c, files). list_all (\<lambda>file.
               stat (filepath_Join [filepath_Join [packagesDir, c], file]) \<notin> {NotExist, Size 0}) files) essentialFiles)"

text \<open>
  \<^verbatim>\<open>EnsureAssetsAvailable\<close> calls the modules without the recovery wrapper. The planned download is
  dropped.
\<close>

definition EnsureAssetsAvailable :: "tasks \<Rightarrow> (string \<Rightarrow> stat_answer) \<Rightarrow> PipelineContext \<Rightarrow> (pipe_error, unit) outcome" where
  "EnsureAssetsAvailable tw stat ctx =
     (if DetectOfflineMode stat ctx then Done ()
      else case PreflightConnectivityModule_Plan tw (pc_Module ctx) of
        Aborts \<Rightarrow> Aborts
      | Fails e \<Rightarrow> Fails (ConnectivityCheckFailed e)
      | Done _ \<Rightarrow>
          if pc_GlobalWorkDir ctx = [] then Fails WorkDirNotAvailable
          else case AssetsDownloadModule_Plan tw (pc_Module ctx) (pc_GlobalWorkDir ctx) of
            Aborts \<Rightarrow> Aborts
          | Fails e \<Rightarrow> Fails (DownloadPlanFailed e)
          | Done fragment \<Rightarrow> Done ())"

section \<open>Creating, deleting and upgrading a cluster\<close>

record CreateClusterPipeline = Pipeline +
  ccp_assumeYes :: bool

definition NewCreateClusterPipeline :: "bool \<Rightarrow> CreateClusterPipeline" where
  "NewCreateClusterPipeline assumeYes =
     \<lparr>pl_Base = NewBase ''CreateNewCluster'' ''Creates a new Kubernetes cluster with all necessary components'',
      pl_Modules = [PreflightConnectivityModule, PreflightModule assumeYes, InfrastructureModule, LoadBalancerModule,
        ControlPlaneModule, NetworkModule, WorkerModule, AddonsModule],
      ccp_assumeYes = assumeYes\<rparr>"

definition CreateClusterPipeline_Plan :: "tasks \<Rightarrow> PipelineContext \<Rightarrow> CreateClusterPipeline \<Rightarrow> plan_return" where
  "CreateClusterPipeline_Plan tw ctx p = SafePlan (plan_inline tw ctx p)"

definition CreateClusterPipeline_Run :: "tasks \<Rightarrow> (string \<Rightarrow> stat_answer) \<Rightarrow> engine \<Rightarrow> PipelineContext \<Rightarrow> CreateClusterPipeline \<Rightarrow>
    ExecutionGraph option \<Rightarrow> bool \<Rightarrow> run_return" where
  "CreateClusterPipeline_Run tw stat engine ctx p graph dry =
     (if \<not> pc_IsRuntimeContext ctx then Returns None (Some (NotARuntimeContext (pl_Name p)))
      else case EnsureAssetsAvailable tw stat ctx of
        Aborts \<Rightarrow> Panics ''module panicked''
      | Fails e \<Rightarrow> Returns None (Some (AssetPreparationFailed e))
      | Done _ \<Rightarrow> run_graph True engine ctx (pl_Name p) (CreateClusterPipeline_Plan tw ctx p) graph dry)"

record DeleteClusterPipeline = Pipeline +
  dcp_AssumeYes :: bool

definition NewDeleteClusterPipeline :: "bool \<Rightarrow> DeleteClusterPipeline" where
  "NewDeleteClusterPipeline assumeYes =
     \<lparr>pl_Base = NewBase ''DeleteCluster'' ''Deletes an existing Kubernetes cluster and cleans up all resources'',
      pl_Modules = [PreflightConnectivityModule, PreflightModule assumeYes, AddonCleanupModule, WorkerCleanupModule,
        ControlPlaneCleanupModule, NetworkCleanupModule, LoadBalancerCleanupModule, EtcdCleanupModule,
        RuntimeCleanupModule, StorageCleanupModule, OsCleanupModule],
      dcp_AssumeYes = assumeYes\<rparr>"

definition DeleteClusterPipeline_Plan :: "tasks \<Rightarrow> PipelineContext \<Rightarrow> DeleteClusterPipeline \<Rightarrow> plan_return" where
  "DeleteClusterPipeline_Plan tw ctx p = SafePlan (plan_inline tw ctx p)"

definition DeleteClusterPipeline_Run :: "tasks \<Rightarrow> engine \<Rightarrow> PipelineContext \<Rightarrow> DeleteClusterPipeline \<Rightarrow>
    ExecutionGraph option \<Rightarrow> bool \<Rightarrow> run_return" where
  "DeleteClusterPipeline_Run tw engine ctx p graph dry =
     run_pipeline engine ctx (pl_Name p) (DeleteClusterPipeline_Plan tw ctx p) graph dry"

record UpgradeClusterPipeline = Pipeline +
  ucp_TargetVersion :: string
  ucp_AssumeYes :: bool

definition NewUpgradeClusterPipeline :: "string \<Rightarrow> bool \<Rightarrow> UpgradeClusterPipeline" where
  "NewUpgradeClusterPipeline targetVersion assumeYes =
     (let v = (if targetVersion = [] then ''unknown'' else targetVersion) in
      \<lparr>pl_Base = NewBase ''UpgradeCluster'' ''Upgrades an existing Kubernetes cluster to a target version'',
       pl_Modules = [PreflightConnectivityModule, PreflightModule assumeYes, ControlPlaneUpgradeModule v,
         WorkerUpgradeModule v, NetworkUpgradeModule],
       ucp_TargetVersion = v, ucp_AssumeYes = assumeYes\<rparr>)"

definition UpgradeClusterPipeline_Plan :: "tasks \<Rightarrow> PipelineContext \<Rightarrow> UpgradeClusterPipeline \<Rightarrow> plan_return" where
  "UpgradeClusterPipeline_Plan tw ctx p =
     SafePlan (if ucp_TargetVersion p = [] \<or> ucp_TargetVersion p = ''unknown'' then Fails TargetVersionRequired
               else plan_inline tw ctx p)"

definition UpgradeClusterPipeline_Run :: "tasks \<Rightarrow> engine \<Rightarrow> PipelineContext \<Rightarrow> UpgradeClusterPipeline \<Rightarrow>
    ExecutionGraph option \<Rightarrow> bool \<Rightarrow> run_return" where
  "UpgradeClusterPipeline_Run tw engine ctx p graph dry =
     run_pipeline engine ctx (pl_Name p) (UpgradeClusterPipeline_Plan tw ctx p) graph dry"

section \<open>Nodes, registry and certificates\<close>

text \<open>These structures hold the flag \<^verbatim>\<open>AssumeYes\<close> beside the modules.\<close>

record AssumeYesPipeline = Pipeline +
  ayp_AssumeYes :: bool

definition NewAddNodesPipeline :: "bool \<Rightarrow> AssumeYesPipeline" where
  "NewAddNodesPipeline assumeYes =
     \<lparr>pl_Base = NewBase ''AddNodes'' ''Adds new nodes to an existing Kubernetes cluster'',
      pl_Modules = [PreflightConnectivityModule, PreflightModule assumeYes, OsModule, EtcdModule, RuntimeModule, WorkerModule],
      ayp_AssumeYes = assumeYes\<rparr>"

definition AddNodesPipeline_Plan :: "tasks \<Rightarrow> PipelineContext \<Rightarrow> AssumeYesPipeline \<Rightarrow> plan_return" where
  "AddNodesPipeline_Plan tw ctx p = SafePlan (plan_linked tw ctx p)"

definition AddNodesPipeline_Run :: "tasks \<Rightarrow> engine \<Rightarrow> PipelineContext \<Rightarrow> AssumeYesPipeline \<Rightarrow> ExecutionGraph option \<Rightarrow> bool \<Rightarrow> run_return" where
  "AddNodesPipeline_Run tw engine ctx p graph dry = run_pipeline engine ctx (pl_Name p) (AddNodesPipeline_Plan tw ctx p) graph dry"

definition NewDeleteNodesPipeline :: "bool \<Rightarrow> AssumeYesPipeline" where
  "NewDeleteNodesPipeline assumeYes =
     \<lparr>pl_Base = NewBase ''DeleteNodes'' ''Deletes specific nodes from an existing Kubernetes cluster'',
      pl_Modules = [PreflightModule assumeYes, WorkerCleanupModule],
      ayp_AssumeYes = assumeYes\<rparr>"

definition DeleteNodesPipeline_Plan :: "tasks \<Rightarrow> PipelineContext \<Rightarrow> AssumeYesPipeline \<Rightarrow> plan_return" where
  "DeleteNodesPipeline_Plan tw ctx p = SafePlan (plan_linked tw ctx p)"

definition DeleteNodesPipeline_Run :: "tasks \<Rightarrow> engine \<Rightarrow> PipelineContext \<Rightarrow> AssumeYesPipeline \<Rightarrow> ExecutionGraph option \<Rightarrow> bool \<Rightarrow> run_return" where
  "DeleteNodesPipeline_Run tw engine ctx p graph dry = run_pipeline engine ctx (pl_Name p) (DeleteNodesPipeline_Plan tw ctx p) graph dry"

definition NewCreateRegistryPipeline :: "bool \<Rightarrow> AssumeYesPipeline" where
  "NewCreateRegistryPipeline assumeYes =
     \<lparr>pl_Base = NewBase ''CreateRegistry'' ''Creates a container registry for the cluster'',
      pl_Modules = [PreflightConnectivityModule, PreflightModule assumeYes, RegistryModule ''install''],
      ayp_AssumeYes = assumeYes\<rparr>"

definition CreateRegistryPipeline_Plan :: "tasks \<Rightarrow> PipelineContext \<Rightarrow> AssumeYesPipeline \<Rightarrow> plan_return" where
  "CreateRegistryPipeline_Plan tw ctx p = SafePlan (plan_linked tw ctx p)"

definition CreateRegistryPipeline_Run :: "tasks \<Rightarrow> engine \<Rightarrow> PipelineContext \<Rightarrow> AssumeYesPipeline \<Rightarrow> ExecutionGraph option \<Rightarrow> bool \<Rightarrow> run_return" where
  "CreateRegistryPipeline_Run tw engine ctx p graph dry = run_pipeline engine ctx (pl_Name p) (CreateRegistryPipeline_Plan tw ctx p) graph dry"

definition NewDeleteRegistryPipeline :: "bool \<Rightarrow> AssumeYesPipeline" where
  "NewDeleteRegistryPipeline assumeYes =
     \<lparr>pl_Base = NewBase ''DeleteRegistry'' ''Deletes a container registry from the cluster'',
      pl_Modules = [PreflightConnectivityModule, PreflightModule assumeYes, RegistryModule ''uninstall''],
      ayp_AssumeYes = assumeYes\<rparr>"

definition DeleteRegistryPipeline_Plan :: "tasks \<Rightarrow> PipelineContext \<Rightarrow> AssumeYesPipeline \<Rightarrow> plan_return" where
  "DeleteRegistryPipeline_Plan tw ctx p = SafePlan (plan_linked tw ctx p)"

definition DeleteRegistryPipeline_Run :: "tasks \<Rightarrow> engine \<Rightarrow> PipelineContext \<Rightarrow> AssumeYesPipeline \<Rightarrow> ExecutionGraph option \<Rightarrow> bool \<Rightarrow> run_return" where
  "DeleteRegistryPipeline_Run tw engine ctx p graph dry = run_pipeline engine ctx (pl_Name p) (DeleteRegistryPipeline_Plan tw ctx p) graph dry"

definition NewRenewAllPipeline :: "bool \<Rightarrow> AssumeYesPipeline" where
  "NewRenewAllPipeline assumeYes =
     \<lparr>pl_Base = NewBase ''RenewAll'' ''Renews all certificates (Kubernetes + etcd, CA + leaf) in the cluster'',
      pl_Modules = [PreflightConnectivityModule, PreflightModule assumeYes, PKIModule ''all''],
      ayp_AssumeYes = assumeYes\<rparr>"

definition RenewAllPipeline_Plan :: "tasks \<Rightarrow> PipelineContext \<Rightarrow> AssumeYesPipeline \<Rightarrow> plan_return" where
  "RenewAllPipeline_Plan tw ctx p = SafePlan (plan_linked tw ctx p)"

definition RenewAllPipeline_Run :: "tasks \<Rightarrow> engine \<Rightarrow> PipelineContext \<Rightarrow> AssumeYesPipeline \<Rightarrow> ExecutionGraph option \<Rightarrow> bool \<Rightarrow> run_return" where
  "RenewAllPipeline_Run tw engine ctx p graph dry = run_pipeline engine ctx (pl_Name p) (RenewAllPipeline_Plan tw ctx p) graph dry"

definition NewRenewKubernetesCAPipeline :: "bool \<Rightarrow> AssumeYesPipeline" where
  "NewRenewKubernetesCAPipeline assumeYes =
     \<lparr>pl_Base = NewBase ''RenewKubernetesCA'' ''Renews all Kubernetes CA certificates (CA + leaf certs) in the cluster'',
      pl_Modules = [PreflightConnectivityModule, PreflightModule assumeYes, PKIModule ''kubernetes-ca''],
      ayp_AssumeYes = assumeYes\<rparr>"

definition RenewKubernetesCAPipeline_Plan :: "tasks \<Rightarrow> PipelineContext \<Rightarrow> AssumeYesPipeline \<Rightarrow> plan_return" where
  "RenewKubernetesCAPipeline_Plan tw ctx p = SafePlan (plan_linked tw ctx p)"

definition RenewKubernetesCAPipeline_Run :: "tasks \<Rightarrow> engine \<Rightarrow> PipelineContext \<Rightarrow> AssumeYesPipeline \<Rightarrow> ExecutionGraph option \<Rightarrow> bool \<Rightarrow> run_return" where
  "RenewKubernetesCAPipeline_Run tw engine ctx p graph dry = run_pipeline engine ctx (pl_Name p) (RenewKubernetesCAPipeline_Plan tw ctx p) graph dry"

definition NewRenewKubernetesLeafPipeline :: "bool \<Rightarrow> AssumeYesPipeline" where
  "NewRenewKubernetesLeafPipeline assumeYes =
     \<lparr>pl_Base = NewBase ''RenewKubernetesLeaf'' ''Renews only Kubernetes leaf certificates (preserves existing CA) in the cluster'',
      pl_Modules = [PreflightConnectivityModule, PreflightModule assumeYes, PKIModule ''kubernetes-certs''],
      ayp_AssumeYes = assumeYes\<rparr>"

definition RenewKubernetesLeafPipeline_Plan :: "tasks \<Rightarrow> PipelineContext \<Rightarrow> AssumeYesPipeline \<Rightarrow> plan_return" where
  "RenewKubernetesLeafPipeline_Plan tw ctx p = SafePlan (plan_linked tw ctx p)"

definition RenewKubernetesLeafPipeline_Run :: "tasks \<Rightarrow> engine \<Rightarrow> PipelineContext \<Rightarrow> AssumeYesPipeline \<Rightarrow> ExecutionGraph option \<Rightarrow> bool \<Rightarrow> run_return" where
  "RenewKubernetesLeafPipeline_Run tw engine ctx p graph dry = run_pipeline engine ctx (pl_Name p) (RenewKubernetesLeafPipeline_Plan tw ctx p) graph dry"

definition NewRenewEtcdCAPipeline :: "bool \<Rightarrow> AssumeYesPipeline" where
  "NewRenewEtcdCAPipeline assumeYes =
     \<lparr>pl_Base = NewBase ''RenewEtcdCA'' ''Renews all etcd CA certificates (CA + leaf certs) in the cluster'',
      pl_Modules = [PreflightConnectivityModule, PreflightModule assumeYes, PKIModule ''etcd-ca''],
      ayp_AssumeYes = assumeYes\<rparr>"

definition RenewEtcdCAPipeline_Plan :: "tasks \<Rightarrow> PipelineContext \<Rightarrow> AssumeYesPipeline \<Rightarrow> plan_return" where
  "RenewEtcdCAPipeline_Plan tw ctx p = SafePlan (plan_linked tw ctx p)"

definition RenewEtcdCAPipeline_Run :: "tasks \<Rightarrow> engine \<Rightarrow> PipelineContext \<Rightarrow> AssumeYesPipeline \<Rightarrow> ExecutionGraph option \<Rightarrow> bool \<Rightarrow> run_return" where
  "RenewEtcdCAPipeline_Run tw engine ctx p graph dry = run_pipeline engine ctx (pl_Name p) (RenewEtcdCAPipeline_Plan tw ctx p) graph dry"

definition NewRenewEtcdLeafPipeline :: "bool \<Rightarrow> AssumeYesPipeline" where
  "NewRenewEtcdLeafPipeline assumeYes =
     \<lparr>pl_Base = NewBase ''RenewEtcdLeaf'' ''Renews only etcd leaf certificates (preserves existing CA) in the cluster'',
      pl_Modules = [PreflightConnectivityModule, PreflightModule assumeYes, PKIModule ''etcd-certs''],
      ayp_AssumeYes = assumeYes\<rparr>"

definition RenewEtcdLeafPipeline_Plan :: "tasks \<Rightarrow> PipelineContext \<Rightarrow> AssumeYesPipeline \<Rightarrow> plan_return" where
  "RenewEtcdLeafPipeline_Plan tw ctx p = SafePlan (plan_linked tw ctx p)"

definition RenewEtcdLeafPipeline_Run :: "tasks \<Rightarrow> engine \<Rightarrow> PipelineContext \<Rightarrow> AssumeYesPipeline \<Rightarrow> ExecutionGraph option \<Rightarrow> bool \<Rightarrow> run_return" where
  "RenewEtcdLeafPipeline_Run tw engine ctx p graph dry = run_pipeline engine ctx (pl_Name p) (RenewEtcdLeafPipeline_Plan tw ctx p) graph dry"

section \<open>Backup, restore, health, reconfiguration, etcd upgrade and download\<close>

record BackupPipeline = Pipeline +
  bkp_BackupType :: string

definition NewBackupPipeline :: "string \<Rightarrow> BackupPipeline" where
  "NewBackupPipeline backupType =
     (let t = (if backupType \<in> {''all'', ''pki'', ''etcd'', ''kubernetes''} then backupType else ''all'') in
      \<lparr>pl_Base = NewBase ''Backup'' (''Backup cluster data ('' @ t @ '')''),
       pl_Modules = [PreflightConnectivityModule, BackupModule t],
       bkp_BackupType = t\<rparr>)"

definition BackupPipeline_Plan :: "tasks \<Rightarrow> PipelineContext \<Rightarrow> BackupPipeline \<Rightarrow> plan_return" where
  "BackupPipeline_Plan tw ctx p = SafePlan (plan_linked tw ctx p)"

definition BackupPipeline_Run :: "tasks \<Rightarrow> engine \<Rightarrow> PipelineContext \<Rightarrow> BackupPipeline \<Rightarrow> ExecutionGraph option \<Rightarrow> bool \<Rightarrow> run_return" where
  "BackupPipeline_Run tw engine ctx p graph dry = run_pipeline engine ctx (pl_Name p) (BackupPipeline_Plan tw ctx p) graph dry"

record RestorePipeline = Pipeline +
  rsp_RestoreType :: string
  rsp_SnapshotPath :: string
  rsp_AssumeYes :: bool

definition NewRestorePipeline :: "string \<Rightarrow> string \<Rightarrow> bool \<Rightarrow> RestorePipeline" where
  "NewRestorePipeline restoreType snapshotPath assumeYes =
     (let t = (if restoreType \<in> {''all'', ''pki'', ''etcd'', ''kubernetes''} then restoreType else ''all'') in
      \<lparr>pl_Base = NewBase ''Restore'' (''Restore cluster data ('' @ t @ '')''),
       pl_Modules = [PreflightConnectivityModule, PreflightModule assumeYes, RestoreModule t snapshotPath],
       rsp_RestoreType = t, rsp_SnapshotPath = snapshotPath, rsp_AssumeYes = assumeYes\<rparr>)"

definition RestorePipeline_Plan :: "tasks \<Rightarrow> PipelineContext \<Rightarrow> RestorePipeline \<Rightarrow> plan_return" where
  "RestorePipeline_Plan tw ctx p =
     SafePlan (if rsp_SnapshotPath p = [] then Fails SnapshotPathRequired else plan_linked tw ctx p)"

definition RestorePipeline_Run :: "tasks \<Rightarrow> engine \<Rightarrow> PipelineContext \<Rightarrow> RestorePipeline \<Rightarrow> ExecutionGraph option \<Rightarrow> bool \<Rightarrow> run_return" where
  "RestorePipeline_Run tw engine ctx p graph dry = run_pipeline engine ctx (pl_Name p) (RestorePipeline_Plan tw ctx p) graph dry"

record HealthPipeline = Pipeline +
  hlp_Component :: string

definition NewHealthPipeline :: "string \<Rightarrow> HealthPipeline" where
  "NewHealthPipeline component =
     (let c = (if component \<in> {''all'', ''apiserver'', ''scheduler'', ''controller-manager'', ''kubelet'', ''cluster''}
               then component else ''all'') in
      \<lparr>pl_Base = NewBase ''HealthCheck'' (''Check health status of cluster components ('' @ c @ '')''),
       pl_Modules = [PreflightConnectivityModule, HealthModule c],
       hlp_Component = c\<rparr>)"

definition HealthPipeline_Plan :: "tasks \<Rightarrow> PipelineContext \<Rightarrow> HealthPipeline \<Rightarrow> plan_return" where
  "HealthPipeline_Plan tw ctx p = SafePlan (plan_linked tw ctx p)"

definition HealthPipeline_Run :: "tasks \<Rightarrow> engine \<Rightarrow> PipelineContext \<Rightarrow> HealthPipeline \<Rightarrow> ExecutionGraph option \<Rightarrow> bool \<Rightarrow> run_return" where
  "HealthPipeline_Run tw engine ctx p graph dry = run_pipeline engine ctx (pl_Name p) (HealthPipeline_Plan tw ctx p) graph dry"

record ReconfigurePipeline = Pipeline +
  rcp_Component :: string
  rcp_AssumeYes :: bool

definition NewReconfigurePipeline :: "string \<Rightarrow> bool \<Rightarrow> ReconfigurePipeline" where
  "NewReconfigurePipeline component assumeYes =
     (let c = (if component = ''network'' then ''all''
               else if component \<notin> {''all'', ''apiserver'', ''scheduler'', ''controller-manager'', ''kubelet'', ''proxy''} then ''all''
               else component) in
      \<lparr>pl_Base = NewBase ''Reconfigure'' (''Reconfigure cluster components ('' @ c @ '')''),
       pl_Modules = [PreflightConnectivityModule, PreflightModule assumeYes, ReconfigureModule c],
       rcp_Component = c, rcp_AssumeYes = assumeYes\<rparr>)"

definition ReconfigurePipeline_Plan :: "tasks \<Rightarrow> PipelineContext \<Rightarrow> ReconfigurePipeline \<Rightarrow> plan_return" where
  "ReconfigurePipeline_Plan tw ctx p = SafePlan (plan_linked tw ctx p)"

definition ReconfigurePipeline_Run :: "tasks \<Rightarrow> engine \<Rightarrow> PipelineContext \<Rightarrow> ReconfigurePipeline \<Rightarrow> ExecutionGraph option \<Rightarrow> bool \<Rightarrow> run_return" where
  "ReconfigurePipeline_Run tw engine ctx p graph dry =
     run_pipeline engine ctx (pl_Name p) (ReconfigurePipeline_Plan tw ctx p) graph dry"

text \<open>The etcd upgrade is declared without the modules its constructor sets; \<^verbatim>\<open>Plan\<close> always fails.\<close>

definition UpgradeEtcdPipeline_Plan :: "plan_return" where
  "UpgradeEtcdPipeline_Plan = (None, Some NotImplemented)"

definition UpgradeEtcdPipeline_Run :: "engine \<Rightarrow> PipelineContext \<Rightarrow> PipelineBase \<Rightarrow> ExecutionGraph option \<Rightarrow> bool \<Rightarrow> run_return" where
  "UpgradeEtcdPipeline_Run engine ctx p graph dry =
     run_pipeline engine ctx (pb_Name p) UpgradeEtcdPipeline_Plan graph dry"

record DownloadAssetsPipeline = Pipeline +
  dap_outputPath :: string

definition NewDownloadAssetsPipeline :: "string \<Rightarrow> DownloadAssetsPipeline" where
  "NewDownloadAssetsPipeline outputPath =
     (let path = (if outputPath = [] then ''./packages'' else outputPath) in
      \<lparr>pl_Base = NewBase ''DownloadAssets'' ''Download and package all assets for offline installation'',
       pl_Modules = [AssetsDownloadModule path],
       dap_outputPath = path\<rparr>)"

definition DownloadAssetsPipeline_Plan :: "tasks \<Rightarrow> PipelineContext \<Rightarrow> DownloadAssetsPipeline \<Rightarrow> plan_return" where
  "DownloadAssetsPipeline_Plan tw ctx p = SafePlan (plan_inline tw ctx p)"

definition DownloadAssetsPipeline_Run :: "tasks \<Rightarrow> engine \<Rightarrow> PipelineContext \<Rightarrow> DownloadAssetsPipeline \<Rightarrow> ExecutionGraph option \<Rightarrow> bool \<Rightarrow> run_return" where
  "DownloadAssetsPipeline_Run tw engine ctx p graph dry =
     (if \<not> pc_IsRuntimeContext ctx then Returns None (Some (NotARuntimeContext (pl_Name p)))
      else run_graph False engine ctx (pl_Name p) (DownloadAssetsPipeline_Plan tw ctx p) graph dry)"

end
