(* ===== verification/Tasks.thy ===== *)
theory Tasks
  imports Modules
begin

text \<open>
  Concrete tasks of \<^verbatim>\<open>task/\<close>, as far as a property of a pipeline depends on the nodes they plan:
  the installation of the Kubernetes binaries by kubeadm. The step builders are an argument, a
  function from the instance name to an error or the step.
\<close>

section \<open>Building a fragment\<close>

text \<open>The tasks ignore the errors of \<^verbatim>\<open>AddNode\<close> and \<^verbatim>\<open>AddDependency\<close>.\<close>

definition task_node :: "string \<Rightarrow> Step \<Rightarrow> Host option list \<Rightarrow> ExecutionNode" where
  "task_node nm s hosts =
     \<lparr>nd_Name = nm, nd_Step = Some s, nd_Hosts = Some hosts, nd_Dependencies = [], nd_StepName = [], nd_Hostnames = None,
      nd_RuntimeConfig = [], nd_PipelineName = [], nd_ModuleName = [], nd_TaskName = [], nd_HasCondition = False\<rparr>"

lemma task_node_simps [simp]: "nd_Name (task_node nm s hosts) = nm" "nd_Dependencies (task_node nm s hosts) = []"
  by (simp_all add: task_node_def)

definition put_node :: "ExecutionNode \<Rightarrow> ExecutionFragment \<Rightarrow> ExecutionFragment" where
  "put_node n f = (case Fragment_AddNode (Some n) [] f of Inl e \<Rightarrow> f | Inr (i, f') \<Rightarrow> f')"

definition put_dependency :: "NodeID \<Rightarrow> NodeID \<Rightarrow> ExecutionFragment \<Rightarrow> ExecutionFragment" where
  "put_dependency a b f = (case Fragment_AddDependency a b f of Inl e \<Rightarrow> f | Inr f' \<Rightarrow> f')"

text \<open>The common end of the tasks: nodes and dependencies are added in order, then the ends are computed.\<close>

definition plan_fragment :: "string \<Rightarrow> ExecutionNode list \<Rightarrow> (NodeID \<times> NodeID) list \<Rightarrow> (goerr, ExecutionFragment option) answer" where
  "plan_fragment nm ns es =
     (case Fragment_CalculateEntryAndExitNodes (fold (\<lambda>(a, b). put_dependency a b) es (fold put_node ns (NewExecutionFragment nm))) of
        Inl e \<Rightarrow> Panics ''nil pointer dereference'' | Inr f \<Rightarrow> Returns (Some f) None)"

type_synonym builders = "string \<Rightarrow> goerr + Step"

definition with_step :: "builders \<Rightarrow> string \<Rightarrow> (Step \<Rightarrow> (goerr, ExecutionFragment option) answer) \<Rightarrow>
    (goerr, ExecutionFragment option) answer" where
  "with_step build nm k = (case build nm of Inl e \<Rightarrow> Returns None (Some e) | Inr s \<Rightarrow> k s)"

lemma with_step_planned: "with_step build nm k = Returns tf None \<Longrightarrow> \<exists>s. k s = Returns tf None"
  by (auto simp: with_step_def split: sum.splits)

section \<open>Installing the Kubernetes components\<close>

definition InstallKubeComponentsTask_Plan :: "Host option list \<Rightarrow> Host option list \<Rightarrow> builders \<Rightarrow>
    (goerr, ExecutionFragment option) answer" where
  "InstallKubeComponentsTask_Plan masters workers build =
     (let deployHosts = masters @ workers in
      if length deployHosts = 0
      then Returns None (Some ''no master or worker hosts found to install kubernetes components'')
      else
        with_step build ''InstallKubelet'' (\<lambda>installKubelet.
        with_step build ''InstallKubeletService'' (\<lambda>installKubeletSvc.
        with_step build ''InstallKubeletDropin'' (\<lambda>installKubeletDropin.
        with_step build ''InstallKubeadm'' (\<lambda>installKubeadm.
        with_step build ''InstallKubectl'' (\<lambda>installKubectl.
          plan_fragment ''InstallKubeComponents''
            [task_node ''InstallKubelet'' installKubelet deployHosts, task_node ''InstallKubeadm'' installKubeadm deployHosts,
             task_node ''InstallKubectl'' installKubectl deployHosts,
             task_node ''InstallKubeletService'' installKubeletSvc deployHosts,
             task_node ''InstallKubeletDropin'' installKubeletDropin deployHosts]
            [(''InstallKubelet'', ''InstallKubeletService''), (''InstallKubeletService'', ''InstallKubeletDropin'')]))))))"

definition NewInstallKubeComponentsTask :: "Host option list \<Rightarrow> Host option list \<Rightarrow> builders \<Rightarrow> Task" where
  "NewInstallKubeComponentsTask masters workers build =
     \<lparr>tk_Name = ''InstallKubeComponents'', tk_IsRequired = Returns True None,
      tk_Plan = InstallKubeComponentsTask_Plan masters workers build\<rparr>"

section \<open>The fragments the tasks build\<close>

text \<open>Edges that lead forward in the list of nodes.\<close>

definition forward :: "'a list \<Rightarrow> ('a \<times> 'a) list \<Rightarrow> bool" where
  "forward xs es \<longleftrightarrow> list_all (\<lambda>(a, b). b \<in> set xs \<and> a \<in> set (takeWhile (\<lambda>x. x \<noteq> b) xs)) es"

lemma forward_nth:
  assumes "forward xs es" "(a, b) \<in> set es"
  obtains i j where "j < i" "i < length xs" "xs ! j = a" "xs ! i = b"
proof -
  let ?i = "length (takeWhile (\<lambda>x. x \<noteq> b) xs)"
  have b: "b \<in> set xs" and a: "a \<in> set (takeWhile (\<lambda>x. x \<noteq> b) xs)"
    using assms by (auto simp: forward_def list_all_iff)
  have "takeWhile (\<lambda>x. x \<noteq> b) xs \<noteq> xs" using b by (auto simp: takeWhile_eq_all_conv)
  then have "?i \<noteq> length xs" by (metis takeWhile_eq_take take_all order_refl)
  then have i: "?i < length xs" using length_takeWhile_le[of "\<lambda>x. x \<noteq> b" xs] by linarith
  then have "xs ! ?i = b" using nth_length_takeWhile[of "\<lambda>x. x \<noteq> b" xs] by simp
  moreover obtain j where "j < ?i" "xs ! j = a" using a by (metis in_set_conv_nth takeWhile_nth)
  ultimately show ?thesis using that i by blast
qed

lemma put_node_fresh:
  "nd_Name n \<noteq> [] \<Longrightarrow> nd_Name n \<notin> node_ids (ef_Nodes f) \<Longrightarrow>
     put_node n f = f\<lparr>ef_Nodes := ef_Nodes f @ [(nd_Name n, Some n)]\<rparr>"
  by (simp add: put_node_def Fragment_AddNode_def gm_has_iff gm_put_fresh node_ids_def)

lemma fold_put_node:
  assumes "distinct (map nd_Name ns)" "[] \<notin> nd_Name ` set ns" "nd_Name ` set ns \<inter> node_ids (ef_Nodes f) = {}"
  shows "fold put_node ns f = f\<lparr>ef_Nodes := ef_Nodes f @ map (\<lambda>n. (nd_Name n, Some n)) ns\<rparr>"
  using assms
proof (induction ns arbitrary: f)
  case (Cons n ns)
  let ?f = "put_node n f"
  have f: "?f = f\<lparr>ef_Nodes := ef_Nodes f @ [(nd_Name n, Some n)]\<rparr>"
    using Cons.prems by (intro put_node_fresh) auto
  have "nd_Name ` set ns \<inter> node_ids (ef_Nodes ?f) = {}"
    using Cons.prems by (auto simp: f node_ids_def)
  then show ?case using Cons.IH[of ?f] Cons.prems(1,2) by (simp add: f)
qed simp

lemma fold_put_dependency:
  assumes "gm_ok (ef_Nodes f)" "no_nil_nodes (ef_Nodes f)"
    and "\<And>a b. (a, b) \<in> set es \<Longrightarrow> a \<noteq> b \<and> a \<in> node_ids (ef_Nodes f) \<and> b \<in> node_ids (ef_Nodes f)"
  shows "\<exists>f'. fold (\<lambda>(a, b). put_dependency a b) es f = f' \<and> gm_ok (ef_Nodes f') \<and> no_nil_nodes (ef_Nodes f')
    \<and> node_ids (ef_Nodes f') = node_ids (ef_Nodes f)
    \<and> (\<forall>i. set (deps_of (ef_Nodes f') i) = set (deps_of (ef_Nodes f) i) \<union> {a. (a, i) \<in> set es})"
  using assms
proof (induction es arbitrary: f)
  case (Cons e es)
  obtain a b where e: "e = (a, b)" by fastforce
  have "gm_has (ef_Nodes f) a" "gm_has (ef_Nodes f) b" "a \<noteq> b"
    using Cons.prems(3)[of a b] by (simp_all add: e gm_has_iff node_ids_def)
  then obtain ns' where ns': "add_dependency a b (ef_Nodes f) = Inr ns'" "gm_ok ns'" "no_nil_nodes ns'"
    "gm_keys ns' = gm_keys (ef_Nodes f)"
    "\<forall>i. set (deps_of ns' i) = (if i = b then insert a (set (deps_of (ef_Nodes f) i)) else set (deps_of (ef_Nodes f) i))"
    using add_dependency_ok[OF Cons.prems(1,2)] by metis
  let ?f = "f\<lparr>ef_Nodes := ns'\<rparr>"
  have f: "put_dependency a b f = ?f" using ns'(1) by (simp add: put_dependency_def Fragment_AddDependency_def)
  have ids: "node_ids (ef_Nodes ?f) = node_ids (ef_Nodes f)" using ns'(4) by (simp add: node_ids_def)
  then have "\<exists>f'. fold (\<lambda>(a, b). put_dependency a b) es ?f = f' \<and> gm_ok (ef_Nodes f') \<and> no_nil_nodes (ef_Nodes f')
    \<and> node_ids (ef_Nodes f') = node_ids (ef_Nodes ?f)
    \<and> (\<forall>i. set (deps_of (ef_Nodes f') i) = set (deps_of (ef_Nodes ?f) i) \<union> {a. (a, i) \<in> set es})"
    using ns'(2,3) Cons.prems(3) by (intro Cons.IH) auto
  then show ?case unfolding e using f ids ns'(5) by auto
qed simp

lemma plan_fragment_sound:
  assumes "distinct (map nd_Name ns)" "[] \<notin> nd_Name ` set ns" "\<forall>n \<in> set ns. nd_Dependencies n = []"
    and "forward (map nd_Name ns) es"
  shows "\<exists>f. plan_fragment nm ns es = Returns (Some f) None \<and> module_fragment f \<and> frag_ids f = nd_Name ` set ns
    \<and> dep_rel (ef_Nodes f) = set es"
proof -
  let ?f0 = "fold put_node ns (NewExecutionFragment nm)" and ?t = "map (\<lambda>n. (nd_Name n, Some n)) ns"
  have f0: "ef_Nodes ?f0 = ?t" using fold_put_node[OF assms(1,2)] by (simp add: NewExecutionFragment_def)
  have ids: "node_ids ?t = nd_Name ` set ns" by (auto simp: node_ids_def)
  have ok: "gm_ok ?t" "no_nil_nodes ?t" using assms(1) by (auto simp: gm_ok_def no_nil_nodes_def comp_def)
  have deps: "deps_of ?t i = []" for i
    using assms(3) by (auto simp: deps_of_def gm_getd_def dest!: map_of_SomeD split: option.splits)
  have edge: "a \<noteq> b \<and> a \<in> nd_Name ` set ns \<and> b \<in> nd_Name ` set ns" if "(a, b) \<in> set es" for a b
  proof -
    obtain i j where ij: "j < i" "i < length ns" "map nd_Name ns ! j = a" "map nd_Name ns ! i = b"
      using forward_nth[OF assms(4) \<open>(a, b) \<in> set es\<close>] by (metis length_map)
    then have "a \<in> set (map nd_Name ns)" "b \<in> set (map nd_Name ns)"
      by (metis length_map less_trans nth_mem)+
    then show ?thesis using ij assms(1) nth_eq_iff_index_eq[of "map nd_Name ns" j i] by auto
  qed
  then obtain f where f: "fold (\<lambda>(a, b). put_dependency a b) es ?f0 = f" "gm_ok (ef_Nodes f)" "no_nil_nodes (ef_Nodes f)"
    "frag_ids f = nd_Name ` set ns" "\<forall>i. set (deps_of (ef_Nodes f) i) = {a. (a, i) \<in> set es}"
    using fold_put_dependency[of ?f0 es] ok deps by (auto simp: f0 ids)
  have rel: "dep_rel (ef_Nodes f) = set es" using f(5) edge by (auto simp: dep_rel_def f(4))
  have "deps_closed (ef_Nodes f)" using f(4,5) edge by (auto simp: deps_closed_def)
  moreover have "acyclic (set es)"
  proof -
    have "set es \<subseteq> measure (\<lambda>x. THE i. i < length ns \<and> map nd_Name ns ! i = x)"
    proof clarify
      fix a b assume "(a, b) \<in> set es"
      then obtain i j where ij: "j < i" "i < length ns" "map nd_Name ns ! j = a" "map nd_Name ns ! i = b"
        using forward_nth[OF assms(4)] by (metis length_map)
      have pos: "(THE i. i < length ns \<and> map nd_Name ns ! i = map nd_Name ns ! k) = k" if "k < length ns" for k
        using that assms(1) by (intro the_equality) (auto simp: nth_eq_iff_index_eq[of "map nd_Name ns"] simp del: nth_map)
      show "(a, b) \<in> measure (\<lambda>x. THE i. i < length ns \<and> map nd_Name ns ! i = x)"
        using ij pos[of i] pos[of j] by simp
    qed
    then show ?thesis using wf_acyclic[OF wf_measure] acyclic_subset by blast
  qed
  ultimately have "fragment_plan f" using f(2,3) rel by (simp add: fragment_plan_def fragment_wf_def)
  from Fragment_Calculate_plan[OF this] f(1,4) rel show ?thesis
    by (auto simp: plan_fragment_def module_fragment_def)
qed

text \<open>Whenever the task plans, its fragment is sound and has the same five node IDs.\<close>

definition kube_component_ids :: "NodeID set" where
  "kube_component_ids = {''InstallKubelet'', ''InstallKubeadm'', ''InstallKubectl'', ''InstallKubeletService'', ''InstallKubeletDropin''}"

lemma InstallKubeComponentsTask_Plan_sound:
  assumes "InstallKubeComponentsTask_Plan masters workers build = Returns tf None"
  shows "\<exists>f. tf = Some f \<and> module_fragment f \<and> frag_ids f = kube_component_ids"
proof -
  let ?hs = "masters @ workers"
  let ?es = "[(''InstallKubelet'', ''InstallKubeletService''), (''InstallKubeletService'', ''InstallKubeletDropin'')]"
  obtain a b c d e where plan: "plan_fragment ''InstallKubeComponents''
      [task_node ''InstallKubelet'' a ?hs, task_node ''InstallKubeadm'' d ?hs, task_node ''InstallKubectl'' e ?hs,
       task_node ''InstallKubeletService'' b ?hs, task_node ''InstallKubeletDropin'' c ?hs] ?es = Returns tf None"
    using assms by (auto simp: InstallKubeComponentsTask_Plan_def Let_def split: if_splits dest!: with_step_planned)
  let ?ns = "[task_node ''InstallKubelet'' a ?hs, task_node ''InstallKubeadm'' d ?hs, task_node ''InstallKubectl'' e ?hs,
    task_node ''InstallKubeletService'' b ?hs, task_node ''InstallKubeletDropin'' c ?hs]"
  have "forward (map nd_Name ?ns) ?es" by (simp add: forward_def)
  then obtain f where "plan_fragment ''InstallKubeComponents'' ?ns ?es = Returns (Some f) None" "module_fragment f"
    "frag_ids f = kube_component_ids"
    using plan_fragment_sound[of ?ns ?es "''InstallKubeComponents''"] by (auto simp: kube_component_ids_def)
  then show ?thesis using plan by simp
qed

end
