(* ===== verification/PipelinesCorrect.thy ===== *)
theory PipelinesCorrect
  imports Pipelines Tasks
begin

text \<open>
  What the pipelines do: which nodes a plan can have at all, the node IDs two modules of a kubeadm
  cluster share, the gap the load balancer module leaves in the order of a new cluster's plan, the
  pipelines the constructors return, and the answers for missing arguments and panics.
\<close>

section \<open>Which nodes a plan has\<close>

lemma merge_nodes_ids: "merge_nodes ns t = (None, t') \<Longrightarrow> node_ids t' = node_ids t \<union> node_ids ns"
  by (induction ns t rule: merge_nodes.induct) (auto simp: node_ids_Cons split: if_splits)

lemma link_entries_ids: "link_entries prev es ns = Some ns' \<Longrightarrow> node_ids ns' = node_ids ns"
proof (induction es arbitrary: ns)
  case (Cons e es)
  show ?case
  proof (cases "gm_get ns e")
    case None
    then show ?thesis using Cons by simp
  next
    case (Some n)
    then have "e \<in> node_ids ns" using gm_has_get[OF Some] by (simp add: gm_has_iff node_ids_def)
    then show ?thesis using Cons Some by (auto split: option.splits)
  qed
qed simp

lemma gm_get_ids: "gm_get ns i = Some n \<Longrightarrow> i \<in> node_ids ns"
  using gm_has_get[of ns i n] gm_has_iff[of ns i] by (simp add: node_ids_def)

lemma add_dependency_ids: "add_dependency a b ns = Inr ns' \<Longrightarrow> node_ids ns' = node_ids ns"
  using gm_get_ids[of ns b]
  by (auto simp: add_dependency_def insert_absorb split: if_splits option.splits)

lemma LinkFragments_ids:
  "LinkFragments HasNode AddDependency g as bs = (e, g') \<Longrightarrow> node_ids (eg_Nodes g') = node_ids (eg_Nodes g)"
  by (rule LinkFragments_keeps) (auto simp: AddDependency_def split: sum.splits dest: add_dependency_ids)

lemma link_task_ids: "link_task nm fs ts f = Done f' \<Longrightarrow> frag_ids f' = frag_ids f"
  by (rule link_task_keeps) (auto simp: Fragment_AddDependency_def split: sum.splits dest: add_dependency_ids)

lemma merge_task_ids: "merge_task nm (Some g) f = Done f' \<Longrightarrow> frag_ids f' = frag_ids f \<union> frag_ids g"
  by (auto simp: merge_task_def Fragment_MergeFragment_def split: prod.splits option.splits dest: merge_nodes_ids)

text \<open>An adder that, when it succeeds at all, adds exactly the nodes of the fragment, sound or not.\<close>

locale exact_adder = fragment_adder +
  assumes add_ids: "add nm f prev g = Done g' \<Longrightarrow> node_ids (eg_Nodes g') = node_ids (eg_Nodes g) \<union> frag_ids f"
begin

lemma assemble_disjoint:
  "assemble add ms prev g = Done g' \<Longrightarrow> sorted_wrt frag_disjoint (contributed ms)
     \<and> (\<forall>f \<in> set (contributed ms). frag_ids f \<inter> node_ids (eg_Nodes g) = {})"
proof (induction ms arbitrary: prev g)
  case (Cons m ms)
  obtain nm a where m: "m = (nm, a)" by fastforce
  show ?case
  proof (cases "\<exists>f. a = Returns (Some f) None \<and> ef_Nodes f \<noteq> []")
    case False
    then have "contributed (m # ms) = contributed ms" by (auto simp: m split: answer.splits option.splits)
    moreover have "\<exists>prev'. assemble add ms prev' g = Done g'"
      using Cons.prems False by (auto simp: m SafeModulePlan_def split: answer.splits option.splits prod.splits if_splits)
    ultimately show ?thesis using Cons.IH by metis
  next
    case True
    then obtain f where f: "a = Returns (Some f) None" "ef_Nodes f \<noteq> []" by blast
    then obtain g1 where g1: "add nm f prev g = Done g1" "assemble add ms (ef_ExitNodes f) g1 = Done g'"
      using Cons.prems by (auto simp: m SafeModulePlan_def split: outcome.splits)
    have new: "frag_ids f \<inter> node_ids (eg_Nodes g) = {}" using add_clash[of f g nm prev] g1(1) by auto
    have later: "sorted_wrt frag_disjoint (contributed ms)"
      "\<forall>f' \<in> set (contributed ms). frag_ids f' \<inter> (node_ids (eg_Nodes g) \<union> frag_ids f) = {}"
      using Cons.IH[OF g1(2)] add_ids[OF g1(1)] by simp_all
    have "frag_disjoint f f' \<and> frag_ids f' \<inter> node_ids (eg_Nodes g) = {}" if "f' \<in> set (contributed ms)" for f'
      using later(2) that by blast
    then show ?thesis using f new later(1) by (simp add: m)
  qed
qed simp

lemma plan_modules_disjoint:
  "plan_modules add pname c ms = Done g \<Longrightarrow> sorted_wrt frag_disjoint (contributed ms)"
  using assemble_disjoint by (fastforce simp: plan_modules_def split: if_splits outcome.splits)

end

interpretation inline_exact: exact_adder add_inline
proof unfold_locales
  fix g g' :: ExecutionGraph and nm f prev
  assume "add_inline nm f prev g = Done g'"
  then obtain ns where ns: "merge_nodes (ef_Nodes f) (eg_Nodes g) = (None, ns)"
    "eg_Nodes g' = ns \<or> link_entries prev (ef_EntryNodes f) ns = Some (eg_Nodes g')"
    by (auto simp: add_inline_def split: prod.splits option.splits if_splits plan_error.splits)
  then show "node_ids (eg_Nodes g') = node_ids (eg_Nodes g) \<union> frag_ids f"
    using merge_nodes_ids[OF ns(1)] link_entries_ids by auto
qed

interpretation linked_exact: exact_adder add_linked
proof unfold_locales
  fix g g' :: ExecutionGraph and nm f prev
  assume "add_linked nm f prev g = Done g'"
  then obtain ns where ns: "merge_nodes (ef_Nodes f) (eg_Nodes g) = (None, ns)"
    "g' = g\<lparr>eg_Nodes := ns\<rparr> \<or> LinkFragments HasNode AddDependency (g\<lparr>eg_Nodes := ns\<rparr>) prev (ef_EntryNodes f) = (None, g')"
    by (auto simp: add_linked_def MergeFragment_def split: prod.splits option.splits if_splits plan_error.splits)
  then show "node_ids (eg_Nodes g') = node_ids (eg_Nodes g) \<union> frag_ids f"
    using merge_nodes_ids[OF ns(1)] LinkFragments_ids by fastforce
qed

section \<open>Two modules that plan the same task\<close>

lemma linked_step_ids: "linked_step t (prev, f) = Done (prev', f') \<Longrightarrow> frag_ids f \<subseteq> frag_ids f'"
  by (cases "ask_required t"; cases "ask_plan t")
    (auto simp: linked_step_def optional_task_def and_then_Done_iff non_nil_def split: if_splits option.splits
      dest!: link_task_ids merge_task_ids)

lemma unique_ends_ids: "unique_ends nm es f = Done f' \<Longrightarrow> frag_ids f' = frag_ids f"
  by (auto simp: unique_ends_def NewEmptyFragment_def split: if_splits)

lemma install_planned:
  assumes "ask_plan (NewInstallKubeComponentsTask masters workers build) = Done tf"
  shows "\<exists>g. tf = Some g \<and> frag_ids g = kube_component_ids"
  using assms InstallKubeComponentsTask_Plan_sound[of masters workers build tf]
  by (auto simp: ask_plan_def NewInstallKubeComponentsTask_def split: answer.splits option.splits)

lemma KubeadmControlPlane_ids:
  assumes "tw (Kubeadm InstallKubeComponentsTask) = NewInstallKubeComponentsTask masters workers build"
    and "KubeadmControlPlaneModule_Plan tw ctx = Done f"
  shows "kube_component_ids \<subseteq> frag_ids f"
proof -
  let ?t = "NewInstallKubeComponentsTask masters workers build"
  obtain tf f1 g s2 prev f2 where r: "ask_plan ?t = Done tf" "merge_task (tk_Name ?t) tf (NewExecutionFragment ''KubeadmControlPlane-Fragment'') = Done f1"
    "non_nil tf = Done g"
    "linked_step (tw (Kubeadm BootstrapFirstMasterTask))
       (UniqueNodeIDs (ef_ExitNodes g), f1\<lparr>ef_EntryNodes := ef_EntryNodes f1 @ ef_EntryNodes g\<rparr>) = Done s2"
    "linked_step (tw (Kubeadm JoinMastersTask)) s2 = Done (prev, f2)" "unique_ends ''KubeadmControlPlane'' prev f2 = Done f"
    using assms(2) unfolding KubeadmControlPlaneModule_Plan_def Let_def and_then_Done_iff assms(1) by auto
  obtain g' where g': "tf = Some g'" "frag_ids g' = kube_component_ids" using install_planned[OF r(1)] by blast
  have "kube_component_ids \<subseteq> frag_ids f1" using merge_task_ids[OF r(2)[unfolded g'(1)]] g'(2) by simp
  moreover obtain p2 fr2 where s2: "s2 = (p2, fr2)" by fastforce
  ultimately have "kube_component_ids \<subseteq> frag_ids fr2" using linked_step_ids r(4) by fastforce
  then show ?thesis using linked_step_ids[OF r(5)[unfolded s2]] unique_ends_ids[OF r(6)] by simp
qed

lemma KubeadmWorker_ids:
  assumes "tw (Kubeadm InstallKubeComponentsTask) = NewInstallKubeComponentsTask masters workers build"
    and "KubeadmWorkerModule_Plan tw ctx = Done f"
  shows "kube_component_ids \<subseteq> frag_ids f"
proof -
  let ?t = "NewInstallKubeComponentsTask masters workers build"
  obtain exits f1 prev f2 where r: "entry_step ?t ([], NewExecutionFragment ''KubeadmWorker-Fragment'') = Done (exits, f1)"
    "linked_step (tw (Kubeadm JoinWorkersTask)) (UniqueNodeIDs exits, f1) = Done (prev, f2)" "unique_ends ''KubeadmWorker'' prev f2 = Done f"
    using assms(2) unfolding KubeadmWorkerModule_Plan_def and_then_Done_iff assms(1) by (auto simp: and_then_Done_iff)
  have req: "ask_required ?t = Done True" by (simp add: ask_required_def NewInstallKubeComponentsTask_def)
  obtain tf f0 g where s: "ask_plan ?t = Done tf" "merge_task (tk_Name ?t) tf (NewExecutionFragment ''KubeadmWorker-Fragment'') = Done f0"
    "frag_ids f1 = frag_ids f0"
    using r(1) unfolding entry_step_def optional_task_def req by (auto simp: and_then_Done_iff)
  obtain g' where g': "tf = Some g'" "frag_ids g' = kube_component_ids" using install_planned[OF s(1)] by blast
  have "kube_component_ids \<subseteq> frag_ids f1" using merge_task_ids[OF s(2)[unfolded g'(1)]] g'(2) s(3) by simp
  then show ?thesis using linked_step_ids[OF r(2)] unique_ends_ids[OF r(3)] by simp
qed

lemma contributed_append [simp]: "contributed (xs @ ys) = contributed xs @ contributed ys"
  by (induction xs rule: contributed.induct) (auto split: answer.splits option.splits)

lemma contributed_module_answer:
  "contributed [module_answer tw ctx m] =
     (case Module_Plan tw ctx m of Done f \<Rightarrow> if ef_Nodes f = [] then [] else [f] | _ \<Rightarrow> [])"
  by (auto simp: module_answer_def split: outcome.splits)

lemma module_error_stops:
  assumes "Module_Plan tw ctx m = Fails e"
  shows "plan_modules add pname True (map (module_answer tw ctx) (xs @ m # ys)) \<noteq> Done g"
proof -
  have "assemble add (map (module_answer tw ctx) (xs @ m # ys)) prev g \<noteq> Done g'" for prev g g'
    using assms by (induction xs arbitrary: prev g)
      (auto simp: module_answer_def SafeModulePlan_def split: outcome.splits prod.splits option.splits if_splits)
  then show ?thesis by (auto simp: plan_modules_def split: outcome.splits)
qed

lemma shared_node_clash:
  assumes "Module_Plan tw ctx m = Done f" "Module_Plan tw ctx m' = Done f'" "i \<in> frag_ids f" "i \<in> frag_ids f'"
  shows "plan_modules add_inline pname c (map (module_answer tw ctx) (xs @ m # ys @ m' # zs)) \<noteq> Done g"
proof
  let ?c = "\<lambda>ms. contributed (map (module_answer tw ctx) ms)"
  assume "plan_modules add_inline pname c (map (module_answer tw ctx) (xs @ m # ys @ m' # zs)) = Done g"
  from inline_exact.plan_modules_disjoint[OF this] have "sorted_wrt frag_disjoint (?c (xs @ [m] @ ys @ [m'] @ zs))" by simp
  moreover have "f \<in> set (?c [m])" "f' \<in> set (?c [m'])"
    using assms by (auto simp: contributed_module_answer node_ids_def)
  ultimately have "frag_disjoint f f'" unfolding map_append contributed_append by (auto simp: sorted_wrt_append)
  then show False using assms(3,4) by blast
qed

text \<open>C36: a cluster of type kubeadm (also the default, and any type that is not known) is never
  created: the control plane module and the worker module both plan the installation of the
  Kubernetes components, whose nodes have the same IDs. Unless one of the two modules panics,
  \<^verbatim>\<open>Plan\<close> returns no graph, for every list of hosts and whatever the other tasks plan, and \<^verbatim>\<open>Run\<close>
  without a graph never reaches the engine.\<close>

theorem CreateClusterPipeline_kubeadm_clash:
  assumes "tw (Kubeadm InstallKubeComponentsTask) = NewInstallKubeComponentsTask masters workers build"
    and "mc_ClusterConfig (pc_Module ctx) = Some c" "kube_type c \<noteq> ''kubexm''"
    and "Module_Plan tw (pc_Module ctx) ControlPlaneModule \<noteq> Aborts" "Module_Plan tw (pc_Module ctx) WorkerModule \<noteq> Aborts"
  shows "fst (CreateClusterPipeline_Plan tw ctx (NewCreateClusterPipeline assumeYes)) = None
    \<and> CreateClusterPipeline_Run tw stat engine ctx (NewCreateClusterPipeline assumeYes) None dry
      = CreateClusterPipeline_Run tw stat engine' ctx (NewCreateClusterPipeline assumeYes) None dry"
proof -
  let ?p = "NewCreateClusterPipeline assumeYes" and ?m = "pc_Module ctx"
  let ?pre = "[PreflightConnectivityModule, PreflightModule assumeYes, InfrastructureModule, LoadBalancerModule]"
  have modules: "pl_Modules ?p = ?pre @ ControlPlaneModule # [NetworkModule] @ WorkerModule # [AddonsModule]"
    by (simp add: NewCreateClusterPipeline_def)
  have mode: "NewControlPlaneModuleForType (kube_type c) = KubeadmMode" "NewWorkerModuleForType (kube_type c) = KubeadmMode"
    using assms(3) by (simp_all add: NewControlPlaneModuleForType_def NewWorkerModuleForType_def Let_def)
  have no_graph: "plan_inline tw ctx ?p \<noteq> Done g" for g
  proof (cases "(\<exists>e. Module_Plan tw ?m ControlPlaneModule = Fails e) \<or> (\<exists>e. Module_Plan tw ?m WorkerModule = Fails e)")
    case True
    then consider (cp) e where "Module_Plan tw ?m ControlPlaneModule = Fails e" | (w) e where "Module_Plan tw ?m WorkerModule = Fails e"
      by blast
    then have "plan_modules add_inline (pl_Name ?p) True (module_answers tw ctx ?p) \<noteq> Done g"
    proof cases
      case cp
      from module_error_stops[OF cp, of add_inline "pl_Name ?p" ?pre "[NetworkModule, WorkerModule, AddonsModule]" g]
      show ?thesis unfolding module_answers_def modules by simp
    next
      case w
      from module_error_stops[OF w, of add_inline "pl_Name ?p" "?pre @ [ControlPlaneModule, NetworkModule]" "[AddonsModule]" g]
      show ?thesis unfolding module_answers_def modules by simp
    qed
    then show ?thesis by (auto simp: plan_inline_def plan_modules_def split: if_splits)
  next
    case False
    then obtain f f' where f: "Module_Plan tw ?m ControlPlaneModule = Done f" "Module_Plan tw ?m WorkerModule = Done f'"
      using assms(4,5) by (metis outcome.exhaust)
    then have "KubeadmControlPlaneModule_Plan tw ?m = Done f" "KubeadmWorkerModule_Plan tw ?m = Done f'"
      using assms(2) mode by (auto simp: ControlPlaneModule_Plan_def WorkerModule_Plan_def and_then_Done_iff non_nil_def)
    then have "''InstallKubelet'' \<in> frag_ids f" "''InstallKubelet'' \<in> frag_ids f'"
      using KubeadmControlPlane_ids[of tw, OF assms(1)] KubeadmWorker_ids[of tw, OF assms(1)] by (auto simp: kube_component_ids_def)
    from shared_node_clash[OF f this] show ?thesis unfolding plan_inline_def module_answers_def modules .
  qed
  then have "fst (CreateClusterPipeline_Plan tw ctx ?p) = None"
    by (auto simp: CreateClusterPipeline_Plan_def SafePlan_def split: outcome.splits)
  moreover from this have "run_graph True engine ctx nm (CreateClusterPipeline_Plan tw ctx ?p) None dry
      = run_graph True engine' ctx nm (CreateClusterPipeline_Plan tw ctx ?p) None dry" for nm
    by (cases "CreateClusterPipeline_Plan tw ctx ?p") (simp add: run_graph_def split: option.splits)
  ultimately show ?thesis by (simp add: CreateClusterPipeline_Run_def split: outcome.splits)
qed

section \<open>The load balancer and the order of a plan\<close>

lemma barrier_ends:
  assumes "(a, b) \<in> barrier_edges {} fs"
  obtains f f' where "f \<in> set fs" "a \<in> set (ef_ExitNodes f)" "f' \<in> set fs" "b \<in> set (ef_EntryNodes f')"
  using barrier_sources[OF assms] barrier_targets[OF assms] by blast

lemma gap_unordered:
  assumes "\<And>f. f \<in> set (xs @ ys) \<Longrightarrow> module_result f" "sorted_wrt frag_disjoint (xs @ ys)" "f \<in> set xs" "f' \<in> set ys"
    and R: "R = (\<Union>f \<in> set (xs @ ys). dep_rel (ef_Nodes f)) \<union> barrier_edges {} xs \<union> barrier_edges {} ys"
  shows "unordered_by R f f'"
proof -
  let ?X = "\<Union>f \<in> set xs. frag_ids f" and ?Y = "\<Union>f \<in> set ys. frag_ids f"
  have res: "set (ef_EntryNodes f) \<subseteq> frag_ids f" "set (ef_ExitNodes f) \<subseteq> frag_ids f" "fst ` dep_rel (ef_Nodes f) \<subseteq> frag_ids f"
    "snd ` dep_rel (ef_Nodes f) \<subseteq> frag_ids f" if "f \<in> set (xs @ ys)" for f
    using assms(1)[OF that] dep_rel_closed[of "ef_Nodes f"] by (auto simp: module_result_def fragment_plan_def)
  have apart: "?X \<inter> ?Y = {}" using assms(2) by (auto simp: sorted_wrt_append)
  have edge: "a \<in> ?X \<and> b \<in> ?X \<or> a \<in> ?Y \<and> b \<in> ?Y" if e: "(a, b) \<in> R" for a b
  proof -
    consider (inside) f where "f \<in> set (xs @ ys)" "(a, b) \<in> dep_rel (ef_Nodes f)"
      | (left) "(a, b) \<in> barrier_edges {} xs" | (right) "(a, b) \<in> barrier_edges {} ys" using e R by blast
    then show ?thesis
    proof cases
      case (inside f)
      then have "a \<in> frag_ids f" "b \<in> frag_ids f"
        using res(3,4)[OF inside(1)] imageI[OF inside(2), of fst] imageI[OF inside(2), of snd] by auto
      then show ?thesis using inside(1) by auto
    next
      case left
      then obtain f f' where "f \<in> set xs" "a \<in> set (ef_ExitNodes f)" "f' \<in> set xs" "b \<in> set (ef_EntryNodes f')"
        by (rule barrier_ends)
      then show ?thesis using res(2)[of f] res(1)[of f'] by auto
    next
      case right
      then obtain f f' where "f \<in> set ys" "a \<in> set (ef_ExitNodes f)" "f' \<in> set ys" "b \<in> set (ef_EntryNodes f')"
        by (rule barrier_ends)
      then show ?thesis using res(2)[of f] res(1)[of f'] by auto
    qed
  qed
  have "a \<in> ?X \<and> b \<in> ?X \<or> a \<in> ?Y \<and> b \<in> ?Y" if "(a, b) \<in> R\<^sup>+" for a b
    using that
  proof (induction rule: trancl_induct)
    case (base b)
    then show ?case by (rule edge)
  next
    case (step b c)
    then show ?case using edge[OF step(2)] apart by (meson disjoint_iff)
  qed
  moreover have "frag_ids f \<subseteq> ?X" "frag_ids f' \<subseteq> ?Y" using assms(3,4) by auto
  ultimately show ?thesis using apart unfolding unordered_by_def by blast
qed

text \<open>The non-empty fragments that some of a pipeline's modules contribute.\<close>

definition fragments_of :: "tasks \<Rightarrow> PipelineContext \<Rightarrow> Module list \<Rightarrow> ExecutionFragment list" where
  "fragments_of tw ctx ms = contributed (map (module_answer tw (pc_Module ctx)) ms)"

lemma fragments_of_append: "fragments_of tw ctx (ms @ ms') = fragments_of tw ctx ms @ fragments_of tw ctx ms'"
  by (simp add: fragments_of_def)

lemma contributed_answers: "contributed (module_answers tw ctx p) = fragments_of tw ctx (pl_Modules p)"
  by (simp add: fragments_of_def module_answers_def)

text \<open>with a load balancer enabled the plan for a new cluster has no order across the load
  balancer module, because that module lists neither entry nor exit nodes. When all modules return
  usable fragments over different node IDs and the load balancer module plans something, \<^verbatim>\<open>Plan\<close>
  returns a valid graph in which no node of the control plane, network, worker and add-on modules
  depends, even indirectly, on a node of the connectivity, preflight, infrastructure or load
  balancer modules.\<close>

theorem CreateClusterPipeline_loadbalancer_gap:
  assumes "before = fragments_of tw ctx [PreflightConnectivityModule, PreflightModule assumeYes, InfrastructureModule]"
    and "after = fragments_of tw ctx [ControlPlaneModule, NetworkModule, WorkerModule, AddonsModule]"
    and "pc_IsModuleContext ctx" "no_module_error (module_answers tw ctx (NewCreateClusterPipeline assumeYes))"
    and "Module_Plan tw (pc_Module ctx) LoadBalancerModule = Done lb" "ef_Nodes lb \<noteq> []"
    and "\<And>f. f \<in> set (before @ lb # after) \<Longrightarrow> module_result f" "sorted_wrt frag_disjoint (before @ lb # after)"
  shows "\<exists>g. CreateClusterPipeline_Plan tw ctx (NewCreateClusterPipeline assumeYes) = (Some g, None) \<and> Validate g = None
    \<and> (\<forall>f \<in> set (before @ [lb]). \<forall>f' \<in> set after. unordered_by (dep_rel (eg_Nodes g)) f f')"
proof -
  let ?p = "NewCreateClusterPipeline assumeYes"
  have lb: "fragments_of tw ctx [LoadBalancerModule] = [lb]" "ef_EntryNodes lb = []" "ef_ExitNodes lb = []"
    using assms(5,6) LoadBalancerModule_Plan_ends[of tw "pc_Module ctx" lb] by (simp_all add: fragments_of_def contributed_module_answer)
  have "pl_Modules ?p = [PreflightConnectivityModule, PreflightModule assumeYes, InfrastructureModule] @ [LoadBalancerModule]
       @ [ControlPlaneModule, NetworkModule, WorkerModule, AddonsModule]"
    by (simp add: NewCreateClusterPipeline_def)
  then have c: "contributed (module_answers tw ctx ?p) = before @ lb # after"
    unfolding contributed_answers fragments_of_append assms(1,2) by (metis fragments_of_append lb(1) append_Cons append_Nil)
  obtain g where g: "plan_inline tw ctx ?p = Done g" "Validate g = None"
    "dep_rel (eg_Nodes g) = (\<Union>f \<in> set (before @ lb # after). dep_rel (ef_Nodes f)) \<union> barrier_edges {} (before @ lb # after)"
    using inline.plan_modules_plan[OF assms(4), unfolded c, OF assms(7,8), of "pl_Name ?p"] assms(3)
    by (auto simp: plan_inline_def)
  have split: "barrier_edges {} (before @ lb # after) = barrier_edges {} (before @ [lb]) \<union> barrier_edges {} after"
    using lb(2,3) by (simp add: barrier_edges_append)
  have "unordered_by (dep_rel (eg_Nodes g)) f f'" if "f \<in> set (before @ [lb])" "f' \<in> set after" for f f'
    by (rule gap_unordered[of "before @ [lb]" after]) (use assms(7,8) that g(3) split in auto)
  then show ?thesis using g(1,2) by (auto simp: CreateClusterPipeline_Plan_def SafePlan_def)
qed

section \<open>Constructors and missing arguments\<close>

text \<open>
  The pipelines the constructors return for given arguments, each with its base and its modules.
\<close>

definition constructed :: "bool \<Rightarrow> string \<Rightarrow> string \<Rightarrow> string \<Rightarrow> (PipelineBase \<times> Module list) list" where
  "constructed y version kind path =
     [(pl_Base (NewCreateClusterPipeline y), pl_Modules (NewCreateClusterPipeline y)),
       (pl_Base (NewDeleteClusterPipeline y), pl_Modules (NewDeleteClusterPipeline y)),
       (pl_Base (NewUpgradeClusterPipeline version y), pl_Modules (NewUpgradeClusterPipeline version y)),
       (pl_Base (NewBackupPipeline kind), pl_Modules (NewBackupPipeline kind)),
       (pl_Base (NewRestorePipeline kind path y), pl_Modules (NewRestorePipeline kind path y)),
       (pl_Base (NewHealthPipeline kind), pl_Modules (NewHealthPipeline kind)),
       (pl_Base (NewReconfigurePipeline kind y), pl_Modules (NewReconfigurePipeline kind y)),
       (pl_Base (NewDownloadAssetsPipeline path), pl_Modules (NewDownloadAssetsPipeline path))]
      @ map (\<lambda>p. (pl_Base p, pl_Modules p))
         [NewAddNodesPipeline y, NewDeleteNodesPipeline y, NewCreateRegistryPipeline y, NewDeleteRegistryPipeline y,
          NewRenewAllPipeline y, NewRenewKubernetesCAPipeline y, NewRenewKubernetesLeafPipeline y,
          NewRenewEtcdCAPipeline y, NewRenewEtcdLeafPipeline y]"

text \<open>Arguments the modules distinguish, and modules that leave the cluster as it is.\<close>

fun arguments_ok :: "Module \<Rightarrow> bool" where
  "arguments_ok (BackupModule t) \<longleftrightarrow> t \<in> {''all'', ''pki'', ''etcd'', ''kubernetes''}"
| "arguments_ok (RestoreModule t p) \<longleftrightarrow> t \<in> {''all'', ''pki'', ''etcd'', ''kubernetes''}"
| "arguments_ok (HealthModule c) \<longleftrightarrow> c \<in> {''all'', ''apiserver'', ''scheduler'', ''controller-manager'', ''kubelet'', ''cluster''}"
| "arguments_ok (ReconfigureModule c) \<longleftrightarrow> c \<in> {''all'', ''apiserver'', ''scheduler'', ''controller-manager'', ''kubelet'', ''proxy''}"
| "arguments_ok (PKIModule c) \<longleftrightarrow> c \<in> {''all'', ''kubernetes-ca'', ''kubernetes-certs'', ''etcd-ca'', ''etcd-certs''}"
| "arguments_ok (RegistryModule r) \<longleftrightarrow> r \<in> {''install'', ''uninstall''}"
| "arguments_ok (ControlPlaneUpgradeModule v) \<longleftrightarrow> v \<noteq> []"
| "arguments_ok (WorkerUpgradeModule v) \<longleftrightarrow> v \<noteq> []"
| "arguments_ok (AssetsDownloadModule p) \<longleftrightarrow> p \<noteq> []"
| "arguments_ok _ \<longleftrightarrow> True"

fun harmless :: "Module \<Rightarrow> bool" where
  "harmless PreflightConnectivityModule \<longleftrightarrow> True"
| "harmless (PreflightModule y) \<longleftrightarrow> True"
| "harmless (BackupModule t) \<longleftrightarrow> True"
| "harmless (HealthModule c) \<longleftrightarrow> True"
| "harmless (AssetsDownloadModule p) \<longleftrightarrow> True"
| "harmless _ \<longleftrightarrow> False"

fun confirmed_first :: "bool \<Rightarrow> Module list \<Rightarrow> bool" where
  "confirmed_first y [] \<longleftrightarrow> True"
| "confirmed_first y (m # ms) \<longleftrightarrow> m = PreflightModule y \<or> harmless m \<and> confirmed_first y ms"

definition well_formed :: "bool \<Rightarrow> PipelineBase \<times> Module list \<Rightarrow> bool" where
  "well_formed y = (\<lambda>(b, ms). pb_Name b \<noteq> [] \<and> GetTimeout b = pb_Timeout b \<and> 0 < sint (pb_Timeout b)
     \<and> ms \<noteq> [] \<and> distinct ms \<and> list_all arguments_ok ms \<and> confirmed_first y ms)"


lemma add_inline_errors: "add_inline nm f prev g \<noteq> Fails TargetVersionRequired"
  by (auto simp: add_inline_def split: prod.splits option.splits plan_error.splits)

lemma add_linked_errors: "add_linked nm f prev g \<noteq> Fails SnapshotPathRequired"
proof -
  obtain e1 g1 where m: "MergeFragment (Some f) g = (e1, g1)" by fastforce
  obtain e2 g2 where l: "LinkFragments HasNode AddDependency g1 prev (ef_EntryNodes f) = (e2, g2)" by fastforce
  have "\<not> (case (e2, g2) of (Some (LinkFailed a b NilDereference), g2) \<Rightarrow> Aborts
      | (Some e, g2) \<Rightarrow> Fails (ModuleLinkFailed (eg_Name g) e) | (None, g2) \<Rightarrow> Done g2) = Fails SnapshotPathRequired"
  proof (cases e2)
    case (Some e)
    show ?thesis
    proof (cases e)
      case (LinkFailed a b e')
      then show ?thesis by (cases e') (simp_all add: Some)
    qed (simp_all add: Some)
  qed simp
  then show ?thesis by (cases e1) (simp_all add: add_linked_def m l)
qed

lemma assemble_errors:
  assumes "\<And>nm f prev g. add nm f prev g \<noteq> Fails e" "\<And>nm e'. e \<noteq> ModulePlanFailed nm e'"
  shows "assemble add ms prev g \<noteq> Fails e"
proof (induction ms arbitrary: prev g)
  case (Cons m ms)
  obtain nm a where m: "m = (nm, a)" by fastforce
  obtain f e' where sf: "SafeModulePlan a = (f, e')" by fastforce
  show ?case
    using Cons.IH assms(1) assms(2)[symmetric] by (cases e'; cases f) (simp_all add: m sf split: outcome.split, metis+)
qed simp

lemma plan_modules_errors:
  "plan_modules add_inline pname c ms \<noteq> Fails TargetVersionRequired" "plan_modules add_linked pname c ms \<noteq> Fails SnapshotPathRequired"
  using assemble_errors[of add_inline TargetVersionRequired ms "[]" "NewExecutionGraph pname", OF add_inline_errors]
    assemble_errors[of add_linked SnapshotPathRequired ms "[]" "NewExecutionGraph pname", OF add_linked_errors]
  by (simp_all add: plan_modules_def split: outcome.split sum.split option.split) metis+

text \<open>an upgrade without a target version and a restore without a snapshot path are refused, and
  only these are refused with that error: \<^verbatim>\<open>Plan\<close> returns the error for a missing version exactly
  when the version is empty or \<^verbatim>\<open>unknown\<close>, the error for a missing path exactly when the path is
  empty, for every kind of restore.\<close>

theorem required_arguments:
  "(snd (UpgradeClusterPipeline_Plan tw ctx (NewUpgradeClusterPipeline version y)) = Some TargetVersionRequired
      \<longleftrightarrow> version = [] \<or> version = ''unknown'')
   \<and> (snd (RestorePipeline_Plan tw ctx (NewRestorePipeline kind path y)) = Some SnapshotPathRequired \<longleftrightarrow> path = [])"
proof -
  have "snd (SafePlan (plan_inline tw ctx p)) \<noteq> Some TargetVersionRequired" for p :: UpgradeClusterPipeline
    using plan_modules_errors(1)[of "pl_Name p" "pc_IsModuleContext ctx" "module_answers tw ctx p"]
    by (cases "plan_inline tw ctx p") (simp_all add: SafePlan_def plan_inline_def)
  moreover have "snd (SafePlan (plan_linked tw ctx p)) \<noteq> Some SnapshotPathRequired" for p :: RestorePipeline
    using plan_modules_errors(2)[of "pl_Name p" "pc_IsModuleContext ctx" "module_answers tw ctx p"]
    by (cases "plan_linked tw ctx p") (simp_all add: SafePlan_def plan_linked_def)
  moreover have "ucp_TargetVersion (NewUpgradeClusterPipeline version y) = (if version = [] then ''unknown'' else version)"
    "rsp_SnapshotPath (NewRestorePipeline kind path y) = path"
    by (simp_all add: NewUpgradeClusterPipeline_def NewRestorePipeline_def Let_def)
  ultimately show ?thesis by (simp add: UpgradeClusterPipeline_Plan_def RestorePipeline_Plan_def SafePlan_def)
qed

text \<open>an asset download whose module panics while it plans is reported as a success: \<^verbatim>\<open>Run\<close> returns a
  result with status Success and no error, and the engine is not called, since the result does
  not depend on it.\<close>

theorem DownloadAssetsPipeline_Run_panic:
  assumes "Module_Plan tw (pc_Module ctx) (AssetsDownloadModule (dap_outputPath (NewDownloadAssetsPipeline path))) = Aborts"
    and "pc_IsModuleContext ctx" "pc_IsRuntimeContext ctx"
  shows "DownloadAssetsPipeline_Run tw engine ctx (NewDownloadAssetsPipeline path) None dry
    = Returns (Some (empty_result ''DownloadAssets'' StatusSuccess)) None"
proof -
  let ?p = "NewDownloadAssetsPipeline path"
  have name: "pl_Name ?p = ''DownloadAssets''" by (simp add: NewDownloadAssetsPipeline_def NewBase_def Let_def)
  have "module_answers tw ctx ?p = [(''AssetsDownload'', Panics [])]"
    using assms(1) by (simp add: module_answers_def module_answer_def NewDownloadAssetsPipeline_def Let_def)
  then have "plan_inline tw ctx ?p = plan_modules add_inline ''DownloadAssets'' True [(''AssetsDownload'', Panics [])]"
    using assms(2) name by (simp add: plan_inline_def)
  moreover have "case plan_modules add_inline ''DownloadAssets'' True [(''AssetsDownload'', Panics [])] of Done g \<Rightarrow> IsEmpty g | _ \<Rightarrow> False"
    by code_simp
  ultimately obtain g where "plan_inline tw ctx ?p = Done g" "IsEmpty g" by (auto split: outcome.splits)
  then show ?thesis
    using assms(3) name by (simp add: DownloadAssetsPipeline_Run_def DownloadAssetsPipeline_Plan_def SafePlan_def run_graph_def)
qed

section \<open>Examples\<close>

text \<open>An executable test for the fragments of an example.\<close>

definition usable :: "ExecutionFragment \<Rightarrow> bool" where
  "usable f \<longleftrightarrow> gm_ok (ef_Nodes f) \<and> Validate ((NewExecutionGraph [])\<lparr>eg_Nodes := ef_Nodes f\<rparr>) = None
     \<and> list_all (\<lambda>i. i \<in> set (gm_keys (ef_Nodes f))) (ef_EntryNodes f @ ef_ExitNodes f)"

lemma usable_result: "usable f \<Longrightarrow> module_result f"
  using Validate_None_iff[of "(NewExecutionGraph [])\<lparr>eg_Nodes := ef_Nodes f\<rparr>"]
  by (auto simp: usable_def module_result_def fragment_plan_def fragment_wf_def valid_plan_def node_ids_def list_all_iff)

definition idle_step :: Step where
  "idle_step =
     (let meta = \<lparr>sm_Name = ''step'', sm_Description = [], sm_Hidden = False, sm_AllowFailure = False\<rparr>
      in \<lparr>stp_Meta = Some meta, stp_Base = \<lparr>sb_Meta = meta, sb_Timeout = 0, sb_Sudo = False, sb_IgnoreError = False\<rparr>\<rparr>)"

definition single_task :: "string \<Rightarrow> Task" where
  "single_task nm = \<lparr>tk_Name = nm, tk_IsRequired = Returns True None, tk_Plan = plan_fragment nm [task_node nm idle_step []] []\<rparr>"

fun lb_tasks :: "task_kind \<Rightarrow> Task" where
  "lb_tasks (Preflight CheckConnectivityTask) = single_task ''connectivity''"
| "lb_tasks (Os ConfigureHostTask) = single_task ''host''"
| "lb_tasks (Infra DeployContainerdTask) = single_task ''containerd''"
| "lb_tasks (LoadBalancer DeployKubeVipTask) = single_task ''kube-vip''"
| "lb_tasks (Kubexm StartControlPlaneTask) = single_task ''start''"
| "lb_tasks (Kubexm DeployWorkerNodesTask) = single_task ''workers''"
| "lb_tasks k = not_required ''other''"

definition pipeline_ctx :: "ClusterSpec \<Rightarrow> PipelineContext" where
  "pipeline_ctx c =
     \<lparr>pc_IsModuleContext = True, pc_IsRuntimeContext = True,
      pc_Module = \<lparr>mc_IsTaskContext = True, mc_ClusterConfig = Some c\<rparr>,
      pc_ClusterName = None, pc_ClusterWorkDir = [], pc_GlobalWorkDir = ''/work''\<rparr>"

definition lb_spec :: ClusterSpec where
  "lb_spec = demo_spec\<lparr>cs_ControlPlaneEndpoint :=
     Some (Some \<lparr>ha_Enabled = Some True, ha_External = Some \<lparr>lb_Enabled = Some True, lb_Type = ''kube-vip''\<rparr>, ha_Internal = None\<rparr>)\<rparr>"

definition lb_fragment :: ExecutionFragment where
  "lb_fragment = (case LoadBalancerModule_Plan lb_tasks (pc_Module (pipeline_ctx lb_spec)) of Done f \<Rightarrow> f | _ \<Rightarrow> NewEmptyFragment [])"

theorem CreateClusterPipeline_loadbalancer_gap_witness:
  "\<exists>g. CreateClusterPipeline_Plan lb_tasks (pipeline_ctx lb_spec) (NewCreateClusterPipeline True) = (Some g, None)
     \<and> (''kube-vip'', ''start'') \<notin> (dep_rel (eg_Nodes g))\<^sup>+ \<and> (''containerd'', ''start'') \<notin> (dep_rel (eg_Nodes g))\<^sup>+"
proof -
  let ?c = "pipeline_ctx lb_spec"
  let ?before = "fragments_of lb_tasks ?c [PreflightConnectivityModule, PreflightModule True, InfrastructureModule]"
  let ?after = "fragments_of lb_tasks ?c [ControlPlaneModule, NetworkModule, WorkerModule, AddonsModule]"
  have lb: "LoadBalancerModule_Plan lb_tasks (pc_Module ?c) = Done lb_fragment" "ef_Nodes lb_fragment \<noteq> []"
    "''kube-vip'' \<in> set (gm_keys (ef_Nodes lb_fragment))" by code_simp+
  have ctx: "pc_IsModuleContext ?c" "no_module_error (module_answers lb_tasks ?c (NewCreateClusterPipeline True))" by code_simp+
  have ok: "list_all usable (?before @ lb_fragment # ?after)"
    "sorted_wrt (\<lambda>f f'. set (gm_keys (ef_Nodes f)) \<inter> set (gm_keys (ef_Nodes f')) = {}) (?before @ lb_fragment # ?after)" by code_simp+
  have members: "list_ex (\<lambda>f. ''containerd'' \<in> set (gm_keys (ef_Nodes f))) ?before" "list_ex (\<lambda>f. ''start'' \<in> set (gm_keys (ef_Nodes f))) ?after"
    by code_simp+
  obtain f f' where f: "f \<in> set ?before" "''containerd'' \<in> frag_ids f" "f' \<in> set ?after" "''start'' \<in> frag_ids f'"
    using members by (auto simp: list_ex_iff node_ids_def)
  obtain g where g: "CreateClusterPipeline_Plan lb_tasks ?c (NewCreateClusterPipeline True) = (Some g, None)"
    "\<forall>f \<in> set (?before @ [lb_fragment]). \<forall>f' \<in> set ?after. unordered_by (dep_rel (eg_Nodes g)) f f'"
    using CreateClusterPipeline_loadbalancer_gap[OF refl refl ctx _ lb(2)] lb(1) ok usable_result
    by (auto simp: list_all_iff node_ids_def)
  have "unordered_by (dep_rel (eg_Nodes g)) f f'" "unordered_by (dep_rel (eg_Nodes g)) lb_fragment f'" using g(2) f by auto
  then show ?thesis using g(1) f lb(3) by (auto simp: unordered_by_def node_ids_def)
qed

fun kubeadm_tasks :: "task_kind \<Rightarrow> Task" where
  "kubeadm_tasks (Kubeadm InstallKubeComponentsTask) =
     NewInstallKubeComponentsTask [Some \<lparr>h_Name = ''m1'', h_Address = [], h_Roles = []\<rparr>] [] (\<lambda>nm. Inr idle_step)"
| "kubeadm_tasks k = not_required ''other''"

definition kubeadm_spec :: ClusterSpec where
  "kubeadm_spec = demo_spec\<lparr>cs_Kubernetes := Some \<lparr>ku_Type = ''kubeadm'', ku_ContainerRuntime = None\<rparr>\<rparr>"

theorem CreateClusterPipeline_kubeadm_clash_witness:
  "fst (CreateClusterPipeline_Plan kubeadm_tasks (pipeline_ctx kubeadm_spec) (NewCreateClusterPipeline True)) = None"
proof -
  let ?m = "pc_Module (pipeline_ctx kubeadm_spec)"
  have "case Module_Plan kubeadm_tasks ?m ControlPlaneModule of Aborts \<Rightarrow> False | _ \<Rightarrow> True"
    "case Module_Plan kubeadm_tasks ?m WorkerModule of Aborts \<Rightarrow> False | _ \<Rightarrow> True" by code_simp+
  then have plans: "Module_Plan kubeadm_tasks ?m ControlPlaneModule \<noteq> Aborts" "Module_Plan kubeadm_tasks ?m WorkerModule \<noteq> Aborts"
    by auto
  have "mc_ClusterConfig ?m = Some kubeadm_spec" "kube_type kubeadm_spec \<noteq> ''kubexm''"
    by (simp_all add: pipeline_ctx_def kubeadm_spec_def kube_type_def)
  from CreateClusterPipeline_kubeadm_clash[where tw = kubeadm_tasks, OF _ this plans] show ?thesis by simp
qed

theorem DownloadAssetsPipeline_Run_panic_witness:
  "DownloadAssetsPipeline_Run (\<lambda>k. \<lparr>tk_Name = [], tk_IsRequired = Panics [], tk_Plan = Panics []\<rparr>) (\<lambda>e g dry. (None, Some NilDereference))
     (pipeline_ctx demo_spec) (NewDownloadAssetsPipeline []) None False
   = Returns (Some (empty_result ''DownloadAssets'' StatusSuccess)) None"
proof (rule DownloadAssetsPipeline_Run_panic)
  let ?tw = "\<lambda>k. \<lparr>tk_Name = [], tk_IsRequired = Panics [], tk_Plan = Panics []\<rparr>"
  have "case Module_Plan ?tw (pc_Module (pipeline_ctx demo_spec)) (AssetsDownloadModule (dap_outputPath (NewDownloadAssetsPipeline []))) of
      Aborts \<Rightarrow> True | _ \<Rightarrow> False" by code_simp
  then show "Module_Plan ?tw (pc_Module (pipeline_ctx demo_spec)) (AssetsDownloadModule (dap_outputPath (NewDownloadAssetsPipeline []))) = Aborts"
    by (simp split: outcome.splits)
qed (simp_all add: pipeline_ctx_def)

end
