(* ===== verification/Cache.thy ===== *)
theory Cache
  imports Prelude
begin

text \<open>
  The hierarchical cache (\<^verbatim>\<open>cache/generic_cache.go\<close> and the files around it): items with an
  expiry, the four levels with their lifetimes, every operation of \<^verbatim>\<open>GenericCache\<close>, and the
  sweep of the janitor.

  Caches point to their parents and are shared, so they live in a heap: a cache is known by
  its index in \<^typ>\<open>'c list\<close>, and \<open>New\<close> extends the list. \<^verbatim>\<open>sync.Map\<close> is a Go map whose methods
  are atomic. An operation reads the clock once; its reading is the argument \<open>now\<close>. The
  interleaving of operations of several goroutines is the subject of \<open>CacheConcurrent\<close>.
\<close>

section \<open>Items\<close>

record item =
  it_Value :: goval
  it_Expiration :: goint

definition UnixNano :: "gotime \<Rightarrow> goint" where
  "UnixNano t = word_of_int t"

definition time_Add :: "gotime \<Rightarrow> duration \<Rightarrow> gotime" where
  "time_Add t d = t + sint d"

definition Expired :: "gotime \<Rightarrow> item \<Rightarrow> bool" where
  "Expired now i =
     (if it_Expiration i = 0 then False else sint (UnixNano now) > sint (it_Expiration i))"

definition NoExpiration :: duration where
  "NoExpiration = -1"

definition DefaultExpiration :: duration where
  "DefaultExpiration = 0"

section \<open>Caches\<close>

record GenericCache =
  gc_defaultTTL :: duration
  gc_store :: "(string, item) gomap"
  gc_parent :: "nat option"
  gc_janitor :: "duration option"

type_synonym caches = "GenericCache list"

definition New :: "duration \<Rightarrow> duration \<Rightarrow> nat option \<Rightarrow> caches \<Rightarrow> nat \<times> caches" where
  "New defaultTTL cleanupInterval parent h =
     (length h, h @ [\<lparr>gc_defaultTTL = defaultTTL, gc_store = [], gc_parent = parent,
        gc_janitor = (if sint cleanupInterval > 0 then Some cleanupInterval else None)\<rparr>])"

definition seconds :: "int \<Rightarrow> duration" where
  "seconds n = word_of_int (n * 1000000000)"

definition NewPipelineCache :: "caches \<Rightarrow> nat \<times> caches" where
  "NewPipelineCache = New (seconds (24 * 3600)) (seconds 3600) None"

definition NewModuleCache :: "nat \<Rightarrow> caches \<Rightarrow> nat \<times> caches" where
  "NewModuleCache parent = New (seconds 3600) (seconds (10 * 60)) (Some parent)"

definition NewTaskCache :: "nat \<Rightarrow> caches \<Rightarrow> nat \<times> caches" where
  "NewTaskCache parent = New (seconds (30 * 60)) (seconds (5 * 60)) (Some parent)"

definition NewStepCache :: "nat \<Rightarrow> caches \<Rightarrow> nat \<times> caches" where
  "NewStepCache parent = New (seconds (5 * 60)) (seconds 60) (Some parent)"

abbreviation store_of :: "caches \<Rightarrow> nat \<Rightarrow> (string, item) gomap" where
  "store_of h a \<equiv> gc_store (h ! a)"

definition set_store :: "nat \<Rightarrow> (string, item) gomap \<Rightarrow> caches \<Rightarrow> caches" where
  "set_store a m h = h[a := (h ! a)\<lparr>gc_store := m\<rparr>]"

section \<open>Operations\<close>

text \<open>
  A chain of parents is followed until a fresh item is found; expired items met on the way
  are deleted. On a cyclic chain the Go code would not return, which is the value \<open>None\<close>.
\<close>

partial_function (option) Get :: "gotime \<Rightarrow> string \<Rightarrow> nat \<Rightarrow> caches \<Rightarrow> (goval option \<times> caches) option" where
  "Get now key c h =
     (case gm_get (store_of h c) key of
        Some i \<Rightarrow>
          if \<not> Expired now i then Some (Some (it_Value i), h)
          else
            (let h' = set_store c (gm_del key (store_of h c)) h
             in case gc_parent (h' ! c) of None \<Rightarrow> Some (None, h') | Some p \<Rightarrow> Get now key p h')
      | None \<Rightarrow> case gc_parent (h ! c) of None \<Rightarrow> Some (None, h) | Some p \<Rightarrow> Get now key p h)"

definition expiry :: "gotime \<Rightarrow> duration \<Rightarrow> goint" where
  "expiry now ttl = (if sint ttl > 0 then UnixNano (time_Add now ttl) else 0)"

definition SetWithTTL :: "gotime \<Rightarrow> string \<Rightarrow> goval \<Rightarrow> duration \<Rightarrow> nat \<Rightarrow> caches \<Rightarrow> caches" where
  "SetWithTTL now key value ttl c h =
     (let ttl' = (if ttl = DefaultExpiration then gc_defaultTTL (h ! c) else ttl)
      in set_store c (gm_put key \<lparr>it_Value = value, it_Expiration = expiry now ttl'\<rparr> (store_of h c)) h)"

definition Cache_Set :: "gotime \<Rightarrow> string \<Rightarrow> goval \<Rightarrow> nat \<Rightarrow> caches \<Rightarrow> caches" where
  "Cache_Set now key value c h = SetWithTTL now key value DefaultExpiration c h"

definition Cache_Delete :: "string \<Rightarrow> nat \<Rightarrow> caches \<Rightarrow> caches" where
  "Cache_Delete k c h = set_store c (gm_del k (store_of h c)) h"

definition Has :: "gotime \<Rightarrow> string \<Rightarrow> nat \<Rightarrow> caches \<Rightarrow> (bool \<times> caches) option" where
  "Has now key c h = map_option (\<lambda>(r, h'). (r \<noteq> None, h')) (Get now key c h)"

definition Keys :: "gotime \<Rightarrow> nat \<Rightarrow> caches \<Rightarrow> string list" where
  "Keys now c h = map fst (filter (\<lambda>(k, i). \<not> Expired now i) (store_of h c))"

definition Count :: "gotime \<Rightarrow> nat \<Rightarrow> caches \<Rightarrow> nat" where
  "Count now c h = fold (\<lambda>(k, i) n. if \<not> Expired now i then Suc n else n) (store_of h c) 0"

definition Flush :: "nat \<Rightarrow> caches \<Rightarrow> caches" where
  "Flush c h = set_store c [] h"

text \<open>
  \<^verbatim>\<open>GetOrSet\<close> consults only the own store. \<^verbatim>\<open>LoadOrStore\<close> returns whatever item is present,
  expired or not.
\<close>

definition LoadOrStore :: "string \<Rightarrow> item \<Rightarrow> (string, item) gomap \<Rightarrow> item \<times> bool \<times> (string, item) gomap" where
  "LoadOrStore k i m =
     (case gm_get m k of Some j \<Rightarrow> (j, True, m) | None \<Rightarrow> (i, False, gm_put k i m))"

definition GetOrSet :: "gotime \<Rightarrow> string \<Rightarrow> goval \<Rightarrow> nat \<Rightarrow> caches \<Rightarrow> (goval \<times> bool) \<times> caches" where
  "GetOrSet now k v c h =
     (case gm_get (store_of h c) k of
        Some i \<Rightarrow>
          if \<not> Expired now i then ((it_Value i, True), h)
          else
            (case LoadOrStore k \<lparr>it_Value = v, it_Expiration = expiry now (gc_defaultTTL (h ! c))\<rparr> (store_of h c) of
               (actual, loaded, m) \<Rightarrow> if loaded then ((it_Value actual, True), set_store c m h) else ((v, False), set_store c m h))
      | None \<Rightarrow>
          (case LoadOrStore k \<lparr>it_Value = v, it_Expiration = expiry now (gc_defaultTTL (h ! c))\<rparr> (store_of h c) of
             (actual, loaded, m) \<Rightarrow> if loaded then ((it_Value actual, True), set_store c m h) else ((v, False), set_store c m h)))"

text \<open>Typed reads: \<^verbatim>\<open>Get\<close> followed by a type assertion. A failed one yields the zero value and \<^verbatim>\<open>false\<close>.\<close>

definition get_as :: "'a \<Rightarrow> (goval \<Rightarrow> 'a option) \<Rightarrow> goval option \<Rightarrow> 'a \<times> bool" where
  "get_as zero as r =
     (case r of None \<Rightarrow> (zero, False)
      | Some v \<Rightarrow> (case as v of Some x \<Rightarrow> (x, True) | None \<Rightarrow> (zero, False)))"

fun as_string :: "goval \<Rightarrow> string option" where
  "as_string (VString s) = Some s"
| "as_string _ = None"

fun as_int :: "goval \<Rightarrow> goint option" where
  "as_int (VInt i) = Some i"
| "as_int _ = None"

fun as_int64 :: "goval \<Rightarrow> goint option" where
  "as_int64 (VInt64 i) = Some i"
| "as_int64 _ = None"

fun as_bool :: "goval \<Rightarrow> bool option" where
  "as_bool (VBool b) = Some b"
| "as_bool _ = None"

fun as_float64 :: "goval \<Rightarrow> nat option" where
  "as_float64 (VFloat64 f) = Some f"
| "as_float64 _ = None"

fun as_time :: "goval \<Rightarrow> gotime option" where
  "as_time (VTime t) = Some t"
| "as_time _ = None"

definition GetString :: "gotime \<Rightarrow> string \<Rightarrow> nat \<Rightarrow> caches \<Rightarrow> ((string \<times> bool) \<times> caches) option" where
  "GetString now k c h = map_option (\<lambda>(r, h'). (get_as [] as_string r, h')) (Get now k c h)"

definition GetInt :: "gotime \<Rightarrow> string \<Rightarrow> nat \<Rightarrow> caches \<Rightarrow> ((goint \<times> bool) \<times> caches) option" where
  "GetInt now k c h = map_option (\<lambda>(r, h'). (get_as 0 as_int r, h')) (Get now k c h)"

definition GetInt64 :: "gotime \<Rightarrow> string \<Rightarrow> nat \<Rightarrow> caches \<Rightarrow> ((goint \<times> bool) \<times> caches) option" where
  "GetInt64 now k c h = map_option (\<lambda>(r, h'). (get_as 0 as_int64 r, h')) (Get now k c h)"

definition GetBool :: "gotime \<Rightarrow> string \<Rightarrow> nat \<Rightarrow> caches \<Rightarrow> ((bool \<times> bool) \<times> caches) option" where
  "GetBool now k c h = map_option (\<lambda>(r, h'). (get_as False as_bool r, h')) (Get now k c h)"

definition GetFloat64 :: "gotime \<Rightarrow> string \<Rightarrow> nat \<Rightarrow> caches \<Rightarrow> ((nat \<times> bool) \<times> caches) option" where
  "GetFloat64 now k c h = map_option (\<lambda>(r, h'). (get_as 0 as_float64 r, h')) (Get now k c h)"

definition GetTime :: "gotime \<Rightarrow> string \<Rightarrow> nat \<Rightarrow> caches \<Rightarrow> ((gotime \<times> bool) \<times> caches) option" where
  "GetTime now k c h = map_option (\<lambda>(r, h'). (get_as 0 as_time r, h')) (Get now k c h)"

definition or_default :: "'a \<Rightarrow> 'a \<times> bool \<Rightarrow> 'a" where
  "or_default d r = (if snd r then fst r else d)"

definition GetStringOrDefault :: "gotime \<Rightarrow> string \<Rightarrow> string \<Rightarrow> nat \<Rightarrow> caches \<Rightarrow> (string \<times> caches) option" where
  "GetStringOrDefault now k d c h = map_option (\<lambda>(r, h'). (or_default d r, h')) (GetString now k c h)"

definition GetIntOrDefault :: "gotime \<Rightarrow> string \<Rightarrow> goint \<Rightarrow> nat \<Rightarrow> caches \<Rightarrow> (goint \<times> caches) option" where
  "GetIntOrDefault now k d c h = map_option (\<lambda>(r, h'). (or_default d r, h')) (GetInt now k c h)"

definition GetBoolOrDefault :: "gotime \<Rightarrow> string \<Rightarrow> bool \<Rightarrow> nat \<Rightarrow> caches \<Rightarrow> (bool \<times> caches) option" where
  "GetBoolOrDefault now k d c h = map_option (\<lambda>(r, h'). (or_default d r, h')) (GetBool now k c h)"

text \<open>
  \<^verbatim>\<open>Range\<close> calls \<open>f\<close>, which threads a state of its own, on the fresh items until it answers false.
\<close>

fun Range_loop :: "gotime \<Rightarrow> (string \<Rightarrow> goval \<Rightarrow> 's \<Rightarrow> bool \<times> 's) \<Rightarrow> (string, item) gomap \<Rightarrow> 's \<Rightarrow> 's" where
  "Range_loop now f [] s = s"
| "Range_loop now f ((k, i) # m) s =
     (if Expired now i then Range_loop now f m s
      else case f k (it_Value i) s of (cont, s') \<Rightarrow> if cont then Range_loop now f m s' else s')"

definition Cache_Range :: "gotime \<Rightarrow> (string \<Rightarrow> goval \<Rightarrow> 's \<Rightarrow> bool \<times> 's) \<Rightarrow> nat \<Rightarrow> caches \<Rightarrow> 's \<Rightarrow> 's" where
  "Cache_Range now f c h s = Range_loop now f (store_of h c) s"

definition typeAssertionError :: "string \<Rightarrow> string \<Rightarrow> goerr" where
  "typeAssertionError key expected = ''cache: value for key '' @ [CHR 0x27] @ key @ [CHR 0x27] @ '' is not of type '' @ expected"

text \<open>
  \<^verbatim>\<open>numberOperation\<close> run by itself: no other goroutine changes the item between the load and
  the compare-and-swap, so the first swap succeeds.
\<close>

definition numberOperation :: "string \<Rightarrow> goint \<Rightarrow> nat \<Rightarrow> caches \<Rightarrow> (goerr + goint) \<times> caches" where
  "numberOperation k n c h =
     (case gm_get (store_of h c) k of
        None \<Rightarrow>
          (case LoadOrStore k \<lparr>it_Value = VInt n, it_Expiration = 0\<rparr> (store_of h c) of
             (_, _, m) \<Rightarrow> (Inr n, set_store c m h))
      | Some i \<Rightarrow>
          (case as_int (it_Value i) of
             None \<Rightarrow> (Inl (typeAssertionError k ''int''), h)
           | Some cur \<Rightarrow> (Inr (cur + n), set_store c (gm_put k (i\<lparr>it_Value := VInt (cur + n)\<rparr>) (store_of h c)) h)))"

definition IncrementInt :: "string \<Rightarrow> goint \<Rightarrow> nat \<Rightarrow> caches \<Rightarrow> (goerr + goint) \<times> caches" where
  "IncrementInt k n c h = numberOperation k n c h"

definition DecrementInt :: "string \<Rightarrow> goint \<Rightarrow> nat \<Rightarrow> caches \<Rightarrow> (goerr + goint) \<times> caches" where
  "DecrementInt k n c h = numberOperation k (- n) c h"

definition deleteExpired :: "gotime \<Rightarrow> nat \<Rightarrow> caches \<Rightarrow> caches" where
  "deleteExpired now c h =
     set_store c (fold (\<lambda>(k, i) m. if Expired now i then gm_del k m else m) (store_of h c) (store_of h c)) h"

section \<open>The visible contents\<close>

text \<open>
  What a cache promises, as a specification: the value under a key is the first fresh item
  along the chain of parents. \<open>caches_ok\<close> is the invariant of the heap: keys are distinct and
  parents are older than their children, as \<open>New\<close> makes them.
\<close>

definition caches_ok :: "caches \<Rightarrow> bool" where
  "caches_ok h \<longleftrightarrow> (\<forall>a < length h. gm_ok (store_of h a) \<and> (\<forall>p. gc_parent (h ! a) = Some p \<longrightarrow> p < a))"

definition fresh :: "gotime \<Rightarrow> (string, item) gomap \<Rightarrow> string \<Rightarrow> goval option" where
  "fresh now m k = (case gm_get m k of Some i \<Rightarrow> if Expired now i then None else Some (it_Value i) | None \<Rightarrow> None)"

fun visible :: "gotime \<Rightarrow> caches \<Rightarrow> nat \<Rightarrow> string \<Rightarrow> goval option" where
  "visible now h a k =
     (case fresh now (store_of h a) k of Some v \<Rightarrow> Some v
      | None \<Rightarrow> (case gc_parent (h ! a) of None \<Rightarrow> None | Some p \<Rightarrow> if p < a then visible now h p k else None))"

declare visible.simps [simp del]

text \<open>Instants whose nanoseconds fit an \<^verbatim>\<open>int64\<close> (until the year 2262), later than the epoch.\<close>

definition valid_time :: "gotime \<Rightarrow> bool" where
  "valid_time t \<longleftrightarrow> 0 < t \<and> t < 2 ^ 63"

named_theorems cache_simps \<open>reads of caches after updates\<close>

lemma sint_UnixNano: "valid_time t \<Longrightarrow> sint (UnixNano t) = t"
  unfolding valid_time_def UnixNano_def
  by (subst signed_of_int) (simp add: signed_take_bit_int_eq_self)

lemma Expired_mono:
  "Expired now i \<Longrightarrow> valid_time now \<Longrightarrow> valid_time t \<Longrightarrow> now \<le> t \<Longrightarrow> Expired t i"
  by (auto simp: Expired_def sint_UnixNano split: if_splits)

lemma length_set_store [cache_simps, simp]: "length (set_store a m h) = length h"
  by (simp add: set_store_def)

lemma store_of_set_store [cache_simps, simp]:
  "a < length h \<Longrightarrow> store_of (set_store c m h) a = (if a = c then m else store_of h a)"
  by (auto simp: set_store_def nth_list_update)

lemma parent_set_store [cache_simps, simp]: "gc_parent (set_store c m h ! a) = gc_parent (h ! a)"
  by (cases "a < length h"; cases "c < length h") (auto simp: set_store_def nth_list_update list_update_beyond)

lemma defaultTTL_set_store [cache_simps, simp]: "gc_defaultTTL (set_store c m h ! a) = gc_defaultTTL (h ! a)"
  by (cases "a < length h"; cases "c < length h") (auto simp: set_store_def nth_list_update list_update_beyond)

lemma caches_ok_set_store:
  "caches_ok h \<Longrightarrow> gm_ok m \<Longrightarrow> caches_ok (set_store c m h)"
  by (auto simp: caches_ok_def)

lemma caches_ok_New:
  assumes "caches_ok h" "\<And>p. parent = Some p \<Longrightarrow> p < length h"
  shows "caches_ok (snd (New ttl ci parent h))"
  using assms by (auto simp: caches_ok_def New_def nth_append less_Suc_eq)

lemma fresh_del: "fresh t (gm_del k m) k' = (if k' = k then None else fresh t m k')"
  by (simp add: fresh_def)

lemma fresh_put: "fresh t (gm_put k i m) k' =
    (if k' = k then if Expired t i then None else Some (it_Value i) else fresh t m k')"
  by (simp add: fresh_def)

text \<open>Two heaps that agree on what is fresh agree on what is visible.\<close>

lemma visible_cong:
  assumes "\<And>b. b \<le> a \<Longrightarrow> fresh t (store_of h b) k = fresh t (store_of h' b) k"
    and "\<And>b. b \<le> a \<Longrightarrow> gc_parent (h ! b) = gc_parent (h' ! b)"
  shows "visible t h a k = visible t h' a k"
  using assms
proof (induction a rule: less_induct)
  case (less a)
  have "visible t h p k = visible t h' p k" if "p < a" for p
    using less.IH[OF that] less.prems that by auto
  then show ?case
    using less.prems[of a] by (simp add: visible.simps[of t h a] visible.simps[of t h' a] split: option.splits)
qed

lemma visible_parent:
  "caches_ok h \<Longrightarrow> a < length h \<Longrightarrow> visible t h a k =
     (case fresh t (store_of h a) k of Some v \<Rightarrow> Some v
      | None \<Rightarrow> (case gc_parent (h ! a) of None \<Rightarrow> None | Some p \<Rightarrow> visible t h p k))"
  by (subst visible.simps) (auto simp: caches_ok_def split: option.splits)

definition same_view :: "gotime \<Rightarrow> caches \<Rightarrow> caches \<Rightarrow> bool" where
  "same_view now h h' \<longleftrightarrow> length h' = length h \<and>
     (\<forall>t a k. valid_time t \<and> now \<le> t \<and> a < length h \<longrightarrow> visible t h' a k = visible t h a k)"

lemma same_view_refl: "same_view now h h"
  by (simp add: same_view_def)

lemma same_view_trans: "same_view now h h' \<Longrightarrow> same_view now h' h'' \<Longrightarrow> same_view now h h''"
  by (simp add: same_view_def)

lemma same_viewI:
  assumes "c < length h"
    "\<And>t k. valid_time t \<Longrightarrow> now \<le> t \<Longrightarrow> fresh t m k = fresh t (store_of h c) k"
  shows "same_view now h (set_store c m h)"
  unfolding same_view_def using assms by (auto intro!: visible_cong)

lemma same_view_del_expired:
  assumes "c < length h" "gm_get (store_of h c) k = Some i" "Expired now i" "valid_time now"
  shows "same_view now h (set_store c (gm_del k (store_of h c)) h)"
  using assms by (intro same_viewI) (auto simp: fresh_del fresh_def dest: Expired_mono)

section \<open>Reading\<close>

text \<open>
  \<^verbatim>\<open>Get\<close> returns for every heap the constructors can build, and it returns the visible value;
  the expired items it deletes are invisible to every cache from then on.
\<close>

lemma Get_returns:
  assumes "caches_ok h" "c < length h" "valid_time now"
  shows "\<exists>h'. Get now k c h = Some (visible now h c k, h') \<and> caches_ok h' \<and> same_view now h h'"
  using assms
proof (induction c arbitrary: h rule: less_induct)
  case (less c)
  have up: "\<exists>h'. (case gc_parent (g ! c) of None \<Rightarrow> Some (None, g) | Some p \<Rightarrow> Get now k p g) =
                 Some (visible now h c k, h') \<and> caches_ok h' \<and> same_view now h h'"
    if g: "caches_ok g" "same_view now h g" and gone: "fresh now (store_of h c) k = None"
      and par: "gc_parent (g ! c) = gc_parent (h ! c)" for g
  proof (cases "gc_parent (h ! c)")
    case None
    with gone have "visible now h c k = None" by (simp add: visible.simps)
    with None par g show ?thesis by simp
  next
    case (Some p)
    have len: "length g = length h" using g(2) by (simp add: same_view_def)
    have p: "p < c" using less.prems(1,2) Some by (simp add: caches_ok_def)
    then have pl: "p < length g" using len less.prems(2) by simp
    from less.IH[OF p g(1) pl less.prems(3)] obtain h' where
      h': "Get now k p g = Some (visible now g p k, h')" "caches_ok h'" "same_view now g h'" by blast
    have "visible now g p k = visible now h p k"
      using g(2) pl len less.prems(3) by (simp add: same_view_def)
    also have "\<dots> = visible now h c k"
      using gone Some p by (simp add: visible.simps[of now h c])
    finally show ?thesis using h' Some par same_view_trans[OF g(2) h'(3)] by simp
  qed
  show ?case
  proof (cases "gm_get (store_of h c) k")
    case None
    with up[OF less.prems(1) same_view_refl] show ?thesis
      by (subst Get.simps) (simp add: fresh_def)
  next
    case (Some i)
    show ?thesis
    proof (cases "Expired now i")
      case False
      with Some less.prems show ?thesis
        by (subst Get.simps) (simp add: visible.simps fresh_def same_view_refl)
    next
      case True
      let ?g = "set_store c (gm_del k (store_of h c)) h"
      have ok: "caches_ok ?g"
        using less.prems by (intro caches_ok_set_store) (auto simp: caches_ok_def intro: gm_ok_del)
      have "fresh now (store_of h c) k = None" using Some True by (simp add: fresh_def)
      from up[OF ok same_view_del_expired[OF less.prems(2) Some True less.prems(3)] this] Some True
      show ?thesis by (subst Get.simps) (simp add: Let_def)
    qed
  qed
qed

lemma fold_del_get:
  assumes "distinct (map fst kvs)"
  shows "gm_get (fold (\<lambda>(k, i) m. if Expired now i then gm_del k m else m) kvs m) k =
    (case map_of kvs k of Some i \<Rightarrow> if Expired now i then None else gm_get m k | None \<Rightarrow> gm_get m k)"
  using assms
proof (induction kvs arbitrary: m)
  case (Cons kv kvs)
  then have "map_of kvs (fst kv) = None" by (simp add: map_of_eq_None_iff)
  with Cons show ?case by (cases kv) (simp split: option.splits)
qed simp

lemma gm_ok_fold_del:
  "gm_ok m \<Longrightarrow> gm_ok (fold (\<lambda>(k, i) m. if Expired now i then gm_del k m else m) kvs m)"
  by (induction kvs arbitrary: m) (auto simp: gm_ok_del)

lemma deleteExpired_ok: "caches_ok h \<Longrightarrow> c < length h \<Longrightarrow> caches_ok (deleteExpired now c h)"
  unfolding deleteExpired_def by (intro caches_ok_set_store gm_ok_fold_del) (auto simp: caches_ok_def)

lemma deleteExpired_get:
  assumes "gm_ok (store_of h c)" "c < length h"
  shows "gm_get (store_of (deleteExpired now c h) c) k =
    (case gm_get (store_of h c) k of Some i \<Rightarrow> if Expired now i then None else Some i | None \<Rightarrow> None)"
  using assms fold_del_get[of "store_of h c" now "store_of h c" k]
  by (simp add: deleteExpired_def gm_ok_def split: option.splits)

lemma deleteExpired_same_view:
  assumes "caches_ok h" "c < length h" "valid_time now"
  shows "same_view now h (deleteExpired now c h)"
proof -
  have g: "gm_ok (store_of h c)" using assms by (simp add: caches_ok_def)
  let ?m = "store_of (deleteExpired now c h) c"
  have "fresh t ?m k = fresh t (store_of h c) k" if "valid_time t" "now \<le> t" for t k
    using Expired_mono[OF _ assms(3) that]
    by (simp add: fresh_def deleteExpired_get[OF g assms(2)] split: option.splits)
  then have "same_view now h (set_store c ?m h)" using assms(2) by (intro same_viewI)
  then show ?thesis using assms(2) by (simp add: deleteExpired_def)
qed

lemma Count_Keys: "Count now c h = length (Keys now c h)"
proof -
  have "fold (\<lambda>(k, i) n. if \<not> Expired now i then Suc n else n) m n =
        n + length (filter (\<lambda>(k, i). \<not> Expired now i) m)" for n and m :: "(string, item) gomap"
    by (induction m arbitrary: n) auto
  then show ?thesis by (simp add: Count_def Keys_def)
qed

lemma Keys_fresh:
  assumes "gm_ok (store_of h c)"
  shows "distinct (Keys now c h)" "k \<in> set (Keys now c h) \<longleftrightarrow> fresh now (store_of h c) k \<noteq> None"
proof -
  show "distinct (Keys now c h)" using assms by (simp add: Keys_def gm_ok_def distinct_map_filter)
  have "(k, i) \<in> set (store_of h c) \<longleftrightarrow> gm_get (store_of h c) k = Some i" for i
    using assms by (auto simp: gm_ok_def dest: map_of_SomeD)
  then show "k \<in> set (Keys now c h) \<longleftrightarrow> fresh now (store_of h c) k \<noteq> None"
    by (force simp: Keys_def fresh_def split: option.splits if_splits)
qed

section \<open>Writing\<close>

lemma SetWithTTL_ok: "caches_ok h \<Longrightarrow> c < length h \<Longrightarrow> caches_ok (SetWithTTL now k v ttl c h)"
  unfolding SetWithTTL_def Let_def by (intro caches_ok_set_store) (auto simp: caches_ok_def intro: gm_ok_put)

lemma Delete_ok: "caches_ok h \<Longrightarrow> c < length h \<Longrightarrow> caches_ok (Cache_Delete k c h)"
  unfolding Cache_Delete_def by (intro caches_ok_set_store) (auto simp: caches_ok_def intro: gm_ok_del)

lemma visible_set_store:
  assumes "caches_ok h" "c < length h" "gm_ok m"
  shows "visible t (set_store c m h) c k =
    (case fresh t m k of Some v \<Rightarrow> Some v
     | None \<Rightarrow> (case gc_parent (h ! c) of None \<Rightarrow> None | Some p \<Rightarrow> visible t h p k))"
proof -
  have "visible t (set_store c m h) p k = visible t h p k" if "gc_parent (h ! c) = Some p" for p
  proof (rule visible_cong)
    fix b assume "b \<le> p"
    moreover have "p < c" using assms that by (simp add: caches_ok_def)
    ultimately have "b \<noteq> c" "b < length h" using assms(2) by auto
    then show "fresh t (store_of (set_store c m h) b) k = fresh t (store_of h b) k" by simp
  qed simp
  then show ?thesis
    using assms by (simp add: visible_parent caches_ok_set_store split: option.splits)
qed

lemma sint_expiry:
  assumes "valid_time now" "0 < sint ttl" "now + sint ttl < 2 ^ 63"
  shows "expiry now ttl \<noteq> 0" "sint (expiry now ttl) = now + sint ttl"
proof -
  have "valid_time (time_Add now ttl)" using assms by (simp add: valid_time_def time_Add_def)
  then show s: "sint (expiry now ttl) = now + sint ttl"
    using assms(2) by (simp add: expiry_def sint_UnixNano) (simp add: time_Add_def)
  show "expiry now ttl \<noteq> 0"
  proof
    assume "expiry now ttl = 0"
    with s assms show False by (simp add: valid_time_def)
  qed
qed

lemma Expired_expiry:
  assumes "valid_time now" "now + sint ttl < 2 ^ 63" "valid_time t"
  shows "Expired t \<lparr>it_Value = v, it_Expiration = expiry now ttl\<rparr> \<longleftrightarrow> 0 < sint ttl \<and> now + sint ttl < t"
proof (cases "0 < sint ttl")
  case True
  with sint_expiry[OF assms(1) True assms(2)] show ?thesis
    by (simp add: Expired_def sint_UnixNano[OF assms(3)])
next
  case False
  then show ?thesis by (simp add: Expired_def expiry_def)
qed

text \<open>The lifetime a write asks for: the default of the cache for \<^verbatim>\<open>DefaultExpiration\<close>.\<close>

definition lifetime :: "caches \<Rightarrow> nat \<Rightarrow> duration \<Rightarrow> duration" where
  "lifetime h c ttl = (if ttl = DefaultExpiration then gc_defaultTTL (h ! c) else ttl)"

lemma visible_SetWithTTL:
  assumes "caches_ok h" "c < length h" "valid_time now" "now + sint (lifetime h c ttl) < 2 ^ 63" "valid_time t"
  shows "visible t (SetWithTTL now k v ttl c h) c k' =
    (if k' = k \<and> (sint (lifetime h c ttl) \<le> 0 \<or> t \<le> now + sint (lifetime h c ttl)) then Some v
     else if k' = k then (case gc_parent (h ! c) of None \<Rightarrow> None | Some p \<Rightarrow> visible t h p k)
     else visible t h c k')"
proof -
  have "gm_ok (store_of h c)" using assms by (simp add: caches_ok_def)
  then show ?thesis
    using assms(1,2) Expired_expiry[OF assms(3,4,5), of v]
    by (auto simp: SetWithTTL_def Let_def lifetime_def visible_set_store gm_ok_put fresh_put visible_parent split: option.splits)
qed

lemma visible_Delete:
  assumes "caches_ok h" "c < length h"
  shows "visible t (Cache_Delete k c h) c k' =
    (if k' = k then (case gc_parent (h ! c) of None \<Rightarrow> None | Some p \<Rightarrow> visible t h p k) else visible t h c k')"
proof -
  have "gm_ok (store_of h c)" using assms by (simp add: caches_ok_def)
  then show ?thesis
    using assms by (auto simp: Cache_Delete_def visible_set_store gm_ok_del fresh_del visible_parent)
qed

section \<open>Properties\<close>

text \<open>C10: on every heap of caches built by the constructors \<^verbatim>\<open>Get\<close> returns, what it returns is
  the first item along the chain of parents that has not expired, and the deletions it makes on
  the way, like a sweep of the janitor, change what no cache shows at any later instant.\<close>

theorem Get_refines_visible:
  assumes "caches_ok h" "c < length h" "valid_time now"
  shows "(\<exists>h'. Get now k c h = Some (visible now h c k, h') \<and> caches_ok h' \<and> same_view now h h') \<and>
    caches_ok (deleteExpired now c h) \<and> same_view now h (deleteExpired now c h)"
  using Get_returns[OF assms] deleteExpired_ok[OF assms(1,2)] deleteExpired_same_view[OF assms] by blast

definition cache_example :: caches where
  "cache_example =
     [\<lparr>gc_defaultTTL = seconds 3600, gc_store = [(''a'', \<lparr>it_Value = VInt 7, it_Expiration = 0\<rparr>)],
       gc_parent = None, gc_janitor = None\<rparr>,
      \<lparr>gc_defaultTTL = seconds 60, gc_store = [(''a'', \<lparr>it_Value = VInt 9, it_Expiration = 100\<rparr>)],
       gc_parent = Some 0, gc_janitor = None\<rparr>]"

lemma cache_example_ok: "caches_ok cache_example" "length cache_example = 2"
  by (auto simp: caches_ok_def cache_example_def gm_ok_def less_Suc_eq nth_Cons')

theorem Get_refines_visible_witness:
  "\<exists>h'. Get 200 ''a'' 1 cache_example = Some (Some (VInt 7), h') \<and> caches_ok h' \<and> same_view 200 cache_example h'"
proof -
  have "visible 200 cache_example 1 ''a'' = Some (VInt 7)"
    by (simp add: visible.simps cache_example_def fresh_def Expired_def UnixNano_def)
  then show ?thesis
    using Get_refines_visible[of cache_example 1 200 "''a''"] by (simp add: cache_example_ok valid_time_def)
qed

text \<open>after \<^verbatim>\<open>SetWithTTL\<close> a read through the same cache yields the value until the lifetime
  (the default one for \<^verbatim>\<open>DefaultExpiration\<close>) has passed, for ever when the lifetime is not
  positive, and what the parent shows after that; other keys read as before.\<close>

theorem Set_Get:
  assumes "caches_ok h" "c < length h" "valid_time now" "now + sint (lifetime h c ttl) < 2 ^ 63"
    and "valid_time t"
  shows "\<exists>h'. Get t k' c (SetWithTTL now k v ttl c h) = Some
    (if k' \<noteq> k then visible t h c k'
     else if sint (lifetime h c ttl) \<le> 0 \<or> t \<le> now + sint (lifetime h c ttl) then Some v
     else case gc_parent (h ! c) of None \<Rightarrow> None | Some p \<Rightarrow> visible t h p k, h')"
proof -
  have "c < length (SetWithTTL now k v ttl c h)" using assms(2) by (simp add: SetWithTTL_def Let_def)
  from Get_returns[OF SetWithTTL_ok[OF assms(1,2)] this assms(5), of k'] show ?thesis
    unfolding visible_SetWithTTL[OF assms] by auto
qed

theorem Set_Get_witness:
  "(\<exists>h'. Get 61000000001 ''a'' 1 (SetWithTTL 1000000000 ''a'' (VInt 5) DefaultExpiration 1 cache_example)
     = Some (Some (VInt 7), h')) \<and>
   (\<exists>h'. Get 61000000000 ''a'' 1 (SetWithTTL 1000000000 ''a'' (VInt 5) DefaultExpiration 1 cache_example)
     = Some (Some (VInt 5), h'))"
proof -
  have l: "sint (lifetime cache_example 1 DefaultExpiration) = 60000000000"
    by (simp add: lifetime_def cache_example_def seconds_def)
  have v: "visible t cache_example 0 ''a'' = Some (VInt 7)" for t
    by (simp add: visible.simps cache_example_def fresh_def Expired_def)
  have p: "gc_parent (cache_example ! 1) = Some 0" by (simp add: cache_example_def)
  show ?thesis
    using Set_Get[of cache_example 1 1000000000 DefaultExpiration 61000000001 "''a''" "''a''" "VInt 5"]
      Set_Get[of cache_example 1 1000000000 DefaultExpiration 61000000000 "''a''" "''a''" "VInt 5"]
    by (simp add: cache_example_ok valid_time_def l v p del: One_nat_def)
qed

text \<open>an expired item that no read or sweep has removed yet is still used by two operations.
  \<^verbatim>\<open>GetOrSet\<close> reports it as present and does not store the new value, and \<^verbatim>\<open>IncrementInt\<close>
  counts on from it and leaves it expired, although \<^verbatim>\<open>Get\<close> on the same cache does not find it.\<close>

theorem expired_item_used:
  assumes "caches_ok h" "c < length h" "valid_time now" "gc_parent (h ! c) = None"
    and "gm_get (store_of h c) k = Some \<lparr>it_Value = VInt x, it_Expiration = e\<rparr>" "e \<noteq> 0" "sint e < now"
  shows "map_option fst (Get now k c h) = Some None \<and>
    GetOrSet now k v c h = ((VInt x, True), h) \<and>
    fst (IncrementInt k n c h) = Inr (x + n) \<and>
    map_option fst (Get now k c (snd (IncrementInt k n c h))) = Some None"
proof (intro conjI)
  have ex: "Expired now \<lparr>it_Value = VInt y, it_Expiration = e\<rparr>" for y
    using assms(3,6,7) by (simp add: Expired_def sint_UnixNano)
  have "set_store c (store_of h c) h = h" using assms(2) by (simp add: set_store_def)
  with ex assms(5) show "GetOrSet now k v c h = ((VInt x, True), h)"
    by (simp add: GetOrSet_def LoadOrStore_def)
  show "fst (IncrementInt k n c h) = Inr (x + n)"
    using assms(5) by (simp add: IncrementInt_def numberOperation_def)
  have none: "map_option fst (Get now k c g) = Some None"
    if "gm_get (store_of g c) k = Some \<lparr>it_Value = VInt y, it_Expiration = e\<rparr>" "gc_parent (g ! c) = None" for g y
    using that ex by (subst Get.simps) (simp add: Let_def)
  show "map_option fst (Get now k c h) = Some None" by (rule none[OF assms(5,4)])
  show "map_option fst (Get now k c (snd (IncrementInt k n c h))) = Some None"
    using assms(2,4,5) by (intro none[of _ "x + n"]) (simp_all add: IncrementInt_def numberOperation_def)
qed

definition expired_example :: caches where
  "expired_example =
     [\<lparr>gc_defaultTTL = seconds 60, gc_store = [(''a'', \<lparr>it_Value = VInt 9, it_Expiration = 100\<rparr>)],
       gc_parent = None, gc_janitor = None\<rparr>]"

theorem expired_item_used_witness:
  "map_option fst (Get 200 ''a'' 0 expired_example) = Some None \<and>
   GetOrSet 200 ''a'' (VInt 1) 0 expired_example = ((VInt 9, True), expired_example) \<and>
   fst (IncrementInt ''a'' 1 0 expired_example) = Inr 10"
proof -
  have "caches_ok expired_example" by (simp add: caches_ok_def expired_example_def gm_ok_def)
  with expired_item_used[of expired_example 0 200 "''a''" 9 100 "VInt 1" 1] show ?thesis
    by (simp add: valid_time_def expired_example_def)
qed

end
