(* ===== verification/CacheConcurrent.thy ===== *)
theory CacheConcurrent
  imports Cache
begin

text \<open>
  Goroutines that use one \<^verbatim>\<open>GenericCache\<close> at the same time. Each method of \<^verbatim>\<open>sync.Map\<close> is atomic,
  the code between two of them is not: a goroutine is the point it has reached in
  \<^verbatim>\<open>numberOperation\<close>, \<^verbatim>\<open>Get\<close>, \<^verbatim>\<open>SetWithTTL\<close>, \<^verbatim>\<open>Delete\<close> or \<^verbatim>\<open>deleteExpired\<close>, and a step of the
  system is one access of one goroutine to the map, in any order, or an advance of the clock.
  \<open>cs_hist\<close> records the increments in the order in which they took effect and is never read.
\<close>

section \<open>Goroutines\<close>

datatype goroutine =
    Incr_Load string goint
  | Incr_LoadOrStore string goint
  | Incr_CompareAndSwap string goint item
  | Incr_Done string goint goint
  | Incr_Error string goint goerr
  | Get_Load string
  | Get_Delete string
  | Get_Done string "goval option"
  | Set_Store string item
  | Set_Done string
  | Delete_Store string
  | Delete_Done string
  | Sweep_Range "string list"
  | Sweep_Delete string "string list"

type_synonym store = "(string, item) gomap"

text \<open>The loop of \<^verbatim>\<open>numberOperation\<close>; after a load the type assertion decides between a swap and the error.\<close>

definition incr_loaded :: "string \<Rightarrow> goint \<Rightarrow> item \<Rightarrow> goroutine" where
  "incr_loaded k n v =
     (case as_int (it_Value v) of
        Some _ \<Rightarrow> Incr_CompareAndSwap k n v
      | None \<Rightarrow> Incr_Error k n (typeAssertionError k ''int''))"

definition incr_item :: "goint \<Rightarrow> item \<Rightarrow> item" where
  "incr_item n v = v\<lparr>it_Value := VInt (the (as_int (it_Value v)) + n)\<rparr>"

fun incr_step :: "store \<Rightarrow> goroutine \<Rightarrow> (goroutine \<times> store) option" where
  "incr_step m (Incr_Load k n) =
     (case gm_get m k of
        Some v \<Rightarrow> Some (incr_loaded k n v, m)
      | None \<Rightarrow> Some (Incr_LoadOrStore k n, m))"
| "incr_step m (Incr_LoadOrStore k n) =
     (case LoadOrStore k \<lparr>it_Value = VInt n, it_Expiration = 0\<rparr> m of
        (actual, loaded, m') \<Rightarrow> Some (if loaded then incr_loaded k n actual else Incr_Done k n n, m'))"
| "incr_step m (Incr_CompareAndSwap k n v) =
     (if gm_get m k = Some v
      then Some (Incr_Done k n (the (as_int (it_Value v)) + n), gm_put k (incr_item n v) m)
      else Some (Incr_Load k n, m))"
| "incr_step m _ = None"

text \<open>The own level of \<^verbatim>\<open>Get\<close>: \<open>Get_Done k None\<close> continues with the parent.\<close>

fun get_step :: "gotime \<Rightarrow> store \<Rightarrow> goroutine \<Rightarrow> (goroutine \<times> store) option" where
  "get_step now m (Get_Load k) =
     (case gm_get m k of
        Some i \<Rightarrow> Some (if \<not> Expired now i then Get_Done k (Some (it_Value i)) else Get_Delete k, m)
      | None \<Rightarrow> Some (Get_Done k None, m))"
| "get_step now m (Get_Delete k) = Some (Get_Done k None, gm_del k m)"
| "get_step now m _ = None"

fun write_step :: "store \<Rightarrow> goroutine \<Rightarrow> (goroutine \<times> store) option" where
  "write_step m (Set_Store k i) = Some (Set_Done k, gm_put k i m)"
| "write_step m (Delete_Store k) = Some (Delete_Done k, gm_del k m)"
| "write_step m _ = None"

text \<open>
  \<^verbatim>\<open>deleteExpired\<close> visits keys by \<^verbatim>\<open>sync.Map.Range\<close>, which may or may not see concurrent
  changes: the keys it will visit are any list, and a key that is gone is passed over.
\<close>

fun sweep_step :: "gotime \<Rightarrow> store \<Rightarrow> goroutine \<Rightarrow> (goroutine \<times> store) option" where
  "sweep_step now m (Sweep_Range (k # ks)) =
     (case gm_get m k of
        Some i \<Rightarrow> Some (if Expired now i then Sweep_Delete k ks else Sweep_Range ks, m)
      | None \<Rightarrow> Some (Sweep_Range ks, m))"
| "sweep_step now m (Sweep_Delete k ks) = Some (Sweep_Range ks, gm_del k m)"
| "sweep_step now m _ = None"

definition go_step :: "gotime \<Rightarrow> store \<Rightarrow> goroutine \<Rightarrow> (goroutine \<times> store) option" where
  "go_step now m g =
     (case incr_step m g of Some r \<Rightarrow> Some r
      | None \<Rightarrow> (case get_step now m g of Some r \<Rightarrow> Some r
         | None \<Rightarrow> (case write_step m g of Some r \<Rightarrow> Some r | None \<Rightarrow> sweep_step now m g)))"

lemma go_step_simps [simp]:
  "go_step now m (Incr_Load k n) = incr_step m (Incr_Load k n)"
  "go_step now m (Incr_LoadOrStore k n) = incr_step m (Incr_LoadOrStore k n)"
  "go_step now m (Incr_CompareAndSwap k n v) = incr_step m (Incr_CompareAndSwap k n v)"
  "go_step now m (Incr_Done k n r) = None"
  "go_step now m (Incr_Error k n e) = None"
  "go_step now m (Get_Load k) = get_step now m (Get_Load k)"
  "go_step now m (Get_Delete k) = get_step now m (Get_Delete k)"
  "go_step now m (Get_Done k r') = None"
  "go_step now m (Set_Store k i) = write_step m (Set_Store k i)"
  "go_step now m (Set_Done k) = None"
  "go_step now m (Delete_Store k) = write_step m (Delete_Store k)"
  "go_step now m (Delete_Done k) = None"
  "go_step now m (Sweep_Range ks) = sweep_step now m (Sweep_Range ks)"
  "go_step now m (Sweep_Delete k ks) = sweep_step now m (Sweep_Delete k ks)"
  by (auto simp: go_step_def LoadOrStore_def split: option.splits)

section \<open>The system\<close>

record cache_system =
  cs_now :: gotime
  cs_store :: store
  cs_threads :: "goroutine list"
  cs_hist :: "(string \<times> goint \<times> goint) list"

fun committed :: "goroutine \<Rightarrow> (string \<times> goint \<times> goint) list" where
  "committed (Incr_Done k n r) = [(k, n, r)]"
| "committed _ = []"

text \<open>\<open>cache_run n s s'\<close>: from \<open>s\<close> to \<open>s'\<close> with \<open>n\<close> accesses to the map.\<close>

inductive cache_run :: "nat \<Rightarrow> cache_system \<Rightarrow> cache_system \<Rightarrow> bool" where
  run_refl: "cache_run 0 s s"
| run_step: "cache_run n s0 s \<Longrightarrow> i < length (cs_threads s) \<Longrightarrow>
    go_step (cs_now s) (cs_store s) (cs_threads s ! i) = Some (g, m) \<Longrightarrow>
    cache_run (Suc n) s0 (s\<lparr>cs_store := m, cs_threads := (cs_threads s)[i := g], cs_hist := cs_hist s @ committed g\<rparr>)"
| run_tick: "cache_run n s0 s \<Longrightarrow> cs_now s \<le> now \<Longrightarrow> cache_run n s0 (s\<lparr>cs_now := now\<rparr>)"

fun at_start :: "goroutine \<Rightarrow> bool" where
  "at_start (Incr_Load k n) = True"
| "at_start (Get_Load k) = True"
| "at_start (Set_Store k i) = True"
| "at_start (Delete_Store k) = True"
| "at_start (Sweep_Range ks) = True"
| "at_start _ = False"

fun go_finished :: "goroutine \<Rightarrow> bool" where
  "go_finished (Incr_Done k n r) = True"
| "go_finished (Incr_Error k n e) = True"
| "go_finished (Get_Done k v) = True"
| "go_finished (Set_Done k) = True"
| "go_finished (Delete_Done k) = True"
| "go_finished (Sweep_Range ks) = (ks = [])"
| "go_finished _ = False"

definition cache_start :: "gotime \<Rightarrow> store \<Rightarrow> goroutine list \<Rightarrow> cache_system" where
  "cache_start now m gs = \<lparr>cs_now = now, cs_store = m, cs_threads = gs, cs_hist = []\<rparr>"

lemma go_step_finished: "go_step now m g = None \<longleftrightarrow> go_finished g"
proof (cases g)
  case (Sweep_Range ks)
  then show ?thesis by (cases ks) (auto split: option.splits)
qed (auto simp: LoadOrStore_def split: option.splits)

text \<open>A schedule, given as the goroutines that take the next accesses, executed at a standing clock.\<close>

fun schedule :: "nat list \<Rightarrow> cache_system \<Rightarrow> cache_system option" where
  "schedule [] s = Some s"
| "schedule (i # is) s =
     (if i < length (cs_threads s) then
        (case go_step (cs_now s) (cs_store s) (cs_threads s ! i) of
           Some (g, m) \<Rightarrow>
             schedule is (s\<lparr>cs_store := m, cs_threads := (cs_threads s)[i := g], cs_hist := cs_hist s @ committed g\<rparr>)
         | None \<Rightarrow> None)
      else None)"

lemma schedule_run: "cache_run n s0 s \<Longrightarrow> schedule is s = Some s' \<Longrightarrow> cache_run (n + length is) s0 s'"
proof (induction "is" arbitrary: n s)
  case (Cons i "is")
  then show ?case using run_step[OF Cons.prems(1)] by (fastforce split: if_splits option.splits)
qed simp

section \<open>Counters\<close>

text \<open>
  The sequential counter: increments applied one after the other, each answered with the value
  it produces.
\<close>

fun serial :: "goint \<Rightarrow> (goint \<times> goint) list \<Rightarrow> bool" where
  "serial b [] = True"
| "serial b ((n, r) # H) = (r = b + n \<and> serial r H)"

definition increments_of :: "string \<Rightarrow> (string \<times> goint \<times> goint) list \<Rightarrow> (goint \<times> goint) list" where
  "increments_of k hist = map snd (filter (\<lambda>e. fst e = k) hist)"

abbreviation counter_item :: "goint \<Rightarrow> item" where
  "counter_item c \<equiv> \<lparr>it_Value = VInt c, it_Expiration = 0\<rparr>"

definition counter_at :: "store \<Rightarrow> string \<Rightarrow> goint \<Rightarrow> bool" where
  "counter_at m k b \<longleftrightarrow> gm_get m k = Some (counter_item b) \<or> gm_get m k = None \<and> b = 0"

fun writes :: "string \<Rightarrow> goroutine \<Rightarrow> bool" where
  "writes k (Set_Store k' i) = (k' = k)"
| "writes k (Delete_Store k') = (k' = k)"
| "writes k _ = False"

text \<open>What a goroutine that leaves key \<open>k\<close> to the increments can be doing.\<close>

fun thread_ok :: "string \<Rightarrow> goroutine \<Rightarrow> bool" where
  "thread_ok k (Incr_CompareAndSwap k' n v) = (k' = k \<longrightarrow> (\<exists>c. v = counter_item c))"
| "thread_ok k (Incr_Error k' n e) = (k' \<noteq> k)"
| "thread_ok k (Get_Delete k') = (k' \<noteq> k)"
| "thread_ok k (Sweep_Delete k' ks) = (k' \<noteq> k)"
| "thread_ok k (Set_Store k' i) = (k' \<noteq> k)"
| "thread_ok k (Delete_Store k') = (k' \<noteq> k)"
| "thread_ok k _ = True"

lemma serial_append: "serial b (H @ [(n, r)]) \<longleftrightarrow> serial b H \<and> r = b + sum_list (map fst H) + n"
  by (induction b H rule: serial.induct) (auto simp: add.assoc)

lemma not_Expired_counter [simp]: "\<not> Expired now (counter_item c)"
  by (simp add: Expired_def)

lemma incr_loaded_counter [simp]: "incr_loaded k n (counter_item c) = Incr_CompareAndSwap k n (counter_item c)"
  by (simp add: incr_loaded_def)

lemma incr_item_counter [simp]: "incr_item n (counter_item c) = counter_item (c + n)"
  by (simp add: incr_item_def)

definition counter_value :: "store \<Rightarrow> string \<Rightarrow> (goint \<times> goint) list \<Rightarrow> goint \<Rightarrow> item option" where
  "counter_value m0 k H b = (if H = [] then gm_get m0 k else Some (counter_item (b + sum_list (map fst H))))"

lemma counter_value_cases:
  assumes "counter_at m0 k b" "counter_value m0 k H b = Some v"
  shows "v = counter_item (b + sum_list (map fst H))"
  using assms by (auto simp: counter_at_def counter_value_def split: if_splits)

lemma counter_value_None:
  "counter_at m0 k b \<Longrightarrow> counter_value m0 k H b = None \<Longrightarrow> H = [] \<and> b = 0"
  by (auto simp: counter_at_def counter_value_def split: if_splits)

lemma increments_of_snoc [simp]:
  "increments_of k (hist @ committed g) = increments_of k hist @
     (case g of Incr_Done k' n r \<Rightarrow> if k' = k then [(n, r)] else [] | _ \<Rightarrow> [])"
  by (cases g) (auto simp: increments_of_def)

text \<open>One access keeps the goroutines within these bounds and the item equal to the sum of the increments.\<close>

lemma go_step_counter:
  assumes "thread_ok k g" "go_step now m g = Some (g', m')" "counter_at m0 k b"
    and "gm_get m k = counter_value m0 k H b" "serial b H"
  defines "H' \<equiv> H @ (case g' of Incr_Done k' n r \<Rightarrow> if k' = k then [(n, r)] else [] | _ \<Rightarrow> [])"
  shows "thread_ok k g' \<and> gm_get m' k = counter_value m0 k H' b \<and> serial b H'"
proof -
  define c where "c = b + sum_list (map fst H)"
  consider (absent) "gm_get m k = None" "counter_value m0 k H b = None" "H = []" "b = 0"
    | (present) "gm_get m k = Some (counter_item c)" "counter_value m0 k H b = Some (counter_item c)"
    using assms(3,4) counter_value_cases[OF assms(3), of H] counter_value_None[OF assms(3), of H] c_def
    by (cases "counter_value m0 k H b") auto
  then show ?thesis
  proof cases
    case absent
    then show ?thesis
    proof (cases g)
      case (Sweep_Range ks)
      with absent assms show ?thesis by (cases ks) (auto split: option.splits if_splits)
    qed (use absent assms in \<open>auto simp: LoadOrStore_def incr_loaded_def counter_value_def split: option.splits if_splits\<close>)
  next
    case present
    have snoc: "counter_value m0 k (H @ [(n, r)]) b = Some (counter_item (c + n))" for n r
      by (simp add: counter_value_def c_def add.assoc)
    have ser: "serial b (H @ [(n, c + n)])" for n using assms(5) by (simp add: serial_append c_def)
    show ?thesis
    proof (cases g)
      case (Sweep_Range ks)
      with present assms show ?thesis by (cases ks) (auto split: option.splits if_splits)
    qed (use present assms snoc ser in \<open>auto simp: LoadOrStore_def incr_loaded_def split: option.splits if_splits\<close>)
  qed
qed

lemma mset_committed_update:
  assumes "i < length gs" "committed (gs ! i) = []"
  shows "mset (concat (map committed (gs[i := g]))) = mset (concat (map committed gs)) + mset (committed g)"
  using assms
proof (induction gs arbitrary: i)
  case (Cons x gs)
  then show ?case by (cases i) auto
qed simp

lemma go_step_uncommitted: "go_step now m g = Some r \<Longrightarrow> committed g = []"
  by (cases g) auto

lemma set_update_ok: "\<forall>g\<in>set gs. P g \<Longrightarrow> P g' \<Longrightarrow> g \<in> set (gs[i := g']) \<Longrightarrow> P g"
  using set_update_subset_insert[of gs i g'] by auto

lemma cache_run_counter:
  assumes "cache_run n s0 s" "s0 = cache_start now m0 gs" "counter_at m0 k b"
    and "\<forall>g\<in>set gs. at_start g \<and> \<not> writes k g"
  shows "(\<forall>g\<in>set (cs_threads s). thread_ok k g) \<and> serial b (increments_of k (cs_hist s)) \<and>
    gm_get (cs_store s) k = counter_value m0 k (increments_of k (cs_hist s)) b \<and>
    mset (cs_hist s) = mset (concat (map committed (cs_threads s)))"
  using assms
proof (induction rule: cache_run.induct)
  case (run_refl s)
  have "thread_ok k g" "committed g = []" if "at_start g" "\<not> writes k g" for g
    using that by (cases g; simp)+
  then show ?case
    using run_refl.prems by (auto simp: cache_start_def increments_of_def counter_value_def)
next
  case (run_step n s0 s i g m)
  let ?H = "increments_of k (cs_hist s)"
  from run_step.IH[OF run_step.prems] have IH: "\<forall>g\<in>set (cs_threads s). thread_ok k g" "serial b ?H"
    "gm_get (cs_store s) k = counter_value m0 k ?H b" "mset (cs_hist s) = mset (concat (map committed (cs_threads s)))"
    by simp_all
  have "thread_ok k (cs_threads s ! i)" using IH(1) run_step.hyps(2) by simp
  from go_step_counter[OF this run_step.hyps(3) assms(3) IH(3,2)] IH show ?case
    using mset_committed_update[OF run_step.hyps(2) go_step_uncommitted[OF run_step.hyps(3)]]
    by (auto elim: set_update_ok)
next
  case (run_tick n s0 s now)
  then show ?case by simp
qed

text \<open>C11: increments that run concurrently on one key are linearizable. Whatever other goroutines
  read, sweep, or write under other keys, the increments that have returned can be put in an order
  in which each was answered as the sequential counter answers it, the item holds the sum, none is
  lost or counted twice, and none fails.\<close>

theorem increments_linearizable:
  assumes "\<forall>g\<in>set gs. at_start g \<and> \<not> writes k g" "counter_at m0 k b"
    and "cache_run n (cache_start now m0 gs) s"
  shows "serial b (increments_of k (cs_hist s)) \<and>
    mset (cs_hist s) = mset (concat (map committed (cs_threads s))) \<and>
    gm_get (cs_store s) k =
      (if increments_of k (cs_hist s) = [] then gm_get m0 k
       else Some (counter_item (b + sum_list (map fst (increments_of k (cs_hist s)))))) \<and>
    (\<forall>c e. Incr_Error k c e \<notin> set (cs_threads s))"
proof -
  from cache_run_counter[OF assms(3) refl assms(2,1)] have
    "\<forall>g\<in>set (cs_threads s). thread_ok k g" "serial b (increments_of k (cs_hist s))"
    "gm_get (cs_store s) k = counter_value m0 k (increments_of k (cs_hist s)) b"
    "mset (cs_hist s) = mset (concat (map committed (cs_threads s)))" by simp_all
  then show ?thesis by (auto simp: counter_value_def)
qed

theorem increments_linearizable_witness:
  "\<exists>s. cache_run 5 (cache_start 1 [] [Incr_Load ''a'' 2, Incr_Load ''a'' 3]) s \<and>
    cs_threads s = [Incr_Done ''a'' 2 2, Incr_Done ''a'' 3 5] \<and> cs_store s = [(''a'', counter_item 5)] \<and>
    serial 0 (increments_of ''a'' (cs_hist s))"
proof -
  let ?init = "cache_start 1 [] [Incr_Load ''a'' 2, Incr_Load ''a'' 3]"
  let ?s = "\<lparr>cs_now = 1, cs_store = [(''a'', counter_item 5)],
      cs_threads = [Incr_Done ''a'' 2 2, Incr_Done ''a'' 3 5], cs_hist = [(''a'', 2, 2), (''a'', 3, 5)]\<rparr>"
  have "schedule [0, 1, 0, 1, 1] ?init = Some ?s"
    by code_simp
  from schedule_run[OF run_refl this] have run: "cache_run 5 ?init ?s" by (simp add: eval_nat_numeral)
  have "serial 0 (increments_of ''a'' (cs_hist ?s))"
    using increments_linearizable[of "[Incr_Load ''a'' 2, Incr_Load ''a'' 3]" "''a''" "[]" 0 5 1 ?s] run
    by (simp add: counter_at_def)
  with run show ?thesis by (intro exI[of _ ?s]) simp
qed

section \<open>Progress\<close>

text \<open>
  An upper bound on the accesses still to come: \<open>changes\<close> counts the accesses of a goroutine
  that can modify the map, \<open>rank\<close> those it makes before the next of them if nobody
  interferes. A modification can cost every other goroutine one failed swap and a new load.
\<close>

fun changes :: "goroutine \<Rightarrow> nat" where
  "changes (Incr_Load k n) = 1"
| "changes (Incr_LoadOrStore k n) = 1"
| "changes (Incr_CompareAndSwap k n v) = 1"
| "changes (Get_Load k) = 1"
| "changes (Get_Delete k) = 1"
| "changes (Set_Store k i) = 1"
| "changes (Delete_Store k) = 1"
| "changes (Sweep_Range ks) = length ks"
| "changes (Sweep_Delete k ks) = Suc (length ks)"
| "changes _ = 0"

fun rank :: "store \<Rightarrow> goroutine \<Rightarrow> nat" where
  "rank m (Incr_Load k n) = 2"
| "rank m (Incr_LoadOrStore k n) = (if gm_get m k = None then 1 else 2)"
| "rank m (Incr_CompareAndSwap k n v) = (if gm_get m k = Some v then 1 else 3)"
| "rank m (Get_Load k) = 2"
| "rank m (Get_Delete k) = 1"
| "rank m (Set_Store k i) = 1"
| "rank m (Delete_Store k) = 1"
| "rank m (Sweep_Range ks) = 2 * length ks"
| "rank m (Sweep_Delete k ks) = Suc (2 * length ks)"
| "rank m _ = 0"

definition remaining :: "store \<Rightarrow> goroutine list \<Rightarrow> nat" where
  "remaining m gs = (2 * length gs + 1) * sum_list (map changes gs) + sum_list (map (rank m) gs)"

lemma rank_modified: "rank m' g \<le> rank m g + 2"
  by (cases g) auto

lemma sum_rank_modified: "sum_list (map (rank m') gs) \<le> sum_list (map (rank m) gs) + 2 * length gs"
  by (induction gs) (auto intro: order_trans[OF add_mono[OF rank_modified]])

lemma sum_rank_modified_update:
  assumes "i < length gs" "rank m' g \<le> rank m (gs ! i)"
  shows "sum_list (map (rank m') (gs[i := g])) \<le> sum_list (map (rank m) gs) + 2 * length gs"
  using assms
proof (induction gs arbitrary: i)
  case (Cons x gs)
  show ?case
  proof (cases i)
    case 0
    with Cons.prems show ?thesis using sum_rank_modified[of m' gs m] by simp
  next
    case (Suc j)
    have "sum_list (map (rank m') (gs[j := g])) \<le> sum_list (map (rank m) gs) + 2 * length gs"
      using Cons Suc by simp
    with Suc show ?thesis using rank_modified[of m' x m] by simp
  qed
qed simp

lemma go_step_progress:
  assumes "go_step now m g = Some (g', m')"
  shows "changes g' < changes g \<and> rank m' g' \<le> rank m g \<or> m' = m \<and> changes g' \<le> changes g \<and> rank m g' < rank m g"
proof (cases g)
  case (Sweep_Range ks)
  with assms show ?thesis by (cases ks) (auto split: option.splits if_splits)
qed (use assms in \<open>auto simp: LoadOrStore_def incr_loaded_def split: option.splits if_splits\<close>)

lemma sum_list_update_nat:
  fixes f :: "'a \<Rightarrow> nat"
  shows "i < length gs \<Longrightarrow> sum_list (map f (gs[i := g])) + f (gs ! i) = sum_list (map f gs) + f g"
  by (induction gs arbitrary: i) (auto split: nat.splits)

lemma remaining_step:
  assumes "i < length gs" "go_step now m (gs ! i) = Some (g, m')"
  shows "remaining m' (gs[i := g]) < remaining m gs"
proof -
  let ?gs = "gs[i := g]" let ?N = "2 * length gs + 1"
  have c: "sum_list (map changes ?gs) + changes (gs ! i) = sum_list (map changes gs) + changes g"
    and r: "sum_list (map (rank m) ?gs) + rank m (gs ! i) = sum_list (map (rank m) gs) + rank m g"
    using sum_list_update_nat[OF assms(1)] by auto
  from go_step_progress[OF assms(2)] show ?thesis
  proof
    assume "changes g < changes (gs ! i) \<and> rank m' g \<le> rank m (gs ! i)"
    with c have "Suc (sum_list (map changes ?gs)) \<le> sum_list (map changes gs)"
      and rg: "rank m' g \<le> rank m (gs ! i)" by simp_all
    then have "?N * Suc (sum_list (map changes ?gs)) \<le> ?N * sum_list (map changes gs)" by (intro mult_le_mono2)
    moreover have "sum_list (map (rank m') ?gs) \<le> sum_list (map (rank m) gs) + 2 * length gs"
      by (rule sum_rank_modified_update[OF assms(1) rg])
    ultimately show ?thesis by (simp add: remaining_def)
  next
    assume *: "m' = m \<and> changes g \<le> changes (gs ! i) \<and> rank m g < rank m (gs ! i)"
    with c have "?N * sum_list (map changes ?gs) \<le> ?N * sum_list (map changes gs)" by (intro mult_le_mono2) simp
    with * r show ?thesis by (simp add: remaining_def)
  qed
qed

lemma cache_run_bound:
  assumes "cache_run n s0 s"
  shows "n + remaining (cs_store s) (cs_threads s) \<le> remaining (cs_store s0) (cs_threads s0)"
  using assms
proof (induction rule: cache_run.induct)
  case (run_step n s0 s i g m)
  from remaining_step[OF run_step.hyps(2,3)] run_step.IH show ?case by simp
qed simp_all

lemma cache_run_length: "cache_run n s0 s \<Longrightarrow> length (cs_threads s) = length (cs_threads s0)"
  by (induction rule: cache_run.induct) auto

lemma cache_run_finish:
  "cache_run n s0 s \<Longrightarrow> \<exists>n' s'. cache_run n' s0 s' \<and> (\<forall>g\<in>set (cs_threads s'). go_finished g)"
proof (induction "remaining (cs_store s) (cs_threads s)" arbitrary: n s rule: less_induct)
  case less
  show ?case
  proof (cases "\<forall>g\<in>set (cs_threads s). go_finished g")
    case True
    then show ?thesis using less.prems by blast
  next
    case False
    then obtain i where i: "i < length (cs_threads s)" "\<not> go_finished (cs_threads s ! i)"
      by (auto simp: in_set_conv_nth)
    then obtain g m where st: "go_step (cs_now s) (cs_store s) (cs_threads s ! i) = Some (g, m)"
      using go_step_finished by fastforce
    show ?thesis
      by (rule less.hyps[OF _ run_step[OF less.prems i(1) st]]) (simp add: remaining_step[OF i(1) st])
  qed
qed

text \<open>the retry loop of the lock-free increments ends. With any goroutines reading, writing,
  sweeping and incrementing at once, and under every schedule, the number of accesses to the map is
  bounded by a number known at the start, a goroutine that cannot continue has finished, and from
  every reachable state a state is reached in which all have.\<close>

theorem cache_operations_terminate:
  assumes "cache_run n (cache_start now m0 gs) s"
  shows "n \<le> remaining m0 gs \<and>
    (\<forall>i < length gs. go_step (cs_now s) (cs_store s) (cs_threads s ! i) = None \<longleftrightarrow> go_finished (cs_threads s ! i)) \<and>
    (\<exists>n' s'. cache_run n' (cache_start now m0 gs) s' \<and> (\<forall>g\<in>set (cs_threads s'). go_finished g))"
  using cache_run_bound[OF assms] cache_run_finish[OF assms] go_step_finished
  by (auto simp: cache_start_def)

theorem cache_operations_terminate_witness:
  "cache_run 0 (cache_start 1 [] [Incr_Load ''a'' 2, Incr_Load ''a'' 3]) (cache_start 1 [] [Incr_Load ''a'' 2, Incr_Load ''a'' 3]) \<and>
   (\<exists>n s. cache_run n (cache_start 1 [] [Incr_Load ''a'' 2, Incr_Load ''a'' 3]) s \<and> (\<forall>g\<in>set (cs_threads s). go_finished g))"
  using cache_operations_terminate[OF run_refl] run_refl by blast

section \<open>Expiry and concurrent writes\<close>

text \<open>between finding an item expired and deleting its key \<^verbatim>\<open>Get\<close> and the janitor hold no lock,
  and they delete whatever is stored by then: there is a schedule in which a value written after
  the item was seen is gone although nobody deleted or overwrote it, and its lifetime has not passed.\<close>

theorem expiry_removes_fresh_value:
  assumes "gm_get m k = Some i" "Expired now i" "\<not> Expired now v"
    and "g = Get_Load k \<and> g' = Get_Done k None \<or> g = Sweep_Range [k] \<and> g' = Sweep_Range []"
  shows "\<exists>s. cache_run 3 (cache_start now m [g, Set_Store k v]) s \<and>
    cs_threads s = [g', Set_Done k] \<and> cs_now s = now \<and> gm_get (cs_store s) k = None"
proof -
  let ?init = "cache_start now m [g, Set_Store k v]"
  have "schedule [0, 1, 0] ?init = Some \<lparr>cs_now = now, cs_store = gm_del k (gm_put k v m),
      cs_threads = [g', Set_Done k], cs_hist = []\<rparr>"
    using assms by (auto simp: cache_start_def)
  from schedule_run[OF run_refl this] show ?thesis by (auto simp: numeral_3_eq_3)
qed

theorem expiry_removes_fresh_value_witness:
  "\<exists>s. cache_run 3 (cache_start 200 [(''a'', \<lparr>it_Value = VInt 9, it_Expiration = 100\<rparr>)] [Get_Load ''a'', Set_Store ''a'' (counter_item 1)]) s \<and>
    cs_threads s = [Get_Done ''a'' None, Set_Done ''a''] \<and> cs_now s = 200 \<and> gm_get (cs_store s) ''a'' = None"
  by (rule expiry_removes_fresh_value[where i = "\<lparr>it_Value = VInt 9, it_Expiration = 100\<rparr>"])
    (simp_all add: Expired_def UnixNano_def)

end
