(* ===== verification/Runtime.thy ===== *)
theory Runtime
  imports Hosts Cache GoPaths
begin

text \<open>
  The runtime context (\<^verbatim>\<open>runtime/\<close>): state bags, the contexts derived for pipelines, modules, tasks and
  hosts, \<^verbatim>\<open>Export\<close> and \<^verbatim>\<open>Import\<close> between scopes, host queries, and the directories of a run; the
  construction of a context without connections (\<^verbatim>\<open>builder.go\<close>).

  A derived context is a copy of the Go struct, so it shares the state bags it points to: the bags
  live in a heap and a context holds their addresses, \<open>None\<close> for a nil interface. Of the services a
  context carries only what the operations below read is kept; loggers, recorders and HTTP clients
  are left out.
\<close>

section \<open>State bags\<close>

type_synonym state_bag = "(string, goval) gomap"

type_synonym bags = "state_bag list"

definition NewStateBag :: "bags \<Rightarrow> nat \<times> bags" where
  "NewStateBag h = (length h, h @ [[]])"

definition StateBag_Set :: "string \<Rightarrow> goval \<Rightarrow> nat \<Rightarrow> bags \<Rightarrow> bags" where
  "StateBag_Set key value b h = h[b := gm_put key value (h ! b)]"

definition StateBag_Get :: "string \<Rightarrow> nat \<Rightarrow> bags \<Rightarrow> goval option" where
  "StateBag_Get key b h = gm_get (h ! b) key"

definition StateBag_GetString :: "string \<Rightarrow> nat \<Rightarrow> bags \<Rightarrow> string \<times> bool" where
  "StateBag_GetString key b h = get_as [] as_string (StateBag_Get key b h)"

definition StateBag_GetInt :: "string \<Rightarrow> nat \<Rightarrow> bags \<Rightarrow> goint \<times> bool" where
  "StateBag_GetInt key b h = get_as 0 as_int (StateBag_Get key b h)"

definition StateBag_GetBool :: "string \<Rightarrow> nat \<Rightarrow> bags \<Rightarrow> bool \<times> bool" where
  "StateBag_GetBool key b h = get_as False as_bool (StateBag_Get key b h)"

definition StateBag_GetAll :: "nat \<Rightarrow> bags \<Rightarrow> state_bag" where
  "StateBag_GetAll b h = fold (\<lambda>(k, v) copy. gm_put k v copy) (h ! b) []"

definition StateBag_Delete :: "string \<Rightarrow> nat \<Rightarrow> bags \<Rightarrow> bags" where
  "StateBag_Delete key b h = h[b := gm_del key (h ! b)]"

text \<open>The typed variant and the registry of step outputs, whose \<^verbatim>\<open>MustGet\<close> panics on an unknown name.\<close>

type_synonym 'v typed_bag = "(string, 'v) gomap"

definition TypedStateBag_Set :: "string \<Rightarrow> 'v \<Rightarrow> 'v typed_bag \<Rightarrow> 'v typed_bag" where
  "TypedStateBag_Set key value s = gm_put key value s"

definition TypedStateBag_Get :: "'v typed_bag \<Rightarrow> string \<Rightarrow> 'v option" where
  "TypedStateBag_Get s key = gm_get s key"

definition TypedStateBag_GetOrDefault :: "'v typed_bag \<Rightarrow> string \<Rightarrow> 'v \<Rightarrow> 'v" where
  "TypedStateBag_GetOrDefault s key d = (case gm_get s key of Some v \<Rightarrow> v | None \<Rightarrow> d)"

definition TypedStateBag_Delete :: "string \<Rightarrow> 'v typed_bag \<Rightarrow> 'v typed_bag" where
  "TypedStateBag_Delete key s = gm_del key s"

definition TypedStateBag_Len :: "'v typed_bag \<Rightarrow> nat" where
  "TypedStateBag_Len s = length s"

definition Registry_Register :: "string \<Rightarrow> 'v \<Rightarrow> 'v typed_bag \<Rightarrow> 'v typed_bag" where
  "Registry_Register name output r = gm_put name output r"

definition Registry_MustGet :: "'v typed_bag \<Rightarrow> string \<Rightarrow> goerr + 'v" where
  "Registry_MustGet r name =
     (case gm_get r name of Some v \<Rightarrow> Inr v | None \<Rightarrow> Inl (''step output type not registered: '' @ name))"

interpretation typed_bags: keyed_store "[]" TypedStateBag_Set TypedStateBag_Get TypedStateBag_Delete
  by unfold_locales (simp_all add: TypedStateBag_Set_def TypedStateBag_Get_def TypedStateBag_Delete_def)

section \<open>Contexts\<close>

text \<open>
  Facts about a host and a connector are opaque values. A Go context is its deadline (\<open>None\<close>: no
  deadline) and whether it has been cancelled.
\<close>

record HostRuntimeInfo =
  hri_Host :: "connector_Host option"
  hri_Conn :: "nat option"
  hri_Facts :: "nat option"

record Context =
  cx_GoCtx :: "gotime option"
  cx_ClusterName :: "string option"
  cx_GlobalWorkDir :: string
  cx_GlobalVerbose :: bool
  cx_GlobalIgnoreErr :: bool
  cx_GlobalConnectionTimeout :: duration
  cx_GlobalOfflineMode :: bool
  cx_PipelineCache :: nat
  cx_ModuleCache :: nat
  cx_TaskCache :: nat
  cx_StepCache :: nat
  cx_hostInfoMap :: "(string, HostRuntimeInfo) gomap option"
  cx_controlNode :: "connector_Host option"
  cx_currentHost :: "connector_Host option"
  cx_stepExecutionID :: string
  cx_executionStartTime :: gotime
  cx_GlobalState :: "nat option"
  cx_PipelineState :: "nat option"
  cx_ModuleState :: "nat option"
  cx_TaskState :: "nat option"
  cx_currentPipelineName :: string
  cx_currentModuleName :: string
  cx_currentTaskName :: string
  cx_RunID :: string
  cx_cancelFn :: bool

definition ForHost :: "Context \<Rightarrow> connector_Host option \<Rightarrow> Context" where
  "ForHost c host = c\<lparr>cx_currentHost := host, cx_stepExecutionID := [], cx_executionStartTime := 0\<rparr>"

definition ForPipeline :: "string \<Rightarrow> Context \<times> bags \<Rightarrow> Context \<times> bags" where
  "ForPipeline pipelineName = (\<lambda>(c, h).
     let c' = c\<lparr>cx_currentPipelineName := pipelineName\<rparr> in
     if cx_PipelineState c' = None then (case NewStateBag h of (b, h') \<Rightarrow> (c'\<lparr>cx_PipelineState := Some b\<rparr>, h')) else (c', h))"

definition ForModule :: "string \<Rightarrow> Context \<times> bags \<Rightarrow> Context \<times> bags" where
  "ForModule moduleName = (\<lambda>(c, h).
     let c' = c\<lparr>cx_currentModuleName := moduleName\<rparr> in
     if cx_ModuleState c' = None then (case NewStateBag h of (b, h') \<Rightarrow> (c'\<lparr>cx_ModuleState := Some b\<rparr>, h')) else (c', h))"

definition ForTask :: "string \<Rightarrow> Context \<times> bags \<Rightarrow> Context \<times> bags" where
  "ForTask taskName = (\<lambda>(c, h).
     let c' = c\<lparr>cx_currentTaskName := taskName\<rparr> in
     if cx_TaskState c' = None then (case NewStateBag h of (b, h') \<Rightarrow> (c'\<lparr>cx_TaskState := Some b\<rparr>, h')) else (c', h))"

text \<open>\<^verbatim>\<open>context.WithTimeout\<close> keeps the earlier of the two deadlines.\<close>

definition WithGoContext :: "gotime option \<Rightarrow> Context \<Rightarrow> Context" where
  "WithGoContext goCtx c = c\<lparr>cx_GoCtx := goCtx\<rparr>"

definition WithTimeout :: "gotime \<Rightarrow> duration \<Rightarrow> Context \<Rightarrow> Context" where
  "WithTimeout now d c =
     (if sint d \<le> 0 then c
      else c\<lparr>cx_GoCtx := Some (case cx_GoCtx c of None \<Rightarrow> now + sint d | Some t \<Rightarrow> min t (now + sint d)), cx_cancelFn := True\<rparr>)"

definition Cancel :: "Context \<Rightarrow> bool \<times> Context" where
  "Cancel c = (if cx_cancelFn c then (True, c\<lparr>cx_cancelFn := False\<rparr>) else (False, c))"

definition GetFromRuntimeConfig :: "string \<Rightarrow> Context \<times> bags \<Rightarrow> goval option" where
  "GetFromRuntimeConfig key = (\<lambda>(c, h). case cx_TaskState c of None \<Rightarrow> None | Some b \<Rightarrow> StateBag_Get key b h)"

definition SetRuntimeConfig :: "(string, goval) gomap \<Rightarrow> Context \<times> bags \<Rightarrow> Context \<times> bags" where
  "SetRuntimeConfig config = (\<lambda>(c, h).
     case (case cx_TaskState c of None \<Rightarrow> (let (b, h') = NewStateBag h in (b, c\<lparr>cx_TaskState := Some b\<rparr>, h')) | Some b \<Rightarrow> (b, c, h)) of
       (b, c', h') \<Rightarrow> (c', fold (\<lambda>(k, v). StateBag_Set k v b) config h'))"

section \<open>Scopes\<close>

datatype export_error = StateNotInitialized string | UnknownScope string

definition scope_bag :: "string \<Rightarrow> Context \<Rightarrow> nat option option" where
  "scope_bag scope c =
     (if scope = ''global'' then Some (cx_GlobalState c)
      else if scope = ''pipeline'' then Some (cx_PipelineState c)
      else if scope = ''module'' then Some (cx_ModuleState c)
      else if scope = ''task'' then Some (cx_TaskState c)
      else None)"

definition Export :: "string \<Rightarrow> string \<Rightarrow> goval \<Rightarrow> Context \<Rightarrow> bags \<Rightarrow> export_error option \<times> bags" where
  "Export scope key value c h =
     (case scope_bag scope c of
        None \<Rightarrow> (Some (UnknownScope scope), h)
      | Some None \<Rightarrow> (Some (StateNotInitialized scope), h)
      | Some (Some b) \<Rightarrow> (None, StateBag_Set key value b h))"

definition bag_get :: "nat option \<Rightarrow> string \<Rightarrow> bags \<Rightarrow> goval option" where
  "bag_get b key h = (case b of None \<Rightarrow> None | Some a \<Rightarrow> StateBag_Get key a h)"

definition Import :: "string \<Rightarrow> string \<Rightarrow> Context \<Rightarrow> bags \<Rightarrow> goval option" where
  "Import scope key c h =
     (if scope \<noteq> [] then
        (case scope_bag scope c of Some b \<Rightarrow> bag_get b key h | None \<Rightarrow> None)
      else case bag_get (cx_TaskState c) key h of
        Some v \<Rightarrow> Some v
      | None \<Rightarrow> (case bag_get (cx_ModuleState c) key h of
          Some v \<Rightarrow> Some v
        | None \<Rightarrow> (case bag_get (cx_PipelineState c) key h of
            Some v \<Rightarrow> Some v
          | None \<Rightarrow> bag_get (cx_GlobalState c) key h)))"

section \<open>Hosts\<close>

text \<open>
  A panic (a method call on a nil interface) is \<open>Inl\<close>. The order of the result is the order in which
  the map is enumerated.
\<close>

fun hosts_with_role :: "string \<Rightarrow> HostRuntimeInfo list \<Rightarrow> goerr + connector_Host option list" where
  "hosts_with_role role [] = Inr []"
| "hosts_with_role role (hri # hris) =
     (case hri_Host hri of
        None \<Rightarrow> Inl ''nil pointer dereference''
      | Some host \<Rightarrow>
          (case hosts_with_role role hris of
             Inl e \<Rightarrow> Inl e
           | Inr hosts \<Rightarrow> Inr (if role \<in> set (GetRoles host) then Some host # hosts else hosts)))"

definition GetHostsByRole :: "string \<Rightarrow> Context \<Rightarrow> goerr + connector_Host option list" where
  "GetHostsByRole role c =
     (case cx_hostInfoMap c of
        None \<Rightarrow> Inr []
      | Some m \<Rightarrow>
          if role = [] then Inr (map (\<lambda>(k, hri). hri_Host hri) m)
          else hosts_with_role role (map snd m))"

datatype context_error =
    HostInfoNotInitialized | HostNil | NoRuntimeInfo string | FactsNotAvailable string
  | ControlNodeNotInitialized | NoCurrentHost | ConnectorNotAvailable string

definition GetHostFacts :: "connector_Host option \<Rightarrow> Context \<Rightarrow> context_error + nat" where
  "GetHostFacts host c =
     (case cx_hostInfoMap c of
        None \<Rightarrow> Inl HostInfoNotInitialized
      | Some m \<Rightarrow>
          (case host of
             None \<Rightarrow> Inl HostNil
           | Some hst \<Rightarrow>
               (case gm_get m (GetName hst) of
                  None \<Rightarrow> Inl (NoRuntimeInfo (GetName hst))
                | Some hri \<Rightarrow> (case hri_Facts hri of None \<Rightarrow> Inl (FactsNotAvailable (GetName hst)) | Some f \<Rightarrow> Inr f))))"

definition GetControlNode :: "Context \<Rightarrow> context_error + connector_Host" where
  "GetControlNode c = (case cx_controlNode c of None \<Rightarrow> Inl ControlNodeNotInitialized | Some hst \<Rightarrow> Inr hst)"

definition GetCurrentHostFacts :: "Context \<Rightarrow> context_error + nat" where
  "GetCurrentHostFacts c = (if cx_currentHost c = None then Inl NoCurrentHost else GetHostFacts (cx_currentHost c) c)"

definition GetCurrentHostConnector :: "Context \<Rightarrow> context_error + nat" where
  "GetCurrentHostConnector c =
     (case cx_currentHost c of
        None \<Rightarrow> Inl NoCurrentHost
      | Some hst \<Rightarrow>
          (case cx_hostInfoMap c of
             None \<Rightarrow> Inl HostInfoNotInitialized
           | Some m \<Rightarrow>
               (case gm_get m (GetName hst) of
                  None \<Rightarrow> Inl (NoRuntimeInfo (GetName hst))
                | Some hri \<Rightarrow> (case hri_Conn hri of None \<Rightarrow> Inl (ConnectorNotAvailable (GetName hst)) | Some k \<Rightarrow> Inr k))))"

definition GetStepExecutionID :: "string \<Rightarrow> Context \<Rightarrow> string \<times> Context" where
  "GetStepExecutionID newUUID c =
     (let c' = (if cx_stepExecutionID c = [] then c\<lparr>cx_stepExecutionID := newUUID\<rparr> else c) in (cx_stepExecutionID c', c'))"

definition GetExecutionStartTime :: "gotime \<Rightarrow> Context \<Rightarrow> gotime \<times> Context" where
  "GetExecutionStartTime now c =
     (let c' = (if cx_executionStartTime c = 0 then c\<lparr>cx_executionStartTime := now\<rparr> else c) in (cx_executionStartTime c', c'))"

section \<open>Directories\<close>

definition GetClusterWorkDir :: "Context \<Rightarrow> string" where
  "GetClusterWorkDir c =
     (case cx_ClusterName c of
        None \<Rightarrow> filepath_Join [cx_GlobalWorkDir c, ''_INVALID_CLUSTER_'']
      | Some name \<Rightarrow>
          if name = [] then filepath_Join [cx_GlobalWorkDir c, ''_INVALID_CLUSTER_'']
          else filepath_Join [cx_GlobalWorkDir c, name])"

definition GetHostWorkDir :: "Context \<Rightarrow> goerr + string" where
  "GetHostWorkDir c =
     (case cx_ClusterName c of
        None \<Rightarrow> Inr (filepath_Join [cx_GlobalWorkDir c, ''_INVALID_CLUSTER_''])
      | Some name \<Rightarrow>
          if name = [] then Inr (filepath_Join [cx_GlobalWorkDir c, ''_INVALID_CLUSTER_''])
          else (case cx_currentHost c of
                  None \<Rightarrow> Inl ''nil pointer dereference''
                | Some hst \<Rightarrow> Inr (filepath_Join [cx_GlobalWorkDir c, name, GetName hst])))"

definition GetKubernetesCertsDir :: "Context \<Rightarrow> string" where
  "GetKubernetesCertsDir c = filepath_Join [GetClusterWorkDir c, ''kubernetes'', ''certs'']"

definition GetEtcdCertsDir :: "Context \<Rightarrow> string" where
  "GetEtcdCertsDir c = filepath_Join [GetClusterWorkDir c, ''etcd'', ''certs'']"

definition GetRepositoryDir :: "Context \<Rightarrow> string" where
  "GetRepositoryDir c = filepath_Join [cx_GlobalWorkDir c, ''repository'']"

definition GetFileDownloadPath :: "string \<Rightarrow> string \<Rightarrow> string \<Rightarrow> string \<Rightarrow> Context \<Rightarrow> string" where
  "GetFileDownloadPath componentName version arch fileName c =
     (let componentDir = filepath_Join [cx_GlobalWorkDir c, componentName, version, arch]
      in if fileName \<noteq> [] then filepath_Join [componentDir, fileName] else componentDir)"

definition GetHostDir :: "string \<Rightarrow> Context \<Rightarrow> string" where
  "GetHostDir hostname c = filepath_Join [GetClusterWorkDir c, hostname]"

end
