(* ===== verification/Builder.thy ===== *)
theory Builder
  imports Runtime
begin

text \<open>
  The construction of a runtime context (\<^verbatim>\<open>runtime/builder.go\<close>): with connections to all hosts, which
  are opened in parallel, and without (\<^verbatim>\<open>skipHostConnect\<close>), as the commands for downloads, backups,
  restores, health checks, reconfiguration and registries use it.

  Configuration parsing, the detection of the own address, dialling and the gathering of facts are
  arguments. The order in which parallel initialisations finish is the order of a list.
\<close>

section \<open>Configuration\<close>

text \<open>The fields of the cluster configuration that the builder reads.\<close>

record GlobalSpec =
  gs_User :: string
  gs_Password :: string
  gs_Port :: goint
  gs_PrivateKey :: string
  gs_PrivateKeyPath :: string
  gs_WorkDir :: string
  gs_Verbose :: bool
  gs_IgnoreErr :: bool
  gs_ConnectionTimeout :: duration
  gs_OfflineMode :: bool

record ClusterConfig =
  cl_Name :: string
  cl_Global :: GlobalSpec
  cl_Hosts :: "HostSpec list"

definition SetDefaults_HostSpec :: "ClusterConfig \<Rightarrow> HostSpec \<Rightarrow> HostSpec" where
  "SetDefaults_HostSpec cl s =
     (let g = cl_Global cl;
          s1 = (if hs_User s = [] \<and> gs_User g \<noteq> [] then s\<lparr>hs_User := gs_User g\<rparr> else s);
          s2 = (if hs_Password s1 = [] \<and> gs_Password g \<noteq> [] then s1\<lparr>hs_Password := gs_Password g\<rparr> else s1);
          s3 = (if hs_Port s2 = 0 \<and> gs_Port g \<noteq> 0 then s2\<lparr>hs_Port := gs_Port g\<rparr>
                else if hs_Port s2 = 0 \<and> gs_Port g = 0 then s2\<lparr>hs_Port := 22\<rparr> else s2);
          s4 = (if hs_PrivateKey s3 = [] \<and> gs_PrivateKey g \<noteq> [] then s3\<lparr>hs_PrivateKey := gs_PrivateKey g\<rparr> else s3);
          s5 = (if hs_PrivateKeyPath s4 = [] \<and> gs_PrivateKeyPath g \<noteq> [] then s4\<lparr>hs_PrivateKeyPath := gs_PrivateKeyPath g\<rparr> else s4)
      in if hs_Arch s5 = [] then s5\<lparr>hs_Arch := ''amd64''\<rparr> else s5)"

record Builder =
  bd_configFilepath :: string
  bd_clusterConfig :: "ClusterConfig option"
  bd_runIDOverride :: string
  bd_skipHostConnect :: bool
  bd_controlConnector :: "nat option"
  bd_skipConfigValidation :: bool

definition NewBuilder :: "string \<Rightarrow> Builder" where
  "NewBuilder path = \<lparr>bd_configFilepath = path, bd_clusterConfig = None, bd_runIDOverride = [], bd_skipHostConnect = False,
     bd_controlConnector = None, bd_skipConfigValidation = False\<rparr>"

definition NewBuilderFromConfig :: "ClusterConfig \<Rightarrow> Builder" where
  "NewBuilderFromConfig cfg = \<lparr>bd_configFilepath = [], bd_clusterConfig = Some cfg, bd_runIDOverride = [], bd_skipHostConnect = False,
     bd_controlConnector = None, bd_skipConfigValidation = False\<rparr>"

definition WithRunID :: "string \<Rightarrow> Builder \<Rightarrow> Builder" where
  "WithRunID runID b = (if runID \<noteq> [] then b\<lparr>bd_runIDOverride := runID\<rparr> else b)"

definition WithSkipHostConnect :: "bool \<Rightarrow> Builder \<Rightarrow> Builder" where
  "WithSkipHostConnect skip b = b\<lparr>bd_skipHostConnect := skip\<rparr>"

definition WithControlConnector :: "nat \<Rightarrow> Builder \<Rightarrow> Builder" where
  "WithControlConnector conn b = b\<lparr>bd_controlConnector := Some conn\<rparr>"

definition WithSkipConfigValidation :: "bool \<Rightarrow> Builder \<Rightarrow> Builder" where
  "WithSkipConfigValidation skip b = b\<lparr>bd_skipConfigValidation := skip\<rparr>"

section \<open>The environment\<close>

text \<open>
  \<open>be_Prepare\<close> applies defaults and validates a given configuration, \<open>be_Parse\<close> reads a file; both answer
  with an error or a configuration. \<open>be_Connector\<close> is the connector created for a host, \<open>be_Connect\<close>
  the answer of \<^verbatim>\<open>Connect\<close> with the connection settings, \<open>be_Facts\<close> that of \<^verbatim>\<open>GatherFacts\<close>.
\<close>

record build_env =
  be_Prepare :: "ClusterConfig \<Rightarrow> goerr + ClusterConfig"
  be_Parse :: "string \<Rightarrow> goerr + ClusterConfig"
  be_PrimaryIP :: "goerr + string"
  be_UUID :: string
  be_Now :: gotime
  be_Connector :: "string \<Rightarrow> nat"
  be_Connect :: "nat \<Rightarrow> ConnectionCfg \<Rightarrow> goerr option"
  be_Facts :: "nat \<Rightarrow> goerr + nat"

datatype build_error =
    ConfigInvalid goerr | ConfigUnreadable goerr | NoConfiguration
  | PrimaryIPUnknown goerr
  | ConnectorFailed string connector_error | ConnectionFailed string goerr | FactsFailed string goerr
  | ConnectionCfgFailed connector_error
  | ControlNodeMissing

datatype 'a build = Built 'a | BuildFails build_error | BuildPanics

definition getOrParseConfig :: "build_env \<Rightarrow> Builder \<Rightarrow> ClusterConfig build" where
  "getOrParseConfig env b =
     (case bd_clusterConfig b of
        Some cfg \<Rightarrow>
          if bd_skipConfigValidation b then Built cfg
          else (case be_Prepare env cfg of Inl e \<Rightarrow> BuildFails (ConfigInvalid e) | Inr cfg' \<Rightarrow> Built cfg')
      | None \<Rightarrow>
          if bd_configFilepath b \<noteq> []
          then (case be_Parse env (bd_configFilepath b) of Inl e \<Rightarrow> BuildFails (ConfigUnreadable e) | Inr cfg \<Rightarrow> Built cfg)
          else BuildFails NoConfiguration)"

definition ControlNodeRole :: string where
  "ControlNodeRole = ''controlNode''"

definition ControlNodeHostName :: string where
  "ControlNodeHostName = ''kubexm-control-node''"

definition buildControlNodeSpec :: "build_env \<Rightarrow> Builder \<Rightarrow> HostSpec build" where
  "buildControlNodeSpec env b =
     (case be_PrimaryIP env of
        Inl e \<Rightarrow> BuildFails (PrimaryIPUnknown e)
      | Inr ip \<Rightarrow>
          (let spec = zero_HostSpec\<lparr>hs_Name := ControlNodeHostName, hs_Address := ip, hs_Roles := [ControlNodeRole],
                 hs_RoleTable := [(ControlNodeRole, True)]\<rparr>
           in Built (case bd_clusterConfig b of None \<Rightarrow> spec | Some cl \<Rightarrow> SetDefaults_HostSpec cl spec)))"

section \<open>Initialising hosts\<close>

text \<open>
  The global timeout is read from the configuration given to the builder; without one (a builder made
  from a file path) that is a nil dereference.
\<close>

definition initializeSingleHost :: "build_env \<Rightarrow> Builder \<Rightarrow> HostSpec \<Rightarrow> HostRuntimeInfo build" where
  "initializeSingleHost env b hostCfg =
     (let host = NewHostFromSpec hostCfg; conn = be_Connector env (GetName host) in
      case NewConnectorForHost host of
        Some e \<Rightarrow> BuildFails (ConnectorFailed (GetName host) e)
      | None \<Rightarrow>
          (case bd_clusterConfig b of
             None \<Rightarrow> BuildPanics
           | Some cl \<Rightarrow>
               (case NewConnectionCfg host (gs_ConnectionTimeout (cl_Global cl)) of
                  Inl e \<Rightarrow> BuildFails (ConnectionCfgFailed e)
                | Inr connCfg \<Rightarrow>
                    (case be_Connect env conn connCfg of
                       Some e \<Rightarrow> BuildFails (ConnectionFailed (hs_Name hostCfg) e)
                     | None \<Rightarrow>
                         (case be_Facts env conn of
                            Inl e \<Rightarrow> BuildFails (FactsFailed (hs_Name hostCfg) e)
                          | Inr facts \<Rightarrow> Built \<lparr>hri_Host = Some host, hri_Conn = Some conn, hri_Facts = Some facts\<rparr>)))))"

definition host_map :: "Context \<Rightarrow> (string, HostRuntimeInfo) gomap" where
  "host_map c = (case cx_hostInfoMap c of None \<Rightarrow> [] | Some m \<Rightarrow> m)"

definition add_host :: "connector_Host \<Rightarrow> HostRuntimeInfo \<Rightarrow> Context \<Rightarrow> Context" where
  "add_host host hri c =
     (let c' = c\<lparr>cx_hostInfoMap := Some (gm_put (GetName host) hri (host_map c))\<rparr>
      in if IsRole host ControlNodeRole then c'\<lparr>cx_controlNode := Some host\<rparr> else c')"

text \<open>\<open>specs\<close> are the control node and the configured hosts in the order in which they finish.\<close>

fun initialize_each :: "build_env \<Rightarrow> Builder \<Rightarrow> HostSpec list \<Rightarrow> Context \<Rightarrow> Context build" where
  "initialize_each env b [] c = Built c"
| "initialize_each env b (s # specs) c =
     (case initializeSingleHost env b s of
        BuildFails e \<Rightarrow> BuildFails e
      | BuildPanics \<Rightarrow> BuildPanics
      | Built hri \<Rightarrow>
          (case hri_Host hri of
             None \<Rightarrow> BuildPanics
           | Some host \<Rightarrow> initialize_each env b specs (add_host host hri c)))"

definition initializeAllHosts :: "build_env \<Rightarrow> Builder \<Rightarrow> HostSpec list \<Rightarrow> Context \<Rightarrow> Context build" where
  "initializeAllHosts env b specs c =
     (case initialize_each env b specs c of
        Built c' \<Rightarrow> if cx_controlNode c' = None then BuildFails ControlNodeMissing else Built c'
      | r \<Rightarrow> r)"

text \<open>
  Without connections: the entry of the control node gets a connector but no host, the entries of
  the other hosts a host but no connector.
\<close>

definition initializeHostsWithoutConnect :: "build_env \<Rightarrow> Builder \<Rightarrow> ClusterConfig \<Rightarrow> Context \<Rightarrow> Context build" where
  "initializeHostsWithoutConnect env b cfg c =
     (case buildControlNodeSpec env b of
        BuildFails e \<Rightarrow> BuildFails e
      | BuildPanics \<Rightarrow> BuildPanics
      | Built spec \<Rightarrow>
          (let controlHost = NewHostFromSpec spec in
           case (case bd_controlConnector b of
                   Some k \<Rightarrow> Inr k
                 | None \<Rightarrow> (case NewConnectorForHost controlHost of Some e \<Rightarrow> Inl e | None \<Rightarrow> Inr (be_Connector env (GetName controlHost)))) of
             Inl e \<Rightarrow> BuildFails (ConnectorFailed (GetName controlHost) e)
           | Inr controlConn \<Rightarrow>
               (case bd_clusterConfig b of
                  None \<Rightarrow> BuildPanics
                | Some cl \<Rightarrow>
                    (case NewConnectionCfg controlHost (gs_ConnectionTimeout (cl_Global cl)) of
                       Inl e \<Rightarrow> BuildFails (ConnectionCfgFailed e)
                     | Inr connCfg \<Rightarrow>
                         (case be_Connect env controlConn connCfg of
                            Some e \<Rightarrow> BuildFails (ConnectionFailed (GetName controlHost) e)
                          | None \<Rightarrow>
                              Built (c\<lparr>cx_hostInfoMap := Some
                                   (fold (\<lambda>s m. gm_put (hs_Name s) \<lparr>hri_Host = Some (NewHostFromSpec s), hri_Conn = None, hri_Facts = None\<rparr> m)
                                      (cl_Hosts cfg)
                                      (gm_put (GetName controlHost) \<lparr>hri_Host = None, hri_Conn = Some controlConn, hri_Facts = None\<rparr> (host_map c))),
                                 cx_controlNode := Some controlHost\<rparr>))))))"

section \<open>Build\<close>

definition fresh_context :: "build_env \<Rightarrow> Builder \<Rightarrow> ClusterConfig \<Rightarrow> bags \<Rightarrow> caches \<Rightarrow> Context \<times> bags \<times> caches" where
  "fresh_context env b cfg bags caches =
     (let (pc, h1) = NewPipelineCache caches; (mc, h2) = NewModuleCache pc h1; (tc, h3) = NewTaskCache mc h2; (sc, h4) = NewStepCache tc h3;
          (gb, b1) = NewStateBag bags; (pb, b2) = NewStateBag b1; (mb, b3) = NewStateBag b2; (tb, b4) = NewStateBag b3
      in (\<lparr>cx_GoCtx = None, cx_ClusterName = Some (cl_Name cfg), cx_GlobalWorkDir = gs_WorkDir (cl_Global cfg),
           cx_GlobalVerbose = gs_Verbose (cl_Global cfg), cx_GlobalIgnoreErr = gs_IgnoreErr (cl_Global cfg),
           cx_GlobalConnectionTimeout = gs_ConnectionTimeout (cl_Global cfg), cx_GlobalOfflineMode = gs_OfflineMode (cl_Global cfg),
           cx_PipelineCache = pc, cx_ModuleCache = mc, cx_TaskCache = tc, cx_StepCache = sc,
           cx_hostInfoMap = Some [], cx_controlNode = None, cx_currentHost = None, cx_stepExecutionID = [],
           cx_executionStartTime = be_Now env, cx_GlobalState = Some gb, cx_PipelineState = Some pb, cx_ModuleState = Some mb,
           cx_TaskState = Some tb, cx_currentPipelineName = [], cx_currentModuleName = [], cx_currentTaskName = [],
           cx_RunID = (if bd_runIDOverride b \<noteq> [] then bd_runIDOverride b else be_UUID env), cx_cancelFn = False\<rparr>, b4, h4))"

text \<open>
  \<open>order\<close> permutes the hosts into the order in which they finish. A control node that is still
  missing at the end is looked up by its role.
\<close>

text \<open>Defaults are set in place: a configuration given to the builder is the prepared one afterwards.\<close>

definition prepared :: "Builder \<Rightarrow> ClusterConfig \<Rightarrow> Builder" where
  "prepared b cfg = (if bd_clusterConfig b = None then b else b\<lparr>bd_clusterConfig := Some cfg\<rparr>)"

definition Build :: "build_env \<Rightarrow> (HostSpec list \<Rightarrow> HostSpec list) \<Rightarrow> Builder \<Rightarrow> bags \<Rightarrow> caches \<Rightarrow> (Context \<times> bags \<times> caches) build" where
  "Build env order b bags caches =
     (case getOrParseConfig env b of
        BuildFails e \<Rightarrow> BuildFails e
      | BuildPanics \<Rightarrow> BuildPanics
      | Built cfg \<Rightarrow>
          (case fresh_context env b cfg bags caches of
             (c, bags', caches') \<Rightarrow>
               (case (if bd_skipHostConnect b then initializeHostsWithoutConnect env (prepared b cfg) cfg c
                      else case buildControlNodeSpec env (prepared b cfg) of
                        BuildFails e \<Rightarrow> BuildFails e
                      | BuildPanics \<Rightarrow> BuildPanics
                      | Built spec \<Rightarrow> initializeAllHosts env (prepared b cfg) (order (spec # cl_Hosts cfg)) c) of
                  BuildFails e \<Rightarrow> BuildFails e
                | BuildPanics \<Rightarrow> BuildPanics
                | Built c' \<Rightarrow>
                    if cx_controlNode c' = None then
                      (case GetHostsByRole ControlNodeRole c' of
                         Inl e \<Rightarrow> BuildPanics
                       | Inr (hst # _) \<Rightarrow> Built (c'\<lparr>cx_controlNode := hst\<rparr>, bags', caches')
                       | Inr [] \<Rightarrow> Built (c', bags', caches'))
                    else Built (c', bags', caches'))))"

section \<open>Contexts without connections\<close>

lemma hosts_with_role_nil: "hri \<in> set hris \<Longrightarrow> hri_Host hri = None \<Longrightarrow> \<exists>e. hosts_with_role role hris = Inl e"
  by (induction hris) (auto split: option.splits sum.splits)

lemma fold_put_hosts_get:
  "k \<notin> hs_Name ` set hosts \<Longrightarrow> gm_get (fold (\<lambda>s m. gm_put (hs_Name s) (f s) m) hosts m) k = gm_get m k"
  by (induction hosts arbitrary: m) auto

lemma SetDefaults_HostSpec_keeps:
  "hs_Name (SetDefaults_HostSpec cl s) = hs_Name s" "hs_Roles (SetDefaults_HostSpec cl s) = hs_Roles s"
  "hs_RoleTable (SetDefaults_HostSpec cl s) = hs_RoleTable s" "hs_Address (SetDefaults_HostSpec cl s) = hs_Address s"
  by (simp_all add: SetDefaults_HostSpec_def Let_def)

lemma control_spec:
  assumes "buildControlNodeSpec env b = Built spec"
  shows "hs_Name spec = ControlNodeHostName \<and> hs_Roles spec = [ControlNodeRole] \<and> hs_RoleTable spec = [(ControlNodeRole, True)]"
  using assms by (auto simp: buildControlNodeSpec_def Let_def SetDefaults_HostSpec_keeps split: sum.splits option.splits)

lemma without_connect_entry:
  assumes "initializeHostsWithoutConnect env b cfg c = Built c'" "ControlNodeHostName \<notin> hs_Name ` set (cl_Hosts cfg)"
  shows "\<exists>m k. cx_hostInfoMap c' = Some m \<and> gm_get m ControlNodeHostName = Some \<lparr>hri_Host = None, hri_Conn = Some k, hri_Facts = None\<rparr> \<and>
    cx_controlNode c' \<noteq> None"
proof -
  from assms(1) obtain spec where sp: "buildControlNodeSpec env b = Built spec"
    by (auto simp: initializeHostsWithoutConnect_def split: build.splits)
  then have "GetName (NewHostFromSpec spec) = ControlNodeHostName"
    using control_spec[OF sp] by (simp add: GetName_def NewHostFromSpec_def)
  with assms sp show ?thesis
    by (auto simp: initializeHostsWithoutConnect_def Let_def fold_put_hosts_get split: build.splits sum.splits option.splits)
qed

lemma without_connect_panics:
  assumes "initializeHostsWithoutConnect env b cfg c = Built c'" "ControlNodeHostName \<notin> hs_Name ` set (cl_Hosts cfg)" "role \<noteq> []"
  shows "\<exists>e. GetHostsByRole role c' = Inl e"
proof -
  from without_connect_entry[OF assms(1,2)] obtain m k where
    m: "cx_hostInfoMap c' = Some m" "gm_get m ControlNodeHostName = Some \<lparr>hri_Host = None, hri_Conn = Some k, hri_Facts = None\<rparr>"
    by blast
  from gm_get_in_set[OF m(2)] have "\<lparr>hri_Host = None, hri_Conn = Some k, hri_Facts = None\<rparr> \<in> set (map snd m)" by force
  from hosts_with_role_nil[OF this] m(1) assms(3) show ?thesis by (simp add: GetHostsByRole_def)
qed

lemma Build_without_connect:
  assumes "Build env order b bags caches = Built (c, bags', caches')" "bd_skipHostConnect b" "getOrParseConfig env b = Built cfg"
  shows "\<exists>c0. initializeHostsWithoutConnect env (prepared b cfg) cfg c0 = Built c \<or>
    (\<exists>c1. initializeHostsWithoutConnect env (prepared b cfg) cfg c0 = Built c1 \<and> cx_controlNode c1 = None)"
  using assms by (auto simp: Build_def split: prod.splits build.splits if_splits)

lemma skipped_connect_panics:
  assumes "Build env order b bags caches = Built (c, bags', caches')" "bd_skipHostConnect b" "getOrParseConfig env b = Built cfg"
    and "ControlNodeHostName \<notin> hs_Name ` set (cl_Hosts cfg)" "role \<noteq> []"
  shows "\<exists>e. GetHostsByRole role c = Inl e"
proof -
  from Build_without_connect[OF assms(1-3)] obtain c0 where
    "initializeHostsWithoutConnect env (prepared b cfg) cfg c0 = Built c \<or>
     (\<exists>c1. initializeHostsWithoutConnect env (prepared b cfg) cfg c0 = Built c1 \<and> cx_controlNode c1 = None)" by blast
  then have "initializeHostsWithoutConnect env (prepared b cfg) cfg c0 = Built c"
    using without_connect_entry[OF _ assms(4)] by blast
  from without_connect_panics[OF this assms(4,5)] show ?thesis .
qed

text \<open>a context built without connections has an entry for the control node that lacks its
  host, so every query for the hosts of a role panics, whatever the configuration, unless a
  configured host has the reserved name of the control node.\<close>

theorem Build_without_connect_panics:
  assumes "Build env order b bags caches = Built (c, bags', caches')" "bd_skipHostConnect b" "getOrParseConfig env b = Built cfg"
    and "ControlNodeHostName \<notin> hs_Name ` set (cl_Hosts cfg)" "role \<noteq> []"
  shows "\<exists>e. GetHostsByRole role c = Inl e"
  by (rule skipped_connect_panics[OF assms])

definition example_env :: build_env where
  "example_env = \<lparr>be_Prepare = Inr, be_Parse = (\<lambda>_. Inl ''no file''), be_PrimaryIP = Inr ''10.0.0.9'', be_UUID = ''run-1'',
     be_Now = 7, be_Connector = length, be_Connect = (\<lambda>_ _. None), be_Facts = (\<lambda>k. Inr k)\<rparr>"

definition example_host :: "string \<Rightarrow> string \<Rightarrow> HostSpec" where
  "example_host name role = zero_HostSpec\<lparr>hs_Name := name, hs_Address := ''10.0.0.'' @ name, hs_Roles := [role], hs_RoleTable := [(role, True)]\<rparr>"

definition example_cluster :: ClusterConfig where
  "example_cluster = \<lparr>cl_Name = ''prod'', cl_Global = \<lparr>gs_User = ''root'', gs_Password = [], gs_Port = 0, gs_PrivateKey = [], gs_PrivateKeyPath = [],
      gs_WorkDir = ''/work'', gs_Verbose = False, gs_IgnoreErr = False, gs_ConnectionTimeout = 0, gs_OfflineMode = False\<rparr>,
     cl_Hosts = [example_host ''m1'' ''master'', example_host ''w1'' ''worker'']\<rparr>"

theorem Build_without_connect_panics_witness:
  "\<exists>c bags' caches'. Build example_env (\<lambda>xs. xs) (WithSkipHostConnect True (NewBuilderFromConfig example_cluster)) [] [] = Built (c, bags', caches') \<and>
     (\<exists>e. GetHostsByRole ''master'' c = Inl e)"
proof -
  let ?b = "WithSkipHostConnect True (NewBuilderFromConfig example_cluster)"
  have "case Build example_env (\<lambda>xs. xs) ?b [] [] of Built _ \<Rightarrow> True | _ \<Rightarrow> False" by code_simp
  then obtain c bags' caches' where b: "Build example_env (\<lambda>xs. xs) ?b [] [] = Built (c, bags', caches')"
    by (auto split: build.splits)
  have "getOrParseConfig example_env ?b = Built example_cluster"
    by (simp add: getOrParseConfig_def WithSkipHostConnect_def NewBuilderFromConfig_def example_env_def)
  from Build_without_connect_panics[OF b _ this, of "''master''"] b show ?thesis
    by (auto simp: WithSkipHostConnect_def example_cluster_def example_host_def ControlNodeHostName_def zero_HostSpec_def)
qed

section \<open>Contexts with connections\<close>

lemma initializeSingleHost_Built:
  assumes "initializeSingleHost env b s = Built hri"
  shows "hri_Host hri = Some (hostImpl s)" "hri_Conn hri \<noteq> None" "hri_Facts hri \<noteq> None"
  using assms by (auto simp: initializeSingleHost_def Let_def NewHostFromSpec_def split: option.splits sum.splits)

lemma host_map_add_host [simp]: "host_map (add_host host hri c) = gm_put (GetName host) hri (host_map c)"
  by (simp add: add_host_def host_map_def Let_def)

lemma GetName_hostImpl [simp]: "GetName (hostImpl s) = hs_Name s"
  by (simp add: GetName_def)

lemma initialize_each_map:
  assumes "initialize_each env b specs c = Built c'" "distinct (map hs_Name specs)"
    and "set (map hs_Name specs) \<inter> set (gm_keys (host_map c)) = {}"
  shows "\<exists>info. host_map c' = host_map c @ map (\<lambda>s. (hs_Name s, info s)) specs \<and>
    (\<forall>s\<in>set specs. hri_Host (info s) = Some (hostImpl s) \<and> hri_Conn (info s) \<noteq> None \<and> hri_Facts (info s) \<noteq> None)"
  using assms
proof (induction specs arbitrary: c)
  case (Cons s specs)
  from Cons.prems(1) obtain hri where hri: "initializeSingleHost env b s = Built hri"
    and rest: "initialize_each env b specs (add_host (hostImpl s) hri c) = Built c'"
    by (auto split: build.splits option.splits dest!: initializeSingleHost_Built(1))
  have put: "gm_put (hs_Name s) hri (host_map c) = host_map c @ [(hs_Name s, hri)]"
    using Cons.prems(3) by (intro gm_put_fresh) auto
  from Cons.IH[OF rest] Cons.prems(2,3) obtain info where
    info: "host_map c' = host_map c @ (hs_Name s, hri) # map (\<lambda>s. (hs_Name s, info s)) specs"
    "\<forall>s\<in>set specs. hri_Host (info s) = Some (hostImpl s) \<and> hri_Conn (info s) \<noteq> None \<and> hri_Facts (info s) \<noteq> None"
    by (auto simp: put)
  have "s \<notin> set specs" using Cons.prems(2) by auto
  then have "map (\<lambda>x. (hs_Name x, (info(s := hri)) x)) specs = map (\<lambda>s. (hs_Name s, info s)) specs" by auto
  with info initializeSingleHost_Built[OF hri] \<open>s \<notin> set specs\<close> show ?case
    by (intro exI[of _ "info(s := hri)"]) auto
qed auto

lemma hosts_with_role_filter:
  "\<forall>s\<in>set specs. hri_Host (info s) = Some (hostImpl s) \<Longrightarrow>
   hosts_with_role role (map info specs) = Inr (map (\<lambda>s. Some (hostImpl s)) (filter (\<lambda>s. role \<in> set (hs_Roles s)) specs))"
  by (induction specs) (auto simp: GetRoles_def)

lemma initialize_each_keeps:
  "initialize_each env b specs c = Built c' \<Longrightarrow> cx_hostInfoMap c \<noteq> None \<Longrightarrow> cx_hostInfoMap c' \<noteq> None"
  by (induction specs arbitrary: c) (auto simp: add_host_def Let_def split: build.splits option.splits)

lemma initialize_each_control:
  assumes "initialize_each env b specs c = Built c'"
    and "\<forall>s\<in>set specs. IsRole (hostImpl s) ControlNodeRole \<longrightarrow> s = spec" "IsRole (hostImpl spec) ControlNodeRole"
    and "spec \<in> set specs \<or> cx_controlNode c = Some (hostImpl spec)"
  shows "cx_controlNode c' = Some (hostImpl spec)"
  using assms
proof (induction specs arbitrary: c)
  case (Cons s specs)
  from Cons.prems(1) obtain hri where rest: "initialize_each env b specs (add_host (hostImpl s) hri c) = Built c'"
    by (auto split: build.splits option.splits dest!: initializeSingleHost_Built(1))
  from Cons.IH[OF rest] Cons.prems(2-4) show ?case
    by (cases "IsRole (hostImpl s) ControlNodeRole") (auto simp: add_host_def Let_def)
qed simp

lemma built_hosts:
  assumes "Build env order b bags caches = Built (c, bags', caches')" "\<not> bd_skipHostConnect b" "getOrParseConfig env b = Built cfg"
    and "distinct (ControlNodeHostName # map hs_Name (cl_Hosts cfg))" "\<And>xs. mset (order xs) = mset xs"
    and "\<forall>s\<in>set (cl_Hosts cfg). \<not> IsRole (hostImpl s) ControlNodeRole"
  shows "\<exists>spec hosts. hs_Name spec = ControlNodeHostName \<and> hs_Roles spec = [ControlNodeRole] \<and> mset hosts = mset (spec # cl_Hosts cfg) \<and>
    cx_controlNode c = Some (hostImpl spec) \<and>
    (\<forall>role. role \<noteq> [] \<longrightarrow> GetHostsByRole role c = Inr (map (\<lambda>s. Some (hostImpl s)) (filter (\<lambda>s. role \<in> set (hs_Roles s)) hosts))) \<and>
    (\<forall>s\<in>set hosts. (\<exists>f. GetHostFacts (Some (hostImpl s)) c = Inr f) \<and>
       (\<exists>k. GetCurrentHostConnector (ForHost c (Some (hostImpl s))) = Inr k))"
proof -
  obtain c0 bags0 caches0 where fc: "fresh_context env b cfg bags caches = (c0, bags0, caches0)"
    using prod_cases3 by blast
  then have c0: "host_map c0 = []" "cx_hostInfoMap c0 = Some []"
    by (auto simp: fresh_context_def host_map_def split: prod.splits)
  let ?b = "prepared b cfg"
  from assms(1-3) fc obtain spec where spec: "buildControlNodeSpec env ?b = Built spec"
    by (auto simp: Build_def split: build.splits)
  define hosts where "hosts = order (spec # cl_Hosts cfg)"
  have ms: "mset hosts = mset (spec # cl_Hosts cfg)" by (simp add: hosts_def assms(5))
  note sp = control_spec[OF spec]
  have "mset (map hs_Name hosts) = mset (ControlNodeHostName # map hs_Name (cl_Hosts cfg))" using ms sp by simp
  then have dist: "distinct (map hs_Name hosts)" using assms(4) mset_eq_imp_distinct_iff by blast
  have set_hosts: "set hosts = insert spec (set (cl_Hosts cfg))" using mset_eq_setD[OF ms] by simp
  have role: "IsRole (hostImpl spec) ControlNodeRole" using sp by (simp add: IsRole_def)
  have each: "\<exists>c1. initialize_each env ?b hosts c0 = Built c1 \<and> (cx_controlNode c1 \<noteq> None \<longrightarrow> c = c1)"
    using assms(1-3) fc spec unfolding hosts_def
    by (auto simp: Build_def initializeAllHosts_def split: build.splits if_splits)
  then obtain c1 where c1: "initialize_each env ?b hosts c0 = Built c1" "cx_controlNode c1 \<noteq> None \<longrightarrow> c = c1" by blast
  have ctl: "cx_controlNode c1 = Some (hostImpl spec)"
    using assms(6) set_hosts role by (intro initialize_each_control[OF c1(1)]) auto
  with c1(2) have c: "c = c1" by simp
  from initialize_each_map[OF c1(1) dist] c0 obtain info where
    info: "host_map c1 = map (\<lambda>s. (hs_Name s, info s)) hosts"
      "\<forall>s\<in>set hosts. hri_Host (info s) = Some (hostImpl s) \<and> hri_Conn (info s) \<noteq> None \<and> hri_Facts (info s) \<noteq> None"
    by auto
  then have m: "cx_hostInfoMap c1 = Some (map (\<lambda>s. (hs_Name s, info s)) hosts)"
    using initialize_each_keeps[OF c1(1)] c0 by (auto simp: host_map_def)
  have look: "gm_get (map (\<lambda>s. (hs_Name s, info s)) hosts) (hs_Name s) = Some (info s)" if "s \<in> set hosts" for s
    using that dist by (intro map_of_is_SomeI) (auto simp: comp_def)
  have "GetHostsByRole r c = Inr (map (\<lambda>s. Some (hostImpl s)) (filter (\<lambda>s. r \<in> set (hs_Roles s)) hosts))" if "r \<noteq> []" for r
    using that m info(2) hosts_with_role_filter[of hosts info r] by (simp add: GetHostsByRole_def c comp_def)
  moreover have "(\<exists>f. GetHostFacts (Some (hostImpl s)) c = Inr f) \<and> (\<exists>k. GetCurrentHostConnector (ForHost c (Some (hostImpl s))) = Inr k)"
    if "s \<in> set hosts" for s
    using look[OF that] info(2) that m by (fastforce simp: GetHostFacts_def GetCurrentHostConnector_def ForHost_def c)
  ultimately show ?thesis using ctl ms sp c by blast
qed

text \<open>C27: a context built with connections knows the control node and every configured host, in
  whatever order the parallel initialisations finish: a query for a role returns exactly the hosts
  that have it, once each, every host has a connector and facts, and the control node is set.\<close>

theorem Build_hosts:
  assumes "Build env order b bags caches = Built (c, bags', caches')" "\<not> bd_skipHostConnect b" "getOrParseConfig env b = Built cfg"
    and "distinct (ControlNodeHostName # map hs_Name (cl_Hosts cfg))" "\<And>xs. mset (order xs) = mset xs"
    and "\<forall>s\<in>set (cl_Hosts cfg). \<not> IsRole (hostImpl s) ControlNodeRole"
  shows "\<exists>spec hosts. hs_Name spec = ControlNodeHostName \<and> hs_Roles spec = [ControlNodeRole] \<and> mset hosts = mset (spec # cl_Hosts cfg) \<and>
    cx_controlNode c = Some (hostImpl spec) \<and>
    (\<forall>role. role \<noteq> [] \<longrightarrow> GetHostsByRole role c = Inr (map (\<lambda>s. Some (hostImpl s)) (filter (\<lambda>s. role \<in> set (hs_Roles s)) hosts))) \<and>
    (\<forall>s\<in>set hosts. (\<exists>f. GetHostFacts (Some (hostImpl s)) c = Inr f) \<and>
       (\<exists>k. GetCurrentHostConnector (ForHost c (Some (hostImpl s))) = Inr k))"
  by (rule built_hosts[OF assms])

theorem Build_hosts_witness:
  "\<exists>c bags' caches'. Build example_env rev (NewBuilderFromConfig example_cluster) [] [] = Built (c, bags', caches') \<and>
     GetHostsByRole ''master'' c = Inr [Some (hostImpl (example_host ''m1'' ''master''))]"
proof -
  let ?b = "NewBuilderFromConfig example_cluster"
  have "case Build example_env rev ?b [] [] of Built (c, _) \<Rightarrow> GetHostsByRole ''master'' c = Inr [Some (hostImpl (example_host ''m1'' ''master''))] | _ \<Rightarrow> False"
    by code_simp
  then obtain c bags' caches' where b: "Build example_env rev ?b [] [] = Built (c, bags', caches')"
    and m: "GetHostsByRole ''master'' c = Inr [Some (hostImpl (example_host ''m1'' ''master''))]"
    by (auto split: build.splits)
  have "getOrParseConfig example_env ?b = Built example_cluster"
    by (simp add: getOrParseConfig_def NewBuilderFromConfig_def example_env_def)
  from Build_hosts[OF b _ this] have "cx_controlNode c \<noteq> None"
    by (auto simp: NewBuilderFromConfig_def example_cluster_def example_host_def ControlNodeHostName_def zero_HostSpec_def IsRole_def ControlNodeRole_def)
  with b m show ?thesis by blast
qed

end
