(* ===== verification/DataFlow.thy ===== *)
theory DataFlow
  imports Builder
begin

text \<open>
  How steps hand data to each other (\<^verbatim>\<open>runtime/data_bus.go\<close>, \<^verbatim>\<open>data_flow.go\<close>, \<^verbatim>\<open>data_bus_v2.go\<close>): the simple data
  bus over \<^verbatim>\<open>Export\<close> and \<^verbatim>\<open>Import\<close>, the data manager over the state bag of the task with its publishers
  and subscribers, and the data bus with channels.
\<close>

section \<open>Keys\<close>

definition BuildKey :: "Context \<Rightarrow> string \<Rightarrow> string" where
  "BuildKey c key = strings_Join [cx_RunID c, cx_currentPipelineName c, cx_currentModuleName c, cx_currentTaskName c, key] ''.''"

section \<open>The simple data bus\<close>

definition SimpleDataBus_Publish :: "string \<Rightarrow> string \<Rightarrow> goval \<Rightarrow> Context \<Rightarrow> bags \<Rightarrow> export_error option \<times> bags" where
  "SimpleDataBus_Publish scope key value c h = Export scope (BuildKey c key) value c h"

definition SimpleDataBus_PublishWithTTL :: "string \<Rightarrow> string \<Rightarrow> goval \<Rightarrow> goint \<Rightarrow> Context \<Rightarrow> bags \<Rightarrow> export_error option \<times> bags" where
  "SimpleDataBus_PublishWithTTL scope key value ttl c h = SimpleDataBus_Publish scope key value c h"

definition SimpleDataBus_Subscribe :: "string \<Rightarrow> Context \<Rightarrow> bags \<Rightarrow> goval option" where
  "SimpleDataBus_Subscribe key c h = Import [] (BuildKey c key) c h"

definition SimpleDataBus_SubscribeFromScope :: "string \<Rightarrow> string \<Rightarrow> Context \<Rightarrow> bags \<Rightarrow> goval option" where
  "SimpleDataBus_SubscribeFromScope scope key c h = Import scope (BuildKey c key) c h"

definition SimpleDataBus_SubscribeString :: "string \<Rightarrow> Context \<Rightarrow> bags \<Rightarrow> string \<times> bool" where
  "SimpleDataBus_SubscribeString key c h = get_as [] as_string (SimpleDataBus_Subscribe key c h)"

definition SimpleDataBus_SubscribeInt :: "string \<Rightarrow> Context \<Rightarrow> bags \<Rightarrow> goint \<times> bool" where
  "SimpleDataBus_SubscribeInt key c h = get_as 0 as_int (SimpleDataBus_Subscribe key c h)"

definition SimpleDataBus_SubscribeBool :: "string \<Rightarrow> Context \<Rightarrow> bags \<Rightarrow> bool \<times> bool" where
  "SimpleDataBus_SubscribeBool key c h = get_as False as_bool (SimpleDataBus_Subscribe key c h)"

definition PublishKubeadmInitData :: "string \<Rightarrow> string \<Rightarrow> string \<Rightarrow> Context \<Rightarrow> bags \<Rightarrow> export_error option \<times> bags" where
  "PublishKubeadmInitData token certKey caCertHash c h =
     (case SimpleDataBus_Publish ''task'' ''kubeadm.init.token'' (VString token) c h of
        (Some e, h1) \<Rightarrow> (Some e, h1)
      | (None, h1) \<Rightarrow>
          (case SimpleDataBus_Publish ''task'' ''kubeadm.init.certkey'' (VString certKey) c h1 of
             (Some e, h2) \<Rightarrow> (Some e, h2)
           | (None, h2) \<Rightarrow> SimpleDataBus_Publish ''task'' ''kubeadm.init.cacerthash'' (VString caCertHash) c h2))"

definition SubscribeKubeadmInitToken :: "Context \<Rightarrow> bags \<Rightarrow> string \<times> bool" where
  "SubscribeKubeadmInitToken c h = SimpleDataBus_SubscribeString ''kubeadm.init.token'' c h"

definition SubscribeKubeadmInitCertKey :: "Context \<Rightarrow> bags \<Rightarrow> string \<times> bool" where
  "SubscribeKubeadmInitCertKey c h = SimpleDataBus_SubscribeString ''kubeadm.init.certkey'' c h"

definition SubscribeKubeadmInitCACertHash :: "Context \<Rightarrow> bags \<Rightarrow> string \<times> bool" where
  "SubscribeKubeadmInitCACertHash c h = SimpleDataBus_SubscribeString ''kubeadm.init.cacerthash'' c h"

section \<open>The data manager\<close>

text \<open>A data manager holds the state bag of the task; publishing into a nil bag panics.\<close>

datatype 'a dm = DM 'a | DMPanics

definition DataManager_Publish :: "string \<Rightarrow> goval \<Rightarrow> Context \<Rightarrow> bags \<Rightarrow> bags dm" where
  "DataManager_Publish key value c h =
     (case cx_TaskState c of None \<Rightarrow> DMPanics | Some b \<Rightarrow> DM (StateBag_Set (BuildKey c key) value b h))"

definition DataManager_Subscribe :: "string \<Rightarrow> Context \<Rightarrow> bags \<Rightarrow> goval option dm" where
  "DataManager_Subscribe key c h =
     (case cx_TaskState c of None \<Rightarrow> DMPanics | Some b \<Rightarrow> DM (StateBag_Get (BuildKey c key) b h))"

definition dm_map :: "('a \<Rightarrow> 'b) \<Rightarrow> 'a dm \<Rightarrow> 'b dm" where
  "dm_map f r = (case r of DM x \<Rightarrow> DM (f x) | DMPanics \<Rightarrow> DMPanics)"

definition DataManager_SubscribeString :: "string \<Rightarrow> Context \<Rightarrow> bags \<Rightarrow> (string \<times> bool) dm" where
  "DataManager_SubscribeString key c h = dm_map (get_as [] as_string) (DataManager_Subscribe key c h)"

definition DataManager_SubscribeInt :: "string \<Rightarrow> Context \<Rightarrow> bags \<Rightarrow> (goint \<times> bool) dm" where
  "DataManager_SubscribeInt key c h = dm_map (get_as 0 as_int) (DataManager_Subscribe key c h)"

definition DataManager_SubscribeBool :: "string \<Rightarrow> Context \<Rightarrow> bags \<Rightarrow> (bool \<times> bool) dm" where
  "DataManager_SubscribeBool key c h = dm_map (get_as False as_bool) (DataManager_Subscribe key c h)"

text \<open>
  The publishers store a struct, the subscribers assert a pointer to it; the functions of
  \<^verbatim>\<open>data_bus_v2.go\<close> store and assert the struct.
\<close>

fun as_ptr_init :: "goval \<Rightarrow> KubeadmInitData option" where
  "as_ptr_init (VPtrKubeadmInitData d) = Some d" | "as_ptr_init _ = None"

fun as_ptr_join :: "goval \<Rightarrow> KubeadmJoinData option" where
  "as_ptr_join (VPtrKubeadmJoinData d) = Some d" | "as_ptr_join _ = None"

fun as_ptr_etcd :: "goval \<Rightarrow> EtcdClusterData option" where
  "as_ptr_etcd (VPtrEtcdClusterData d) = Some d" | "as_ptr_etcd _ = None"

fun as_ptr_pki :: "goval \<Rightarrow> PKIInfo option" where
  "as_ptr_pki (VPtrPKIInfo d) = Some d" | "as_ptr_pki _ = None"

fun as_init :: "goval \<Rightarrow> KubeadmInitData option" where
  "as_init (VKubeadmInitData d) = Some d" | "as_init _ = None"

fun as_join :: "goval \<Rightarrow> KubeadmJoinData option" where
  "as_join (VKubeadmJoinData d) = Some d" | "as_join _ = None"

fun as_etcd :: "goval \<Rightarrow> EtcdClusterData option" where
  "as_etcd (VEtcdClusterData d) = Some d" | "as_etcd _ = None"

definition PublishInitData :: "KubeadmInitData \<Rightarrow> Context \<Rightarrow> bags \<Rightarrow> bags dm" where
  "PublishInitData data = DataManager_Publish ''kubeadm.init'' (VKubeadmInitData data)"

definition PublishJoinData :: "KubeadmJoinData \<Rightarrow> Context \<Rightarrow> bags \<Rightarrow> bags dm" where
  "PublishJoinData data = DataManager_Publish ''kubeadm.join'' (VKubeadmJoinData data)"

definition PublishClusterData :: "EtcdClusterData \<Rightarrow> Context \<Rightarrow> bags \<Rightarrow> bags dm" where
  "PublishClusterData data = DataManager_Publish ''etcd.cluster'' (VEtcdClusterData data)"

definition PublishPKIInfo :: "PKIInfo \<Rightarrow> Context \<Rightarrow> bags \<Rightarrow> bags dm" where
  "PublishPKIInfo data = DataManager_Publish ''pki.info'' (VPKIInfo data)"

definition subscribe_ptr :: "(goval \<Rightarrow> 'a option) \<Rightarrow> string \<Rightarrow> Context \<Rightarrow> bags \<Rightarrow> 'a option dm" where
  "subscribe_ptr as key c h = dm_map (\<lambda>r. case r of None \<Rightarrow> None | Some v \<Rightarrow> as v) (DataManager_Subscribe key c h)"

definition GetInitData :: "Context \<Rightarrow> bags \<Rightarrow> KubeadmInitData option dm" where
  "GetInitData = subscribe_ptr as_ptr_init ''kubeadm.init''"

definition GetJoinData :: "Context \<Rightarrow> bags \<Rightarrow> KubeadmJoinData option dm" where
  "GetJoinData = subscribe_ptr as_ptr_join ''kubeadm.join''"

definition GetClusterData :: "Context \<Rightarrow> bags \<Rightarrow> EtcdClusterData option dm" where
  "GetClusterData = subscribe_ptr as_ptr_etcd ''etcd.cluster''"

definition GetPKIInfo :: "Context \<Rightarrow> bags \<Rightarrow> PKIInfo option dm" where
  "GetPKIInfo = subscribe_ptr as_ptr_pki ''pki.info''"

datatype data_error = DataNotFound | InvalidDataType

definition must_get :: "(goval \<Rightarrow> 'a option) \<Rightarrow> string \<Rightarrow> Context \<Rightarrow> bags \<Rightarrow> (data_error + 'a) dm" where
  "must_get as key c h = dm_map (\<lambda>r. case r of None \<Rightarrow> Inl DataNotFound
      | Some v \<Rightarrow> (case as v of None \<Rightarrow> Inl InvalidDataType | Some d \<Rightarrow> Inr d)) (DataManager_Subscribe key c h)"

definition MustGetKubeadmInitData :: "Context \<Rightarrow> bags \<Rightarrow> (data_error + KubeadmInitData) dm" where
  "MustGetKubeadmInitData = must_get as_init ''kubeadm.init_data''"

definition MustGetKubeadmJoinData :: "Context \<Rightarrow> bags \<Rightarrow> (data_error + KubeadmJoinData) dm" where
  "MustGetKubeadmJoinData = must_get as_join ''kubeadm.join_data''"

definition MustGetEtcdClusterData :: "Context \<Rightarrow> bags \<Rightarrow> (data_error + EtcdClusterData) dm" where
  "MustGetEtcdClusterData = must_get as_etcd ''etcd.cluster_data''"

text \<open>The builders of \<^verbatim>\<open>data_bus_v2.go\<close> and their \<^verbatim>\<open>PublishTo\<close>.\<close>

definition NewKubeadmInitDataBuilder :: KubeadmInitData where
  "NewKubeadmInitDataBuilder = \<lparr>kid_Token = [], kid_CACertHash = [], kid_JoinURL = [], kid_APIServer = []\<rparr>"

definition WithToken :: "string \<Rightarrow> KubeadmInitData \<Rightarrow> KubeadmInitData" where
  "WithToken token d = d\<lparr>kid_Token := token\<rparr>"

definition WithCACertHash :: "string \<Rightarrow> KubeadmInitData \<Rightarrow> KubeadmInitData" where
  "WithCACertHash hash d = d\<lparr>kid_CACertHash := hash\<rparr>"

definition WithJoinURL :: "string \<Rightarrow> KubeadmInitData \<Rightarrow> KubeadmInitData" where
  "WithJoinURL url d = d\<lparr>kid_JoinURL := url\<rparr>"

definition WithAPIServer :: "string \<Rightarrow> KubeadmInitData \<Rightarrow> KubeadmInitData" where
  "WithAPIServer server d = d\<lparr>kid_APIServer := server\<rparr>"

definition KubeadmInit_PublishTo :: "KubeadmInitData \<Rightarrow> Context \<Rightarrow> bags \<Rightarrow> bags dm" where
  "KubeadmInit_PublishTo d = DataManager_Publish ''kubeadm.init_data'' (VKubeadmInitData d)"

definition EtcdCluster_PublishTo :: "EtcdClusterData \<Rightarrow> Context \<Rightarrow> bags \<Rightarrow> bags dm" where
  "EtcdCluster_PublishTo d = DataManager_Publish ''etcd.cluster_data'' (VEtcdClusterData d)"

section \<open>The data bus with channels\<close>

text \<open>
  A listener is a channel with a buffer of one value; \<open>db_chans\<close> holds the buffers. A send into a full
  buffer blocks while the bus is locked: \<open>None\<close>.
\<close>

record DataBus =
  db_data :: "(string, goval) gomap"
  db_listeners :: "(string, nat list) gomap"
  db_chans :: "goval list list"

definition NewDataBus :: DataBus where
  "NewDataBus = \<lparr>db_data = [], db_listeners = [], db_chans = []\<rparr>"

definition chan_send :: "nat \<Rightarrow> goval \<Rightarrow> goval list list \<Rightarrow> goval list list option" where
  "chan_send ch v chans = (if length (chans ! ch) < 1 then Some (chans[ch := chans ! ch @ [v]]) else None)"

definition chan_recv :: "nat \<Rightarrow> DataBus \<Rightarrow> (goval \<times> DataBus) option" where
  "chan_recv ch db = (case db_chans db ! ch of [] \<Rightarrow> None | v # vs \<Rightarrow> Some (v, db\<lparr>db_chans := (db_chans db)[ch := vs]\<rparr>))"

fun notify :: "goval \<Rightarrow> nat list \<Rightarrow> goval list list \<Rightarrow> goval list list option" where
  "notify v [] chans = Some chans"
| "notify v (ch # chs) chans = (case chan_send ch v chans of None \<Rightarrow> None | Some chans' \<Rightarrow> notify v chs chans')"

definition DataBus_Publish :: "string \<Rightarrow> goval \<Rightarrow> DataBus \<Rightarrow> DataBus option" where
  "DataBus_Publish key value db =
     (let db' = db\<lparr>db_data := gm_put key value (db_data db)\<rparr> in
      case gm_get (db_listeners db) key of
        None \<Rightarrow> Some db'
      | Some chs \<Rightarrow> map_option (\<lambda>cs. db'\<lparr>db_chans := cs\<rparr>) (notify value chs (db_chans db)))"

definition DataBus_Subscribe :: "string \<Rightarrow> DataBus \<Rightarrow> nat \<times> DataBus" where
  "DataBus_Subscribe key db =
     (let ch = length (db_chans db);
          db1 = db\<lparr>db_chans := db_chans db @ [[]],
                   db_listeners := gm_put key (gm_getd [] (db_listeners db) key @ [ch]) (db_listeners db)\<rparr>
      in (ch, case gm_get (db_data db) key of
                None \<Rightarrow> db1 | Some v \<Rightarrow> db1\<lparr>db_chans := (db_chans db1)[ch := [v]]\<rparr>))"

definition DataBus_Get :: "string \<Rightarrow> DataBus \<Rightarrow> goval option" where
  "DataBus_Get key db = gm_get (db_data db) key"

definition DataBus_GetString :: "string \<Rightarrow> DataBus \<Rightarrow> string \<times> bool" where
  "DataBus_GetString key db = get_as [] as_string (DataBus_Get key db)"

definition DataBus_GetInt :: "string \<Rightarrow> DataBus \<Rightarrow> goint \<times> bool" where
  "DataBus_GetInt key db = get_as 0 as_int (DataBus_Get key db)"

definition DataBus_GetBool :: "string \<Rightarrow> DataBus \<Rightarrow> bool \<times> bool" where
  "DataBus_GetBool key db = get_as False as_bool (DataBus_Get key db)"

definition DataBus_Has :: "string \<Rightarrow> DataBus \<Rightarrow> bool" where
  "DataBus_Has key db = gm_has (db_data db) key"

definition DataBus_Remove :: "string \<Rightarrow> DataBus \<Rightarrow> DataBus" where
  "DataBus_Remove key db = db\<lparr>db_data := gm_del key (db_data db)\<rparr>"

definition DataBus_Clear :: "DataBus \<Rightarrow> DataBus" where
  "DataBus_Clear db = db\<lparr>db_data := []\<rparr>"

definition DataBus_Keys :: "DataBus \<Rightarrow> string list" where
  "DataBus_Keys db = gm_keys (db_data db)"

section \<open>Keys and isolation\<close>

definition dot_free :: "Context \<Rightarrow> bool" where
  "dot_free c \<longleftrightarrow> list_all (\<lambda>w. CHR ''.'' \<notin> set w)
     [cx_RunID c, cx_currentPipelineName c, cx_currentModuleName c, cx_currentTaskName c]"

definition position :: "Context \<Rightarrow> string list" where
  "position c = [cx_RunID c, cx_currentPipelineName c, cx_currentModuleName c, cx_currentTaskName c]"

lemma append_sep_inject:
  "sep \<notin> set u \<Longrightarrow> sep \<notin> set v \<Longrightarrow> u @ sep # x = v @ sep # y \<longleftrightarrow> u = v \<and> x = y"
proof (induction u arbitrary: v)
  case Nil
  then show ?case by (cases v) auto
next
  case (Cons a u)
  then show ?case by (cases v) auto
qed

lemma BuildKey_inject:
  assumes "dot_free c" "dot_free c'"
  shows "BuildKey c k = BuildKey c' k' \<longleftrightarrow> position c = position c' \<and> k = k'"
  using assms by (simp add: BuildKey_def dot_free_def position_def append_sep_inject)

lemma BuildKey_same [simp]: "BuildKey c k = BuildKey c k' \<longleftrightarrow> k = k'"
  by (simp add: BuildKey_def)

lemma StateBag_Get_Set:
  "b < length h \<Longrightarrow> StateBag_Get k' b' (StateBag_Set k v b h) = (if b' = b \<and> k' = k then Some v else StateBag_Get k' b' h)"
  by (auto simp: StateBag_Get_def StateBag_Set_def nth_list_update)

text \<open>C38: what a step publishes through the data manager a step at the same position of the same
  run reads back, under every key, and a step at another position (another run, pipeline, module
  or task) sees no difference, even when both contexts share the state bag, as long as the names
  contain no dot.\<close>

theorem data_manager_isolated:
  assumes "cx_TaskState c = Some b" "b < length h" "cx_TaskState c' = Some b'" "dot_free c" "dot_free c'"
    and "DataManager_Publish key v c h = DM h'"
  shows "DataManager_Subscribe key' c' h' =
    (if b' = b \<and> position c' = position c \<and> key' = key then DM (Some v) else DataManager_Subscribe key' c' h)"
proof -
  have "h' = StateBag_Set (BuildKey c key) v b h" using assms(1,6) by (simp add: DataManager_Publish_def)
  with assms(2,3) BuildKey_inject[OF assms(5,4), of key' key] show ?thesis
    by (simp add: DataManager_Subscribe_def StateBag_Get_Set)
qed

section \<open>Scopes of built contexts\<close>

lemma Build_state:
  assumes "Build env order b bags caches = Built (c, bags', caches')"
  shows "cx_GlobalState c = Some (length bags) \<and> cx_PipelineState c = Some (length bags + 1) \<and>
    cx_ModuleState c = Some (length bags + 2) \<and> cx_TaskState c = Some (length bags + 3) \<and> bags' = bags @ [[], [], [], []]"
proof -
  have add: "cx_GlobalState (add_host x y c) = cx_GlobalState c" "cx_PipelineState (add_host x y c) = cx_PipelineState c"
    "cx_ModuleState (add_host x y c) = cx_ModuleState c" "cx_TaskState (add_host x y c) = cx_TaskState c" for x y c
    by (simp_all add: add_host_def Let_def)
  have each: "cx_GlobalState c' = cx_GlobalState c \<and> cx_PipelineState c' = cx_PipelineState c \<and>
      cx_ModuleState c' = cx_ModuleState c \<and> cx_TaskState c' = cx_TaskState c"
    if "initialize_each env b specs c = Built c'" for env b specs c c'
    using that by (induction specs arbitrary: c) (auto simp: add split: build.splits option.splits)
  have wo: "cx_GlobalState c' = cx_GlobalState c \<and> cx_PipelineState c' = cx_PipelineState c \<and>
      cx_ModuleState c' = cx_ModuleState c \<and> cx_TaskState c' = cx_TaskState c"
    if "initializeHostsWithoutConnect env b cfg c = Built c'" for env b cfg c c'
    using that by (auto simp: initializeHostsWithoutConnect_def Let_def split: build.splits sum.splits option.splits)
  show ?thesis
    using assms
    by (auto simp: Build_def initializeAllHosts_def fresh_context_def NewStateBag_def
        dest!: each wo split: build.splits prod.splits if_splits sum.splits list.splits)
qed

text \<open>a context comes out of the builder with all four state bags, so the contexts derived for
  pipelines, modules and tasks get no bag of their own: a value exported to the scope of one task is
  imported by every other task, in whatever module, and by every scope search.\<close>

theorem task_scope_shared:
  assumes "Build env order b bags caches = Built (c, h, caches')"
    and "(c1, h1) = ForTask t1 (ForModule m1 (ForPipeline p1 (c, h)))" "(c2, h2) = ForTask t2 (ForModule m2 (ForPipeline p2 (c, h)))"
  shows "h1 = h \<and> h2 = h \<and>
    (\<forall>k v. \<exists>h'. Export ''task'' k v c1 h1 = (None, h') \<and> Import ''task'' k c2 h' = Some v \<and> Import [] k c2 h' = Some v)"
proof -
  from Build_state[OF assms(1)] have st: "cx_PipelineState c = Some (length bags + 1)" "cx_ModuleState c = Some (length bags + 2)"
    "cx_TaskState c = Some (length bags + 3)" "h = bags @ [[], [], [], []]" by simp_all
  then have "h1 = h" "h2 = h" "cx_TaskState c1 = Some (length bags + 3)" "cx_TaskState c2 = Some (length bags + 3)"
    using assms(2,3) by (auto simp: ForTask_def ForModule_def ForPipeline_def Let_def)
  moreover have "length bags + 3 < length h" by (simp add: st)
  ultimately show ?thesis
    by (auto simp: Export_def Import_def scope_bag_def bag_get_def StateBag_Get_Set)
qed

theorem task_scope_shared_witness:
  "\<exists>c h caches'. Build example_env (\<lambda>xs. xs) (NewBuilderFromConfig example_cluster) [] [] = Built (c, h, caches') \<and>
     (\<exists>h'. Export ''task'' ''k'' (VInt 1) (fst (ForTask ''A'' (ForModule ''M'' (ForPipeline ''P'' (c, h))))) h = (None, h') \<and>
        Import ''task'' ''k'' (fst (ForTask ''B'' (ForModule ''N'' (ForPipeline ''P'' (c, h))))) h' = Some (VInt 1))"
proof -
  have "case Build example_env (\<lambda>xs. xs) (NewBuilderFromConfig example_cluster) [] [] of Built _ \<Rightarrow> True | _ \<Rightarrow> False" by code_simp
  then obtain c h caches' where b: "Build example_env (\<lambda>xs. xs) (NewBuilderFromConfig example_cluster) [] [] = Built (c, h, caches')"
    by (auto split: build.splits)
  obtain c1 h1 c2 h2 where d: "(c1, h1) = ForTask ''A'' (ForModule ''M'' (ForPipeline ''P'' (c, h)))"
    "(c2, h2) = ForTask ''B'' (ForModule ''N'' (ForPipeline ''P'' (c, h)))" by (metis prod.exhaust)
  from task_scope_shared[OF b d] b d[symmetric] show ?thesis by auto
qed

theorem data_manager_isolated_witness:
  "\<exists>c h h'. DataManager_Publish ''kubeadm.token'' (VString ''t'') c h = DM h' \<and>
     DataManager_Subscribe ''kubeadm.token'' c h' = DM (Some (VString ''t'')) \<and>
     DataManager_Subscribe ''kubeadm.token'' (c\<lparr>cx_currentTaskName := ''other''\<rparr>) h' = DM None"
proof -
  have "case Build example_env (\<lambda>xs. xs) (NewBuilderFromConfig example_cluster) [] [] of Built (c, _) \<Rightarrow> dot_free c | _ \<Rightarrow> False" by code_simp
  then obtain c h caches' where b: "Build example_env (\<lambda>xs. xs) (NewBuilderFromConfig example_cluster) [] [] = Built (c, h, caches')" "dot_free c"
    by (auto split: build.splits)
  have "case Build example_env (\<lambda>xs. xs) (NewBuilderFromConfig example_cluster) [] [] of Built (c, _) \<Rightarrow> cx_currentTaskName c = [] | _ \<Rightarrow> False" by code_simp
  then have nm: "cx_currentTaskName c = []" using b by simp
  from Build_state[OF b(1)] have st: "cx_TaskState c = Some 3" "h = [[], [], [], []]" by simp_all
  then obtain h' where p: "DataManager_Publish ''kubeadm.token'' (VString ''t'') c h = DM h'" by (simp add: DataManager_Publish_def)
  let ?c = "c\<lparr>cx_currentTaskName := ''other''\<rparr>"
  have o: "cx_TaskState ?c = Some 3" "dot_free ?c" "position ?c \<noteq> position c"
    using st b(2) nm by (simp_all add: dot_free_def position_def)
  have "DataManager_Subscribe ''kubeadm.token'' ?c h = DM None" using o(1) by (simp add: DataManager_Subscribe_def StateBag_Get_def st)
  with data_manager_isolated[OF st(1) _ st(1) b(2) b(2) p, of "''kubeadm.token''"]
    data_manager_isolated[OF st(1) _ o(1) b(2) o(2) p, of "''kubeadm.token''"] o(3) p st show ?thesis by auto
qed

section \<open>Publishers and subscribers\<close>

text \<open>the typed publishers and subscribers of the data manager never meet. After each of the four
  publishers has stored its struct, the subscriber of the same data in the same context finds
  nothing, because it asserts a pointer; the pair \<^verbatim>\<open>PublishTo\<close> and \<^verbatim>\<open>MustGetKubeadmInitData\<close> agrees on
  the type and does meet.\<close>

theorem subscribers_find_nothing:
  assumes "cx_TaskState c = Some b" "b < length h"
  shows "(\<exists>h'. PublishInitData d1 c h = DM h' \<and> GetInitData c h' = DM None) \<and>
    (\<exists>h'. PublishJoinData d2 c h = DM h' \<and> GetJoinData c h' = DM None) \<and>
    (\<exists>h'. PublishClusterData d3 c h = DM h' \<and> GetClusterData c h' = DM None) \<and>
    (\<exists>h'. PublishPKIInfo d4 c h = DM h' \<and> GetPKIInfo c h' = DM None) \<and>
    (\<exists>h'. KubeadmInit_PublishTo d1 c h = DM h' \<and> MustGetKubeadmInitData c h' = DM (Inr d1))"
  using assms
  by (simp add: PublishInitData_def GetInitData_def PublishJoinData_def GetJoinData_def PublishClusterData_def GetClusterData_def
      PublishPKIInfo_def GetPKIInfo_def KubeadmInit_PublishTo_def MustGetKubeadmInitData_def must_get_def subscribe_ptr_def
      DataManager_Publish_def DataManager_Subscribe_def StateBag_Get_Set dm_map_def)

theorem subscribers_find_nothing_witness:
  "\<exists>c h h'. PublishInitData NewKubeadmInitDataBuilder c h = DM h' \<and> GetInitData c h' = DM None"
proof -
  have "case Build example_env (\<lambda>xs. xs) (NewBuilderFromConfig example_cluster) [] [] of Built _ \<Rightarrow> True | _ \<Rightarrow> False" by code_simp
  then obtain c h caches' where b: "Build example_env (\<lambda>xs. xs) (NewBuilderFromConfig example_cluster) [] [] = Built (c, h, caches')"
    by (auto split: build.splits)
  from Build_state[OF b] have st: "cx_TaskState c = Some 3" "3 < length h" by simp_all
  from subscribers_find_nothing[OF st, of NewKubeadmInitDataBuilder] show ?thesis by blast
qed

section \<open>Channels\<close>

text \<open>a listener that takes one value, as the typed subscription does, leaves its channel
  registered: the second publication still fits into the buffer, the third blocks for ever, and
  it does so while it holds the lock of the bus.\<close>

theorem third_publication_blocks:
  assumes "gm_get (db_listeners db) key = None" "gm_get (db_data db) key = None"
    and "DataBus_Subscribe key db = (ch, db1)"
  shows "\<exists>db2 db3 db4. DataBus_Publish key v1 db1 = Some db2 \<and> chan_recv ch db2 = Some (v1, db3) \<and>
    DataBus_Publish key v2 db3 = Some db4 \<and> DataBus_Publish key v3 db4 = None"
proof -
  have ch: "ch = length (db_chans db)" and db1: "db1 = db\<lparr>db_chans := db_chans db @ [[]], db_listeners := gm_put key [ch] (db_listeners db)\<rparr>"
    using assms by (auto simp: DataBus_Subscribe_def Let_def gm_getd_def)
  have send: "chan_send ch v (db_chans db @ [w]) = (if w = [] then Some (db_chans db @ [[v]]) else None)" for v w
    by (simp add: chan_send_def ch list_update_append)
  show ?thesis
    by (simp add: DataBus_Publish_def Let_def db1 send chan_recv_def)
      (simp add: ch nth_append list_update_append send[unfolded ch])
qed

theorem third_publication_blocks_witness:
  "\<exists>db2 db3 db4. DataBus_Publish ''k'' (VInt 1) (snd (DataBus_Subscribe ''k'' NewDataBus)) = Some db2 \<and> chan_recv 0 db2 = Some (VInt 1, db3) \<and>
    DataBus_Publish ''k'' (VInt 2) db3 = Some db4 \<and> DataBus_Publish ''k'' (VInt 3) db4 = None"
  using third_publication_blocks[of NewDataBus "''k''" 0 "snd (DataBus_Subscribe ''k'' NewDataBus)" "VInt 1" "VInt 2" "VInt 3"]
  by (simp add: NewDataBus_def DataBus_Subscribe_def)

end
