(* ===== verification/Config.thy ===== *)
theory Config
  imports Builder GoNet
begin

text \<open>
  Processing of a parsed cluster configuration: \<^verbatim>\<open>config/config.go\<close> and \<^verbatim>\<open>config/helpers.go\<close> with the
  defaults and the validation of hosts, role groups and global settings from
  \<^verbatim>\<open>apis/kubexms/v1alpha1/cluster_types.go\<close>. The defaults and the validation of the other sections, the
  file and the YAML and JSON decoders are arguments; the other sections are the record
  \<open>Sections\<close>, with the fields this code reads. \<^verbatim>\<open>verrs.Add\<close> formats a finished message once more, which
  changes nothing in a message without percent signs; the message
  about a connection timeout leaves out the printed duration.
\<close>

section \<open>Host ranges\<close>

text \<open>
  The regular expression \<^verbatim>\<open>^(.*)\[([0-9]+):([0-9]+)\](.*)$\<close>: \<open>match_range\<close> reads what follows the opening
  bracket, \<open>find_range\<close> prefers the longest prefix; a dot does not match a line break.
\<close>

definition newline :: char where
  "newline = CHR 0x0A"

definition match_range :: "string \<Rightarrow> (string \<times> string \<times> string) option" where
  "match_range s =
     (let a = takeWhile is_digit s; r = dropWhile is_digit s in
      if a = [] \<or> r = [] \<or> hd r \<noteq> CHR '':'' then None
      else let b = takeWhile is_digit (tl r); q = dropWhile is_digit (tl r) in
        if b = [] \<or> q = [] \<or> hd q \<noteq> CHR '']'' \<or> newline \<in> set (tl q) then None else Some (a, b, tl q))"

fun find_range :: "string \<Rightarrow> (string \<times> string \<times> string \<times> string) option" where
  "find_range [] = None"
| "find_range (c # cs) =
     (case (if c = newline then None else find_range cs) of
        Some (p, a, b, q) \<Rightarrow> Some (c # p, a, b, q)
      | None \<Rightarrow> if c = CHR ''['' then map_option (\<lambda>(a, b, q). ([], a, b, q)) (match_range cs) else None)"

definition pad_zero :: "nat \<Rightarrow> nat \<Rightarrow> string" where
  "pad_zero w n = replicate (w - length (show_nat n)) (CHR ''0'') @ show_nat n"

text \<open>The format: padded to the width of the start when that begins with a zero.\<close>

definition format_number :: "string \<Rightarrow> nat \<Rightarrow> string" where
  "format_number startStr n =
     (if length startStr = 1 \<or> (length startStr > 1 \<and> hd startStr \<noteq> CHR ''0'') then show_nat n
      else pad_zero (length startStr) n)"

datatype config_error =
    EmptyPattern | InvalidStart string | InvalidEnd string | StartAfterEnd string | ZeroHostnames string
  | ExpandFailed string config_error | GroupExpansionFailed string config_error
  | UndefinedHost string | RoleGroupInvalid config_error
  | LocalHostFailed goerr | ValidationFailed "string list"
  | EmptyConfigPath | ReadFailed string goerr | ProcessFailed string config_error

text \<open>
  The loop over the numbers of a range. The counter is a machine integer: a range that ends at the
  largest one never ends.
\<close>

partial_function (option) name_loop :: "(nat \<Rightarrow> string) \<Rightarrow> goint \<Rightarrow> goint \<Rightarrow> string list \<Rightarrow> string list option" where
  "name_loop f i e acc = (if sint i \<le> sint e then name_loop f (i + 1) e (acc @ [f (unat i)]) else Some acc)"

definition ExpandHostRange :: "string \<Rightarrow> (config_error + string list) option" where
  "ExpandHostRange pattern =
     (case find_range pattern of
        None \<Rightarrow> Some (if TrimSpace pattern = [] then Inl EmptyPattern else Inr [pattern])
      | Some (prefix, startStr, endStr, suffix) \<Rightarrow>
          (case Atoi startStr of
             None \<Rightarrow> Some (Inl (InvalidStart pattern))
           | Some start \<Rightarrow>
               (case Atoi endStr of
                  None \<Rightarrow> Some (Inl (InvalidEnd pattern))
                | Some end' \<Rightarrow>
                    if start > end' then Some (Inl (StartAfterEnd pattern))
                    else map_option (\<lambda>hostnames. if hostnames = [] then Inl (ZeroHostnames pattern) else Inr hostnames)
                      (name_loop (\<lambda>n. prefix @ format_number startStr n @ suffix) (word_of_int start) (word_of_int end') []))))"

fun expand_each :: "string list \<Rightarrow> string list \<Rightarrow> (config_error + string list) option" where
  "expand_each [] expanded = Some (Inr expanded)"
| "expand_each (h # hs) expanded =
     (case ExpandHostRange h of
        None \<Rightarrow> None
      | Some (Inl e) \<Rightarrow> Some (Inl (ExpandFailed h e))
      | Some (Inr currentHosts) \<Rightarrow> expand_each hs (expanded @ currentHosts))"

definition ExpandRoleGroupHosts :: "string list \<Rightarrow> (config_error + string list) option" where
  "ExpandRoleGroupHosts hosts = expand_each hosts []"

section \<open>Role groups\<close>

record RoleGroupsSpec =
  rg_Master :: "string list"
  rg_Worker :: "string list"
  rg_Etcd :: "string list"
  rg_LoadBalancer :: "string list"
  rg_Storage :: "string list"
  rg_Registry :: "string list"

definition RoleMaster :: string where "RoleMaster = ''master''"
definition RoleWorker :: string where "RoleWorker = ''worker''"
definition RoleEtcd :: string where "RoleEtcd = ''etcd''"
definition RoleLoadBalancer :: string where "RoleLoadBalancer = ''loadbalancer''"
definition RoleStorage :: string where "RoleStorage = ''storage''"
definition RoleRegistry :: string where "RoleRegistry = ''registry''"
definition RoleControlPlane :: string where "RoleControlPlane = ''control-plane''"

lemmas role_names = RoleMaster_def RoleWorker_def RoleEtcd_def RoleLoadBalancer_def RoleStorage_def RoleRegistry_def
  RoleControlPlane_def

definition appendRoles :: "string list \<Rightarrow> string \<Rightarrow> (string, string list) gomap \<Rightarrow> (string, string list) gomap" where
  "appendRoles names role roleMap = fold (\<lambda>name m. gm_put name (gm_getd [] m name @ [role]) m) names roleMap"

fun unique_roles :: "string list \<Rightarrow> string list \<Rightarrow> string list \<Rightarrow> string list" where
  "unique_roles [] seen unique = unique"
| "unique_roles (role # roles) seen unique =
     (if role = [] \<or> role \<in> set seen then unique_roles roles seen unique
      else unique_roles roles (role # seen) (unique @ [role]))"

definition uniqueRoles :: "string list \<Rightarrow> string list" where
  "uniqueRoles roles = unique_roles roles [] []"

definition role_map :: "RoleGroupsSpec \<Rightarrow> (string, string list) gomap" where
  "role_map rg =
     appendRoles (rg_Registry rg) RoleRegistry (appendRoles (rg_Storage rg) RoleStorage
       (appendRoles (rg_LoadBalancer rg) RoleLoadBalancer (appendRoles (rg_Etcd rg) RoleEtcd
         (appendRoles (rg_Worker rg) RoleWorker (appendRoles (rg_Master rg) RoleMaster [])))))"

definition apply_roles :: "(string, string list) gomap \<Rightarrow> HostSpec \<Rightarrow> HostSpec" where
  "apply_roles roleMap host =
     (let roles = gm_getd [] roleMap (hs_Name host) in
      if length roles = 0 then host
      else host\<lparr>hs_Roles := uniqueRoles roles, hs_RoleTable := fold (\<lambda>role m. gm_put role True m) (uniqueRoles roles) []\<rparr>)"

definition ApplyRoleGroupsToHosts :: "RoleGroupsSpec option \<Rightarrow> HostSpec list \<Rightarrow> HostSpec list" where
  "ApplyRoleGroupsToHosts roleGroups hosts =
     (case roleGroups of None \<Rightarrow> hosts | Some rg \<Rightarrow> if length hosts = 0 then hosts else map (apply_roles (role_map rg)) hosts)"

definition group_names :: "RoleGroupsSpec \<Rightarrow> string list" where
  "group_names rg = rg_Master rg @ rg_Worker rg @ rg_Etcd rg @ rg_LoadBalancer rg @ rg_Storage rg @ rg_Registry rg"

definition ValidateRoleGroupHosts :: "RoleGroupsSpec \<Rightarrow> HostSpec list \<Rightarrow> config_error option" where
  "ValidateRoleGroupHosts rg hosts =
     (let validHosts = fold (\<lambda>host m. gm_put (hs_Name host) () m) hosts [] in
      map_option UndefinedHost (List.find (\<lambda>hostName. \<not> gm_has validHosts hostName) (group_names rg)))"

section \<open>The cluster\<close>

text \<open>
  A nil \<^verbatim>\<open>Global\<close> is replaced by a zero structure before anything reads it and is that structure here.
  \<open>kc_HasSpec\<close> is false when \<^verbatim>\<open>Spec\<close> is nil.
\<close>

record ControlPlaneEndpointSpec =
  cpe_ExternalLoadBalancerType :: string
  cpe_HighAvailabilityExternalType :: "string option"

record Sections =
  sec_EtcdType :: "string option"
  sec_ControlPlaneEndpoint :: "ControlPlaneEndpointSpec option"

record Cluster = ClusterConfig +
  kc_APIVersion :: string
  kc_Kind :: string
  kc_HasSpec :: bool
  kc_RoleGroups :: "RoleGroupsSpec option"
  kc_Sections :: Sections

text \<open>
  The environment: the default working directory, the defaults and the validation of the other
  sections, and the detection of the own address.
\<close>

record config_env =
  ce_WorkDir :: string
  ce_SectionDefaults :: "Sections \<Rightarrow> Sections"
  ce_SectionErrors :: "Sections \<Rightarrow> string list"
  ce_PrimaryIP :: "goerr + string"

definition SetDefaults_GlobalSpec :: "config_env \<Rightarrow> GlobalSpec \<Rightarrow> GlobalSpec" where
  "SetDefaults_GlobalSpec env g =
     (let g1 = (if gs_User g = [] then g\<lparr>gs_User := ''root''\<rparr> else g);
          g2 = (if gs_Port g1 = 0 then g1\<lparr>gs_Port := 22\<rparr> else g1);
          g3 = (if gs_ConnectionTimeout g2 = 0 then g2\<lparr>gs_ConnectionTimeout := 10000000000\<rparr> else g2)
      in if gs_WorkDir g3 = [] then g3\<lparr>gs_WorkDir := ce_WorkDir env\<rparr> else g3)"

definition SetDefaults_ClusterSpec :: "config_env \<Rightarrow> Cluster \<Rightarrow> Cluster" where
  "SetDefaults_ClusterSpec env c =
     (if \<not> kc_HasSpec c then c
      else let c1 = c\<lparr>cl_Global := SetDefaults_GlobalSpec env (cl_Global c)\<rparr>
           in c1\<lparr>cl_Hosts := map (SetDefaults_HostSpec (ClusterConfig.truncate c1)) (cl_Hosts c1),
                 kc_Sections := ce_SectionDefaults env (kc_Sections c1)\<rparr>)"

definition DefaultAPIVersion :: string where "DefaultAPIVersion = ''kubexm.io/v1alpha1''"
definition DefaultKind :: string where "DefaultKind = ''Cluster''"

definition SetDefaults_Cluster :: "config_env \<Rightarrow> Cluster \<Rightarrow> Cluster" where
  "SetDefaults_Cluster env c =
     (let c1 = (if kc_APIVersion c = [] then c\<lparr>kc_APIVersion := DefaultAPIVersion\<rparr> else c);
          c2 = (if kc_Kind c1 = [] then c1\<lparr>kc_Kind := DefaultKind\<rparr> else c1)
      in SetDefaults_ClusterSpec env c2)"

definition normal_lb_type :: "string \<Rightarrow> string" where
  "normal_lb_type t =
     (let t1 = (if EqualFold t ''exists'' then ''external'' else t);
          t2 = (if EqualFold t1 ''kubexm_kh'' then ''kubexm-kh'' else t1)
      in if EqualFold t2 ''kubexm_kn'' then ''kubexm-kn'' else t2)"

definition normalizeDeploymentTypes :: "Cluster \<Rightarrow> Cluster" where
  "normalizeDeploymentTypes c =
     (if \<not> kc_HasSpec c then c
      else c\<lparr>kc_Sections :=
        \<lparr>sec_EtcdType = map_option (\<lambda>t. if EqualFold t ''exists'' then ''external'' else t) (sec_EtcdType (kc_Sections c)),
         sec_ControlPlaneEndpoint = map_option (\<lambda>cpe.
           \<lparr>cpe_ExternalLoadBalancerType = normal_lb_type (cpe_ExternalLoadBalancerType cpe),
            cpe_HighAvailabilityExternalType = map_option normal_lb_type (cpe_HighAvailabilityExternalType cpe)\<rparr>)
           (sec_ControlPlaneEndpoint (kc_Sections c))\<rparr>\<rparr>)"

definition empty_role_groups :: RoleGroupsSpec where
  "empty_role_groups = \<lparr>rg_Master = [], rg_Worker = [], rg_Etcd = [], rg_LoadBalancer = [], rg_Storage = [], rg_Registry = []\<rparr>"

definition ensureLocalHostIfEmpty :: "config_env \<Rightarrow> Cluster \<Rightarrow> config_error + Cluster" where
  "ensureLocalHostIfEmpty env c =
     (if \<not> kc_HasSpec c \<or> length (cl_Hosts c) > 0 then Inr c
      else case ce_PrimaryIP env of
        Inl e \<Rightarrow> Inl (LocalHostFailed e)
      | Inr ip \<Rightarrow>
          (let local = zero_HostSpec\<lparr>hs_Name := ''local-1'', hs_Address := ip\<rparr>;
               rg = (case kc_RoleGroups c of None \<Rightarrow> empty_role_groups | Some rg \<Rightarrow> rg)
           in Inr (c\<lparr>cl_Hosts := [SetDefaults_HostSpec (ClusterConfig.truncate c) local],
                 kc_RoleGroups := Some (rg\<lparr>rg_Master := [''local-1''], rg_Worker := [''local-1''], rg_Etcd := [''local-1'']\<rparr>)\<rparr>)))"

section \<open>Validation\<close>

definition msg_if :: "bool \<Rightarrow> string \<Rightarrow> string list" where
  "msg_if b m = (if b then [m] else [])"

definition quoted :: "string \<Rightarrow> string" where
  "quoted s = CHR 0x27 # s @ [CHR 0x27]"

definition Validate_TaintSpec :: "TaintSpec \<Rightarrow> string \<Rightarrow> string list" where
  "Validate_TaintSpec t p =
     msg_if (tt_Key t = []) (p @ ''.key: cannot be empty'') @
     msg_if (tt_Effect t \<notin> {''NoSchedule'', ''PreferNoSchedule'', ''NoExecute''})
       (p @ ''.effect: invalid effect '' @ quoted (tt_Effect t) @ '', must be one of [NoSchedule, PreferNoSchedule, NoExecute]'')"

fun validate_taints :: "string \<Rightarrow> nat \<Rightarrow> TaintSpec list \<Rightarrow> string list" where
  "validate_taints p i [] = []"
| "validate_taints p i (t # ts) = Validate_TaintSpec t (p @ ''.taints['' @ show_nat i @ '']'') @ validate_taints p (Suc i) ts"

definition is_localhost :: "string \<Rightarrow> bool" where
  "is_localhost addr \<longleftrightarrow> EqualFold addr ''localhost'' \<or> addr = ''127.0.0.1''"

definition validate_address :: "string \<Rightarrow> string \<Rightarrow> string list" where
  "validate_address p address =
     (let addr = TrimSpace address in
      if is_localhost addr then [p @ ''.address: localhost/127.0.0.1 is not allowed'']
      else case ParseIP addr of
        None \<Rightarrow> [p @ ''.address: invalid IP address format for '' @ quoted address]
      | Some ip \<Rightarrow> msg_if (IsLoopback ip) (p @ ''.address: loopback address '' @ quoted address @ '' is not allowed''))"

fun validate_internal :: "string \<Rightarrow> nat \<Rightarrow> string list \<Rightarrow> string list" where
  "validate_internal p i [] = []"
| "validate_internal p i (raw # raws) =
     (let addr = TrimSpace raw in
      (if addr = [] then [p @ ''.internalAddress: address at index '' @ show_nat i @ '' is empty'']
       else if is_localhost addr then [p @ ''.internalAddress: localhost/127.0.0.1 is not allowed'']
       else case ParseIP addr of
         None \<Rightarrow> [p @ ''.internalAddress: invalid IP address format for '' @ quoted addr]
       | Some ip \<Rightarrow> msg_if (IsLoopback ip) (p @ ''.internalAddress: loopback address '' @ quoted addr @ '' is not allowed'')))
     @ validate_internal p (Suc i) raws"

definition auth_methods :: "string \<Rightarrow> string \<Rightarrow> string \<Rightarrow> nat" where
  "auth_methods password privateKey privateKeyPath = length (filter (\<lambda>s. s \<noteq> []) [password, privateKey, privateKeyPath])"

definition Validate_HostSpec :: "HostSpec \<Rightarrow> string \<Rightarrow> string list" where
  "Validate_HostSpec s p =
     (let authMethods = auth_methods (hs_Password s) (hs_PrivateKey s) (hs_PrivateKeyPath s) in
      msg_if (hs_Name s = []) (p @ ''.name: is a required field'') @
      (if hs_Address s = [] then [p @ ''.address: is a required field''] else validate_address p (hs_Address s)) @
      (if TrimSpace (hs_InternalAddress s) \<noteq> [] then validate_internal p 0 (split_char (CHR '','') (hs_InternalAddress s)) else []) @
      msg_if (authMethods > 1) (p @ '': only one of password, privateKey, or privateKeyPath can be set'') @
      msg_if (authMethods = 0) (p @ '': one of password, privateKey, or privateKeyPath is required for SSH authentication'') @
      validate_taints p 0 (hs_Taints s))"

fun validate_hosts :: "nat \<Rightarrow> HostSpec list \<Rightarrow> (string, bool) gomap \<Rightarrow> (string, bool) gomap \<Rightarrow> string list \<times> (string, bool) gomap" where
  "validate_hosts i [] hostNames hostAddresses = ([], hostNames)"
| "validate_hosts i (host # hosts) hostNames hostAddresses =
     (let hostPath = ''spec.hosts['' @ show_nat i @ '']'';
          e1 = Validate_HostSpec host hostPath;
          e2 = msg_if (hs_Name host \<noteq> [] \<and> gm_getd False hostNames (hs_Name host)) (hostPath @ ''.name: duplicate host name '' @ quoted (hs_Name host));
          names' = (if hs_Name host \<noteq> [] then gm_put (hs_Name host) True hostNames else hostNames);
          e3 = msg_if (hs_Address host \<noteq> [] \<and> gm_getd False hostAddresses (hs_Address host)) (hostPath @ ''.address: duplicate host address '' @ quoted (hs_Address host));
          addresses' = (if hs_Address host \<noteq> [] then gm_put (hs_Address host) True hostAddresses else hostAddresses)
      in case validate_hosts (Suc i) hosts names' addresses' of (es, names) \<Rightarrow> (e1 @ e2 @ e3 @ es, names))"

definition undefined_msg :: "string \<Rightarrow> string \<Rightarrow> string" where
  "undefined_msg roleName hostName =
     ''spec/roleGroups.'' @ roleName @ '': host '' @ quoted hostName @ '' is not defined in the hosts list''"

definition validateRoleGroup :: "(string, bool) gomap \<Rightarrow> string list \<Rightarrow> string \<Rightarrow> string list" where
  "validateRoleGroup hostNames roleHosts roleName =
     map (undefined_msg roleName) (filter (\<lambda>hostName. \<not> gm_getd False hostNames hostName) roleHosts)"

definition validate_role_groups :: "(string, bool) gomap \<Rightarrow> RoleGroupsSpec option \<Rightarrow> string list" where
  "validate_role_groups hostNames roleGroups =
     (case roleGroups of
        None \<Rightarrow> [''spec.roleGroups: is a required section'']
      | Some rg \<Rightarrow>
          validateRoleGroup hostNames (rg_Master rg) ''master'' @ validateRoleGroup hostNames (rg_Worker rg) ''worker'' @
          validateRoleGroup hostNames (rg_Etcd rg) ''etcd'' @ validateRoleGroup hostNames (rg_Registry rg) ''registry'' @
          validateRoleGroup hostNames (rg_LoadBalancer rg) ''loadbalancer'' @ validateRoleGroup hostNames (rg_Storage rg) ''storage'' @
          map (\<lambda>hostName. ''spec: host '' @ quoted hostName @ '' is defined but not assigned to any role in roleGroups'')
            (filter (\<lambda>hostName. hostName \<notin> set (group_names rg)) (gm_keys hostNames)) @
          msg_if (length (rg_Master rg) = 0) ''spec/roleGroups.master: at least one master host is required'')"

definition Validate_GlobalSpec :: "GlobalSpec \<Rightarrow> string list" where
  "Validate_GlobalSpec g =
     msg_if (TrimSpace (gs_User g) = []) ''spec/global.user: cannot be empty'' @
     msg_if (sint (gs_Port g) \<le> 0 \<or> sint (gs_Port g) > 65535)
       (''spec/global.port: invalid port '' @ show_int (sint (gs_Port g)) @ '', must be between 1-65535'') @
     msg_if (auth_methods (gs_Password g) (gs_PrivateKey g) (gs_PrivateKeyPath g) > 1)
       ''spec/global: only one of password, privateKey, or privateKeyPath can be set at the global level'' @
     msg_if (sint (gs_ConnectionTimeout g) \<le> 0) ''spec/global.connectionTimeout: must be a positive duration'' @
     (if TrimSpace (gs_WorkDir g) = [] then [''spec/global.workDir: cannot be empty'']
      else msg_if (\<not> HasPrefix (gs_WorkDir g) ''/'') (''spec/global.workDir: must be an absolute path, got '' @ quoted (gs_WorkDir g)))"

definition Validate_ClusterSpec :: "config_env \<Rightarrow> Cluster \<Rightarrow> string list" where
  "Validate_ClusterSpec env c =
     (if \<not> kc_HasSpec c then [''spec: spec section cannot be nil'']
      else case validate_hosts 0 (cl_Hosts c) [] [] of
        (hostErrors, hostNames) \<Rightarrow>
          msg_if (length (cl_Hosts c) = 0) ''spec.hosts: at least one host must be defined'' @ hostErrors @
          validate_role_groups hostNames (kc_RoleGroups c) @
          Validate_GlobalSpec (cl_Global c) @
          ce_SectionErrors env (kc_Sections c))"

definition Validate_Cluster :: "config_env \<Rightarrow> Cluster \<Rightarrow> string list" where
  "Validate_Cluster env c =
     msg_if (kc_APIVersion c \<noteq> DefaultAPIVersion) (''apiVersion: must be '' @ quoted DefaultAPIVersion) @
     msg_if (kc_Kind c \<noteq> DefaultKind) (''kind: must be '' @ DefaultKind) @
     msg_if (cl_Name c = []) ''metadata.name: cannot be empty'' @
     Validate_ClusterSpec env c"

definition filterHostValidationErrors :: "string list \<Rightarrow> string list" where
  "filterHostValidationErrors verrs = filter (\<lambda>msg. \<not> Contains msg ''.hosts'' \<and> \<not> Contains msg ''.roleGroups'') verrs"

section \<open>Processing\<close>

definition expand_group :: "string \<Rightarrow> string list \<Rightarrow> (string list \<Rightarrow> (config_error + 'a) option) \<Rightarrow> (config_error + 'a) option" where
  "expand_group role names k =
     (case ExpandRoleGroupHosts names of
        None \<Rightarrow> None
      | Some (Inl e) \<Rightarrow> Some (Inl (GroupExpansionFailed role e))
      | Some (Inr names') \<Rightarrow> k names')"

definition expand_role_groups :: "RoleGroupsSpec \<Rightarrow> (config_error + RoleGroupsSpec) option" where
  "expand_role_groups rg =
     expand_group ''master'' (rg_Master rg) (\<lambda>ms. expand_group ''worker'' (rg_Worker rg) (\<lambda>ws.
     expand_group ''etcd'' (rg_Etcd rg) (\<lambda>es. expand_group ''loadbalancer'' (rg_LoadBalancer rg) (\<lambda>ls.
     expand_group ''storage'' (rg_Storage rg) (\<lambda>ss. expand_group ''registry'' (rg_Registry rg) (\<lambda>rs.
       Some (Inr \<lparr>rg_Master = ms, rg_Worker = ws, rg_Etcd = es, rg_LoadBalancer = ls, rg_Storage = ss, rg_Registry = rs\<rparr>)))))))"

definition resolve_role_groups :: "bool \<Rightarrow> HostSpec list \<Rightarrow> RoleGroupsSpec option \<Rightarrow> (config_error + RoleGroupsSpec option) option" where
  "resolve_role_groups skipHostValidation hosts roleGroups =
     (case roleGroups of
        None \<Rightarrow> Some (Inr None)
      | Some rg \<Rightarrow>
          (case expand_role_groups rg of
             None \<Rightarrow> None
           | Some (Inl e) \<Rightarrow> Some (Inl e)
           | Some (Inr rg') \<Rightarrow>
               Some (case (if skipHostValidation then None else ValidateRoleGroupHosts rg' hosts) of
                       Some e \<Rightarrow> Inl (RoleGroupInvalid e)
                     | None \<Rightarrow> Inr (Some rg'))))"

definition processClusterConfig :: "config_env \<Rightarrow> bool \<Rightarrow> Cluster \<Rightarrow> (config_error + Cluster) option" where
  "processClusterConfig env skipHostValidation c =
     (case ensureLocalHostIfEmpty env (normalizeDeploymentTypes (SetDefaults_Cluster env c)) of
        Inl e \<Rightarrow> Some (Inl e)
      | Inr c1 \<Rightarrow>
          (let verrs = Validate_Cluster env c1;
               verrs = (if skipHostValidation then filterHostValidationErrors verrs else verrs)
           in if length verrs > 0 then Some (Inl (ValidationFailed verrs))
              else case resolve_role_groups skipHostValidation (cl_Hosts c1) (kc_RoleGroups c1) of
                None \<Rightarrow> None
              | Some (Inl e) \<Rightarrow> Some (Inl e)
              | Some (Inr rg) \<Rightarrow>
                  Some (Inr (c1\<lparr>kc_RoleGroups := rg, cl_Hosts := ApplyRoleGroupsToHosts rg (cl_Hosts c1)\<rparr>))))"

text \<open>\<^verbatim>\<open>filepath.Ext\<close>, and the choice of the decoder. The decoders read and decode a file.\<close>

definition filepath_Ext :: "string \<Rightarrow> string" where
  "filepath_Ext path =
     (let tail = takeWhile (\<lambda>c. c \<noteq> CHR ''/'') (rev path); ext = takeWhile (\<lambda>c. c \<noteq> CHR ''.'') tail
      in if CHR ''.'' \<in> set tail then CHR ''.'' # rev ext else [])"

definition ParseFromFileWithOptions :: "config_env \<Rightarrow> (string \<Rightarrow> goerr + Cluster) \<Rightarrow> (string \<Rightarrow> goerr + Cluster) \<Rightarrow>
    string \<Rightarrow> bool \<Rightarrow> (config_error + Cluster) option" where
  "ParseFromFileWithOptions env decodeYAML decodeJSON filePath skipHostValidation =
     (if TrimSpace filePath = [] then Some (Inl EmptyConfigPath)
      else case (if ToLower (filepath_Ext filePath) = ''.json'' then decodeJSON filePath else decodeYAML filePath) of
        Inl e \<Rightarrow> Some (Inl (ReadFailed filePath e))
      | Inr c \<Rightarrow>
          map_option (\<lambda>r. case r of Inl e \<Rightarrow> Inl (ProcessFailed filePath e) | Inr c' \<Rightarrow> Inr c')
            (processClusterConfig env skipHostValidation c))"

section \<open>Expansion of host ranges\<close>

lemma sint_word_nat: "n < 2 ^ 63 \<Longrightarrow> sint (word_of_int (int n) :: goint) = int n"
  by (subst signed_of_int) (simp add: signed_take_bit_int_eq_self)

lemma unat_word_nat: "n < 2 ^ 63 \<Longrightarrow> unat (word_of_int (int n) :: goint) = n"
  by (simp add: unat_of_nat take_bit_nat_eq_self)

lemma name_loop_range:
  "b < 2 ^ 63 - 1 \<Longrightarrow> a \<le> Suc b \<Longrightarrow>
   name_loop f (word_of_int (int a)) (word_of_int (int b)) acc = Some (acc @ map f [a..<Suc b])"
proof (induction "Suc b - a" arbitrary: a acc)
  case 0
  then have a: "a = Suc b" by simp
  have "sint (word_of_int (int a) :: goint) = int a" "sint (word_of_int (int b) :: goint) = int b"
    using 0 a by (intro sint_word_nat; simp)+
  with a show ?case by (subst name_loop.simps) simp
next
  case (Suc n)
  then have a: "a < Suc b" "a < 2 ^ 63" "b < 2 ^ 63" by simp_all
  have next_a: "word_of_int (int a) + (1 :: goint) = word_of_int (int (Suc a))" by simp
  have "name_loop f (word_of_int (int a)) (word_of_int (int b)) acc = name_loop f (word_of_int (int (Suc a))) (word_of_int (int b)) (acc @ [f a])"
    using a by (subst name_loop.simps) (simp only: sint_word_nat unat_word_nat next_a, simp)
  also have "\<dots> = Some ((acc @ [f a]) @ map f [Suc a..<Suc b])"
    using Suc.hyps Suc.prems a by (intro Suc.hyps(1)) auto
  also have "\<dots> = Some (acc @ map f [a..<Suc b])" using a by (simp add: upt_conv_Cons del: upt_Suc)
  finally show ?case .
qed

lemma name_loop_never_ends: "sint e = 2 ^ 63 - 1 \<Longrightarrow> name_loop f i e acc = None"
proof (rule ccontr)
  assume e: "sint e = 2 ^ 63 - 1" and "name_loop f i e acc \<noteq> None"
  then obtain r where "name_loop f i e acc = Some r" by auto
  moreover have "name_loop f i e acc = Some r \<Longrightarrow> sint e \<noteq> 2 ^ 63 - 1" for f i e acc r
  proof (erule name_loop.raw_induct[rotated])
    fix nl f and i e :: goint and acc r
    assume IH: "\<And>f i e acc r. nl f i e acc = Some r \<Longrightarrow> sint e \<noteq> 2 ^ 63 - 1"
      and body: "(if sint i \<le> sint e then nl f (i + 1) e (acc @ [f (unat i)]) else Some acc) = Some r"
    show "sint e \<noteq> 2 ^ 63 - 1"
    proof (cases "sint i \<le> sint e")
      case True then show ?thesis using IH body by auto
    next
      case False then show ?thesis using sint_lt[of i] by simp
    qed
  qed
  ultimately show False using e by blast
qed

lemma takeWhile_digits: "list_all is_digit a \<Longrightarrow> \<not> is_digit c \<Longrightarrow> takeWhile is_digit (a @ c # r) = a \<and> dropWhile is_digit (a @ c # r) = c # r"
  by (induction a) auto

lemma match_range_digits:
  assumes "digits_only a" "digits_only b" "newline \<notin> set q"
  shows "match_range (a @ CHR '':'' # b @ CHR '']'' # q) = Some (a, b, q)"
proof -
  have "\<not> is_digit (CHR '':'')" "\<not> is_digit (CHR '']'')" by code_simp+
  with assms takeWhile_digits[of a "CHR '':''" "b @ CHR '']'' # q"] takeWhile_digits[of b "CHR '']''" q] show ?thesis
    by (auto simp: match_range_def digits_only_def Let_def)
qed

lemma find_range_bracket: "find_range s \<noteq> None \<Longrightarrow> CHR ''['' \<in> set s"
  by (induction s) (auto split: option.splits if_splits)

lemma find_range_prefix:
  "newline \<notin> set p \<Longrightarrow> find_range s = Some (p', a, b, q) \<Longrightarrow> find_range (p @ s) = Some (p @ p', a, b, q)"
  by (induction p) auto

lemma find_range_pattern:
  assumes "digits_only a" "digits_only b" "newline \<notin> set p" "newline \<notin> set q" "CHR ''['' \<notin> set q"
  shows "find_range (p @ CHR ''['' # a @ CHR '':'' # b @ CHR '']'' # q) = Some (p, a, b, q)"
proof -
  let ?t = "a @ CHR '':'' # b @ CHR '']'' # q"
  have "\<not> is_digit (CHR ''['')" by code_simp
  then have "CHR ''['' \<notin> set ?t" using assms by (auto simp: digits_only_def list_all_iff)
  then have "find_range ?t = None" using find_range_bracket by blast
  then have "find_range (CHR ''['' # ?t) = Some ([], a, b, q)"
    using match_range_digits[OF assms(1,2,4)] by (simp add: newline_def)
  from find_range_prefix[OF assms(3) this] show ?thesis by simp
qed

lemma ExpandHostRange_plain: "CHR ''['' \<notin> set s \<Longrightarrow> TrimSpace s \<noteq> [] \<Longrightarrow> ExpandHostRange s = Some (Inr [s])"
  using find_range_bracket[of s] by (cases "find_range s") (auto simp: ExpandHostRange_def)

lemma ExpandHostRange_pattern:
  assumes "digits_only a" "digits_only b" "newline \<notin> set p" "newline \<notin> set q" "CHR ''['' \<notin> set q"
    and "read_nat a < 2 ^ 63" "read_nat b < 2 ^ 63" "read_nat a \<le> read_nat b"
  shows "ExpandHostRange (p @ CHR ''['' # a @ CHR '':'' # b @ CHR '']'' # q) =
    map_option (\<lambda>hostnames. if hostnames = [] then Inl (ZeroHostnames (p @ CHR ''['' # a @ CHR '':'' # b @ CHR '']'' # q)) else Inr hostnames)
      (name_loop (\<lambda>n. p @ format_number a n @ q) (word_of_int (int (read_nat a))) (word_of_int (int (read_nat b))) [])"
  using assms(6-8) by (simp add: ExpandHostRange_def find_range_pattern[OF assms(1-5)] Atoi_digits[OF assms(1)] Atoi_digits[OF assms(2)])

lemma read_nat_zeros: "read_nat (replicate k (CHR ''0'') @ s) = read_nat s"
proof -
  have "digit_val (CHR ''0'') = 0" by code_simp
  then have "foldl (\<lambda>n c. 10 * n + digit_val c) 0 (replicate k (CHR ''0'')) = 0" by (induction k) auto
  then show ?thesis by (simp add: read_nat_def)
qed

lemma read_format_number: "read_nat (format_number a n) = n"
  by (simp add: format_number_def pad_zero_def read_nat_zeros)

text \<open>C39: a range \<^verbatim>\<open>p[a:b]q\<close> expands to the names with the numbers from a to b, in order and all
  different, padded with zeros to the width of a when a starts with a zero.\<close>

theorem ExpandHostRange_correct:
  assumes "digits_only a" "digits_only b" "newline \<notin> set p" "newline \<notin> set q" "CHR ''['' \<notin> set q"
    and "read_nat a \<le> read_nat b" "read_nat b < 2 ^ 63 - 1"
  shows "\<exists>names. ExpandHostRange (p @ CHR ''['' # a @ CHR '':'' # b @ CHR '']'' # q) = Some (Inr names) \<and>
    names = map (\<lambda>n. p @ format_number a n @ q) [read_nat a..<Suc (read_nat b)] \<and> distinct names \<and>
    (\<forall>n. read_nat (format_number a n) = n \<and> (hd a = CHR ''0'' \<and> length a > 1 \<longrightarrow> length a \<le> length (format_number a n)))"
proof -
  let ?names = "map (\<lambda>n. p @ format_number a n @ q) [read_nat a..<Suc (read_nat b)]"
  have "distinct ?names"
    by (auto simp: distinct_map inj_on_def dest: arg_cong[where f = read_nat] simp: read_format_number)
  moreover have "?names \<noteq> []" using assms(6) by simp
  ultimately show ?thesis
    using ExpandHostRange_pattern[OF assms(1-5), of] name_loop_range[of "read_nat b" "read_nat a"] assms(6,7)
    by (auto simp: read_format_number) (auto simp: format_number_def pad_zero_def)
qed

theorem ExpandHostRange_correct_witness:
  "\<exists>names. ExpandHostRange ''node[08:11].local'' = Some (Inr names) \<and> names = [''node08.local'', ''node09.local'', ''node10.local'', ''node11.local'']"
proof -
  have "digits_only ''08''" "digits_only ''11''" "read_nat ''08'' = 8" "read_nat ''11'' = 11" by code_simp+
  then obtain names where n: "ExpandHostRange (''node'' @ CHR ''['' # ''08'' @ CHR '':'' # ''11'' @ CHR '']'' # ''.local'') = Some (Inr names)"
    "names = map (\<lambda>n. ''node'' @ format_number ''08'' n @ ''.local'') [8..<Suc 11]"
    using ExpandHostRange_correct[of "''08''" "''11''" "''node''" "''.local''"] by (auto simp: newline_def)
  moreover have "map (\<lambda>n. ''node'' @ format_number ''08'' n @ ''.local'') [8..<Suc 11]
    = [''node08.local'', ''node09.local'', ''node10.local'', ''node11.local'']" by code_simp
  ultimately show ?thesis by simp
qed

text \<open>a range that ends at the largest machine integer is never expanded: the counter wraps
  around and the loop does not end.\<close>

theorem ExpandHostRange_never_returns:
  assumes "digits_only a" "newline \<notin> set p" "newline \<notin> set q" "CHR ''['' \<notin> set q" "read_nat a < 2 ^ 63"
  shows "ExpandHostRange (p @ CHR ''['' # a @ '':9223372036854775807]'' @ q) = None"
proof -
  let ?b = "''9223372036854775807''"
  have b: "digits_only ?b" by code_simp
  have v: "read_nat ?b = 9223372036854775807" by (simp add: read_nat_def digit_val_def)
  have "name_loop f i (word_of_int (int 9223372036854775807)) acc = None" for f i acc
    by (rule name_loop_never_ends, subst sint_word_nat) simp_all
  then show ?thesis
    using ExpandHostRange_pattern[OF assms(1) b assms(2,3,4), unfolded v] assms(5) by simp
qed

theorem ExpandHostRange_never_returns_witness: "ExpandHostRange (''n'' @ CHR ''['' # ''1'' @ '':9223372036854775807]'' @ []) = None"
proof -
  have "digits_only ''1''" "read_nat ''1'' = 1" by code_simp+
  then show ?thesis using ExpandHostRange_never_returns[of "''1''" "''n''" "[]"] by (simp add: newline_def)
qed

section \<open>Roles of hosts\<close>

lemma appendRoles_get:
  "role \<in> set (gm_getd [] (appendRoles names role' m) n) \<longleftrightarrow> role \<in> set (gm_getd [] m n) \<or> role = role' \<and> n \<in> set names"
  unfolding appendRoles_def by (induction names arbitrary: m) auto

lemma unique_roles_props:
  "set seen = set unique \<Longrightarrow> distinct unique \<Longrightarrow>
   distinct (unique_roles roles seen unique) \<and> set (unique_roles roles seen unique) = set unique \<union> (set roles - {[]})"
  by (induction roles seen unique rule: unique_roles.induct) auto

lemma uniqueRoles_props: "distinct (uniqueRoles roles)" "set (uniqueRoles roles) = set roles - {[]}"
  using unique_roles_props[of "[]" "[]" roles] by (simp_all add: uniqueRoles_def)

text \<open>The role groups as a relation.\<close>

definition in_group :: "RoleGroupsSpec \<Rightarrow> string \<Rightarrow> string \<Rightarrow> bool" where
  "in_group rg role name \<longleftrightarrow>
     (role = RoleMaster \<and> name \<in> set (rg_Master rg)) \<or> (role = RoleWorker \<and> name \<in> set (rg_Worker rg)) \<or>
     (role = RoleEtcd \<and> name \<in> set (rg_Etcd rg)) \<or> (role = RoleLoadBalancer \<and> name \<in> set (rg_LoadBalancer rg)) \<or>
     (role = RoleStorage \<and> name \<in> set (rg_Storage rg)) \<or> (role = RoleRegistry \<and> name \<in> set (rg_Registry rg))"

lemma role_map_get: "role \<in> set (gm_getd [] (role_map rg) name) \<longleftrightarrow> in_group rg role name"
  unfolding role_map_def appendRoles_get in_group_def by (simp only: gm_getd_Nil list.set empty_iff) blast

lemma in_group_nonempty: "in_group rg role name \<Longrightarrow> role \<noteq> [] \<and> role \<noteq> RoleControlPlane"
  by (auto simp: in_group_def role_names)

lemma role_table: "gm_get (fold (\<lambda>role m. gm_put role True m) roles m) r = (if r \<in> set roles then Some True else gm_get m r)"
  by (induction roles arbitrary: m) auto

lemma apply_roles_keeps: "hs_Name (apply_roles m host) = hs_Name host" "hs_Address (apply_roles m host) = hs_Address host"
  by (simp_all add: apply_roles_def Let_def)

lemma apply_roles_roles:
  assumes "in_group rg role0 (hs_Name host)"
  shows "distinct (hs_Roles (apply_roles (role_map rg) host))"
    and "role \<in> set (hs_Roles (apply_roles (role_map rg) host)) \<longleftrightarrow> in_group rg role (hs_Name host)"
    and "IsRole (hostImpl (apply_roles (role_map rg) host)) role \<longleftrightarrow> in_group rg role (hs_Name host)"
proof -
  let ?rs = "gm_getd [] (role_map rg) (hs_Name host)"
  have ne: "?rs \<noteq> []" using assms role_map_get[of role0 rg "hs_Name host"] by auto
  have mem: "role \<in> set (uniqueRoles ?rs) \<longleftrightarrow> in_group rg role (hs_Name host)" for role
    using in_group_nonempty[of rg role "hs_Name host"] by (auto simp: uniqueRoles_props role_map_get)
  show "distinct (hs_Roles (apply_roles (role_map rg) host))"
    and "role \<in> set (hs_Roles (apply_roles (role_map rg) host)) \<longleftrightarrow> in_group rg role (hs_Name host)"
    and "IsRole (hostImpl (apply_roles (role_map rg) host)) role \<longleftrightarrow> in_group rg role (hs_Name host)"
    using ne mem by (simp_all add: apply_roles_def Let_def uniqueRoles_props IsRole_def role_table)
qed

lemma group_names_iff: "name \<in> set (group_names rg) \<longleftrightarrow> (\<exists>role. in_group rg role name)"
  unfolding group_names_def in_group_def set_append Un_iff by blast

section \<open>What validation guarantees\<close>

lemma msg_if_Nil [simp]: "msg_if b m = [] \<longleftrightarrow> \<not> b"
  by (simp add: msg_if_def)

lemma validate_hosts_snd:
  "snd (validate_hosts i (host # hosts) names addrs) =
   snd (validate_hosts (Suc i) hosts (if hs_Name host \<noteq> [] then gm_put (hs_Name host) True names else names)
     (if hs_Address host \<noteq> [] then gm_put (hs_Address host) True addrs else addrs))"
  by (simp add: Let_def case_prod_beta)

lemma validate_hosts_names:
  "gm_getd False (snd (validate_hosts i hosts names addrs)) n \<longleftrightarrow> gm_getd False names n \<or> n \<noteq> [] \<and> n \<in> hs_Name ` set hosts"
  by (induction hosts arbitrary: i names addrs) (auto simp: validate_hosts_snd simp del: validate_hosts.simps(2))

lemma validate_hosts_keys:
  "gm_has (snd (validate_hosts i hosts names addrs)) n \<longleftrightarrow> gm_has names n \<or> n \<noteq> [] \<and> n \<in> hs_Name ` set hosts"
  by (induction hosts arbitrary: i names addrs) (auto simp: validate_hosts_snd simp del: validate_hosts.simps(2))

lemma validate_hosts_ok:
  "fst (validate_hosts i hosts names addrs) = [] \<Longrightarrow>
   distinct (map hs_Name hosts) \<and> distinct (map hs_Address hosts) \<and>
   (\<forall>h\<in>set hosts. hs_Name h \<noteq> [] \<and> hs_Address h \<noteq> [] \<and> \<not> gm_getd False names (hs_Name h) \<and> \<not> gm_getd False addrs (hs_Address h))"
proof (induction i hosts names addrs rule: validate_hosts.induct)
  case (2 i host hosts hostNames hostAddresses)
  have ne: "hs_Name host \<noteq> []" "hs_Address host \<noteq> []"
    using 2(2) by (auto simp: Let_def Validate_HostSpec_def split: prod.splits if_splits)
  with 2(2) have new: "\<not> gm_getd False hostNames (hs_Name host)" "\<not> gm_getd False hostAddresses (hs_Address host)"
    and rest: "fst (validate_hosts (Suc i) hosts (gm_put (hs_Name host) True hostNames) (gm_put (hs_Address host) True hostAddresses)) = []"
    by (auto simp: Let_def split: prod.splits)
  from 2(1)[OF refl refl refl refl refl refl] rest ne
  have "distinct (map hs_Name hosts)" "distinct (map hs_Address hosts)"
    "\<forall>h\<in>set hosts. hs_Name h \<noteq> [] \<and> hs_Address h \<noteq> [] \<and> \<not> gm_getd False (gm_put (hs_Name host) True hostNames) (hs_Name h)
       \<and> \<not> gm_getd False (gm_put (hs_Address host) True hostAddresses) (hs_Address h)"
    by auto
  with ne new show ?case by (fastforce split: if_splits)
qed simp

lemma validateRoleGroup_Nil: "validateRoleGroup hostNames names role = [] \<longleftrightarrow> (\<forall>n\<in>set names. gm_getd False hostNames n)"
  by (auto simp: validateRoleGroup_def filter_empty_conv)

lemma validate_role_groups_Nil:
  "validate_role_groups hostNames groups = [] \<longleftrightarrow>
   (\<exists>rg. groups = Some rg \<and> (\<forall>n\<in>set (group_names rg). gm_getd False hostNames n) \<and>
      (\<forall>n. gm_has hostNames n \<longrightarrow> n \<in> set (group_names rg)) \<and> rg_Master rg \<noteq> [])"
  by (cases groups) (auto simp: validate_role_groups_def validateRoleGroup_Nil filter_empty_conv group_names_def gm_has_iff)

lemma Validate_Cluster_Nil:
  assumes "Validate_Cluster env c = []"
  shows "distinct (map hs_Name (cl_Hosts c)) \<and> distinct (map hs_Address (cl_Hosts c)) \<and> cl_Hosts c \<noteq> [] \<and>
    (\<forall>h\<in>set (cl_Hosts c). hs_Name h \<noteq> []) \<and>
    (\<exists>rg. kc_RoleGroups c = Some rg \<and> set (group_names rg) = hs_Name ` set (cl_Hosts c) \<and> rg_Master rg \<noteq> [])"
proof -
  let ?v = "validate_hosts 0 (cl_Hosts c) [] []"
  from assms have "fst ?v = []" "validate_role_groups (snd ?v) (kc_RoleGroups c) = []" "cl_Hosts c \<noteq> []"
    by (auto simp: Validate_Cluster_def Validate_ClusterSpec_def split: prod.splits if_splits)
  note v = this
  from v(2) obtain rg where rg: "kc_RoleGroups c = Some rg" "rg_Master rg \<noteq> []" "\<forall>n\<in>set (group_names rg). n \<in> hs_Name ` set (cl_Hosts c)"
    "\<forall>n. n \<noteq> [] \<and> n \<in> hs_Name ` set (cl_Hosts c) \<longrightarrow> n \<in> set (group_names rg)"
    unfolding validate_role_groups_Nil validate_hosts_names validate_hosts_keys by auto
  note ok = validate_hosts_ok[OF v(1)]
  then have "set (group_names rg) = hs_Name ` set (cl_Hosts c)" using rg(3,4) by blast
  with rg ok v(3) show ?thesis by blast
qed

section \<open>Expansion of validated role groups\<close>

lemma expand_each_plain:
  "\<forall>n\<in>set names. CHR ''['' \<notin> set n \<and> TrimSpace n \<noteq> [] \<Longrightarrow> expand_each names acc = Some (Inr (acc @ names))"
  by (induction names arbitrary: acc) (auto simp: ExpandHostRange_plain)

lemma expand_each_Inr_plain:
  "expand_each names acc = Some (Inr r) \<Longrightarrow> \<forall>n\<in>set names. CHR ''['' \<notin> set n \<Longrightarrow> r = acc @ names"
proof (induction names arbitrary: acc)
  case (Cons n names)
  have "find_range n = None" using Cons.prems(2) find_range_bracket[of n] by (cases "find_range n") auto
  then have "ExpandHostRange n = Some (Inl EmptyPattern) \<or> ExpandHostRange n = Some (Inr [n])" by (auto simp: ExpandHostRange_def)
  then show ?case using Cons.prems Cons.IH[of "acc @ [n]"] by auto
qed simp

lemma expand_group_Inr:
  "expand_group role names k = Some (Inr r) \<Longrightarrow> \<forall>n\<in>set names. CHR ''['' \<notin> set n \<Longrightarrow> k names = Some (Inr r)"
  by (auto simp: expand_group_def ExpandRoleGroupHosts_def split: option.splits sum.splits dest!: expand_each_Inr_plain)

lemma expand_role_groups_Inr:
  assumes "expand_role_groups rg = Some (Inr rg')" "\<forall>n\<in>set (group_names rg). CHR ''['' \<notin> set n"
  shows "rg' = rg"
proof -
  have "\<forall>n\<in>set (rg_Master rg). CHR ''['' \<notin> set n" "\<forall>n\<in>set (rg_Worker rg). CHR ''['' \<notin> set n" "\<forall>n\<in>set (rg_Etcd rg). CHR ''['' \<notin> set n"
    "\<forall>n\<in>set (rg_LoadBalancer rg). CHR ''['' \<notin> set n" "\<forall>n\<in>set (rg_Storage rg). CHR ''['' \<notin> set n" "\<forall>n\<in>set (rg_Registry rg). CHR ''['' \<notin> set n"
    using assms(2) by (simp_all add: group_names_def)
  note plain = this
  from assms(1)[unfolded expand_role_groups_def, THEN expand_group_Inr, OF plain(1), THEN expand_group_Inr, OF plain(2),
      THEN expand_group_Inr, OF plain(3), THEN expand_group_Inr, OF plain(4), THEN expand_group_Inr, OF plain(5),
      THEN expand_group_Inr, OF plain(6)] show ?thesis by (cases rg) simp
qed

lemma processed_ok:
  assumes "processClusterConfig env False c = Some (Inr c')"
    and "\<forall>h\<in>set (cl_Hosts c'). CHR ''['' \<notin> set (hs_Name h)"
  shows "distinct (map hs_Name (cl_Hosts c'))" "distinct (map hs_Address (cl_Hosts c'))"
    and "\<exists>rg. kc_RoleGroups c' = Some rg \<and> set (group_names rg) = hs_Name ` set (cl_Hosts c') \<and>
      (\<forall>h\<in>set (cl_Hosts c'). hs_Roles h \<noteq> [] \<and> distinct (hs_Roles h) \<and>
         (\<forall>role. (role \<in> set (hs_Roles h) \<longleftrightarrow> in_group rg role (hs_Name h)) \<and> (IsRole (hostImpl h) role \<longleftrightarrow> role \<in> set (hs_Roles h)))) \<and>
      (\<exists>h\<in>set (cl_Hosts c'). RoleMaster \<in> set (hs_Roles h))"
proof -
  obtain c1 groups where c1: "Validate_Cluster env c1 = []" and groups: "resolve_role_groups False (cl_Hosts c1) (kc_RoleGroups c1) = Some (Inr groups)"
    and c': "c' = c1\<lparr>kc_RoleGroups := groups, cl_Hosts := ApplyRoleGroupsToHosts groups (cl_Hosts c1)\<rparr>"
    using assms(1) by (auto simp: processClusterConfig_def Let_def split: sum.splits option.splits if_splits)
  from Validate_Cluster_Nil[OF c1] obtain rg where
    hosts: "distinct (map hs_Name (cl_Hosts c1))" "distinct (map hs_Address (cl_Hosts c1))" "cl_Hosts c1 \<noteq> []"
    and rg: "kc_RoleGroups c1 = Some rg" "set (group_names rg) = hs_Name ` set (cl_Hosts c1)" "rg_Master rg \<noteq> []" by blast
  obtain rg' where rg': "groups = Some rg'" "expand_role_groups rg = Some (Inr rg')"
    using groups rg(1) by (auto simp: resolve_role_groups_def split: option.splits sum.splits)
  then have hs: "cl_Hosts c' = map (apply_roles (role_map rg')) (cl_Hosts c1)"
    using hosts(3) c' by (simp add: ApplyRoleGroupsToHosts_def)
  then have names: "map hs_Name (cl_Hosts c') = map hs_Name (cl_Hosts c1)" "map hs_Address (cl_Hosts c') = map hs_Address (cl_Hosts c1)"
    by (simp_all add: apply_roles_keeps)
  have same: "hs_Name ` set (cl_Hosts c') = hs_Name ` set (cl_Hosts c1)" using arg_cong[OF names(1), of set] by simp
  have "\<forall>n\<in>set (group_names rg). CHR ''['' \<notin> set n"
    using assms(2) unfolding rg(2) same[symmetric] by blast
  with rg'(2) have [simp]: "rg' = rg" by (rule expand_role_groups_Inr)
  show "distinct (map hs_Name (cl_Hosts c'))" "distinct (map hs_Address (cl_Hosts c'))" using hosts names by simp_all
  have roles: "hs_Roles h \<noteq> [] \<and> distinct (hs_Roles h) \<and>
      (\<forall>role. (role \<in> set (hs_Roles h) \<longleftrightarrow> in_group rg role (hs_Name h)) \<and> (IsRole (hostImpl h) role \<longleftrightarrow> role \<in> set (hs_Roles h)))"
    if h: "h \<in> set (cl_Hosts c')" for h
  proof -
    obtain g where g: "g \<in> set (cl_Hosts c1)" "h = apply_roles (role_map rg) g"
      using h unfolding hs \<open>rg' = rg\<close> set_map by blast
    then obtain role0 where r: "in_group rg role0 (hs_Name g)" using rg(2) group_names_iff by blast
    note roles = apply_roles_roles[OF r]
    have "hs_Roles h \<noteq> []" using roles(2)[of role0] r g(2) by auto
    then show ?thesis using roles g(2) by (simp add: apply_roles_keeps)
  qed
  obtain m where "m \<in> set (rg_Master rg)" using rg(3) by (cases "rg_Master rg") auto
  then have m: "in_group rg RoleMaster m" "m \<in> hs_Name ` set (cl_Hosts c1)" using rg(2) by (auto simp: in_group_def group_names_def)
  then obtain h where "h \<in> set (cl_Hosts c')" "hs_Name h = m" unfolding same[symmetric] by blast
  note h = this
  have "RoleMaster \<in> set (hs_Roles h)" using roles[OF h(1)] m(1) h(2) by simp
  with h(1) have "\<exists>h\<in>set (cl_Hosts c'). RoleMaster \<in> set (hs_Roles h)" by blast
  moreover have "set (group_names rg) = hs_Name ` set (cl_Hosts c')" using rg(2) same by simp
  moreover have groups': "kc_RoleGroups c' = Some rg" using c' rg'(1) by simp
  ultimately show "\<exists>rg. kc_RoleGroups c' = Some rg \<and> set (group_names rg) = hs_Name ` set (cl_Hosts c') \<and>
      (\<forall>h\<in>set (cl_Hosts c'). hs_Roles h \<noteq> [] \<and> distinct (hs_Roles h) \<and>
         (\<forall>role. (role \<in> set (hs_Roles h) \<longleftrightarrow> in_group rg role (hs_Name h)) \<and> (IsRole (hostImpl h) role \<longleftrightarrow> role \<in> set (hs_Roles h)))) \<and>
      (\<exists>h\<in>set (cl_Hosts c'). RoleMaster \<in> set (hs_Roles h))"
    using roles groups' by blast
qed


definition example_config_env :: config_env where
  "example_config_env = \<lparr>ce_WorkDir = ''/work'', ce_SectionDefaults = (\<lambda>s. s), ce_SectionErrors = (\<lambda>_. []), ce_PrimaryIP = Inr ''10.0.0.9''\<rparr>"

definition example_groups :: RoleGroupsSpec where
  "example_groups = empty_role_groups\<lparr>rg_Master := [''node1''], rg_Worker := [''node1'', ''node2''], rg_Etcd := [''node1'']\<rparr>"

definition example_config :: "RoleGroupsSpec \<Rightarrow> Cluster" where
  "example_config rg =
     \<lparr>cl_Name = ''prod'', cl_Global = \<lparr>gs_User = [], gs_Password = ''pw'', gs_Port = 0, gs_PrivateKey = [], gs_PrivateKeyPath = [],
        gs_WorkDir = [], gs_Verbose = False, gs_IgnoreErr = False, gs_ConnectionTimeout = 0, gs_OfflineMode = False\<rparr>,
      cl_Hosts = [zero_HostSpec\<lparr>hs_Name := ''node1'', hs_Address := ''10.0.0.1''\<rparr>, zero_HostSpec\<lparr>hs_Name := ''node2'', hs_Address := ''10.0.0.2''\<rparr>],
      kc_APIVersion = [], kc_Kind = [], kc_HasSpec = True, kc_RoleGroups = Some rg,
      kc_Sections = \<lparr>sec_EtcdType = Some ''exists'', sec_ControlPlaneEndpoint = None\<rparr>\<rparr>"

lemma case_SomeInr: "(case r of Some (Inr c) \<Rightarrow> Q c | _ \<Rightarrow> False) \<Longrightarrow> \<exists>c. r = Some (Inr c) \<and> Q c"
  by (auto split: option.splits sum.splits)

lemma example_config_processed:
  "case processClusterConfig example_config_env False (example_config example_groups) of
     Some (Inr c') \<Rightarrow> map hs_Name (cl_Hosts c') = [''node1'', ''node2''] | _ \<Rightarrow> False"
  by code_simp


section \<open>Ranges in role groups\<close>

lemma Contains_split:
  assumes "q \<notin> set t"
  shows "Contains (x @ q # y) t \<longleftrightarrow> Contains x t \<or> Contains y t"
proof
  assume "Contains (x @ q # y) t"
  then obtain u v where "x @ q # y = u @ t @ v" by (auto simp: Contains_iff)
  then consider w where "x = u @ w" "w @ q # y = t @ v" | w where "x @ w = u" "q # y = w @ t @ v"
    by (auto simp: append_eq_append_conv2)
  then show "Contains x t \<or> Contains y t"
  proof cases
    case 1
    from 1(2) consider z where "w = t @ z" | z where "w @ z = t" "q # y = z @ v" by (auto simp: append_eq_append_conv2)
    then show ?thesis
    proof cases
      case 1
      then show ?thesis using \<open>x = u @ w\<close> by (auto simp: Contains_iff)
    next
      case 2
      then have "z = []" using assms by (cases z) auto
      then show ?thesis using 2 \<open>x = u @ w\<close> by (auto simp: Contains_iff intro: exI[of _ u])
    qed
  next
    case 2
    then show ?thesis using assms by (cases w; cases t) (auto simp: Contains_iff)
  qed
qed (auto simp: Contains_iff intro: append_assoc[symmetric], metis append_Cons append_assoc, metis append_Cons append_assoc)

definition group_titles :: "string list" where
  "group_titles = [''master'', ''worker'', ''etcd'', ''registry'', ''loadbalancer'', ''storage'']"

lemma SetDefaults_Cluster_keeps:
  "map hs_Name (cl_Hosts (SetDefaults_Cluster env c)) = map hs_Name (cl_Hosts c)"
  "kc_RoleGroups (SetDefaults_Cluster env c) = kc_RoleGroups c" "kc_HasSpec (SetDefaults_Cluster env c) = kc_HasSpec c"
  by (simp_all add: SetDefaults_Cluster_def SetDefaults_ClusterSpec_def Let_def SetDefaults_HostSpec_keeps)

lemma ensureLocalHost_hosts:
  assumes "kc_HasSpec c" "cl_Hosts c \<noteq> []"
  shows "\<exists>c1. ensureLocalHostIfEmpty env (normalizeDeploymentTypes (SetDefaults_Cluster env c)) = Inr c1 \<and>
    hs_Name ` set (cl_Hosts c1) = hs_Name ` set (cl_Hosts c) \<and> kc_RoleGroups c1 = kc_RoleGroups c \<and> kc_HasSpec c1"
proof -
  let ?d = "SetDefaults_Cluster env c"
  note keeps = SetDefaults_Cluster_keeps[of env c]
  have "cl_Hosts ?d \<noteq> []" using keeps(1) assms(2) by (metis map_is_Nil_conv)
  moreover have "hs_Name ` set (cl_Hosts ?d) = hs_Name ` set (cl_Hosts c)" using arg_cong[OF keeps(1), of set] by simp
  ultimately show ?thesis using keeps(2,3) assms(1) by (simp add: ensureLocalHostIfEmpty_def normalizeDeploymentTypes_def)
qed

lemma undefined_entry_reported:
  assumes "kc_HasSpec c" "kc_RoleGroups c = Some rg" "e \<in> set (group_names rg)" "e \<notin> hs_Name ` set (cl_Hosts c)"
  shows "\<exists>role\<in>set group_titles. undefined_msg role e \<in> set (Validate_Cluster env c)"
proof -
  let ?names = "snd (validate_hosts 0 (cl_Hosts c) [] [])"
  have "\<not> gm_getd False ?names e" using assms(4) by (simp add: validate_hosts_names)
  then have "e \<in> set ns \<Longrightarrow> undefined_msg role e \<in> set (validateRoleGroup ?names ns role)" for ns role
    by (simp add: validateRoleGroup_def)
  then have "\<exists>role\<in>set group_titles. undefined_msg role e \<in> set (validate_role_groups ?names (Some rg))"
    using assms(3) unfolding group_names_def validate_role_groups_def set_append Un_iff option.case
    by (auto simp: group_titles_def)
  moreover have "set (validate_role_groups ?names (Some rg)) \<subseteq> set (Validate_Cluster env c)"
    unfolding Validate_Cluster_def Validate_ClusterSpec_def case_prod_beta set_append assms(2)
    using assms(1) by (simp only: if_False not_True_eq_False set_append) blast
  ultimately show ?thesis by blast
qed

lemma undefined_entry_not_filtered:
  assumes "role \<in> set group_titles"
    and "\<not> Contains e ''.hosts''" "\<not> Contains e ''.roleGroups''"
  shows "\<not> Contains (undefined_msg role e) ''.hosts'' \<and> \<not> Contains (undefined_msg role e) ''.roleGroups''"
proof -
  let ?pre = "\<lambda>role. ''spec/roleGroups.'' @ role @ '': host ''" and ?post = "'' is not defined in the hosts list''"
  have msg: "undefined_msg role e = ?pre role @ CHR 0x27 # e @ CHR 0x27 # ?post" by (simp add: undefined_msg_def quoted_def)
  have q: "CHR 0x27 \<notin> set ''.hosts''" "CHR 0x27 \<notin> set ''.roleGroups''" by simp_all
  have "list_all (\<lambda>role. \<not> Contains (?pre role) ''.hosts'' \<and> \<not> Contains (?pre role) ''.roleGroups'') group_titles" by code_simp
  then have "\<not> Contains (?pre role) ''.hosts''" "\<not> Contains (?pre role) ''.roleGroups''" using assms(1) unfolding list_all_iff by blast+
  moreover have "\<not> Contains ?post ''.hosts''" "\<not> Contains ?post ''.roleGroups''" by code_simp+
  ultimately show ?thesis unfolding msg Contains_split[OF q(1)] Contains_split[OF q(2)] using assms(2,3) by blast
qed

text \<open>a role group with a host range is refused although the names it expands to are defined:
  the configuration is validated before ranges are expanded, and an entry that is not itself the name of
  a host is an error. Skipping the validation of hosts does not help, because the filter looks for
  \<^verbatim>\<open>.roleGroups\<close> and the message says \<^verbatim>\<open>spec/roleGroups\<close>.\<close>

theorem host_ranges_rejected:
  assumes "kc_HasSpec c" "cl_Hosts c \<noteq> []" "kc_RoleGroups c = Some rg" "e \<in> set (group_names rg)"
    and "ExpandHostRange e = Some (Inr names)" "set names \<subseteq> hs_Name ` set (cl_Hosts c)" "e \<notin> hs_Name ` set (cl_Hosts c)"
    and "\<not> Contains e ''.hosts''" "\<not> Contains e ''.roleGroups''"
  shows "\<exists>errs. processClusterConfig env skipHostValidation c = Some (Inl (ValidationFailed errs))"
proof -
  from ensureLocalHost_hosts[OF assms(1,2), of env] obtain c1 where
    c1: "ensureLocalHostIfEmpty env (normalizeDeploymentTypes (SetDefaults_Cluster env c)) = Inr c1"
    "hs_Name ` set (cl_Hosts c1) = hs_Name ` set (cl_Hosts c)" "kc_RoleGroups c1 = Some rg" "kc_HasSpec c1" using assms(3) by auto
  obtain role where role: "role \<in> set group_titles"
    "undefined_msg role e \<in> set (Validate_Cluster env c1)"
    using undefined_entry_reported[OF c1(4,3) assms(4), of env] assms(7) c1(2) by blast
  from undefined_entry_not_filtered[OF role(1) assms(8,9)] role(2)
  have "Validate_Cluster env c1 \<noteq> []" "filterHostValidationErrors (Validate_Cluster env c1) \<noteq> []"
    unfolding filterHostValidationErrors_def filter_empty_conv by (auto simp del: Contains.simps)
  then show ?thesis by (simp add: processClusterConfig_def c1(1) Let_def)
qed

theorem host_ranges_rejected_witness:
  "\<exists>errs. processClusterConfig example_config_env True (example_config (example_groups\<lparr>rg_Worker := [''node[1:2]'']\<rparr>)) = Some (Inl (ValidationFailed errs))"
proof -
  let ?rg = "example_groups\<lparr>rg_Worker := [''node[1:2]'']\<rparr>"
  have "digits_only ''1''" "digits_only ''2''" "read_nat ''1'' = 1" "read_nat ''2'' = 2" by code_simp+
  moreover have "map (\<lambda>n. ''node'' @ format_number ''1'' n @ []) [1..<Suc 2] = [''node1'', ''node2'']" by code_simp
  ultimately have e: "ExpandHostRange ''node[1:2]'' = Some (Inr [''node1'', ''node2''])"
    using ExpandHostRange_pattern[of "''1''" "''2''" "''node''" "[]"] name_loop_range[of 2 1] by (simp add: newline_def del: upt_Suc)
  have f: "\<not> Contains ''node[1:2]'' ''.hosts''" "\<not> Contains ''node[1:2]'' ''.roleGroups''" by code_simp+
  have rg: "''node[1:2]'' \<in> set (group_names ?rg)" by (simp add: group_names_def)
  have hosts: "hs_Name ` set (cl_Hosts (example_config ?rg)) = {''node1'', ''node2''}" by (simp add: example_config_def)
  show ?thesis
    by (rule host_ranges_rejected[where rg = ?rg and e = "''node[1:2]''" and names = "[''node1'', ''node2'']"])
       (simp_all add: e f rg hosts, simp_all add: example_config_def)
qed

end
