(* ===== verification/HostTasks.thy ===== *)
theory HostTasks
  imports Tasks Config Pipelines
begin

text \<open>
  The tasks that plan steps for the hosts of a role: backup and restore (\<^verbatim>\<open>task/backup\<close>), health checks
  (\<^verbatim>\<open>task/kubernetes/health.go\<close>), reconfiguration (\<^verbatim>\<open>task/reconfigure\<close>) and the connectivity check
  (\<^verbatim>\<open>task/preflight/check_connectivity.go\<close>). They run against the runtime context of \<open>Runtime\<close>; the step
  builders, identified by the name of their constructor, are an argument.
\<close>

section \<open>Task environment\<close>

type_synonym step_builders = "string \<Rightarrow> Context \<Rightarrow> string list \<Rightarrow> goerr + Step"

record task_env =
  te_Context :: "Context \<times> bags"
  te_Spec :: ClusterSpec
  te_Stamp :: string
  te_Build :: step_builders

definition node_host :: "connector_Host \<Rightarrow> Host" where
  "node_host h = \<lparr>h_Name = GetName h, h_Address = GetAddress h, h_Roles = GetRoles h\<rparr>"

text \<open>A query for a role returns hosts that are not nil (\<open>hosts_with_role\<close>), or panics.\<close>

definition with_hosts :: "task_env \<Rightarrow> string \<Rightarrow> (connector_Host list \<Rightarrow> (goerr, 'a) answer) \<Rightarrow> (goerr, 'a) answer" where
  "with_hosts env role k =
     (case GetHostsByRole role (fst (te_Context env)) of Inl e \<Rightarrow> Panics e | Inr hosts \<Rightarrow> k (List.map_filter (\<lambda>h. h) hosts))"

text \<open>
  A planned step: the constructor of its builder, the arguments after the context, the name of its
  node and the text of the error if it cannot be built. The nodes of one host form a chain.
  When a host occurs twice, \<^verbatim>\<open>AddNode\<close> refuses its second nodes with an error the tasks ignore.
\<close>

type_synonym step_plan = "string \<times> string list \<times> string \<times> string"

fun build_steps :: "step_builders \<Rightarrow> Context \<Rightarrow> Host option list \<Rightarrow> step_plan list \<Rightarrow> goerr + ExecutionNode list" where
  "build_steps build ctx hosts [] = Inr []"
| "build_steps build ctx hosts ((constr, args, nm, failure) # plans) =
     (case build constr ctx args of
        Inl e \<Rightarrow> Inl (failure @ '': '' @ e)
      | Inr s \<Rightarrow> (case build_steps build ctx hosts plans of Inl e \<Rightarrow> Inl e | Inr ns \<Rightarrow> Inr (task_node nm s hosts # ns)))"

definition host_context :: "task_env \<Rightarrow> string \<Rightarrow> connector_Host \<Rightarrow> Context" where
  "host_context env taskName h = ForHost (fst (ForTask taskName (te_Context env))) (Some h)"

fun build_hosts :: "task_env \<Rightarrow> string \<Rightarrow> (connector_Host \<Rightarrow> step_plan list) \<Rightarrow> connector_Host list \<Rightarrow> goerr + ExecutionNode list list" where
  "build_hosts env taskName plan [] = Inr []"
| "build_hosts env taskName plan (h # hosts) =
     (case build_steps (te_Build env) (host_context env taskName h) [Some (node_host h)] (plan h) of
        Inl e \<Rightarrow> Inl e
      | Inr chain \<Rightarrow> (case build_hosts env taskName plan hosts of Inl e \<Rightarrow> Inl e | Inr rest \<Rightarrow> Inr (chain # rest)))"

definition chain_links :: "ExecutionNode list \<Rightarrow> (NodeID \<times> NodeID) list" where
  "chain_links ns = zip (map nd_Name ns) (tl (map nd_Name ns))"

definition plan_hosts :: "task_env \<Rightarrow> string \<Rightarrow> (connector_Host \<Rightarrow> step_plan list) \<Rightarrow> connector_Host list \<Rightarrow>
    (goerr, ExecutionFragment option) answer" where
  "plan_hosts env taskName plan hosts =
     (if length hosts = 0 then Returns (Some (NewExecutionFragment taskName)) None
      else case build_hosts env taskName plan hosts of
        Inl e \<Rightarrow> Returns None (Some e)
      | Inr nss \<Rightarrow> plan_fragment taskName (concat nss) (concat (map chain_links nss)))"

definition required_on :: "task_env \<Rightarrow> string \<Rightarrow> (goerr, bool) answer" where
  "required_on env role = with_hosts env role (\<lambda>hosts. Returns (length hosts > 0) None)"

definition required_on_nodes :: "task_env \<Rightarrow> (goerr, bool) answer" where
  "required_on_nodes env = with_hosts env RoleControlPlane (\<lambda>cpHosts. with_hosts env RoleWorker (\<lambda>workerHosts.
     Returns (length cpHosts + length workerHosts > 0) None))"

definition for_host :: "string \<Rightarrow> connector_Host \<Rightarrow> string" where
  "for_host prefix h = prefix @ CHR ''-'' # GetName h"

section \<open>Backup\<close>

definition BackupPKITask_IsRequired :: "task_env \<Rightarrow> (goerr, bool) answer" where
  "BackupPKITask_IsRequired env = required_on env RoleMaster"

definition BackupPKITask_Plan :: "task_env \<Rightarrow> (goerr, ExecutionFragment option) answer" where
  "BackupPKITask_Plan env = with_hosts env RoleMaster (\<lambda>hosts.
     let c = fst (te_Context env);
         backupDir = cx_GlobalWorkDir c @ ''/backups/'' @ (case cx_ClusterName c of None \<Rightarrow> [] | Some n \<Rightarrow> n) @ ''/'' @ te_Stamp env @ ''/pki'';
         pkiSourcePath = (case cs_Kubernetes (te_Spec env) of
            Some k \<Rightarrow> if ku_Type k = ''kubexm'' then ''/etc/kubexm/pki'' else ''/etc/kubernetes/pki''
          | None \<Rightarrow> ''/etc/kubernetes/pki'')
     in plan_hosts env ''BackupPKI''
       (\<lambda>h. [(''NewBackupPKIStepBuilder'', [''BackupPKI'', pkiSourcePath, backupDir], ''BackupPKI'', ''failed to create PKI backup step'')])
       (take 1 hosts))"

definition BackupEtcdTask_IsRequired :: "task_env \<Rightarrow> (goerr, bool) answer" where
  "BackupEtcdTask_IsRequired env = required_on env RoleMaster"

definition BackupEtcdTask_Plan :: "task_env \<Rightarrow> (goerr, ExecutionFragment option) answer" where
  "BackupEtcdTask_Plan env = with_hosts env RoleMaster (\<lambda>hosts.
     plan_hosts env ''BackupEtcd''
       (\<lambda>h. [(''NewBackupEtcdStepBuilder'', [''BackupEtcd''], ''BackupEtcd'', ''failed to create etcd backup step'')])
       (take 1 hosts))"

definition BackupK8sConfigsTask_IsRequired :: "task_env \<Rightarrow> (goerr, bool) answer" where
  "BackupK8sConfigsTask_IsRequired env = required_on env RoleMaster"

definition BackupK8sConfigsTask_Plan :: "task_env \<Rightarrow> (goerr, ExecutionFragment option) answer" where
  "BackupK8sConfigsTask_Plan env = with_hosts env RoleMaster (\<lambda>hosts.
     plan_hosts env ''BackupK8sConfigs''
       (\<lambda>h. [(''NewBinaryFetchConfigsStepBuilder'', [for_host ''BackupK8sConfigs'' h], for_host ''BackupK8sConfigs'' h,
              ''failed to create K8s config backup step for '' @ GetName h)])
       hosts)"

section \<open>Restore\<close>

definition RestorePKITask_IsRequired :: "task_env \<Rightarrow> (goerr, bool) answer" where
  "RestorePKITask_IsRequired env = required_on env RoleMaster"

definition RestorePKITask_Plan :: "task_env \<Rightarrow> (goerr, ExecutionFragment option) answer" where
  "RestorePKITask_Plan env = with_hosts env RoleMaster (\<lambda>hosts.
     plan_hosts env ''RestorePKI''
       (\<lambda>h. [(''NewKubexmDistributeK8sPKIStepBuilder'', [for_host ''RestorePKI'' h], for_host ''RestorePKI'' h,
              ''failed to create PKI restore step for '' @ GetName h)])
       hosts)"

definition RestoreEtcdTask_IsRequired :: "task_env \<Rightarrow> (goerr, bool) answer" where
  "RestoreEtcdTask_IsRequired env =
     (case cs_Etcd (te_Spec env) of
        Some e \<Rightarrow> if et_Type e = ''external'' then Returns False None else required_on env RoleMaster
      | None \<Rightarrow> required_on env RoleMaster)"

definition restore_etcd_plan :: "string \<Rightarrow> connector_Host \<Rightarrow> step_plan list" where
  "restore_etcd_plan snapshotPath h =
     [(''NewStopEtcdStepBuilder'', [for_host ''StopEtcd'' h], for_host ''StopEtcd'' h, ''failed to create etcd stop step for '' @ GetName h),
      (''NewRestoreEtcdStepBuilder'', [for_host ''RestoreEtcd'' h, snapshotPath], for_host ''RestoreEtcd'' h,
       ''failed to create etcd restore step for '' @ GetName h),
      (''NewStartEtcdStepBuilder'', [for_host ''StartEtcd'' h], for_host ''StartEtcd'' h, ''failed to create etcd start step for '' @ GetName h)]"

definition RestoreEtcdTask_Plan :: "task_env \<Rightarrow> string \<Rightarrow> (goerr, ExecutionFragment option) answer" where
  "RestoreEtcdTask_Plan env snapshotPath = with_hosts env RoleMaster (\<lambda>hosts.
     if length hosts > 0 \<and> snapshotPath = []
     then Returns None (Some ''snapshot path is required for etcd restore. Please provide --snapshot-path flag pointing to the backup snapshot file'')
     else plan_hosts env ''RestoreEtcd'' (restore_etcd_plan snapshotPath) hosts)"

definition RestoreK8sConfigsTask_IsRequired :: "task_env \<Rightarrow> (goerr, bool) answer" where
  "RestoreK8sConfigsTask_IsRequired env = required_on env RoleMaster"

definition RestoreK8sConfigsTask_Plan :: "task_env \<Rightarrow> (goerr, ExecutionFragment option) answer" where
  "RestoreK8sConfigsTask_Plan env = with_hosts env RoleMaster (\<lambda>hosts.
     plan_hosts env ''RestoreK8sConfigs''
       (\<lambda>h. [(''NewRestoreFetchedConfigsStepBuilder'', [for_host ''RestoreK8sConfigs'' h], for_host ''RestoreK8sConfigs'' h,
              ''failed to create K8s configs restore step for '' @ GetName h)])
       hosts)"

section \<open>Health\<close>

definition health_plan :: "string \<Rightarrow> string \<Rightarrow> string \<Rightarrow> connector_Host \<Rightarrow> step_plan list" where
  "health_plan constr instance component h =
     [(constr, [instance], for_host instance h, ''failed to create '' @ component @ '' health step for '' @ GetName h)]"

definition CheckAPIServerHealthTask_IsRequired :: "task_env \<Rightarrow> (goerr, bool) answer" where
  "CheckAPIServerHealthTask_IsRequired env = required_on env RoleControlPlane"

definition CheckAPIServerHealthTask_Plan :: "task_env \<Rightarrow> (goerr, ExecutionFragment option) answer" where
  "CheckAPIServerHealthTask_Plan env = with_hosts env RoleControlPlane
     (plan_hosts env ''CheckAPIServerHealth'' (health_plan ''NewVerifyAPIServerHealthStepBuilder'' ''VerifyAPIServerHealth'' ''apiserver''))"

definition CheckSchedulerHealthTask_IsRequired :: "task_env \<Rightarrow> (goerr, bool) answer" where
  "CheckSchedulerHealthTask_IsRequired env = required_on env RoleControlPlane"

definition CheckSchedulerHealthTask_Plan :: "task_env \<Rightarrow> (goerr, ExecutionFragment option) answer" where
  "CheckSchedulerHealthTask_Plan env = with_hosts env RoleControlPlane
     (plan_hosts env ''CheckSchedulerHealth'' (health_plan ''NewVerifySchedulerHealthStepBuilder'' ''VerifySchedulerHealth'' ''scheduler''))"

definition CheckControllerManagerHealthTask_IsRequired :: "task_env \<Rightarrow> (goerr, bool) answer" where
  "CheckControllerManagerHealthTask_IsRequired env = required_on env RoleControlPlane"

definition CheckControllerManagerHealthTask_Plan :: "task_env \<Rightarrow> (goerr, ExecutionFragment option) answer" where
  "CheckControllerManagerHealthTask_Plan env = with_hosts env RoleControlPlane
     (plan_hosts env ''CheckControllerManagerHealth''
       (health_plan ''NewVerifyControllerManagerHealthStepBuilder'' ''VerifyControllerManagerHealth'' ''controller-manager''))"

definition CheckKubeletHealthTask_IsRequired :: "task_env \<Rightarrow> (goerr, bool) answer" where
  "CheckKubeletHealthTask_IsRequired env = required_on_nodes env"

definition CheckKubeletHealthTask_Plan :: "task_env \<Rightarrow> (goerr, ExecutionFragment option) answer" where
  "CheckKubeletHealthTask_Plan env = with_hosts env RoleControlPlane (\<lambda>cpHosts. with_hosts env RoleWorker (\<lambda>workerHosts.
     plan_hosts env ''CheckKubeletHealth'' (health_plan ''NewVerifyKubeletHealthStepBuilder'' ''VerifyKubeletHealth'' ''kubelet'')
       (cpHosts @ workerHosts)))"

definition CheckClusterHealthTask_IsRequired :: "task_env \<Rightarrow> (goerr, bool) answer" where
  "CheckClusterHealthTask_IsRequired env = required_on env RoleControlPlane"

definition CheckClusterHealthTask_Plan :: "task_env \<Rightarrow> (goerr, ExecutionFragment option) answer" where
  "CheckClusterHealthTask_Plan env = with_hosts env RoleControlPlane (\<lambda>hosts.
     plan_hosts env ''CheckClusterHealth''
       (\<lambda>h. [(''NewCheckClusterHealthStepBuilder'', [''CheckClusterHealth''], ''CheckClusterHealth'', ''failed to create cluster health step'')])
       (take 1 hosts))"

section \<open>Reconfiguration\<close>

definition reconfigure_plan :: "string \<Rightarrow> string \<Rightarrow> string \<Rightarrow> string \<Rightarrow> string \<Rightarrow> string \<Rightarrow> connector_Host \<Rightarrow> step_plan list" where
  "reconfigure_plan constr configNode configFailure restartNode restartFailure service h =
     [(constr, [for_host configNode h], for_host configNode h, configFailure @ GetName h),
      (''NewManageServiceStepBuilder'', [for_host restartNode h, service, ''restart''], for_host restartNode h, restartFailure @ GetName h)]"

definition ReconfigureAPIServerTask_IsRequired :: "task_env \<Rightarrow> (goerr, bool) answer" where
  "ReconfigureAPIServerTask_IsRequired env = required_on env RoleControlPlane"

definition ReconfigureAPIServerTask_Plan :: "task_env \<Rightarrow> (goerr, ExecutionFragment option) answer" where
  "ReconfigureAPIServerTask_Plan env = with_hosts env RoleControlPlane (plan_hosts env ''ReconfigureAPIServer''
     (reconfigure_plan ''NewConfigureKubeAPIServerStepBuilder'' ''ConfigureAPIServer'' ''failed to create apiserver configure step for ''
        ''RestartAPIServer'' ''failed to create apiserver restart step for '' ''kube-apiserver''))"

definition ReconfigureSchedulerTask_IsRequired :: "task_env \<Rightarrow> (goerr, bool) answer" where
  "ReconfigureSchedulerTask_IsRequired env = required_on env RoleControlPlane"

definition ReconfigureSchedulerTask_Plan :: "task_env \<Rightarrow> (goerr, ExecutionFragment option) answer" where
  "ReconfigureSchedulerTask_Plan env = with_hosts env RoleControlPlane (plan_hosts env ''ReconfigureScheduler''
     (reconfigure_plan ''NewConfigureKubeSchedulerStepBuilder'' ''ConfigureScheduler'' ''failed to create scheduler configure step for ''
        ''RestartScheduler'' ''failed to create scheduler restart step for '' ''kube-scheduler''))"

definition ReconfigureControllerManagerTask_IsRequired :: "task_env \<Rightarrow> (goerr, bool) answer" where
  "ReconfigureControllerManagerTask_IsRequired env = required_on env RoleControlPlane"

definition ReconfigureControllerManagerTask_Plan :: "task_env \<Rightarrow> (goerr, ExecutionFragment option) answer" where
  "ReconfigureControllerManagerTask_Plan env = with_hosts env RoleControlPlane (plan_hosts env ''ReconfigureControllerManager''
     (reconfigure_plan ''NewConfigureKubeControllerManagerStepBuilder'' ''ConfigureControllerManager''
        ''failed to create controller-manager configure step for ''
        ''RestartControllerManager'' ''failed to create controller-manager restart step for '' ''kube-controller-manager''))"

definition ReconfigureKubeletTask_IsRequired :: "task_env \<Rightarrow> (goerr, bool) answer" where
  "ReconfigureKubeletTask_IsRequired env = required_on_nodes env"

definition ReconfigureKubeletTask_Plan :: "task_env \<Rightarrow> (goerr, ExecutionFragment option) answer" where
  "ReconfigureKubeletTask_Plan env = with_hosts env RoleControlPlane (\<lambda>cpHosts. with_hosts env RoleWorker (\<lambda>workerHosts.
     plan_hosts env ''ReconfigureKubelet''
       (reconfigure_plan ''NewCreateKubeletConfigYAMLStepBuilder'' ''GenerateKubeletConfig'' ''failed to create kubelet config step for ''
          ''RestartKubelet'' ''failed to create kubelet restart step for '' ''kubelet'')
       (cpHosts @ workerHosts)))"

definition ReconfigureProxyTask_IsRequired :: "task_env \<Rightarrow> (goerr, bool) answer" where
  "ReconfigureProxyTask_IsRequired env = required_on_nodes env"

definition ReconfigureProxyTask_Plan :: "task_env \<Rightarrow> (goerr, ExecutionFragment option) answer" where
  "ReconfigureProxyTask_Plan env = with_hosts env RoleControlPlane (\<lambda>cpHosts. with_hosts env RoleWorker (\<lambda>workerHosts.
     plan_hosts env ''ReconfigureProxy''
       (reconfigure_plan ''NewCreateKubeProxyConfigYAMLStepBuilder'' ''GenerateProxyConfig'' ''failed to create proxy config step for ''
          ''RestartProxy'' ''failed to create proxy restart step for '' ''kube-proxy'')
       (cpHosts @ workerHosts)))"

section \<open>Connectivity\<close>

definition getAllHosts :: "task_env \<Rightarrow> (connector_Host list \<Rightarrow> (goerr, 'a) answer) \<Rightarrow> (goerr, 'a) answer" where
  "getAllHosts env k =
     with_hosts env RoleMaster (\<lambda>masters. with_hosts env RoleWorker (\<lambda>workers. with_hosts env RoleEtcd (\<lambda>etcdHosts.
       let allHosts = fold (\<lambda>eh all. if list_ex (\<lambda>ah. GetAddress eh = GetAddress ah) all then all else all @ [eh]) etcdHosts (masters @ workers)
       in with_hosts env RoleLoadBalancer (\<lambda>lbHosts. k (allHosts @ lbHosts)))))"

definition CheckConnectivityTask_Plan :: "task_env \<Rightarrow> (goerr, ExecutionFragment option) answer" where
  "CheckConnectivityTask_Plan env = getAllHosts env (\<lambda>allHosts.
     if length allHosts = 0 then Returns (Some (NewEmptyFragment ''CheckConnectivity'')) None
     else plan_hosts env ''CheckConnectivity''
       (\<lambda>h. [(''NewCheckConnectivityStepBuilder'', [GetName h], ''CheckConnectivity-'' @ GetAddress h,
              ''failed to create check connectivity step for '' @ GetAddress h)])
       allHosts)"

section \<open>The tasks as answers\<close>

definition host_task :: "string \<Rightarrow> (goerr, bool) answer \<Rightarrow> (goerr, ExecutionFragment option) answer \<Rightarrow> Task" where
  "host_task nm required plan = \<lparr>tk_Name = nm, tk_IsRequired = required, tk_Plan = plan\<rparr>"

fun maintenance_task :: "task_env \<Rightarrow> maintenance_task \<Rightarrow> Task" where
  "maintenance_task env BackupPKITask = host_task ''BackupPKI'' (BackupPKITask_IsRequired env) (BackupPKITask_Plan env)"
| "maintenance_task env BackupEtcdTask = host_task ''BackupEtcd'' (BackupEtcdTask_IsRequired env) (BackupEtcdTask_Plan env)"
| "maintenance_task env BackupK8sConfigsTask = host_task ''BackupK8sConfigs'' (BackupK8sConfigsTask_IsRequired env) (BackupK8sConfigsTask_Plan env)"
| "maintenance_task env RestorePKITask = host_task ''RestorePKI'' (RestorePKITask_IsRequired env) (RestorePKITask_Plan env)"
| "maintenance_task env (RestoreEtcdTask p) = host_task ''RestoreEtcd'' (RestoreEtcdTask_IsRequired env) (RestoreEtcdTask_Plan env p)"
| "maintenance_task env RestoreK8sConfigsTask = host_task ''RestoreK8sConfigs'' (RestoreK8sConfigsTask_IsRequired env) (RestoreK8sConfigsTask_Plan env)"
| "maintenance_task env CheckClusterHealthTask = host_task ''CheckClusterHealth'' (CheckClusterHealthTask_IsRequired env) (CheckClusterHealthTask_Plan env)"
| "maintenance_task env CheckAPIServerHealthTask = host_task ''CheckAPIServerHealth'' (CheckAPIServerHealthTask_IsRequired env) (CheckAPIServerHealthTask_Plan env)"
| "maintenance_task env CheckSchedulerHealthTask = host_task ''CheckSchedulerHealth'' (CheckSchedulerHealthTask_IsRequired env) (CheckSchedulerHealthTask_Plan env)"
| "maintenance_task env CheckControllerManagerHealthTask =
     host_task ''CheckControllerManagerHealth'' (CheckControllerManagerHealthTask_IsRequired env) (CheckControllerManagerHealthTask_Plan env)"
| "maintenance_task env CheckKubeletHealthTask = host_task ''CheckKubeletHealth'' (CheckKubeletHealthTask_IsRequired env) (CheckKubeletHealthTask_Plan env)"
| "maintenance_task env ReconfigureAPIServerTask =
     host_task ''ReconfigureAPIServer'' (ReconfigureAPIServerTask_IsRequired env) (ReconfigureAPIServerTask_Plan env)"
| "maintenance_task env ReconfigureSchedulerTask =
     host_task ''ReconfigureScheduler'' (ReconfigureSchedulerTask_IsRequired env) (ReconfigureSchedulerTask_Plan env)"
| "maintenance_task env ReconfigureControllerManagerTask =
     host_task ''ReconfigureControllerManager'' (ReconfigureControllerManagerTask_IsRequired env) (ReconfigureControllerManagerTask_Plan env)"
| "maintenance_task env ReconfigureKubeletTask = host_task ''ReconfigureKubelet'' (ReconfigureKubeletTask_IsRequired env) (ReconfigureKubeletTask_Plan env)"
| "maintenance_task env ReconfigureProxyTask = host_task ''ReconfigureProxy'' (ReconfigureProxyTask_IsRequired env) (ReconfigureProxyTask_Plan env)"

text \<open>Task answers in which the tasks of this theory are the modelled ones.\<close>

definition with_host_tasks :: "task_env \<Rightarrow> tasks \<Rightarrow> tasks" where
  "with_host_tasks env other kind =
     (case kind of
        Maintenance t \<Rightarrow> maintenance_task env t
      | Preflight CheckConnectivityTask \<Rightarrow> host_task ''CheckConnectivity'' (Returns True None) (CheckConnectivityTask_Plan env)
      | _ \<Rightarrow> other kind)"

section \<open>The fragments the tasks build\<close>

definition plan_names :: "(connector_Host \<Rightarrow> step_plan list) \<Rightarrow> connector_Host \<Rightarrow> string list" where
  "plan_names plan h = map (\<lambda>(constr, args, nm, failure). nm) (plan h)"

definition builds_all :: "task_env \<Rightarrow> bool" where
  "builds_all env \<longleftrightarrow> (\<forall>constr ctx args. \<exists>s. te_Build env constr ctx args = Inr s)"

lemma build_steps_ok:
  assumes "\<forall>constr ctx args. \<exists>s. build constr ctx args = Inr s"
  shows "\<exists>ns. build_steps build ctx hosts plans = Inr ns \<and> map nd_Name ns = map (\<lambda>(constr, args, nm, failure). nm) plans \<and>
    (\<forall>n\<in>set ns. nd_Dependencies n = [])"
proof (induction plans)
  case (Cons p plans)
  obtain constr args nm failure where p: "p = (constr, args, nm, failure)" by (cases p)
  obtain s where "build constr ctx args = Inr s" using assms by blast
  with Cons show ?case by (auto simp: p)
qed simp

lemma build_hosts_ok:
  assumes "builds_all env"
  shows "\<exists>nss. build_hosts env nm plan hosts = Inr nss \<and> map (map nd_Name) nss = map (plan_names plan) hosts \<and>
    (\<forall>n\<in>set (concat nss). nd_Dependencies n = [])"
proof (induction hosts)
  case (Cons h hosts)
  obtain ns where "build_steps (te_Build env) (host_context env nm h) [Some (node_host h)] (plan h) = Inr ns"
    "map nd_Name ns = plan_names plan h" "\<forall>n\<in>set ns. nd_Dependencies n = []"
    using build_steps_ok[of "te_Build env"] assms by (fastforce simp: builds_all_def plan_names_def)
  with Cons show ?case by (auto simp: ball_Un)
qed simp

lemma forward_chain: "distinct xs \<Longrightarrow> forward xs (zip xs (tl xs))"
proof (induction xs)
  case (Cons x xs)
  then have fw: "forward xs (zip xs (tl xs))" by simp
  have "forward (x # xs) (zip xs (tl xs))"
    using fw Cons.prems by (fastforce simp: forward_def list_all_iff)
  then show ?case using Cons.prems by (cases xs) (auto simp: forward_def)
qed (simp add: forward_def)

lemma forward_append:
  assumes "forward xs es" "forward ys fs" "distinct (xs @ ys)"
  shows "forward (xs @ ys) (es @ fs)"
proof -
  have "takeWhile (\<lambda>x. x \<noteq> b) (xs @ ys) = takeWhile (\<lambda>x. x \<noteq> b) xs" if "b \<in> set xs" for b
    using that by (auto simp: takeWhile_append)
  moreover have "takeWhile (\<lambda>x. x \<noteq> b) (xs @ ys) = xs @ takeWhile (\<lambda>x. x \<noteq> b) ys" if "b \<in> set ys" for b
    using that assms(3) by (auto simp: takeWhile_append)
  ultimately show ?thesis using assms(1,2) by (fastforce simp: forward_def list_all_iff)
qed

lemma forward_concat: "distinct (concat xss) \<Longrightarrow> forward (concat xss) (concat (map (\<lambda>xs. zip xs (tl xs)) xss))"
proof (induction xss)
  case (Cons xs xss)
  then show ?case using forward_append[OF forward_chain[of xs]] by simp
qed (simp add: forward_def)

lemma plan_hosts_sound:
  assumes "builds_all env" "hosts \<noteq> []" "distinct (concat (map (plan_names plan) hosts))" "[] \<notin> set (concat (map (plan_names plan) hosts))"
  shows "\<exists>f. plan_hosts env nm plan hosts = Returns (Some f) None \<and> module_fragment f \<and>
    frag_ids f = (\<Union>h\<in>set hosts. set (plan_names plan h)) \<and>
    dep_rel (ef_Nodes f) = (\<Union>h\<in>set hosts. set (zip (plan_names plan h) (tl (plan_names plan h))))"
proof -
  from build_hosts_ok[OF assms(1)] obtain nss where nss: "build_hosts env nm plan hosts = Inr nss"
    "map (map nd_Name) nss = map (plan_names plan) hosts" "\<forall>n\<in>set (concat nss). nd_Dependencies n = []" by blast
  have names: "map nd_Name (concat nss) = concat (map (plan_names plan) hosts)" by (simp add: map_concat nss(2))
  have links: "concat (map chain_links nss) = concat (map (\<lambda>xs. zip xs (tl xs)) (map (plan_names plan) hosts))"
    unfolding nss(2)[symmetric] by (simp add: chain_links_def[abs_def] comp_def)
  have "forward (map nd_Name (concat nss)) (concat (map chain_links nss))"
    unfolding names links by (rule forward_concat[OF assms(3)])
  from plan_fragment_sound[OF _ _ nss(3) this, of nm] assms(3,4) obtain f where
    "plan_fragment nm (concat nss) (concat (map chain_links nss)) = Returns (Some f) None" "module_fragment f"
    "frag_ids f = nd_Name ` set (concat nss)" "dep_rel (ef_Nodes f) = set (concat (map chain_links nss))"
    by (metis names list.set_map)
  moreover have "nd_Name ` set (concat nss) = set (concat (map (plan_names plan) hosts))" by (metis names list.set_map)
  ultimately show ?thesis using nss(1) assms(2) by (auto simp: plan_hosts_def links)
qed

lemma map_filter_Some [simp]: "List.map_filter (\<lambda>h. h) (map Some hosts) = hosts"
  by (induction hosts) (simp_all add: List.map_filter_simps)

lemma with_hosts_known:
  "GetHostsByRole role (fst (te_Context env)) = Inr (map Some hosts) \<Longrightarrow> with_hosts env role k = k hosts"
  by (simp add: with_hosts_def)

lemma distinct_for_host:
  assumes "distinct (map GetName hosts)" "\<And>h h'. GetName h \<noteq> GetName h' \<Longrightarrow> set (plan_names plan h) \<inter> set (plan_names plan h') = {}"
    and "\<And>h. distinct (plan_names plan h)"
  shows "distinct (concat (map (plan_names plan) hosts))"
  using assms(1)
proof (induction hosts)
  case (Cons h hosts)
  have "set (plan_names plan h) \<inter> set (plan_names plan h') = {}" if "h' \<in> set hosts" for h'
    using Cons.prems that by (intro assms(2)) auto
  then show ?case using Cons assms(3) by auto
qed simp

text \<open>a planned restore of etcd consists of three nodes for every host with the role
  \<^verbatim>\<open>master\<close>, and on each of them etcd is stopped before the restore and started after it; there are no
  other dependencies.\<close>

theorem RestoreEtcdTask_Plan_order:
  assumes "GetHostsByRole RoleMaster (fst (te_Context env)) = Inr (map Some hosts)" "hosts \<noteq> []" "distinct (map GetName hosts)"
    and "builds_all env" "snapshotPath \<noteq> []"
  shows "\<exists>f. RestoreEtcdTask_Plan env snapshotPath = Returns (Some f) None \<and> module_fragment f \<and>
    frag_ids f = (\<Union>h\<in>set hosts. {''StopEtcd-'' @ GetName h, ''RestoreEtcd-'' @ GetName h, ''StartEtcd-'' @ GetName h}) \<and>
    dep_rel (ef_Nodes f) = (\<Union>h\<in>set hosts. {(''StopEtcd-'' @ GetName h, ''RestoreEtcd-'' @ GetName h),
      (''RestoreEtcd-'' @ GetName h, ''StartEtcd-'' @ GetName h)})"
proof -
  let ?plan = "restore_etcd_plan snapshotPath"
  have names: "plan_names ?plan h = [''StopEtcd-'' @ GetName h, ''RestoreEtcd-'' @ GetName h, ''StartEtcd-'' @ GetName h]" for h
    by (simp add: plan_names_def restore_etcd_plan_def for_host_def)
  have "distinct (concat (map (plan_names ?plan) hosts))"
    using assms(3) by (rule distinct_for_host) (simp_all only: names, auto)
  moreover have "[] \<notin> set (concat (map (plan_names ?plan) hosts))" by (simp add: names)
  ultimately show ?thesis using plan_hosts_sound[OF assms(4,2), of ?plan "''RestoreEtcd''"] assms(5)
    by (simp add: RestoreEtcdTask_Plan_def with_hosts_known[OF assms(1)] names)
qed

definition example_step :: Step where
  "example_step =
     (let meta = \<lparr>sm_Name = ''step'', sm_Description = [], sm_Hidden = False, sm_AllowFailure = False\<rparr>
      in \<lparr>stp_Meta = Some meta, stp_Base = \<lparr>sb_Meta = meta, sb_Timeout = 0, sb_Sudo = False, sb_IgnoreError = False\<rparr>\<rparr>)"

definition example_task_env :: "Context \<times> bags \<Rightarrow> task_env" where
  "example_task_env cb = \<lparr>te_Context = cb,
     te_Spec = \<lparr>cs_Kubernetes = None, cs_Etcd = None, cs_Network = None, cs_ControlPlaneEndpoint = None, cs_Addons = [], cs_Storage = None\<rparr>,
     te_Stamp = ''20240101-000000'', te_Build = (\<lambda>_ _ _. Inr example_step)\<rparr>"

theorem RestoreEtcdTask_Plan_order_witness:
  "\<exists>c bags caches f. Build example_env rev (NewBuilderFromConfig example_cluster) [] [] = Built (c, bags, caches) \<and>
     RestoreEtcdTask_Plan (example_task_env (c, bags)) ''/snap.db'' = Returns (Some f) None \<and>
     frag_ids f = {''StopEtcd-m1'', ''RestoreEtcd-m1'', ''StartEtcd-m1''}"
proof -
  let ?h = "hostImpl (example_host ''m1'' ''master'')"
  have "case Build example_env rev (NewBuilderFromConfig example_cluster) [] [] of Built (c, _) \<Rightarrow> GetHostsByRole ''master'' c = Inr [Some ?h] | _ \<Rightarrow> False"
    by code_simp
  then obtain c bags caches where c: "Build example_env rev (NewBuilderFromConfig example_cluster) [] [] = Built (c, bags, caches)"
    and m: "GetHostsByRole ''master'' c = Inr [Some ?h]" by (auto split: build.splits)
  have "\<exists>f. RestoreEtcdTask_Plan (example_task_env (c, bags)) ''/snap.db'' = Returns (Some f) None \<and>
     frag_ids f = (\<Union>h\<in>set [?h]. {''StopEtcd-'' @ GetName h, ''RestoreEtcd-'' @ GetName h, ''StartEtcd-'' @ GetName h})"
    using RestoreEtcdTask_Plan_order[of "example_task_env (c, bags)" "[?h]" "''/snap.db''"] m
    by (simp add: example_task_env_def RoleMaster_def builds_all_def) blast
  with c show ?thesis by (auto simp: GetName_def example_host_def zero_HostSpec_def)
qed

section \<open>Tasks for a role no host has\<close>

lemma role_hosts_of_processed:
  assumes "processClusterConfig cenv False cfg = Some (Inr cfg')" "\<forall>h\<in>set (cl_Hosts cfg'). CHR ''['' \<notin> set (hs_Name h)"
    and "Build benv order (WithSkipConfigValidation True (NewBuilderFromConfig (ClusterConfig.truncate cfg'))) bags caches = Built (c, bags', caches')"
    and "\<And>xs. mset (order xs) = mset xs" "ControlNodeHostName \<notin> hs_Name ` set (cl_Hosts cfg')"
  shows "GetHostsByRole RoleControlPlane c = Inr []" "\<exists>m hs. GetHostsByRole RoleMaster c = Inr (Some m # hs)"
proof -
  let ?b = "WithSkipConfigValidation True (NewBuilderFromConfig (ClusterConfig.truncate cfg'))"
  note ok = processed_ok[OF assms(1,2)]
  from ok(3) obtain rg where roles: "\<And>h role. h \<in> set (cl_Hosts cfg') \<Longrightarrow> role \<in> set (hs_Roles h) \<longleftrightarrow> in_group rg role (hs_Name h)"
    and tables: "\<And>h role. h \<in> set (cl_Hosts cfg') \<Longrightarrow> IsRole (hostImpl h) role \<longleftrightarrow> role \<in> set (hs_Roles h)"
    and master: "\<exists>h\<in>set (cl_Hosts cfg'). RoleMaster \<in> set (hs_Roles h)" by blast
  have [simp]: "cl_Hosts (ClusterConfig.truncate cfg') = cl_Hosts cfg'" by (simp add: ClusterConfig.truncate_def)
  have b: "\<not> bd_skipHostConnect ?b" "getOrParseConfig benv ?b = Built (ClusterConfig.truncate cfg')"
    by (simp_all add: WithSkipConfigValidation_def NewBuilderFromConfig_def getOrParseConfig_def)
  have noctrl: "\<forall>s\<in>set (cl_Hosts (ClusterConfig.truncate cfg')). \<not> IsRole (hostImpl s) ControlNodeRole"
    using roles tables by (auto simp: in_group_def role_names ControlNodeRole_def)
  have dist: "distinct (ControlNodeHostName # map hs_Name (cl_Hosts (ClusterConfig.truncate cfg')))" using ok(1) assms(5) by simp
  from built_hosts[OF assms(3) b dist assms(4) noctrl] obtain spec hosts where
    spec: "hs_Roles spec = [ControlNodeRole]" "mset hosts = mset (spec # cl_Hosts cfg')" "cx_controlNode c = Some (hostImpl spec)"
    and by_role: "\<And>role. role \<noteq> [] \<Longrightarrow> GetHostsByRole role c = Inr (map (\<lambda>s. Some (hostImpl s)) (filter (\<lambda>s. role \<in> set (hs_Roles s)) hosts))"
    by auto
  have members: "set hosts = insert spec (set (cl_Hosts cfg'))" using arg_cong[OF spec(2), of set_mset] by simp
  have "RoleControlPlane \<notin> set (hs_Roles h)" if "h \<in> set (cl_Hosts cfg')" for h
    using roles[OF that] by (auto simp: in_group_def role_names)
  then have "filter (\<lambda>s. RoleControlPlane \<in> set (hs_Roles s)) hosts = []"
    using members spec(1) by (auto simp: filter_empty_conv role_names ControlNodeRole_def)
  then show "GetHostsByRole RoleControlPlane c = Inr []" using by_role[of RoleControlPlane] by (simp add: role_names)
  show "\<exists>m hs. GetHostsByRole RoleMaster c = Inr (Some m # hs)"
  proof -
    have "filter (\<lambda>s. RoleMaster \<in> set (hs_Roles s)) hosts \<noteq> []" using master members by (auto simp: filter_empty_conv)
    then show ?thesis using by_role[of RoleMaster] by (cases "filter (\<lambda>s. RoleMaster \<in> set (hs_Roles s)) hosts") (auto simp: role_names)
  qed
qed

lemma with_hosts_none: "GetHostsByRole role (fst (te_Context env)) = Inr [] \<Longrightarrow> with_hosts env role k = k []"
  by (simp add: with_hosts_def List.map_filter_simps)

text \<open>C40: when the configuration has been processed and all hosts are connected, there is a
  master, but no host ever has the role \<^verbatim>\<open>control-plane\<close>: the health checks and the reconfiguration of the
  API server, the scheduler and the controller manager and the check of the whole cluster are never
  required.\<close>

theorem control_plane_tasks_never_required:
  assumes "processClusterConfig cenv False cfg = Some (Inr cfg')" "\<forall>h\<in>set (cl_Hosts cfg'). CHR ''['' \<notin> set (hs_Name h)"
    and "Build benv order (WithSkipConfigValidation True (NewBuilderFromConfig (ClusterConfig.truncate cfg'))) bags caches = Built (c, bags', caches')"
    and "\<And>xs. mset (order xs) = mset xs" "ControlNodeHostName \<notin> hs_Name ` set (cl_Hosts cfg')"
    and "fst (te_Context env) = c"
    and "t \<in> {CheckAPIServerHealthTask, CheckSchedulerHealthTask, CheckControllerManagerHealthTask, CheckClusterHealthTask,
      ReconfigureAPIServerTask, ReconfigureSchedulerTask, ReconfigureControllerManagerTask}"
  shows "tk_IsRequired (maintenance_task env t) = Returns False None \<and> (\<exists>m hs. GetHostsByRole RoleMaster c = Inr (Some m # hs))"
proof -
  note hosts = role_hosts_of_processed[OF assms(1-5)]
  have "required_on env RoleControlPlane = Returns False None"
    using hosts(1) assms(6) by (simp add: required_on_def with_hosts_none)
  with assms(7) hosts(2) show ?thesis
    by (auto simp: host_task_def CheckAPIServerHealthTask_IsRequired_def CheckSchedulerHealthTask_IsRequired_def
        CheckControllerManagerHealthTask_IsRequired_def CheckClusterHealthTask_IsRequired_def ReconfigureAPIServerTask_IsRequired_def
        ReconfigureSchedulerTask_IsRequired_def ReconfigureControllerManagerTask_IsRequired_def)
qed

lemma example_config_built:
  "case processClusterConfig example_config_env False (example_config example_groups) of
     Some (Inr c') \<Rightarrow> map hs_Name (cl_Hosts c') = [''node1'', ''node2''] \<and>
       (case Build example_env rev (WithSkipConfigValidation True (NewBuilderFromConfig (ClusterConfig.truncate c'))) [] [] of
          Built _ \<Rightarrow> True | _ \<Rightarrow> False)
   | _ \<Rightarrow> False"
  by code_simp

theorem control_plane_tasks_never_required_witness:
  "\<exists>cfg' c bags caches. processClusterConfig example_config_env False (example_config example_groups) = Some (Inr cfg') \<and>
     Build example_env rev (WithSkipConfigValidation True (NewBuilderFromConfig (ClusterConfig.truncate cfg'))) [] [] = Built (c, bags, caches) \<and>
     tk_IsRequired (maintenance_task (example_task_env (c, bags)) CheckAPIServerHealthTask) = Returns False None"
proof -
  let ?build = "\<lambda>cfg'. Build example_env rev (WithSkipConfigValidation True (NewBuilderFromConfig (ClusterConfig.truncate cfg'))) [] []"
  have "\<exists>cfg'. processClusterConfig example_config_env False (example_config example_groups) = Some (Inr cfg') \<and>
    map hs_Name (cl_Hosts cfg') = [''node1'', ''node2''] \<and> (case ?build cfg' of Built _ \<Rightarrow> True | _ \<Rightarrow> False)"
    by (rule case_SomeInr, rule example_config_built)
  then obtain cfg' where cfg: "processClusterConfig example_config_env False (example_config example_groups) = Some (Inr cfg')"
    and names: "map hs_Name (cl_Hosts cfg') = [''node1'', ''node2'']" and built: "case ?build cfg' of Built _ \<Rightarrow> True | _ \<Rightarrow> False"
    by (elim exE conjE)
  from built obtain c bags caches where c: "?build cfg' = Built (c, bags, caches)" by (cases "?build cfg'") auto
  have "\<forall>n\<in>set (map hs_Name (cl_Hosts cfg')). CHR ''['' \<notin> set n" unfolding names by simp
  then have bracket: "\<forall>h\<in>set (cl_Hosts cfg'). CHR ''['' \<notin> set (hs_Name h)" by simp
  have "ControlNodeHostName \<notin> set (map hs_Name (cl_Hosts cfg'))" unfolding names by (simp add: ControlNodeHostName_def)
  then have ctl: "ControlNodeHostName \<notin> hs_Name ` set (cl_Hosts cfg')" by simp
  have "fst (te_Context (example_task_env (c, bags))) = c" by (simp add: example_task_env_def)
  from control_plane_tasks_never_required[OF cfg bracket c mset_rev ctl this, of CheckAPIServerHealthTask] cfg c show ?thesis by auto
qed

section \<open>Tasks in a context without connections\<close>

lemma with_hosts_panics: "GetHostsByRole role (fst (te_Context env)) = Inl e \<Longrightarrow> with_hosts env role k = Panics e"
  by (simp add: with_hosts_def)

lemma tasks_panic:
  assumes "\<And>role. role \<noteq> [] \<Longrightarrow> \<exists>e. GetHostsByRole role (fst (te_Context env)) = Inl e"
  shows "\<exists>e. CheckConnectivityTask_Plan env = Panics e"
    and "t \<in> {BackupPKITask, BackupEtcdTask, BackupK8sConfigsTask} \<Longrightarrow> \<exists>e. tk_IsRequired (maintenance_task env t) = Panics e"
proof -
  obtain e where e: "GetHostsByRole RoleMaster (fst (te_Context env)) = Inl e" using assms[of RoleMaster] by (auto simp: role_names)
  note panics = with_hosts_panics[OF e]
  show "\<exists>e. CheckConnectivityTask_Plan env = Panics e" by (simp add: CheckConnectivityTask_Plan_def getAllHosts_def panics)
  show "\<exists>e. tk_IsRequired (maintenance_task env t) = Panics e" if "t \<in> {BackupPKITask, BackupEtcdTask, BackupK8sConfigsTask}"
    using that by (auto simp: host_task_def BackupPKITask_IsRequired_def BackupEtcdTask_IsRequired_def BackupK8sConfigsTask_IsRequired_def
        required_on_def panics)
qed

end
