(* ===== verification/Spec2Isabelle.thy ===== *)
theory Spec2Isabelle
  imports Scheduler RunnerFacts Network ExecutorCorrect PipelinesCorrect CacheConcurrent Pool DataFlow HostTasks
begin

text \<open>
  \<^bold>\<open>kubexm: planning and execution of cluster operations.\<close>

  kubexm installs and maintains Kubernetes clusters. A command selects a \<^emph>\<open>pipeline\<close>
  (\<^verbatim>\<open>src/internal/pipeline\<close>), a list of \<^emph>\<open>modules\<close> (\<^verbatim>\<open>src/internal/module\<close>), each of which plans
  \<^emph>\<open>tasks\<close> (\<^verbatim>\<open>src/internal/task\<close>). A task returns a fragment of a graph whose nodes run a \<^emph>\<open>step\<close> on
  a set of hosts; a module merges and links the fragments of its tasks, a pipeline those of its modules
  into one execution graph (\<^verbatim>\<open>src/internal/plan\<close>), which is validated and handed to the executor
  (\<^verbatim>\<open>src/internal/engine\<close>). The executor runs the graph with a pool of workers, retries and rolls
  back steps, skips what depends on a failure, and records its progress in a checkpoint file
  (\<^verbatim>\<open>src/internal/checkpoint\<close>). Planning happens in a runtime context (\<^verbatim>\<open>src/internal/runtime\<close>) that is
  built from the processed configuration (\<^verbatim>\<open>src/internal/config\<close>) and knows the hosts and their
  connections (\<^verbatim>\<open>src/internal/connector\<close>); steps exchange data through state bags and caches
  (\<^verbatim>\<open>src/internal/cache\<close>). The development follows these paths from the data types up.

  \<^bold>\<open>Theories and sources.\<close>

  \<^item> \<open>Prelude\<close>: Go maps as association lists with distinct keys, durations as 64-bit words, errors
    as option values, lemmas on lists and maps shared by all components.
  \<^item> \<open>Steps\<close>: \<^verbatim>\<open>types/result.go\<close>, \<^verbatim>\<open>step/base.go\<close>, \<^verbatim>\<open>step/extended.go\<close> (step results and the retry wrapper).
  \<^item> \<open>PlanGraph\<close>: \<^verbatim>\<open>plan/graph.go\<close>, \<^verbatim>\<open>plan/utils.go\<close>: nodes, dependencies, \<^verbatim>\<open>LinkFragments\<close>, entry and exit
    nodes, and \<^verbatim>\<open>Validate\<close> with its Kahn loop. \<open>PlanFragment\<close>: \<^verbatim>\<open>plan/fragment.go\<close>. \<open>PlanResult\<close>: \<^verbatim>\<open>plan/result.go\<close>.
  \<^item> \<open>GoPaths\<close>: \<^verbatim>\<open>filepath.Clean\<close> and \<^verbatim>\<open>filepath.Join\<close> as kubexm uses them.
  \<^item> \<open>CheckpointStore\<close>: \<^verbatim>\<open>checkpoint/checkpoint.go\<close> over a file system that is a map, with the I/O errors
    of each call as an environment.
  \<^item> \<open>HostRun\<close>: the part of \<^verbatim>\<open>engine/executor.go\<close> that runs one node on its hosts (\<^verbatim>\<open>runNode\<close>,
    \<^verbatim>\<open>runStepOnHost\<close>) with retries, back-off and rollback. \<open>Executor\<close>: the rest of that file, worker pool
    and main loop as the step relation \<open>exec_step\<close>. \<open>ExecutorCorrect\<close>: its invariant and theorems.
  \<^item> \<open>Planning\<close>: \<^verbatim>\<open>module/module.go\<close>, \<^verbatim>\<open>pipeline/safe_plan.go\<close> and the loop that all pipelines share
    (\<open>assemble\<close>, \<open>plan_modules\<close>) in its two styles, \<open>add_inline\<close> and \<open>add_linked\<close>.
  \<^item> \<open>ModuleTasks\<close>: what the modules read of the configuration, one constructor for every task they
    create, and the planning loops they share. \<open>Modules\<close>: the constructors and \<^verbatim>\<open>Plan\<close> methods of
    \<^verbatim>\<open>module/\<close>. \<open>ModulesCorrect\<close>: what these fragments contain.
  \<^item> \<open>Tasks\<close>: how a task builds its fragment, and \<^verbatim>\<open>task/kubernetes/kubeadm/install_component.go\<close>.
    \<open>HostTasks\<close>: backup, restore, health, reconfiguration and connectivity tasks over the runtime context.
  \<^item> \<open>Pipelines\<close>: the constructors, \<^verbatim>\<open>Plan\<close> and \<^verbatim>\<open>Run\<close> of \<^verbatim>\<open>pipeline/\<close>, and \<^verbatim>\<open>offline_mode.go\<close>.
    \<open>PipelinesCorrect\<close>: their properties. This theory joins planning and execution.
  \<^item> \<open>GoStrings\<close>, \<open>GoNet\<close>: the string, number and address functions of Go's library that are used.
  \<^item> \<open>Cache\<close>: \<^verbatim>\<open>cache/\<close>; \<open>CacheConcurrent\<close>: its operations as steps of interleaved goroutines.
  \<^item> \<open>Hosts\<close>: \<^verbatim>\<open>connector/host_impl.go\<close>, \<^verbatim>\<open>local_host.go\<close>, \<^verbatim>\<open>factory.go\<close>; \<open>Pool\<close>: \<^verbatim>\<open>connector/pool.go\<close> as the
    step relation \<open>pool_step\<close> of concurrent users.
  \<^item> \<open>Runtime\<close>: \<^verbatim>\<open>runtime/state.go\<close>, \<^verbatim>\<open>typed_state.go\<close>, \<^verbatim>\<open>context.go\<close>; \<open>Builder\<close>: \<^verbatim>\<open>runtime/builder.go\<close>; \<open>DataFlow\<close>:
    \<^verbatim>\<open>runtime/data_bus.go\<close>, \<^verbatim>\<open>data_flow.go\<close>, \<^verbatim>\<open>data_bus_v2.go\<close>.
  \<^item> \<open>Config\<close>: \<^verbatim>\<open>config/\<close> with the defaults and the validation of hosts, role groups and global settings from
    \<^verbatim>\<open>apis/kubexms/v1alpha1/cluster_types.go\<close>.
  \<^item> \<open>Scheduler\<close>: \<^verbatim>\<open>task/scheduler.go\<close> and the retry wrapper of \<^verbatim>\<open>task/extended.go\<close>.
  \<^item> \<open>Shell\<close>: the quoting functions of \<^verbatim>\<open>connector/local.go\<close> and \<^verbatim>\<open>util/strings.go\<close>, and how a POSIX shell splits a line
    into words. \<open>Connector\<close>: the errors, options and helpers both connectors use, and retry loops as such.
  \<^item> \<open>SshConnector\<close>, \<open>SshFiles\<close>: \<^verbatim>\<open>connector/ssh.go\<close> over an environment of sessions, SFTP calls, dialler and clock.
    \<open>LocalConnector\<close>: \<^verbatim>\<open>connector/local.go\<close> over an environment of processes and file calls.
  \<^item> \<open>Runner\<close>: \<^verbatim>\<open>runner/command.go\<close>, \<^verbatim>\<open>service.go\<close>, \<^verbatim>\<open>package.go\<close>; \<open>RunnerFiles\<close>: \<^verbatim>\<open>runner/file.go\<close>, \<^verbatim>\<open>user.go\<close>, \<^verbatim>\<open>system.go\<close>,
    all over an arbitrary connector; \<open>RunnerCorrect\<close>: which commands they run. \<open>RunnerFacts\<close>: detection, deployment of
    services and parsers of \<^verbatim>\<open>runner/runner.go\<close>.
  \<^item> \<open>Network\<close>: \<^verbatim>\<open>util/network.go\<close>, with addresses as lists of bytes and as numbers.

  \<^bold>\<open>Conventions.\<close> A struct is a record, a pointer an option, a map an association list in iteration
  order, so that a statement for all lists covers every iteration order. Errors are values of
  \<open>plan_error\<close>, \<open>module_error\<close> and \<open>pipe_error\<close>, which keep what a message names; a panic is its own
  outcome (\<open>Aborts\<close>, \<open>Panics\<close>, \<open>PCrashed\<close>, \<open>BuildPanics\<close>, \<open>DMPanics\<close>). Objects that are shared
  (caches, state bags, pools) live in lists and are passed by index. Tasks enter the modules as the function \<open>tasks\<close> from
  constructors to the answers of \<^verbatim>\<open>IsRequired\<close> and \<^verbatim>\<open>Plan\<close>, the engine enters \<^verbatim>\<open>Run\<close> as a function, the
  calls of steps and the clock enter the executor as an environment, and theorems hold for all of
  them. Logging is left out.

  \<^bold>\<open>Interfaces.\<close> \<open>keyed_store\<close> in \<open>Prelude\<close> is what the components need of a map;
  \<open>graph_interface\<close> in \<open>PlanGraph\<close> is what \<^verbatim>\<open>LinkFragments\<close> needs of a graph and is interpreted for
  graphs and fragments; \<open>mergeable_graph\<close> in \<open>PlanFragment\<close> extends it by the merge;
  \<open>fragment_adder\<close> in \<open>Planning\<close> is what the pipelines need of either assembling style, and
  \<open>exact_adder\<close> in \<open>PipelinesCorrect\<close> extends it; both styles interpret both. \<open>keyed_store\<close> is interpreted
  for the typed state bags in \<open>Runtime\<close> as well. \<open>retry_loop\<close> in \<open>Connector\<close> is a loop of attempts with a
  decision to go on; both connectors interpret it.

  \<^bold>\<open>What is shown.\<close>

  \<^item> Graphs: \<^verbatim>\<open>Validate\<close> accepts exactly the closed acyclic graphs with correct ends; merging and linking
    keep a plan a plan with exactly the expected edges.
  \<^item> Execution: safety, termination within \<open>3n + 2\<close> steps for \<open>n\<close> nodes, the verdict, and independence
    of the schedule for fresh runs; the deadlock of some resumed runs; dry runs.
  \<^item> Steps: verdict, number of attempts and back-off, with the overflow of the delay and the loss of errors.
  \<^item> Checkpoints: atomic replacement and round trip; the file shared between clusters.
  \<^item> Planning: assembled plans validate and order modules; both styles agree; panics are lost.
  \<^item> Modules: chained modules order their tasks, and the modules that do not.
  \<^item> Pipelines: well-formed constructors, required arguments, and two ways in which the plan for a new
    cluster goes wrong.
  \<^item> Caches: reads refine a scoped store, concurrent increments are linearizable, and every operation ends;
    expired items are used by some operations, and eviction can remove a fresh value.
  \<^item> Pool: connections are never shared, belong to their key and stay within the limits; the key ignores passwords.
  \<^item> Configuration and context: host ranges, what processing guarantees, the hosts of a built context, and
    ranges that validation refuses. Data managers are isolated; typed subscribers find nothing; a bus can block.
  \<^item> Tasks: the order of an etcd restore; tasks for a role no host has; a backup that succeeds without an effect.
  \<^item> Scheduler: it plans the tasks in an order that respects the dependencies whenever there is one, and names exactly
    the tasks that block otherwise.
  \<^item> Commands: quoting is the inverse of word splitting; when a command with retries succeeds; which words the shell
    reads for a file write with sudo; sudoers files are validated before they are installed; exactly the missing packages are
    installed; a deployed service is reloaded, enabled and restarted in order. Failures that read as answers, options
    without effect and paths that are not quoted.
  \<^item> Addresses: both tests for overlapping networks agree with common addresses, splitting is a partition, expansions list
    exactly the addresses, and where their sizes overflow; disks get exactly their partitions.
  \<^item> This theory: a planned and executed pipeline runs its modules one after the other, a failing module
    stops the rest, and the executor refines the sequence of modules.

  \<^bold>\<open>Bounds.\<close> The loops of the source end: the recursions are structural or have a measure (the Kahn
  loop, the skip loop), attempts are bounded by the retry limit. Two loops may run forever and are partial
  functions: \<^verbatim>\<open>Get\<close> of the cache, which ends on chains of parents as the constructors make them, and the
  expansion of a host range, which ends unless the range ends at the largest integer. The executor is a
  relation without fuel; that it ends is a theorem.

  \<^bold>\<open>Not modelled.\<close> Dialling, authentication, tar archives and downloads of \<^verbatim>\<open>connector/ssh.go\<close> and the copy operations of
  \<^verbatim>\<open>connector/local.go\<close>; the goroutines that gather facts and the wrappers for docker, containerd, kubectl, helm and virtual machines in
  \<^verbatim>\<open>runner/\<close>, which parse the output of other programs; the concrete steps (\<^verbatim>\<open>step/\<close>), which fill in text templates and run
  them on hosts. The other tasks enter by their answers; the other sections of the configuration (\<^verbatim>\<open>apis/\<close>), the other
  utilities (\<^verbatim>\<open>util/\<close>), the decoders, logger, templates and the command line are left out. Node pointers that a
  fragment and a graph share after a merge are values here: no code reads a fragment's nodes after its merge.

  \<^bold>\<open>Next.\<close> The remaining tasks of \<^verbatim>\<open>task/\<close> as fragments built with \<open>plan_hosts\<close>, which discharges the
  soundness and disjointness assumptions on the modules; the other sections of the configuration.
\<close>

section \<open>Planned pipelines\<close>

lemma assemble_no_error: "assemble add ms prev g = Done g' \<Longrightarrow> no_module_error ms"
proof (induction ms arbitrary: prev g)
  case (Cons m ms)
  obtain nm a where m: "m = (nm, a)" by fastforce
  obtain f e where sf: "SafeModulePlan a = (f, e)" by fastforce
  have e: "e = None" using Cons.prems by (cases e; cases f) (simp_all add: m sf)
  have "\<exists>prev g. assemble add ms prev g = Done g'"
    using Cons.prems e by (cases f) (auto simp: m sf split: if_splits outcome.splits)
  then have "no_module_error ms" using Cons.IH by blast
  then show ?case using e sf by (simp add: no_module_error_def m)
qed (simp add: no_module_error_def)

text \<open>Both kinds of \<^verbatim>\<open>Plan\<close>, without the recovery around them.\<close>

definition planned_as :: "tasks \<Rightarrow> PipelineContext \<Rightarrow> 'a Pipeline_scheme \<Rightarrow> ExecutionGraph \<Rightarrow> bool" where
  "planned_as tw ctx p g \<longleftrightarrow> plan_inline tw ctx p = Done g \<or> plan_linked tw ctx p = Done g"

lemma planned_sound:
  assumes "planned_as tw ctx p g" "fs = fragments_of tw ctx (pl_Modules p)" "\<And>f. f \<in> set fs \<Longrightarrow> module_fragment f"
  shows "Validate g = None" "node_ids (eg_Nodes g) = (\<Union>f \<in> set fs. frag_ids f)" "sorted_wrt frag_disjoint fs"
    "sorted_wrt (ordered_by (dep_rel (eg_Nodes g))) fs"
proof -
  let ?ms = "module_answers tw ctx p"
  have fs: "contributed ?ms = fs" using assms(2) by (simp add: contributed_answers)
  obtain add where add: "exact_adder add" "plan_modules add (pl_Name p) (pc_IsModuleContext ctx) ?ms = Done g"
    using assms(1) inline_exact.exact_adder_axioms linked_exact.exact_adder_axioms
    unfolding planned_as_def plan_inline_def plan_linked_def by blast
  then have adder: "fragment_adder add" by (simp add: exact_adder_def)
  have ctx: "pc_IsModuleContext ctx" using add(2) by (auto simp: plan_modules_def split: if_splits)
  then have "\<exists>g'. assemble add ?ms [] (NewExecutionGraph (pl_Name p)) = Done g'"
    using add(2) by (auto simp: plan_modules_def split: outcome.splits)
  then have no_error: "no_module_error ?ms" using assemble_no_error by blast
  show disj: "sorted_wrt frag_disjoint fs" using exact_adder.plan_modules_disjoint[OF add] fs by simp
  have "\<exists>g'. plan_modules add (pl_Name p) True ?ms = Done g' \<and> graph_plan g' \<and> Validate g' = None
      \<and> node_ids (eg_Nodes g') = (\<Union>f \<in> set fs. frag_ids f)
      \<and> dep_rel (eg_Nodes g') = (\<Union>f \<in> set fs. dep_rel (ef_Nodes f)) \<union> barrier_edges {} fs
      \<and> eg_EntryNodes g' = sorted_list_of_set (entry_ids (eg_Nodes g')) \<and> eg_ExitNodes g' = sorted_list_of_set (exit_ids (eg_Nodes g'))"
    using fragment_adder.plan_modules_plan[OF adder no_error, unfolded fs, OF module_fragment_result[OF assms(3)] disj] by blast
  then have g: "Validate g = None" "node_ids (eg_Nodes g) = (\<Union>f \<in> set fs. frag_ids f)"
    "dep_rel (eg_Nodes g) = (\<Union>f \<in> set fs. dep_rel (ef_Nodes f)) \<union> barrier_edges {} fs"
    using add(2) ctx by auto
  then show "Validate g = None" "node_ids (eg_Nodes g) = (\<Union>f \<in> set fs. frag_ids f)" by simp_all
  show "sorted_wrt (ordered_by (dep_rel (eg_Nodes g))) fs"
    by (rule barrier_ordered[where A = "{}"]) (use g(3) assms(3) contributed_nonempty[of _ ?ms] fs in auto)
qed

section \<open>Executing a planned pipeline\<close>

lemma released_after:
  assumes "run_inv ns s" "v \<in> set (x_tasks s @ x_started s)" "(d, v) \<in> (dep_rel ns)\<^sup>+"
  shows "d \<in> succeeded s"
proof -
  have ideg: "inv_deg ns s" and iq: "inv_queue ns s" using assms(1) by (simp_all add: run_inv_def exec_inv_def)
  have dep: "d \<in> succeeded s" if "v \<in> set (x_tasks s @ x_started s)" "(d, v) \<in> dep_rel ns" for d v
    using inv_deg_deps[OF ideg, of v] that by (auto simp: dep_rel_def)
  show ?thesis using assms(3,2)
  proof (induction rule: converse_trancl_induct)
    case (step d u)
    then have "u \<in> set (x_started s)" using inv_received_started[OF iq] by (auto simp: succeeded_def)
    then show ?case using dep[of u d] step.hyps(1) by simp
  qed (use dep in blast)
qed

lemma released_order:
  assumes inv: "run_inv (eg_Nodes g) s" and ord: "sorted_wrt (ordered_by (dep_rel (eg_Nodes g))) fs"
    and ij: "i < j" "j < length fs" and y: "y \<in> frag_ids (fs ! j)" "y \<in> set (x_tasks s @ x_started s)"
  shows "frag_ids (fs ! i) \<subseteq> succeeded s"
proof
  fix x assume "x \<in> frag_ids (fs ! i)"
  then have "(x, y) \<in> (dep_rel (eg_Nodes g))\<^sup>+"
    using ord ij y(1) by (auto simp: sorted_wrt_iff_nth_less ordered_by_def)
  then show "x \<in> succeeded s" using released_after[OF inv y(2)] by blast
qed



section \<open>A sequence of modules as the specification of the executor\<close>

text \<open>
  The specification knows only which of \<open>n\<close> modules have started and which have finished. A module
  may start when all earlier ones have finished, and finishes after it has started.
\<close>

record stages =
  sg_started :: "nat set"
  sg_finished :: "nat set"

inductive stage_step :: "nat \<Rightarrow> stages \<Rightarrow> stages \<Rightarrow> bool" for n where
  stage_start: "j < n \<Longrightarrow> {..<j} \<subseteq> sg_finished a \<Longrightarrow> stage_step n a (a\<lparr>sg_started := insert j (sg_started a)\<rparr>)"
| stage_finish: "j \<in> sg_started a \<Longrightarrow> stage_step n a (a\<lparr>sg_finished := insert j (sg_finished a)\<rparr>)"

definition stages_of :: "ExecutionFragment list \<Rightarrow> exec_state \<Rightarrow> stages" where
  "stages_of fs s =
     \<lparr>sg_started = {j. j < length fs \<and> frag_ids (fs ! j) \<inter> set (x_started s) \<noteq> {}},
      sg_finished = {j. j < length fs \<and> frag_ids (fs ! j) \<subseteq> succeeded s}\<rparr>"

lemma stages_of_cong: "set (x_started s') = set (x_started s) \<Longrightarrow> succeeded s' = succeeded s \<Longrightarrow> stages_of fs s' = stages_of fs s"
  by (simp add: stages_of_def)

lemma module_of:
  assumes "sorted_wrt frag_disjoint fs" "y \<in> frag_ids (fs ! j)" "j < length fs"
    and "k < length fs"
  shows "y \<in> frag_ids (fs ! k) \<longleftrightarrow> k = j"
proof -
  have "frag_disjoint (fs ! a) (fs ! b)" if "a < b" "b < length fs" for a b
    using assms(1) that by (simp add: sorted_wrt_iff_nth_less)
  then show ?thesis using assms(2-4) by (cases j k rule: linorder_cases) blast+
qed

lemma take_stage:
  assumes inv: "run_inv (eg_Nodes g) s" and ord: "sorted_wrt (ordered_by (dep_rel (eg_Nodes g))) fs"
    and disj: "sorted_wrt frag_disjoint fs" and ids: "node_ids (eg_Nodes g) = (\<Union>f \<in> set fs. frag_ids f)"
    and take: "y \<in> set (x_tasks s)" "x_started s' = x_started s @ [y]" "succeeded s' = succeeded s"
  shows "stage_step (length fs) (stages_of fs s) (stages_of fs s')"
proof -
  have "y \<in> node_ids (eg_Nodes g)" using inv take(1) by (auto simp: run_inv_def exec_inv_def inv_queue_def)
  then obtain j where j: "j < length fs" "y \<in> frag_ids (fs ! j)" unfolding ids by (auto simp: in_set_conv_nth)
  have "{k. k < length fs \<and> frag_ids (fs ! k) \<inter> set (x_started s') \<noteq> {}}
      = insert j {k. k < length fs \<and> frag_ids (fs ! k) \<inter> set (x_started s) \<noteq> {}}"
    using module_of[OF disj j(2,1)] j take(2) by auto
  then have "stages_of fs s' = (stages_of fs s)\<lparr>sg_started := insert j (sg_started (stages_of fs s))\<rparr>"
    using take(3) by (simp add: stages_of_def)
  moreover have "{..<j} \<subseteq> sg_finished (stages_of fs s)"
    using released_order[OF inv ord _ j] take(1) j(1) by (auto simp: stages_of_def)
  ultimately show ?thesis using stage_start[OF j(1)] by simp
qed

lemma receive_stage:
  assumes inv: "run_inv (eg_Nodes g) s'" and disj: "sorted_wrt frag_disjoint fs" "\<And>f. f \<in> set fs \<Longrightarrow> ef_Nodes f \<noteq> []"
    and ids: "node_ids (eg_Nodes g) = (\<Union>f \<in> set fs. frag_ids f)"
    and receive: "y \<in> node_ids (eg_Nodes g)" "x_started s' = x_started s" "succeeded s' = insert y (succeeded s)"
  shows "stages_of fs s' = stages_of fs s \<or> stage_step (length fs) (stages_of fs s) (stages_of fs s')"
proof -
  obtain j where j: "j < length fs" "y \<in> frag_ids (fs ! j)" using receive(1) unfolding ids by (auto simp: in_set_conv_nth)
  let ?F = "\<lambda>s. {k. k < length fs \<and> frag_ids (fs ! k) \<subseteq> succeeded s}"
  have sub: "?F s \<subseteq> ?F s'" "?F s' \<subseteq> insert j (?F s)"
    using module_of[OF disj(1) j(2,1)] receive(3) by auto
  show ?thesis
  proof (cases "j \<in> ?F s'")
    case False
    then have "?F s' = ?F s" using sub by blast
    then show ?thesis using receive(2) by (simp add: stages_of_def)
  next
    case True
    then have "?F s' = insert j (?F s)" using sub by blast
    then have eq: "stages_of fs s' = (stages_of fs s)\<lparr>sg_finished := insert j (sg_finished (stages_of fs s))\<rparr>"
      using receive(2) by (simp add: stages_of_def)
    have "y \<in> set (x_started s)"
      using inv receive(2,3) inv_received_started[of "eg_Nodes g" s'] by (auto simp: run_inv_def exec_inv_def succeeded_def)
    then have "j \<in> sg_started (stages_of fs s)" using j by (auto simp: stages_of_def)
    then show ?thesis using stage_finish[of j "stages_of fs s" "length fs"] eq by simp
  qed
qed

lemma receive_succeeded:
  assumes inv: "exec_inv ns s" and r: "x_results s = r # rs" and s': "s' = handle_result e io r (s\<lparr>x_results := rs\<rparr>)"
  shows "succeeded s' = (if wr_status r = StatusSuccess then insert (wr_nodeID r) (succeeded s) else succeeded s)"
    "wr_nodeID r \<in> node_ids ns"
proof -
  let ?i = "wr_nodeID r"
  have iq: "inv_queue ns s" and ist: "inv_status ns s" using inv by (simp_all add: exec_inv_def)
  note rc = receive_inv[OF inv r, of e io, folded s']
  have keep: "st s' d = st s d" if "d \<in> set (x_received s)" for d
    using rc(8) ist that by (auto simp: inv_status_def finished_def)
  show "succeeded s' = (if wr_status r = StatusSuccess then insert ?i (succeeded s) else succeeded s)"
    using rc(3,7) keep result_waiting(2)[OF inv r] by (auto simp: succeeded_def)
  have "?i \<in> set (x_started s)" by (rule result_waiting(1)[OF inv r])
  then show "?i \<in> node_ids ns" using iq by (auto simp: inv_queue_def)
qed

lemma exec_step_stage:
  assumes inv: "run_inv (eg_Nodes g) s" "run_inv (eg_Nodes g) s'" and ord: "sorted_wrt (ordered_by (dep_rel (eg_Nodes g))) fs"
    and disj: "sorted_wrt frag_disjoint fs" "\<And>f. f \<in> set fs \<Longrightarrow> ef_Nodes f \<noteq> []"
    and ids: "node_ids (eg_Nodes g) = (\<Union>f \<in> set fs. frag_ids f)" and step: "exec_step world e g s s'"
  shows "stages_of fs s' = stages_of fs s \<or> stage_step (length fs) (stages_of fs s) (stages_of fs s')"
  using step
proof cases
  case (worker_take i ts n)
  have "stage_step (length fs) (stages_of fs s) (stages_of fs s')"
    by (rule take_stage[OF inv(1) ord disj(1) ids, of i]) (use worker_take in \<open>auto simp: succeeded_def st_def\<close>)
  then show ?thesis ..
next
  case (main_receive r rs io)
  have ei: "exec_inv (eg_Nodes g) s" using inv(1) by (simp add: run_inv_def)
  note rs = receive_succeeded[OF ei main_receive(4,1)]
  have st: "x_started s' = x_started s" using receive_inv(4)[OF ei main_receive(4)] main_receive(1) by simp
  show ?thesis
  proof (cases "wr_status r = StatusSuccess")
    case True
    then show ?thesis using receive_stage[OF inv(2) disj ids rs(2) st] rs(1) by simp
  next
    case False
    then show ?thesis using stages_of_cong[of s' s] st rs(1) by simp
  qed
next
  case (main_finish io)
  then have "x_started s' = x_started s" "succeeded s' = succeeded s"
    by (auto simp: finish_execution_def succeeded_def st_def Let_def split: prod.splits)
  then show ?thesis using stages_of_cong[of s' s] by simp
qed (auto intro!: disjI1 stages_of_cong simp: succeeded_def st_def)


section \<open>An execution of the backup pipeline\<close>

text \<open>A backup of the certificates; the flag makes the connectivity check fail.\<close>

definition conditional_task :: "bool \<Rightarrow> string \<Rightarrow> Task" where
  "conditional_task c nm =
     \<lparr>tk_Name = nm, tk_IsRequired = Returns True None, tk_Plan = plan_fragment nm [(task_node nm idle_step [])\<lparr>nd_HasCondition := c\<rparr>] []\<rparr>"

fun backup_tasks :: "bool \<Rightarrow> task_kind \<Rightarrow> Task" where
  "backup_tasks c (Preflight CheckConnectivityTask) = conditional_task c ''connectivity''"
| "backup_tasks c (Maintenance BackupPKITask) = conditional_task False ''backup-pki''"
| "backup_tasks c k = not_required ''other''"

definition backup_graph :: "bool \<Rightarrow> ExecutionGraph" where
  "backup_graph c =
     (case plan_linked (backup_tasks c) (pipeline_ctx demo_spec) (NewBackupPipeline ''pki'') of Done g \<Rightarrow> g | _ \<Rightarrow> NewExecutionGraph [])"

definition backup_fragments :: "bool \<Rightarrow> ExecutionFragment list" where
  "backup_fragments c = fragments_of (backup_tasks c) (pipeline_ctx demo_spec) (pl_Modules (NewBackupPipeline ''pki''))"

definition backup_outcome :: "bool \<Rightarrow> NodeID \<Rightarrow> Status" where
  "backup_outcome c i = (if c \<and> i = ''connectivity'' then StatusFailed else StatusSuccess)"

lemma backup_planned: "planned_as (backup_tasks c) (pipeline_ctx demo_spec) (NewBackupPipeline ''pki'') (backup_graph c)"
proof -
  have "case plan_linked (backup_tasks True) (pipeline_ctx demo_spec) (NewBackupPipeline ''pki'') of Done g \<Rightarrow> True | _ \<Rightarrow> False"
    "case plan_linked (backup_tasks False) (pipeline_ctx demo_spec) (NewBackupPipeline ''pki'') of Done g \<Rightarrow> True | _ \<Rightarrow> False" by code_simp+
  then have "\<exists>g. plan_linked (backup_tasks c) (pipeline_ctx demo_spec) (NewBackupPipeline ''pki'') = Done g"
    by (cases c) (auto split: outcome.splits)
  then show ?thesis by (auto simp: planned_as_def backup_graph_def)
qed

lemma backup_sound:
  "f \<in> set (backup_fragments c) \<Longrightarrow> module_fragment f" "map (\<lambda>f. gm_keys (ef_Nodes f)) (backup_fragments c) = [[''connectivity''], [''backup-pki'']]"
proof -
  let ?ok = "\<lambda>f. usable f \<and> set (ef_EntryNodes f) = entry_ids (ef_Nodes f) \<and> set (ef_ExitNodes f) = exit_ids (ef_Nodes f)"
  have "list_all ?ok (backup_fragments True)" "list_all ?ok (backup_fragments False)" by code_simp+
  then show "f \<in> set (backup_fragments c) \<Longrightarrow> module_fragment f"
    using usable_result by (cases c) (auto simp: list_all_iff module_fragment_def module_result_def)
  have "map (\<lambda>f. gm_keys (ef_Nodes f)) (backup_fragments True) = [[''connectivity''], [''backup-pki'']]"
    "map (\<lambda>f. gm_keys (ef_Nodes f)) (backup_fragments False) = [[''connectivity''], [''backup-pki'']]" by code_simp+
  then show "map (\<lambda>f. gm_keys (ef_Nodes f)) (backup_fragments c) = [[''connectivity''], [''backup-pki'']]" by (cases c) simp_all
qed

lemma backup_ids: "length (backup_fragments c) = 2" "frag_ids (backup_fragments c ! 0) = {''connectivity''}" "frag_ids (backup_fragments c ! 1) = {''backup-pki''}"
proof -
  note k = backup_sound(2)[of c]
  show len: "length (backup_fragments c) = 2" using arg_cong[OF k, of length] by simp
  show "frag_ids (backup_fragments c ! 0) = {''connectivity''}" using arg_cong[OF k, of "\<lambda>xs. xs ! 0"] len by (simp add: node_ids_def)
  show "frag_ids (backup_fragments c ! 1) = {''backup-pki''}" using arg_cong[OF k, of "\<lambda>xs. xs ! 1"] len by (simp add: node_ids_def)
qed

definition graph_facts :: "bool \<Rightarrow> ExecutionGraph \<Rightarrow> bool" where
  "graph_facts c g \<longleftrightarrow> gm_ok (eg_Nodes g) \<and> Validate g = None
     \<and> list_all (\<lambda>(i, n). case n of None \<Rightarrow> False | Some n \<Rightarrow> node_runnable n \<and> host_names n = []
         \<and> map_option wr_status (runNode (ex_retry NewExecutor) demo_env i n) = Some (backup_outcome c i)) (eg_Nodes g)
     \<and> deps_of (eg_Nodes g) ''connectivity'' = [] \<and> deps_of (eg_Nodes g) ''backup-pki'' = [''connectivity'']"

lemma backup_graph_facts:
  "gm_ok (eg_Nodes (backup_graph c))" "Validate (backup_graph c) = None"
  "list_all (\<lambda>(i, n). case n of None \<Rightarrow> False | Some n \<Rightarrow> node_runnable n \<and> host_names n = []
     \<and> map_option wr_status (runNode (ex_retry NewExecutor) demo_env i n) = Some (backup_outcome c i)) (eg_Nodes (backup_graph c))"
  "deps_of (eg_Nodes (backup_graph c)) ''connectivity'' = []" "deps_of (eg_Nodes (backup_graph c)) ''backup-pki'' = [''connectivity'']"
proof -
  have "graph_facts True (backup_graph True)" "graph_facts False (backup_graph False)" by code_simp+
  then have "graph_facts c (backup_graph c)" by (cases c) simp_all
  then show "gm_ok (eg_Nodes (backup_graph c))" "Validate (backup_graph c) = None"
    "list_all (\<lambda>(i, n). case n of None \<Rightarrow> False | Some n \<Rightarrow> node_runnable n \<and> host_names n = []
       \<and> map_option wr_status (runNode (ex_retry NewExecutor) demo_env i n) = Some (backup_outcome c i)) (eg_Nodes (backup_graph c))"
    "deps_of (eg_Nodes (backup_graph c)) ''connectivity'' = []" "deps_of (eg_Nodes (backup_graph c)) ''backup-pki'' = [''connectivity'']"
    by (simp_all add: graph_facts_def)
qed

lemma backup_fresh: "fresh_run id NewExecutor (io_ok t) (backup_graph c) []"
proof -
  have "0 < ex_maxWorkers NewExecutor" "0 \<le> rc_maxRetries (ex_retry NewExecutor)" by code_simp+
  moreover have "load_checkpoint id NewExecutor (io_ok t) [] = None"
    by (simp add: load_checkpoint_def checkpointing_def NewExecutor_def)
  ultimately show ?thesis
    using backup_graph_facts(1-3)[of c] by (auto simp: fresh_run_def list_all_iff split: option.splits)
qed

lemma backup_world: "plan_world (backup_graph c) demo_world"
  using backup_graph_facts(3)[of c]
  by (fastforce simp: plan_world_def demo_world_def demo_env_def node_env_ok_def list_all_iff split: option.splits)

lemma backup_outcomes: "outcomes demo_world NewExecutor (backup_graph c) (backup_outcome c)"
  using backup_graph_facts(3)[of c]
  by (fastforce simp: outcomes_def demo_world_def list_all_iff dest!: gm_get_in_set split: option.splits)

lemma backup_run:
  obtains s result where "(exec_step demo_world NewExecutor (backup_graph c))\<^sup>*\<^sup>* (exec_init id NewExecutor (io_ok 0) (backup_graph c) demo_bags []) s"
    "x_phase s = PDone result" "st s ''connectivity'' = backup_outcome c ''connectivity''" "\<not> c \<Longrightarrow> ''backup-pki'' \<in> set (x_started s)"
proof -
  obtain s result where s: "(exec_step demo_world NewExecutor (backup_graph c))\<^sup>*\<^sup>* (exec_init id NewExecutor (io_ok 0) (backup_graph c) demo_bags []) s"
    "x_phase s = PDone result" using reaches_done[OF backup_fresh backup_world] by blast
  have inv: "run_inv (eg_Nodes (backup_graph c)) s" by (rule reachable_inv[OF backup_fresh s(1)])
  have "node_ids (eg_Nodes (backup_graph c)) = (\<Union>f \<in> set (backup_fragments c). frag_ids f)"
    by (rule planned_sound(2)[OF backup_planned backup_fragments_def backup_sound(1)])
  moreover have "backup_fragments c ! 0 \<in> set (backup_fragments c)" "backup_fragments c ! 1 \<in> set (backup_fragments c)"
    using backup_ids(1)[of c] by (simp_all add: nth_mem)
  ultimately have ids: "''connectivity'' \<in> node_ids (eg_Nodes (backup_graph c))" "''backup-pki'' \<in> node_ids (eg_Nodes (backup_graph c))"
    using backup_ids(2,3)[of c] by auto
  note settled = done_settled[OF inv s(2) fresh_runD(3)[OF backup_fresh]]
  have "''connectivity'' \<in> set (x_received s)" using settled[OF ids(1)] backup_graph_facts(4)[of c] by simp
  then have conn: "st s ''connectivity'' = backup_outcome c ''connectivity''"
    using reachable_outcomes[OF backup_fresh backup_outcomes s(1)] by simp
  have "''backup-pki'' \<in> set (x_received s)" if "\<not> c"
    using settled[OF ids(2)] backup_graph_facts(5)[of c] conn that by (simp add: backup_outcome_def)
  then show ?thesis
    using that[OF s conn] inv inv_received_started[of "eg_Nodes (backup_graph c)" s] by (auto simp: run_inv_def exec_inv_def)
qed




section \<open>Backup in a context without connections\<close>

lemma PlanTasks_panics:
  assumes "tk_IsRequired t = Returns True None" "tk_Plan t = Panics e"
  shows "PlanTasks True (NewBaseModule nm [t]) = Aborts"
  using assms by (simp add: PlanTasks_def NewBaseModule_def)

lemma chained_panics: "tk_IsRequired t = Panics e \<Longrightarrow> chained nm True (t # ts) = Aborts"
  by (simp add: chained_def ask_required_def)

lemma backup_modules_panic:
  assumes "\<And>role. role \<noteq> [] \<Longrightarrow> \<exists>e. GetHostsByRole role (fst (te_Context env)) = Inl e" "mc_IsTaskContext ctx"
  shows "Module_Plan (with_host_tasks env other) ctx PreflightConnectivityModule = Aborts"
    and "Module_Plan (with_host_tasks env other) ctx (BackupModule backupType) = Aborts"
proof -
  let ?tw = "with_host_tasks env other"
  obtain e where "CheckConnectivityTask_Plan env = Panics e" using tasks_panic(1)[OF assms(1)] by blast
  then show "Module_Plan ?tw ctx PreflightConnectivityModule = Aborts" using assms(2)
    by (simp add: PreflightConnectivityModule_Plan_def NewPreflightConnectivityModule_def with_host_tasks_def host_task_def PlanTasks_panics)
  have required: "\<exists>e. tk_IsRequired (maintenance_task env t) = Panics e" if "t \<in> {BackupPKITask, BackupEtcdTask, BackupK8sConfigsTask}" for t
    by (rule tasks_panic(2)[OF assms(1) that])
  have "chained nm True (maintenance_task env t # ts) = Aborts" if "t \<in> {BackupPKITask, BackupEtcdTask, BackupK8sConfigsTask}" for nm t ts
    using required[OF that] chained_panics by blast
  note aborts = this
  show "Module_Plan ?tw ctx (BackupModule backupType) = Aborts" using assms(2) aborts[of _ "''Backup''"]
    by (simp add: BackupModule_Plan_def NewBackupModule_def NewBaseModule_def with_host_tasks_def task_context_def del: maintenance_task.simps)
qed

text \<open>C26: the command \<^verbatim>\<open>backup\<close> builds its context without connecting the hosts. Then, for every
  configuration, kind of backup and engine, planning panics inside both modules, the panics are
  lost, the plan is empty, and \<^verbatim>\<open>Run\<close> reports success without having called the engine: nothing is
  backed up.\<close>

theorem backup_without_connections_succeeds:
  assumes "Build benv order (WithSkipConfigValidation True (WithSkipHostConnect True (NewBuilderFromConfig cfg))) bags caches = Built (c, bags', caches')"
    and "ControlNodeHostName \<notin> hs_Name ` set (cl_Hosts cfg)" "fst (te_Context env) = c"
    and "pc_IsModuleContext ctx" "pc_IsRuntimeContext ctx" "mc_IsTaskContext (pc_Module ctx)"
  shows "\<exists>g. BackupPipeline_Plan (with_host_tasks env other) ctx (NewBackupPipeline backupType) = (Some g, None) \<and> IsEmpty g \<and>
    (\<forall>engine dry. BackupPipeline_Run (with_host_tasks env other) engine ctx (NewBackupPipeline backupType) (Some g) dry =
       Returns (Some (empty_result ''Backup'' StatusSuccess)) None)"
proof -
  let ?b = "WithSkipConfigValidation True (WithSkipHostConnect True (NewBuilderFromConfig cfg))" and ?tw = "with_host_tasks env other"
  let ?p = "NewBackupPipeline backupType"
  have b: "bd_skipHostConnect ?b" "getOrParseConfig benv ?b = Built cfg"
    by (simp_all add: WithSkipConfigValidation_def WithSkipHostConnect_def NewBuilderFromConfig_def getOrParseConfig_def)
  have "\<exists>e. GetHostsByRole role (fst (te_Context env)) = Inl e" if "role \<noteq> []" for role
    using skipped_connect_panics[OF assms(1) b assms(2) that] assms(3) by simp
  note panics = backup_modules_panic[OF this assms(6), of other]
  have p: "\<exists>t. pl_Modules ?p = [PreflightConnectivityModule, BackupModule t]" "pl_Name ?p = ''Backup''"
    by (simp_all add: NewBackupPipeline_def NewBase_def Let_def)
  have lost: "assemble add (map (module_answer ?tw (pc_Module ctx)) [PreflightConnectivityModule, BackupModule t]) prev g = Done g" for add t prev g
    by (simp add: module_answer_def panics SafeModulePlan_def del: Module_Plan.simps)
  let ?g = "NewExecutionGraph ''Backup''"
  have "CalculateEntryAndExitNodes ?g = Inr ?g" "Validate ?g = None" by code_simp+
  then have "plan_linked ?tw ctx ?p = Done ?g"
    using p assms(4) lost by (auto simp: plan_linked_def plan_modules_def module_answers_def)
  then have plan: "BackupPipeline_Plan ?tw ctx ?p = (Some ?g, None)" by (simp add: BackupPipeline_Plan_def SafePlan_def)
  have "IsEmpty ?g" by code_simp
  with plan show ?thesis using assms(5) p(2) by (simp add: BackupPipeline_Run_def run_pipeline_def run_graph_def)
qed

theorem backup_without_connections_succeeds_witness:
  "\<exists>c bags caches g. Build example_env rev (WithSkipConfigValidation True (WithSkipHostConnect True (NewBuilderFromConfig example_cluster))) [] [] = Built (c, bags, caches) \<and>
     BackupPipeline_Plan (with_host_tasks (example_task_env (c, bags)) (\<lambda>_. host_task [] (Returns False None) (Returns None None)))
       (pipeline_ctx demo_spec) (NewBackupPipeline ''all'') = (Some g, None) \<and> IsEmpty g"
proof -
  let ?b = "WithSkipConfigValidation True (WithSkipHostConnect True (NewBuilderFromConfig example_cluster))"
  have "case Build example_env rev ?b [] [] of Built _ \<Rightarrow> True | _ \<Rightarrow> False" by code_simp
  then obtain c bags caches where c: "Build example_env rev ?b [] [] = Built (c, bags, caches)" by (cases "Build example_env rev ?b [] []") auto
  have "ControlNodeHostName \<notin> hs_Name ` set (cl_Hosts example_cluster)"
    by (simp add: example_cluster_def example_host_def ControlNodeHostName_def zero_HostSpec_def)
  moreover have "fst (te_Context (example_task_env (c, bags))) = c" by (simp add: example_task_env_def)
  moreover have "pc_IsModuleContext (pipeline_ctx demo_spec)" "pc_IsRuntimeContext (pipeline_ctx demo_spec)"
    "mc_IsTaskContext (pc_Module (pipeline_ctx demo_spec))" by (simp_all add: pipeline_ctx_def)
  ultimately show ?thesis using backup_without_connections_succeeds[OF c] c by blast
qed

end
